(* ===== verification/X3_Prelude.thy ===== *)
theory X3_Prelude
  imports Main "HOL-Library.Word"
begin

text \<open>
  Shared vocabulary of the development: bytes and C integers, little-endian
  encodings, bounded memory accesses (an access outside an array is \<open>None\<close>,
  the model's value for undefined behaviour), the decimal text that
  \<open>sprintf("%d")\<close> prints, and the lemmas on them that several components use.
\<close>

unbundle bit_operations_syntax

named_theorems wf_intros "preservation of a component's invariant by its operations"
named_theorems frame_simps "components of the state that an operation leaves alone"

type_synonym byte = "8 word"

section \<open>C integers\<close>

text \<open>A signed 32-bit \<open>int\<close> is an \<open>int\<close> with the wrap-around of two's complement written out.\<close>

definition c32 :: "int \<Rightarrow> int" where
  "c32 x = (x + 2^31) mod 2^32 - 2^31"

definition is_c32 :: "int \<Rightarrow> bool" where
  "is_c32 x = (- (2^31) \<le> x \<and> x < 2^31)"

lemma c32_id [simp]: "is_c32 x \<Longrightarrow> c32 x = x"
  by (simp add: c32_def is_c32_def)

lemma is_c32_c32 [simp]: "is_c32 (c32 x)"
proof -
  have "0 \<le> (x + 2^31) mod 2^32" "(x + 2^31) mod 2^32 < 2^32"
    by (rule pos_mod_sign, simp) (rule pos_mod_bound, simp)
  then show ?thesis by (simp add: c32_def is_c32_def)
qed

lemma c32_idem [simp]: "c32 (c32 x) = c32 x"
  by simp

section \<open>Bounded memory\<close>

text \<open>\<open>memcpy\<close> into and out of an array: \<open>None\<close> when a byte falls outside it.\<close>

definition write_at :: "'a list \<Rightarrow> nat \<Rightarrow> 'a list \<Rightarrow> 'a list option" where
  "write_at buf off xs =
     (if off + length xs \<le> length buf
      then Some (take off buf @ xs @ drop (off + length xs) buf) else None)"

definition read_at :: "'a list \<Rightarrow> nat \<Rightarrow> nat \<Rightarrow> 'a list option" where
  "read_at buf off n = (if off + n \<le> length buf then Some (take n (drop off buf)) else None)"

lemma write_at_length: "write_at buf off xs = Some b' \<Longrightarrow> length b' = length buf"
  by (auto simp: write_at_def split: if_splits)

lemma write_at_eq_Some [simp]:
  "(\<exists>b'. write_at buf off xs = Some b') \<longleftrightarrow> off + length xs \<le> length buf"
  by (simp add: write_at_def)

lemma write_at_None_iff: "write_at buf off xs = None \<longleftrightarrow> length buf < off + length xs"
  by (auto simp: write_at_def)

lemma read_write_same:
  "write_at buf off xs = Some b' \<Longrightarrow> read_at b' off (length xs) = Some xs"
  by (auto simp: write_at_def read_at_def min_def split: if_splits)

lemma write_at_prefix:
  "write_at buf off xs = Some b' \<Longrightarrow> take off b' = take off buf"
  by (auto simp: write_at_def split: if_splits)

lemma write_at_extend:
  "write_at buf off xs = Some b' \<Longrightarrow> take (off + length xs) b' = take off buf @ xs"
  by (auto simp: write_at_def split: if_splits)

lemma read_at_take:
  "off + n \<le> m \<Longrightarrow> m \<le> length b \<Longrightarrow> read_at b off n = read_at (take m b) off n"
  by (simp add: read_at_def drop_take min_def)

lemma read_at_cong:
  assumes "take m a = take m b" "off + n \<le> m" "m \<le> length a" "m \<le> length b"
  shows "read_at a off n = read_at b off n"
  using assms read_at_take[of off n m a] read_at_take[of off n m b] by simp

lemma read_at_length: "read_at b off n = Some xs \<Longrightarrow> length xs = n"
  by (auto simp: read_at_def split: if_splits)

section \<open>Little-endian encodings\<close>

definition le16 :: "16 word \<Rightarrow> byte list" where
  "le16 w = [ucast w, ucast (drop_bit 8 w)]"

definition le32 :: "32 word \<Rightarrow> byte list" where
  "le32 w = [ucast w, ucast (drop_bit 8 w), ucast (drop_bit 16 w), ucast (drop_bit 24 w)]"

fun un_le16 :: "byte list \<Rightarrow> 16 word" where
  "un_le16 [a, b] = ucast a OR push_bit 8 (ucast b)"
| "un_le16 _ = 0"

fun un_le32 :: "byte list \<Rightarrow> 32 word" where
  "un_le32 [a, b, c, d] =
     ucast a OR push_bit 8 (ucast b) OR push_bit 16 (ucast c) OR push_bit 24 (ucast d)"
| "un_le32 _ = 0"

lemma length_le16 [simp]: "length (le16 w) = 2"
  by (simp add: le16_def)

lemma length_le32 [simp]: "length (le32 w) = 4"
  by (simp add: le32_def)

lemma un_le16_le16 [simp]: "un_le16 (le16 w) = w"
  by (rule bit_word_eqI)
     (auto simp: le16_def bit_or_iff bit_push_bit_iff bit_ucast_iff bit_drop_bit_eq)

lemma un_le32_le32 [simp]: "un_le32 (le32 w) = w"
proof (rule bit_word_eqI)
  fix n assume n: "n < LENGTH(32)"
  consider "n < 8" | "8 \<le> n" "n < 16" | "16 \<le> n" "n < 24" | "24 \<le> n" by linarith
  then show "bit (un_le32 (le32 w)) n = bit w n"
    using n by cases (auto simp: le32_def bit_or_iff bit_push_bit_iff bit_ucast_iff bit_drop_bit_eq)
qed

lemma le16_un_le16:
  assumes "length xs = 2"
  shows "le16 (un_le16 xs) = xs"
proof -
  obtain a b where xs: "xs = [a, b]" using assms by (auto simp: length_Suc_conv numeral_2_eq_2)
  have "ucast (un_le16 [a, b]) = a"
    by (rule bit_word_eqI) (auto simp: bit_or_iff bit_push_bit_iff bit_ucast_iff)
  moreover have "ucast (drop_bit 8 (un_le16 [a, b])) = b"
    by (rule bit_word_eqI)
      (auto simp: bit_or_iff bit_push_bit_iff bit_ucast_iff bit_drop_bit_eq dest: bit_imp_le_length)
  ultimately show ?thesis by (simp add: xs le16_def)
qed

section \<open>Decimal text\<close>

fun show_nat :: "nat \<Rightarrow> string" where
  "show_nat n =
     (if n < 10 then [''0123456789'' ! n]
      else show_nat (n div 10) @ [''0123456789'' ! (n mod 10)])"

declare show_nat.simps [simp del]

definition show_int :: "int \<Rightarrow> string" where
  "show_int i = (if i < 0 then CHR ''-'' # show_nat (nat (- i)) else show_nat (nat i))"

lemma show_nat_length: "n < 10 ^ k \<Longrightarrow> 0 < k \<Longrightarrow> length (show_nat n) \<le> k"
proof (induction k arbitrary: n)
  case (Suc k)
  show ?case
  proof (cases "n < 10")
    case True then show ?thesis by (subst show_nat.simps) simp
  next
    case False
    then have "0 < k" using Suc.prems by (cases k) auto
    moreover have "n div 10 < 10 ^ k" using Suc.prems by (simp add: less_mult_imp_div_less)
    ultimately have "length (show_nat (n div 10)) \<le> k" by (rule Suc.IH[rotated])
    then show ?thesis using False by (subst show_nat.simps) simp
  qed
qed simp

lemma show_int_length: "is_c32 i \<Longrightarrow> length (show_int i) \<le> 11"
proof -
  assume "is_c32 i"
  then have "nat i < 10 ^ 10" "nat (- i) < 10 ^ 10" by (auto simp: is_c32_def)
  then have "length (show_nat (nat i)) \<le> 10" "length (show_nat (nat (- i))) \<le> 10"
    by (auto intro!: show_nat_length)
  then show ?thesis by (simp add: show_int_def)
qed

lemma show_nat_neq_Nil [simp]: "show_nat n \<noteq> []"
  by (subst show_nat.simps) simp

section \<open>Reading digits\<close>

text \<open>\<open>c - 48\<close> as an unsigned number below ten.\<close>

definition digit_of :: "char \<Rightarrow> int option" where
  "digit_of c = (let n = int (of_char c) - 48 in if 0 \<le> n \<and> n < 10 then Some n else None)"

lemma digit_of_char:
  assumes "d < 10"
  shows "digit_of (''0123456789'' ! d) = Some (int d)"
proof -
  have "d \<in> {0, 1, 2, 3, 4, 5, 6, 7, 8, 9}" using assms by auto
  then show ?thesis by (auto simp: digit_of_def)
qed

lemma show_nat_first: "hd (show_nat n) \<noteq> CHR ''-''"
proof (induction n rule: show_nat.induct)
  case (1 n)
  have dig: "''0123456789'' ! d \<noteq> CHR ''-''" if "d < 10" for d
  proof -
    have "d \<in> {0, 1, 2, 3, 4, 5, 6, 7, 8, 9}" using that by auto
    then show ?thesis by auto
  qed
  show ?case using 1 dig by (subst show_nat.simps) (auto simp: hd_append)
qed

end
