(* ===== verification/Lights.thy ===== *)
theory Lights
  imports X3_Prelude
begin

text \<open>
  The lights HAL, \<open>src/hal/liblights/lights.c\<close>: the three LED channels and their
  blink state, the back lights, the trackball light, and the device entry point
  \<open>open_lights\<close>.  System calls are events of a trace; what each call returns is an
  oracle of the trace so far, so one environment stands for every behaviour of the
  kernel.  \<open>g_lock\<close> serialises the operations: each operation is one step.
\<close>

section \<open>Environment and state\<close>

datatype amode = F_OK | RW_OK | W_OK

datatype wres = Wrote nat | WErr int

datatype ev =
    EvOpen string "int option"
  | EvWrite string string wres
  | EvClose string "int option"
  | EvAccess string amode "int option"
  | EvDelay nat

record lenv =
  open_err :: "ev list \<Rightarrow> string \<Rightarrow> int option"
  write_res :: "ev list \<Rightarrow> string \<Rightarrow> string \<Rightarrow> wres"
  close_err :: "ev list \<Rightarrow> string \<Rightarrow> int option"
  access_err :: "ev list \<Rightarrow> string \<Rightarrow> amode \<Rightarrow> int option"
  malloc_ok :: "ev list \<Rightarrow> bool"

datatype flash_mode = FLASH_NONE | FLASH_TIMED | FLASH_HARDWARE | FLASH_OTHER int

record light_state =
  color :: "32 word"
  flashMode :: flash_mode
  flashOnMS :: int
  flashOffMS :: int

datatype led = Red | Green | Blue

record lights_st =
  g_inited :: bool
  g_haveTrackballLight :: bool
  g_notification :: light_state
  g_battery :: light_state
  g_backlight :: int
  g_trackball :: int
  g_buttons :: int
  g_attention :: int
  preStatus :: "led \<Rightarrow> nat"
  trace :: "ev list"

definition zero_light :: light_state where
  "zero_light = \<lparr>color = 0, flashMode = FLASH_NONE, flashOnMS = 0, flashOffMS = 0\<rparr>"

definition lights_init :: lights_st where
  "lights_init = \<lparr>g_inited = False, g_haveTrackballLight = False, g_notification = zero_light,
     g_battery = zero_light, g_backlight = 255, g_trackball = - 1, g_buttons = 0,
     g_attention = 0, preStatus = (\<lambda>_. 0), trace = []\<rparr>"

definition TRACKBALL_FILE :: string where
  "TRACKBALL_FILE = ''/sys/class/leds/jogball-backlight/brightness''"

definition LCD_FILE :: string where
  "LCD_FILE = ''/sys/class/leds/lcd-backlight/brightness''"

definition KEYBOARD_FILE :: string where
  "KEYBOARD_FILE = ''/sys/class/leds/keyboard-backlight/brightness''"

definition BUTTON_FILE :: string where
  "BUTTON_FILE = ''/sys/class/leds/button-backlight/brightness''"

fun led_dir :: "led \<Rightarrow> string" where
  "led_dir Red = ''/sys/class/leds/red/''"
| "led_dir Green = ''/sys/class/leds/green/''"
| "led_dir Blue = ''/sys/class/leds/blue/''"

definition LED_FILE :: "led \<Rightarrow> string" where
  "LED_FILE c = led_dir c @ ''brightness''"

definition TRIGGER_FILE :: "led \<Rightarrow> string" where
  "TRIGGER_FILE c = led_dir c @ ''trigger''"

definition DELAY_ON_FILE :: "led \<Rightarrow> string" where
  "DELAY_ON_FILE c = led_dir c @ ''delay_on''"

definition DELAY_OFF_FILE :: "led \<Rightarrow> string" where
  "DELAY_OFF_FILE c = led_dir c @ ''delay_off''"

section \<open>Writing to sysfs\<close>

definition emit :: "ev \<Rightarrow> lights_st \<Rightarrow> lights_st" where
  "emit e s = s\<lparr>trace := trace s @ [e]\<rparr>"

text \<open>
  \<open>write_text\<close> is the common body of \<open>write_int\<close> and \<open>write_str\<close> after \<open>sprintf\<close>.  The
  error it returns is \<open>errno\<close> as it stands after \<open>close\<close>.
\<close>

definition write_text :: "lenv \<Rightarrow> string \<Rightarrow> string \<Rightarrow> lights_st \<Rightarrow> int \<times> lights_st" where
  "write_text env path txt s =
     (case open_err env (trace s) path of
        Some e \<Rightarrow> (- e, emit (EvOpen path (Some e)) s)
      | None \<Rightarrow>
          (let s1 = emit (EvOpen path None) s;
               amt = write_res env (trace s1) path txt;
               s2 = emit (EvWrite path txt amt) s1;
               c = close_err env (trace s2) path;
               s3 = emit (EvClose path c) s2
           in (case amt of Wrote _ \<Rightarrow> 0
               | WErr e \<Rightarrow> - (case c of None \<Rightarrow> e | Some e' \<Rightarrow> e'), s3)))"

definition int_text :: "int \<Rightarrow> string" where
  "int_text v = show_int v @ [CHR 0x0A]"

definition write_int :: "lenv \<Rightarrow> string \<Rightarrow> int \<Rightarrow> lights_st \<Rightarrow> int \<times> lights_st" where
  "write_int env path value s = write_text env path (int_text value) s"

definition write_str :: "lenv \<Rightarrow> string \<Rightarrow> string \<Rightarrow> lights_st \<Rightarrow> int \<times> lights_st" where
  "write_str env path str s = write_text env path str s"

definition sys_access :: "lenv \<Rightarrow> string \<Rightarrow> amode \<Rightarrow> lights_st \<Rightarrow> int option \<times> lights_st" where
  "sys_access env path m s =
     (let e = access_err env (trace s) path m in (e, emit (EvAccess path m e) s))"

definition init_globals :: "lenv \<Rightarrow> lights_st \<Rightarrow> lights_st" where
  "init_globals env s =
     (let (e, s1) = sys_access env TRACKBALL_FILE W_OK s
      in s1\<lparr>g_haveTrackballLight := (e = None)\<rparr>)"

section \<open>The busy wait\<close>

text \<open>
  \<open>led_wait_delay\<close> reads the clock until the difference, cast to \<open>unsigned int\<close>, reaches
  \<open>ms\<close>.  \<open>clk k\<close> is the k-th reading (seconds, microseconds); the result is the number of
  readings after the first one, and \<open>None\<close> is a loop that never leaves.
\<close>

definition clock_ms :: "(nat \<Rightarrow> int \<times> int) \<Rightarrow> nat \<Rightarrow> int" where
  "clock_ms clk k = fst (clk k) * 1000 + snd (clk k) div 1000"

partial_function (option) led_wait_loop ::
    "(nat \<Rightarrow> int \<times> int) \<Rightarrow> nat \<Rightarrow> nat \<Rightarrow> int \<Rightarrow> nat option" where
  "led_wait_loop clk ms k time_diff =
     (if time_diff mod 2^32 < int ms
      then led_wait_loop clk ms (Suc k) (clock_ms clk (Suc k) - clock_ms clk 0)
      else Some k)"

definition led_wait_delay :: "(nat \<Rightarrow> int \<times> int) \<Rightarrow> nat \<Rightarrow> nat option" where
  "led_wait_delay clk ms = led_wait_loop clk ms 0 0"

section \<open>The LED channels\<close>

definition is_lit :: "light_state \<Rightarrow> int" where
  "is_lit st = uint (color st AND 0x00ffffff)"

definition now_status :: "int \<Rightarrow> int \<Rightarrow> int \<Rightarrow> nat" where
  "now_status level onMS offMS =
     (if level = 0 then 0 else if onMS \<noteq> 0 \<and> offMS \<noteq> 0 then 1 else 2)"

definition node_missing :: "lenv \<Rightarrow> string \<Rightarrow> lights_st \<Rightarrow> bool \<times> lights_st" where
  "node_missing env path s =
     (let (e1, s1) = sys_access env path F_OK s
      in if e1 \<noteq> None then (True, s1)
         else let (e2, s2) = sys_access env path RW_OK s1 in (e2 \<noteq> None, s2))"

function wait_node :: "lenv \<Rightarrow> string \<Rightarrow> nat \<Rightarrow> lights_st \<Rightarrow> lights_st" where
  "wait_node env path i s =
     (let (missing, s1) = node_missing env path s
      in if missing \<and> i < 10 then wait_node env path (i + 1) (emit (EvDelay 5) s1) else s1)"
  by pat_completeness auto
termination by (relation "measure (\<lambda>(_, _, i, _). 10 - i)") auto

declare wait_node.simps [simp del]

definition blink_led :: "lenv \<Rightarrow> led \<Rightarrow> int \<Rightarrow> int \<Rightarrow> int \<Rightarrow> lights_st \<Rightarrow> int \<times> lights_st" where
  "blink_led env c level onMS offMS s =
     (let nowStatus = now_status level onMS offMS in
      if preStatus s c = nowStatus then (- 1, s)
      else
        let s' =
          (if nowStatus = 0 then snd (write_int env (LED_FILE c) 0 s)
           else if nowStatus = 1 then
             (let s1 = snd (write_str env (TRIGGER_FILE c) ''timer'' s);
                  s2 = wait_node env (DELAY_OFF_FILE c) 0 s1;
                  s3 = snd (write_int env (DELAY_OFF_FILE c) offMS s2)
              in snd (write_int env (DELAY_ON_FILE c) onMS s3))
           else
             (let s1 = snd (write_str env (TRIGGER_FILE c) ''none'' s)
              in snd (write_int env (LED_FILE c) 255 s1)))
        in (0, s'\<lparr>preStatus := (preStatus s')(c := nowStatus)\<rparr>))"

definition blink_red :: "lenv \<Rightarrow> int \<Rightarrow> int \<Rightarrow> int \<Rightarrow> lights_st \<Rightarrow> lights_st" where
  "blink_red env level onMS offMS s = snd (blink_led env Red level onMS offMS s)"

definition blink_green :: "lenv \<Rightarrow> int \<Rightarrow> int \<Rightarrow> int \<Rightarrow> lights_st \<Rightarrow> lights_st" where
  "blink_green env level onMS offMS s = snd (blink_led env Green level onMS offMS s)"

definition blink_blue :: "lenv \<Rightarrow> int \<Rightarrow> int \<Rightarrow> int \<Rightarrow> lights_st \<Rightarrow> lights_st" where
  "blink_blue env level onMS offMS s = snd (blink_led env Blue level onMS offMS s)"

definition set_speaker_light_locked :: "lenv \<Rightarrow> light_state \<Rightarrow> lights_st \<Rightarrow> lights_st" where
  "set_speaker_light_locked env st s =
     (let (onMS, offMS) =
            (case flashMode st of FLASH_TIMED \<Rightarrow> (flashOnMS st, flashOffMS st) | _ \<Rightarrow> (0, 0));
          colorRGB = color st;
          alpha = uint (drop_bit 24 colorRGB AND 0xFF);
          (red, green, blue) =
            (if alpha \<noteq> 0
             then (uint (drop_bit 16 colorRGB AND 0xFF), uint (drop_bit 8 colorRGB AND 0xFF),
                   uint (colorRGB AND 0xFF))
             else (0, 0, 0))
      in if red \<noteq> 0 then
           blink_red env red onMS offMS (blink_blue env 0 0 0 (blink_green env 0 0 0 s))
         else if green \<noteq> 0 then
           blink_green env green onMS offMS (blink_blue env 0 0 0 (blink_red env 0 0 0 s))
         else if blue \<noteq> 0 then
           blink_blue env blue onMS offMS (blink_green env 0 0 0 (blink_red env 0 0 0 s))
         else
           blink_blue env 0 0 0 (blink_green env 0 0 0 (blink_red env 0 0 0 s)))"

definition handle_speaker_battery_locked :: "lenv \<Rightarrow> lights_st \<Rightarrow> lights_st" where
  "handle_speaker_battery_locked env s =
     (if is_lit (g_battery s) \<noteq> 0 then set_speaker_light_locked env (g_battery s) s
      else let s1 = set_speaker_light_locked env (g_battery s) s
           in set_speaker_light_locked env (g_notification s1) s1)"

section \<open>Back lights and the trackball\<close>

definition handle_trackball_light_locked :: "lenv \<Rightarrow> lights_st \<Rightarrow> int \<times> lights_st" where
  "handle_trackball_light_locked env s =
     (let mode = (if g_attention s = 7 \<and> g_backlight s \<noteq> 0 then 0 else g_attention s)
      in if g_trackball s = mode then (0, s) else write_int env TRACKBALL_FILE mode s)"

definition rgb_to_brightness :: "light_state \<Rightarrow> int" where
  "rgb_to_brightness st =
     (let c = uint (color st AND 0x00ffffff)
      in drop_bit 8 (77 * (drop_bit 16 c AND 0x00ff)
           + (150 * (drop_bit 8 c AND 0x00ff)) + (29 * (c AND 0x00ff))))"

section \<open>Device operations\<close>

definition set_light_backlight :: "lenv \<Rightarrow> light_state \<Rightarrow> lights_st \<Rightarrow> int \<times> lights_st" where
  "set_light_backlight env st s =
     (let brightness = rgb_to_brightness st;
          (err, s1) = write_int env LCD_FILE brightness (s\<lparr>g_backlight := brightness\<rparr>);
          s2 = (if g_haveTrackballLight s1 then snd (handle_trackball_light_locked env s1) else s1)
      in (err, s2))"

definition set_light_keyboard :: "lenv \<Rightarrow> light_state \<Rightarrow> lights_st \<Rightarrow> int \<times> lights_st" where
  "set_light_keyboard env st s =
     write_int env KEYBOARD_FILE (if is_lit st \<noteq> 0 then 255 else 0) s"

definition set_light_buttons :: "lenv \<Rightarrow> light_state \<Rightarrow> lights_st \<Rightarrow> int \<times> lights_st" where
  "set_light_buttons env st s =
     (let on = is_lit st
      in write_int env BUTTON_FILE (if on \<noteq> 0 then 255 else 0) (s\<lparr>g_buttons := on\<rparr>))"

definition set_light_battery :: "lenv \<Rightarrow> light_state \<Rightarrow> lights_st \<Rightarrow> int \<times> lights_st" where
  "set_light_battery env st s =
     (let s1 = s\<lparr>g_battery := st\<rparr>;
          s2 = (if g_haveTrackballLight s1 then set_speaker_light_locked env st s1 else s1)
      in (0, handle_speaker_battery_locked env s2))"

definition set_light_notifications :: "lenv \<Rightarrow> light_state \<Rightarrow> lights_st \<Rightarrow> int \<times> lights_st" where
  "set_light_notifications env st s =
     (let s1 = s\<lparr>g_notification := st\<rparr>;
          s2 = (if g_haveTrackballLight s1 then snd (handle_trackball_light_locked env s1) else s1)
      in (0, handle_speaker_battery_locked env s2))"

definition set_light_attention :: "lenv \<Rightarrow> light_state \<Rightarrow> lights_st \<Rightarrow> int \<times> lights_st" where
  "set_light_attention env st s =
     (let s1 = (case flashMode st of
                  FLASH_HARDWARE \<Rightarrow> s\<lparr>g_attention := flashOnMS st\<rparr>
                | FLASH_NONE \<Rightarrow> s\<lparr>g_attention := 0\<rparr>
                | _ \<Rightarrow> s);
          s2 = (if g_haveTrackballLight s1 then snd (handle_trackball_light_locked env s1) else s1)
      in (0, s2))"

section \<open>Opening the device\<close>

datatype light_fn = FnBacklight | FnKeyboard | FnButtons | FnBattery | FnNotifications | FnAttention

text \<open>The \<open>LIGHT_ID_*\<close> strings come from \<open>hardware/lights.h\<close>, outside the repository.\<close>

record light_ids =
  id_backlight :: string
  id_keyboard :: string
  id_buttons :: string
  id_battery :: string
  id_notifications :: string
  id_attention :: string

definition EINVAL :: int where "EINVAL = 22"
definition ENOMEM :: int where "ENOMEM = 12"

fun check_nodes :: "lenv \<Rightarrow> string list \<Rightarrow> lights_st \<Rightarrow> int option \<times> lights_st" where
  "check_nodes env [] s = (None, s)"
| "check_nodes env (p # ps) s =
     (let (e, s1) = sys_access env p F_OK s
      in case e of None \<Rightarrow> check_nodes env ps s1 | Some n \<Rightarrow> (Some n, s1))"

definition light_of_name :: "light_ids \<Rightarrow> string \<Rightarrow> (light_fn \<times> string list) option" where
  "light_of_name ids name =
     (if id_backlight ids = name then Some (FnBacklight, [LCD_FILE])
      else if id_keyboard ids = name then Some (FnKeyboard, [KEYBOARD_FILE])
      else if id_buttons ids = name then Some (FnButtons, [BUTTON_FILE])
      else if id_battery ids = name
        then Some (FnBattery, [LED_FILE Red, LED_FILE Green, LED_FILE Blue])
      else if id_notifications ids = name
        then Some (FnNotifications, [LED_FILE Red, LED_FILE Green, LED_FILE Blue])
      else if id_attention ids = name
        then Some (FnAttention, [LED_FILE Red, LED_FILE Green, LED_FILE Blue])
      else None)"

definition open_lights :: "lenv \<Rightarrow> light_ids \<Rightarrow> string \<Rightarrow> lights_st \<Rightarrow> (int + light_fn) \<times> lights_st"
  where
  "open_lights env ids name s =
     (case light_of_name ids name of
        None \<Rightarrow> (Inl (- EINVAL), s)
      | Some (f, nodes) \<Rightarrow>
          (case check_nodes env nodes s of
             (Some e, s1) \<Rightarrow> (Inl (- e), s1)
           | (None, s1) \<Rightarrow>
               (let s2 = (if g_inited s1 then s1 else (init_globals env s1)\<lparr>g_inited := True\<rparr>)
                in if malloc_ok env (trace s2) then (Inr f, s2) else (Inl (- ENOMEM), s2))))"

fun set_light :: "lenv \<Rightarrow> light_fn \<Rightarrow> light_state \<Rightarrow> lights_st \<Rightarrow> int \<times> lights_st" where
  "set_light env FnBacklight st s = set_light_backlight env st s"
| "set_light env FnKeyboard st s = set_light_keyboard env st s"
| "set_light env FnButtons st s = set_light_buttons env st s"
| "set_light env FnBattery st s = set_light_battery env st s"
| "set_light env FnNotifications st s = set_light_notifications env st s"
| "set_light env FnAttention st s = set_light_attention env st s"

text \<open>The states the module can be in: opened any number of times, any device operated.\<close>

inductive lights_reach :: "lenv \<Rightarrow> light_ids \<Rightarrow> lights_st \<Rightarrow> bool" for env ids where
  reach_init: "lights_reach env ids lights_init"
| reach_open: "lights_reach env ids s \<Longrightarrow> lights_reach env ids (snd (open_lights env ids name s))"
| reach_set: "lights_reach env ids s \<Longrightarrow> lights_reach env ids (snd (set_light env f st s))"

section \<open>What an operation leaves alone\<close>

definition untr :: "lights_st \<Rightarrow> lights_st" where
  "untr s = s\<lparr>trace := []\<rparr>"

lemma untr_emit [frame_simps]: "untr (emit e s) = untr s"
  by (simp add: untr_def emit_def)

lemma untr_write_text [frame_simps]: "untr (snd (write_text env p x s)) = untr s"
  by (auto simp: write_text_def Let_def frame_simps split: option.splits)

lemma untr_write_int [frame_simps]: "untr (snd (write_int env p v s)) = untr s"
  by (simp add: write_int_def frame_simps)

lemma untr_write_str [frame_simps]: "untr (snd (write_str env p v s)) = untr s"
  by (simp add: write_str_def frame_simps)

lemma untr_sys_access [frame_simps]: "untr (snd (sys_access env p m s)) = untr s"
  by (simp add: sys_access_def Let_def frame_simps)

lemma untr_node_missing [frame_simps]: "untr (snd (node_missing env p s)) = untr s"
  by (auto simp: node_missing_def sys_access_def Let_def frame_simps)

lemma untr_wait_node [frame_simps]: "untr (wait_node env p i s) = untr s"
proof (induction env p i s rule: wait_node.induct)
  case (1 env p i s)
  obtain m s1 where ms: "node_missing env p s = (m, s1)" by fastforce
  then have "untr s1 = untr s" using untr_node_missing[of env p s] by simp
  then show ?case using 1[OF ms[symmetric] refl] ms
    by (subst wait_node.simps) (simp add: frame_simps)
qed

lemma untr_trackball [frame_simps]: "untr (snd (handle_trackball_light_locked env s)) = untr s"
  by (simp add: handle_trackball_light_locked_def Let_def frame_simps)

lemma untr_check_nodes [frame_simps]: "untr (snd (check_nodes env ps s)) = untr s"
  by (induction env ps s rule: check_nodes.induct)
     (auto simp: sys_access_def Let_def frame_simps split: option.splits)

lemma untr_fields:
  assumes "untr s = untr t"
  shows "preStatus s = preStatus t" "g_battery s = g_battery t"
    "g_notification s = g_notification t" "g_trackball s = g_trackball t"
    "g_haveTrackballLight s = g_haveTrackballLight t" "g_inited s = g_inited t"
    "g_attention s = g_attention t" "g_backlight s = g_backlight t" "g_buttons s = g_buttons t"
  using assms by (auto simp: untr_def dest: arg_cong[where f = preStatus]
      arg_cong[where f = g_battery] arg_cong[where f = g_notification]
      arg_cong[where f = g_trackball] arg_cong[where f = g_haveTrackballLight]
      arg_cong[where f = g_inited] arg_cong[where f = g_attention]
      arg_cong[where f = g_backlight] arg_cong[where f = g_buttons])

lemmas write_text_fields [simp] = untr_fields[OF untr_write_text]
lemmas write_int_fields [simp] = untr_fields[OF untr_write_int]
lemmas write_str_fields [simp] = untr_fields[OF untr_write_str]
lemmas wait_node_fields [simp] = untr_fields[OF untr_wait_node]
lemmas trackball_fields [simp] = untr_fields[OF untr_trackball]
lemmas check_nodes_fields [simp] = untr_fields[OF untr_check_nodes]
lemmas sys_access_fields [simp] = untr_fields[OF untr_sys_access]

lemma untr_blink_led:
  "untr (snd (blink_led env c l on off s)) =
     untr (s\<lparr>preStatus := (preStatus s)(c := now_status l on off)\<rparr>)"
proof -
  have upd: "untr (t\<lparr>preStatus := f\<rparr>) = (untr t)\<lparr>preStatus := f\<rparr>" for t f
    by (simp add: untr_def)
  show ?thesis
    by (auto simp: blink_led_def Let_def upd frame_simps) (simp add: untr_def fun_upd_idem)
qed

lemma blink_led_preStatus [simp]:
  "preStatus (snd (blink_led env c l on off s)) = (preStatus s)(c := now_status l on off)"
  using untr_fields(1)[OF untr_blink_led] by simp

lemma blink_led_fields [simp]:
  "g_battery (snd (blink_led env c l on off s)) = g_battery s"
  "g_notification (snd (blink_led env c l on off s)) = g_notification s"
  "g_trackball (snd (blink_led env c l on off s)) = g_trackball s"
  "g_haveTrackballLight (snd (blink_led env c l on off s)) = g_haveTrackballLight s"
  "g_inited (snd (blink_led env c l on off s)) = g_inited s"
  using untr_fields[OF untr_blink_led[of env c l on off s]] by simp_all

lemmas blink_defs = blink_red_def blink_green_def blink_blue_def

section \<open>What sysfs holds\<close>

definition sysfs_step :: "(string \<Rightarrow> string option) \<Rightarrow> ev \<Rightarrow> string \<Rightarrow> string option" where
  "sysfs_step m e = (case e of EvWrite p d (Wrote n) \<Rightarrow> m(p \<mapsto> d) | _ \<Rightarrow> m)"

definition sysfs :: "lights_st \<Rightarrow> string \<Rightarrow> string option" where
  "sysfs s = foldl sysfs_step Map.empty (trace s)"

definition env_ok :: "lenv \<Rightarrow> bool" where
  "env_ok env = (\<forall>h p d. open_err env h p = None \<and> write_res env h p d = Wrote (length d))"

lemma sysfs_emit: "sysfs (emit e s) = sysfs_step (sysfs s) e"
  by (simp add: sysfs_def emit_def)

lemma sysfs_write_text:
  "env_ok env \<Longrightarrow> sysfs (snd (write_text env p x s)) = (sysfs s)(p \<mapsto> x)"
  by (simp add: env_ok_def write_text_def Let_def sysfs_emit sysfs_step_def)

lemma sysfs_write_int:
  "env_ok env \<Longrightarrow> sysfs (snd (write_int env p v s)) = (sysfs s)(p \<mapsto> int_text v)"
  by (simp add: write_int_def sysfs_write_text)

lemma sysfs_write_str:
  "env_ok env \<Longrightarrow> sysfs (snd (write_str env p x s)) = (sysfs s)(p \<mapsto> x)"
  by (simp add: write_str_def sysfs_write_text)

lemma sysfs_sys_access [simp]: "sysfs (snd (sys_access env p m s)) = sysfs s"
  by (simp add: sys_access_def Let_def sysfs_emit sysfs_step_def)

lemma sysfs_node_missing: "sysfs (snd (node_missing env p s)) = sysfs s"
  by (auto simp: node_missing_def sys_access_def Let_def sysfs_emit sysfs_step_def)

lemma sysfs_wait_node [simp]: "sysfs (wait_node env p i s) = sysfs s"
proof (induction env p i s rule: wait_node.induct)
  case (1 env p i s)
  obtain m s1 where ms: "node_missing env p s = (m, s1)" by fastforce
  then have "sysfs s1 = sysfs s" using sysfs_node_missing[of env p s] by simp
  then show ?case using 1[OF ms[symmetric] refl] ms
    by (subst wait_node.simps) (simp add: sysfs_emit sysfs_step_def)
qed

lemma sysfs_check_nodes [simp]: "sysfs (snd (check_nodes env ps s)) = sysfs s"
  by (induction env ps s rule: check_nodes.induct)
     (auto simp: sys_access_def Let_def sysfs_emit sysfs_step_def split: option.splits)

lemma sysfs_upd [simp]:
  "sysfs (s\<lparr>preStatus := f\<rparr>) = sysfs s" "sysfs (s\<lparr>g_battery := b\<rparr>) = sysfs s"
  "sysfs (s\<lparr>g_notification := b\<rparr>) = sysfs s" "sysfs (s\<lparr>g_backlight := i\<rparr>) = sysfs s"
  "sysfs (s\<lparr>g_buttons := i\<rparr>) = sysfs s" "sysfs (s\<lparr>g_attention := i\<rparr>) = sysfs s"
  "sysfs (s\<lparr>g_inited := h\<rparr>) = sysfs s" "sysfs (s\<lparr>g_haveTrackballLight := h\<rparr>) = sysfs s"
  by (simp_all add: sysfs_def)

lemma led_paths [simp]:
  "LED_FILE c = LED_FILE d \<longleftrightarrow> c = d"
  "TRIGGER_FILE c = TRIGGER_FILE d \<longleftrightarrow> c = d"
  "DELAY_ON_FILE c = DELAY_ON_FILE d \<longleftrightarrow> c = d"
  "DELAY_OFF_FILE c = DELAY_OFF_FILE d \<longleftrightarrow> c = d"
  "LED_FILE c \<noteq> TRIGGER_FILE d" "TRIGGER_FILE c \<noteq> LED_FILE d"
  "LED_FILE c \<noteq> DELAY_ON_FILE d" "DELAY_ON_FILE c \<noteq> LED_FILE d"
  "LED_FILE c \<noteq> DELAY_OFF_FILE d" "DELAY_OFF_FILE c \<noteq> LED_FILE d"
  "TRIGGER_FILE c \<noteq> DELAY_ON_FILE d" "DELAY_ON_FILE c \<noteq> TRIGGER_FILE d"
  "TRIGGER_FILE c \<noteq> DELAY_OFF_FILE d" "DELAY_OFF_FILE c \<noteq> TRIGGER_FILE d"
  "DELAY_ON_FILE c \<noteq> DELAY_OFF_FILE d" "DELAY_OFF_FILE c \<noteq> DELAY_ON_FILE d"
  by (cases c; cases d; simp add: LED_FILE_def TRIGGER_FILE_def DELAY_ON_FILE_def
      DELAY_OFF_FILE_def)+

definition led_file :: "string \<Rightarrow> bool" where
  "led_file p = (\<exists>c. p \<in> {LED_FILE c, TRIGGER_FILE c, DELAY_ON_FILE c, DELAY_OFF_FILE c})"

lemma ex_led: "(\<exists>c. P c) \<longleftrightarrow> P Red \<or> P Green \<or> P Blue"
  using led.exhaust by metis

lemma all_led: "(\<forall>c. P c) \<longleftrightarrow> P Red \<and> P Green \<and> P Blue"
  using led.exhaust by metis

lemma not_led_file [simp]:
  "\<not> led_file TRACKBALL_FILE" "\<not> led_file LCD_FILE"
  "\<not> led_file KEYBOARD_FILE" "\<not> led_file BUTTON_FILE"
  by (simp_all add: led_file_def ex_led TRACKBALL_FILE_def LCD_FILE_def KEYBOARD_FILE_def
      BUTTON_FILE_def LED_FILE_def TRIGGER_FILE_def DELAY_ON_FILE_def DELAY_OFF_FILE_def)

text \<open>What the kernel has been told about channel \<open>c\<close> agrees with its \<open>preStatus\<close>.\<close>

definition chan_ok :: "lights_st \<Rightarrow> led \<Rightarrow> bool" where
  "chan_ok s c =
     (if preStatus s c = 0 then sysfs s (LED_FILE c) \<in> {None, Some (int_text 0)}
      else if preStatus s c = 1 then
        sysfs s (TRIGGER_FILE c) = Some ''timer''
        \<and> (\<exists>on off. on \<noteq> 0 \<and> off \<noteq> 0 \<and> sysfs s (DELAY_ON_FILE c) = Some (int_text on)
              \<and> sysfs s (DELAY_OFF_FILE c) = Some (int_text off))
      else sysfs s (TRIGGER_FILE c) = Some ''none'' \<and> sysfs s (LED_FILE c) = Some (int_text 255))"

lemma chan_ok_cong:
  assumes "preStatus t c = preStatus s c" "\<And>p. led_file p \<Longrightarrow> sysfs t p = sysfs s p"
  shows "chan_ok t c = chan_ok s c"
proof -
  have "led_file (LED_FILE c)" "led_file (TRIGGER_FILE c)" "led_file (DELAY_ON_FILE c)"
    "led_file (DELAY_OFF_FILE c)"
    by (auto simp: led_file_def)
  with assms show ?thesis by (simp add: chan_ok_def)
qed

lemma blink_led_chan_ok_own:
  assumes "env_ok env" "chan_ok s c"
  shows "chan_ok (snd (blink_led env c l on off s)) c"
  using assms
  by (auto simp: blink_led_def Let_def chan_ok_def sysfs_write_int sysfs_write_str now_status_def)

lemma blink_led_chan_ok_other:
  assumes "env_ok env" "d \<noteq> c"
  shows "chan_ok (snd (blink_led env c l on off s)) d = chan_ok s d"
  using assms
  by (simp add: blink_led_def Let_def chan_ok_def sysfs_write_int sysfs_write_str)

section \<open>The contract of the LED bank\<close>

text \<open>
  What \<open>set_speaker_light_locked\<close> relies on: a blink call sets its own channel's status and
  no other's, keeps the invariant of the bank, and does nothing when the status is the same.
\<close>

locale led_bank =
  fixes blink :: "led \<Rightarrow> int \<Rightarrow> int \<Rightarrow> int \<Rightarrow> 's \<Rightarrow> 's"
    and pre :: "'s \<Rightarrow> led \<Rightarrow> nat"
    and inv :: "'s \<Rightarrow> bool"
  assumes blink_pre: "pre (blink c l on off s) = (pre s)(c := now_status l on off)"
    and blink_inv: "inv s \<Longrightarrow> inv (blink c l on off s)"
    and blink_again: "pre s c = now_status l on off \<Longrightarrow> blink c l on off s = s"
begin

lemma show_one:
  assumes "{a, b, c} = UNIV"
  shows "pre (blink c l on off (blink b 0 0 0 (blink a 0 0 0 s))) =
    (\<lambda>d. if d = c then now_status l on off else 0)"
proof
  fix d
  have "d \<in> {a, b, c}" using assms by simp
  then show "pre (blink c l on off (blink b 0 0 0 (blink a 0 0 0 s))) d =
      (if d = c then now_status l on off else 0)"
    by (auto simp: blink_pre now_status_def)
qed

lemma show_one_inv: "inv s \<Longrightarrow> inv (blink c l on off (blink b m p q (blink a n u v s)))"
  by (simp add: blink_inv)

lemma retime_ignored:
  assumes "l \<noteq> 0" "on \<noteq> 0" "off \<noteq> 0" "l' \<noteq> 0" "on' \<noteq> 0" "off' \<noteq> 0"
  shows "blink c l' on' off' (blink c l on off s) = blink c l on off s"
  using assms by (intro blink_again) (simp add: blink_pre now_status_def)

end

interpretation bank: led_bank "\<lambda>c l on off s. snd (blink_led env c l on off s)" preStatus
  "\<lambda>s. env_ok env \<longrightarrow> (\<forall>c. chan_ok s c)" for env
proof
  fix c l on off s
  show "preStatus (snd (blink_led env c l on off s)) = (preStatus s)(c := now_status l on off)"
    by simp
  show "env_ok env \<longrightarrow> (\<forall>d. chan_ok (snd (blink_led env c l on off s)) d)"
    if "env_ok env \<longrightarrow> (\<forall>d. chan_ok s d)"
    using that blink_led_chan_ok_own[of env s c l on off]
      blink_led_chan_ok_other[of env _ c l on off s] by metis
  show "snd (blink_led env c l on off s) = s" if "preStatus s c = now_status l on off"
    using that by (simp add: blink_led_def Let_def)
qed

section \<open>What the light should show\<close>

text \<open>
  The contract of the notification light: with a zero alpha byte nothing is lit, otherwise the
  first non-zero of red, green, blue is, blinking when a timed flash has both periods.
\<close>

definition shown_led :: "light_state \<Rightarrow> led option" where
  "shown_led st =
     (if drop_bit 24 (color st) AND 0xFF = 0 then None
      else if drop_bit 16 (color st) AND 0xFF \<noteq> 0 then Some Red
      else if drop_bit 8 (color st) AND 0xFF \<noteq> 0 then Some Green
      else if color st AND 0xFF \<noteq> 0 then Some Blue else None)"

definition speaker_status :: "light_state \<Rightarrow> led \<Rightarrow> nat" where
  "speaker_status st c =
     (if shown_led st \<noteq> Some c then 0
      else if flashMode st = FLASH_TIMED \<and> flashOnMS st \<noteq> 0 \<and> flashOffMS st \<noteq> 0 then 1 else 2)"

text \<open>The battery state has the light unless its colour is black.\<close>

definition led_spec :: "light_state \<Rightarrow> light_state \<Rightarrow> led \<Rightarrow> nat" where
  "led_spec battery notification =
     speaker_status (if color battery AND 0x00ffffff \<noteq> 0 then battery else notification)"

lemma uint_eq_0 [simp]: "uint (w :: 'a::len word) = 0 \<longleftrightarrow> w = 0"
  by (simp add: uint_0_iff)

lemma led_UNIV: "{Green, Blue, Red} = UNIV" "{Red, Blue, Green} = UNIV" "{Red, Green, Blue} = UNIV"
  using led.exhaust by blast+

lemmas bank_shows = bank.show_one[OF led_UNIV(1)] bank.show_one[OF led_UNIV(2)]
  bank.show_one[OF led_UNIV(3)]

lemma speaker_preStatus:
  "preStatus (set_speaker_light_locked env st s) = speaker_status st"
  by (rule ext)
     (auto simp: set_speaker_light_locked_def Let_def blink_defs speaker_status_def shown_led_def
       now_status_def bank_shows simp del: blink_led_preStatus split: flash_mode.splits)

lemma speaker_chan_ok:
  assumes "env_ok env" "\<forall>c. chan_ok s c"
  shows "\<forall>c. chan_ok (set_speaker_light_locked env st s) c"
  using assms bank.show_one_inv[of env s]
  by (cases "flashMode st") (auto simp: set_speaker_light_locked_def Let_def blink_defs)

lemma speaker_fields [simp]:
  "g_battery (set_speaker_light_locked env st s) = g_battery s"
  "g_notification (set_speaker_light_locked env st s) = g_notification s"
  "g_trackball (set_speaker_light_locked env st s) = g_trackball s"
  "g_haveTrackballLight (set_speaker_light_locked env st s) = g_haveTrackballLight s"
  "g_inited (set_speaker_light_locked env st s) = g_inited s"
  by (simp_all add: set_speaker_light_locked_def Let_def blink_defs split: prod.splits)

lemma handle_speaker_preStatus:
  "preStatus (handle_speaker_battery_locked env s) = led_spec (g_battery s) (g_notification s)"
  by (simp add: handle_speaker_battery_locked_def led_spec_def is_lit_def Let_def
      speaker_preStatus)

lemma battery_status:
  "preStatus (snd (set_light_battery env st s)) = led_spec st (g_notification s)"
  by (simp add: set_light_battery_def Let_def handle_speaker_preStatus)

lemma speaker_same:
  assumes "preStatus s = speaker_status st"
  shows "set_speaker_light_locked env st s = s"
proof -
  have same: "snd (blink_led env c l on off s) = s" if "now_status l on off = speaker_status st c"
    for c l on off
    using bank.blink_again[of s c l on off env] that assms by simp
  show ?thesis
    by (auto simp: set_speaker_light_locked_def Let_def blink_defs same speaker_status_def
        shown_led_def now_status_def split: flash_mode.splits)
qed

lemma rgb_bytes:
  fixes w :: "32 word"
  shows "drop_bit 16 w AND 0xFF = drop_bit 16 (w AND 0x00ffffff)"
    and "drop_bit 8 w AND 0xFF = drop_bit 8 (w AND 0x00ffffff) AND 0xFF"
    and "w AND 0xFF = (w AND 0x00ffffff) AND 0xFF"
proof -
  have m: "(0x00ffffff :: 32 word) = mask 24" "(0xFF :: 32 word) = mask 8"
    by (simp_all add: mask_eq_exp_minus_1)
  show "drop_bit 16 w AND 0xFF = drop_bit 16 (w AND 0x00ffffff)"
    "drop_bit 8 w AND 0xFF = drop_bit 8 (w AND 0x00ffffff) AND 0xFF"
    "w AND 0xFF = (w AND 0x00ffffff) AND 0xFF"
    unfolding m by (rule bit_word_eqI, auto simp: bit_and_iff bit_drop_bit_eq bit_mask_iff)+
qed

lemma shown_led_lit:
  assumes "shown_led st \<noteq> None"
  shows "color st AND 0x00ffffff \<noteq> 0"
proof
  assume z: "color st AND 0x00ffffff = 0"
  have "drop_bit 16 (color st) AND 0xFF = 0" "drop_bit 8 (color st) AND 0xFF = 0"
    "color st AND 0xFF = 0"
    unfolding rgb_bytes[of "color st"] z by simp_all
  with assms show False by (simp add: shown_led_def split: if_splits)
qed

lemma handle_speaker_chan_ok:
  "env_ok env \<Longrightarrow> \<forall>c. chan_ok s c \<Longrightarrow> \<forall>c. chan_ok (handle_speaker_battery_locked env s) c"
  by (simp add: handle_speaker_battery_locked_def Let_def speaker_chan_ok)

lemma handle_speaker_fields [simp]:
  "g_battery (handle_speaker_battery_locked env s) = g_battery s"
  "g_notification (handle_speaker_battery_locked env s) = g_notification s"
  "g_trackball (handle_speaker_battery_locked env s) = g_trackball s"
  by (simp_all add: handle_speaker_battery_locked_def Let_def)

section \<open>The invariant of the module\<close>

definition lights_inv :: "lenv \<Rightarrow> lights_st \<Rightarrow> bool" where
  "lights_inv env s =
     (preStatus s = led_spec (g_battery s) (g_notification s)
      \<and> g_trackball s = - 1
      \<and> (env_ok env \<longrightarrow> (\<forall>c. chan_ok s c)))"

lemma sysfs_write_int_other:
  assumes "env_ok env" "\<not> led_file p" "led_file q"
  shows "sysfs (snd (write_int env p v s)) q = sysfs s q"
  using assms by (auto simp: sysfs_write_int)

lemma sysfs_trackball_other:
  assumes "env_ok env" "led_file q"
  shows "sysfs (snd (handle_trackball_light_locked env s)) q = sysfs s q"
  using assms by (simp add: handle_trackball_light_locked_def Let_def sysfs_write_int_other)

lemma chan_ok_write_int [simp]:
  "env_ok env \<Longrightarrow> \<not> led_file p \<Longrightarrow> chan_ok (snd (write_int env p v s)) c = chan_ok s c"
  by (rule chan_ok_cong) (simp_all add: sysfs_write_int_other)

lemma chan_ok_trackball [simp]:
  "env_ok env \<Longrightarrow> chan_ok (snd (handle_trackball_light_locked env s)) c = chan_ok s c"
  by (rule chan_ok_cong) (simp_all add: sysfs_trackball_other)

lemma chan_ok_upd [simp]:
  "chan_ok (s\<lparr>g_battery := b\<rparr>) c = chan_ok s c"
  "chan_ok (s\<lparr>g_notification := b\<rparr>) c = chan_ok s c"
  "chan_ok (s\<lparr>g_backlight := i\<rparr>) c = chan_ok s c"
  "chan_ok (s\<lparr>g_buttons := i\<rparr>) c = chan_ok s c"
  "chan_ok (s\<lparr>g_attention := i\<rparr>) c = chan_ok s c"
  "chan_ok (s\<lparr>g_inited := h\<rparr>) c = chan_ok s c"
  "chan_ok (s\<lparr>g_haveTrackballLight := h\<rparr>) c = chan_ok s c"
  by (simp_all add: chan_ok_def)

lemma chan_ok_access [simp]:
  "chan_ok (snd (sys_access env p m s)) c = chan_ok s c"
  "chan_ok (snd (check_nodes env ps s)) c = chan_ok s c"
  by (simp_all add: chan_ok_def)

lemma lights_inv_init [wf_intros]: "lights_inv env lights_init"
  by (auto simp: lights_inv_def lights_init_def zero_light_def led_spec_def speaker_status_def
      shown_led_def chan_ok_def sysfs_def)

lemma lights_inv_backlight [wf_intros]:
  "lights_inv env s \<Longrightarrow> lights_inv env (snd (set_light_backlight env st s))"
  by (auto simp: lights_inv_def set_light_backlight_def Let_def split: prod.splits
      dest!: arg_cong[where f = snd])

lemma lights_inv_keyboard [wf_intros]:
  "lights_inv env s \<Longrightarrow> lights_inv env (snd (set_light_keyboard env st s))"
  by (simp add: lights_inv_def set_light_keyboard_def)

lemma lights_inv_buttons [wf_intros]:
  "lights_inv env s \<Longrightarrow> lights_inv env (snd (set_light_buttons env st s))"
  by (simp add: lights_inv_def set_light_buttons_def Let_def)

lemma lights_inv_battery [wf_intros]:
  "lights_inv env s \<Longrightarrow> lights_inv env (snd (set_light_battery env st s))"
  by (simp add: lights_inv_def set_light_battery_def Let_def handle_speaker_preStatus
      handle_speaker_chan_ok speaker_chan_ok)

lemma lights_inv_notifications [wf_intros]:
  "lights_inv env s \<Longrightarrow> lights_inv env (snd (set_light_notifications env st s))"
  by (simp add: lights_inv_def set_light_notifications_def Let_def handle_speaker_preStatus
      handle_speaker_chan_ok)

lemma lights_inv_attention [wf_intros]:
  "lights_inv env s \<Longrightarrow> lights_inv env (snd (set_light_attention env st s))"
  by (auto simp: lights_inv_def set_light_attention_def Let_def split: flash_mode.splits)

lemma lights_inv_set [wf_intros]:
  "lights_inv env s \<Longrightarrow> lights_inv env (snd (set_light env f st s))"
  by (cases f) (simp_all add: wf_intros)

lemma lights_inv_access:
  "lights_inv env s \<Longrightarrow> lights_inv env (snd (check_nodes env ps s))"
  by (simp add: lights_inv_def)

lemma lights_inv_globals:
  "lights_inv env s \<Longrightarrow> lights_inv env (init_globals env s)"
  by (simp add: lights_inv_def init_globals_def case_prod_beta)

lemma lights_inv_open [wf_intros]:
  assumes "lights_inv env s"
  shows "lights_inv env (snd (open_lights env ids name s))"
proof -
  have upd: "lights_inv env (t\<lparr>g_inited := True\<rparr>) = lights_inv env t" for t
    by (simp add: lights_inv_def)
  show ?thesis
    using assms lights_inv_access[OF assms] lights_inv_globals
    by (auto simp: open_lights_def Let_def upd split: option.splits prod.splits
        dest: arg_cong[where f = snd]) (metis snd_conv)+
qed

lemma lights_inv_reach: "lights_reach env ids s \<Longrightarrow> lights_inv env s"
  by (induction rule: lights_reach.induct) (simp_all add: wf_intros)

section \<open>Properties\<close>

text \<open>
  C15: In every reachable state the three LED channels show exactly what the stored battery and
  notification states ask for: the battery state when its colour is not black, the notification
  otherwise; and for it red before green before blue, nothing for a zero alpha byte.  So at most
  one channel is ever lit.
\<close>

theorem lights_refine_spec:
  assumes "lights_reach env ids s"
  shows "preStatus s = led_spec (g_battery s) (g_notification s)
    \<and> (preStatus s c \<noteq> 0 \<longrightarrow> preStatus s d \<noteq> 0 \<longrightarrow> c = d)"
  using lights_inv_reach[OF assms]
  by (auto simp: lights_inv_def led_spec_def speaker_status_def split: if_splits)

definition env0 :: lenv where
  "env0 = \<lparr>open_err = (\<lambda>_ _. None), write_res = (\<lambda>_ _ d. Wrote (length d)),
     close_err = (\<lambda>_ _. None), access_err = (\<lambda>_ _ _. None), malloc_ok = (\<lambda>_. True)\<rparr>"

definition ids0 :: light_ids where
  "ids0 = \<lparr>id_backlight = ''backlight'', id_keyboard = ''keyboard'', id_buttons = ''buttons'',
     id_battery = ''battery'', id_notifications = ''notifications'', id_attention = ''attention''\<rparr>"

definition red_blink :: light_state where
  "red_blink = \<lparr>color = 0xFFFF0000, flashMode = FLASH_TIMED, flashOnMS = 500, flashOffMS = 250\<rparr>"

definition s_red :: lights_st where
  "s_red = snd (set_light env0 FnBattery red_blink lights_init)"

lemma env_ok_env0: "env_ok env0"
  by (simp add: env_ok_def env0_def)

lemma s_red_reach: "lights_reach env0 ids0 s_red"
  unfolding s_red_def by (intro reach_set reach_init)

lemma s_red_status: "preStatus s_red = (\<lambda>c. if c = Red then 1 else 0)"
  by (rule ext) (simp add: s_red_def battery_status led_spec_def speaker_status_def shown_led_def
      red_blink_def)

theorem lights_refine_spec_witness:
  "led_spec (g_battery s_red) (g_notification s_red) Red = 1
    \<and> led_spec (g_battery s_red) (g_notification s_red) Green = 0"
  unfolding conjunct1[OF lights_refine_spec[OF s_red_reach, of Red Red], symmetric] s_red_status
  by simp

text \<open>
  C21: As long as opens and writes succeed, in every reachable state what the sysfs nodes of a
  channel last received agrees with its status: a blinking channel has the timer trigger and two
  non-zero periods, a steady one has no trigger and full brightness, an off one was switched off
  or never written.
\<close>

theorem lights_sysfs_agree:
  assumes "env_ok env" "lights_reach env ids s"
  shows "chan_ok s c"
  using lights_inv_reach[OF assms(2)] assms(1) by (simp add: lights_inv_def)

theorem lights_sysfs_agree_witness:
  "sysfs s_red (TRIGGER_FILE Red) = Some ''timer''"
  using lights_sysfs_agree[OF env_ok_env0 s_red_reach, of Red]
  by (simp add: chan_ok_def s_red_status)

text \<open>
  A second battery state of the same colour with other blink periods is ignored: it
  causes no system call at all, so the LED keeps the first timing.
\<close>

theorem battery_retime_ignored:
  assumes "color st2 = color st1" "shown_led st1 \<noteq> None"
    and "flashMode st1 = FLASH_TIMED" "flashOnMS st1 \<noteq> 0" "flashOffMS st1 \<noteq> 0"
    and "flashMode st2 = FLASH_TIMED" "flashOnMS st2 \<noteq> 0" "flashOffMS st2 \<noteq> 0"
  shows "trace (snd (set_light_battery env st2 (snd (set_light_battery env st1 s)))) =
    trace (snd (set_light_battery env st1 s))"
proof -
  let ?s1 = "snd (set_light_battery env st1 s)"
  let ?t = "?s1\<lparr>g_battery := st2\<rparr>"
  have lit: "color st1 AND 0x00ffffff \<noteq> 0" using shown_led_lit[OF assms(2)] .
  have "speaker_status st1 = speaker_status st2"
    using assms by (intro ext) (simp add: speaker_status_def shown_led_def)
  then have "preStatus ?t = speaker_status st2"
    using lit by (simp add: battery_status led_spec_def)
  then have same: "set_speaker_light_locked env st2 ?t = ?t" by (rule speaker_same)
  show ?thesis
    using lit assms(1)
    by (subst set_light_battery_def) (simp add: Let_def same handle_speaker_battery_locked_def is_lit_def)
qed

theorem battery_retime_ignored_witness:
  "trace (snd (set_light_battery env0 (red_blink\<lparr>flashOnMS := 100\<rparr>) s_red)) = trace s_red"
  using battery_retime_ignored[of "red_blink\<lparr>flashOnMS := 100\<rparr>" red_blink env0 lights_init]
  by (simp add: s_red_def red_blink_def shown_led_def)

text \<open>
  A battery state whose colour is not black but whose alpha byte is zero switches all LEDs
  off and hides the notification, whatever the notification asks for.
\<close>

theorem battery_alpha0_hides_notification:
  assumes "color st AND 0x00ffffff \<noteq> 0" "drop_bit 24 (color st) AND 0xFF = 0"
  shows "preStatus (snd (set_light_battery env st s)) c = 0"
  using assms by (simp add: battery_status led_spec_def speaker_status_def shown_led_def)

theorem battery_alpha0_hides_notification_witness:
  "preStatus (snd (set_light_battery env0 (red_blink\<lparr>color := 0x00FF0000\<rparr>)
     (lights_init\<lparr>g_notification := red_blink\<rparr>))) Red = 0"
  using battery_alpha0_hides_notification[of "red_blink\<lparr>color := 0x00FF0000\<rparr>" env0
      "lights_init\<lparr>g_notification := red_blink\<rparr>" Red]
  by (simp add: red_blink_def)

text \<open>
  The cache that is to stop the trackball light from being rewritten never takes effect:
  \<open>g_trackball\<close> keeps its initial -1 in every reachable state, so every call with a mode other
  than -1 opens the trackball node again.
\<close>

theorem trackball_cache_never_set:
  assumes "lights_reach env ids s" "g_attention s \<noteq> - 1"
  shows "g_trackball s = - 1 \<and>
    (\<exists>r evs. trace (snd (handle_trackball_light_locked env s)) =
       trace s @ EvOpen TRACKBALL_FILE r # evs)"
  using lights_inv_reach[OF assms(1)] assms(2)
  by (auto simp: lights_inv_def handle_trackball_light_locked_def write_int_def write_text_def
      emit_def Let_def split: option.splits)

theorem trackball_cache_never_set_witness: "g_trackball s_red = - 1"
proof -
  have "g_attention s_red = 0"
    by (simp add: s_red_def set_light_battery_def Let_def handle_speaker_battery_locked_def
        set_speaker_light_locked_def blink_defs red_blink_def is_lit_def lights_init_def
        untr_fields(7)[OF untr_blink_led])
  then show ?thesis using trackball_cache_never_set[OF s_red_reach] by simp
qed

text \<open>
  The brightness computed from a colour is a byte, it is 0 for black and 255 for white, and
  it does not depend on the alpha byte.
\<close>

theorem rgb_to_brightness_byte:
  "0 \<le> rgb_to_brightness st \<and> rgb_to_brightness st \<le> 255
   \<and> rgb_to_brightness (st\<lparr>color := 0xFF000000\<rparr>) = 0
   \<and> rgb_to_brightness (st\<lparr>color := 0x00FFFFFF\<rparr>) = 255
   \<and> rgb_to_brightness (st\<lparr>color := color st AND 0x00FFFFFF\<rparr>) = rgb_to_brightness st"
proof -
  let ?c = "uint (color st AND 0x00ffffff)"
  have le: "x AND 0xff \<le> (255::int)" "0 \<le> x AND 0xff" for x :: int
    by (simp_all add: AND_upper2)
  have weigh: "0 \<le> (77 * r + 150 * g + 29 * b) div 256 \<and> (77 * r + 150 * g + 29 * b) div 256 \<le> 255"
    if "0 \<le> r" "r \<le> 255" "0 \<le> g" "g \<le> 255" "0 \<le> b" "b \<le> 255" for r g b :: int
    using that by auto
  have "0 \<le> rgb_to_brightness st \<and> rgb_to_brightness st \<le> 255"
    using weigh[OF le(2,1) le(2,1) le(2,1)]
    by (simp add: rgb_to_brightness_def Let_def drop_bit_eq_div)
  then show ?thesis
    by (simp add: rgb_to_brightness_def Let_def and.assoc drop_bit_eq_div)
qed

text \<open>
  The text of every C integer, with its newline and the terminator \<open>sprintf\<close> adds, fits the
  20-byte buffer of \<open>write_int\<close>.
\<close>

theorem int_text_fits:
  assumes "is_c32 v"
  shows "length (int_text v) + 1 \<le> 20"
  using show_int_length[OF assms] by (simp add: int_text_def)

theorem int_text_fits_witness: "length (int_text (- (2^31))) + 1 \<le> 20"
  by (rule int_text_fits) (simp add: is_c32_def)

lemma led_wait_loop_ends:
  assumes "k < n" "int ms \<le> (clock_ms clk n - clock_ms clk 0) mod 2^32"
    and "\<And>j. k < j \<Longrightarrow> j < n \<Longrightarrow> (clock_ms clk j - clock_ms clk 0) mod 2^32 < int ms"
    and "d mod 2^32 < int ms"
  shows "led_wait_loop clk ms k d = Some n"
  using assms
proof (induction "n - k" arbitrary: k d)
  case (Suc m)
  show ?case
  proof (cases "Suc k = n")
    case True
    then show ?thesis using Suc.prems
      by (subst led_wait_loop.simps, simp) (subst led_wait_loop.simps, simp)
  next
    case False
    then have "led_wait_loop clk ms (Suc k) (clock_ms clk (Suc k) - clock_ms clk 0) = Some n"
      using Suc.prems Suc.hyps(2) by (intro Suc.hyps(1)) auto
    then show ?thesis using Suc.prems by (subst led_wait_loop.simps) simp
  qed
qed simp

text \<open>
  The busy wait ends as soon as a clock reading differs from the first by at least \<open>ms\<close>
  milliseconds, as an unsigned 32-bit number, and at the first such reading; a wait of 0 reads
  the clock once.
\<close>

theorem led_wait_delay_returns:
  assumes "\<exists>n>0. int ms \<le> (clock_ms clk n - clock_ms clk 0) mod 2^32"
  shows "led_wait_delay clk ms = Some (if ms = 0 then 0 else
    (LEAST n. 0 < n \<and> int ms \<le> (clock_ms clk n - clock_ms clk 0) mod 2^32))"
proof (cases "ms = 0")
  case True
  then show ?thesis unfolding led_wait_delay_def by (subst led_wait_loop.simps) simp
next
  case False
  let ?P = "\<lambda>n. 0 < n \<and> int ms \<le> (clock_ms clk n - clock_ms clk 0) mod 2^32"
  have P: "?P (LEAST n. ?P n)" using assms by (rule LeastI_ex)
  have before: "(clock_ms clk j - clock_ms clk 0) mod 2^32 < int ms"
    if "0 < j" "j < (LEAST n. ?P n)" for j
    using not_less_Least[OF that(2)] that(1) by (auto simp: not_le)
  have "led_wait_loop clk ms 0 0 = Some (LEAST n. ?P n)"
    by (rule led_wait_loop_ends[OF _ _ before]) (use P False in auto)
  then show ?thesis using False by (simp add: led_wait_delay_def)
qed

theorem led_wait_delay_returns_witness:
  "\<exists>k. led_wait_delay (\<lambda>k. (0, int k * 1000)) 5 = Some k"
proof -
  have "\<exists>n>0. int 5 \<le> (clock_ms (\<lambda>k. (0, int k * 1000)) n - clock_ms (\<lambda>k. (0, int k * 1000)) 0) mod 2^32"
    by (rule exI[of _ 5]) (simp add: clock_ms_def)
  from led_wait_delay_returns[OF this] show ?thesis by blast
qed

text \<open>
  \<open>open_lights\<close> fails with -EINVAL and no system call on an unknown name, fails with the
  error of the first missing node without touching the module's state, and otherwise returns the
  function of that light; a second successful open does not probe the trackball again.
\<close>

theorem open_lights_result:
  "(light_of_name ids name = None \<longrightarrow> open_lights env ids name s = (Inl (- EINVAL), s))
   \<and> (\<forall>f nodes e s1. light_of_name ids name = Some (f, nodes)
        \<longrightarrow> check_nodes env nodes s = (Some e, s1)
        \<longrightarrow> open_lights env ids name s = (Inl (- e), s1) \<and> untr s1 = untr s)
   \<and> (\<forall>f s1. open_lights env ids name s = (Inr f, s1)
        \<longrightarrow> g_inited s1 \<and> (\<exists>nodes. light_of_name ids name = Some (f, nodes)))
   \<and> (g_inited s \<longrightarrow> untr (snd (open_lights env ids name s)) = untr s)"
proof -
  have frame: "g_inited s1" if "g_inited s" "check_nodes env ns s = (e, s1)" for ns e s1
    using check_nodes_fields(6)[of env ns s] that by simp
  have un: "untr s1 = untr s" if "check_nodes env ns s = (e, s1)" for ns e s1
    using untr_check_nodes[of env ns s] that by simp
  show ?thesis
    by (auto simp: open_lights_def Let_def frame un split: option.splits prod.splits if_splits)
qed

theorem open_lights_result_witness:
  "open_lights env0 ids0 ''wifi'' lights_init = (Inl (- EINVAL), lights_init)"
  using open_lights_result[of ids0 "''wifi''" env0 lights_init]
  by (simp add: light_of_name_def ids0_def)

end
