(* ===== verification/Bt_Hci.thy ===== *)
theory Bt_Hci
  imports X3_Prelude
begin

text \<open>
  The HCI commands of the Bluetooth vendor library, \<open>src/hal/bluedroid/radiomod.c\<close>: the
  NVRAM record, the state of \<open>btinit\<close> and of the file's globals, every \<open>GORMcmd_HCC_*\<close> command
  builder, the two event handlers, the preload scripts, \<open>WriteBDAddrToNvram\<close> and
  \<open>GetRandomValue\<close>.  The stack's callbacks and the NVRAM library are oracles of the trace.
\<close>

section \<open>The NVRAM record\<close>

record nvram =
  addr :: "byte list"
  Voice :: "byte list"
  Codec :: "byte list"
  Radio :: "byte list"
  Sleep :: "byte list"
  BtFTR :: "byte list"
  TxPWOffset :: "byte list"
  CoexAdjust :: "byte list"
  Radio_ext :: "byte list"
  TxPWOffset_ext :: "byte list"
  Reserved1 :: "byte list"
  Reserved2 :: "byte list"
  Reserved3 :: "byte list"
  Reserved4 :: "byte list"

definition nvram_size :: nat where "nvram_size = 64"

definition nvram_wf :: "nvram \<Rightarrow> bool" where
  "nvram_wf n = (length (addr n) = 6 \<and> length (Voice n) = 2 \<and> length (Codec n) = 4
     \<and> length (Radio n) = 6 \<and> length (Sleep n) = 7 \<and> length (BtFTR n) = 2
     \<and> length (TxPWOffset n) = 3 \<and> length (CoexAdjust n) = 6 \<and> length (Radio_ext n) = 2
     \<and> length (TxPWOffset_ext n) = 4 \<and> length (Reserved1 n) = 2 \<and> length (Reserved2 n) = 4
     \<and> length (Reserved3 n) = 8 \<and> length (Reserved4 n) = 8)"

text \<open>The two views of the union \<open>BT_NVRAM_DATA_T\<close>.\<close>

definition nvram_raw :: "nvram \<Rightarrow> byte list" where
  "nvram_raw n = addr n @ Voice n @ Codec n @ Radio n @ Sleep n @ BtFTR n @ TxPWOffset n
     @ CoexAdjust n @ Radio_ext n @ TxPWOffset_ext n @ Reserved1 n @ Reserved2 n
     @ Reserved3 n @ Reserved4 n"

definition nvram_of :: "byte list \<Rightarrow> nvram" where
  "nvram_of r = \<lparr>addr = take 6 r, Voice = take 2 (drop 6 r), Codec = take 4 (drop 8 r),
     Radio = take 6 (drop 12 r), Sleep = take 7 (drop 18 r), BtFTR = take 2 (drop 25 r),
     TxPWOffset = take 3 (drop 27 r), CoexAdjust = take 6 (drop 30 r),
     Radio_ext = take 2 (drop 36 r), TxPWOffset_ext = take 4 (drop 38 r),
     Reserved1 = take 2 (drop 42 r), Reserved2 = take 4 (drop 44 r),
     Reserved3 = take 8 (drop 48 r), Reserved4 = take 8 (drop 56 r)\<rparr>"

lemma nvram_of_raw: "nvram_wf n \<Longrightarrow> nvram_of (nvram_raw n) = n"
  by (cases n) (simp add: nvram_of_def nvram_raw_def nvram_wf_def)

lemma nvram_of_wf: "length r = nvram_size \<Longrightarrow> nvram_wf (nvram_of r)"
  by (simp add: nvram_wf_def nvram_of_def nvram_size_def)

lemma nvram_raw_length: "nvram_wf n \<Longrightarrow> length (nvram_raw n) = nvram_size"
  by (simp add: nvram_wf_def nvram_raw_def nvram_size_def)

lemma take_drop_join: "take n (drop k r) @ drop (k + n) r = drop k r"
  by (metis append_take_drop_id drop_drop add.commute)

lemma nvram_raw_of: "length r = nvram_size \<Longrightarrow> nvram_raw (nvram_of r) = r"
  using take_drop_join[of 2 6 r] take_drop_join[of 4 8 r] take_drop_join[of 6 12 r]
    take_drop_join[of 7 18 r] take_drop_join[of 2 25 r] take_drop_join[of 3 27 r]
    take_drop_join[of 6 30 r] take_drop_join[of 2 36 r] take_drop_join[of 4 38 r]
    take_drop_join[of 2 42 r] take_drop_join[of 4 44 r] take_drop_join[of 8 48 r]
  by (simp add: nvram_raw_def nvram_of_def nvram_size_def)

section \<open>State and environment\<close>

datatype cmd_status = CMD_SUCCESS | CMD_FAIL | CMD_PENDING | CMD_TERMINATE

datatype hci_fn =
    Get_Local_BD_Addr | Set_Local_BD_Addr | Set_LinkKeyType | Set_UnitKey | Set_Encryption
  | Set_PinCodeType | Set_Voice | Set_PCM | Set_Radio | Set_TX_Power_Offset | Set_Sleep_Timeout
  | Coex_Performance_Adjust | Set_BT_FTR | Set_OSC_Info | Set_LPO_Info | Set_PTA | Set_BLEPTA
  | Set_Internal_PTA_1 | Set_Internal_PTA_2 | Set_RF_Reg_100 | HCI_RESET | Set_FW_SysLog
  | Set_SSP_Debug_Mode

datatype evt_handler = EvtGetAddr | EvtCommon

datatype bt_ev =
    BAlloc bool
  | BXmit "16 word" nat "byte list" bool
  | BDealloc
  | BSignal bool
  | BNvmOpen "int \<times> int \<times> int"
  | BNvmWrite "byte list" int
  | BNvmClose
  | BFwCfg bool

record benv =
  alloc_ok :: "bt_ev list \<Rightarrow> bool"
  xmit_ok :: "bt_ev list \<Rightarrow> bool"
  nvm_desc :: "bt_ev list \<Rightarrow> int \<times> int \<times> int"
  nvm_write :: "bt_ev list \<Rightarrow> int"
  props :: "string \<Rightarrow> string"
  merge_if :: bool
  bt_i2s :: bool

record bt_st =
  chip_id :: "32 word"
  bt_nvram :: nvram
  cur_script :: "hci_fn list option"
  wOpCode :: "16 word"
  cmd_st :: cmd_status
  fgGetEFUSE :: bool
  ucDefaultAddr :: "byte list"
  cbacks :: bool
  handler :: "evt_handler option"
  running :: bool
  btrace :: "bt_ev list"

definition HCI_CMD_MAX_SIZE :: nat where "HCI_CMD_MAX_SIZE = 251"

definition ucZeroAddr :: "byte list" where "ucZeroAddr = [0, 0, 0, 0, 0, 0]"

definition bemit :: "bt_ev \<Rightarrow> bt_st \<Rightarrow> bt_st" where
  "bemit e s = s\<lparr>btrace := btrace s @ [e]\<rparr>"

section \<open>Default records\<close>

text \<open>
  \<open>merge_if\<close> and \<open>bt_i2s\<close> stand for the build macros \<open>__MTK_MERGE_INTERFACE_SUPPORT__\<close> and
  \<open>__MTK_BT_I2S_SUPPORT__\<close>; \<open>props\<close> is \<open>property_get\<close>, an unset property being the empty string.
\<close>

definition stBtDefault_6628 :: "benv \<Rightarrow> nvram" where
  "stBtDefault_6628 env = \<lparr>addr = [0x00, 0x00, 0x46, 0x66, 0x28, 0x01], Voice = [0x60, 0x00],
     Codec = (if merge_if env then [0x63, 0x10, 0x00, 0x00] else [0x23, 0x10, 0x00, 0x00]),
     Radio = [0x07, 0x80, 0x00, 0x06, 0x05, 0x07],
     Sleep = [0x03, 0x40, 0x1F, 0x40, 0x1F, 0x00, 0x04], BtFTR = [0x80, 0x00],
     TxPWOffset = [0xFF, 0xFF, 0xFF], CoexAdjust = [0, 0, 0, 0, 0, 0], Radio_ext = [0, 0],
     TxPWOffset_ext = [0, 0, 0, 0], Reserved1 = [0, 0], Reserved2 = [0, 0, 0, 0],
     Reserved3 = [0, 0, 0, 0, 0, 0, 0, 0], Reserved4 = [0, 0, 0, 0, 0, 0, 0, 0]\<rparr>"

definition stBtDefault_6630 :: "benv \<Rightarrow> nvram" where
  "stBtDefault_6630 env = \<lparr>addr = [0x00, 0x00, 0x46, 0x66, 0x30, 0x01], Voice = [0x60, 0x00],
     Codec = (if merge_if env then [0x63, 0x10, 0x00, 0x00]
              else if bt_i2s env then [0x03, 0x10, 0x00, 0x02] else [0x23, 0x10, 0x00, 0x00]),
     Radio = [0x07, 0x80, 0x00, 0x06, 0x07, 0x07],
     Sleep = [0x03, 0x40, 0x1F, 0x40, 0x1F, 0x00, 0x04], BtFTR = [0x80, 0x00],
     TxPWOffset = [0xFF, 0xFF, 0xFF], CoexAdjust = [0, 0, 0, 0, 0, 0], Radio_ext = [0, 0],
     TxPWOffset_ext = [0, 0, 0, 0], Reserved1 = [0, 0], Reserved2 = [0, 0, 0, 0],
     Reserved3 = [0, 0, 0, 0, 0, 0, 0, 0], Reserved4 = [0, 0, 0, 0, 0, 0, 0, 0]\<rparr>"

definition stBtDefault_6632 :: "benv \<Rightarrow> nvram" where
  "stBtDefault_6632 env = \<lparr>addr = [0x00, 0x00, 0x46, 0x66, 0x32, 0x01], Voice = [0x60, 0x00],
     Codec = (if merge_if env then [0x63, 0x10, 0x00, 0x00]
              else if bt_i2s env then [0x21, 0x10, 0x00, 0x00] else [0x23, 0x10, 0x00, 0x00]),
     Radio = [0x07, 0x00, 0x00, 0x00, 0x05, 0x07],
     Sleep = [0x03, 0x40, 0x06, 0x40, 0x06, 0x00, 0x00], BtFTR = [0x80, 0x00],
     TxPWOffset = [0xFF, 0xFF, 0xFF], CoexAdjust = [0, 0, 0, 0, 0, 0], Radio_ext = [0, 0],
     TxPWOffset_ext = [0xFF, 0xFF, 0xFF, 0], Reserved1 = [0, 0], Reserved2 = [0, 0, 0, 0],
     Reserved3 = [0, 0, 0, 0, 0, 0, 0, 0], Reserved4 = [0, 0, 0, 0, 0, 0, 0, 0]\<rparr>"

definition stBtDefault_consys :: nvram where
  "stBtDefault_consys = \<lparr>addr = [0x00, 0x00, 0x46, 0x00, 0x00, 0x01], Voice = [0x60, 0x00],
     Codec = [0x23, 0x10, 0x00, 0x00],
     Radio = [0x07, 0x80, 0x00, 0x06, 0x07, 0x07],
     Sleep = [0x03, 0x40, 0x1F, 0x40, 0x1F, 0x00, 0x04], BtFTR = [0x80, 0x00],
     TxPWOffset = [0xFF, 0xFF, 0xFF], CoexAdjust = [0, 0, 0, 0, 0, 0], Radio_ext = [0, 0],
     TxPWOffset_ext = [0, 0, 0, 0], Reserved1 = [0, 0], Reserved2 = [0, 0, 0, 0],
     Reserved3 = [0, 0, 0, 0, 0, 0, 0, 0], Reserved4 = [0, 0, 0, 0, 0, 0, 0, 0]\<rparr>"

lemma stBtDefault_wf [simp]:
  "nvram_wf (stBtDefault_6628 env)" "nvram_wf (stBtDefault_6630 env)"
  "nvram_wf (stBtDefault_6632 env)" "nvram_wf stBtDefault_consys"
  by (simp_all add: nvram_wf_def stBtDefault_6628_def stBtDefault_6630_def stBtDefault_6632_def
      stBtDefault_consys_def)

section \<open>Command builders\<close>

text \<open>
  The common shape of every \<open>GORMcmd_HCC_*\<close>: set \<open>wOpCode\<close> and \<open>len\<close>, stream the opcode
  (little endian) and the body, and hand the buffer to \<open>xmit_cb\<close> with the handler of the
  completion event.  \<open>len\<close> and the body's first byte are the literals of the source.
\<close>

definition send_cmd ::
    "benv \<Rightarrow> 16 word \<Rightarrow> nat \<Rightarrow> evt_handler \<Rightarrow> byte list \<Rightarrow> bt_st \<Rightarrow> bool \<times> bt_st" where
  "send_cmd env op len h body s =
     (let s1 = s\<lparr>wOpCode := op\<rparr>
      in if cbacks s1
         then (let ok = xmit_ok env (btrace s1)
               in (ok, bemit (BXmit op len (le16 op @ body) ok) (s1\<lparr>handler := (if ok then Some h else handler s1)\<rparr>)))
         else (False, s1))"

definition WriteBDAddrToNvram :: "benv \<Rightarrow> byte list \<Rightarrow> bt_st \<Rightarrow> bool \<times> bt_st" where
  "WriteBDAddrToNvram env a s =
     (let (fd, rec_size, rec_num) = nvm_desc env (btrace s);
          s1 = bemit (BNvmOpen (fd, rec_size, rec_num)) s
      in if fd < 0 then (False, s1)
         else if rec_num \<noteq> 1 then (False, bemit BNvmClose s1)
         else if rec_size \<noteq> int nvram_size then (False, bemit BNvmClose s1)
         else let r = nvm_write env (btrace s1);
                  s2 = bemit (BNvmWrite a r) s1
              in (\<not> r < 0, bemit BNvmClose s2))"

definition GORMcmd_HCC_Get_Local_BD_Addr :: "benv \<Rightarrow> bt_st \<Rightarrow> bool \<times> bt_st" where
  "GORMcmd_HCC_Get_Local_BD_Addr env s = send_cmd env 0x1009 3 EvtGetAddr [0] s"

definition GORMcmd_HCC_Set_Local_BD_Addr :: "benv \<Rightarrow> bt_st \<Rightarrow> bool \<times> bt_st" where
  "GORMcmd_HCC_Set_Local_BD_Addr env s =
     (let a = addr (bt_nvram s);
          s1 = (if a = ucDefaultAddr s \<or> a = ucZeroAddr
                then snd (WriteBDAddrToNvram env a s)
                else if fgGetEFUSE s then snd (WriteBDAddrToNvram env a s) else s);
          s2 = s1\<lparr>fgGetEFUSE := False\<rparr>
      in send_cmd env 0xFC1A 9 EvtCommon
           [6, a ! 5, a ! 4, a ! 3, a ! 2, a ! 1, a ! 0] s2)"

definition GORMcmd_HCC_Set_Radio :: "benv \<Rightarrow> bt_st \<Rightarrow> bool \<times> bt_st" where
  "GORMcmd_HCC_Set_Radio env s =
     (let r = Radio (bt_nvram s); x = Radio_ext (bt_nvram s)
      in if chip_id s \<noteq> 0x6632
         then send_cmd env 0xFC79 9 EvtCommon [6, r ! 0, r ! 1, r ! 2, r ! 3, r ! 4, r ! 5] s
         else send_cmd env 0xFC79 11 EvtCommon
                [8, r ! 0, r ! 1, r ! 2, r ! 3, r ! 4, r ! 5, x ! 0, x ! 1] s)"

definition GORMcmd_HCC_Set_TX_Power_Offset :: "benv \<Rightarrow> bt_st \<Rightarrow> bool \<times> bt_st" where
  "GORMcmd_HCC_Set_TX_Power_Offset env s =
     (let t = TxPWOffset (bt_nvram s); x = TxPWOffset_ext (bt_nvram s)
      in if chip_id s \<noteq> 0x6632
         then send_cmd env 0xFC93 6 EvtCommon [3, t ! 0, t ! 1, t ! 2] s
         else send_cmd env 0xFC93 9 EvtCommon [6, t ! 0, t ! 1, t ! 2, x ! 0, x ! 1, x ! 2] s)"

definition GORMcmd_HCC_Set_LinkKeyType :: "benv \<Rightarrow> bt_st \<Rightarrow> bool \<times> bt_st" where
  "GORMcmd_HCC_Set_LinkKeyType env s =
     send_cmd env 0xFC1B 4 EvtCommon
       [1, 0x01] s"

definition GORMcmd_HCC_Set_UnitKey :: "benv \<Rightarrow> bt_st \<Rightarrow> bool \<times> bt_st" where
  "GORMcmd_HCC_Set_UnitKey env s =
     send_cmd env 0xFC75 19 EvtCommon
       [16, 0x00, 0x00, 0x00, 0x00, 0x00, 0x00, 0x00, 0x00, 0x00, 0x00, 0x00, 0x00, 0x00,
        0x00, 0x00, 0x00] s"

definition GORMcmd_HCC_Set_Encryption :: "benv \<Rightarrow> bt_st \<Rightarrow> bool \<times> bt_st" where
  "GORMcmd_HCC_Set_Encryption env s =
     send_cmd env 0xFC76 6 EvtCommon
       [3, 0x00, 0x02, 0x10] s"

definition GORMcmd_HCC_Set_PinCodeType :: "benv \<Rightarrow> bt_st \<Rightarrow> bool \<times> bt_st" where
  "GORMcmd_HCC_Set_PinCodeType env s =
     send_cmd env 0x0C0A 4 EvtCommon
       [1, 0x00] s"

definition GORMcmd_HCC_Set_Voice :: "benv \<Rightarrow> bt_st \<Rightarrow> bool \<times> bt_st" where
  "GORMcmd_HCC_Set_Voice env s =
     send_cmd env 0x0C26 5 EvtCommon
       [2, Voice (bt_nvram s) ! 0, Voice (bt_nvram s) ! 1] s"

definition GORMcmd_HCC_Set_PCM :: "benv \<Rightarrow> bt_st \<Rightarrow> bool \<times> bt_st" where
  "GORMcmd_HCC_Set_PCM env s =
     send_cmd env 0xFC72 7 EvtCommon
       [4, Codec (bt_nvram s) ! 0, Codec (bt_nvram s) ! 1, Codec (bt_nvram s) ! 2,
        Codec (bt_nvram s) ! 3] s"

definition GORMcmd_HCC_Set_Sleep_Timeout :: "benv \<Rightarrow> bt_st \<Rightarrow> bool \<times> bt_st" where
  "GORMcmd_HCC_Set_Sleep_Timeout env s =
     send_cmd env 0xFC7A 10 EvtCommon
       [7, Sleep (bt_nvram s) ! 0, Sleep (bt_nvram s) ! 1, Sleep (bt_nvram s) ! 2,
        Sleep (bt_nvram s) ! 3, Sleep (bt_nvram s) ! 4, Sleep (bt_nvram s) ! 5,
        Sleep (bt_nvram s) ! 6] s"

definition GORMcmd_HCC_Coex_Performance_Adjust :: "benv \<Rightarrow> bt_st \<Rightarrow> bool \<times> bt_st" where
  "GORMcmd_HCC_Coex_Performance_Adjust env s =
     send_cmd env 0xFC22 9 EvtCommon
       [6, CoexAdjust (bt_nvram s) ! 0, CoexAdjust (bt_nvram s) ! 1,
        CoexAdjust (bt_nvram s) ! 2, CoexAdjust (bt_nvram s) ! 3,
        CoexAdjust (bt_nvram s) ! 4, CoexAdjust (bt_nvram s) ! 5] s"

definition GORMcmd_HCC_Set_BT_FTR :: "benv \<Rightarrow> bt_st \<Rightarrow> bool \<times> bt_st" where
  "GORMcmd_HCC_Set_BT_FTR env s =
     send_cmd env 0xFC7D 5 EvtCommon
       [2, BtFTR (bt_nvram s) ! 0, BtFTR (bt_nvram s) ! 1] s"

definition GORMcmd_HCC_Set_OSC_Info :: "benv \<Rightarrow> bt_st \<Rightarrow> bool \<times> bt_st" where
  "GORMcmd_HCC_Set_OSC_Info env s =
     send_cmd env 0xFC7B 8 EvtCommon
       [5, 0x01, 0x01, 0x14, 0x0A, 0x08] s"

definition GORMcmd_HCC_Set_LPO_Info :: "benv \<Rightarrow> bt_st \<Rightarrow> bool \<times> bt_st" where
  "GORMcmd_HCC_Set_LPO_Info env s =
     send_cmd env 0xFC7C 13 EvtCommon
       [10, 0x01, 0xFA, 0x0A, 0x02, 0x00, 0xA6, 0x0E, 0x00, 0x40, 0x00] s"

definition GORMcmd_HCC_Set_PTA :: "benv \<Rightarrow> bt_st \<Rightarrow> bool \<times> bt_st" where
  "GORMcmd_HCC_Set_PTA env s =
     send_cmd env 0xFC74 13 EvtCommon
       [10, 0xC9, 0x8B, 0xBF, 0x00, 0x00, 0x52, 0x0E, 0x0E, 0x1F, 0x1B] s"

definition GORMcmd_HCC_Set_BLEPTA :: "benv \<Rightarrow> bt_st \<Rightarrow> bool \<times> bt_st" where
  "GORMcmd_HCC_Set_BLEPTA env s =
     send_cmd env 0xFCFC 8 EvtCommon
       [5, 0x16, 0x0E, 0x0E, 0x00, 0x07] s"

definition GORMcmd_HCC_Set_Internal_PTA_1 :: "benv \<Rightarrow> bt_st \<Rightarrow> bool \<times> bt_st" where
  "GORMcmd_HCC_Set_Internal_PTA_1 env s =
     send_cmd env 0xFCFB 18 EvtCommon
       [15, 0x00, 0x01, 0x0F, 0x0F, 0x01, 0x0F, 0x0F, 0x01, 0x0F, 0x0F, 0x01, 0x0F, 0x0F,
        0x02, 0x01] s"

definition GORMcmd_HCC_Set_Internal_PTA_2 :: "benv \<Rightarrow> bt_st \<Rightarrow> bool \<times> bt_st" where
  "GORMcmd_HCC_Set_Internal_PTA_2 env s =
     send_cmd env 0xFCFB 10 EvtCommon
       [7, 0x01, 0x19, 0x19, 0x07, 0xD0, 0x00, 0x01] s"

definition GORMcmd_HCC_Set_RF_Reg_100 :: "benv \<Rightarrow> bt_st \<Rightarrow> bool \<times> bt_st" where
  "GORMcmd_HCC_Set_RF_Reg_100 env s =
     send_cmd env 0xFCB0 9 EvtCommon
       [6, 0x64, 0x01, 0x02, 0x00, 0x00, 0x00] s"

definition GORMcmd_HCC_RESET :: "benv \<Rightarrow> bt_st \<Rightarrow> bool \<times> bt_st" where
  "GORMcmd_HCC_RESET env s =
     send_cmd env 0x0C03 3 EvtCommon
       [0] s"

definition GORMcmd_HCC_Set_FW_SysLog :: "benv \<Rightarrow> bt_st \<Rightarrow> bool \<times> bt_st" where
  "GORMcmd_HCC_Set_FW_SysLog env s =
     send_cmd env 0xFCBE 4 EvtCommon
       [1, 0x05] s"

definition GORMcmd_HCC_Set_SSP_Debug_Mode :: "benv \<Rightarrow> bt_st \<Rightarrow> bool \<times> bt_st" where
  "GORMcmd_HCC_Set_SSP_Debug_Mode env s =
     send_cmd env 0x1804 4 EvtCommon
       [1, 0x01] s"

fun run_cmd :: "hci_fn \<Rightarrow> benv \<Rightarrow> bt_st \<Rightarrow> bool \<times> bt_st" where
  "run_cmd Get_Local_BD_Addr = GORMcmd_HCC_Get_Local_BD_Addr"
| "run_cmd Set_Local_BD_Addr = GORMcmd_HCC_Set_Local_BD_Addr"
| "run_cmd Set_LinkKeyType = GORMcmd_HCC_Set_LinkKeyType"
| "run_cmd Set_UnitKey = GORMcmd_HCC_Set_UnitKey"
| "run_cmd Set_Encryption = GORMcmd_HCC_Set_Encryption"
| "run_cmd Set_PinCodeType = GORMcmd_HCC_Set_PinCodeType"
| "run_cmd Set_Voice = GORMcmd_HCC_Set_Voice"
| "run_cmd Set_PCM = GORMcmd_HCC_Set_PCM"
| "run_cmd Set_Radio = GORMcmd_HCC_Set_Radio"
| "run_cmd Set_TX_Power_Offset = GORMcmd_HCC_Set_TX_Power_Offset"
| "run_cmd Set_Sleep_Timeout = GORMcmd_HCC_Set_Sleep_Timeout"
| "run_cmd Coex_Performance_Adjust = GORMcmd_HCC_Coex_Performance_Adjust"
| "run_cmd Set_BT_FTR = GORMcmd_HCC_Set_BT_FTR"
| "run_cmd Set_OSC_Info = GORMcmd_HCC_Set_OSC_Info"
| "run_cmd Set_LPO_Info = GORMcmd_HCC_Set_LPO_Info"
| "run_cmd Set_PTA = GORMcmd_HCC_Set_PTA"
| "run_cmd Set_BLEPTA = GORMcmd_HCC_Set_BLEPTA"
| "run_cmd Set_Internal_PTA_1 = GORMcmd_HCC_Set_Internal_PTA_1"
| "run_cmd Set_Internal_PTA_2 = GORMcmd_HCC_Set_Internal_PTA_2"
| "run_cmd Set_RF_Reg_100 = GORMcmd_HCC_Set_RF_Reg_100"
| "run_cmd HCI_RESET = GORMcmd_HCC_RESET"
| "run_cmd Set_FW_SysLog = GORMcmd_HCC_Set_FW_SysLog"
| "run_cmd Set_SSP_Debug_Mode = GORMcmd_HCC_Set_SSP_Debug_Mode"

section \<open>Preload scripts\<close>

definition bt_init_preload_script_6628 :: "hci_fn list" where
  "bt_init_preload_script_6628 =
     [Get_Local_BD_Addr, Set_Local_BD_Addr, Set_LinkKeyType, Set_UnitKey, Set_Encryption,
      Set_PinCodeType, Set_Voice, Set_PCM, Set_Radio, Set_TX_Power_Offset, Set_Sleep_Timeout,
      Set_BT_FTR, Set_OSC_Info, Set_LPO_Info, Set_PTA, Set_BLEPTA, HCI_RESET,
      Set_Internal_PTA_1, Set_Internal_PTA_2, Set_RF_Reg_100, Set_FW_SysLog]"

definition bt_init_preload_script_6630 :: "hci_fn list" where
  "bt_init_preload_script_6630 =
     [Get_Local_BD_Addr, Set_Local_BD_Addr, Set_PCM, Set_Radio, Set_TX_Power_Offset,
      Set_Sleep_Timeout, Coex_Performance_Adjust, Set_FW_SysLog, Set_SSP_Debug_Mode]"

definition bt_init_preload_script_6632 :: "hci_fn list" where
  "bt_init_preload_script_6632 =
     [Get_Local_BD_Addr, Set_Local_BD_Addr, Set_PCM, Set_Radio, Set_TX_Power_Offset,
      Set_Sleep_Timeout, HCI_RESET, Set_FW_SysLog, Set_SSP_Debug_Mode]"

definition bt_init_preload_script_consys :: "hci_fn list" where
  "bt_init_preload_script_consys =
     [Set_Local_BD_Addr, Set_Radio, Set_TX_Power_Offset, Set_Sleep_Timeout, HCI_RESET,
      Set_FW_SysLog, Set_SSP_Debug_Mode]"

section \<open>Event handlers\<close>

text \<open>
  Both read the payload at fixed offsets without looking at its length: a payload too short
  for the reads is \<open>None\<close>.
\<close>

definition finish_evt :: "bool \<Rightarrow> bt_st \<Rightarrow> bt_st" where
  "finish_evt success s =
     (let s1 = (if cbacks s then bemit BDealloc s else s)
      in bemit (BSignal success)
           (s1\<lparr>cmd_st := (if success then CMD_SUCCESS else CMD_FAIL), handler := None\<rparr>))"

definition GORMevt_HCE_Get_Local_BD_Addr :: "byte list \<Rightarrow> bt_st \<Rightarrow> bt_st option" where
  "GORMevt_HCE_Get_Local_BD_Addr p s =
     (if length p < 12 then None
      else
        let event = p ! 0; opcode = un_le16 [p ! 3, p ! 4]; status = p ! 5;
            success = (event = 0x0E \<and> opcode = 0x1009 \<and> status = 0);
            ucBDAddr = [p ! 11, p ! 10, p ! 9, p ! 8, p ! 7, p ! 6]
        in Some (finish_evt success (s\<lparr>bt_nvram := (bt_nvram s)\<lparr>addr := ucBDAddr\<rparr>\<rparr>)))"

definition GORMevt_HCE_Common_Complete :: "byte list \<Rightarrow> bt_st \<Rightarrow> bt_st option" where
  "GORMevt_HCE_Common_Complete p s =
     (if length p < 6 then None
      else
        let event = p ! 0; opcode = un_le16 [p ! 3, p ! 4]; status = p ! 5;
            success = (event = 0x0E \<and> opcode = wOpCode s \<and> status = 0)
        in Some (finish_evt success s))"

definition notify_thread_exit :: "bt_st \<Rightarrow> bt_st" where
  "notify_thread_exit s = s\<lparr>cmd_st := CMD_TERMINATE\<rparr>"

text \<open>
  \<open>GetRandomValue\<close> (compiled in with \<open>BD_ADDR_AUTOGEN\<close> only): \<open>r1\<close>, \<open>r2\<close> and \<open>r3\<close> are the results
  of \<open>rand\<close>, the third one only when \<open>/dev/urandom\<close> could be read.
\<close>

definition GetRandomValue :: "int \<Rightarrow> int \<Rightarrow> int option \<Rightarrow> byte list \<Rightarrow> byte list" where
  "GetRandomValue r1 r2 r3 str =
     (let s0 = str[0 := word_of_int (((drop_bit 24 r1 OR drop_bit 16 r1) AND 0xFE) OR 0x02)];
          s1 = s0[1 := word_of_int (drop_bit 8 r2 AND 0xFF)];
          last = (case r3 of Some r \<Rightarrow> r | None \<Rightarrow> r2)
      in s1[5 := word_of_int (last AND 0xFF)])"

section \<open>What a command transmits\<close>

fun opcode_of :: "hci_fn \<Rightarrow> 16 word" where
  "opcode_of Get_Local_BD_Addr = 0x1009"
| "opcode_of Set_Local_BD_Addr = 0xFC1A"
| "opcode_of Set_LinkKeyType = 0xFC1B"
| "opcode_of Set_UnitKey = 0xFC75"
| "opcode_of Set_Encryption = 0xFC76"
| "opcode_of Set_PinCodeType = 0x0C0A"
| "opcode_of Set_Voice = 0x0C26"
| "opcode_of Set_PCM = 0xFC72"
| "opcode_of Set_Radio = 0xFC79"
| "opcode_of Set_TX_Power_Offset = 0xFC93"
| "opcode_of Set_Sleep_Timeout = 0xFC7A"
| "opcode_of Coex_Performance_Adjust = 0xFC22"
| "opcode_of Set_BT_FTR = 0xFC7D"
| "opcode_of Set_OSC_Info = 0xFC7B"
| "opcode_of Set_LPO_Info = 0xFC7C"
| "opcode_of Set_PTA = 0xFC74"
| "opcode_of Set_BLEPTA = 0xFCFC"
| "opcode_of Set_Internal_PTA_1 = 0xFCFB"
| "opcode_of Set_Internal_PTA_2 = 0xFCFB"
| "opcode_of Set_RF_Reg_100 = 0xFCB0"
| "opcode_of HCI_RESET = 0x0C03"
| "opcode_of Set_FW_SysLog = 0xFCBE"
| "opcode_of Set_SSP_Debug_Mode = 0x1804"

type_synonym packet = "16 word \<times> nat \<times> byte list \<times> bool"

fun packet_of :: "bt_ev \<Rightarrow> packet list" where
  "packet_of (BXmit op len data ok) = [(op, len, data, ok)]"
| "packet_of _ = []"

definition packets :: "bt_st \<Rightarrow> packet list" where
  "packets s = concat (map packet_of (btrace s))"

fun signal_of :: "bt_ev \<Rightarrow> bool list" where
  "signal_of (BSignal b) = [b]"
| "signal_of _ = []"

text \<open>The completions the command thread has been signalled.\<close>

definition signals :: "bt_st \<Rightarrow> bool list" where
  "signals s = concat (map signal_of (btrace s))"

lemma signals_bemit [simp]: "signals (bemit e s) = signals s @ signal_of e"
  by (simp add: signals_def bemit_def)

lemma signals_upd [simp]:
  "signals (s\<lparr>wOpCode := w\<rparr>) = signals s" "signals (s\<lparr>handler := h\<rparr>) = signals s"
  "signals (s\<lparr>cmd_st := c\<rparr>) = signals s" "signals (s\<lparr>fgGetEFUSE := b\<rparr>) = signals s"
  "signals (s\<lparr>bt_nvram := n\<rparr>) = signals s" "signals (s\<lparr>cur_script := sc\<rparr>) = signals s"
  "signals (s\<lparr>ucDefaultAddr := a\<rparr>) = signals s" "signals (s\<lparr>running := b\<rparr>) = signals s"
  by (simp_all add: signals_def)

text \<open>
  A well-formed HCI command packet: opcode, little endian, then the parameter length, then
  that many bytes; \<open>len\<close> counts all of it, and it fits the buffer the caller allocated.
\<close>

definition pkt_ok :: "packet \<Rightarrow> bool" where
  "pkt_ok p = (case p of (op, len, data, ok) \<Rightarrow>
     len = length data \<and> 3 \<le> length data \<and> un_le16 (take 2 data) = op
     \<and> length data = 3 + unat (data ! 2) \<and> length data \<le> HCI_CMD_MAX_SIZE)"

lemma packets_bemit [simp]: "packets (bemit e s) = packets s @ packet_of e"
  by (simp add: packets_def bemit_def)

lemma packets_upd [simp]:
  "packets (s\<lparr>wOpCode := w\<rparr>) = packets s" "packets (s\<lparr>handler := h\<rparr>) = packets s"
  "packets (s\<lparr>cmd_st := c\<rparr>) = packets s" "packets (s\<lparr>fgGetEFUSE := b\<rparr>) = packets s"
  "packets (s\<lparr>bt_nvram := n\<rparr>) = packets s" "packets (s\<lparr>cur_script := sc\<rparr>) = packets s"
  "packets (s\<lparr>ucDefaultAddr := a\<rparr>) = packets s" "packets (s\<lparr>running := b\<rparr>) = packets s"
  by (simp_all add: packets_def)

lemma bemit_fields [simp]:
  "cbacks (bemit e s) = cbacks s" "bt_nvram (bemit e s) = bt_nvram s"
  "cmd_st (bemit e s) = cmd_st s" "cur_script (bemit e s) = cur_script s"
  "handler (bemit e s) = handler s" "chip_id (bemit e s) = chip_id s"
  "wOpCode (bemit e s) = wOpCode s" "fgGetEFUSE (bemit e s) = fgGetEFUSE s"
  "running (bemit e s) = running s" "btrace (bemit e s) = btrace s @ [e]"
  by (simp_all add: bemit_def)

lemma nvram_write_fields [simp]:
  "cbacks (snd (WriteBDAddrToNvram env a s)) = cbacks s"
  "bt_nvram (snd (WriteBDAddrToNvram env a s)) = bt_nvram s"
  "cmd_st (snd (WriteBDAddrToNvram env a s)) = cmd_st s"
  "cur_script (snd (WriteBDAddrToNvram env a s)) = cur_script s"
  "chip_id (snd (WriteBDAddrToNvram env a s)) = chip_id s"
  "running (snd (WriteBDAddrToNvram env a s)) = running s"
  "handler (snd (WriteBDAddrToNvram env a s)) = handler s"
  "signals (snd (WriteBDAddrToNvram env a s)) = signals s"
  "packets (snd (WriteBDAddrToNvram env a s)) = packets s"
  by (auto simp: WriteBDAddrToNvram_def Let_def split: prod.splits)

lemma send_cmd_fields [simp]:
  "cbacks (snd (send_cmd env op len h body s)) = cbacks s"
  "bt_nvram (snd (send_cmd env op len h body s)) = bt_nvram s"
  "cmd_st (snd (send_cmd env op len h body s)) = cmd_st s"
  "cur_script (snd (send_cmd env op len h body s)) = cur_script s"
  "chip_id (snd (send_cmd env op len h body s)) = chip_id s"
  "running (snd (send_cmd env op len h body s)) = running s"
  by (simp_all add: send_cmd_def Let_def)

lemmas cmd_defs = GORMcmd_HCC_Get_Local_BD_Addr_def GORMcmd_HCC_Set_Local_BD_Addr_def
  GORMcmd_HCC_Set_LinkKeyType_def GORMcmd_HCC_Set_UnitKey_def GORMcmd_HCC_Set_Encryption_def
  GORMcmd_HCC_Set_PinCodeType_def GORMcmd_HCC_Set_Voice_def GORMcmd_HCC_Set_PCM_def
  GORMcmd_HCC_Set_Radio_def GORMcmd_HCC_Set_TX_Power_Offset_def
  GORMcmd_HCC_Set_Sleep_Timeout_def GORMcmd_HCC_Coex_Performance_Adjust_def
  GORMcmd_HCC_Set_BT_FTR_def GORMcmd_HCC_Set_OSC_Info_def GORMcmd_HCC_Set_LPO_Info_def
  GORMcmd_HCC_Set_PTA_def GORMcmd_HCC_Set_BLEPTA_def GORMcmd_HCC_Set_Internal_PTA_1_def
  GORMcmd_HCC_Set_Internal_PTA_2_def GORMcmd_HCC_Set_RF_Reg_100_def GORMcmd_HCC_RESET_def
  GORMcmd_HCC_Set_FW_SysLog_def GORMcmd_HCC_Set_SSP_Debug_Mode_def

text \<open>Every command is one \<open>send_cmd\<close> of its opcode, possibly after an NVRAM update.\<close>

definition sends :: "benv \<Rightarrow> 16 word \<Rightarrow> bt_st \<Rightarrow> bool \<times> bt_st \<Rightarrow> bool" where
  "sends env op s r = (\<exists>len h body t. r = send_cmd env op len h body t
     \<and> len = 2 + length body \<and> body \<noteq> [] \<and> length body = 1 + unat (hd body) \<and> length body < 200
     \<and> packets t = packets s \<and> cbacks t = cbacks s \<and> bt_nvram t = bt_nvram s
     \<and> cmd_st t = cmd_st s \<and> cur_script t = cur_script s \<and> chip_id t = chip_id s
     \<and> running t = running s \<and> handler t = handler s \<and> signals t = signals s)"

lemma sends_plain:
  "len = 2 + length body \<Longrightarrow> body \<noteq> [] \<Longrightarrow> length body = 1 + unat (hd body) \<Longrightarrow>
   length body < 200 \<Longrightarrow> sends env op s (send_cmd env op len h body s)"
  unfolding sends_def by blast

lemma sends_set_addr: "sends env 0xFC1A s (GORMcmd_HCC_Set_Local_BD_Addr env s)"
  unfolding sends_def GORMcmd_HCC_Set_Local_BD_Addr_def Let_def
  by (rule exI, rule exI, rule exI, rule exI, rule conjI, rule refl) simp

lemma run_cmd_sends: "sends env (opcode_of c) s (run_cmd c env s)"
  by (cases c)
     (simp_all add: sends_set_addr, simp_all add: cmd_defs sends_plain Let_def)

lemma sends_fields:
  assumes "sends env op s r"
  shows "cbacks (snd r) = cbacks s" "bt_nvram (snd r) = bt_nvram s" "cmd_st (snd r) = cmd_st s"
    "cur_script (snd r) = cur_script s" "chip_id (snd r) = chip_id s" "running (snd r) = running s"
    "signals (snd r) = signals s" "handler (snd r) = None \<longleftrightarrow> handler s = None \<and> \<not> fst r"
proof -
  obtain len h body t where r: "r = send_cmd env op len h body t"
    and t: "cbacks t = cbacks s" "bt_nvram t = bt_nvram s" "cmd_st t = cmd_st s"
      "cur_script t = cur_script s" "chip_id t = chip_id s" "running t = running s"
      "handler t = handler s" "signals t = signals s"
    using assms unfolding sends_def by blast
  show "cbacks (snd r) = cbacks s" "bt_nvram (snd r) = bt_nvram s" "cmd_st (snd r) = cmd_st s"
    "cur_script (snd r) = cur_script s" "chip_id (snd r) = chip_id s" "running (snd r) = running s"
    using t by (simp_all add: r)
  show "signals (snd r) = signals s" "handler (snd r) = None \<longleftrightarrow> handler s = None \<and> \<not> fst r"
    using t by (simp_all add: r send_cmd_def Let_def)
qed

lemmas run_cmd_fields [simp] = sends_fields[OF run_cmd_sends]

lemma sends_packets:
  assumes "sends env op s r"
  shows "\<exists>len data. packets (snd r) =
      packets s @ (if cbacks s then [(op, len, data, fst r)] else [])
    \<and> pkt_ok (op, len, data, fst r) \<and> (fst r \<longrightarrow> cbacks s)"
proof -
  obtain len h body t where r: "r = send_cmd env op len h body t" "len = 2 + length body"
    "body \<noteq> []" "length body = 1 + unat (hd body)" "length body < 200"
    "packets t = packets s" "cbacks t = cbacks s"
    using assms unfolding sends_def by blast
  have "(le16 op @ body) ! 2 = hd body" using r(3) by (simp add: nth_append hd_conv_nth)
  then have "pkt_ok (op, len, le16 op @ body, fst r)"
    using r by (simp add: pkt_ok_def HCI_CMD_MAX_SIZE_def)
  then show ?thesis
    using r by (intro exI[of _ len] exI[of _ "le16 op @ body"]) (simp add: send_cmd_def Let_def)
qed

section \<open>The contract of the commands\<close>

text \<open>What the initialisation thread relies on: a call transmits one well-formed packet with the
  command's opcode, if there is a stack to transmit it, and reports whether it was accepted.\<close>

locale hci_commands =
  fixes run :: "'c \<Rightarrow> 's \<Rightarrow> bool \<times> 's"
    and opc :: "'c \<Rightarrow> 16 word"
    and pkts :: "'s \<Rightarrow> packet list"
    and conn :: "'s \<Rightarrow> bool"
  assumes run_pkts: "\<exists>len data. pkts (snd (run c s)) =
      pkts s @ (if conn s then [(opc c, len, data, fst (run c s))] else [])
    \<and> pkt_ok (opc c, len, data, fst (run c s)) \<and> (fst (run c s) \<longrightarrow> conn s)"
begin

definition accepted :: "'s \<Rightarrow> 16 word list" where
  "accepted s = map fst (filter (\<lambda>(_, _, _, ok). ok) (pkts s))"

lemma accepted_run: "accepted (snd (run c s)) = accepted s @ (if fst (run c s) then [opc c] else [])"
  using run_pkts[of c s] by (auto simp: accepted_def)

lemma all_ok_run: "\<forall>p \<in> set (pkts s). pkt_ok p \<Longrightarrow> \<forall>p \<in> set (pkts (snd (run c s))). pkt_ok p"
  using run_pkts[of c s] by auto

end

interpretation hc: hci_commands "\<lambda>c. run_cmd c env" opcode_of packets cbacks for env
  by unfold_locales (rule sends_packets[OF run_cmd_sends])

definition accepted_ops :: "bt_st \<Rightarrow> 16 word list" where
  "accepted_ops s = map fst (filter (\<lambda>(_, _, _, ok). ok) (packets s))"

lemma accepted_ops_run:
  "accepted_ops (snd (run_cmd c env s)) =
     accepted_ops s @ (if fst (run_cmd c env s) then [opcode_of c] else [])"
  using hc.accepted_run[of c env s] by (simp add: accepted_ops_def hc.accepted_def)

lemma nvram_write_trace:
  "\<exists>d evs. btrace (snd (WriteBDAddrToNvram env a s)) = btrace s @ BNvmOpen d # evs"
  by (auto simp: WriteBDAddrToNvram_def Let_def split: prod.splits)

text \<open>A concrete environment and state for the instances of the properties.\<close>

definition benv0 :: benv where
  "benv0 = \<lparr>alloc_ok = (\<lambda>_. True), xmit_ok = (\<lambda>_. True), nvm_desc = (\<lambda>_. (3, 64, 1)),
     nvm_write = (\<lambda>_. 6), props = (\<lambda>_. []), merge_if = False, bt_i2s = False\<rparr>"

definition bt_boot :: bt_st where
  "bt_boot = \<lparr>chip_id = 0x6755, bt_nvram = stBtDefault_consys, cur_script = None, wOpCode = 0,
     cmd_st = CMD_SUCCESS, fgGetEFUSE = False, ucDefaultAddr = ucZeroAddr, cbacks = True,
     handler = None, running = True, btrace = []\<rparr>"

section \<open>Properties\<close>

text \<open>
  A command completes with success exactly when the payload is a Command Complete event for
  the opcode last sent, with status 0; the handler stays inside the payload if it has at least
  6 bytes, signals exactly one completion and changes neither the NVRAM record nor the script.
\<close>

theorem common_complete_spec:
  "GORMevt_HCE_Common_Complete p s = (if length p < 6 then None else
     Some (finish_evt (p ! 0 = 0x0E \<and> le16 (wOpCode s) = [p ! 3, p ! 4] \<and> p ! 5 = 0) s))
   \<and> (\<forall>s'. GORMevt_HCE_Common_Complete p s = Some s' \<longrightarrow>
        (cmd_st s' = CMD_SUCCESS \<longleftrightarrow>
           p ! 0 = 0x0E \<and> le16 (wOpCode s) = [p ! 3, p ! 4] \<and> p ! 5 = 0)
        \<and> cmd_st s' \<in> {CMD_SUCCESS, CMD_FAIL} \<and> length (signals s') = length (signals s) + 1
        \<and> bt_nvram s' = bt_nvram s \<and> cur_script s' = cur_script s)"
proof -
  have op: "un_le16 [p ! 3, p ! 4] = wOpCode s \<longleftrightarrow> le16 (wOpCode s) = [p ! 3, p ! 4]"
    using le16_un_le16[of "[p ! 3, p ! 4]"] by (metis length_Cons list.size(3) un_le16_le16 numeral_2_eq_2)
  show ?thesis
    unfolding GORMevt_HCE_Common_Complete_def Let_def op
    by (auto simp: finish_evt_def Let_def split: if_splits)
qed

theorem common_complete_spec_witness:
  "GORMevt_HCE_Common_Complete [0x0E, 4, 1, 0x03, 0x0C, 0] bt_boot =
     Some (finish_evt False bt_boot)"
  using common_complete_spec[of "[0x0E, 4, 1, 0x03, 0x0C, 0]" bt_boot]
  by (simp add: bt_boot_def le16_def)

text \<open>
  The answer to the address query installs the address it carries, in reverse byte order,
  even when the event reports a failure; it succeeds only for opcode 0x1009 with status 0, and
  a payload of at least 12 bytes is never overrun.
\<close>

theorem get_addr_evt_installs:
  assumes "length p = 12"
  shows "\<exists>s'. GORMevt_HCE_Get_Local_BD_Addr p s = Some s'
    \<and> addr (bt_nvram s') = rev (drop 6 p)
    \<and> (cmd_st s' = CMD_SUCCESS \<longrightarrow> p ! 0 = 0x0E \<and> p ! 5 = 0)"
proof -
  have "drop 6 p = [p ! 6, p ! 7, p ! 8, p ! 9, p ! 10, p ! 11]"
    using assms by (simp add: Cons_nth_drop_Suc[symmetric])
  then show ?thesis
    using assms by (simp add: GORMevt_HCE_Get_Local_BD_Addr_def Let_def finish_evt_def)
qed

theorem get_addr_evt_installs_witness:
  "\<exists>s'. GORMevt_HCE_Get_Local_BD_Addr [0x0E, 10, 1, 0x09, 0x10, 1, 6, 5, 4, 3, 2, 1] bt_boot = Some s'
    \<and> addr (bt_nvram s') = [1, 2, 3, 4, 5, 6] \<and> cmd_st s' \<noteq> CMD_SUCCESS"
  using get_addr_evt_installs[of "[0x0E, 10, 1, 0x09, 0x10, 1, 6, 5, 4, 3, 2, 1]" bt_boot]
  by auto

text \<open>
  \<open>WriteBDAddrToNvram\<close> closes the descriptor exactly once on every path that opened it and
  never on the other, writes at most once and only to a file of one 64-byte record, and returns
  TRUE exactly when that write was made and did not fail.
\<close>

theorem nvram_write_closes:
  "\<exists>d evs. btrace (snd (WriteBDAddrToNvram env a s)) = btrace s @ BNvmOpen d # evs
    \<and> evs = (if fst d < 0 then []
             else if snd d = (int nvram_size, 1)
               then [BNvmWrite a (nvm_write env (btrace s @ [BNvmOpen d])), BNvmClose]
             else [BNvmClose])
    \<and> fst (WriteBDAddrToNvram env a s) =
        (0 \<le> fst d \<and> snd d = (int nvram_size, 1) \<and> 0 \<le> nvm_write env (btrace s @ [BNvmOpen d]))"
proof -
  obtain fd sz n where "nvm_desc env (btrace s) = (fd, sz, n)" by (metis prod_cases3)
  then show ?thesis
    by (intro exI[of _ "(fd, sz, n)"]) (auto simp: WriteBDAddrToNvram_def Let_def)
qed

text \<open>
  \<open>Set_Local_BD_Addr\<close> sends the address of the NVRAM record in reverse byte order, clears the
  eFUSE flag and touches the NVRAM file exactly when the address is the default one, all zero,
  or came from the eFUSE.
\<close>

theorem set_addr_packet:
  assumes "cbacks s" "length (addr (bt_nvram s)) = 6"
  shows "\<exists>ok. packets (snd (GORMcmd_HCC_Set_Local_BD_Addr env s)) =
      packets s @ [(0xFC1A, 9, [0x1A, 0xFC, 6] @ rev (addr (bt_nvram s)), ok)]
    \<and> \<not> fgGetEFUSE (snd (GORMcmd_HCC_Set_Local_BD_Addr env s))
    \<and> ((\<exists>d. BNvmOpen d \<in> set (drop (length (btrace s))
           (btrace (snd (GORMcmd_HCC_Set_Local_BD_Addr env s))))) \<longleftrightarrow>
       addr (bt_nvram s) \<in> {ucDefaultAddr s, ucZeroAddr} \<or> fgGetEFUSE s)"
proof -
  let ?a = "addr (bt_nvram s)"
  have "?a = [?a ! 0, ?a ! 1, ?a ! 2, ?a ! 3, ?a ! 4, ?a ! 5]"
    using assms(2) by (simp add: list_eq_iff_nth_eq less_Suc_eq numeral_eq_Suc)
  then have r: "rev ?a = [?a ! 5, ?a ! 4, ?a ! 3, ?a ! 2, ?a ! 1, ?a ! 0]"
    by (metis rev.simps append.simps)
  obtain x y z evs where
    w: "btrace (snd (WriteBDAddrToNvram env ?a s)) = btrace s @ BNvmOpen (x, y, z) # evs"
    using nvram_write_trace by (metis prod_cases3)
  show ?thesis
    using assms(1) unfolding r
    by (auto simp: GORMcmd_HCC_Set_Local_BD_Addr_def Let_def send_cmd_def le16_def w)
qed

theorem set_addr_packet_witness:
  "\<exists>ok. packets (snd (GORMcmd_HCC_Set_Local_BD_Addr benv0 bt_boot)) =
     packets bt_boot @ [(0xFC1A, 9, [0x1A, 0xFC, 6, 1, 0, 0, 0x46, 0, 0], ok)]"
  using set_addr_packet[of bt_boot benv0] by (auto simp: bt_boot_def stBtDefault_consys_def)

text \<open>
  A generated address is always a locally administered unicast one: bit 1 of its first byte
  is set, bit 0 is clear; bytes 2 to 4 keep the manufacturer part it started from.
\<close>

theorem random_addr_private:
  assumes "length a = 6"
  shows "length (GetRandomValue r1 r2 r3 a) = 6
    \<and> bit (GetRandomValue r1 r2 r3 a ! 0) 1 \<and> \<not> bit (GetRandomValue r1 r2 r3 a ! 0) 0
    \<and> take 3 (drop 2 (GetRandomValue r1 r2 r3 a)) = take 3 (drop 2 a)"
proof -
  have "bit (0xFE :: int) 0 = False" "bit (0x02 :: int) 0 = False" "bit (0x02 :: int) 1 = True"
    by (simp_all add: bit_numeral_rec)
  then have "bit (GetRandomValue r1 r2 r3 a ! 0) 1 \<and> \<not> bit (GetRandomValue r1 r2 r3 a ! 0) 0"
    using assms
    by (auto simp: GetRandomValue_def Let_def bit_word_of_int_iff bit_or_iff bit_and_iff)
  moreover have "take 3 (drop 2 (GetRandomValue r1 r2 r3 a)) = take 3 (drop 2 a)"
    using assms by (intro nth_equalityI) (auto simp: GetRandomValue_def Let_def nth_list_update)
  moreover have "length (GetRandomValue r1 r2 r3 a) = 6"
    using assms by (simp add: GetRandomValue_def Let_def)
  ultimately show ?thesis by blast
qed

theorem random_addr_private_witness:
  "bit (GetRandomValue 0 0 None [0, 0, 0x46, 0, 0, 1] ! 0) 1"
  using random_addr_private[of "[0, 0, 0x46, 0, 0, 1]" 0 0 None] by simp

text \<open>
  The two views of the NVRAM union agree: every 64-byte image is the raw form of the record
  read from it, and every well-formed record is read back from its raw form.
\<close>

theorem nvram_union_roundtrip:
  "(length r = nvram_size \<longrightarrow> nvram_raw (nvram_of r) = r \<and> nvram_wf (nvram_of r))
   \<and> (nvram_wf n \<longrightarrow> nvram_of (nvram_raw n) = n \<and> length (nvram_raw n) = nvram_size)"
  by (simp add: nvram_raw_of nvram_of_wf nvram_of_raw nvram_raw_length)

theorem nvram_union_roundtrip_witness:
  "nvram_of (nvram_raw stBtDefault_consys) = stBtDefault_consys"
  using nvram_union_roundtrip[of "[]" stBtDefault_consys] by simp

end
