(* ===== verification/Bt_Init.thy ===== *)
theory Bt_Init
  imports Bt_Hci
begin

text \<open>
  Controller initialisation: \<open>BT_InitDevice\<close> and \<open>BT_Cleanup\<close> of
  \<open>src/hal/bluedroid/radiomgr.c\<close> and the thread \<open>GORM_FW_Init_Thread\<close> of \<open>radiomod.c\<close>.  The
  thread is a program counter and an executable step function; the events of the controller,
  the termination request of another thread and the steps of the thread interleave freely
  (\<open>init_run\<close>).  Each step is one section of the source between two points where the shared
  \<open>cmd_status\<close> is read or written.
\<close>

section \<open>The thread\<close>

datatype pc =
    PStart
  | PHead nat
  | PLock nat
  | PSend nat
  | PWait nat
  | PEnd nat
  | PExit bool
  | PDone

definition consys_chips :: "32 word list" where
  "consys_chips = [0x8163, 0x8127, 0x8167, 0x6582, 0x6592, 0x6752, 0x0321, 0x0335, 0x0337,
     0x6580, 0x6570, 0x6755, 0x6797, 0x6757, 0x6759, 0x6763, 0x6758, 0x6739, 0x6771, 0x6775]"

definition select_script :: "benv \<Rightarrow> bt_st \<Rightarrow> bool \<times> bt_st" where
  "select_script env s =
     (if chip_id s = 0x6628 then
        (False, s\<lparr>cur_script := Some bt_init_preload_script_6628,
                  ucDefaultAddr := addr (stBtDefault_6628 env)\<rparr>)
      else if chip_id s = 0x6630 then
        (False, s\<lparr>cur_script := Some bt_init_preload_script_6630,
                  ucDefaultAddr := addr (stBtDefault_6630 env)\<rparr>)
      else if chip_id s = 0x6632 then
        (False, s\<lparr>cur_script := Some bt_init_preload_script_6632,
                  ucDefaultAddr := addr (stBtDefault_6632 env)\<rparr>)
      else if chip_id s \<in> set consys_chips then
        (True, s\<lparr>cur_script := Some bt_init_preload_script_consys,
                 ucDefaultAddr := addr stBtDefault_consys\<rparr>)
      else (False, s))"

text \<open>The debug commands run only when their property is set to "1".\<close>

definition skipped :: "benv \<Rightarrow> hci_fn \<Rightarrow> bool" where
  "skipped env f =
     (if f = Set_FW_SysLog then props env ''persist.bt.syslog.enable'' \<noteq> ''1''
      else if f = Set_SSP_Debug_Mode then props env ''persist.bt.sspdebug.enable'' \<noteq> ''1''
      else False)"

definition start_step :: "benv \<Rightarrow> bt_st \<Rightarrow> pc \<times> bt_st" where
  "start_step env s =
     (let (fgConsys, s1) = select_script env s
      in case cur_script s1 of
           None \<Rightarrow> (PExit False, s1)
         | Some sc \<Rightarrow>
             if fgConsys then (PHead 0, s1)
             else let a = addr (bt_nvram s1);
                      s2 = (if a = ucDefaultAddr s1 \<or> a = ucZeroAddr
                            then s1\<lparr>fgGetEFUSE := True\<rparr> else s1)
                  in (PHead (if fgGetEFUSE s2 then 0 else 1), s2))"

definition head_step :: "benv \<Rightarrow> nat \<Rightarrow> bt_st \<Rightarrow> pc \<times> bt_st" where
  "head_step env i s =
     (let sc = the (cur_script s)
      in if i < length sc \<and> cmd_st s \<noteq> CMD_TERMINATE
         then (if skipped env (sc ! i) then (PHead (i + 1), s)
               else if cbacks s
                 then (let ok = alloc_ok env (btrace s); s1 = bemit (BAlloc ok) s
                       in (if ok then PLock i else PEnd i, s1))
               else (PEnd i, s))
         else (PEnd i, s))"

definition lock_step :: "nat \<Rightarrow> bt_st \<Rightarrow> pc \<times> bt_st" where
  "lock_step i s =
     (if cmd_st s \<noteq> CMD_TERMINATE then (PSend i, s\<lparr>cmd_st := CMD_PENDING\<rparr>) else (PEnd i, s))"

definition send_step :: "benv \<Rightarrow> nat \<Rightarrow> bt_st \<Rightarrow> pc \<times> bt_st" where
  "send_step env i s =
     (let (ok, s1) = run_cmd (the (cur_script s) ! i) env s
      in if ok then (PWait i, s1) else (PEnd i, if cbacks s1 then bemit BDealloc s1 else s1))"

definition wait_step :: "nat \<Rightarrow> bt_st \<Rightarrow> (pc \<times> bt_st) option" where
  "wait_step i s =
     (case cmd_st s of
        CMD_PENDING \<Rightarrow> None
      | CMD_SUCCESS \<Rightarrow> Some (PHead (i + 1), s)
      | CMD_FAIL \<Rightarrow> Some (PEnd i, s)
      | CMD_TERMINATE \<Rightarrow> Some (PEnd i, s\<lparr>cmd_st := CMD_SUCCESS\<rparr>))"

definition end_step :: "nat \<Rightarrow> bt_st \<Rightarrow> pc \<times> bt_st" where
  "end_step i s = (PExit (i = length (the (cur_script s))), s)"

definition exit_step :: "bool \<Rightarrow> bt_st \<Rightarrow> pc \<times> bt_st" where
  "exit_step ret s =
     (PDone, (if cbacks s then bemit (BFwCfg ret) s else s)\<lparr>running := False\<rparr>)"

fun thread_step :: "benv \<Rightarrow> pc \<times> bt_st \<Rightarrow> (pc \<times> bt_st) option" where
  "thread_step env (PStart, s) = Some (start_step env s)"
| "thread_step env (PHead i, s) = Some (head_step env i s)"
| "thread_step env (PLock i, s) = Some (lock_step i s)"
| "thread_step env (PSend i, s) = Some (send_step env i s)"
| "thread_step env (PWait i, s) = wait_step i s"
| "thread_step env (PEnd i, s) = Some (end_step i s)"
| "thread_step env (PExit ret, s) = Some (exit_step ret s)"
| "thread_step env (PDone, s) = None"

section \<open>The other threads\<close>

fun deliver :: "byte list \<Rightarrow> bt_st \<Rightarrow> bt_st option" where
  "deliver p s =
     (case handler s of
        None \<Rightarrow> None
      | Some EvtGetAddr \<Rightarrow> GORMevt_HCE_Get_Local_BD_Addr p s
      | Some EvtCommon \<Rightarrow> GORMevt_HCE_Common_Complete p s)"

inductive init_run :: "benv \<Rightarrow> bt_st \<Rightarrow> pc \<Rightarrow> bt_st \<Rightarrow> bool" for env s0 where
  run_start: "init_run env s0 PStart s0"
| run_thread: "init_run env s0 p s \<Longrightarrow> thread_step env (p, s) = Some (p', s') \<Longrightarrow>
    init_run env s0 p' s'"
| run_event: "init_run env s0 p s \<Longrightarrow> deliver d s = Some s' \<Longrightarrow> init_run env s0 p s'"
| run_terminate: "init_run env s0 p s \<Longrightarrow> init_run env s0 p (notify_thread_exit s)"

text \<open>
  \<open>BT_InitDevice\<close> clears \<open>btinit\<close> but none of the globals of \<open>radiomod.c\<close>, and stores
  \<open>worker_thread_running\<close> a second time after the thread was created: the store is an operation
  of its own, because the thread runs meanwhile.
\<close>

definition BT_InitDevice :: "32 word \<Rightarrow> byte list \<Rightarrow> bool \<Rightarrow> bt_st \<Rightarrow> bool \<times> bt_st" where
  "BT_InitDevice chipId raw created s =
     (created, s\<lparr>chip_id := chipId, bt_nvram := nvram_of raw, cur_script := None,
                 running := False\<rparr>)"

definition BT_InitDevice_created :: "bt_st \<Rightarrow> bt_st" where
  "BT_InitDevice_created s = s\<lparr>running := True\<rparr>"

definition BT_DeinitDevice :: bool where "BT_DeinitDevice = True"

definition BT_Cleanup :: "bt_st \<Rightarrow> bt_st" where
  "BT_Cleanup s = (if running s then notify_thread_exit s else s)"

section \<open>The plan of a run\<close>

definition planned :: "benv \<Rightarrow> hci_fn list \<Rightarrow> nat \<Rightarrow> nat \<Rightarrow> 16 word list" where
  "planned env sc j i = map opcode_of (filter (\<lambda>f. \<not> skipped env f) (drop j (take i sc)))"

lemma planned_same [simp]: "planned env sc j j = []"
  by (simp add: planned_def)

lemma planned_Suc:
  assumes "j \<le> i" "i < length sc"
  shows "planned env sc j (Suc i) =
    planned env sc j i @ (if skipped env (sc ! i) then [] else [opcode_of (sc ! i)])"
  using assms by (simp add: planned_def take_Suc_conv_app_nth)

lemma planned_prefix:
  "i \<le> k \<Longrightarrow> \<exists>zs. planned env sc j k = planned env sc j i @ zs"
proof -
  assume "i \<le> k"
  then have "take k sc = take i sc @ take (k - i) (drop i sc)"
    by (metis le_add_diff_inverse take_add)
  then show ?thesis by (auto simp: planned_def)
qed

text \<open>The script and the first command a run started in \<open>s0\<close> uses, and all it should send.\<close>

definition run_script :: "benv \<Rightarrow> bt_st \<Rightarrow> hci_fn list" where
  "run_script env s0 = (case cur_script (snd (start_step env s0)) of None \<Rightarrow> [] | Some sc \<Rightarrow> sc)"

definition run_first :: "benv \<Rightarrow> bt_st \<Rightarrow> nat" where
  "run_first env s0 = (case fst (start_step env s0) of PHead i \<Rightarrow> i | _ \<Rightarrow> 0)"

abbreviation plan_to :: "benv \<Rightarrow> bt_st \<Rightarrow> nat \<Rightarrow> 16 word list" where
  "plan_to env s0 i \<equiv> planned env (run_script env s0) (run_first env s0) i"

definition plan :: "benv \<Rightarrow> bt_st \<Rightarrow> 16 word list" where
  "plan env s0 = plan_to env s0 (length (run_script env s0))"

lemma plan_prefix: "i \<le> length (run_script env s0) \<Longrightarrow> \<exists>zs. plan env s0 = plan_to env s0 i @ zs"
  unfolding plan_def by (rule planned_prefix)

section \<open>What one step changes\<close>

lemma accepted_ops_upd [simp]:
  "accepted_ops (s\<lparr>cmd_st := c\<rparr>) = accepted_ops s" "accepted_ops (s\<lparr>running := b\<rparr>) = accepted_ops s"
  "accepted_ops (s\<lparr>fgGetEFUSE := b\<rparr>) = accepted_ops s"
  "accepted_ops (s\<lparr>cur_script := sc, ucDefaultAddr := a\<rparr>) = accepted_ops s"
  "accepted_ops (s\<lparr>bt_nvram := n\<rparr>) = accepted_ops s" "accepted_ops (s\<lparr>handler := h\<rparr>) = accepted_ops s"
  by (simp_all add: accepted_ops_def)

lemma accepted_ops_bemit [simp]: "packet_of e = [] \<Longrightarrow> accepted_ops (bemit e s) = accepted_ops s"
  by (simp add: accepted_ops_def)

lemma finish_evt_fields [simp]:
  "handler (finish_evt b s) = None" "signals (finish_evt b s) = signals s @ [b]"
  "cmd_st (finish_evt b s) = (if b then CMD_SUCCESS else CMD_FAIL)"
  "accepted_ops (finish_evt b s) = accepted_ops s" "cur_script (finish_evt b s) = cur_script s"
  "cbacks (finish_evt b s) = cbacks s" "packets (finish_evt b s) = packets s"
  "bt_nvram (finish_evt b s) = bt_nvram s" "chip_id (finish_evt b s) = chip_id s"
  by (simp_all add: finish_evt_def Let_def)

lemma deliver_cases:
  assumes "deliver d s = Some s'"
  obtains b n where "handler s \<noteq> None" "s' = finish_evt b (s\<lparr>bt_nvram := n\<rparr>)"
    "n = bt_nvram s \<or> length (addr n) = 6 \<and> n = (bt_nvram s)\<lparr>addr := addr n\<rparr>"
proof -
  from assms obtain h where h: "handler s = Some h" by (auto split: option.splits)
  show thesis
  proof (cases h)
    case EvtCommon
    with assms h obtain b where "s' = finish_evt b (s\<lparr>bt_nvram := bt_nvram s\<rparr>)"
      by (auto simp: GORMevt_HCE_Common_Complete_def Let_def split: if_splits)
    with h that show thesis by blast
  next
    case EvtGetAddr
    with assms h obtain b a where "s' = finish_evt b (s\<lparr>bt_nvram := (bt_nvram s)\<lparr>addr := a\<rparr>\<rparr>)"
      "length a = 6"
      by (auto simp: GORMevt_HCE_Get_Local_BD_Addr_def Let_def split: if_splits)
    with h that show thesis by fastforce
  qed
qed

lemma select_script_fields [simp]:
  "accepted_ops (snd (select_script env s)) = accepted_ops s"
  "signals (snd (select_script env s)) = signals s" "handler (snd (select_script env s)) = handler s"
  "cmd_st (snd (select_script env s)) = cmd_st s" "packets (snd (select_script env s)) = packets s"
  by (auto simp: select_script_def signals_def accepted_ops_def packets_def)

lemma start_step_fields [simp]:
  "accepted_ops (snd (start_step env s)) = accepted_ops s"
  "signals (snd (start_step env s)) = signals s" "handler (snd (start_step env s)) = handler s"
  "cmd_st (snd (start_step env s)) = cmd_st s" "packets (snd (start_step env s)) = packets s"
  by (simp_all add: start_step_def Let_def case_prod_beta split: option.splits)

lemma script_nonempty: "cur_script (snd (select_script env s)) = Some sc \<Longrightarrow> cur_script s = None \<Longrightarrow> 2 \<le> length sc"
  by (auto simp: select_script_def bt_init_preload_script_6628_def
      bt_init_preload_script_6630_def bt_init_preload_script_6632_def
      bt_init_preload_script_consys_def split: if_splits)

lemma start_step_shape:
  assumes "cur_script s0 = None"
  shows "start_step env s0 = (PExit False, snd (start_step env s0)) \<or>
    start_step env s0 = (PHead (run_first env s0), snd (start_step env s0)) \<and>
    cur_script (snd (start_step env s0)) = Some (run_script env s0) \<and>
    run_first env s0 \<le> 1 \<and> 2 \<le> length (run_script env s0)"
proof -
  obtain con s1 where sel: "select_script env s0 = (con, s1)" by fastforce
  show ?thesis
  proof (cases "cur_script s1")
    case None
    then show ?thesis using sel by (simp add: start_step_def)
  next
    case (Some sc)
    then have "2 \<le> length sc" using script_nonempty[of env s0 sc] sel assms by simp
    then show ?thesis
      using sel Some by (simp add: start_step_def run_first_def run_script_def Let_def)
  qed
qed

section \<open>The invariant of a run\<close>

definition pc_inv :: "benv \<Rightarrow> bt_st \<Rightarrow> pc \<Rightarrow> bt_st \<Rightarrow> 16 word list \<Rightarrow> bool list \<Rightarrow> bool" where
  "pc_inv env s0 p s os ss =
     (let sc = run_script env s0; j = run_first env s0;
          here = (\<lambda>i. cur_script s = Some sc \<and> j \<le> i \<and> i \<le> length sc);
          ready = (\<lambda>i. os = plan_to env s0 i \<and> ss = replicate (length os) True \<and> handler s = None)
      in case p of
           PStart \<Rightarrow> s = s0 \<lparr>cmd_st := cmd_st s\<rparr> \<and> os = [] \<and> ss = []
         | PHead i \<Rightarrow> here i \<and> ready i
         | PLock i \<Rightarrow> here i \<and> i < length sc \<and> \<not> skipped env (sc ! i) \<and> ready i
         | PSend i \<Rightarrow> here i \<and> i < length sc \<and> \<not> skipped env (sc ! i) \<and> ready i
             \<and> cmd_st s \<in> {CMD_PENDING, CMD_TERMINATE}
         | PWait i \<Rightarrow> here i \<and> i < length sc \<and> os = plan_to env s0 (Suc i) \<and> os \<noteq> []
             \<and> (if handler s \<noteq> None
                 then ss = replicate (length os - 1) True \<and> cmd_st s \<in> {CMD_PENDING, CMD_TERMINATE}
                 else ss = replicate (length os) True
                   \<or> ss = replicate (length os - 1) True @ [False] \<and> cmd_st s \<in> {CMD_FAIL, CMD_TERMINATE})
         | PEnd i \<Rightarrow> here i \<and> (\<exists>zs. plan env s0 = os @ zs)
             \<and> (i = length sc \<longrightarrow> ready (length sc))
         | PExit r \<Rightarrow> (\<exists>zs. plan env s0 = os @ zs) \<and> (r \<longrightarrow> ready (length sc))
         | PDone \<Rightarrow> (\<exists>zs. plan env s0 = os @ zs))"

definition run_inv :: "benv \<Rightarrow> bt_st \<Rightarrow> pc \<Rightarrow> bt_st \<Rightarrow> bool" where
  "run_inv env s0 p s = (\<exists>os ss. accepted_ops s = accepted_ops s0 @ os
     \<and> signals s = signals s0 @ ss \<and> pc_inv env s0 p s os ss)"

lemma run_inv_start: "cur_script s0 = None \<Longrightarrow> handler s0 = None \<Longrightarrow> run_inv env s0 PStart s0"
  by (simp add: run_inv_def pc_inv_def)

lemma update_convs_cmd: "s\<lparr>cmd_st := a\<rparr>\<lparr>cmd_st := b\<rparr> = s\<lparr>cmd_st := b\<rparr>"
  by simp

lemma run_inv_terminate:
  assumes "run_inv env s0 p s"
  shows "run_inv env s0 p (notify_thread_exit s)"
proof -
  obtain os ss where os: "accepted_ops s = accepted_ops s0 @ os" "signals s = signals s0 @ ss"
    "pc_inv env s0 p s os ss"
    using assms unfolding run_inv_def by blast
  have "pc_inv env s0 p (notify_thread_exit s) os ss"
  proof (cases p)
    case PStart
    then have "s = s0\<lparr>cmd_st := cmd_st s\<rparr>" using os(3) by (simp add: pc_inv_def Let_def)
    then have "notify_thread_exit s = s0\<lparr>cmd_st := CMD_TERMINATE\<rparr>"
      unfolding notify_thread_exit_def by (metis update_convs_cmd)
    then show ?thesis using PStart os(3) by (simp add: pc_inv_def Let_def)
  qed (use os(3) in \<open>auto simp: pc_inv_def Let_def notify_thread_exit_def split: if_splits\<close>)
  then show ?thesis using os by (auto simp: run_inv_def notify_thread_exit_def)
qed

lemma replicate_last: "l \<noteq> [] \<Longrightarrow> replicate (length l - Suc 0) x @ [x] = replicate (length l) x"
  by (cases l) (simp_all add: replicate_append_same)

lemma run_inv_deliver:
  assumes "run_inv env s0 p s" "deliver d s = Some s'" "handler s0 = None"
  shows "run_inv env s0 p s'"
proof -
  obtain b n where h: "handler s \<noteq> None" and s': "s' = finish_evt b (s\<lparr>bt_nvram := n\<rparr>)"
    using assms(2) by (rule deliver_cases)
  obtain os ss where os: "accepted_ops s = accepted_ops s0 @ os" "signals s = signals s0 @ ss"
    "pc_inv env s0 p s os ss"
    using assms(1) unfolding run_inv_def by blast
  have "pc_inv env s0 p s' os (ss @ [b])"
  proof (cases p)
    case PStart
    then have "s = s0\<lparr>cmd_st := cmd_st s\<rparr>" using os(3) by (simp add: pc_inv_def Let_def)
    then have "handler s = handler s0" by (metis select_convs(9) surjective update_convs(5))
    then show ?thesis using h assms(3) by simp
  qed (use os(3) h in \<open>auto simp: pc_inv_def Let_def s' replicate_last split: if_splits\<close>)
  then show ?thesis using os by (auto simp: run_inv_def s')
qed


lemma run_inv_head:
  assumes "run_inv env s0 (PHead i) s" "head_step env i s = (p', s')"
  shows "run_inv env s0 p' s'"
proof -
  obtain os ss where os: "accepted_ops s = accepted_ops s0 @ os" "signals s = signals s0 @ ss"
    "pc_inv env s0 (PHead i) s os ss"
    using assms(1) unfolding run_inv_def by blast
  let ?sc = "run_script env s0"
  have sc: "cur_script s = Some ?sc" "run_first env s0 \<le> i" "i \<le> length ?sc"
    "os = plan_to env s0 i" "ss = replicate (length os) True" "handler s = None"
    using os(3) by (simp_all add: pc_inv_def Let_def)
  have pre: "\<exists>zs. plan env s0 = os @ zs" using sc plan_prefix by blast
  have step: "plan_to env s0 (Suc i) = plan_to env s0 i" if "i < length ?sc" "skipped env (?sc ! i)"
    using that sc by (simp add: planned_Suc)
  have "pc_inv env s0 p' s' os ss \<and> accepted_ops s' = accepted_ops s \<and> signals s' = signals s"
    using assms(2) sc pre
    by (auto simp: head_step_def Let_def pc_inv_def step split: if_splits)
  then show ?thesis using os by (auto simp: run_inv_def)
qed

lemma run_inv_lock:
  assumes "run_inv env s0 (PLock i) s" "lock_step i s = (p', s')"
  shows "run_inv env s0 p' s'"
  using assms plan_prefix[of i env s0]
  by (auto simp: run_inv_def pc_inv_def Let_def lock_step_def split: if_splits)

lemma run_inv_send:
  assumes "run_inv env s0 (PSend i) s" "send_step env i s = (p', s')"
  shows "run_inv env s0 p' s'"
proof -
  let ?sc = "run_script env s0"
  let ?r = "run_cmd (?sc ! i) env s"
  obtain os ss where os: "accepted_ops s = accepted_ops s0 @ os" "signals s = signals s0 @ ss"
    "pc_inv env s0 (PSend i) s os ss"
    using assms(1) unfolding run_inv_def by blast
  have sc: "cur_script s = Some ?sc" "run_first env s0 \<le> i" "i < length ?sc"
    "\<not> skipped env (?sc ! i)" "os = plan_to env s0 i" "ss = replicate (length os) True"
    "handler s = None" "cmd_st s \<in> {CMD_PENDING, CMD_TERMINATE}"
    using os(3) by (simp_all add: pc_inv_def Let_def)
  have pre: "\<exists>zs. plan env s0 = os @ zs" using sc plan_prefix[of i env s0] by simp
  have nxt: "plan_to env s0 (Suc i) = os @ [opcode_of (?sc ! i)]"
    using sc by (simp add: planned_Suc)
  show ?thesis
  proof (cases "fst ?r")
    case True
    then have s': "p' = PWait i" "s' = snd ?r"
      using assms(2) sc(1) by (auto simp: send_step_def split: prod.splits)
    have "handler s' \<noteq> None" using True s' by simp
    then have "pc_inv env s0 p' s' (plan_to env s0 (Suc i)) ss"
      using sc s' nxt by (auto simp: pc_inv_def Let_def)
    moreover have "accepted_ops s' = accepted_ops s0 @ plan_to env s0 (Suc i)"
      using True os(1) by (simp add: s' accepted_ops_run nxt)
    ultimately show ?thesis using os(2) s' by (auto simp: run_inv_def)
  next
    case False
    then have s': "p' = PEnd i" "accepted_ops s' = accepted_ops s" "signals s' = signals s"
      "cur_script s' = cur_script s" "handler s' = None"
      using assms(2) sc by (auto simp: send_step_def accepted_ops_run case_prod_beta)
    then show ?thesis using os sc pre by (auto simp: run_inv_def pc_inv_def Let_def)
  qed
qed

lemma run_inv_wait:
  assumes "run_inv env s0 (PWait i) s" "wait_step i s = Some (p', s')"
  shows "run_inv env s0 p' s'"
proof -
  obtain os ss where os: "accepted_ops s = accepted_ops s0 @ os" "signals s = signals s0 @ ss"
    "pc_inv env s0 (PWait i) s os ss"
    using assms(1) unfolding run_inv_def by blast
  have "os = plan_to env s0 (Suc i)" "Suc i \<le> length (run_script env s0)"
    using os(3) by (simp_all add: pc_inv_def Let_def)
  then have pre: "\<exists>zs. plan env s0 = os @ zs" using plan_prefix[of "Suc i" env s0] by simp
  have "pc_inv env s0 p' s' os ss \<and> accepted_ops s' = accepted_ops s \<and> signals s' = signals s"
    using assms(2) os(3) pre
    by (auto simp: wait_step_def pc_inv_def Let_def split: cmd_status.splits if_splits)
  then show ?thesis using os by (auto simp: run_inv_def)
qed

lemma run_inv_end:
  assumes "run_inv env s0 (PEnd i) s" "end_step i s = (p', s')"
  shows "run_inv env s0 p' s'"
  using assms by (auto simp: run_inv_def pc_inv_def Let_def end_step_def)

lemma run_inv_exit:
  assumes "run_inv env s0 (PExit r) s" "exit_step r s = (p', s')"
  shows "run_inv env s0 p' s'"
  using assms by (auto simp: run_inv_def pc_inv_def Let_def exit_step_def split: if_splits)

lemma start_step_cong:
  "start_step env (s\<lparr>cmd_st := c\<rparr>) = (fst (start_step env s), (snd (start_step env s))\<lparr>cmd_st := c\<rparr>)"
  by (simp add: start_step_def select_script_def Let_def split: option.splits)

lemma run_inv_first:
  assumes "run_inv env s0 PStart s" "start_step env s = (p', s')" "cur_script s0 = None"
    "handler s0 = None"
  shows "run_inv env s0 p' s'"
proof -
  have "s = s0\<lparr>cmd_st := cmd_st s\<rparr>" using assms(1) by (auto simp: run_inv_def pc_inv_def Let_def)
  then have s': "p' = fst (start_step env s0)" "s' = (snd (start_step env s0))\<lparr>cmd_st := cmd_st s\<rparr>"
    using assms(2) start_step_cong[where s = s0 and c = "cmd_st s" and env = env] by simp_all
  have "pc_inv env s0 p' s' [] [] \<and> accepted_ops s' = accepted_ops s0 \<and> signals s' = signals s0"
    using start_step_shape[OF assms(3), of env] assms(4)
    by (auto simp: s' pc_inv_def Let_def dest: arg_cong[where f = fst])
  then show ?thesis by (auto simp: run_inv_def)
qed

lemma run_inv_reach:
  assumes "init_run env s0 p s" "cur_script s0 = None" "handler s0 = None"
  shows "run_inv env s0 p s"
  using assms(1)
proof induction
  case (run_thread p s p' s')
  then show ?case
    using assms(2,3)
    by (cases p) (auto intro: run_inv_first run_inv_head run_inv_lock run_inv_send run_inv_wait
        run_inv_end run_inv_exit)
qed (use assms(2,3) in \<open>auto intro: run_inv_start run_inv_deliver run_inv_terminate\<close>)

section \<open>Packets, fuel and the termination flag\<close>

lemma thread_step_packets:
  assumes "thread_step env (p, s) = Some (p', s')" "\<forall>q \<in> set (packets s). pkt_ok q"
  shows "\<forall>q \<in> set (packets s'). pkt_ok q"
proof (cases p)
  case PStart
  then have "packets s' = packets s" using assms(1) start_step_fields(5)[of env s] by simp
  then show ?thesis using assms(2) by simp
next
  case (PSend i)
  then have "packets s' = packets (snd (run_cmd (the (cur_script s) ! i) env s))"
    using assms(1) by (auto simp: send_step_def case_prod_beta split: if_splits)
  then show ?thesis using hc.all_ok_run[OF assms(2)] by simp
qed (use assms in \<open>auto simp: head_step_def lock_step_def wait_step_def end_step_def exit_step_def
       Let_def split: if_splits cmd_status.splits\<close>)

fun thread_fuel :: "nat \<Rightarrow> pc \<Rightarrow> nat" where
  "thread_fuel n PStart = 4 * n + 4"
| "thread_fuel n (PHead i) = 4 * (n - i) + 3"
| "thread_fuel n (PLock i) = 4 * (n - i) + 2"
| "thread_fuel n (PSend i) = 4 * (n - i) + 1"
| "thread_fuel n (PWait i) = 4 * (n - i)"
| "thread_fuel n (PEnd i) = 2"
| "thread_fuel n (PExit r) = 1"
| "thread_fuel n PDone = 0"

lemma thread_step_fuel:
  assumes "thread_step env (p, s) = Some (p', s')" "run_inv env s0 p s" "cur_script s0 = None"
  shows "thread_fuel (length (run_script env s0)) p' < thread_fuel (length (run_script env s0)) p"
proof (cases p)
  case PStart
  then have "s = s0\<lparr>cmd_st := cmd_st s\<rparr>"
    using assms(2) by (auto simp: run_inv_def pc_inv_def Let_def)
  then have "p' = fst (start_step env s0)"
    using assms(1) PStart start_step_cong[where s = s0 and c = "cmd_st s" and env = env] by simp
  then show ?thesis
    using start_step_shape[OF assms(3), of env] PStart by (auto dest: arg_cong[where f = fst])
next
  case (PWait i)
  then show ?thesis
    using assms(1,2) by (auto simp: run_inv_def pc_inv_def Let_def wait_step_def split: cmd_status.splits)
qed (use assms in \<open>auto simp: head_step_def lock_step_def send_step_def end_step_def exit_step_def
       run_inv_def pc_inv_def Let_def split: if_splits prod.splits\<close>)

definition dead_inv :: "benv \<Rightarrow> bt_st \<Rightarrow> pc \<Rightarrow> bt_st \<Rightarrow> bool" where
  "dead_inv env s0 p s =
     (cmd_st s = CMD_TERMINATE \<and> handler s = None \<and> packets s = packets s0
      \<and> (case p of
           PStart \<Rightarrow> s = s0
         | PHead i \<Rightarrow> cur_script s = Some (run_script env s0) \<and> i < length (run_script env s0)
         | PEnd i \<Rightarrow> cur_script s = Some (run_script env s0) \<and> i < length (run_script env s0)
         | PExit r \<Rightarrow> \<not> r
         | PDone \<Rightarrow> True
         | _ \<Rightarrow> False))"

lemma dead_inv_step:
  assumes "dead_inv env s0 p s" "thread_step env (p, s) = Some (p', s')" "cur_script s0 = None"
  shows "dead_inv env s0 p' s'"
proof (cases p)
  case PStart
  then have "start_step env s0 = (p', s')" "s = s0" using assms by (auto simp: dead_inv_def)
  then show ?thesis
    using start_step_shape[OF assms(3), of env] assms(1) start_step_fields[of env s0]
    by (auto simp: dead_inv_def)
qed (use assms in \<open>auto simp: dead_inv_def head_step_def end_step_def exit_step_def Let_def
       split: if_splits\<close>)

lemma dead_inv_reach:
  assumes "init_run env s0 p s" "cur_script s0 = None" "handler s0 = None" "cmd_st s0 = CMD_TERMINATE"
  shows "dead_inv env s0 p s"
  using assms(1)
proof induction
  case run_start
  then show ?case using assms by (simp add: dead_inv_def)
next
  case (run_thread p s p' s')
  then show ?case using dead_inv_step assms(2) by blast
next
  case (run_event p s d s')
  then show ?case by (simp add: dead_inv_def)
next
  case (run_terminate p s)
  then show ?case by (cases p) (auto simp: dead_inv_def notify_thread_exit_def)
qed

section \<open>A concrete run\<close>

fun thread_iter :: "benv \<Rightarrow> nat \<Rightarrow> pc \<times> bt_st \<Rightarrow> (pc \<times> bt_st) option" where
  "thread_iter env 0 x = Some x"
| "thread_iter env (Suc n) x =
     (case thread_step env x of None \<Rightarrow> None | Some y \<Rightarrow> thread_iter env n y)"

lemma thread_iter_run:
  "init_run env s0 p s \<Longrightarrow> thread_iter env n (p, s) = Some (p', s') \<Longrightarrow> init_run env s0 p' s'"
  by (induction n arbitrary: p s) (auto split: option.splits intro: run_thread)

definition consys0 :: bt_st where
  "consys0 = snd (BT_InitDevice 0x6755 (nvram_raw stBtDefault_consys) True bt_boot)"

lemma consys0_init: "cur_script consys0 = None" "handler consys0 = None" "packets consys0 = []"
  by (simp_all add: consys0_def BT_InitDevice_def bt_boot_def packets_def)

lemma consys0_eq: "consys0 = bt_boot\<lparr>running := False\<rparr>"
  by (simp add: consys0_def BT_InitDevice_def bt_boot_def nvram_of_raw)

lemma consys_start:
  "start_step benv0 consys0 = (PHead 0, consys0\<lparr>cur_script := Some bt_init_preload_script_consys,
     ucDefaultAddr := addr stBtDefault_consys\<rparr>)"
  by (simp add: consys0_eq bt_boot_def start_step_def select_script_def consys_chips_def)

lemma consys_wait_ex:
  "\<exists>s. thread_iter benv0 (Suc (Suc (Suc (Suc 0)))) (PStart, consys0) = Some (PWait 0, s)
     \<and> cmd_st s = CMD_PENDING
     \<and> packets s = [(0xFC1A, 9, [0x1A, 0xFC, 6, 1, 0, 0, 0x46, 0, 0], True)]"
  unfolding thread_iter.simps thread_step.simps consys_start option.case
  by (simp add: consys0_eq bt_boot_def head_step_def skipped_def lock_step_def send_step_def
      bt_init_preload_script_consys_def GORMcmd_HCC_Set_Local_BD_Addr_def send_cmd_def
      WriteBDAddrToNvram_def benv0_def nvram_size_def stBtDefault_consys_def packets_def
      bemit_def le16_def Let_def)

definition consys_wait :: bt_st where
  "consys_wait = snd (the (thread_iter benv0 (Suc (Suc (Suc (Suc 0)))) (PStart, consys0)))"

lemma consys_wait_facts:
  "init_run benv0 consys0 (PWait 0) consys_wait \<and> cmd_st consys_wait = CMD_PENDING
   \<and> packets consys_wait = [(0xFC1A, 9, [0x1A, 0xFC, 6, 1, 0, 0, 0x46, 0, 0], True)]"
proof -
  obtain s where s:
      "thread_iter benv0 (Suc (Suc (Suc (Suc 0)))) (PStart, consys0) = Some (PWait 0, s)"
    and f: "cmd_st s = CMD_PENDING"
      "packets s = [(0xFC1A, 9, [0x1A, 0xFC, 6, 1, 0, 0, 0x46, 0, 0], True)]"
    using consys_wait_ex by blast
  have "consys_wait = s" by (simp only: consys_wait_def s option.sel snd_conv)
  then show ?thesis using thread_iter_run[OF run_start s] f by simp
qed

lemmas consys_wait_run = conjunct1[OF consys_wait_facts]
lemmas consys_wait_state = conjunct1[OF conjunct2[OF consys_wait_facts]]
  conjunct2[OF conjunct2[OF consys_wait_facts]]

section \<open>Properties\<close>

text \<open>
  C7: Whatever the interleaving of the thread with the controller's events and with termination
  requests, the commands accepted by the stack are at every moment a prefix of the plan of the
  run: the script of the chip, from the first command on, without the debug commands that were
  not requested.  When the thread is about to report success, the whole plan was sent and every
  one of its commands was signalled as completed successfully.
\<close>

theorem init_follows_plan:
  assumes "init_run env s0 p s" "cur_script s0 = None" "handler s0 = None"
  shows "(\<exists>zs os. accepted_ops s = accepted_ops s0 @ os \<and> plan env s0 = os @ zs)
    \<and> (p = PExit True \<longrightarrow> accepted_ops s = accepted_ops s0 @ plan env s0
         \<and> signals s = signals s0 @ replicate (length (plan env s0)) True)"
proof -
  obtain os ss where os: "accepted_ops s = accepted_ops s0 @ os" "signals s = signals s0 @ ss"
    "pc_inv env s0 p s os ss"
    using run_inv_reach[OF assms] unfolding run_inv_def by blast
  have "\<exists>zs. plan env s0 = os @ zs"
    using os(3) plan_prefix[of _ env s0] by (cases p) (auto simp: pc_inv_def Let_def Suc_le_eq)
  moreover have "os = plan env s0 \<and> ss = replicate (length os) True" if "p = PExit True"
    using os(3) that by (simp add: pc_inv_def Let_def plan_def)
  ultimately show ?thesis using os(1,2) by blast
qed

theorem init_follows_plan_witness:
  "\<exists>zs. plan benv0 consys0 = 0xFC1A # zs"
  using init_follows_plan[OF consys_wait_run consys0_init(1,2)]
  by (simp add: accepted_ops_def consys_wait_state consys0_init)

text \<open>
  C9: Every packet a run hands to the stack is a well-formed HCI command: little endian opcode,
  a parameter length that counts the remaining bytes, \<open>len\<close> equal to the bytes written, and no
  more than the 251 bytes allocated.
\<close>

theorem init_packets_wellformed:
  assumes "init_run env s0 p s" "packets s0 = []"
  shows "\<forall>q \<in> set (packets s). pkt_ok q"
  using assms(1)
proof induction
  case (run_thread p s p' s')
  then show ?case using thread_step_packets by blast
next
  case (run_event p s d s')
  show ?case by (rule deliver_cases[OF run_event.hyps(2)]) (use run_event.IH in auto)
qed (use assms(2) in \<open>simp_all add: notify_thread_exit_def\<close>)

theorem init_packets_wellformed_witness:
  "pkt_ok (0xFC1A, 9, [0x1A, 0xFC, 6, 1, 0, 0, 0x46, 0, 0], True)"
  using init_packets_wellformed[OF consys_wait_run consys0_init(3)] by (simp add: consys_wait_state)

text \<open>
  C26: The thread never stops but at its end or while it waits for the pending command, and each
  of its own steps uses up fuel that neither events nor termination requests give back: a run
  takes at most 4 * n + 4 steps for a script of n commands.
\<close>

theorem init_terminates:
  assumes "init_run env s0 p s" "cur_script s0 = None" "handler s0 = None"
  shows "(thread_step env (p, s) = None \<longleftrightarrow> p = PDone \<or> (\<exists>i. p = PWait i \<and> cmd_st s = CMD_PENDING))
    \<and> (\<forall>p' s'. thread_step env (p, s) = Some (p', s') \<longrightarrow>
         thread_fuel (length (run_script env s0)) p' < thread_fuel (length (run_script env s0)) p)
    \<and> thread_fuel (length (run_script env s0)) PStart = 4 * length (run_script env s0) + 4"
proof -
  have "thread_step env (p, s) = None \<longleftrightarrow> p = PDone \<or> (\<exists>i. p = PWait i \<and> cmd_st s = CMD_PENDING)"
    by (cases p) (auto simp: wait_step_def split: cmd_status.splits)
  then show ?thesis using thread_step_fuel run_inv_reach[OF assms] assms(2) by auto
qed

theorem init_terminates_witness:
  "thread_step benv0 (PWait 0, consys_wait) = None"
  using init_terminates[OF consys_wait_run consys0_init(1,2)] consys_wait_state(1) by blast

text \<open>
  A termination request that is followed by the event of the pending command leaves no
  trace: the event overwrites \<open>CMD_TERMINATE\<close>, and the thread goes on with the next command.
\<close>

theorem terminate_lost_on_event:
  "deliver d (notify_thread_exit s) = deliver d s
   \<and> (\<forall>s' i. deliver d (notify_thread_exit s) = Some s' \<longrightarrow> cmd_st s' = CMD_SUCCESS \<longrightarrow>
        wait_step i s' = Some (PHead (i + 1), s'))"
  by (auto simp: notify_thread_exit_def GORMevt_HCE_Common_Complete_def
      GORMevt_HCE_Get_Local_BD_Addr_def finish_evt_def bemit_def Let_def wait_step_def
      split: option.splits evt_handler.splits)

theorem terminate_lost_on_event_witness:
  "wait_step 4 (finish_evt True bt_boot) = Some (PHead 5, finish_evt True bt_boot)"
proof -
  let ?s = "bt_boot\<lparr>handler := Some EvtCommon, wOpCode := 0x0C03\<rparr>"
  have d: "deliver [0x0E, 4, 1, 0x03, 0x0C, 0] (notify_thread_exit ?s) =
      Some (finish_evt True (?s\<lparr>cmd_st := CMD_TERMINATE\<rparr>))"
    by (simp add: notify_thread_exit_def GORMevt_HCE_Common_Complete_def Let_def)
  then show ?thesis
    using terminate_lost_on_event[of "[0x0E, 4, 1, 0x03, 0x0C, 0]" ?s]
    by (auto simp: wait_step_def)
qed

text \<open>
  A cleanup that finds the running flag set after the thread has gone leaves
  \<open>CMD_TERMINATE\<close> behind, which \<open>BT_InitDevice\<close> does not clear: the run it starts hands no
  packet to the stack, never reports success and leaves the flag set for the run after it.
\<close>

theorem stale_termination_kills_next_init:
  assumes "running s" "handler s = None"
    and "init_run env (snd (BT_InitDevice chip raw created (BT_Cleanup s))) p t"
  shows "packets t = packets s \<and> p \<noteq> PExit True \<and> cmd_st t = CMD_TERMINATE"
proof -
  let ?s0 = "snd (BT_InitDevice chip raw created (BT_Cleanup s))"
  have "cur_script ?s0 = None" "handler ?s0 = None" "cmd_st ?s0 = CMD_TERMINATE"
    "packets ?s0 = packets s"
    using assms(1,2)
    by (simp_all add: BT_InitDevice_def BT_Cleanup_def notify_thread_exit_def packets_def)
  then show ?thesis using dead_inv_reach[OF assms(3)] by (auto simp: dead_inv_def)
qed

theorem stale_termination_kills_next_init_witness:
  "cmd_st (snd (BT_InitDevice 0x6755 [] True (BT_Cleanup bt_boot))) = CMD_TERMINATE"
  using stale_termination_kills_next_init[where s = bt_boot and env = benv0 and chip = "0x6755"
      and raw = "[]" and created = True, OF _ _ run_start]
  by (simp add: bt_boot_def)

end
