(* ===== verification/C_Text.thy ===== *)
theory C_Text
  imports X3_Prelude
begin

text \<open>
  The functions of the C library on texts that several components call: \<open>isspace\<close>, \<open>atoi\<close>, \<open>strtol\<close>,
  the comparison of a beginning, \<open>snprintf\<close>.  A C string is the list of its characters without the
  terminator.
\<close>

section \<open>Characters and digits\<close>

definition is_space :: "char \<Rightarrow> bool" where
  "is_space c = (c \<in> {CHR 0x20, CHR 0x09, CHR 0x0A, CHR 0x0B, CHR 0x0C, CHR 0x0D})"

definition hexval :: "char \<Rightarrow> nat option" where
  "hexval c = (let n = of_char c :: nat in
     if 48 \<le> n \<and> n \<le> 57 then Some (n - 48)
     else if 97 \<le> n \<and> n \<le> 102 then Some (n - 87)
     else if 65 \<le> n \<and> n \<le> 70 then Some (n - 55) else None)"

fun dec_value :: "nat \<Rightarrow> string \<Rightarrow> nat" where
  "dec_value a [] = a"
| "dec_value a (c # cs) =
     (case digit_of c of Some d \<Rightarrow> dec_value (a * 10 + nat d) cs | None \<Rightarrow> a)"

lemma dec_value_append:
  "\<forall>c \<in> set xs. digit_of c \<noteq> None \<Longrightarrow> dec_value a (xs @ ys) = dec_value (dec_value a xs) ys"
  by (induction a xs rule: dec_value.induct) (auto split: option.splits)

lemma show_nat_digits: "\<forall>c \<in> set (show_nat n). digit_of c \<noteq> None"
proof (induction n rule: show_nat.induct)
  case (1 n)
  then show ?case by (subst show_nat.simps) (auto simp: digit_of_char)
qed

lemma dec_value_show: "dec_value 0 (show_nat n) = n"
proof (induction n rule: show_nat.induct)
  case (1 n)
  show ?case
  proof (cases "n < 10")
    case True
    then show ?thesis by (subst show_nat.simps) (simp add: digit_of_char)
  next
    case False
    then show ?thesis using 1 show_nat_digits[of "n div 10"]
      by (subst show_nat.simps) (simp add: dec_value_append digit_of_char)
  qed
qed

lemma show_nat_plain:
  "\<exists>c cs. show_nat n = c # cs \<and> \<not> is_space c \<and> c \<noteq> CHR ''-'' \<and> c \<noteq> CHR ''+''"
proof -
  obtain c cs where n: "show_nat n = c # cs" by (cases "show_nat n") auto
  then obtain d where "digit_of c = Some d" using show_nat_digits[of n] by auto
  moreover have "digit_of x = None" if "is_space x \<or> x = CHR ''-'' \<or> x = CHR ''+''" for x
    using that by (auto simp: is_space_def digit_of_def)
  ultimately have "\<not> is_space c \<and> c \<noteq> CHR ''-'' \<and> c \<noteq> CHR ''+''" by force
  then show ?thesis using n by blast
qed

section \<open>Numbers\<close>

definition strip_sign :: "string \<Rightarrow> bool \<times> string" where
  "strip_sign t = (case t of [] \<Rightarrow> (False, t)
     | c # r \<Rightarrow> if c = CHR ''-'' then (True, r) else if c = CHR ''+'' then (False, r) else (False, t))"

definition strip_0x :: "string \<Rightarrow> string" where
  "strip_0x u = (case u of
       z # x # d # r \<Rightarrow> if z = CHR ''0'' \<and> (x = CHR ''x'' \<or> x = CHR ''X'') \<and> hexval d \<noteq> None
                         then d # r else u
     | _ \<Rightarrow> u)"

definition c_atoi :: "string \<Rightarrow> int" where
  "c_atoi v =
     (let (neg, w) = strip_sign (dropWhile is_space v);
          n = int (dec_value 0 (takeWhile (\<lambda>c. digit_of c \<noteq> None) w))
      in c32 (if neg then - n else n))"

text \<open>
  \<open>strtol\<close> for a \<open>long\<close> of \<open>bits\<close> bits and the bases 0, 10 and 16: the value, clamped to the type, and
  what follows the number; the whole text when there is none.
\<close>

definition c_strtol :: "nat \<Rightarrow> nat \<Rightarrow> string \<Rightarrow> int \<times> string" where
  "c_strtol bits base t =
     (let (neg, u) = strip_sign (dropWhile is_space t);
          hex = ((base = 0 \<or> base = 16) \<and> strip_0x u \<noteq> u);
          b = (if base \<noteq> 0 then base else if hex then 16 else if take 1 u = ''0'' then 8 else 10);
          w = (if hex then strip_0x u else u);
          ds = takeWhile (\<lambda>c. case hexval c of Some d \<Rightarrow> d < b | None \<Rightarrow> False) w;
          v = foldl (\<lambda>a c. b * a + the (hexval c)) 0 ds
      in if ds = [] then (0, t)
         else (if neg then - int (min v (2 ^ (bits - 1))) else int (min v (2 ^ (bits - 1) - 1)),
               drop (length ds) w))"

section \<open>Comparisons and printing\<close>

definition lower :: "char \<Rightarrow> char" where
  "lower c = (let n = of_char c :: nat in if 65 \<le> n \<and> n \<le> 90 then char_of (n + 32) else c)"

text \<open>\<open>strncmp(text, p, strlen(p)) == 0\<close> and the same with \<open>strncasecmp\<close>.\<close>

definition begins :: "string \<Rightarrow> string \<Rightarrow> bool" where
  "begins p t = (take (length p) t = p)"

definition begins_ci :: "string \<Rightarrow> string \<Rightarrow> bool" where
  "begins_ci p t = (map lower (take (length p) t) = map lower p)"

definition same_ci :: "string \<Rightarrow> string \<Rightarrow> bool" where
  "same_ci a b = (map lower a = map lower b)"

text \<open>\<open>snprintf(buf, size, ...)\<close>: its result, and the text in \<open>buf\<close>; nothing is written for size 0.\<close>

definition c_snprintf :: "nat \<Rightarrow> string \<Rightarrow> string \<Rightarrow> int \<times> string" where
  "c_snprintf n old t = (int (length t), if n = 0 then old else take (n - 1) t)"

text \<open>Folding the case of a given character.\<close>

lemma lower_other: "\<not> (65 \<le> (of_char c :: nat) \<and> (of_char c :: nat) \<le> 90) \<Longrightarrow> lower c = c"
  by (auto simp: lower_def)

lemma lower_capital:
  "lower (CHR ''A'') = CHR ''a''" "lower (CHR ''B'') = CHR ''b''"
  "lower (CHR ''C'') = CHR ''c''" "lower (CHR ''D'') = CHR ''d''"
  "lower (CHR ''E'') = CHR ''e''" "lower (CHR ''F'') = CHR ''f''"
  "lower (CHR ''G'') = CHR ''g''" "lower (CHR ''H'') = CHR ''h''"
  "lower (CHR ''I'') = CHR ''i''" "lower (CHR ''J'') = CHR ''j''"
  "lower (CHR ''K'') = CHR ''k''" "lower (CHR ''L'') = CHR ''l''"
  "lower (CHR ''M'') = CHR ''m''" "lower (CHR ''N'') = CHR ''n''"
  "lower (CHR ''O'') = CHR ''o''" "lower (CHR ''P'') = CHR ''p''"
  "lower (CHR ''Q'') = CHR ''q''" "lower (CHR ''R'') = CHR ''r''"
  "lower (CHR ''S'') = CHR ''s''" "lower (CHR ''T'') = CHR ''t''"
  "lower (CHR ''U'') = CHR ''u''" "lower (CHR ''V'') = CHR ''v''"
  "lower (CHR ''W'') = CHR ''w''" "lower (CHR ''X'') = CHR ''x''"
  "lower (CHR ''Y'') = CHR ''y''" "lower (CHR ''Z'') = CHR ''z''"
  by (simp_all add: lower_def char_of_def bit_0)

lemmas lower_simps = lower_capital lower_other

lemma begins_append [simp]: "begins p (p @ t)"
  by (simp add: begins_def)

lemma atoi_show:
  assumes "is_c32 (int n)"
  shows "c_atoi (show_nat n) = int n"
proof -
  obtain c cs where n: "show_nat n = c # cs" and c: "\<not> is_space c" "c \<noteq> CHR ''-''" "c \<noteq> CHR ''+''"
    using show_nat_plain by blast
  have d: "dropWhile is_space (show_nat n) = show_nat n" using n c(1) by simp
  have t: "takeWhile (\<lambda>c. digit_of c \<noteq> None) (show_nat n) = show_nat n"
    using show_nat_digits[of n] by (simp only: takeWhile_eq_all_conv)
  have h: "strip_sign (show_nat n) = (False, show_nat n)" using n c(2,3) by (simp add: strip_sign_def)
  show ?thesis
    unfolding c_atoi_def d Let_def h prod.case t dec_value_show using assms by simp
qed

lemma atoi_show_neg:
  assumes "is_c32 (- int n)"
  shows "c_atoi (CHR ''-'' # show_nat n) = - int n"
proof -
  have t: "takeWhile (\<lambda>c. digit_of c \<noteq> None) (show_nat n) = show_nat n"
    using show_nat_digits[of n] by (simp only: takeWhile_eq_all_conv)
  have "\<not> is_space (CHR ''-'')" by (simp add: is_space_def)
  then have d: "dropWhile is_space (CHR ''-'' # show_nat n) = CHR ''-'' # show_nat n" by simp
  have h: "strip_sign (CHR ''-'' # show_nat n) = (True, show_nat n)" by (simp add: strip_sign_def)
  show ?thesis
    unfolding c_atoi_def d Let_def h prod.case t dec_value_show using assms by simp
qed

text \<open>\<open>atoi\<close> reads back what \<open>%d\<close> has printed.\<close>

lemma atoi_show_int: "is_c32 i \<Longrightarrow> c_atoi (show_int i) = i"
  using atoi_show[of "nat i"] atoi_show_neg[of "nat (- i)"] by (simp add: show_int_def)

end
