(* ===== verification/Bt_Vendor.thy ===== *)
theory Bt_Vendor
  imports Bt_Init C_Text
begin

text \<open>
  The vendor interface of the Bluetooth stack: \<open>src/hal/bluedroid/mtk.c\<close> (UART, chip id, NVRAM
  image, firmware configuration, ioctls) and \<open>bt_drv.c\<close> (the operations the stack calls).
\<close>

section \<open>State and environment\<close>

datatype vev =
    VOpen int
  | VClose int
  | VAssert int "32 word"
  | VPsm int bool
  | VEpilog
  | VSleep

text \<open>
  \<open>chip_prop k\<close> and \<open>nvram_prop k\<close> are what \<open>property_get\<close> delivers at the k-th attempt (the empty
  string when unset); \<open>nvm_rdesc\<close> and \<open>nvm_read\<close> are the NVRAM library; \<open>stack_junk\<close> is what the
  uninitialised local of \<open>bt_read_nvram\<close> holds.
\<close>

record venv =
  uart_open :: "vev list \<Rightarrow> int"
  v_ioctl :: "vev list \<Rightarrow> int \<times> int"
  chip_prop :: "nat \<Rightarrow> string"
  nvram_prop :: "nat \<Rightarrow> string"
  nvm_rdesc :: "int \<times> int \<times> int"
  nvm_read :: "int \<times> byte list"
  stack_junk :: "byte list"
  thread_created :: bool
  v_benv :: benv

record vst =
  bt_fd :: int
  bt :: bt_st
  vtrace :: "vev list"

definition vemit :: "vev \<Rightarrow> vst \<Rightarrow> vst" where
  "vemit e v = v\<lparr>vtrace := vtrace v @ [e]\<rparr>"

section \<open>Helpers\<close>

fun is_memzero :: "byte list \<Rightarrow> bool" where
  "is_memzero [] = True"
| "is_memzero (b # bs) = (if b \<noteq> 0 then False else is_memzero bs)"

text \<open>The C library's \<open>strtoul(s, NULL, 16)\<close> on a 64-bit \<open>unsigned long\<close>.\<close>

definition strtoul16 :: "string \<Rightarrow> nat" where
  "strtoul16 s =
     (let (neg, u) = strip_sign (dropWhile is_space s);
          ds = map (\<lambda>c. the (hexval c)) (takeWhile (\<lambda>c. hexval c \<noteq> None) (strip_0x u));
          v = foldl (\<lambda>a d. 16 * a + d) 0 ds
      in if 2^64 \<le> v then 2^64 - 1 else if neg then (2^64 - v) mod 2^64 else v)"

section \<open>The UART\<close>

definition set_callbacks :: "bool \<Rightarrow> vst \<Rightarrow> vst" where
  "set_callbacks p_cb v = v\<lparr>bt := (bt v)\<lparr>cbacks := p_cb\<rparr>\<rparr>"

definition clean_callbacks :: "vst \<Rightarrow> vst" where
  "clean_callbacks v = v\<lparr>bt := (bt v)\<lparr>cbacks := False\<rparr>\<rparr>"

definition init_uart :: "venv \<Rightarrow> vst \<Rightarrow> int \<times> vst" where
  "init_uart env v =
     (let fd = uart_open env (vtrace v); v1 = (vemit (VOpen fd) v)\<lparr>bt_fd := fd\<rparr>
      in if fd < 0 then (- 1, v1) else (fd, v1))"

definition close_uart :: "vst \<Rightarrow> vst" where
  "close_uart v =
     (let v1 = (if 0 \<le> bt_fd v then vemit (VClose (bt_fd v)) v else v) in v1\<lparr>bt_fd := - 1\<rparr>)"

definition mtk_set_fw_assert :: "venv \<Rightarrow> 32 word \<Rightarrow> vst \<Rightarrow> int \<times> vst" where
  "mtk_set_fw_assert env reason v =
     (if bt_fd v < 0 then (- 1, v)
      else let (r, e) = v_ioctl env (vtrace v); v1 = vemit (VAssert (bt_fd v) reason) v
           in (if r < 0 then (- 1, v1) else (0, v1)))"

definition mtk_set_psm_control :: "venv \<Rightarrow> bool \<Rightarrow> vst \<Rightarrow> int \<times> vst" where
  "mtk_set_psm_control env enable v =
     (if bt_fd v < 0 then (- 1, v)
      else let (r, e) = v_ioctl env (vtrace v); v1 = vemit (VPsm (bt_fd v) enable) v
           in (if r < 0 then (e, v1) else (0, v1)))"

section \<open>Chip id and NVRAM\<close>

text \<open>The retry loops: \<open>poll\<close> is the first attempt below 10 that satisfies the test.\<close>

function poll :: "(nat \<Rightarrow> bool) \<Rightarrow> nat \<Rightarrow> nat" where
  "poll ready retry =
     (if ready retry then retry
      else if retry + 1 < 10 then poll ready (retry + 1) else retry + 1)"
  by pat_completeness auto
termination by (relation "measure (\<lambda>(_, k). 10 - k)") auto

declare poll.simps [simp del]

definition bt_get_combo_id :: "venv \<Rightarrow> vst \<Rightarrow> 32 word option \<times> vst" where
  "bt_get_combo_id env v =
     (let k = poll (\<lambda>k. chip_prop env k \<noteq> [] \<and> chip_prop env k \<noteq> ''-1'') 0;
          v1 = v\<lparr>vtrace := vtrace v @ replicate k VSleep\<rparr>
      in if 10 \<le> k then (None, v1) else (Some (word_of_nat (strtoul16 (chip_prop env k))), v1))"

definition bt_read_nvram :: "venv \<Rightarrow> vst \<Rightarrow> byte list option \<times> vst" where
  "bt_read_nvram env v =
     (let k = poll (\<lambda>k. nvram_prop env k = ''Ready'') 0;
          v1 = v\<lparr>vtrace := vtrace v @ replicate k VSleep\<rparr>;
          (fd, rec_size, rec_num) = nvm_rdesc env;
          (n, bytes) = nvm_read env
      in if 10 \<le> k then (None, v1)
         else if fd < 0 then (None, v1)
         else if rec_num \<noteq> 1 then (None, v1)
         else if rec_size \<noteq> int nvram_size then (None, v1)
         else if n < 0 then (None, v1)
         else (Some (take (nat n) bytes @ drop (nat n) (stack_junk env)), v1))"

definition default_image :: "benv \<Rightarrow> 32 word \<Rightarrow> byte list option" where
  "default_image env chip =
     (if chip = 0x6628 then Some (nvram_raw (stBtDefault_6628 env))
      else if chip = 0x6630 then Some (nvram_raw (stBtDefault_6630 env))
      else if chip = 0x6632 then Some (nvram_raw (stBtDefault_6632 env))
      else if chip \<in> set consys_chips then Some (nvram_raw stBtDefault_consys)
      else None)"

definition mtk_fw_cfg :: "venv \<Rightarrow> vst \<Rightarrow> int \<times> vst" where
  "mtk_fw_cfg env v =
     (case bt_get_combo_id env v of
        (None, v1) \<Rightarrow> (- 1, v1)
      | (Some chip, v1) \<Rightarrow>
          (let (img, v2) = bt_read_nvram env v1;
               data = (case img of None \<Rightarrow> replicate nvram_size 0 | Some b \<Rightarrow> b);
               cfg = (if img = None \<or> is_memzero data
                      then default_image (v_benv env) chip else Some data)
           in case cfg of
                None \<Rightarrow> (- 1, v2)
              | Some d \<Rightarrow>
                  (let (ok, b) = BT_InitDevice chip d (thread_created env) (bt v2);
                       b' = (if ok then BT_InitDevice_created b else b)
                   in (if ok then 0 else - 1, v2\<lparr>bt := b'\<rparr>))))"

definition mtk_prepare_off :: "vst \<Rightarrow> int \<times> vst" where
  "mtk_prepare_off v = (0, if cbacks (bt v) then vemit VEpilog v else v)"

definition clean_resource :: "vst \<Rightarrow> vst" where
  "clean_resource v = v\<lparr>bt := BT_Cleanup (bt v)\<rparr>"

section \<open>The operations of the stack\<close>

datatype vnd_op =
    OP_POWER_CTRL | OP_USERIAL_OPEN | OP_USERIAL_CLOSE | OP_FW_CFG | OP_SCO_CFG
  | OP_GET_LPM_IDLE_TIMEOUT | OP_LPM_SET_MODE | OP_LPM_WAKE_SET_STATE | OP_EPILOG | OP_OTHER int

definition mtk_bt_init :: "bool \<Rightarrow> vst \<Rightarrow> int \<times> vst" where
  "mtk_bt_init p_cb v = (0, set_callbacks p_cb v)"

text \<open>\<open>param\<close> is the memory the caller passes, as an array of \<open>int\<close>.\<close>

fun mtk_bt_op :: "venv \<Rightarrow> vnd_op \<Rightarrow> int list \<Rightarrow> vst \<Rightarrow> int \<times> int list \<times> vst" where
  "mtk_bt_op env OP_POWER_CTRL param v = (0, param, v)"
| "mtk_bt_op env OP_USERIAL_OPEN param v =
     (let (fd, v1) = init_uart env v in (1, param[0 := fd], v1))"
| "mtk_bt_op env OP_USERIAL_CLOSE param v = (0, param, close_uart v)"
| "mtk_bt_op env OP_FW_CFG param v = (let (r, v1) = mtk_fw_cfg env v in (r, param, v1))"
| "mtk_bt_op env OP_SCO_CFG param v = (0, param, v)"
| "mtk_bt_op env OP_GET_LPM_IDLE_TIMEOUT param v = (0, param[0 := 5000], v)"
| "mtk_bt_op env OP_LPM_SET_MODE param v = (0, param, v)"
| "mtk_bt_op env OP_LPM_WAKE_SET_STATE param v = (0, param, v)"
| "mtk_bt_op env OP_EPILOG param v = (let (r, v1) = mtk_prepare_off v in (r, param, v1))"
| "mtk_bt_op env (OP_OTHER n) param v = (- 1, param, v)"

definition mtk_bt_cleanup :: "vst \<Rightarrow> vst" where
  "mtk_bt_cleanup v = clean_callbacks (clean_resource v)"

datatype vcall =
    VInit bool | VOp vnd_op "int list" | VAssertCall "32 word" | VPsmCall bool | VCleanup

fun vcall_step :: "venv \<Rightarrow> vcall \<Rightarrow> vst \<Rightarrow> vst" where
  "vcall_step env (VInit p) v = snd (mtk_bt_init p v)"
| "vcall_step env (VOp op param) v = snd (snd (mtk_bt_op env op param v))"
| "vcall_step env (VAssertCall r) v = snd (mtk_set_fw_assert env r v)"
| "vcall_step env (VPsmCall b) v = snd (mtk_set_psm_control env b v)"
| "vcall_step env VCleanup v = mtk_bt_cleanup v"

definition vst0 :: "bt_st \<Rightarrow> vst" where
  "vst0 b = \<lparr>bt_fd = - 1, bt = b, vtrace = []\<rparr>"

section \<open>The descriptor that is open\<close>

text \<open>What the trace says of the UART: the descriptor opened last, unless it was closed since.\<close>

fun fd_after :: "int \<Rightarrow> vev \<Rightarrow> int" where
  "fd_after fd (VOpen n) = n"
| "fd_after fd (VClose n) = - 1"
| "fd_after fd _ = fd"

definition open_fd :: "vev list \<Rightarrow> int" where
  "open_fd tr = foldl fd_after (- 1) tr"

text \<open>Every use of a descriptor is a use of the one that is open at that moment.\<close>

fun uses_open :: "int \<Rightarrow> vev list \<Rightarrow> bool" where
  "uses_open fd [] = True"
| "uses_open fd (e # es) =
     ((case e of VClose n \<Rightarrow> 0 \<le> n \<and> n = fd | VAssert n _ \<Rightarrow> 0 \<le> n \<and> n = fd
       | VPsm n _ \<Rightarrow> 0 \<le> n \<and> n = fd | _ \<Rightarrow> True) \<and> uses_open (fd_after fd e) es)"

lemma uses_open_snoc:
  "uses_open fd (es @ [e]) \<longleftrightarrow> uses_open fd es \<and> uses_open (foldl fd_after fd es) [e]"
  by (induction es arbitrary: fd) auto

lemma foldl_sleep [simp]: "foldl fd_after fd (replicate k VSleep) = fd"
  by (induction k) auto

lemma uses_open_sleep: "uses_open fd (es @ replicate k VSleep) = uses_open fd es"
proof (induction k)
  case (Suc k)
  have "es @ replicate (Suc k) VSleep = (es @ replicate k VSleep) @ [VSleep]"
    by (simp add: replicate_append_same)
  then show ?case using Suc by (simp only: uses_open_snoc) simp
qed simp

definition uart_inv :: "vst \<Rightarrow> bool" where
  "uart_inv v = ((open_fd (vtrace v) = bt_fd v \<or> open_fd (vtrace v) < 0 \<and> bt_fd v < 0)
     \<and> uses_open (- 1) (vtrace v))"

lemma uart_inv_emit:
  assumes "uart_inv v" "uses_open (open_fd (vtrace v)) [e]"
    "fd' = fd_after (open_fd (vtrace v)) e \<or> fd_after (open_fd (vtrace v)) e < 0 \<and> fd' < 0"
  shows "uart_inv ((vemit e v)\<lparr>bt_fd := fd'\<rparr>)"
  using assms by (auto simp: uart_inv_def vemit_def open_fd_def uses_open_snoc)

lemma uart_inv_same:
  "uart_inv v \<Longrightarrow> vtrace w = vtrace v \<Longrightarrow> bt_fd w = bt_fd v \<Longrightarrow> uart_inv w"
  by (simp add: uart_inv_def)

lemma uart_inv_sleep:
  "uart_inv v \<Longrightarrow> vtrace w = vtrace v @ replicate k VSleep \<Longrightarrow> bt_fd w = bt_fd v \<Longrightarrow> uart_inv w"
  by (simp add: uart_inv_def open_fd_def uses_open_sleep)

lemma uart_inv_open: "uart_inv v \<Longrightarrow> uart_inv (snd (init_uart env v))"
  by (auto simp: init_uart_def Let_def intro!: uart_inv_emit)

lemma uart_inv_close:
  assumes "uart_inv v"
  shows "uart_inv (close_uart v)"
proof (cases "0 \<le> bt_fd v")
  case True
  then have "open_fd (vtrace v) = bt_fd v" using assms by (auto simp: uart_inv_def)
  then show ?thesis
    using assms True by (auto simp: close_uart_def Let_def intro!: uart_inv_emit)
next
  case False
  then show ?thesis using assms by (auto simp: close_uart_def uart_inv_def)
qed

lemma uart_inv_ioctl:
  assumes "uart_inv v" "\<not> bt_fd v < 0" "e \<in> {VAssert (bt_fd v) r, VPsm (bt_fd v) b}"
  shows "uart_inv (vemit e v)"
proof -
  have fd: "open_fd (vtrace v) = bt_fd v" using assms(1,2) by (auto simp: uart_inv_def)
  have "uart_inv ((vemit e v)\<lparr>bt_fd := bt_fd v\<rparr>)"
    using assms fd by (intro uart_inv_emit) auto
  then show ?thesis by (rule uart_inv_same) (simp_all add: vemit_def)
qed

lemma fw_cfg_trace:
  "(\<exists>k. vtrace (snd (mtk_fw_cfg env v)) = vtrace v @ replicate k VSleep)
   \<and> bt_fd (snd (mtk_fw_cfg env v)) = bt_fd v"
proof -
  have rep: "\<exists>k. xs @ replicate m VSleep @ replicate n VSleep = xs @ replicate k VSleep" for xs m n
    by (metis replicate_add)
  show ?thesis
    using rep by (auto simp: mtk_fw_cfg_def bt_get_combo_id_def bt_read_nvram_def Let_def
        split: prod.splits option.splits if_splits)
qed

lemma uart_inv_call: "uart_inv v \<Longrightarrow> uart_inv (vcall_step env c v)"
proof (cases c)
  case (VOp op param)
  assume v: "uart_inv v"
  have "uart_inv (snd (mtk_fw_cfg env v))"
    using fw_cfg_trace[of env v] uart_inv_sleep[OF v] by blast
  moreover have "uart_inv (snd (mtk_prepare_off v))"
    using v by (auto simp: mtk_prepare_off_def uart_inv_def vemit_def open_fd_def uses_open_snoc)
  ultimately show ?thesis
    using VOp v uart_inv_open[OF v] uart_inv_close[OF v]
    by (cases op) (auto simp: case_prod_beta)
next
  case (VInit p)
  then show "uart_inv v \<Longrightarrow> ?thesis"
    by (auto simp: mtk_bt_init_def set_callbacks_def elim: uart_inv_same)
next
  case (VAssertCall r)
  then show "uart_inv v \<Longrightarrow> ?thesis"
    by (auto simp: mtk_set_fw_assert_def case_prod_beta Let_def intro: uart_inv_ioctl)
next
  case (VPsmCall b)
  then show "uart_inv v \<Longrightarrow> ?thesis"
    by (auto simp: mtk_set_psm_control_def case_prod_beta Let_def intro: uart_inv_ioctl)
next
  case VCleanup
  then show "uart_inv v \<Longrightarrow> ?thesis"
    by (auto simp: mtk_bt_cleanup_def clean_callbacks_def clean_resource_def elim: uart_inv_same)
qed

section \<open>The retry loops\<close>

lemma poll_spec:
  assumes "k < 10"
  shows "poll ready k = (if \<exists>n. k \<le> n \<and> n < 10 \<and> ready n
    then (LEAST n. k \<le> n \<and> n < 10 \<and> ready n) else 10)"
  using assms
proof (induction ready k rule: poll.induct)
  case (1 ready k)
  let ?P = "\<lambda>m n. m \<le> n \<and> n < 10 \<and> ready n"
  show ?case
  proof (cases "ready k")
    case True
    then have "(LEAST n. ?P k n) = k" using 1(2) by (intro Least_equality) auto
    then show ?thesis using True 1(2) by (subst poll.simps) auto
  next
    case False
    then have eq: "?P k = ?P (Suc k)" by (auto simp: fun_eq_iff Suc_le_eq le_less)
    show ?thesis
    proof (cases "k + 1 < 10")
      case True
      then show ?thesis using 1(1)[OF False] False unfolding eq by (subst poll.simps) auto
    next
      case last: False
      then have "\<not> (\<exists>n. ?P k n)" using 1(2) unfolding eq by auto
      then show ?thesis using last False 1(2) by (subst poll.simps) auto
    qed
  qed
qed

lemma is_memzero_iff: "is_memzero bs \<longleftrightarrow> set bs \<subseteq> {0}"
  by (induction bs) auto

section \<open>Properties\<close>

text \<open>
  In every sequence of calls of the vendor interface, each \<open>close\<close> and each \<open>ioctl\<close> is made
  on the descriptor that is open at that moment: none on a closed or a failed one.
\<close>

theorem uart_never_stale:
  "uses_open (- 1) (vtrace (fold (vcall_step env) calls (vst0 b)))"
proof -
  have "uart_inv (fold (vcall_step env) cs v)" if "uart_inv v" for cs v
    using that by (induction cs arbitrary: v) (simp_all add: uart_inv_call)
  moreover have "uart_inv (vst0 b)" by (simp add: uart_inv_def vst0_def open_fd_def)
  ultimately show ?thesis by (simp add: uart_inv_def)
qed

text \<open>
  The chip id is read from the first of at most ten attempts that yields a usable property
  value, as the hexadecimal number it holds; when none does, the call fails after ten waits.
\<close>

theorem combo_id_first_usable:
  assumes "usable = (\<lambda>k. chip_prop env k \<noteq> [] \<and> chip_prop env k \<noteq> ''-1'')"
  shows "bt_get_combo_id env v =
    (if \<exists>k<10. usable k
     then (let k = (LEAST k. k < 10 \<and> usable k)
           in (Some (word_of_nat (strtoul16 (chip_prop env k))),
               v\<lparr>vtrace := vtrace v @ replicate k VSleep\<rparr>))
     else (None, v\<lparr>vtrace := vtrace v @ replicate 10 VSleep\<rparr>))"
proof (cases "\<exists>k<10. usable k")
  case True
  then have "(LEAST k. k < 10 \<and> usable k) < 10" by (rule LeastI2_ex) simp
  then show ?thesis using True poll_spec[of 0 usable]
    by (simp add: bt_get_combo_id_def Let_def assms)
next
  case False
  then show ?thesis using poll_spec[of 0 usable] by (auto simp: bt_get_combo_id_def Let_def assms)
qed

definition venv0 :: venv where
  "venv0 = \<lparr>uart_open = (\<lambda>_. 5), v_ioctl = (\<lambda>_. (0, 0)),
     chip_prop = (\<lambda>k. if k < 2 then ''-1'' else ''0x6755''), nvram_prop = (\<lambda>_. ''Ready''),
     nvm_rdesc = (3, 64, 1), nvm_read = (64, replicate 64 0), stack_junk = replicate 64 0,
     thread_created = True, v_benv = benv0\<rparr>"

lemma venv0_poll: "poll (\<lambda>k. chip_prop venv0 k \<noteq> [] \<and> chip_prop venv0 k \<noteq> ''-1'') 0 = 2"
  by (simp add: poll.simps venv0_def)

theorem combo_id_first_usable_witness:
  "fst (bt_get_combo_id venv0 (vst0 bt_boot)) = Some 0x6755"
proof -
  let ?u = "\<lambda>k. chip_prop venv0 k \<noteq> [] \<and> chip_prop venv0 k \<noteq> ''-1''"
  have ex: "\<exists>k<10. ?u k" by (rule exI[of _ 2]) (simp add: venv0_def)
  have least: "(LEAST k. k < 10 \<and> ?u k) = 2"
    by (rule Least_equality) (auto simp: venv0_def not_le split: if_splits intro!: leI)
  have "strtoul16 ''0x6755'' = 0x6755"
    by (simp add: strtoul16_def strip_sign_def strip_0x_def is_space_def hexval_def)
  moreover have "chip_prop venv0 2 = ''0x6755''" by (simp add: venv0_def)
  ultimately show ?thesis
    using combo_id_first_usable[OF refl, of venv0 "vst0 bt_boot"] ex
    unfolding least by (simp add: Let_def)
qed

definition chosen_image :: "venv \<Rightarrow> 32 word \<Rightarrow> byte list option \<Rightarrow> byte list option" where
  "chosen_image env chip img =
     (case img of Some b \<Rightarrow> if set b \<subseteq> {0} then default_image (v_benv env) chip else Some b
      | None \<Rightarrow> default_image (v_benv env) chip)"

text \<open>
  \<open>mtk_fw_cfg\<close> starts the initialisation exactly when the chip id could be read and there is
  a configuration: the NVRAM image when it can be read and is not all zero, the default record of
  the chip otherwise.  The image reaches \<open>btinit\<close> unchanged; without a configuration the state of
  the initialisation is untouched and the result is -1.
\<close>

theorem fw_cfg_config:
  assumes "bt_get_combo_id env v = (c, v1)"
  shows "(c = None \<longrightarrow> mtk_fw_cfg env v = (- 1, v1) \<and> bt v1 = bt v)
    \<and> (\<forall>chip. c = Some chip \<longrightarrow>
         (case chosen_image env chip (fst (bt_read_nvram env v1)) of
            None \<Rightarrow> fst (mtk_fw_cfg env v) = - 1 \<and> bt (snd (mtk_fw_cfg env v)) = bt v
          | Some d \<Rightarrow> fst (mtk_fw_cfg env v) = (if thread_created env then 0 else - 1)
              \<and> bt_nvram (bt (snd (mtk_fw_cfg env v))) = nvram_of d
              \<and> chip_id (bt (snd (mtk_fw_cfg env v))) = chip
              \<and> cmd_st (bt (snd (mtk_fw_cfg env v))) = cmd_st (bt v)
              \<and> running (bt (snd (mtk_fw_cfg env v))) = thread_created env))"
proof -
  have bt1: "bt v1 = bt v" "bt (snd (bt_get_combo_id env v)) = bt v"
    using assms by (auto simp: bt_get_combo_id_def Let_def split: if_splits)
  have bt2: "bt (snd (bt_read_nvram env v1)) = bt v1"
    by (auto simp: bt_read_nvram_def Let_def split: prod.splits)
  have zero: "is_memzero (replicate nvram_size 0)" by (auto simp: is_memzero_iff)
  show ?thesis
    using assms bt1 bt2 zero
    by (cases "fst (bt_read_nvram env v1)")
      (auto simp: mtk_fw_cfg_def chosen_image_def Let_def case_prod_beta is_memzero_iff
        BT_InitDevice_def BT_InitDevice_created_def split: option.splits)
qed

theorem fw_cfg_config_witness:
  "bt_nvram (bt (snd (mtk_fw_cfg venv0 (vst0 bt_boot)))) = stBtDefault_consys"
proof -
  obtain v1 where v1: "bt_get_combo_id venv0 (vst0 bt_boot) = (Some 0x6755, v1)"
    by (auto simp: bt_get_combo_id_def venv0_poll Let_def)
      (simp add: venv0_def strtoul16_def strip_sign_def strip_0x_def is_space_def hexval_def)
  have "fst (bt_read_nvram venv0 v1) \<in> {None, Some (replicate 64 0)}"
    by (auto simp: bt_read_nvram_def venv0_def Let_def)
  then have "chosen_image venv0 0x6755 (fst (bt_read_nvram venv0 v1)) = Some (nvram_raw stBtDefault_consys)"
    by (auto simp: chosen_image_def default_image_def consys_chips_def)
  then show ?thesis using fw_cfg_config[OF v1] by (simp add: nvram_of_raw)
qed

text \<open>
  Opening the UART reports one descriptor to the stack even when the open failed: the
  operation returns 1 and stores -1 as that descriptor; closing leaves no descriptor behind.
\<close>

theorem userial_open_close:
  assumes "param \<noteq> []"
  shows "fst (mtk_bt_op env OP_USERIAL_OPEN param v) = 1
    \<and> hd (fst (snd (mtk_bt_op env OP_USERIAL_OPEN param v))) = max (- 1) (uart_open env (vtrace v))
    \<and> bt_fd (snd (snd (mtk_bt_op env OP_USERIAL_CLOSE param v))) = - 1
    \<and> fst (mtk_set_fw_assert env r (snd (snd (mtk_bt_op env OP_USERIAL_CLOSE param v)))) = - 1"
  using assms
  by (cases param) (auto simp: init_uart_def close_uart_def mtk_set_fw_assert_def Let_def)

theorem userial_open_close_witness:
  "fst (snd (mtk_bt_op (venv0\<lparr>uart_open := \<lambda>_. - 2\<rparr>) OP_USERIAL_OPEN [0] (vst0 bt_boot))) = [- 1]
   \<and> hd (fst (snd (mtk_bt_op (venv0\<lparr>uart_open := \<lambda>_. - 2\<rparr>) OP_USERIAL_OPEN [0] (vst0 bt_boot)))) = - 1"
  using userial_open_close[of "[0]" "venv0\<lparr>uart_open := \<lambda>_. - 2\<rparr>" "vst0 bt_boot"]
  by (simp add: init_uart_def Let_def)

end
