(* ===== verification/Gps_Buff.thy ===== *)
theory Gps_Buff
  imports X3_Prelude
begin

text \<open>
  The message layer between the GPS HAL and its daemon, \<open>src/hal/gps/hal/gps_mtk_aosp.c\<close>: the
  \<open>buff_put_*\<close> and \<open>buff_get_*\<close> codec, the AGPS message builders, \<open>mtk_daemon_send\<close>, the one-byte
  device commands and the text conversions.  A buffer is a byte list of fixed length and a
  position; an access outside it is \<open>None\<close>.
\<close>

section \<open>The codec\<close>

type_synonym cursor = "byte list \<times> nat"

definition buff_put_int :: "32 word \<Rightarrow> cursor \<Rightarrow> cursor option" where
  "buff_put_int v c =
     (case c of (b, o1) \<Rightarrow>
        (case write_at b o1 (le32 v) of None \<Rightarrow> None | Some b' \<Rightarrow> Some (b', o1 + 4)))"

definition buff_put_struct :: "byte list \<Rightarrow> nat \<Rightarrow> cursor \<Rightarrow> cursor option" where
  "buff_put_struct input sz c =
     (case c of (b, o1) \<Rightarrow>
        (case read_at input 0 sz of None \<Rightarrow> None
         | Some xs \<Rightarrow>
            (case write_at b o1 xs of None \<Rightarrow> None | Some b' \<Rightarrow> Some (b', o1 + sz))))"

definition buff_put_binary :: "byte list \<Rightarrow> nat \<Rightarrow> cursor \<Rightarrow> cursor option" where
  "buff_put_binary input len c =
     (case buff_put_int (word_of_nat len) c of None \<Rightarrow> None
      | Some c' \<Rightarrow> buff_put_struct input len c')"

text \<open>A C string is its characters; the terminator is added where it is copied.\<close>

definition buff_put_string :: "byte list \<Rightarrow> cursor \<Rightarrow> cursor option" where
  "buff_put_string str c =
     (let len = length str + 1
      in case buff_put_int (word_of_nat len) c of None \<Rightarrow> None
         | Some c' \<Rightarrow> buff_put_struct (str @ [0]) len c')"

definition buff_get_int :: "cursor \<Rightarrow> (32 word \<times> nat) option" where
  "buff_get_int c =
     (case c of (b, o1) \<Rightarrow>
        (case read_at b o1 4 of None \<Rightarrow> None | Some xs \<Rightarrow> Some (un_le32 xs, o1 + 4)))"

text \<open>\<open>output\<close> is the destination array as it is before the call; a negative length makes
  \<open>memcpy\<close> run out of every array.\<close>

definition buff_get_struct :: "byte list \<Rightarrow> nat \<Rightarrow> cursor \<Rightarrow> (byte list \<times> nat) option" where
  "buff_get_struct output sz c =
     (case c of (b, o1) \<Rightarrow>
        (case read_at b o1 sz of None \<Rightarrow> None
         | Some xs \<Rightarrow>
            (case write_at output 0 xs of None \<Rightarrow> None | Some out \<Rightarrow> Some (out, o1 + sz))))"

definition buff_get_binary :: "byte list \<Rightarrow> cursor \<Rightarrow> (32 word \<times> byte list \<times> nat) option" where
  "buff_get_binary output c =
     (case buff_get_int c of None \<Rightarrow> None
      | Some (len, o1) \<Rightarrow>
          if sint len < 0 then None
          else (case buff_get_struct output (nat (sint len)) (fst c, o1) of None \<Rightarrow> None
                | Some (out, o2) \<Rightarrow> Some (len, out, o2)))"

definition buff_get_string :: "byte list \<Rightarrow> cursor \<Rightarrow> (32 word \<times> byte list \<times> nat) option" where
  "buff_get_string str c = buff_get_binary str c"

section \<open>The contract of a field\<close>

text \<open>
  \<open>put x\<close> appends \<open>size x\<close> bytes at the cursor when they fit and touches nothing before it;
  \<open>get\<close> at the same place recovers \<open>x\<close> from any buffer that agrees on those bytes.  A receiver
  may need to know something of the field (\<open>'s\<close>: a capacity, a size).
\<close>

locale field_codec =
  fixes put :: "'a \<Rightarrow> cursor \<Rightarrow> cursor option"
    and get :: "'s \<Rightarrow> cursor \<Rightarrow> ('a \<times> nat) option"
    and size_of :: "'a \<Rightarrow> nat"
    and fits :: "'a \<Rightarrow> 's \<Rightarrow> bool"
    and wf :: "'a \<Rightarrow> bool"
  assumes put_fits: "wf x \<Longrightarrow> o1 + size_of x \<le> length b \<Longrightarrow>
      \<exists>b'. put x (b, o1) = Some (b', o1 + size_of x) \<and> length b' = length b
         \<and> take o1 b' = take o1 b"
    and put_overflow: "wf x \<Longrightarrow> length b < o1 + size_of x \<Longrightarrow> put x (b, o1) = None"
    and get_put: "wf x \<Longrightarrow> fits x sh \<Longrightarrow> put x (b, o1) = Some (b', o2) \<Longrightarrow> o2 \<le> length c \<Longrightarrow>
      take o2 c = take o2 b' \<Longrightarrow> get sh (c, o1) = Some (x, o2)"
begin

fun put_all :: "'a list \<Rightarrow> cursor \<Rightarrow> cursor option" where
  "put_all [] c = Some c"
| "put_all (x # xs) c = (case put x c of None \<Rightarrow> None | Some c' \<Rightarrow> put_all xs c')"

fun get_all :: "'s list \<Rightarrow> cursor \<Rightarrow> ('a list \<times> nat) option" where
  "get_all [] (b, o1) = Some ([], o1)"
| "get_all (s # ss) (b, o1) =
     (case get s (b, o1) of None \<Rightarrow> None
      | Some (x, o2) \<Rightarrow>
          (case get_all ss (b, o2) of None \<Rightarrow> None | Some (xs, o3) \<Rightarrow> Some (x # xs, o3)))"

definition total :: "'a list \<Rightarrow> nat" where
  "total xs = sum_list (map size_of xs)"

lemma put_cases:
  assumes "wf x" "put x (b, o1) = Some (b', o2)"
  shows "o2 = o1 + size_of x" "length b' = length b" "take o1 b' = take o1 b" "o2 \<le> length b"
proof -
  have fit: "o1 + size_of x \<le> length b" using put_overflow[OF assms(1)] assms(2) by (metis not_le option.distinct(1))
  then obtain b'' where "put x (b, o1) = Some (b'', o1 + size_of x)" "length b'' = length b"
    "take o1 b'' = take o1 b"
    using put_fits[OF assms(1)] by blast
  with assms(2) fit show "o2 = o1 + size_of x" "length b' = length b" "take o1 b' = take o1 b" "o2 \<le> length b"
    by auto
qed

lemma put_all_fits:
  "\<forall>x \<in> set xs. wf x \<Longrightarrow> o1 + total xs \<le> length b \<Longrightarrow>
   \<exists>b'. put_all xs (b, o1) = Some (b', o1 + total xs) \<and> length b' = length b
     \<and> take o1 b' = take o1 b"
proof (induction xs arbitrary: b o1)
  case (Cons x xs)
  have "o1 + size_of x \<le> length b" using Cons.prems(2) by (simp add: total_def)
  then obtain b1 where b1: "put x (b, o1) = Some (b1, o1 + size_of x)" "length b1 = length b"
    "take o1 b1 = take o1 b"
    using put_fits Cons.prems(1) by (metis list.set_intros(1))
  have "o1 + size_of x + total xs \<le> length b1" using Cons.prems(2) b1 by (simp add: total_def)
  then obtain b2 where b2: "put_all xs (b1, o1 + size_of x) = Some (b2, o1 + size_of x + total xs)"
    "length b2 = length b1" "take (o1 + size_of x) b2 = take (o1 + size_of x) b1"
    using Cons.IH[of "o1 + size_of x" b1] Cons.prems(1) by auto
  have "take o1 b2 = take o1 b"
    using arg_cong[OF b2(3), of "take o1"] b1(3) by (simp add: min_def)
  then show ?case using b1 b2 by (simp add: total_def add.assoc)
qed (simp add: total_def)

lemma put_all_overflow:
  "\<forall>x \<in> set xs. wf x \<Longrightarrow> length b < o1 + total xs \<Longrightarrow> o1 \<le> length b \<Longrightarrow> put_all xs (b, o1) = None"
proof (induction xs arbitrary: b o1)
  case (Cons x xs)
  show ?case
  proof (cases "put x (b, o1)")
    case (Some c)
    obtain b1 o2 where c: "c = (b1, o2)" by fastforce
    have "o2 = o1 + size_of x" "length b1 = length b" "o2 \<le> length b"
      using put_cases[of x b o1 b1 o2] Some Cons.prems(1) c by auto
    then show ?thesis using Cons.IH[of b1 o2] Cons.prems Some c by (simp add: total_def)
  qed simp
qed (simp add: total_def)

lemma get_put_all:
  "\<forall>x \<in> set xs. wf x \<Longrightarrow> list_all2 fits xs shs \<Longrightarrow> put_all xs (b, o1) = Some (b', o2) \<Longrightarrow>
   get_all shs (b', o1) = Some (xs, o2) \<and> length b' = length b \<and> o2 = o1 + total xs
     \<and> take o1 b' = take o1 b"
proof (induction xs arbitrary: b o1 shs)
  case (Cons x xs)
  obtain sh shs' where sh: "shs = sh # shs'" "fits x sh" "list_all2 fits xs shs'"
    using Cons.prems(2) by (auto simp: list_all2_Cons1)
  obtain b1 om where p: "put x (b, o1) = Some (b1, om)" "put_all xs (b1, om) = Some (b', o2)"
    using Cons.prems(3) by (auto split: option.splits)
  have px: "om = o1 + size_of x" "length b1 = length b" "take o1 b1 = take o1 b" "om \<le> length b"
    using put_cases[OF _ p(1)] Cons.prems(1) by auto
  have ih: "get_all shs' (b', om) = Some (xs, o2)" "length b' = length b1" "o2 = om + total xs"
    "take om b' = take om b1"
    using Cons.IH[OF _ sh(3) p(2)] Cons.prems(1) by auto
  have "get sh (b', o1) = Some (x, om)"
    using get_put[OF _ sh(2) p(1)] Cons.prems(1) px ih by simp
  moreover have "take o1 b' = take o1 b"
    using arg_cong[OF ih(4), of "take o1"] px by (simp add: min_def)
  ultimately show ?case using sh ih px by (simp add: total_def)
qed (auto simp: total_def)

end

section \<open>The four field codecs\<close>

definition get_int_field :: "unit \<Rightarrow> cursor \<Rightarrow> (32 word \<times> nat) option" where
  "get_int_field u c = buff_get_int c"

definition get_struct_field :: "nat \<Rightarrow> cursor \<Rightarrow> (byte list \<times> nat) option" where
  "get_struct_field n c = buff_get_struct (replicate n 0) n c"

definition get_binary_field :: "nat \<Rightarrow> cursor \<Rightarrow> (byte list \<times> nat) option" where
  "get_binary_field cap c =
     (case buff_get_binary (replicate cap 0) c of None \<Rightarrow> None
      | Some (len, out, o2) \<Rightarrow> Some (take (nat (sint len)) out, o2))"

definition get_string_field :: "nat \<Rightarrow> cursor \<Rightarrow> (byte list \<times> nat) option" where
  "get_string_field cap c =
     (case buff_get_string (replicate cap 0) c of None \<Rightarrow> None
      | Some (len, out, o2) \<Rightarrow> Some (takeWhile (\<lambda>b. b \<noteq> 0) out, o2))"

lemma read_at_whole [simp]: "read_at x 0 (length x) = Some x"
  by (simp add: read_at_def)

lemma put_struct_eq:
  "buff_put_struct x (length x) (b, o1) =
     (case write_at b o1 x of None \<Rightarrow> None | Some b' \<Rightarrow> Some (b', o1 + length x))"
  by (simp add: buff_put_struct_def split: option.splits)

lemma sint_word_of_nat:
  assumes "n < 2^31"
  shows "sint (word_of_nat n :: 32 word) = int n"
proof -
  have "signed_take_bit 31 (int n) = int n"
    using assms by (intro signed_take_bit_int_eq_self) simp_all
  then show ?thesis by (simp add: signed_of_nat)
qed

lemma read_back:
  assumes "write_at b o1 xs = Some b'" "o1 + length xs \<le> m" "m \<le> length c"
    "take m c = take m b'" "m \<le> length b'"
  shows "read_at c o1 (length xs) = Some xs"
  using read_at_cong[of m c b' o1 "length xs"] assms read_write_same[OF assms(1)] by simp

interpretation int_codec: field_codec buff_put_int get_int_field "\<lambda>_. 4" "\<lambda>_ _. True" "\<lambda>_. True"
proof
  fix x :: "32 word" and o1 and b b' c :: "byte list" and o2 sh
  show "\<exists>b'. buff_put_int x (b, o1) = Some (b', o1 + 4) \<and> length b' = length b \<and> take o1 b' = take o1 b"
    if "o1 + 4 \<le> length b"
    using that by (auto simp: buff_put_int_def write_at_def)
  show "buff_put_int x (b, o1) = None" if "length b < o1 + 4"
    using that by (simp add: buff_put_int_def write_at_def)
  show "get_int_field sh (c, o1) = Some (x, o2)"
    if "buff_put_int x (b, o1) = Some (b', o2)" "o2 \<le> length c" "take o2 c = take o2 b'"
  proof -
    have w: "write_at b o1 (le32 x) = Some b'" "o2 = o1 + 4" "o2 \<le> length b'"
      using that(1) write_at_length[of b o1 "le32 x" b']
      by (auto simp: buff_put_int_def write_at_def split: if_splits)
    then have "read_at c o1 4 = Some (le32 x)" using read_back[OF w(1) _ that(2,3)] by simp
    then show ?thesis using w by (simp add: get_int_field_def buff_get_int_def)
  qed
qed

lemma put_struct_cases:
  assumes "buff_put_struct x (length x) (b, o1) = Some (b', o2)"
  shows "write_at b o1 x = Some b'" "o2 = o1 + length x" "o2 \<le> length b'"
  using assms by (auto simp: put_struct_eq write_at_def split: if_splits)

interpretation struct_codec: field_codec "\<lambda>x. buff_put_struct x (length x)" get_struct_field
  "\<lambda>x. length x" "\<lambda>x n. n = length x" "\<lambda>_. True"
proof
  fix x :: "byte list" and o1 and b b' c :: "byte list" and o2 and sh :: nat
  show "\<exists>b'. buff_put_struct x (length x) (b, o1) = Some (b', o1 + length x)
      \<and> length b' = length b \<and> take o1 b' = take o1 b"
    if "o1 + length x \<le> length b"
    using that by (auto simp: put_struct_eq write_at_def)
  show "buff_put_struct x (length x) (b, o1) = None" if "length b < o1 + length x"
    using that by (simp add: put_struct_eq write_at_def)
  show "get_struct_field sh (c, o1) = Some (x, o2)"
    if "sh = length x" "buff_put_struct x (length x) (b, o1) = Some (b', o2)" "o2 \<le> length c"
      "take o2 c = take o2 b'"
    using read_back[OF put_struct_cases(1)[OF that(2)] _ that(3,4)] put_struct_cases[OF that(2)] that(1)
    by (simp add: get_struct_field_def buff_get_struct_def write_at_def)
qed

text \<open>A length prefix and its bytes: what \<open>buff_put_binary\<close> lays down can be read back.\<close>

lemma put_binary_fits:
  assumes "o1 + (4 + length x) \<le> length b"
  shows "\<exists>b'. buff_put_binary x (length x) (b, o1) = Some (b', o1 + (4 + length x))
    \<and> length b' = length b \<and> take o1 b' = take o1 b"
proof -
  obtain b1 where b1: "buff_put_int (word_of_nat (length x)) (b, o1) = Some (b1, o1 + 4)"
    "length b1 = length b" "take o1 b1 = take o1 b"
    using int_codec.put_fits[OF TrueI, of o1 b "word_of_nat (length x)"] assms by auto
  obtain b2 where b2: "buff_put_struct x (length x) (b1, o1 + 4) = Some (b2, o1 + 4 + length x)"
    "length b2 = length b1" "take (o1 + 4) b2 = take (o1 + 4) b1"
    using struct_codec.put_fits[OF TrueI, of "o1 + 4" x b1] assms b1 by auto
  have "take o1 b2 = take o1 b1" using arg_cong[OF b2(3), of "take o1"] by simp
  then show ?thesis using b1 b2 by (simp add: buff_put_binary_def add.assoc)
qed

lemma put_binary_overflow:
  assumes "length b < o1 + (4 + length x)"
  shows "buff_put_binary x (length x) (b, o1) = None"
  using assms by (auto simp: buff_put_binary_def buff_put_int_def put_struct_eq write_at_def
      split: option.splits)

lemma get_put_binary:
  assumes "length x < 2^31" "length x \<le> length out"
    and "buff_put_binary x (length x) (b, o1) = Some (b', o2)" "o2 \<le> length c"
    and "take o2 c = take o2 b'"
  shows "buff_get_binary out (c, o1) =
    Some (word_of_nat (length x), x @ drop (length x) out, o2)"
proof -
  obtain b1 om where p: "buff_put_int (word_of_nat (length x)) (b, o1) = Some (b1, om)"
    "buff_put_struct x (length x) (b1, om) = Some (b', o2)"
    using assms(3) by (auto simp: buff_put_binary_def split: option.splits)
  have om: "om = o1 + 4" using int_codec.put_cases[OF TrueI p(1)] by simp
  have st: "o2 = om + length x" "length b' = length b1" "take om b' = take om b1"
    using struct_codec.put_cases[OF TrueI p(2)] by auto
  have "take om c = take om b1"
    using arg_cong[OF assms(5), of "take om"] st by (simp add: min_def)
  then have "buff_get_int (c, o1) = Some (word_of_nat (length x), om)"
    using int_codec.get_put[OF TrueI TrueI p(1)] assms(4) st by (simp add: get_int_field_def)
  moreover have "read_at c om (length x) = Some x"
    using read_back[OF put_struct_cases(1)[OF p(2)] _ assms(4,5)] put_struct_cases[OF p(2)] by simp
  ultimately show ?thesis
    using assms(1,2) st
    by (simp add: buff_get_binary_def buff_get_struct_def sint_word_of_nat write_at_def)
qed

interpretation binary_codec: field_codec "\<lambda>x. buff_put_binary x (length x)" get_binary_field
  "\<lambda>x. 4 + length x" "\<lambda>x cap. length x \<le> cap" "\<lambda>x. length x < 2^31"
  using put_binary_fits put_binary_overflow
  by unfold_locales (auto simp: get_binary_field_def get_put_binary sint_word_of_nat)

lemma put_string_binary:
  "buff_put_string str c = buff_put_binary (str @ [0]) (length (str @ [0])) c"
  by (simp add: buff_put_string_def buff_put_binary_def Let_def)

lemma takeWhile_terminated:
  "0 \<notin> set str \<Longrightarrow> takeWhile (\<lambda>b. b \<noteq> 0) (str @ 0 # ys) = str"
  by (induction str) auto

interpretation string_codec: field_codec buff_put_string get_string_field
  "\<lambda>s. 5 + length s" "\<lambda>s cap. length s + 1 \<le> cap" "\<lambda>s. 0 \<notin> set s \<and> length s + 1 < 2^31"
proof
  fix x :: "byte list" and o1 and b b' c :: "byte list" and o2 and sh :: nat
  show "\<exists>b'. buff_put_string x (b, o1) = Some (b', o1 + (5 + length x))
      \<and> length b' = length b \<and> take o1 b' = take o1 b"
    if "o1 + (5 + length x) \<le> length b"
    using put_binary_fits[of o1 "x @ [0]" b] that by (simp add: put_string_binary)
  show "buff_put_string x (b, o1) = None" if "length b < o1 + (5 + length x)"
    using put_binary_overflow[of b o1 "x @ [0]"] that by (simp add: put_string_binary)
  show "get_string_field sh (c, o1) = Some (x, o2)"
    if "0 \<notin> set x \<and> length x + 1 < 2^31" "length x + 1 \<le> sh"
      "buff_put_string x (b, o1) = Some (b', o2)" "o2 \<le> length c" "take o2 c = take o2 b'"
    using get_put_binary[of "x @ [0]" "replicate sh 0" b o1 b' o2 c] that
    by (simp add: put_string_binary get_string_field_def buff_get_string_def takeWhile_terminated)
qed

section \<open>Messages\<close>

datatype field = FInt "32 word" | FStr "byte list" | FBin "byte list" | FStruct "byte list"

datatype shape = SInt | SStr nat | SBin nat | SStruct nat

fun put_field :: "field \<Rightarrow> cursor \<Rightarrow> cursor option" where
  "put_field (FInt v) c = buff_put_int v c"
| "put_field (FStr s) c = buff_put_string s c"
| "put_field (FBin x) c = buff_put_binary x (length x) c"
| "put_field (FStruct x) c = buff_put_struct x (length x) c"

fun get_field :: "shape \<Rightarrow> cursor \<Rightarrow> (field \<times> nat) option" where
  "get_field SInt c = map_option (\<lambda>(v, k). (FInt v, k)) (get_int_field () c)"
| "get_field (SStr cap) c = map_option (\<lambda>(v, k). (FStr v, k)) (get_string_field cap c)"
| "get_field (SBin cap) c = map_option (\<lambda>(v, k). (FBin v, k)) (get_binary_field cap c)"
| "get_field (SStruct n) c = map_option (\<lambda>(v, k). (FStruct v, k)) (get_struct_field n c)"

fun field_size :: "field \<Rightarrow> nat" where
  "field_size (FInt v) = 4"
| "field_size (FStr s) = 5 + length s"
| "field_size (FBin x) = 4 + length x"
| "field_size (FStruct x) = length x"

fun field_fits :: "field \<Rightarrow> shape \<Rightarrow> bool" where
  "field_fits (FInt v) SInt = True"
| "field_fits (FStr s) (SStr cap) = (length s + 1 \<le> cap)"
| "field_fits (FBin x) (SBin cap) = (length x \<le> cap)"
| "field_fits (FStruct x) (SStruct n) = (n = length x)"
| "field_fits _ _ = False"

fun field_wf :: "field \<Rightarrow> bool" where
  "field_wf (FInt v) = True"
| "field_wf (FStr s) = (0 \<notin> set s \<and> length s + 1 < 2^31)"
| "field_wf (FBin x) = (length x < 2^31)"
| "field_wf (FStruct x) = True"

interpretation msg: field_codec put_field get_field field_size field_fits field_wf
proof
  fix x :: field and o1 and b b' c :: "byte list" and o2 and sh
  show "\<exists>b'. put_field x (b, o1) = Some (b', o1 + field_size x) \<and> length b' = length b
      \<and> take o1 b' = take o1 b"
    if "field_wf x" "o1 + field_size x \<le> length b"
    using that int_codec.put_fits[where b = b] string_codec.put_fits[where b = b]
      binary_codec.put_fits[where b = b] struct_codec.put_fits[where b = b]
    by (cases x) auto
  show "put_field x (b, o1) = None" if "field_wf x" "length b < o1 + field_size x"
    using that int_codec.put_overflow string_codec.put_overflow binary_codec.put_overflow
      struct_codec.put_overflow
    by (cases x) auto
  show "get_field sh (c, o1) = Some (x, o2)"
    if "field_wf x" "field_fits x sh" "put_field x (b, o1) = Some (b', o2)" "o2 \<le> length c"
      "take o2 c = take o2 b'"
    using that int_codec.get_put[where b = b and c = c and sh = "()"]
      string_codec.get_put[where b = b and c = c] binary_codec.get_put[where b = b and c = c]
      struct_codec.get_put[where b = b and c = c]
    by (cases x; cases sh) auto
qed

end
