(* ===== verification/Gps_Msg.thy ===== *)
theory Gps_Msg
  imports Gps_Buff
begin

text \<open>
  The users of the codec in \<open>src/hal/gps/hal/gps_mtk_aosp.c\<close>: \<open>mtk_daemon_send\<close>, the AGPS, NI,
  RIL and certificate messages, the one-byte device commands, and the text conversions.
\<close>

section \<open>Sending to the daemon\<close>

text \<open>
  \<open>res k\<close> is the outcome of the k-th \<open>sendto\<close>.  The loop repeats on \<open>EINTR\<close> without a bound and
  on \<open>EAGAIN\<close> at most \<open>retry\<close> times: it is a partial function, \<open>None\<close> being a loop that never ends.
\<close>

datatype send_res = SOk | SErr int

definition EINTR :: int where "EINTR = 4"
definition EAGAIN :: int where "EAGAIN = 11"
definition EPIPE :: int where "EPIPE = 32"

partial_function (option) send_loop ::
    "(nat \<Rightarrow> send_res) \<Rightarrow> nat \<Rightarrow> nat \<Rightarrow> (nat \<times> send_res) option" where
  "send_loop res k retry =
     (case res k of
        SOk \<Rightarrow> Some (k + 1, SOk)
      | SErr e \<Rightarrow>
          if e = EINTR then send_loop res (k + 1) retry
          else if e = EAGAIN \<and> 0 < retry then send_loop res (k + 1) (retry - 1)
          else Some (k + 1, SErr e))"

record agps_st =
  nw_connected :: int
  nw_type :: int
  nsend :: nat
  sent :: "byte list list"
  last_errno :: int

datatype outcome = MemError | Hang | Done int agps_st

fun bind_out :: "outcome \<Rightarrow> (int \<Rightarrow> agps_st \<Rightarrow> outcome) \<Rightarrow> outcome" where
  "bind_out MemError f = MemError"
| "bind_out Hang f = Hang"
| "bind_out (Done r s) f = f r s"

definition mtk_daemon_send :: "(nat \<Rightarrow> send_res) \<Rightarrow> byte list \<Rightarrow> agps_st \<Rightarrow> outcome" where
  "mtk_daemon_send res buf s =
     (case send_loop res (nsend s) 10 of
        None \<Rightarrow> Hang
      | Some (k, SOk) \<Rightarrow> Done 0 (s\<lparr>nsend := k, sent := sent s @ [buf]\<rparr>)
      | Some (k, SErr e) \<Rightarrow> Done (- 1) (s\<lparr>nsend := k, last_errno := e\<rparr>))"

section \<open>Messages\<close>

fun put_fields :: "field list \<Rightarrow> cursor \<Rightarrow> cursor option" where
  "put_fields [] c = Some c"
| "put_fields (x # xs) c =
     (case put_field x c of None \<Rightarrow> None | Some c' \<Rightarrow> put_fields xs c')"

fun get_fields :: "shape list \<Rightarrow> cursor \<Rightarrow> (field list \<times> nat) option" where
  "get_fields [] c = Some ([], snd c)"
| "get_fields (sh # shs) c =
     (case get_field sh c of None \<Rightarrow> None
      | Some (x, o2) \<Rightarrow>
          (case get_fields shs (fst c, o2) of None \<Rightarrow> None
           | Some (xs, o3) \<Rightarrow> Some (x # xs, o3)))"

text \<open>Every builder fills \<open>char buff[1024] = {0}\<close> from the start and sends the whole array.\<close>

definition build_msg :: "field list \<Rightarrow> byte list option" where
  "build_msg fs = map_option fst (put_fields fs (replicate 1024 0, 0))"

definition send_msg :: "(nat \<Rightarrow> send_res) \<Rightarrow> field list \<Rightarrow> agps_st \<Rightarrow> outcome" where
  "send_msg res fs s =
     (case build_msg fs of None \<Rightarrow> MemError | Some buf \<Rightarrow> mtk_daemon_send res buf s)"

datatype agps_cmd =
    DATA_CONN_OPEN | DATA_CONN_FAILED | DATA_CONN_CLOSED | NI_MESSAGE | NI_RESPOND | SET_REF_LOC
  | SET_SET_ID | SET_SERVER | UPDATE_NETWORK_STATE | UPDATE_NETWORK_AVAILABILITY
  | DATA_CONN_OPEN_IP_TYPE | INSTALL_CERTIFICATES | REVOKE_CERTIFICATES

fun agps_code :: "agps_cmd \<Rightarrow> 32 word" where
  "agps_code DATA_CONN_OPEN = 125"
| "agps_code DATA_CONN_FAILED = 126"
| "agps_code DATA_CONN_CLOSED = 127"
| "agps_code NI_MESSAGE = 128"
| "agps_code NI_RESPOND = 129"
| "agps_code SET_REF_LOC = 130"
| "agps_code SET_SET_ID = 131"
| "agps_code SET_SERVER = 132"
| "agps_code UPDATE_NETWORK_STATE = 133"
| "agps_code UPDATE_NETWORK_AVAILABILITY = 134"
| "agps_code DATA_CONN_OPEN_IP_TYPE = 135"
| "agps_code INSTALL_CERTIFICATES = 136"
| "agps_code REVOKE_CERTIFICATES = 137"

definition ret0 :: "outcome \<Rightarrow> outcome" where
  "ret0 m = bind_out m (\<lambda>_ s. Done 0 s)"

definition agps_data_conn_open :: "(nat \<Rightarrow> send_res) \<Rightarrow> byte list \<Rightarrow> agps_st \<Rightarrow> outcome" where
  "agps_data_conn_open res apn s =
     ret0 (send_msg res [FInt (agps_code DATA_CONN_OPEN), FStr apn] s)"

definition agps_data_conn_open_with_apn_ip_type ::
    "(nat \<Rightarrow> send_res) \<Rightarrow> byte list \<Rightarrow> 32 word \<Rightarrow> agps_st \<Rightarrow> outcome" where
  "agps_data_conn_open_with_apn_ip_type res apn apnIpType s =
     ret0 (send_msg res [FInt (agps_code DATA_CONN_OPEN_IP_TYPE), FStr apn, FInt apnIpType] s)"

definition agps_data_conn_closed :: "(nat \<Rightarrow> send_res) \<Rightarrow> agps_st \<Rightarrow> outcome" where
  "agps_data_conn_closed res s = ret0 (send_msg res [FInt (agps_code DATA_CONN_CLOSED)] s)"

definition agps_data_conn_failed :: "(nat \<Rightarrow> send_res) \<Rightarrow> agps_st \<Rightarrow> outcome" where
  "agps_data_conn_failed res s = ret0 (send_msg res [FInt (agps_code DATA_CONN_FAILED)] s)"

definition agps_set_server ::
    "(nat \<Rightarrow> send_res) \<Rightarrow> 32 word \<Rightarrow> byte list \<Rightarrow> 32 word \<Rightarrow> agps_st \<Rightarrow> outcome" where
  "agps_set_server res type hostname port s =
     send_msg res [FInt (agps_code SET_SERVER), FInt type, FStr hostname, FInt port] s"

text \<open>
  The certificate calls take an array (\<open>mem\<close>, its bytes in memory) and the number of its
  elements, and copy as many bytes of the array as it has elements.
\<close>

definition agps_install_certificates ::
    "(nat \<Rightarrow> send_res) \<Rightarrow> byte list \<Rightarrow> nat \<Rightarrow> agps_st \<Rightarrow> outcome" where
  "agps_install_certificates res mem n s =
     (case read_at mem 0 n of None \<Rightarrow> MemError
      | Some xs \<Rightarrow>
          send_msg res [FInt (agps_code INSTALL_CERTIFICATES), FInt (word_of_nat n), FStruct xs] s)"

definition agps_revoke_certificates ::
    "(nat \<Rightarrow> send_res) \<Rightarrow> byte list \<Rightarrow> nat \<Rightarrow> agps_st \<Rightarrow> outcome" where
  "agps_revoke_certificates res mem n s =
     (case read_at mem 0 n of None \<Rightarrow> MemError
      | Some xs \<Rightarrow>
          send_msg res [FInt (agps_code REVOKE_CERTIFICATES), FInt (word_of_nat n), FStruct xs] s)"

definition gps_ni_respond :: "(nat \<Rightarrow> send_res) \<Rightarrow> 32 word \<Rightarrow> 32 word \<Rightarrow> agps_st \<Rightarrow> outcome" where
  "gps_ni_respond res notif_id user_response s =
     send_msg res [FInt (agps_code NI_RESPOND), FInt notif_id, FInt user_response] s"

definition agps_ril_set_ref_location ::
    "(nat \<Rightarrow> send_res) \<Rightarrow> byte list \<Rightarrow> nat \<Rightarrow> agps_st \<Rightarrow> outcome" where
  "agps_ril_set_ref_location res reflocation sz_struct s =
     send_msg res [FInt (agps_code SET_REF_LOC), FStruct reflocation, FInt (word_of_nat sz_struct)] s"

definition agps_ril_set_set_id :: "(nat \<Rightarrow> send_res) \<Rightarrow> 32 word \<Rightarrow> byte list \<Rightarrow> agps_st \<Rightarrow> outcome" where
  "agps_ril_set_set_id res type setid s =
     send_msg res [FInt (agps_code SET_SET_ID), FInt type, FStr setid] s"

definition agps_ril_ni_message :: "(nat \<Rightarrow> send_res) \<Rightarrow> byte list \<Rightarrow> agps_st \<Rightarrow> outcome" where
  "agps_ril_ni_message res m s = send_msg res [FInt (agps_code NI_MESSAGE), FBin m] s"

definition agps_network_connected_wifi_tragger_nlp :: "(nat \<Rightarrow> send_res) \<Rightarrow> agps_st \<Rightarrow> outcome" where
  "agps_network_connected_wifi_tragger_nlp res s = send_msg res [FInt 0x4a] s"

definition agps_ril_update_network_state ::
    "(nat \<Rightarrow> send_res) \<Rightarrow> int \<Rightarrow> int \<Rightarrow> int \<Rightarrow> byte list option \<Rightarrow> agps_st \<Rightarrow> outcome" where
  "agps_ril_update_network_state res connected type roaming extra_info s =
     bind_out (if nw_connected s = 0 \<and> connected = 1 \<and> type = 1
               then agps_network_connected_wifi_tragger_nlp res s else Done 0 s)
       (\<lambda>_ s1. send_msg res [FInt (agps_code UPDATE_NETWORK_STATE), FInt (word_of_int connected),
                  FInt (word_of_int type), FInt (word_of_int roaming),
                  FStr (case extra_info of None \<Rightarrow> [] | Some x \<Rightarrow> x)]
                (s1\<lparr>nw_connected := connected, nw_type := type\<rparr>))"

definition agps_ril_update_network_availability ::
    "(nat \<Rightarrow> send_res) \<Rightarrow> 32 word \<Rightarrow> byte list option \<Rightarrow> agps_st \<Rightarrow> outcome" where
  "agps_ril_update_network_availability res avaiable apn s =
     send_msg res [FInt (agps_code UPDATE_NETWORK_AVAILABILITY), FInt avaiable,
       FStr (case apn of None \<Rightarrow> [] | Some x \<Rightarrow> x)] s"

text \<open>
  \<open>mtk_gps_send_location_to_mnl\<close>: \<open>file\<close> is what \<open>fread\<close> delivers of the location file (\<open>None\<close> when
  it cannot be opened), \<open>n\<close> and \<open>at\<close> the size of \<open>nlp_context\<close> and the offset of its last field
  on the platform, \<open>fd_ok\<close> whether \<open>send_fd\<close> is initialised.
\<close>

definition mtk_gps_send_location_to_mnl ::
    "(nat \<Rightarrow> send_res) \<Rightarrow> nat \<Rightarrow> nat \<Rightarrow> byte \<Rightarrow> bool \<Rightarrow> byte list option \<Rightarrow> agps_st \<Rightarrow> outcome" where
  "mtk_gps_send_location_to_mnl res n at started fd_ok file s =
     (case file of None \<Rightarrow> Done 0 s
      | Some bytes \<Rightarrow>
          let loc = (take n bytes @ replicate (n - length bytes) 0)[at := started]
          in (case build_msg [FInt 0x47, FStruct loc] of None \<Rightarrow> MemError
              | Some buf \<Rightarrow> if fd_ok then ret0 (mtk_daemon_send res buf s) else Done 0 s))"

section \<open>Device commands\<close>

definition mtk_init :: "(nat \<Rightarrow> send_res) \<Rightarrow> agps_st \<Rightarrow> outcome" where
  "mtk_init res s = mtk_daemon_send res [0x00] s"

text \<open>With \<open>GPS_AOSP_MODE\<close> defined the daemon is neither started nor stopped from here.\<close>

definition mtk_start_daemon :: int where "mtk_start_daemon = 0"
definition mtk_stop_daemon :: int where "mtk_stop_daemon = 0"
definition mtk_daemon_init :: int where "mtk_daemon_init = 0"
definition mtk_daemon_cleanup :: int where "mtk_daemon_cleanup = mtk_stop_daemon"

definition mtk_cleanup :: "(nat \<Rightarrow> send_res) \<Rightarrow> agps_st \<Rightarrow> outcome" where
  "mtk_cleanup res s = ret0 (mtk_daemon_send res [0x01] s)"

fun start_retry :: "(nat \<Rightarrow> send_res) \<Rightarrow> nat \<Rightarrow> int \<Rightarrow> agps_st \<Rightarrow> outcome" where
  "start_retry res 0 err s = Done err s"
| "start_retry res (Suc n) err s =
     (if err \<noteq> 0 \<and> last_errno s = EPIPE
      then bind_out (mtk_daemon_send res [0x03] s) (start_retry res n) else Done err s)"

definition mtk_start :: "(nat \<Rightarrow> send_res) \<Rightarrow> agps_st \<Rightarrow> outcome" where
  "mtk_start res s = bind_out (mtk_daemon_send res [0x03] s) (start_retry res 5)"

definition mtk_stop :: "(nat \<Rightarrow> send_res) \<Rightarrow> agps_st \<Rightarrow> outcome" where
  "mtk_stop res s = mtk_daemon_send res [0x02] s"

definition mtk_restart :: "(nat \<Rightarrow> send_res) \<Rightarrow> byte \<Rightarrow> agps_st \<Rightarrow> outcome" where
  "mtk_restart res cmd s = mtk_daemon_send res [cmd] s"

definition mtk_measurement_init :: "(nat \<Rightarrow> send_res) \<Rightarrow> agps_st \<Rightarrow> outcome" where
  "mtk_measurement_init res s = mtk_daemon_send res [0x15] s"

definition mtk_measurement_close :: "(nat \<Rightarrow> send_res) \<Rightarrow> agps_st \<Rightarrow> outcome" where
  "mtk_measurement_close res s = mtk_daemon_send res [0x16] s"

definition mtk_navigation_init :: "(nat \<Rightarrow> send_res) \<Rightarrow> agps_st \<Rightarrow> outcome" where
  "mtk_navigation_init res s = mtk_daemon_send res [0x17] s"

definition mtk_navigation_close :: "(nat \<Rightarrow> send_res) \<Rightarrow> agps_st \<Rightarrow> outcome" where
  "mtk_navigation_close res s = mtk_daemon_send res [0x18] s"

section \<open>Text conversions\<close>

text \<open>\<open>asc_str_to_usc2_str\<close>: the result is the length and the output array.  The terminator goes
  to positions \<open>len + 1\<close> and \<open>len + 2\<close>.\<close>

fun usc2_chars :: "byte list \<Rightarrow> nat \<Rightarrow> byte list \<Rightarrow> (nat \<times> byte list) option" where
  "usc2_chars outb len [] = Some (len, outb)"
| "usc2_chars outb len (b # bs) =
     (if b = 0 then Some (len, outb)
      else case write_at outb len [0, b] of None \<Rightarrow> None
           | Some out \<Rightarrow> usc2_chars out (len + 2) bs)"

definition asc_str_to_usc2_str :: "byte list \<Rightarrow> byte list \<Rightarrow> (nat \<times> byte list) option" where
  "asc_str_to_usc2_str outb input =
     (case write_at outb 0 [0xfe, 0xff] of None \<Rightarrow> None
      | Some o1 \<Rightarrow>
          (case usc2_chars o1 2 input of None \<Rightarrow> None
           | Some (len, o2) \<Rightarrow>
               (case write_at o2 (len + 1) [0, 0] of None \<Rightarrow> None | Some o3 \<Rightarrow> Some (len, o3))))"

definition hex_digit :: "byte \<Rightarrow> byte" where
  "hex_digit tmp = (if tmp \<le> 9 then tmp + 48 else (tmp - 10) + 65)"

fun hex_loop :: "byte list \<Rightarrow> nat \<Rightarrow> byte list \<Rightarrow> byte list option" where
  "hex_loop outb i [] = Some outb"
| "hex_loop outb i (b # bs) =
     (case write_at outb (i * 2) [hex_digit (drop_bit 4 b AND 0xf), hex_digit (b AND 0xf)] of
        None \<Rightarrow> None
      | Some out \<Rightarrow> hex_loop out (i + 1) bs)"

definition raw_data_to_hex_string :: "byte list \<Rightarrow> byte list \<Rightarrow> nat \<Rightarrow> byte list option" where
  "raw_data_to_hex_string outb input input_len =
     (case read_at input 0 input_len of None \<Rightarrow> None | Some xs \<Rightarrow> hex_loop outb 0 xs)"

section \<open>Properties of the messages\<close>

lemma put_fields_msg: "put_fields xs c = msg.put_all xs c"
  by (induction xs c rule: put_fields.induct) (simp_all split: option.splits)

lemma get_fields_msg: "get_fields shs (b, o1) = msg.get_all shs (b, o1)"
  by (induction shs arbitrary: o1) (simp_all split: option.splits prod.splits)

definition msg_size :: "field list \<Rightarrow> nat" where
  "msg_size fs = sum_list (map field_size fs)"

lemma msg_total: "msg.total fs = msg_size fs"
  by (simp add: msg.total_def msg_size_def)

lemma build_msg_None:
  assumes "\<forall>x \<in> set fs. field_wf x"
  shows "build_msg fs = None \<longleftrightarrow> 1024 < msg_size fs"
  using msg.put_all_fits[OF assms, of 0 "replicate 1024 0"]
    msg.put_all_overflow[OF assms, of "replicate 1024 0" 0]
  by (cases "msg_size fs \<le> 1024") (auto simp: build_msg_def put_fields_msg msg_total)

lemma build_msg_reads:
  assumes "\<forall>x \<in> set fs. field_wf x" "list_all2 field_fits fs shs" "msg_size fs \<le> 1024"
  shows "\<exists>buf. build_msg fs = Some buf \<and> length buf = 1024 \<and> get_fields shs (buf, 0) = Some (fs, msg_size fs)"
proof -
  obtain buf where "msg.put_all fs (replicate 1024 0, 0) = Some (buf, msg_size fs)"
    using msg.put_all_fits[OF assms(1), of 0 "replicate 1024 0"] assms(3) by (auto simp: msg_total)
  then show ?thesis
    using assms(3) msg.get_put_all[OF assms(1,2), of "replicate 1024 0" 0 buf "msg_size fs"]
    by (simp add: build_msg_def put_fields_msg get_fields_msg)
qed

definition agps0 :: agps_st where
  "agps0 = \<lparr>nw_connected = 0, nw_type = 0, nsend = 0, sent = [], last_errno = 0\<rparr>"

lemma send_msg_sent:
  "build_msg fs = Some buf \<Longrightarrow> send_msg res fs s = Done n s' \<Longrightarrow>
     n = 0 \<and> sent s' = sent s @ [buf] \<or> n = - 1 \<and> sent s' = sent s"
  by (auto simp: send_msg_def mtk_daemon_send_def split: option.splits prod.splits send_res.splits)

text \<open>
  C11: A message whose fields fit 1024 bytes is built, and a receiver that reads the same sequence of field
  kinds from the array gets back exactly the fields that were put in.  When the call that sends it returns,
  it has sent the whole array, once, and gives 0, or it has sent nothing and gives -1.  A message that does
  not fit is written past the end of the array instead.
\<close>

theorem message_roundtrip:
  assumes "\<forall>x \<in> set fs. field_wf x" "list_all2 field_fits fs shs"
  shows "if msg_size fs \<le> 1024
    then \<exists>buf. build_msg fs = Some buf \<and> length buf = 1024
         \<and> get_fields shs (buf, 0) = Some (fs, msg_size fs)
         \<and> (\<forall>n s'. send_msg res fs s = Done n s' \<longrightarrow>
               n = 0 \<and> sent s' = sent s @ [buf] \<or> n = - 1 \<and> sent s' = sent s)
    else build_msg fs = None \<and> send_msg res fs s = MemError"
  using build_msg_reads[OF assms] build_msg_None[OF assms(1)] send_msg_sent[of fs _ res s]
  by (auto simp: send_msg_def)

theorem message_roundtrip_witness:
  "\<exists>buf. build_msg [FInt 132, FInt 1, FStr [115, 117, 112, 108], FInt 7275] = Some buf
    \<and> get_fields [SInt, SInt, SStr 100, SInt] (buf, 0) =
        Some ([FInt 132, FInt 1, FStr [115, 117, 112, 108], FInt 7275], 21)"
proof -
  let ?fs = "[FInt 132, FInt 1, FStr [115, 117, 112, 108], FInt 7275]"
  have "\<forall>x \<in> set ?fs. field_wf x" "list_all2 field_fits ?fs [SInt, SInt, SStr 100, SInt]" by simp_all
  from message_roundtrip[OF this, of "\<lambda>_. SOk" agps0] show ?thesis
    by (simp add: msg_size_def del: get_fields.simps) blast
qed

text \<open>
  Opening a data connection overruns its 1024-byte buffer exactly when the access point name is
  longer than 1015 bytes: the name the framework passes is not checked.
\<close>

theorem data_conn_open_overflow:
  assumes "0 \<notin> set apn" "length apn < 2^30"
  shows "agps_data_conn_open res apn s = MemError \<longleftrightarrow> 1015 < length apn"
proof -
  let ?fs = "[FInt (agps_code DATA_CONN_OPEN), FStr apn]"
  have wf: "\<forall>x \<in> set ?fs. field_wf x" using assms by simp
  have sz: "1024 < msg_size ?fs \<longleftrightarrow> 1015 < length apn" by (simp add: msg_size_def)
  have ok: "mtk_daemon_send res b s \<noteq> MemError" for b
    by (auto simp: mtk_daemon_send_def split: option.splits prod.splits send_res.splits)
  have r: "ret0 m = MemError \<longleftrightarrow> m = MemError" for m by (cases m) (simp_all add: ret0_def)
  show ?thesis
    using build_msg_None[OF wf] ok unfolding sz
    by (auto simp: agps_data_conn_open_def send_msg_def r split: option.splits)
qed

theorem data_conn_open_overflow_witness:
  "agps_data_conn_open (\<lambda>_. SOk) (replicate 1016 97) agps0 = MemError"
  using data_conn_open_overflow[of "replicate 1016 97" "\<lambda>_. SOk"] by simp

section \<open>Properties of sending\<close>

definition attempts :: "(nat \<Rightarrow> send_res) \<Rightarrow> nat \<Rightarrow> nat \<Rightarrow> nat" where
  "attempts res k k' = length (filter (\<lambda>j. res j \<noteq> SErr EINTR) [k..<k'])"

lemma send_loop_skip:
  assumes "k \<le> m" "\<And>j. k \<le> j \<Longrightarrow> j < m \<Longrightarrow> res j = SErr EINTR"
  shows "send_loop res k retry = send_loop res m retry \<and> attempts res k m = 0"
  using assms
proof (induction "m - k" arbitrary: k)
  case (Suc d)
  then have "res k = SErr EINTR" by simp
  moreover have "send_loop res (Suc k) retry = send_loop res m retry \<and> attempts res (Suc k) m = 0"
    using Suc by simp
  moreover have "[k..<m] = k # [Suc k..<m]" using Suc by (simp add: upt_conv_Cons)
  ultimately show ?case by (subst send_loop.simps) (simp add: attempts_def)
qed (simp add: attempts_def)

lemma attempts_split:
  "k \<le> m \<Longrightarrow> m \<le> n \<Longrightarrow> attempts res k n = attempts res k m + attempts res m n"
proof -
  assume "k \<le> m" "m \<le> n"
  then have "[k..<n] = [k..<m] @ [m..<n]" by (metis le_add_diff_inverse upt_add_eq_append)
  then show ?thesis by (simp add: attempts_def)
qed

lemma send_loop_returns:
  assumes "\<And>k. \<exists>j\<ge>k. res j \<noteq> SErr EINTR"
  shows "\<exists>k' r. send_loop res k retry = Some (k', r) \<and> k < k' \<and> res (k' - 1) = r
    \<and> r \<noteq> SErr EINTR \<and> attempts res k k' \<le> retry + 1"
proof (induction retry arbitrary: k)
  case (0 k)
  let ?m = "LEAST j. k \<le> j \<and> res j \<noteq> SErr EINTR"
  have m: "k \<le> ?m" "res ?m \<noteq> SErr EINTR" using LeastI_ex[OF assms[of k]] by auto
  have skip: "send_loop res k 0 = send_loop res ?m 0" "attempts res k ?m = 0"
    using send_loop_skip[OF m(1)] not_less_Least[of _ "\<lambda>j. k \<le> j \<and> res j \<noteq> SErr EINTR"] by blast+
  have one: "attempts res ?m (Suc ?m) = 1" using m(2) by (simp add: attempts_def)
  have "send_loop res ?m 0 = Some (Suc ?m, res ?m)"
    using m(2) by (subst send_loop.simps) (auto split: send_res.splits)
  then show ?case
    using m skip one attempts_split[of k ?m "Suc ?m" res] by (intro exI[of _ "Suc ?m"]) auto
next
  case (Suc retry k)
  let ?m = "LEAST j. k \<le> j \<and> res j \<noteq> SErr EINTR"
  have m: "k \<le> ?m" "res ?m \<noteq> SErr EINTR" using LeastI_ex[OF assms[of k]] by auto
  have skip: "send_loop res k (Suc retry) = send_loop res ?m (Suc retry)" "attempts res k ?m = 0"
    using send_loop_skip[OF m(1)] not_less_Least[of _ "\<lambda>j. k \<le> j \<and> res j \<noteq> SErr EINTR"] by blast+
  have one: "attempts res ?m (Suc ?m) = 1" using m(2) by (simp add: attempts_def)
  show ?case
  proof (cases "res ?m = SErr EAGAIN")
    case True
    then have next_eq: "send_loop res ?m (Suc retry) = send_loop res (Suc ?m) retry"
      by (subst send_loop.simps) (simp add: EAGAIN_def EINTR_def)
    obtain k' r where r: "send_loop res (Suc ?m) retry = Some (k', r)" "Suc ?m < k'"
      "res (k' - 1) = r" "r \<noteq> SErr EINTR" "attempts res (Suc ?m) k' \<le> retry + 1"
      using Suc.IH by blast
    have "attempts res k k' \<le> Suc retry + 1"
      using r m skip one attempts_split[of k ?m k' res] attempts_split[of ?m "Suc ?m" k' res] by simp
    then show ?thesis using r skip next_eq m by (intro exI[of _ k'] exI[of _ r]) simp
  next
    case False
    then have "send_loop res ?m (Suc retry) = Some (Suc ?m, res ?m)"
      using m(2) by (subst send_loop.simps) (auto split: send_res.splits)
    then show ?thesis
      using m skip one attempts_split[of k ?m "Suc ?m" res] by (intro exI[of _ "Suc ?m"]) auto
  qed
qed

text \<open>
  C31: Unless \<open>sendto\<close> is interrupted for ever, sending a datagram returns: after at most eleven
  attempts that were not interrupted, with 0 exactly when the last of them was accepted, in which
  case the datagram was sent once, and with -1 and the error of the last attempt otherwise.
\<close>

theorem daemon_send_returns:
  assumes "\<And>k. \<exists>j\<ge>k. res j \<noteq> SErr EINTR"
  shows "\<exists>k' r s'. mtk_daemon_send res buf s = Done r s' \<and> nsend s' = k' \<and> nsend s < k'
    \<and> attempts res (nsend s) k' \<le> 11
    \<and> (res (k' - 1) = SOk \<and> r = 0 \<and> sent s' = sent s @ [buf]
       \<or> (\<exists>e. res (k' - 1) = SErr e \<and> e \<noteq> EINTR \<and> r = - 1 \<and> sent s' = sent s \<and> last_errno s' = e))"
proof -
  obtain k' r where "send_loop res (nsend s) 10 = Some (k', r)" "nsend s < k'" "res (k' - 1) = r"
    "r \<noteq> SErr EINTR" "attempts res (nsend s) k' \<le> 11"
    using send_loop_returns[OF assms, where k = "nsend s" and retry = 10] by auto
  then show ?thesis by (cases r) (auto simp: mtk_daemon_send_def)
qed

theorem daemon_send_returns_witness:
  "\<exists>s'. mtk_daemon_send (\<lambda>_. SErr EAGAIN) [2] agps0 = Done (- 1) s' \<and> sent s' = []"
  using daemon_send_returns[of "\<lambda>_. SErr EAGAIN" "[2]" agps0]
  by (auto simp: EAGAIN_def EINTR_def agps0_def)

section \<open>Properties of the conversions\<close>

definition hex_pair :: "byte \<Rightarrow> byte list" where
  "hex_pair b = [hex_digit (drop_bit 4 b AND 0xf), hex_digit (b AND 0xf)]"

definition un_hex :: "byte \<Rightarrow> byte" where
  "un_hex c = (if c \<le> 57 then c - 48 else c - 55)"

fun un_hex_string :: "byte list \<Rightarrow> byte list" where
  "un_hex_string (a # b # r) = (push_bit 4 (un_hex a) OR un_hex b) # un_hex_string r"
| "un_hex_string _ = []"

lemma hex_loop_spec:
  "i * 2 + 2 * length xs \<le> length outb \<Longrightarrow>
   hex_loop outb i xs = Some (take (i * 2) outb @ concat (map hex_pair xs)
     @ drop (i * 2 + 2 * length xs) outb)"
proof (induction xs arbitrary: outb i)
  case (Cons b bs)
  let ?h = "hex_pair b"
  have w: "write_at outb (i * 2) ?h = Some (take (i * 2) outb @ ?h @ drop (i * 2 + 2) outb)"
    using Cons.prems by (simp add: write_at_def hex_pair_def)
  let ?o = "take (i * 2) outb @ ?h @ drop (i * 2 + 2) outb"
  have len: "length ?o = length outb" "length (take (i * 2) outb) = i * 2"
    using Cons.prems by (simp_all add: hex_pair_def)
  have "take ((i + 1) * 2) ?o = take (i * 2) outb @ ?h"
    using len(2) by (simp add: hex_pair_def)
  moreover have "drop ((i + 1) * 2 + 2 * length bs) ?o = drop (i * 2 + 2 * length (b # bs)) outb"
    using len(2) by (simp add: hex_pair_def add.commute)
  ultimately show ?case
    using Cons.IH[of "i + 1" ?o] Cons.prems len(1) w[unfolded hex_pair_def]
    by (simp add: hex_pair_def)
qed simp

lemma nibble_un_hex:
  assumes "n \<le> 15"
  shows "un_hex (hex_digit n) = n"
proof -
  have n: "unat n \<le> 15" using assms by (simp add: word_le_nat_alt)
  show ?thesis
  proof (cases "n \<le> 9")
    case True
    then have "unat n \<le> 9" by (simp add: word_le_nat_alt)
    then have "unat (n + 48) = unat n + 48" by (simp add: unat_word_ariths)
    then show ?thesis using True \<open>unat n \<le> 9\<close> by (simp add: un_hex_def hex_digit_def word_le_nat_alt)
  next
    case False
    then have "9 < unat n" by (simp add: word_le_nat_alt)
    moreover have "unat (55 + n) = 55 + unat n" using n by (simp add: unat_word_ariths)
    ultimately show ?thesis using False by (simp add: un_hex_def hex_digit_def word_le_nat_alt)
  qed
qed

lemma nibbles: "(drop_bit 4 b AND 0xf) \<le> (15 :: byte)" "(b AND 0xf) \<le> (15 :: byte)"
  "push_bit 4 (drop_bit 4 b AND 0xf) OR (b AND 0xf) = (b :: byte)"
proof -
  have m: "(0xf :: byte) = mask 4" by (simp add: mask_eq_exp_minus_1)
  show "(drop_bit 4 b AND 0xf) \<le> (15 :: byte)" "(b AND 0xf) \<le> (15 :: byte)"
    by (simp_all add: word_and_le1)
  show "push_bit 4 (drop_bit 4 b AND 0xf) OR (b AND 0xf) = b"
    unfolding m by (rule bit_word_eqI) (auto simp: bit_or_iff bit_and_iff bit_push_bit_iff
        bit_drop_bit_eq bit_mask_iff)
qed

lemma un_hex_concat: "un_hex_string (concat (map hex_pair xs)) = xs"
  by (induction xs) (simp_all add: hex_pair_def nibble_un_hex nibbles nibbles(3)[simplified])

text \<open>
  The hexadecimal text of a byte block takes two characters per byte, stays inside an outb
  array of at least that size, leaves the rest of the array alone, and decodes to the block.
\<close>

theorem hex_string_roundtrip:
  assumes "2 * length input \<le> length outb"
  shows "\<exists>h. raw_data_to_hex_string outb input (length input) = Some (h @ drop (2 * length input) outb)
    \<and> length h = 2 * length input \<and> un_hex_string h = input"
proof -
  have "length (concat (map hex_pair input)) = 2 * length input"
    by (induction input) (simp_all add: hex_pair_def)
  then show ?thesis
    using hex_loop_spec[of 0 input outb] assms
    by (intro exI[of _ "concat (map hex_pair input)"])
      (simp add: raw_data_to_hex_string_def un_hex_concat)
qed

theorem hex_string_roundtrip_witness:
  "\<exists>h. raw_data_to_hex_string (replicate 4 0) [0x1a, 0xf0] 2 = Some h \<and> un_hex_string h = [0x1a, 0xf0]"
  using hex_string_roundtrip[of "[0x1a, 0xf0]" "replicate 4 0"] by (auto simp: numeral_2_eq_2)

lemma usc2_chars_spec:
  "0 \<notin> set xs \<Longrightarrow> len + 2 * length xs \<le> length outb \<Longrightarrow>
   usc2_chars outb len xs = Some (len + 2 * length xs,
     take len outb @ concat (map (\<lambda>b. [0, b]) xs) @ drop (len + 2 * length xs) outb)"
proof (induction xs arbitrary: outb len)
  case (Cons b bs)
  let ?o = "take len outb @ [0, b] @ drop (len + 2) outb"
  have w: "write_at outb len [0, b] = Some ?o" using Cons.prems(2) by (simp add: write_at_def)
  have ln: "length (take len outb) = len" "length ?o = length outb"
    using Cons.prems(2) by simp_all
  have "take (len + 2) ?o = take len outb @ [0, b]" using ln(1) by simp
  moreover have "drop (len + 2 + 2 * length bs) ?o = drop (len + 2 * length (b # bs)) outb"
    using ln(1) by (simp add: add.commute)
  ultimately show ?case using Cons.IH[of "len + 2" ?o] Cons.prems ln(2) w by simp
qed simp

text \<open>
  The UCS-2 conversion writes the byte order mark and one big-endian pair per character, but
  its terminator is one byte late: the first byte after the text keeps what the array held before,
  and the two zeros follow it.
\<close>

theorem usc2_terminator_late:
  assumes "0 \<notin> set input" "2 * length input + 5 \<le> length outb"
  shows "\<exists>out. asc_str_to_usc2_str outb input = Some (2 * length input + 2, out)
    \<and> take (2 * length input + 2) out = [0xfe, 0xff] @ concat (map (\<lambda>b. [0, b]) input)
    \<and> out ! (2 * length input + 2) = outb ! (2 * length input + 2)
    \<and> out ! (2 * length input + 3) = 0 \<and> out ! (2 * length input + 4) = 0"
proof -
  let ?n = "2 * length input + 2"
  let ?t = "[0xfe, 0xff] @ concat (map (\<lambda>b. [0, b]) input)"
  have lt: "length ?t = ?n" by (induction input) simp_all
  have w: "write_at outb 0 [0xfe, 0xff] = Some ([0xfe, 0xff] @ drop 2 outb)"
    using assms(2) by (simp add: write_at_def) (metis numeral_2_eq_2)
  have u: "usc2_chars ([0xfe, 0xff] @ drop 2 outb) 2 input = Some (?n, ?t @ drop ?n outb)"
  proof -
    let ?o = "[0xfe, 0xff] @ drop 2 outb"
    have "take 2 ?o = [0xfe, 0xff]" by simp
    moreover have "drop (2 + 2 * length input) ?o = drop ?n outb" by (simp add: add.commute)
    moreover have "usc2_chars ?o 2 input = Some (2 + 2 * length input,
        take 2 ?o @ concat (map (\<lambda>b. [0, b]) input) @ drop (2 + 2 * length input) ?o)"
      using assms by (intro usc2_chars_spec) simp_all
    ultimately show ?thesis by (simp only: add.commute append.assoc)
  qed
  have d: "drop ?n outb = outb ! ?n # drop (?n + 1) outb"
    using assms(2) by (simp add: Cons_nth_drop_Suc)
  have "write_at (?t @ drop ?n outb) (?n + 1) [0, 0] =
      Some (?t @ outb ! ?n # [0, 0] @ drop (?n + 3) outb)"
    using assms(2) lt unfolding write_at_def d by (auto simp: numeral_eq_Suc)
  then have "asc_str_to_usc2_str outb input =
      Some (?n, ?t @ outb ! ?n # [0, 0] @ drop (?n + 3) outb)"
    using w u by (simp add: asc_str_to_usc2_str_def)
  moreover have "(?t @ outb ! ?n # [0, 0] @ drop (?n + 3) outb) ! (?n + k) =
      (outb ! ?n # [0, 0] @ drop (?n + 3) outb) ! k" for k
    using lt by (metis nth_append_length_plus)
  from this[of 0] this[of 1] this[of 2] have
    "(?t @ outb ! ?n # [0, 0] @ drop (?n + 3) outb) ! ?n = outb ! ?n"
    "(?t @ outb ! ?n # [0, 0] @ drop (?n + 3) outb) ! (2 * length input + 3) = 0"
    "(?t @ outb ! ?n # [0, 0] @ drop (?n + 3) outb) ! (2 * length input + 4) = 0"
    by (simp_all add: numeral_eq_Suc)
  moreover have "take ?n (?t @ outb ! ?n # [0, 0] @ drop (?n + 3) outb) = ?t" using lt by simp
  ultimately show ?thesis by blast
qed

theorem usc2_terminator_late_witness:
  "\<exists>out. asc_str_to_usc2_str (replicate 8 0xAA) [65] = Some (4, out) \<and> out ! 4 = 0xAA"
  using usc2_terminator_late[of "[65]" "replicate 8 0xAA"] by auto

end
