(* ===== verification/Gps_At.thy ===== *)
theory Gps_At
  imports Gps_Msg C_Text
begin

text \<open>
  The AT test mode of \<open>src/hal/gps/hal/gps_mtk_aosp.c\<close> (compiled when the build
  defines \<open>GPS_AT_COMMAND\<close>):
  its globals, the satellite search on the \<open>prn\<close> and \<open>snr\<close> tables, the per-burst test procedure,
  \<open>mtk_gps_test_start/stop/inprogress\<close>, the control pipe, and the two command parsers.

  An undefined behaviour of C (an access outside a table or a freed block, a double free, a text
  that does not fit its buffer, a loop that never ends) is recorded in the list \<open>ub\<close>; what the
  machine does after the first of them is not modelled.  Signed arithmetic is taken to wrap.
\<close>

section \<open>State\<close>

datatype at_test_state =
    AT_UNKNOWN | AT_START | AT_STOP | AT_INPROGRESS | AT_DONE | AT_RESULT_DONE

datatype at_fault =
    PrnTable int | DevTable int | DevUnusable | DoubleFree | AckTooLong | NegativeSqrt
  | NegativeAlloc | NeverReturns | CmdBuffer

datatype dev_block = DevNull | DevLive "int list" | DevFreed

record at_st =
  MNL_AT_TEST_FLAG :: int
  MNL_AT_SIGNAL_MODE :: int
  MNL_AT_SIGNAL_TEST_BEGIN :: int
  MNL_AT_SET_ALARM :: int
  MNL_AT_CANCEL_ALARM :: int
  MNL_AT_TEST_STATE :: at_test_state
  hal_test_num :: int
  hal_prn_num :: int
  hal_time_delay :: int
  start_time :: int
  Dev_CNr :: dev_block
  prn_tab :: "int list"
  snr_tab :: "int list"
  cn :: int
  at_result :: "int list"
  test_num :: int
  CNo :: int
  DCNo :: int
  Avg_CNo :: int
  Dev_CNo :: int
  Completed_Num :: int
  Success_Num :: int
  Failure_Num :: int
  Wait_Num :: int
  sig_suc_num :: int
  Err_Code :: int
  test_mode_flag :: int
  prev_success_num :: int
  agps :: agps_st
  ctl :: "int list"
  nctl :: nat
  nclock :: nat
  acks :: "(string \<times> nat) list"
  ub :: "at_fault list"

text \<open>The initialisers of the file.\<close>

definition at_init :: "agps_st \<Rightarrow> at_st" where
  "at_init a =
     \<lparr>MNL_AT_TEST_FLAG = 0, MNL_AT_SIGNAL_MODE = 0, MNL_AT_SIGNAL_TEST_BEGIN = 0,
      MNL_AT_SET_ALARM = 0, MNL_AT_CANCEL_ALARM = 0, MNL_AT_TEST_STATE = AT_UNKNOWN,
      hal_test_num = 0, hal_prn_num = 0, hal_time_delay = 0, start_time = 0, Dev_CNr = DevNull,
      prn_tab = replicate 32 0, snr_tab = replicate 32 0, cn = 0, at_result = [1, 0, 0, 0, 0, 0, 0, 0],
      test_num = 0, CNo = 0, DCNo = 0, Avg_CNo = 0, Dev_CNo = 0, Completed_Num = 0,
      Success_Num = 0, Failure_Num = 0, Wait_Num = 0, sig_suc_num = 0, Err_Code = 1,
      test_mode_flag = 1, prev_success_num = 0, agps = a, ctl = [], nctl = 0, nclock = 0,
      acks = [], ub = []\<rparr>"

text \<open>
  The world: the \<open>k\<close>-th send to the daemon, the \<open>k\<close>-th write to the control pipe, the \<open>k\<close>-th
  reading of the clock, whether the HAL is initialised (\<open>s->init\<close>), and the width of
  \<open>unsigned long\<close>.
\<close>

record at_env =
  ae_send :: "nat \<Rightarrow> send_res"
  ae_ctl :: "nat \<Rightarrow> send_res"
  ae_clock :: "nat \<Rightarrow> int"
  ae_init :: bool
  ae_ulong :: nat

definition fault :: "at_fault \<Rightarrow> at_st \<Rightarrow> at_st" where
  "fault f s = s\<lparr>ub := ub s @ [f]\<rparr>"

definition at_time :: "at_env \<Rightarrow> at_st \<Rightarrow> int \<times> at_st" where
  "at_time e s = (ae_clock e (nclock s), s\<lparr>nclock := nclock s + 1\<rparr>)"

section \<open>The control pipe\<close>

text \<open>One byte to the GPS thread, written again after \<open>EINTR\<close>; other errors are only logged.\<close>

definition gps_state_cmd :: "at_env \<Rightarrow> int \<Rightarrow> at_st \<Rightarrow> at_st" where
  "gps_state_cmd e c s =
     (case send_loop (ae_ctl e) (nctl s) 0 of
        None \<Rightarrow> fault NeverReturns s
      | Some (k, SOk) \<Rightarrow> s\<lparr>nctl := k, ctl := ctl s @ [c]\<rparr>
      | Some (k, SErr _) \<Rightarrow> s\<lparr>nctl := k\<rparr>)"

definition gps_state_start :: "at_env \<Rightarrow> at_st \<Rightarrow> at_st" where
  "gps_state_start e s = gps_state_cmd e 1 s"

definition gps_state_stop :: "at_env \<Rightarrow> at_st \<Rightarrow> at_st" where
  "gps_state_stop e s = gps_state_cmd e 2 s"

definition gps_state_restart :: "at_env \<Rightarrow> at_st \<Rightarrow> at_st" where
  "gps_state_restart e s = gps_state_cmd e 3 s"

definition gps_state_test_start :: "at_env \<Rightarrow> at_st \<Rightarrow> at_st" where
  "gps_state_test_start e s = gps_state_cmd e 10 s"

definition gps_state_test_stop :: "at_env \<Rightarrow> at_st \<Rightarrow> at_st" where
  "gps_state_test_stop e s = gps_state_cmd e 11 s"

definition gps_state_test_sms_airtest_no_result_report :: "at_env \<Rightarrow> at_st \<Rightarrow> at_st" where
  "gps_state_test_sms_airtest_no_result_report e s = gps_state_cmd e 12 s"

section \<open>Start, stop and progress of a test\<close>

definition free_dev :: "at_st \<Rightarrow> at_st" where
  "free_dev s =
     (case Dev_CNr s of
        DevNull \<Rightarrow> s
      | DevLive _ \<Rightarrow> s\<lparr>Dev_CNr := DevFreed\<rparr>
      | DevFreed \<Rightarrow> fault DoubleFree s)"

definition mtk_gps_test_stop :: "at_env \<Rightarrow> at_st \<Rightarrow> int \<times> at_st" where
  "mtk_gps_test_stop e s0 =
     (let s = s0\<lparr>test_mode_flag := 1\<rparr>
      in if \<not> ae_init e then (- 1, s)
         else case mtk_stop (ae_send e) (agps s) of
                MemError \<Rightarrow> (- 1, fault NeverReturns s)
              | Hang \<Rightarrow> (- 1, fault NeverReturns s)
              | Done err a \<Rightarrow>
                  let s1 = s\<lparr>agps := a\<rparr>
                  in if err \<noteq> 0 then (- 1, s1)
                     else
                       (0, free_dev ((gps_state_test_stop e s1)
                         \<lparr>hal_test_num := 0, hal_prn_num := 0, hal_time_delay := 0,
                          MNL_AT_TEST_FLAG := 0, MNL_AT_SIGNAL_MODE := 0,
                          MNL_AT_TEST_STATE := AT_UNKNOWN, MNL_AT_SET_ALARM := 0,
                          MNL_AT_CANCEL_ALARM := 0, MNL_AT_SIGNAL_TEST_BEGIN := 0,
                          Success_Num := 0, Completed_Num := 0, Wait_Num := 0, CNo := 0, DCNo := 0,
                          Dev_CNo := 0, Err_Code := 1, test_num := 0\<rparr>)))"

definition alloc_dev :: "int \<Rightarrow> at_st \<Rightarrow> at_st" where
  "alloc_dev n s =
     (if n < 0 then fault NegativeAlloc s else s\<lparr>Dev_CNr := DevLive (replicate (nat n) 0)\<rparr>)"

definition mtk_gps_test_start :: "at_env \<Rightarrow> int \<Rightarrow> int \<Rightarrow> int \<Rightarrow> int \<Rightarrow> at_st \<Rightarrow> int \<times> at_st" where
  "mtk_gps_test_start e num prn_num time_delay test_mode s0 =
     (let s1 = (if MNL_AT_TEST_STATE s0 \<noteq> AT_UNKNOWN \<and> test_mode_flag s0 \<noteq> 0
                then snd (mtk_gps_test_stop e s0) else s0);
          (now, s2) = at_time e (s1\<lparr>hal_test_num := num, hal_prn_num := prn_num,
                                    hal_time_delay := time_delay\<rparr>);
          s3 = alloc_dev num (s2\<lparr>start_time := now, Avg_CNo := 0\<rparr>)
      in if num = 0 \<and> test_mode = 0 then (- 1, s3)
         else
           let s4 = (if test_mode = 1 then s3\<lparr>MNL_AT_SIGNAL_MODE := 1\<rparr>
                     else s3\<lparr>MNL_AT_TEST_FLAG := 1\<rparr>)
           in if \<not> ae_init e then (- 1, s4)
              else
                let s5 = s4\<lparr>MNL_AT_TEST_STATE := AT_INPROGRESS\<rparr>
                in case mtk_start (ae_send e) (agps s5) of
                     MemError \<Rightarrow> (- 1, fault NeverReturns s5)
                   | Hang \<Rightarrow> (- 1, fault NeverReturns s5)
                   | Done err a \<Rightarrow>
                       let s6 = s5\<lparr>agps := a\<rparr>
                       in if err \<noteq> 0
                          then (- 1, s6\<lparr>MNL_AT_TEST_STATE := AT_UNKNOWN, MNL_AT_TEST_FLAG := 0\<rparr>)
                          else (0, gps_state_test_start e s6))"

definition mtk_gps_test_inprogress :: "at_st \<Rightarrow> at_test_state" where
  "mtk_gps_test_inprogress s =
     (if MNL_AT_TEST_STATE s = AT_DONE \<or> MNL_AT_TEST_STATE s = AT_RESULT_DONE then AT_DONE
      else if MNL_AT_TEST_STATE s = AT_INPROGRESS then AT_INPROGRESS else AT_UNKNOWN)"

definition alarm_handler :: "at_env \<Rightarrow> at_st \<Rightarrow> at_st" where
  "alarm_handler e s =
     (if MNL_AT_TEST_STATE s \<noteq> AT_UNKNOWN
      then let s1 = snd (mtk_gps_test_stop e s);
               s2 = s1\<lparr>Err_Code := 32, at_result := (at_result s1)[0 := 32]\<rparr>
           in if test_mode_flag s2 \<noteq> 0 then gps_state_test_sms_airtest_no_result_report e s2 else s2
      else s)"

section \<open>The satellite search\<close>

text \<open>C division truncates; \<open>(int) sqrt(x)\<close> of a non-negative \<open>int\<close> is the integer root.\<close>

definition cdiv :: "int \<Rightarrow> int \<Rightarrow> int" where
  "cdiv a b = sgn a * sgn b * (\<bar>a\<bar> div \<bar>b\<bar>)"

fun isqrt :: "nat \<Rightarrow> nat" where
  "isqrt 0 = 0"
| "isqrt (Suc n) = (let r = isqrt n in if (r + 1) * (r + 1) \<le> Suc n then r + 1 else r)"

definition dev_put :: "int \<Rightarrow> int \<Rightarrow> at_st \<Rightarrow> at_st" where
  "dev_put i v s =
     (case Dev_CNr s of
        DevLive xs \<Rightarrow>
          if 0 \<le> i \<and> nat i < length xs then s\<lparr>Dev_CNr := DevLive (xs[nat i := v])\<rparr>
          else fault (DevTable i) s
      | _ \<Rightarrow> fault DevUnusable s)"

definition dev_get :: "nat \<Rightarrow> at_st \<Rightarrow> int option" where
  "dev_get j s =
     (case Dev_CNr s of DevLive xs \<Rightarrow> if j < length xs then Some (xs ! j) else None | _ \<Rightarrow> None)"

fun dev_sum :: "nat \<Rightarrow> nat \<Rightarrow> at_st \<Rightarrow> at_st" where
  "dev_sum 0 j s = s"
| "dev_sum (Suc k) j s =
     (case dev_get j s of
        None \<Rightarrow> fault (DevTable (int j)) s
      | Some v \<Rightarrow> dev_sum k (j + 1) (s\<lparr>DCNo := c32 (DCNo s + (v - Avg_CNo s) * (v - Avg_CNo s))\<rparr>))"

definition at_deviation :: "at_st \<Rightarrow> at_st" where
  "at_deviation s =
     (if Success_Num s \<noteq> 0
      then let s1 = dev_sum (nat (Success_Num s)) 0 s;
               d = cdiv (DCNo s1) (Success_Num s1);
               s2 = s1\<lparr>DCNo := 0\<rparr>
           in if d < 0 then fault NegativeSqrt s2 else s2\<lparr>Dev_CNo := int (isqrt (nat d))\<rparr>
      else s)"

definition at_match :: "int \<Rightarrow> at_st \<Rightarrow> at_st" where
  "at_match v s =
     (if v \<noteq> 0
      then
        let s1 = (if MNL_AT_SIGNAL_MODE s \<noteq> 0 \<and> MNL_AT_SIGNAL_TEST_BEGIN s = 0
                  then s\<lparr>MNL_AT_TEST_STATE := AT_INPROGRESS\<rparr> else s);
            s2 = (if MNL_AT_SIGNAL_MODE s1 \<noteq> 0 \<and> MNL_AT_SIGNAL_TEST_BEGIN s1 \<noteq> 0
                  then s1\<lparr>MNL_AT_TEST_STATE := AT_RESULT_DONE, sig_suc_num := 1\<rparr> else s1);
            s3 = (if MNL_AT_TEST_FLAG s2 \<noteq> 0
                  then let t1 = s2\<lparr>Err_Code := 0, CNo := c32 (CNo s2 + v * 10)\<rparr>;
                           t2 = dev_put (Success_Num t1) (c32 (v * 10)) t1;
                           t3 = t2\<lparr>Success_Num := c32 (Success_Num t2 + 1)\<rparr>
                       in t3\<lparr>Avg_CNo := cdiv (CNo t3) (Success_Num t3)\<rparr>
                  else s2)
        in s3\<lparr>cn := c32 (v * 10)\<rparr>
      else
        (if MNL_AT_CANCEL_ALARM s = 1 \<and> MNL_AT_TEST_FLAG s = 1
         then s\<lparr>test_num := c32 (test_num s + 1)\<rparr> else s)\<lparr>sig_suc_num := 0\<rparr>)"

text \<open>\<open>k\<close> satellites from index \<open>i\<close>; the loop ends at the first one with the tested number.\<close>

fun search_loop :: "nat \<Rightarrow> nat \<Rightarrow> at_st \<Rightarrow> at_st" where
  "search_loop 0 i s = s"
| "search_loop (Suc k) i s =
     (if length (prn_tab s) \<le> i then fault (PrnTable (int i)) s
      else if prn_tab s ! i = hal_prn_num s then at_deviation (at_match (snr_tab s ! i) s)
      else search_loop k (i + 1) s)"

definition gps_at_command_search_satellite :: "int \<Rightarrow> at_st \<Rightarrow> at_st" where
  "gps_at_command_search_satellite svs s = search_loop (nat svs) 0 s"

definition gps_at_command_test_proc :: "int \<Rightarrow> at_st \<Rightarrow> at_st" where
  "gps_at_command_test_proc svs s =
     (if MNL_AT_TEST_STATE s \<noteq> AT_DONE
      then
        if MNL_AT_SIGNAL_MODE s = 1
        then if MNL_AT_SIGNAL_TEST_BEGIN s \<noteq> 0
             then let s1 = gps_at_command_search_satellite svs s
                  in s1\<lparr>at_result := (at_result s1)[0 := 0, 3 := sig_suc_num s1, 4 := 1,
                                                    5 := cn s1, 6 := 0]\<rparr>
             else s
        else gps_at_command_search_satellite svs s
      else s)"

text \<open>\<open>prn[r->sv_count] = ...; snr[r->sv_count] = ...\<close> of the GSV parser.\<close>

definition at_note :: "int \<Rightarrow> int \<Rightarrow> int \<Rightarrow> at_st \<Rightarrow> at_st" where
  "at_note i p v s =
     (if 0 \<le> i \<and> i < 32 then s\<lparr>prn_tab := (prn_tab s)[nat i := p], snr_tab := (snr_tab s)[nat i := v]\<rparr>
      else fault (PrnTable i) s)"

section \<open>The test part of the sentence parser\<close>

definition MAX_VALID_STATUS_WAIT_COUNT :: int where "MAX_VALID_STATUS_WAIT_COUNT = 20"

text \<open>
  The counters at the end of a burst: whether the test is over, and the state.
  \<open>sms_airtest_no_signal_report\<close> has no effect, its body is commented out.
\<close>

definition at_count :: "at_st \<Rightarrow> bool \<times> at_st" where
  "at_count s =
     (if Success_Num s > 0
      then let s1 = (if prev_success_num s = Success_Num s
                     then s\<lparr>Failure_Num := c32 (Failure_Num s + 1)\<rparr> else s);
               s2 = s1\<lparr>Completed_Num := c32 (Success_Num s1 + Failure_Num s1)\<rparr>
           in (Completed_Num s2 = hal_test_num s2, s2)
      else let s1 = s\<lparr>Wait_Num := c32 (Wait_Num s + 1)\<rparr>
           in if Wait_Num s1 = MAX_VALID_STATUS_WAIT_COUNT
              then (True, s1\<lparr>Err_Code := 32, Completed_Num := 1\<rparr>) else (False, s1))"

definition at_finish :: "at_env \<Rightarrow> at_st \<Rightarrow> at_st" where
  "at_finish e s =
     (let s1 = s\<lparr>at_result := (at_result s)[0 := Err_Code s, 3 := Success_Num s,
                   4 := Completed_Num s, 5 := Avg_CNo s, 6 := Dev_CNo s],
                 Wait_Num := 0, MNL_AT_TEST_STATE := AT_DONE, Err_Code := 1\<rparr>
      in if MNL_AT_TEST_FLAG s1 = 1
         then (snd (mtk_gps_test_stop e s1))\<lparr>Failure_Num := 0, prev_success_num := 0\<rparr>
         else s1)"

text \<open>The result tells whether the sentence is parsed at all.\<close>

definition at_gate :: "at_env \<Rightarrow> bool \<Rightarrow> at_st \<Rightarrow> bool \<times> at_st" where
  "at_gate e end_tag s0 =
     (if MNL_AT_TEST_FLAG s0 = 1 \<or> MNL_AT_SIGNAL_TEST_BEGIN s0 = 1
      then
        let (now, s) = at_time e s0
        in if now - start_time s \<ge> hal_time_delay s
           then if end_tag
                then let (stopped, s1) = at_count s;
                         s2 = s1\<lparr>prev_success_num := Success_Num s1\<rparr>
                     in (True, if stopped then at_finish e s2 else s2)
                else (True, s)
           else (False, s)
      else (True, s0))"

section \<open>Acknowledgements\<close>

definition at_command_send_ack :: "string \<Rightarrow> nat \<Rightarrow> at_st \<Rightarrow> at_st" where
  "at_command_send_ack ack len s = s\<lparr>acks := acks s @ [(ack, len)]\<rparr>"

text \<open>\<open>char buff[] = "..."\<close> sent with its size, and a text printed into an array of \<open>n\<close> bytes.\<close>

definition ack_lit :: "string \<Rightarrow> at_st \<Rightarrow> at_st" where
  "ack_lit t s = at_command_send_ack t (length t + 1) s"

definition ack_buf :: "nat \<Rightarrow> string \<Rightarrow> at_st \<Rightarrow> at_st" where
  "ack_buf n t s =
     at_command_send_ack t n (if n < length t + 1 then fault AckTooLong s else s)"

text \<open>A command is a C string: reading at its end gives the terminator.\<close>

definition cmd_at :: "string \<Rightarrow> nat \<Rightarrow> char" where
  "cmd_at c i = (if i < length c then c ! i else CHR 0x00)"

definition GPS_OP :: string where "GPS_OP = ''AT%GPS''"
definition GNSS_OP :: string where "GNSS_OP = ''AT%GNSS''"

definition is_gnss_op :: "string \<Rightarrow> bool" where
  "is_gnss_op c = (take 7 c = GNSS_OP)"

definition ack_cno :: "string \<Rightarrow> int \<Rightarrow> at_st \<Rightarrow> at_st" where
  "ack_cno c v s =
     (if v = 0 then ack_lit ''0, NA'' s
      else ack_buf 10 (show_int (cdiv v 10) @ (if is_gnss_op c then '', NA'' else [])) s)"

definition at_command_send_cno :: "string \<Rightarrow> at_st \<Rightarrow> at_st" where
  "at_command_send_cno c s =
     (if mtk_gps_test_inprogress s = AT_INPROGRESS then ack_lit ''GNSS Test In Progress'' s
      else if MNL_AT_SIGNAL_MODE s = 1 then ack_cno c (cn s) s else ack_cno c (Avg_CNo s) s)"

fun commas :: "string list \<Rightarrow> string" where
  "commas [] = []"
| "commas [x] = x"
| "commas (x # xs) = x @ '', '' @ commas xs"

definition result_text :: "at_st \<Rightarrow> string" where
  "result_text s =
     ''['' @ commas (map show_int (at_result s)) @ '']'' @ ''[0, 0, 0, 0, 0, 0, 0, 0]''"

definition GPS_AT_ACK_SIZE :: nat where "GPS_AT_ACK_SIZE = 60"

definition at_command_send_test_result :: "at_st \<Rightarrow> at_st" where
  "at_command_send_test_result s =
     (let ret = mtk_gps_test_inprogress s
      in if ret = AT_INPROGRESS then ack_lit ''GNSS Test In Progress'' s
         else if ret = AT_DONE \<or> ret = AT_RESULT_DONE then ack_buf GPS_AT_ACK_SIZE (result_text s) s
         else if at_result s ! 0 \<noteq> 0 then ack_buf GPS_AT_ACK_SIZE (result_text s) s
         else if at_result s ! 5 \<noteq> 0 \<and> \<not> (MNL_AT_SIGNAL_MODE s \<noteq> 0 \<or> MNL_AT_SIGNAL_TEST_BEGIN s \<noteq> 0)
         then ack_buf GPS_AT_ACK_SIZE (result_text s) s
         else ack_lit ''[0, 0, 0, 0, 0, 0, 0, 0][0, 0, 0, 0, 0, 0, 0, 0]'' s)"

section \<open>Numbers of the commands\<close>

text \<open>
  \<open>strtoul(text, pos, 10)\<close> for an \<open>unsigned long\<close> of \<open>bits\<close> bits: the value, and the text that
  \<open>*pos\<close> points to.
\<close>

definition strtoul10 :: "nat \<Rightarrow> string \<Rightarrow> nat \<times> string" where
  "strtoul10 bits t =
     (let u = dropWhile is_space t;
          (neg, w) = (case u of [] \<Rightarrow> (False, [])
                      | c # cs \<Rightarrow> if c = CHR ''-'' then (True, cs)
                                  else if c = CHR ''+'' then (False, cs) else (False, u));
          ds = takeWhile (\<lambda>c. digit_of c \<noteq> None) w
      in if ds = [] then (0, t)
         else
           let v = dec_value 0 ds
           in (if 2 ^ bits \<le> v then 2 ^ bits - 1 else if neg then (2 ^ bits - v) mod 2 ^ bits else v,
               drop (length ds) w))"

definition at_command_parse_test_num :: "at_env \<Rightarrow> string \<Rightarrow> int" where
  "at_command_parse_test_num e c =
     (let (res, rest) = strtoul10 (ae_ulong e) (drop (if is_gnss_op c then 8 else 7) c)
      in if res \<noteq> 0 \<and> rest = [] then c32 (int res) else - 1)"

section \<open>The command parsers\<close>

definition GPS_TEST_PRN :: int where "GPS_TEST_PRN = 1"

text \<open>The start of a test by number, with the texts for success, failure and a bad number.\<close>

definition start_numbered :: "at_env \<Rightarrow> int \<Rightarrow> string \<Rightarrow> string \<Rightarrow> at_st \<Rightarrow> at_st" where
  "start_numbered e n ok bad s =
     (if n \<ge> 0
      then let (ret, s1) = mtk_gps_test_start e n GPS_TEST_PRN 2 0 s
           in if ret = 0 then ack_lit ok s1 else ack_lit bad s1
      else ack_lit ''Invalid Test Num =0'' s)"

definition is_letter :: "string \<Rightarrow> nat \<Rightarrow> string \<Rightarrow> bool" where
  "is_letter c i w = (cmd_at c i \<in> set w \<and> cmd_at c (i + 1) = CHR 0x00)"

definition at_gps_command_parser :: "at_env \<Rightarrow> string \<Rightarrow> at_st \<Rightarrow> at_st" where
  "at_gps_command_parser e c s0 =
     (let s = s0\<lparr>test_mode_flag := 0\<rparr>
      in if cmd_at c 6 = CHR ''=''
         then if is_letter c 7 ''?'' then at_command_send_cno c s
              else if is_letter c 7 ''Ee'' then s
              else if is_letter c 7 ''Dd'' then s
              else start_numbered e (at_command_parse_test_num e c) ''GPS TEST START OK'' ''GPS ERROR'' s
         else if is_letter c 6 ''?''
         then (if mtk_gps_test_inprogress s = AT_INPROGRESS then ack_lit ''GPS Test In Progress'' s
               else if mtk_gps_test_inprogress s = AT_DONE
               then ack_buf GPS_AT_ACK_SIZE (''<'' @ commas (map show_int (at_result s)) @ ''>'') s
               else ack_lit ''ERROR'' s)
         else if cmd_at c 6 = CHR 0x00 then at_command_send_cno c s
         else ack_lit ''GPS ERROR'' s)"

definition gnss_signal_on :: "at_env \<Rightarrow> at_st \<Rightarrow> at_st" where
  "gnss_signal_on e s =
     (let (ret, s1) =
        (if MNL_AT_TEST_FLAG s = 0 then mtk_gps_test_start e 0 1 2 1 s
         else let t = s\<lparr>MNL_AT_SIGNAL_MODE := 1, MNL_AT_TEST_FLAG := 0\<rparr>
              in (0, if MNL_AT_CANCEL_ALARM t = 0
                     then t\<lparr>MNL_AT_CANCEL_ALARM := 0, MNL_AT_SET_ALARM := 0\<rparr> else t))
      in if ret = 0 then ack_lit ''GNSS START START OK'' s1
         else ack_lit ''GNSS START START FAIL'' s1)"

definition gnss_end :: "at_env \<Rightarrow> at_st \<Rightarrow> at_st" where
  "gnss_end e s =
     (if MNL_AT_TEST_STATE s = AT_UNKNOWN then ack_lit ''GNSS Test is Not In Progress'' s
      else let (ret, s1) = mtk_gps_test_stop e s
           in if ret = 0 then ack_lit ''GNSS TEST END OK'' s1 else ack_lit ''GNSS TEST END FAIL'' s1)"

definition gnss_number :: "at_env \<Rightarrow> int \<Rightarrow> at_st \<Rightarrow> at_st" where
  "gnss_number e n s0 =
     (let s = s0\<lparr>at_result := [1, 0, 0, 0, 0, 0, 0, 0], Avg_CNo := 0, Success_Num := 0,
                 Completed_Num := 0, CNo := 0, DCNo := 0, Dev_CNo := 0, cn := 0\<rparr>
      in if MNL_AT_SIGNAL_MODE s = 1
         then if n \<le> 0
              then let s1 = ack_lit ''Invalid Test Num = 0'' s
                   in if MNL_AT_TEST_STATE s1 \<noteq> AT_UNKNOWN then snd (mtk_gps_test_stop e s1) else s1
              else let s1 = ack_lit ''GNSS TEST START OK''
                              (s\<lparr>MNL_AT_SIGNAL_TEST_BEGIN := 1, MNL_AT_TEST_STATE := AT_INPROGRESS\<rparr>);
                       (now, s2) = at_time e s1
                   in s2\<lparr>start_time := now\<rparr>
         else start_numbered e n ''GNSS TEST START OK'' ''GNSS ERROR'' s)"

definition at_gnss_command_parser :: "at_env \<Rightarrow> string \<Rightarrow> at_st \<Rightarrow> at_st" where
  "at_gnss_command_parser e c s0 =
     (let s = s0\<lparr>test_mode_flag := 0\<rparr>
      in if cmd_at c 7 = CHR ''=''
         then if is_letter c 8 ''?'' then at_command_send_test_result s
              else if is_letter c 8 ''Ss'' then gnss_signal_on e s
              else if is_letter c 8 ''Ee'' then gnss_end e s
              else gnss_number e (at_command_parse_test_num e c) s
         else if is_letter c 7 ''?'' then at_command_send_test_result s
         else if cmd_at c 7 = CHR 0x00 then at_command_send_cno c s
         else ack_lit ''GNSS ERROR'' s)"

definition at_command_parser :: "at_env \<Rightarrow> string \<Rightarrow> at_st \<Rightarrow> at_st" where
  "at_command_parser e c s =
     (if take 6 c = GPS_OP then at_gps_command_parser e c s
      else if is_gnss_op c then at_gnss_command_parser e c s
      else ack_lit ''GPS ERROR'' s)"

text \<open>
  One datagram of the AT socket: at most \<open>sizeof(cmd) = 20\<close> bytes are received, the terminator is
  written behind them, and the text before the first zero byte is parsed.
\<close>

definition at_receive :: "at_env \<Rightarrow> string \<Rightarrow> at_st \<Rightarrow> at_st" where
  "at_receive e d s =
     (let cmd = take 20 d;
          s1 = (if length cmd < 20 then s else fault CmdBuffer s)
      in at_command_parser e (takeWhile (\<lambda>c. c \<noteq> CHR 0x00) cmd) s1)"

section \<open>Faults are only added\<close>

definition grows :: "at_st \<Rightarrow> at_st \<Rightarrow> bool" where
  "grows s s' = (\<exists>l. ub s' = ub s @ l)"

lemma grows_refl [simp]: "grows s s"
  by (simp add: grows_def)

lemma grows_trans: "grows s t \<Longrightarrow> grows t u \<Longrightarrow> grows s u"
  by (auto simp: grows_def)

lemma grows_same: "ub s' = ub s \<Longrightarrow> grows s s'"
  by (simp add: grows_def)

lemma grows_fault: "grows s (fault f s)"
  by (simp add: grows_def fault_def)

lemma grows_in: "grows s s' \<Longrightarrow> f \<in> set (ub s) \<Longrightarrow> f \<in> set (ub s')"
  by (auto simp: grows_def)

lemma fault_in [simp]: "f \<in> set (ub (fault f s))"
  by (simp add: fault_def)

lemma grows_dev_sum: "grows s (dev_sum k j s)"
proof (induction k arbitrary: j s)
  case (Suc k)
  show ?case
    by (auto simp: grows_fault split: option.splits
        intro: grows_trans[OF grows_same Suc.IH])
qed simp

lemma grows_deviation: "grows s (at_deviation s)"
  using grows_dev_sum[of s "nat (Success_Num s)" 0]
  by (auto simp: at_deviation_def Let_def grows_def fault_def)

lemma grows_put: "grows s (dev_put i v s)"
  by (auto simp: dev_put_def grows_fault split: dev_block.splits intro: grows_same)

lemma grows_match: "grows s (at_match v s)"
proof -
  have put: "\<exists>l. ub (dev_put i w u) = ub s @ l" if "ub u = ub s" for i w u
    using grows_put[of u i w] that by (auto simp: grows_def)
  show ?thesis
    unfolding at_match_def Let_def grows_def by (auto intro: put)
qed

lemma grows_search: "grows s (search_loop k i s)"
  by (induction k arbitrary: i)
    (auto simp: grows_fault intro: grows_trans[OF grows_match grows_deviation])

lemma grows_test_proc: "grows s (gps_at_command_test_proc svs s)"
  by (auto simp: gps_at_command_test_proc_def gps_at_command_search_satellite_def Let_def grows_search
      intro: grows_trans[OF grows_search grows_same])

section \<open>What the commands leave alone\<close>

lemma cmd_frame [simp]:
  "acks (gps_state_cmd e c s) = acks s" "Dev_CNr (gps_state_cmd e c s) = Dev_CNr s"
  "ub (gps_state_cmd e c s) = ub s \<or> ub (gps_state_cmd e c s) = ub s @ [NeverReturns]"
  by (auto simp: gps_state_cmd_def fault_def split: option.splits send_res.splits prod.splits)

lemma free_dev_acks [simp]: "acks (free_dev s) = acks s"
  by (simp add: free_dev_def fault_def split: dev_block.split)

lemma test_stop_acks [simp]: "acks (snd (mtk_gps_test_stop e s)) = acks s"
  by (simp add: mtk_gps_test_stop_def gps_state_test_stop_def Let_def fault_def split: outcome.split)

lemma alloc_dev_acks [simp]: "acks (alloc_dev n s) = acks s"
  by (simp add: alloc_dev_def fault_def)

lemma test_start_acks [simp]: "acks (snd (mtk_gps_test_start e n p d m s)) = acks s"
  by (simp add: mtk_gps_test_start_def gps_state_test_start_def at_time_def Let_def fault_def
      split: outcome.split)

lemma at_time_acks [simp]: "acks (snd (at_time e s)) = acks s"
  by (simp add: at_time_def)

text \<open>Exactly one acknowledgement more.\<close>

definition one_ack :: "at_st \<Rightarrow> at_st \<Rightarrow> bool" where
  "one_ack s s' = (\<exists>t n. acks s' = acks s @ [(t, n)])"

lemma one_ack_lit: "acks u = acks s \<Longrightarrow> one_ack s (ack_lit t u)"
  by (simp add: one_ack_def ack_lit_def at_command_send_ack_def)

lemma one_ack_buf: "acks u = acks s \<Longrightarrow> one_ack s (ack_buf n t u)"
  by (simp add: one_ack_def ack_buf_def at_command_send_ack_def fault_def)

lemmas one_acks = one_ack_lit one_ack_buf

lemma one_ack_cno: "acks u = acks s \<Longrightarrow> one_ack s (at_command_send_cno c u)"
  by (simp add: at_command_send_cno_def ack_cno_def one_acks)

lemma one_ack_result: "acks u = acks s \<Longrightarrow> one_ack s (at_command_send_test_result u)"
  by (simp add: at_command_send_test_result_def Let_def one_acks)

lemma one_ack_start:
  assumes "acks u = acks s"
  shows "one_ack s (start_numbered e n ok bad u)"
proof -
  obtain r v where v: "mtk_gps_test_start e n GPS_TEST_PRN 2 0 u = (r, v)" by fastforce
  then have "acks v = acks s" using test_start_acks[of e n GPS_TEST_PRN 2 0 u] assms by simp
  then show ?thesis using assms by (simp add: start_numbered_def v one_acks)
qed

lemma one_ack_signal_on:
  assumes "acks u = acks s"
  shows "one_ack s (gnss_signal_on e u)"
proof -
  obtain r v where v: "mtk_gps_test_start e 0 1 2 1 u = (r, v)" by fastforce
  then have "acks v = acks s" using test_start_acks[of e 0 1 2 1 u] assms by simp
  then show ?thesis using assms by (simp add: gnss_signal_on_def v one_acks Let_def)
qed

lemma one_ack_end:
  assumes "acks u = acks s"
  shows "one_ack s (gnss_end e u)"
proof -
  obtain r v where v: "mtk_gps_test_stop e u = (r, v)" by fastforce
  then have "acks v = acks s" using test_stop_acks[of e u] assms by simp
  then show ?thesis using assms by (simp add: gnss_end_def v one_acks)
qed

lemma one_ack_cong: "acks t = acks t' \<Longrightarrow> one_ack s t' \<Longrightarrow> one_ack s t"
  by (simp add: one_ack_def)

lemma one_ack_number:
  assumes "acks u = acks s"
  shows "one_ack s (gnss_number e n u)"
  unfolding gnss_number_def Let_def
  using assms
  by (auto simp: at_time_def intro!: one_ack_start one_ack_lit
      intro: one_ack_cong[OF test_stop_acks one_ack_lit] one_ack_cong[OF _ one_ack_lit])

section \<open>Integer square root\<close>

lemma isqrt_bounds: "isqrt n * isqrt n \<le> n \<and> n < (isqrt n + 1) * (isqrt n + 1)"
proof (induction n)
  case (Suc n)
  then show ?case by (cases "(isqrt n + 1) * (isqrt n + 1) \<le> Suc n") (auto simp: Let_def algebra_simps)
qed simp

lemma strtoul10_show:
  assumes "n < 2 ^ bits"
  shows "strtoul10 bits (show_nat n) = (n, [])"
proof -
  obtain c cs where n: "show_nat n = c # cs" and c: "\<not> is_space c" "c \<noteq> CHR ''-''" "c \<noteq> CHR ''+''"
    using show_nat_plain by blast
  let ?t = "show_nat n"
  have d: "dropWhile is_space ?t = ?t" using n c(1) by simp
  have h: "(case ?t of [] \<Rightarrow> (False, [])
      | c # cs \<Rightarrow> if c = CHR ''-'' then (True, cs) else if c = CHR ''+'' then (False, cs)
                  else (False, ?t)) = (False, ?t)"
    using n c(2,3) by simp
  have t: "takeWhile (\<lambda>c. digit_of c \<noteq> None) ?t = ?t"
    using show_nat_digits[of n] by (simp only: takeWhile_eq_all_conv)
  have ne: "?t \<noteq> []" using n by simp
  show ?thesis
    unfolding strtoul10_def Let_def d h prod.case t dec_value_show if_not_P[OF ne]
    using assms by simp
qed

section \<open>A concrete world\<close>

definition at_env0 :: at_env where
  "at_env0 = \<lparr>ae_send = (\<lambda>_. SOk), ae_ctl = (\<lambda>_. SOk), ae_clock = (\<lambda>k. int k), ae_init = True, ae_ulong = 64\<rparr>"

definition at0 :: at_st where
  "at0 = at_init agps0"

section \<open>Properties\<close>

text \<open>
  C27: Every AT command is answered by exactly one acknowledgement, except \<open>AT%GPS=E\<close> and
  \<open>AT%GPS=D\<close>, which are not answered at all.
\<close>

theorem at_command_one_ack:
  "if take 6 c = GPS_OP \<and> cmd_at c 6 = CHR ''='' \<and> is_letter c 7 ''EeDd''
   then acks (at_command_parser e c s) = acks s
   else \<exists>t n. acks (at_command_parser e c s) = acks s @ [(t, n)]"
proof -
  have gnss: "one_ack s (at_gnss_command_parser e c s)"
    unfolding at_gnss_command_parser_def Let_def
    by (auto intro!: one_ack_result one_ack_signal_on one_ack_end one_ack_number one_ack_cno one_acks)
  have gps: "one_ack s (at_gps_command_parser e c s)"
    if "\<not> (cmd_at c 6 = CHR ''='' \<and> is_letter c 7 ''EeDd'')"
    using that unfolding at_gps_command_parser_def Let_def
    by (auto simp: is_letter_def intro!: one_ack_start one_ack_cno one_acks)
  have silent: "acks (at_gps_command_parser e c s) = acks s"
    if "cmd_at c 6 = CHR ''=''" "is_letter c 7 ''EeDd''"
    using that unfolding at_gps_command_parser_def Let_def by (auto simp: is_letter_def)
  show ?thesis
  proof (cases "take 6 c = GPS_OP")
    case True
    then show ?thesis using gps silent by (auto simp: at_command_parser_def one_ack_def)
  next
    case False
    then show ?thesis using gnss one_ack_lit[of s s] by (auto simp: at_command_parser_def one_ack_def)
  qed
qed

theorem at_command_one_ack_witness:
  "\<exists>t n. acks (at_command_parser at_env0 ''AT%GNSS=?'' at0) = [(t, n)]"
  using at_command_one_ack[of "''AT%GNSS=?''" at_env0 at0] by (simp add: GPS_OP_def at0_def at_init_def)

text \<open>
  The decimal text of a positive C integer behind \<open>AT%GPS=\<close> or \<open>AT%GNSS=\<close> is the number of the
  test; zero is refused.
\<close>

theorem parse_test_num_decimal:
  assumes "int n < 2 ^ 31" "31 \<le> ae_ulong e"
  shows "at_command_parse_test_num e (GPS_OP @ ''='' @ show_nat n) = (if n = 0 then - 1 else int n)
    \<and> at_command_parse_test_num e (GNSS_OP @ ''='' @ show_nat n) = (if n = 0 then - 1 else int n)"
proof -
  have "n < 2 ^ 31" using assms(1) by (simp add: nat_less_iff[symmetric])
  also have "(2::nat) ^ 31 \<le> 2 ^ ae_ulong e" using assms(2) by (intro power_increasing) simp_all
  finally have n: "strtoul10 (ae_ulong e) (show_nat n) = (n, [])" by (rule strtoul10_show)
  have "is_c32 (int n)" using assms(1) by (simp add: is_c32_def)
  then have c: "c32 (int n) = int n" by (rule c32_id)
  have "\<not> is_gnss_op (GPS_OP @ ''='' @ show_nat n)" "is_gnss_op (GNSS_OP @ ''='' @ show_nat n)"
    by (simp_all add: is_gnss_op_def GPS_OP_def GNSS_OP_def)
  then show ?thesis
    using n c by (simp add: at_command_parse_test_num_def GPS_OP_def GNSS_OP_def Let_def)
qed

theorem parse_test_num_decimal_witness:
  "at_command_parse_test_num at_env0 (GPS_OP @ ''='' @ show_nat 12) = 12"
  using parse_test_num_decimal[of 12 at_env0] by (simp add: at_env0_def)

text \<open>
  The counters of a running test are compared with the requested number by equality only: once
  more satellites were counted than requested, no end of a burst ends the test, and the counters
  stay above.
\<close>

theorem overshoot_never_stops:
  assumes "0 < Success_Num s" "hal_test_num s < Success_Num s + Failure_Num s"
    and "Success_Num s + Failure_Num s < 2 ^ 31 - 1" "0 \<le> Failure_Num s"
  shows "\<not> fst (at_count s) \<and> hal_test_num (snd (at_count s)) = hal_test_num s
    \<and> hal_test_num s < Success_Num (snd (at_count s)) + Failure_Num (snd (at_count s))
    \<and> MNL_AT_TEST_STATE (snd (at_count s)) = MNL_AT_TEST_STATE s"
proof -
  have "c32 (Failure_Num s + 1) = Failure_Num s + 1" "c32 (Success_Num s + Failure_Num s) = Success_Num s + Failure_Num s"
    "c32 (Success_Num s + (Failure_Num s + 1)) = Success_Num s + (Failure_Num s + 1)"
    using assms by (auto simp: is_c32_def intro!: c32_id)
  then show ?thesis using assms by (simp add: at_count_def Let_def)
qed

theorem overshoot_never_stops_witness:
  "\<not> fst (at_count (at0\<lparr>hal_test_num := 1, Success_Num := 2\<rparr>))"
  using overshoot_never_stops[of "at0\<lparr>hal_test_num := 1, Success_Num := 2\<rparr>"]
  by (simp add: at0_def at_init_def)

text \<open>
  Stopping a test twice frees the block of measurements twice: the first stop frees it and
  leaves the pointer, and a second one that gets as far frees it again.
\<close>

theorem test_stop_twice_double_free:
  assumes "mtk_gps_test_stop e s = (0, t)" "Dev_CNr s \<noteq> DevNull" "mtk_gps_test_stop e t = (0, u)"
  shows "DoubleFree \<in> set (ub u)"
proof -
  have freed: "Dev_CNr t = DevFreed"
    using assms(1,2)
    by (auto simp: mtk_gps_test_stop_def gps_state_test_stop_def free_dev_def fault_def Let_def
        split: if_splits outcome.splits dev_block.splits)
  show ?thesis
    using assms(3) freed
    by (auto simp: mtk_gps_test_stop_def gps_state_test_stop_def free_dev_def Let_def
        split: if_splits outcome.splits)
qed

lemma send_ok [simp]: "send_loop (\<lambda>_. SOk) k n = Some (k + 1, SOk)"
  by (subst send_loop.simps) simp

theorem test_stop_twice_double_free_witness:
  "DoubleFree \<in> set (ub (snd (mtk_gps_test_stop at_env0 (snd (mtk_gps_test_stop at_env0
     (at0\<lparr>Dev_CNr := DevLive [0]\<rparr>))))))"
proof -
  have ok: "fst (mtk_gps_test_stop at_env0 x) = 0" for x
    by (simp add: mtk_gps_test_stop_def at_env0_def mtk_stop_def mtk_daemon_send_def Let_def)
  let ?s = "at0\<lparr>Dev_CNr := DevLive [0]\<rparr>"
  let ?t = "snd (mtk_gps_test_stop at_env0 ?s)"
  show ?thesis
    by (rule test_stop_twice_double_free[of at_env0 ?s ?t]) (simp_all add: ok prod_eq_iff)
qed

lemma search_finds:
  assumes "j < k" "i + j < length (prn_tab s)" "prn_tab s ! (i + j) = hal_prn_num s"
    and "\<forall>m < j. prn_tab s ! (i + m) \<noteq> hal_prn_num s"
  shows "search_loop k i s = at_deviation (at_match (snr_tab s ! (i + j)) s)"
  using assms
proof (induction k arbitrary: i j)
  case (Suc k)
  show ?case
  proof (cases j)
    case 0
    then show ?thesis using Suc.prems by simp
  next
    case (Suc j')
    have "prn_tab s ! i \<noteq> hal_prn_num s" using Suc.prems(4) \<open>j = Suc j'\<close> by force
    moreover have "search_loop k (i + 1) s = at_deviation (at_match (snr_tab s ! (i + 1 + j')) s)"
    proof (rule Suc.IH)
      show "\<forall>m < j'. prn_tab s ! (i + 1 + m) \<noteq> hal_prn_num s"
        using Suc.prems(4) \<open>j = Suc j'\<close> by (metis Suc_less_eq add_Suc_shift plus_1_eq_Suc add.assoc)
    qed (use Suc.prems \<open>j = Suc j'\<close> in simp_all)
    ultimately show ?thesis using Suc.prems(2) \<open>j = Suc j'\<close> by simp
  qed
qed simp

text \<open>
  In a running test whose block of measurements is already full, the next complete set of
  satellites that shows the tested one with a signal writes behind the block.
\<close>

theorem dev_block_overflow:
  assumes "MNL_AT_TEST_FLAG s \<noteq> 0" "MNL_AT_SIGNAL_MODE s = 0" "MNL_AT_TEST_STATE s \<noteq> AT_DONE"
    and "Dev_CNr s = DevLive xs" "int (length xs) \<le> Success_Num s"
    and "int j < svs" "j < length (prn_tab s)" "prn_tab s ! j = hal_prn_num s"
    and "\<forall>m < j. prn_tab s ! m \<noteq> hal_prn_num s" "snr_tab s ! j \<noteq> 0"
  shows "DevTable (Success_Num s) \<in> set (ub (gps_at_command_test_proc svs s))"
proof -
  let ?v = "snr_tab s ! j"
  have "gps_at_command_test_proc svs s = search_loop (nat svs) 0 s"
    using assms(2,3) by (simp add: gps_at_command_test_proc_def gps_at_command_search_satellite_def)
  also have "\<dots> = at_deviation (at_match ?v s)"
    using search_finds[of j "nat svs" 0 s] assms(6-9) by (simp add: zless_nat_eq_int_zless)
  finally have p: "gps_at_command_test_proc svs s = at_deviation (at_match ?v s)" .
  have "\<not> nat (Success_Num s) < length xs" using assms(5) by linarith
  then have "DevTable (Success_Num s) \<in> set (ub (at_match ?v s))"
    using assms(1,2,4,5,10) by (simp add: at_match_def dev_put_def fault_def Let_def)
  then show ?thesis unfolding p by (rule grows_in[OF grows_deviation])
qed

theorem dev_block_overflow_witness:
  "DevTable 1 \<in> set (ub (gps_at_command_test_proc 1
     (at0\<lparr>MNL_AT_TEST_FLAG := 1, MNL_AT_TEST_STATE := AT_INPROGRESS, hal_test_num := 1, hal_prn_num := 1,
          Dev_CNr := DevLive [450], Success_Num := 1,
          prn_tab := 1 # replicate 31 0, snr_tab := 45 # replicate 31 0\<rparr>)))"
  using dev_block_overflow[of "at0\<lparr>MNL_AT_TEST_FLAG := 1, MNL_AT_TEST_STATE := AT_INPROGRESS,
      hal_test_num := 1, hal_prn_num := 1, Dev_CNr := DevLive [450], Success_Num := 1,
      prn_tab := 1 # replicate 31 0, snr_tab := 45 # replicate 31 0\<rparr>" "[450]" 0 1]
  by (simp add: at0_def at_init_def)

end
