(* ===== verification/Gps_Nmea.thy ===== *)
theory Gps_Nmea
  imports Gps_At
begin

text \<open>
  The NMEA reader of \<open>src/hal/gps/hal/gps_mtk_aosp.c\<close>: the tokenizer over the 129-byte line
  buffer, the number conversions, the update functions, the sentence parser with its satellite
  tables, and the character-by-character reader \<open>nmea_reader_addc\<close>.  The AT test state of
  \<open>Gps_At\<close> is a component of the reader's state.
  Floating point is a parameter: a record of the C operations the code uses over an abstract type.
  Time conversion (\<open>mktime\<close>, \<open>gmtime_r\<close>, the zone) is a parameter as well, and so are
  \<open>GPS_MAX_SVS\<close> and \<open>GNSS_MAX_SVS\<close> of \<open>hardware/gps.h\<close>.
\<close>

section \<open>Tokens\<close>

text \<open>A token is a pair of offsets into the line buffer, or the static empty string.\<close>

datatype token = Tok nat nat | Dummy

definition MAX_NMEA_TOKENS :: nat where "MAX_NMEA_TOKENS = 24"

definition NMEA_MAX_SIZE :: nat where "NMEA_MAX_SIZE = 128"

definition span :: "string \<Rightarrow> nat \<Rightarrow> nat \<Rightarrow> string" where
  "span s p e = take (e - p) (drop p s)"

definition memchr_comma :: "string \<Rightarrow> nat \<Rightarrow> nat \<Rightarrow> nat" where
  "memchr_comma s p e = p + length (takeWhile (\<lambda>c. c \<noteq> CHR '','') (span s p e))"

lemma memchr_comma_le: "p \<le> memchr_comma s p e"
  by (simp add: memchr_comma_def)

function tok_loop :: "string \<Rightarrow> nat \<Rightarrow> nat \<Rightarrow> (nat \<times> nat) list \<Rightarrow> (nat \<times> nat) list" where
  "tok_loop s p e acc =
     (if p < e
      then let q = memchr_comma s p e;
               acc' = (if length acc < MAX_NMEA_TOKENS then acc @ [(p, q)] else acc)
           in tok_loop s (if q < e then q + 1 else e) e acc'
      else acc)"
  by pat_completeness auto
termination
  by (relation "measure (\<lambda>(_, p, e, _). e - p)")
    (auto simp: less_Suc_eq_le memchr_comma_le intro!: diff_less_mono2)

declare tok_loop.simps [simp del]

text \<open>The part of the line that is tokenized: without \<open>$\<close>, line end and checksum.\<close>

definition tok_start :: "string \<Rightarrow> nat \<Rightarrow> nat \<Rightarrow> nat" where
  "tok_start s p e = (if p < e \<and> s ! p = CHR ''$'' then p + 1 else p)"

definition tok_end :: "string \<Rightarrow> nat \<Rightarrow> nat \<Rightarrow> nat" where
  "tok_end s p e =
     (let e1 = (if p < e \<and> s ! (e - 1) = CHR 0x0A
                then (if p < e - 1 \<and> s ! (e - 2) = CHR 0x0D then e - 2 else e - 1)
                else e)
      in if p + 3 \<le> e1 \<and> s ! (e1 - 3) = CHR ''*'' then e1 - 3 else e1)"

definition nmea_tokenizer_init :: "string \<Rightarrow> nat \<Rightarrow> nat \<Rightarrow> (nat \<times> nat) list" where
  "nmea_tokenizer_init s p e =
     (let p1 = tok_start s p e; e1 = tok_end s p1 e in tok_loop s p1 e1 [])"

definition nmea_tokenizer_get :: "(nat \<times> nat) list \<Rightarrow> int \<Rightarrow> token" where
  "nmea_tokenizer_get t index =
     (if index < 0 \<or> index \<ge> int (length t) then Dummy
      else (case t ! nat index of (p, e) \<Rightarrow> Tok p e))"

fun tok_text :: "string \<Rightarrow> token \<Rightarrow> string" where
  "tok_text s (Tok p e) = span s p e"
| "tok_text s Dummy = []"

fun tok_len :: "token \<Rightarrow> nat" where
  "tok_len (Tok p e) = e - p"
| "tok_len Dummy = 0"

fun tok_char :: "string \<Rightarrow> token \<Rightarrow> char" where
  "tok_char s (Tok p e) = s ! p"
| "tok_char s Dummy = CHR 0x00"

section \<open>Numbers\<close>

fun dig_loop :: "int \<Rightarrow> string \<Rightarrow> int option" where
  "dig_loop result [] = Some result"
| "dig_loop result (c # cs) =
     (case digit_of c of None \<Rightarrow> None | Some d \<Rightarrow> dig_loop (c32 (result * 10 + d)) cs)"

definition str2int :: "string \<Rightarrow> int" where
  "str2int txt =
     (let (sign, ds) = (case txt of [] \<Rightarrow> (1, []) | c # cs \<Rightarrow> if c = CHR ''-'' then (- 1, cs) else (1, txt))
      in case dig_loop 0 ds of None \<Rightarrow> - 1 | Some r \<Rightarrow> c32 (sign * r))"

record 'd flops =
  fl_strtod :: "string \<Rightarrow> 'd"
  fl_neg :: "'d \<Rightarrow> 'd"
  fl_add :: "'d \<Rightarrow> 'd \<Rightarrow> 'd"
  fl_sub :: "'d \<Rightarrow> 'd \<Rightarrow> 'd"
  fl_mul :: "'d \<Rightarrow> 'd \<Rightarrow> 'd"
  fl_div :: "'d \<Rightarrow> 'd \<Rightarrow> 'd"
  fl_floor :: "'d \<Rightarrow> 'd"
  fl_to_int :: "'d \<Rightarrow> int"
  fl_of_int :: "int \<Rightarrow> 'd"
  fl_narrow :: "'d \<Rightarrow> 'd"

definition str2float :: "'d flops \<Rightarrow> string \<Rightarrow> 'd" where
  "str2float fl txt = (if 16 \<le> length txt then fl_of_int fl 0 else fl_strtod fl txt)"

text \<open>Degrees and minutes; decimal literals of the source are what \<open>strtod\<close> makes of them.\<close>

definition convert_from_hhmm :: "'d flops \<Rightarrow> string \<Rightarrow> 'd" where
  "convert_from_hhmm fl txt =
     (let val = str2float fl txt;
          degrees = fl_to_int fl (fl_div fl (fl_floor fl val) (fl_of_int fl 100));
          minutes = fl_sub fl val (fl_mul fl (fl_of_int fl degrees) (fl_of_int fl 100))
      in fl_add fl (fl_of_int fl degrees) (fl_div fl minutes (fl_of_int fl 60)))"

section \<open>State\<close>

datatype loc_flag = HAS_LAT_LONG | HAS_ALTITUDE | HAS_SPEED | HAS_BEARING | HAS_ACCURACY

record 'd gps_fix =
  fx_flags :: "loc_flag set"
  fx_lat :: 'd
  fx_lon :: 'd
  fx_alt :: 'd
  fx_speed :: 'd
  fx_bearing :: 'd
  fx_accuracy :: 'd
  fx_time :: int

datatype constellation = C_GPS | C_GLONASS | C_BEIDOU

record 'd sv =
  sv_id :: int
  sv_snr :: 'd
  sv_ele :: int
  sv_azi :: int
  sv_const :: constellation
  sv_used :: bool

datatype 'd gps_ev =
    LocationCb "'d gps_fix"
  | NlpUpdate "'d gps_fix"
  | LogWrite 'd 'd
  | GnssCb "'d sv list" int
  | SvCb "'d sv list" int "32 word"
  | NmeaCb int string

text \<open>The reader, and the globals of the file that the parser reads and writes.\<close>

record 'd reader =
  rpos :: nat
  roverflow :: bool
  utc_year :: int
  utc_mon :: int
  utc_day :: int
  rfix :: "'d gps_fix"
  fix_mode :: int
  sv_count :: int
  gps_list :: "'d sv list"
  gps_num :: int
  gps_mask :: "32 word"
  gnss_list :: "'d sv list"
  gnss_num :: int
  rin :: string
  used_in_fix :: "bool list"
  atst :: at_st
  gevents :: "'d gps_ev list"

text \<open>
  The parameters of a run: float and time conversion, the constants of \<open>gps.h\<close>, the mode
  (\<open>gps_mode\<close>), the end-of-burst flag, the debug property, whether the build defines
  \<open>GPS_AT_COMMAND\<close>, and the world of the AT test mode.
\<close>

record 'd genv =
  flop :: "'d flops"
  now_ymd :: "int \<times> int \<times> int"
  mk_time :: "int \<Rightarrow> int \<Rightarrow> int \<Rightarrow> int \<Rightarrow> int \<Rightarrow> int \<Rightarrow> int"
  GPS_MAX_SVS :: int
  GNSS_MAX_SVS :: int
  gps_mode :: int
  end_tag :: bool
  prop_set :: bool
  gps_at :: bool
  ae :: at_env

definition gemit :: "'d gps_ev \<Rightarrow> 'd reader \<Rightarrow> 'd reader" where
  "gemit e r = r\<lparr>gevents := gevents r @ [e]\<rparr>"

definition nmea_reader_init :: "'d genv \<Rightarrow> at_st \<Rightarrow> 'd reader" where
  "nmea_reader_init g a =
     (let z = fl_of_int (flop g) 0;
          sv0 = \<lparr>sv_id = 0, sv_snr = z, sv_ele = 0, sv_azi = 0, sv_const = C_GPS, sv_used = False\<rparr>
      in \<lparr>rpos = 0, roverflow = False, utc_year = - 1, utc_mon = - 1, utc_day = - 1,
          rfix = \<lparr>fx_flags = {}, fx_lat = z, fx_lon = z, fx_alt = z, fx_speed = z, fx_bearing = z,
                  fx_accuracy = z, fx_time = 0\<rparr>,
          fix_mode = 0, sv_count = 0,
          gps_list = replicate (nat (GPS_MAX_SVS g)) sv0, gps_num = 0, gps_mask = 0,
          gnss_list = replicate (nat (GNSS_MAX_SVS g)) sv0, gnss_num = 0,
          rin = replicate 129 (CHR 0x00), used_in_fix = replicate 256 False,
          atst = a, gevents = []\<rparr>)"

text \<open>\<open>nmea_reader_set_callback\<close>: \<open>cbs\<close> tells whether callbacks are given.\<close>

definition nmea_reader_set_callback :: "bool \<Rightarrow> 'd reader \<Rightarrow> 'd reader" where
  "nmea_reader_set_callback cbs r =
     (if cbs \<and> MNL_AT_TEST_FLAG (atst r) = 0
      then r\<lparr>rfix := (rfix r)\<lparr>fx_flags := {}\<rparr>, sv_count := 0, gps_num := 0, gnss_num := 0\<rparr>
      else r)"

section \<open>Update functions\<close>

definition nmea_reader_update_time :: "'d genv \<Rightarrow> token \<Rightarrow> 'd reader \<Rightarrow> int \<times> 'd reader" where
  "nmea_reader_update_time g tok r =
     (if tok_len tok < 6 then (- 1, r)
      else
        let r1 = (if utc_year r < 0
                  then (case now_ymd g of (y, m, d) \<Rightarrow> r\<lparr>utc_year := y, utc_mon := m, utc_day := d\<rparr>)
                  else r);
            txt = tok_text (rin r) tok;
            hour = str2int (take 2 txt);
            minute = str2int (take 2 (drop 2 txt));
            seconds = fl_to_int (flop g) (str2float (flop g) (drop 4 txt));
            fix_time = mk_time g (utc_year r1) (utc_mon r1) (utc_day r1) hour minute seconds
        in (0, r1\<lparr>rfix := (rfix r1)\<lparr>fx_time := fix_time * 1000\<rparr>\<rparr>))"

definition nmea_reader_update_date :: "'d genv \<Rightarrow> token \<Rightarrow> token \<Rightarrow> 'd reader \<Rightarrow> int \<times> 'd reader" where
  "nmea_reader_update_date g date time r =
     (if tok_len date \<noteq> 6 then (- 1, r)
      else
        let txt = tok_text (rin r) date;
            day = str2int (take 2 txt);
            mon = str2int (take 2 (drop 2 txt));
            year = str2int (take 2 (drop 4 txt)) + 2000
        in if day < 0 \<or> mon < 0 \<or> year < 0 then (- 1, r)
           else nmea_reader_update_time g time (r\<lparr>utc_year := year, utc_mon := mon, utc_day := day\<rparr>))"

definition add_flag :: "loc_flag \<Rightarrow> 'd gps_fix \<Rightarrow> 'd gps_fix" where
  "add_flag f x = x\<lparr>fx_flags := insert f (fx_flags x)\<rparr>"

definition nmea_reader_update_latlong ::
    "'d genv \<Rightarrow> token \<Rightarrow> char \<Rightarrow> token \<Rightarrow> char \<Rightarrow> 'd reader \<Rightarrow> int \<times> 'd reader" where
  "nmea_reader_update_latlong g latitude latitudeHemi longitude longitudeHemi r =
     (if tok_len latitude < 6 then (- 1, r)
      else
        let la = convert_from_hhmm (flop g) (tok_text (rin r) latitude);
            lat = (if latitudeHemi = CHR ''S'' then fl_neg (flop g) la else la)
        in if tok_len longitude < 6 then (- 1, r)
           else
             let lo = convert_from_hhmm (flop g) (tok_text (rin r) longitude);
                 lon = (if longitudeHemi = CHR ''W'' then fl_neg (flop g) lo else lo)
             in (0, r\<lparr>rfix := (add_flag HAS_LAT_LONG (rfix r))\<lparr>fx_lat := lat, fx_lon := lon\<rparr>\<rparr>))"

definition nmea_reader_update_altitude :: "'d genv \<Rightarrow> token \<Rightarrow> 'd reader \<Rightarrow> int \<times> 'd reader" where
  "nmea_reader_update_altitude g tok r =
     (if tok_len tok = 0 then (- 1, r)
      else (0, r\<lparr>rfix := (add_flag HAS_ALTITUDE (rfix r))
                  \<lparr>fx_alt := str2float (flop g) (tok_text (rin r) tok)\<rparr>\<rparr>))"

definition nmea_reader_update_bearing :: "'d genv \<Rightarrow> token \<Rightarrow> 'd reader \<Rightarrow> int \<times> 'd reader" where
  "nmea_reader_update_bearing g tok r =
     (if tok_len tok = 0 then (- 1, r)
      else (0, r\<lparr>rfix := (add_flag HAS_BEARING (rfix r))
                  \<lparr>fx_bearing := fl_narrow (flop g) (str2float (flop g) (tok_text (rin r) tok))\<rparr>\<rparr>))"

definition nmea_reader_update_speed :: "'d genv \<Rightarrow> token \<Rightarrow> 'd reader \<Rightarrow> int \<times> 'd reader" where
  "nmea_reader_update_speed g tok r =
     (if tok_len tok = 0 then (- 1, r)
      else (0, r\<lparr>rfix := (add_flag HAS_SPEED (rfix r))
                  \<lparr>fx_speed := fl_narrow (flop g)
                      (fl_div (flop g) (str2float (flop g) (tok_text (rin r) tok))
                         (fl_strtod (flop g) ''1.942795467''))\<rparr>\<rparr>))"

definition nmea_reader_update_accuracy :: "'d genv \<Rightarrow> token \<Rightarrow> 'd reader \<Rightarrow> int \<times> 'd reader" where
  "nmea_reader_update_accuracy g tok r =
     (if tok_len tok = 0 then (- 1, r)
      else (0, r\<lparr>rfix := (add_flag HAS_ACCURACY (rfix r))
                  \<lparr>fx_accuracy := fl_narrow (flop g) (str2float (flop g) (tok_text (rin r) tok))\<rparr>\<rparr>))"

section \<open>Satellite tables\<close>

definition nmea_reader_update_sv_status_gps ::
    "'d genv \<Rightarrow> int \<Rightarrow> token \<Rightarrow> token \<Rightarrow> token \<Rightarrow> 'd reader \<Rightarrow> 'd reader" where
  "nmea_reader_update_sv_status_gps g prn elevation azimuth snr r =
     (if prn \<le> 0 \<or> (prn < 65 \<and> prn > GPS_MAX_SVS g) \<or> prn > 96 \<or> sv_count r \<ge> GPS_MAX_SVS g then r
      else
        let i = sv_count r + gps_num r
        in if GPS_MAX_SVS g \<le> i then r
           else
             let x = (gps_list r ! nat i)
                   \<lparr>sv_id := prn,
                     sv_snr := fl_narrow (flop g) (str2float (flop g) (tok_text (rin r) snr)),
                     sv_ele := str2int (tok_text (rin r) elevation),
                     sv_azi := str2int (tok_text (rin r) azimuth)\<rparr>
             in r\<lparr>gps_list := (gps_list r)[nat i := x], sv_count := sv_count r + 1\<rparr>)"

definition nmea_reader_update_sv_status_gnss ::
    "'d genv \<Rightarrow> int \<Rightarrow> token \<Rightarrow> token \<Rightarrow> token \<Rightarrow> 'd reader \<Rightarrow> 'd reader" where
  "nmea_reader_update_sv_status_gnss g prn elevation azimuth snr r =
     (if prn \<le> 0 \<or> (prn < 65 \<and> prn > GPS_MAX_SVS g) \<or> (prn > 96 \<and> prn < 200) \<or> prn > 232
         \<or> sv_count r \<ge> GNSS_MAX_SVS g then r
      else
        let i = sv_count r + gnss_num r
        in if GNSS_MAX_SVS g \<le> i then r
           else
             let ct = (if prn < 33 then C_GPS else if prn > 200 then C_BEIDOU else C_GLONASS);
                 x = \<lparr>sv_id = prn,
                      sv_snr = fl_narrow (flop g) (str2float (flop g) (tok_text (rin r) snr)),
                      sv_ele = str2int (tok_text (rin r) elevation),
                      sv_azi = str2int (tok_text (rin r) azimuth),
                      sv_const = ct, sv_used = used_in_fix r ! nat prn\<rparr>
             in r\<lparr>gnss_list := (gnss_list r)[nat i := x], sv_count := sv_count r + 1\<rparr>)"

section \<open>The sentences\<close>

text \<open>\<open>memcmp\<close> of \<open>n\<close> characters at an offset of the line buffer.\<close>

definition at_is :: "string \<Rightarrow> nat \<Rightarrow> string \<Rightarrow> bool" where
  "at_is s p w = (take (length w) (drop p s) = w)"

definition LOC_FIXED :: "'d reader \<Rightarrow> bool" where
  "LOC_FIXED r = (fix_mode r = 2 \<or> fix_mode r = 3)"

definition parse_gga :: "'d genv \<Rightarrow> (nat \<times> nat) list \<Rightarrow> 'd reader \<Rightarrow> 'd reader" where
  "parse_gga g tz r =
     (let tok = nmea_tokenizer_get tz;
          r1 = snd (nmea_reader_update_time g (tok 1) r);
          r2 = snd (nmea_reader_update_latlong g (tok 2) (tok_char (rin r) (tok 3)) (tok 4)
                      (tok_char (rin r) (tok 5)) r1)
      in snd (nmea_reader_update_altitude g (tok 9) r2))"

definition parse_rmc :: "'d genv \<Rightarrow> (nat \<times> nat) list \<Rightarrow> 'd reader \<Rightarrow> 'd reader" where
  "parse_rmc g tz r =
     (let tok = nmea_tokenizer_get tz
      in if tok_char (rin r) (tok 2) = CHR ''A''
         then let r1 = snd (nmea_reader_update_date g (tok 9) (tok 1) r);
                  r2 = snd (nmea_reader_update_latlong g (tok 3) (tok_char (rin r) (tok 4)) (tok 5)
                              (tok_char (rin r) (tok 6)) r1);
                  r3 = snd (nmea_reader_update_bearing g (tok 8) r2)
              in snd (nmea_reader_update_speed g (tok 7) r3)
         else r)"

text \<open>The satellites of a GSA sentence, token by token; \<open>k\<close> is how many may still follow.\<close>

fun gsa_gnss_loop :: "(nat \<times> nat) list \<Rightarrow> bool \<Rightarrow> nat \<Rightarrow> int \<Rightarrow> 'd reader \<Rightarrow> 'd reader" where
  "gsa_gnss_loop tz bds 0 idx r = r"
| "gsa_gnss_loop tz bds (Suc k) idx r =
     (let tok = nmea_tokenizer_get tz (idx + 3)
      in if tok_len tok = 0 then r
         else
           let id0 = str2int (tok_text (rin r) tok);
               sate_id = (if bds then c32 (id0 + 200) else id0)
           in if 1 \<le> sate_id \<and> sate_id \<le> 32 \<or> 65 \<le> sate_id \<and> sate_id \<le> 96
                 \<or> 201 \<le> sate_id \<and> sate_id \<le> 232
              then gsa_gnss_loop tz bds k (idx + 1)
                     (r\<lparr>used_in_fix := (used_in_fix r)[nat sate_id := True]\<rparr>)
              else if 193 \<le> sate_id \<and> sate_id \<le> 197
              then gsa_gnss_loop tz bds k (idx + 1)
                     (r\<lparr>used_in_fix := (used_in_fix r)[nat sate_id := False]\<rparr>)
              else r)"

definition parse_gsa_gnss :: "(nat \<times> nat) list \<Rightarrow> bool \<Rightarrow> 'd reader \<Rightarrow> 'd reader" where
  "parse_gsa_gnss tz bds r =
     (let r1 = r\<lparr>fix_mode := str2int (tok_text (rin r) (nmea_tokenizer_get tz 2))\<rparr>
      in if LOC_FIXED r1 then gsa_gnss_loop tz bds 12 0 r1 else r1)"

fun gsa_gps_loop :: "(nat \<times> nat) list \<Rightarrow> nat \<Rightarrow> int \<Rightarrow> 'd reader \<Rightarrow> 'd reader" where
  "gsa_gps_loop tz 0 idx r = r"
| "gsa_gps_loop tz (Suc k) idx r =
     (let tok = nmea_tokenizer_get tz (idx + 3)
      in if tok_len tok = 0 then r
         else
           let sate_id = str2int (tok_text (rin r) tok)
           in if 1 \<le> sate_id \<and> sate_id \<le> 32
              then gsa_gps_loop tz k (idx + 1)
                     (r\<lparr>gps_mask := gps_mask r OR push_bit (nat (sate_id - 1)) 1\<rparr>)
              else if 193 \<le> sate_id \<and> sate_id \<le> 197 then gsa_gps_loop tz k (idx + 1) r
              else r\<lparr>gps_mask := 0\<rparr>)"

definition parse_gsa_gps :: "(nat \<times> nat) list \<Rightarrow> 'd reader \<Rightarrow> 'd reader" where
  "parse_gsa_gps tz r =
     (let r1 = r\<lparr>fix_mode := str2int (tok_text (rin r) (nmea_tokenizer_get tz 2)), gps_mask := 0\<rparr>
      in if LOC_FIXED r1 then gsa_gps_loop tz 12 0 r1 else r1)"

text \<open>With \<open>GPS_AT_COMMAND\<close> every satellite of a GSV sentence is noted in the AT tables first.\<close>

definition note_sv :: "'d genv \<Rightarrow> int \<Rightarrow> token \<Rightarrow> 'd reader \<Rightarrow> 'd reader" where
  "note_sv g id0 snr r =
     (if gps_at g
      then r\<lparr>atst := at_note (sv_count r) id0
               (fl_to_int (flop g) (str2float (flop g) (tok_text (rin r) snr))) (atst r)\<rparr>
      else r)"

text \<open>
  The satellites of a GSV sentence: each is noted in the AT tables and then offered to the table
  update \<open>upd\<close>; \<open>k\<close> is how many remain.
\<close>

fun gsv_loop :: "'d genv \<Rightarrow> (int \<Rightarrow> token \<Rightarrow> token \<Rightarrow> token \<Rightarrow> 'd reader \<Rightarrow> 'd reader) \<Rightarrow> (nat \<times> nat) list \<Rightarrow>
    bool \<Rightarrow> nat \<Rightarrow> int \<Rightarrow> 'd reader \<Rightarrow> 'd reader" where
  "gsv_loop g upd tz bds 0 idx r = r"
| "gsv_loop g upd tz bds (Suc k) idx r =
     (let base_idx = 4 * (idx + 1);
          id0 = str2int (tok_text (rin r) (nmea_tokenizer_get tz base_idx));
          sv = (if bds then c32 (id0 + 200) else id0)
      in gsv_loop g upd tz bds k (idx + 1)
           (upd sv (nmea_tokenizer_get tz (base_idx + 1)) (nmea_tokenizer_get tz (base_idx + 2))
              (nmea_tokenizer_get tz (base_idx + 3))
              (note_sv g id0 (nmea_tokenizer_get tz (base_idx + 3)) r)))"

text \<open>The AT test runs at the last sentence of a complete set.\<close>

definition at_test :: "'d genv \<Rightarrow> 'd reader \<Rightarrow> 'd reader" where
  "at_test g r =
     (if gps_at g \<and> (MNL_AT_TEST_FLAG (atst r) = 1 \<or> MNL_AT_SIGNAL_MODE (atst r) = 1)
      then r\<lparr>atst := gps_at_command_test_proc (sv_count r) (atst r)\<rparr> else r)"

text \<open>Number, sequence and count of a GSV sentence, and how many satellites it carries.\<close>

definition gsv_head :: "(nat \<times> nat) list \<Rightarrow> 'd reader \<Rightarrow> int \<times> int \<times> int \<times> int" where
  "gsv_head tz r =
     (let num = str2int (tok_text (rin r) (nmea_tokenizer_get tz 1));
          seq = str2int (tok_text (rin r) (nmea_tokenizer_get tz 2));
          cnt = str2int (tok_text (rin r) (nmea_tokenizer_get tz 3));
          sv_base = c32 ((seq - 1) * 4);
          sv_num = c32 (cnt - sv_base)
      in (num, seq, cnt, if sv_num > 4 then 4 else sv_num))"

definition parse_gsv_gnss :: "'d genv \<Rightarrow> (nat \<times> nat) list \<Rightarrow> bool \<Rightarrow> 'd reader \<Rightarrow> 'd reader" where
  "parse_gsv_gnss g tz bds r =
     (let (num, seq, cnt, sv_num) = gsv_head tz r;
          r1 = (if seq = 1 then r\<lparr>sv_count := 0\<rparr> else r);
          r2 = gsv_loop g (nmea_reader_update_sv_status_gnss g) tz bds (nat sv_num) 0 r1
      in if seq = num
         then (if sv_count r2 \<le> cnt then at_test g (r2\<lparr>gnss_num := gnss_num r2 + sv_count r2\<rparr>)
               else r2\<lparr>sv_count := 0, gnss_num := 0\<rparr>)
         else r2)"

definition parse_gsv_gps :: "'d genv \<Rightarrow> (nat \<times> nat) list \<Rightarrow> bool \<Rightarrow> 'd reader \<Rightarrow> 'd reader" where
  "parse_gsv_gps g tz bds r =
     (let (num, seq, cnt, sv_num) = gsv_head tz r;
          r1 = (if seq = 1 then r\<lparr>sv_count := 0\<rparr> else r);
          r2 = gsv_loop g (nmea_reader_update_sv_status_gps g) tz bds (nat sv_num) 0 r1
      in if seq = num
         then (if sv_count r2 \<le> cnt then at_test g (r2\<lparr>gps_num := gps_num r2 + sv_count r2\<rparr>)
               else r2\<lparr>sv_count := 0, gps_num := 0\<rparr>)
         else r2)"

definition parse_accuracy :: "'d genv \<Rightarrow> (nat \<times> nat) list \<Rightarrow> 'd reader \<Rightarrow> 'd reader" where
  "parse_accuracy g tz r =
     (if LOC_FIXED r then snd (nmea_reader_update_accuracy g (nmea_tokenizer_get tz 1) r) else r)"

text \<open>What follows every sentence: the fix, then the satellites, are reported at a burst's end.\<close>

definition report_fix :: "'d genv \<Rightarrow> 'd reader \<Rightarrow> 'd reader" where
  "report_fix g r =
     (if LOC_FIXED r \<and> fx_flags (rfix r) \<noteq> {} \<and> end_tag g
      then let r1 = (if prop_set g then gemit (LogWrite (fx_lat (rfix r)) (fx_lon (rfix r))) r else r);
               r2 = gemit (NlpUpdate (rfix r)) (gemit (LocationCb (rfix r)) r1)
           in r2\<lparr>rfix := (rfix r2)\<lparr>fx_flags := {}\<rparr>\<rparr>
      else r)"

definition report_svs :: "'d genv \<Rightarrow> 'd reader \<Rightarrow> 'd reader" where
  "report_svs g r =
     (if gps_mode g = 0
      then (if gnss_num r \<noteq> 0 \<and> end_tag g
            then (gemit (GnssCb (gnss_list r) (gnss_num r)) r)
                   \<lparr>sv_count := 0, gnss_num := 0, used_in_fix := replicate 256 False\<rparr>
            else r)
      else (if gps_num r > 0 \<and> end_tag g
            then (gemit (SvCb (gps_list r) (gps_num r) (gps_mask r)) r)
                   \<lparr>sv_count := 0, gps_num := 0, gps_mask := 0\<rparr>
            else r))"

definition parse_sentence :: "'d genv \<Rightarrow> (nat \<times> nat) list \<Rightarrow> nat \<Rightarrow> 'd reader \<Rightarrow> 'd reader" where
  "parse_sentence g tz p r =
     (let s = rin r; bds = at_is s p ''BD''
      in if at_is s (p + 2) ''GGA'' then parse_gga g tz r
         else if gps_mode g = 0
             \<and> (at_is s p ''GPGSA'' \<or> at_is s p ''BDGSA'' \<or> at_is s p ''GLGSA'')
           then parse_gsa_gnss tz bds r
         else if gps_mode g = 1 \<and> at_is s p ''GPGSA'' then parse_gsa_gps tz r
         else if at_is s (p + 2) ''RMC'' then parse_rmc g tz r
         else if gps_mode g = 0 \<and> at_is s (p + 2) ''GSV'' then parse_gsv_gnss g tz bds r
         else if gps_mode g = 1 \<and> (at_is s p ''GPGSV'' \<or> at_is s p ''GLGSV'')
           then parse_gsv_gps g tz bds r
         else if at_is s (p + 2) ''ACCURACY'' then parse_accuracy g tz r
         else r)"

definition parse_received :: "'d genv \<Rightarrow> 'd reader \<Rightarrow> 'd reader" where
  "parse_received g r =
     (if rpos r < 9 then r
      else
        let tz = nmea_tokenizer_init (rin r) 0 (rpos r)
        in case nmea_tokenizer_get tz 0 of
             Dummy \<Rightarrow> r
           | Tok p e \<Rightarrow>
               if p + 5 > e then r else report_svs g (report_fix g (parse_sentence g tz p r)))"

definition nmea_reader_parse :: "'d genv \<Rightarrow> 'd reader \<Rightarrow> 'd reader" where
  "nmea_reader_parse g r =
     (case if gps_at g then at_gate (ae g) (end_tag g) (atst r) else (True, atst r) of
        (go, a) \<Rightarrow> if go then parse_received g (r\<lparr>atst := a\<rparr>) else r\<lparr>atst := a\<rparr>)"

definition nmea_reader_addc :: "'d genv \<Rightarrow> char \<Rightarrow> 'd reader \<Rightarrow> 'd reader" where
  "nmea_reader_addc g c r =
     (if roverflow r then r\<lparr>roverflow := (c \<noteq> CHR 0x0A)\<rparr>
      else if NMEA_MAX_SIZE \<le> rpos r then r\<lparr>roverflow := True, rpos := 0\<rparr>
      else
        let r1 = r\<lparr>rin := (rin r)[rpos r := c], rpos := rpos r + 1\<rparr>
        in if c = CHR 0x0A
           then let r2 = nmea_reader_parse g r1;
                    r3 = gemit (NmeaCb (fx_time (rfix r2)) (take (rpos r2) (rin r2))) r2
                in r3\<lparr>rpos := 0\<rparr>
           else r1)"

definition is_location :: "'d gps_ev \<Rightarrow> bool" where
  "is_location e = (case e of LocationCb _ \<Rightarrow> True | _ \<Rightarrow> False)"

definition nmea_feed :: "'d genv \<Rightarrow> string \<Rightarrow> 'd reader \<Rightarrow> 'd reader" where
  "nmea_feed g cs r = fold (nmea_reader_addc g) cs r"

section \<open>The tokenizer\<close>

text \<open>The comma-separated fields of a text; a trailing comma does not open another field.\<close>

function csv_fields :: "string \<Rightarrow> string list" where
  "csv_fields s = (if s = [] then []
     else takeWhile (\<lambda>c. c \<noteq> CHR '','') s
       # csv_fields (drop (Suc (length (takeWhile (\<lambda>c. c \<noteq> CHR '','') s))) s))"
  by pat_completeness auto
termination by (relation "measure length") auto

declare csv_fields.simps [simp del]

lemma csv_fields_Nil [simp]: "csv_fields [] = []"
  by (subst csv_fields.simps) simp

lemma span_length: "e \<le> length s \<Longrightarrow> length (span s p e) = e - p"
  by (simp add: span_def)

lemma span_empty [simp]: "span s p p = []"
  by (simp add: span_def)

lemma memchr_comma_bound: "p \<le> e \<Longrightarrow> e \<le> length s \<Longrightarrow> memchr_comma s p e \<le> e"
  using length_takeWhile_le[of "\<lambda>c. c \<noteq> CHR '',''" "span s p e"] span_length[of e s p]
  by (simp add: memchr_comma_def)

lemma span_field:
  assumes "p \<le> e" "e \<le> length s"
  shows "span s p (memchr_comma s p e) = takeWhile (\<lambda>c. c \<noteq> CHR '','') (span s p e)"
proof -
  let ?w = "takeWhile (\<lambda>c. c \<noteq> CHR '','') (span s p e)"
  have "length ?w \<le> e - p" using length_takeWhile_le span_length assms by metis
  then have "span s p (memchr_comma s p e) = take (length ?w) (span s p e)"
    by (simp add: span_def memchr_comma_def min_def)
  then show ?thesis by (metis takeWhile_eq_take)
qed

lemma span_rest:
  "p \<le> q \<Longrightarrow> span s q e = drop (q - p) (span s p e)"
  by (simp add: span_def drop_take)

lemma tok_loop_fields:
  assumes "p \<le> e" "e \<le> length s" "length acc \<le> MAX_NMEA_TOKENS"
  shows "map (\<lambda>(a, b). span s a b) (tok_loop s p e acc) =
    take MAX_NMEA_TOKENS (map (\<lambda>(a, b). span s a b) acc @ csv_fields (span s p e))"
  using assms
proof (induction s p e acc rule: tok_loop.induct)
  case (1 s p e acc)
  show ?case
  proof (cases "p < e")
    case False
    then have "p = e" using 1(2) by simp
    then show ?thesis using 1(4) by (subst tok_loop.simps) simp
  next
    case True
    let ?q = "memchr_comma s p e"
    let ?acc = "if length acc < MAX_NMEA_TOKENS then acc @ [(p, ?q)] else acc"
    let ?p = "if ?q < e then ?q + 1 else e"
    let ?f = "takeWhile (\<lambda>c. c \<noteq> CHR '','') (span s p e)"
    have q: "p \<le> ?q" "?q \<le> e" using memchr_comma_le memchr_comma_bound 1(2,3) by auto
    have ne: "span s p e \<noteq> []" using True 1(3) span_length[of e s p] by auto
    have fld: "span s p ?q = ?f" using span_field 1(2,3) by blast
    have lf: "length ?f = ?q - p" by (simp add: memchr_comma_def)
    have rest: "span s ?p e = drop (Suc (length ?f)) (span s p e)"
    proof (cases "?q < e")
      case True
      then show ?thesis using span_rest[of p "?q + 1" s e] q(1) lf by (simp add: Suc_diff_le)
    next
      case False
      then show ?thesis using lf q span_length[of e s p] 1(3) by simp
    qed
    have "csv_fields (span s p e) = ?f # csv_fields (span s ?p e)"
      using ne rest by (subst csv_fields.simps) simp
    moreover have "map (\<lambda>(a, b). span s a b) (tok_loop s ?p e ?acc) =
        take MAX_NMEA_TOKENS (map (\<lambda>(a, b). span s a b) ?acc @ csv_fields (span s ?p e))"
      by (rule 1(1)[OF True refl refl]) (use 1(2-4) q in auto)
    moreover have "tok_loop s p e acc = tok_loop s ?p e ?acc"
      using True by (subst tok_loop.simps) (simp add: Let_def)
    ultimately show ?thesis using fld by (auto simp: take_Cons')
  qed
qed

lemma tok_loop_bounds:
  assumes "p0 \<le> p" "p \<le> e" "e \<le> length s" "\<forall>(a, b) \<in> set acc. p0 \<le> a \<and> a \<le> b \<and> b \<le> e"
  shows "\<forall>(a, b) \<in> set (tok_loop s p e acc). p0 \<le> a \<and> a \<le> b \<and> b \<le> e"
  using assms
proof (induction s p e acc rule: tok_loop.induct)
  case (1 s p e acc)
  show ?case
  proof (cases "p < e")
    case True
    let ?q = "memchr_comma s p e"
    let ?acc = "if length acc < MAX_NMEA_TOKENS then acc @ [(p, ?q)] else acc"
    let ?p = "if ?q < e then ?q + 1 else e"
    have q: "p \<le> ?q" "?q \<le> e" using memchr_comma_le memchr_comma_bound 1(3,4) by auto
    have "\<forall>(a, b) \<in> set (tok_loop s ?p e ?acc). p0 \<le> a \<and> a \<le> b \<and> b \<le> e"
      by (rule 1(1)[OF True refl refl]) (use 1(2-5) q in auto)
    then show ?thesis using True by (subst tok_loop.simps) (simp add: Let_def)
  qed (use 1(5) in \<open>subst tok_loop.simps, simp\<close>)
qed

lemma tok_trim_bounds:
  assumes "p \<le> e"
  shows "p \<le> tok_start s p e" "tok_start s p e \<le> e"
    "tok_start s p e \<le> tok_end s (tok_start s p e) e" "tok_end s (tok_start s p e) e \<le> e"
  using assms by (auto simp: tok_start_def tok_end_def Let_def)

lemma tokenizer_bounds:
  assumes "e \<le> length s" "(a, b) \<in> set (nmea_tokenizer_init s 0 e)"
  shows "a \<le> b \<and> b \<le> e"
proof -
  let ?p = "tok_start s 0 e"
  have b: "?p \<le> tok_end s ?p e" "tok_end s ?p e \<le> e" using tok_trim_bounds[of 0 e s] by auto
  have "\<forall>(a, b) \<in> set (tok_loop s ?p (tok_end s ?p e) []). ?p \<le> a \<and> a \<le> b \<and> b \<le> tok_end s ?p e"
    using tok_loop_bounds[of ?p ?p "tok_end s ?p e" s "[]"] b assms(1) by simp
  then show ?thesis using assms(2) b by (auto simp: nmea_tokenizer_init_def Let_def)
qed

section \<open>Integers\<close>

lemma dig_loop_append:
  "dig_loop a (xs @ ys) = (case dig_loop a xs of None \<Rightarrow> None | Some b \<Rightarrow> dig_loop b ys)"
  by (induction a xs rule: dig_loop.induct) (auto split: option.splits)

lemma c32_mult_add: "c32 (c32 x * 10 + d) = c32 (x * 10 + d)"
proof -
  have "(((x + 2^31) mod 2^32 - 2^31) * 10 + d + 2^31) mod 2^32 = (x * 10 + d + 2^31) mod 2^32"
    by (metis (no_types, opaque_lifting) add_diff_cancel mod_add_left_eq mod_diff_left_eq mod_mult_left_eq)
  then show ?thesis by (simp add: c32_def)
qed

lemma dig_loop_show: "dig_loop 0 (show_nat n) = Some (c32 (int n))"
proof (induction n rule: show_nat.induct)
  case (1 n)
  show ?case
  proof (cases "n < 10")
    case True
    then show ?thesis by (subst show_nat.simps) (simp add: digit_of_char)
  next
    case False
    have "int (n div 10) * 10 + int (n mod 10) = int n" by (metis div_mult_mod_eq of_nat_add of_nat_mult of_nat_numeral)
    then show ?thesis
      using False 1 by (subst show_nat.simps) (simp add: dig_loop_append digit_of_char c32_mult_add)
  qed
qed

lemma dig_loop_fail: "dig_loop a xs = None \<longleftrightarrow> (\<exists>c \<in> set xs. digit_of c = None)"
  by (induction a xs rule: dig_loop.induct) (auto split: option.splits)

section \<open>What a sentence may change\<close>

definition tables_wf :: "'d genv \<Rightarrow> 'd reader \<Rightarrow> bool" where
  "tables_wf g r =
     (length (gps_list r) = nat (GPS_MAX_SVS g) \<and> length (gnss_list r) = nat (GNSS_MAX_SVS g)
      \<and> 0 \<le> sv_count r \<and> 0 \<le> gps_num r \<and> 0 \<le> gnss_num r \<and> length (used_in_fix r) = 256)"

text \<open>The line buffer and the events are left alone, the tables stay well formed.\<close>

definition keeps :: "'d genv \<Rightarrow> 'd reader \<Rightarrow> 'd reader \<Rightarrow> bool" where
  "keeps g r r' =
     (rin r' = rin r \<and> rpos r' = rpos r \<and> roverflow r' = roverflow r \<and> gevents r' = gevents r
      \<and> (tables_wf g r \<longrightarrow> tables_wf g r'))"

lemma keeps_refl [simp]: "keeps g r r"
  by (simp add: keeps_def)

lemma keeps_trans: "keeps g r r1 \<Longrightarrow> keeps g r1 r2 \<Longrightarrow> keeps g r r2"
  by (auto simp: keeps_def)

lemma keeps_at: "keeps g r (r\<lparr>atst := t\<rparr>)"
  by (simp add: keeps_def tables_wf_def)

lemma keeps_note: "keeps g r (note_sv g i snr r)"
  by (simp add: note_sv_def keeps_at)

lemma note_same [simp]:
  "sv_count (note_sv g i snr r) = sv_count r" "gnss_num (note_sv g i snr r) = gnss_num r"
  "gnss_list (note_sv g i snr r) = gnss_list r" "rin (note_sv g i snr r) = rin r"
  "used_in_fix (note_sv g i snr r) = used_in_fix r"
  by (simp_all add: note_sv_def)

lemma keeps_at_test: "keeps g r (at_test g r)"
  by (simp add: at_test_def keeps_at)

lemma keeps_time: "keeps g r (snd (nmea_reader_update_time g tok r))"
  by (auto simp: nmea_reader_update_time_def keeps_def tables_wf_def Let_def split: prod.splits)

lemma keeps_date: "keeps g r (snd (nmea_reader_update_date g date time r))"
proof -
  have "keeps g r (r\<lparr>utc_year := y, utc_mon := m, utc_day := d\<rparr>)" for y m d
    by (simp add: keeps_def tables_wf_def)
  then show ?thesis
    by (auto simp: nmea_reader_update_date_def Let_def intro: keeps_trans[OF _ keeps_time])
qed

lemma keeps_fix: "keeps g r (r\<lparr>rfix := x\<rparr>)"
  by (simp add: keeps_def tables_wf_def)

lemma keeps_latlong: "keeps g r (snd (nmea_reader_update_latlong g la lh lo oh r))"
  by (simp add: nmea_reader_update_latlong_def Let_def keeps_fix)

lemma keeps_altitude: "keeps g r (snd (nmea_reader_update_altitude g tok r))"
  by (simp add: nmea_reader_update_altitude_def keeps_fix)

lemma keeps_bearing: "keeps g r (snd (nmea_reader_update_bearing g tok r))"
  by (simp add: nmea_reader_update_bearing_def keeps_fix)

lemma keeps_speed: "keeps g r (snd (nmea_reader_update_speed g tok r))"
  by (simp add: nmea_reader_update_speed_def keeps_fix)

lemma keeps_accuracy: "keeps g r (snd (nmea_reader_update_accuracy g tok r))"
  by (simp add: nmea_reader_update_accuracy_def keeps_fix)

lemmas keeps_updates = keeps_time keeps_date keeps_latlong keeps_altitude keeps_bearing
  keeps_speed keeps_accuracy

lemmas keeps_after = keeps_updates[THEN keeps_trans[rotated]]

section \<open>The contract of a satellite table\<close>

text \<open>
  An update either ignores its satellite or writes one entry of its table, inside the table, at the
  place after the satellites counted so far, and counts it.
\<close>

locale sv_table =
  fixes g :: "'d genv"
    and upd :: "int \<Rightarrow> token \<Rightarrow> token \<Rightarrow> token \<Rightarrow> 'd reader \<Rightarrow> 'd reader"
    and tab :: "'d reader \<Rightarrow> 'd sv list"
    and num :: "'d reader \<Rightarrow> int"
    and maxn :: int
  assumes num_note: "num (r\<lparr>atst := t\<rparr>) = num r"
    and upd_keeps: "keeps g r (upd i a b c r)"
    and upd_at: "atst (upd i a b c r) = atst r"
    and upd_num: "num (upd i a b c r) = num r"
    and upd_count: "upd i a b c r \<noteq> r \<Longrightarrow> sv_count (upd i a b c r) = sv_count r + 1"
    and upd_index: "tables_wf g r \<Longrightarrow> upd i a b c r \<noteq> r \<Longrightarrow>
      0 \<le> sv_count r + num r \<and> nat (sv_count r + num r) < length (tab r)
      \<and> (\<exists>x. tab (upd i a b c r) = (tab r)[nat (sv_count r + num r) := x] \<and> sv_id x = i)"
begin

lemma loop_keeps: "keeps g r (gsv_loop g upd tz bds k idx r)"
proof (induction k arbitrary: idx r)
  case (Suc k)
  show ?case
    by (simp only: gsv_loop.simps Let_def)
      (rule keeps_trans[OF keeps_note keeps_trans[OF upd_keeps Suc.IH]])
qed simp

lemma loop_num: "num (gsv_loop g upd tz bds k idx r) = num r"
  by (induction k arbitrary: idx r) (simp_all add: Let_def upd_num note_sv_def num_note)

lemma upd_count_le: "sv_count r \<le> sv_count (upd i a b c r)" "sv_count (upd i a b c r) \<le> sv_count r + 1"
  using upd_count[of i a b c r] by (cases "upd i a b c r = r"; simp)+

lemma loop_step:
  "\<exists>i a b c j d. gsv_loop g upd tz bds (Suc k) idx r =
     gsv_loop g upd tz bds k (idx + 1) (upd i a b c (note_sv g j d r))"
  by (simp only: gsv_loop.simps Let_def) blast

lemma loop_count:
  "sv_count r \<le> sv_count (gsv_loop g upd tz bds k idx r)
   \<and> sv_count (gsv_loop g upd tz bds k idx r) \<le> sv_count r + int k"
proof (induction k arbitrary: idx r)
  case (Suc k)
  obtain i a b c j d where step: "gsv_loop g upd tz bds (Suc k) idx r =
      gsv_loop g upd tz bds k (idx + 1) (upd i a b c (note_sv g j d r))" using loop_step by blast
  let ?u = "upd i a b c (note_sv g j d r)"
  have "sv_count r \<le> sv_count ?u" "sv_count ?u \<le> sv_count r + 1"
    using upd_count_le[where r = "note_sv g j d r" and i = i and a = a and b = b and c = c] by simp_all
  then show ?case using Suc.IH[of ?u "idx + 1"] unfolding step by (simp only: of_nat_Suc) linarith
qed simp

text \<open>The AT tables: safe up to 32 satellites, an overflow as soon as the count has reached 32.\<close>

lemma loop_at_safe:
  assumes "0 \<le> sv_count r" "sv_count r + int k \<le> 32"
  shows "ub (atst (gsv_loop g upd tz bds k idx r)) = ub (atst r)"
  using assms
proof (induction k arbitrary: idx r)
  case (Suc k)
  obtain i a b c j d where step: "gsv_loop g upd tz bds (Suc k) idx r =
      gsv_loop g upd tz bds k (idx + 1) (upd i a b c (note_sv g j d r))" using loop_step by blast
  let ?r = "note_sv g j d r"
  have "ub (atst ?r) = ub (atst r)" using Suc.prems by (simp add: note_sv_def at_note_def)
  moreover have "0 \<le> sv_count (upd i a b c ?r)" "sv_count (upd i a b c ?r) + int k \<le> 32"
    using Suc.prems upd_count_le[where r = ?r and i = i and a = a and b = b and c = c] by simp_all
  ultimately show ?case unfolding step by (simp add: Suc.IH upd_at)
qed simp

lemma loop_grows: "grows (atst r) (atst (gsv_loop g upd tz bds k idx r))"
proof (induction k arbitrary: idx r)
  case (Suc k)
  obtain i a b c j d where step: "gsv_loop g upd tz bds (Suc k) idx r =
      gsv_loop g upd tz bds k (idx + 1) (upd i a b c (note_sv g j d r))" using loop_step by blast
  let ?r = "note_sv g j d r"
  have "grows (atst r) (atst ?r)" by (simp add: note_sv_def at_note_def grows_fault grows_same)
  moreover have "grows (atst ?r) (atst (gsv_loop g upd tz bds k (idx + 1) (upd i a b c ?r)))"
    using Suc.IH[of "upd i a b c ?r" "idx + 1"] by (simp add: upd_at)
  ultimately show ?case unfolding step by (rule grows_trans)
qed simp

lemma loop_at_overflow:
  assumes "gps_at g" "32 \<le> sv_count r" "0 < k"
  shows "PrnTable (sv_count r) \<in> set (ub (atst (gsv_loop g upd tz bds k idx r)))"
proof -
  obtain k' where k: "k = Suc k'" using assms(3) gr0_implies_Suc by blast
  obtain i a b c j d where step: "gsv_loop g upd tz bds k idx r =
      gsv_loop g upd tz bds k' (idx + 1) (upd i a b c (note_sv g j d r))"
    unfolding k using loop_step by blast
  have "PrnTable (sv_count r) \<in> set (ub (atst (upd i a b c (note_sv g j d r))))"
    using assms(1,2) by (simp add: upd_at note_sv_def at_note_def)
  then show ?thesis unfolding step by (rule grows_in[OF loop_grows])
qed

end

lemma count_upd_neq: "r\<lparr>gps_list := x, sv_count := sv_count r + 1\<rparr> \<noteq> r"
  "r\<lparr>gnss_list := x, sv_count := sv_count r + 1\<rparr> \<noteq> r"
  by (auto dest!: arg_cong[where f = sv_count])

lemma gnss_update_shape:
  assumes "nmea_reader_update_sv_status_gnss g i a b c r \<noteq> r"
  shows "\<exists>x. nmea_reader_update_sv_status_gnss g i a b c r =
      r\<lparr>gnss_list := (gnss_list r)[nat (sv_count r + gnss_num r) := x], sv_count := sv_count r + 1\<rparr>
    \<and> sv_id x = i \<and> sv_count r + gnss_num r < GNSS_MAX_SVS g"
proof -
  have n: "\<not> (i \<le> 0 \<or> (i < 65 \<and> i > GPS_MAX_SVS g) \<or> (i > 96 \<and> i < 200) \<or> i > 232
      \<or> sv_count r \<ge> GNSS_MAX_SVS g)"
    "\<not> GNSS_MAX_SVS g \<le> sv_count r + gnss_num r"
    using assms by (auto simp: nmea_reader_update_sv_status_gnss_def Let_def)
  show ?thesis
    unfolding nmea_reader_update_sv_status_gnss_def Let_def if_not_P[OF n(1)] if_not_P[OF n(2)]
    by (rule exI, rule conjI, rule refl) (use n(2) in simp)
qed

lemma gnss_update_id:
  assumes "nmea_reader_update_sv_status_gnss g i a b c r \<noteq> r"
  shows "nat i < 256"
proof -
  have "\<not> (i \<le> 0 \<or> (i < 65 \<and> i > GPS_MAX_SVS g) \<or> (i > 96 \<and> i < 200) \<or> i > 232
      \<or> sv_count r \<ge> GNSS_MAX_SVS g)"
    using assms by (auto simp: nmea_reader_update_sv_status_gnss_def Let_def)
  then have "i < 256" by linarith
  then show ?thesis by simp
qed

interpretation gnss_tab: sv_table g "nmea_reader_update_sv_status_gnss g" gnss_list gnss_num
  "GNSS_MAX_SVS g" for g :: "'d genv"
proof
  fix r :: "'d reader" and i a b c
  let ?u = "nmea_reader_update_sv_status_gnss g i a b c r"
  show "keeps g r ?u"
    by (auto simp: nmea_reader_update_sv_status_gnss_def keeps_def tables_wf_def Let_def)
  show "gnss_num (r\<lparr>atst := t\<rparr>) = gnss_num r" for t by simp
  show "atst ?u = atst r"
    by (simp add: nmea_reader_update_sv_status_gnss_def Let_def)
  show "gnss_num ?u = gnss_num r"
    by (simp add: nmea_reader_update_sv_status_gnss_def Let_def)
  show "?u \<noteq> r \<Longrightarrow> sv_count ?u = sv_count r + 1"
    by (auto simp: nmea_reader_update_sv_status_gnss_def Let_def split: if_splits)
  show "0 \<le> sv_count r + gnss_num r \<and> nat (sv_count r + gnss_num r) < length (gnss_list r)
      \<and> (\<exists>x. gnss_list ?u = (gnss_list r)[nat (sv_count r + gnss_num r) := x] \<and> sv_id x = i)"
    if asm: "tables_wf g r" "?u \<noteq> r"
  proof -
    obtain x where u: "?u = r\<lparr>gnss_list := (gnss_list r)[nat (sv_count r + gnss_num r) := x],
        sv_count := sv_count r + 1\<rparr>" "sv_id x = i" "sv_count r + gnss_num r < GNSS_MAX_SVS g"
      using gnss_update_shape[OF asm(2)] by blast
    show ?thesis using asm(1) u by (auto simp: tables_wf_def)
  qed
qed

lemma gps_update_shape:
  assumes "nmea_reader_update_sv_status_gps g i a b c r \<noteq> r"
  shows "\<exists>x. nmea_reader_update_sv_status_gps g i a b c r =
      r\<lparr>gps_list := (gps_list r)[nat (sv_count r + gps_num r) := x], sv_count := sv_count r + 1\<rparr>
    \<and> sv_id x = i \<and> sv_count r + gps_num r < GPS_MAX_SVS g"
proof -
  have n: "\<not> (i \<le> 0 \<or> (i < 65 \<and> i > GPS_MAX_SVS g) \<or> i > 96 \<or> sv_count r \<ge> GPS_MAX_SVS g)"
    "\<not> GPS_MAX_SVS g \<le> sv_count r + gps_num r"
    using assms by (auto simp: nmea_reader_update_sv_status_gps_def Let_def)
  show ?thesis
    unfolding nmea_reader_update_sv_status_gps_def Let_def if_not_P[OF n(1)] if_not_P[OF n(2)]
    by (rule exI, rule conjI, rule refl) (use n(2) in simp)
qed

interpretation gps_tab: sv_table g "nmea_reader_update_sv_status_gps g" gps_list gps_num
  "GPS_MAX_SVS g" for g :: "'d genv"
proof
  fix r :: "'d reader" and i a b c
  let ?u = "nmea_reader_update_sv_status_gps g i a b c r"
  show "keeps g r ?u"
    by (auto simp: nmea_reader_update_sv_status_gps_def keeps_def tables_wf_def Let_def)
  show "gps_num (r\<lparr>atst := t\<rparr>) = gps_num r" for t by simp
  show "atst ?u = atst r"
    by (simp add: nmea_reader_update_sv_status_gps_def Let_def)
  show "gps_num ?u = gps_num r"
    by (simp add: nmea_reader_update_sv_status_gps_def Let_def)
  show "?u \<noteq> r \<Longrightarrow> sv_count ?u = sv_count r + 1"
    by (auto simp: nmea_reader_update_sv_status_gps_def Let_def split: if_splits)
  show "0 \<le> sv_count r + gps_num r \<and> nat (sv_count r + gps_num r) < length (gps_list r)
      \<and> (\<exists>x. gps_list ?u = (gps_list r)[nat (sv_count r + gps_num r) := x] \<and> sv_id x = i)"
    if asm: "tables_wf g r" "?u \<noteq> r"
  proof -
    obtain x where u: "?u = r\<lparr>gps_list := (gps_list r)[nat (sv_count r + gps_num r) := x],
        sv_count := sv_count r + 1\<rparr>" "sv_id x = i" "sv_count r + gps_num r < GPS_MAX_SVS g"
      using gps_update_shape[OF asm(2)] by blast
    show ?thesis using asm(1) u by (auto simp: tables_wf_def)
  qed
qed

section \<open>Sentences keep the reader well formed\<close>

lemma keeps_gga: "keeps g r (parse_gga g tz r)"
  unfolding parse_gga_def Let_def by (intro keeps_after keeps_refl)

lemma keeps_rmc: "keeps g r (parse_rmc g tz r)"
  unfolding parse_rmc_def Let_def by (auto intro!: keeps_after)

lemma keeps_used: "keeps g r (r\<lparr>used_in_fix := (used_in_fix r)[n := b]\<rparr>)"
  by (simp add: keeps_def tables_wf_def)

lemma keeps_mask: "keeps g r (r\<lparr>gps_mask := m\<rparr>)"
  by (simp add: keeps_def tables_wf_def)

lemma keeps_gsa_gnss_loop: "keeps g r (gsa_gnss_loop tz bds k idx r)"
proof (induction k arbitrary: idx r bds)
  case (Suc k)
  show ?case by (auto simp: Let_def intro: keeps_trans[OF keeps_used Suc.IH])
qed simp

lemma keeps_gsa_gps_loop: "keeps g r (gsa_gps_loop tz k idx r)"
proof (induction k arbitrary: idx r)
  case (Suc k)
  show ?case using Suc.IH by (auto simp: Let_def keeps_mask intro: keeps_trans[OF keeps_mask Suc.IH])
qed simp

lemma keeps_mode: "keeps g r (r\<lparr>fix_mode := m\<rparr>)" "keeps g r (r\<lparr>fix_mode := m, gps_mask := k\<rparr>)"
  by (simp_all add: keeps_def tables_wf_def)

lemma keeps_gsa_gnss: "keeps g r (parse_gsa_gnss tz bds r)"
  by (auto simp: parse_gsa_gnss_def Let_def intro: keeps_trans[OF keeps_mode(1) keeps_gsa_gnss_loop] keeps_mode)

lemma keeps_gsa_gps: "keeps g r (parse_gsa_gps tz r)"
  by (auto simp: parse_gsa_gps_def Let_def intro: keeps_trans[OF keeps_mode(2) keeps_gsa_gps_loop] keeps_mode)

lemma keeps_count0: "keeps g r (r\<lparr>sv_count := 0\<rparr>)"
  by (simp add: keeps_def tables_wf_def)

lemma keeps_num:
  "keeps g r (r\<lparr>gnss_num := gnss_num r + sv_count r\<rparr>)" "keeps g r (r\<lparr>gps_num := gps_num r + sv_count r\<rparr>)"
  "keeps g r (r\<lparr>sv_count := 0, gnss_num := 0\<rparr>)" "keeps g r (r\<lparr>sv_count := 0, gps_num := 0\<rparr>)"
  by (simp_all add: keeps_def tables_wf_def)

lemma keeps_gsv_gnss: "keeps g r (parse_gsv_gnss g tz bds r)"
proof -
  obtain num seq cnt n where h: "gsv_head tz r = (num, seq, cnt, n)" by (metis prod_cases4)
  have "keeps g r (gsv_loop g (nmea_reader_update_sv_status_gnss g) tz bds (nat n) 0
      (if seq = 1 then r\<lparr>sv_count := 0\<rparr> else r))"
    by (auto intro: keeps_trans[OF keeps_count0 gnss_tab.loop_keeps] gnss_tab.loop_keeps)
  then show ?thesis
    by (auto simp: parse_gsv_gnss_def h Let_def intro: keeps_trans[OF _ keeps_trans[OF keeps_num(1) keeps_at_test]]
        keeps_trans[OF _ keeps_trans[OF keeps_num(2) keeps_at_test]] keeps_trans[OF _ keeps_num(3)] keeps_trans[OF _ keeps_num(4)])
qed

lemma keeps_gsv_gps: "keeps g r (parse_gsv_gps g tz bds r)"
proof -
  obtain num seq cnt n where h: "gsv_head tz r = (num, seq, cnt, n)" by (metis prod_cases4)
  have "keeps g r (gsv_loop g (nmea_reader_update_sv_status_gps g) tz bds (nat n) 0
      (if seq = 1 then r\<lparr>sv_count := 0\<rparr> else r))"
    by (auto intro: keeps_trans[OF keeps_count0 gps_tab.loop_keeps] gps_tab.loop_keeps)
  then show ?thesis
    by (auto simp: parse_gsv_gps_def h Let_def intro: keeps_trans[OF _ keeps_trans[OF keeps_num(1) keeps_at_test]]
        keeps_trans[OF _ keeps_trans[OF keeps_num(2) keeps_at_test]] keeps_trans[OF _ keeps_num(3)] keeps_trans[OF _ keeps_num(4)])
qed

lemma keeps_sentence: "keeps g r (parse_sentence g tz p r)"
  by (simp add: parse_sentence_def Let_def keeps_gga keeps_rmc keeps_gsa_gnss keeps_gsa_gps
      keeps_gsv_gnss keeps_gsv_gps parse_accuracy_def keeps_accuracy)

definition reader_wf :: "'d genv \<Rightarrow> 'd reader \<Rightarrow> bool" where
  "reader_wf g r = (length (rin r) = NMEA_MAX_SIZE + 1 \<and> rpos r \<le> NMEA_MAX_SIZE \<and> tables_wf g r)"

lemma reader_wf_keeps: "reader_wf g r \<Longrightarrow> keeps g r r' \<Longrightarrow> reader_wf g r'"
  by (simp add: reader_wf_def keeps_def)

lemma report_frame [simp]:
  "rin (report_svs g (report_fix g r)) = rin r" "rpos (report_svs g (report_fix g r)) = rpos r"
  "roverflow (report_svs g (report_fix g r)) = roverflow r"
  by (simp_all add: report_svs_def report_fix_def gemit_def Let_def)

lemma report_tables: "tables_wf g r \<Longrightarrow> tables_wf g (report_svs g (report_fix g r))"
  by (simp add: report_svs_def report_fix_def gemit_def Let_def tables_wf_def)

lemma received_cases:
  "parse_received g r = r \<or>
   (\<exists>tz p. parse_received g r = report_svs g (report_fix g (parse_sentence g tz p r)))"
  by (cases "nmea_tokenizer_get (nmea_tokenizer_init (rin r) 0 (rpos r)) 0")
    (auto simp: parse_received_def Let_def)

lemma parse_cases:
  "\<exists>t. nmea_reader_parse g r = r\<lparr>atst := t\<rparr> \<or>
   (\<exists>tz p. nmea_reader_parse g r =
      report_svs g (report_fix g (parse_sentence g tz p (r\<lparr>atst := t\<rparr>))))"
proof -
  obtain go t where gate: "(if gps_at g then at_gate (ae g) (end_tag g) (atst r) else (True, atst r)) = (go, t)"
    by fastforce
  then show ?thesis
    using received_cases[of g "r\<lparr>atst := t\<rparr>"]
    by (intro exI[of _ t]) (simp add: nmea_reader_parse_def)
qed

lemma keeps_sentence_at: "keeps g r (parse_sentence g tz p (r\<lparr>atst := t\<rparr>))"
  by (rule keeps_trans[OF keeps_at keeps_sentence])

lemma parse_frame [simp]:
  "rin (nmea_reader_parse g r) = rin r" "rpos (nmea_reader_parse g r) = rpos r"
  "roverflow (nmea_reader_parse g r) = roverflow r"
  using parse_cases[of g r] keeps_sentence_at[of g r] by (auto simp: keeps_def)

lemma parse_tables: "tables_wf g r \<Longrightarrow> tables_wf g (nmea_reader_parse g r)"
  using parse_cases[of g r] keeps_sentence_at[of g r] keeps_at[of g r]
  by (auto simp: keeps_def report_tables)

lemma reader_wf_addc: "reader_wf g r \<Longrightarrow> reader_wf g (nmea_reader_addc g c r)"
proof -
  assume wf: "reader_wf g r"
  let ?r1 = "r\<lparr>rin := (rin r)[rpos r := c], rpos := rpos r + 1\<rparr>"
  have "tables_wf g ?r1" using wf by (simp add: reader_wf_def tables_wf_def)
  then have "tables_wf g (nmea_reader_parse g ?r1)" by (rule parse_tables)
  then show ?thesis
    using wf by (auto simp: nmea_reader_addc_def Let_def reader_wf_def gemit_def tables_wf_def)
qed

lemma reader_wf_init:
  "0 \<le> GPS_MAX_SVS g \<Longrightarrow> 0 \<le> GNSS_MAX_SVS g \<Longrightarrow> reader_wf g (nmea_reader_init g a)"
  by (simp add: nmea_reader_init_def reader_wf_def tables_wf_def NMEA_MAX_SIZE_def Let_def)

lemma reader_wf_feed: "reader_wf g r \<Longrightarrow> reader_wf g (nmea_feed g cs r)"
  by (induction cs arbitrary: r) (simp_all add: nmea_feed_def reader_wf_addc)

section \<open>Feeding characters\<close>

lemma nmea_feed_Nil [simp]: "nmea_feed g [] r = r"
  by (simp add: nmea_feed_def)

lemma nmea_feed_Cons: "nmea_feed g (c # cs) r = nmea_feed g cs (nmea_reader_addc g c r)"
  by (simp add: nmea_feed_def)

lemma nmea_feed_append: "nmea_feed g (xs @ ys) r = nmea_feed g ys (nmea_feed g xs r)"
  by (simp add: nmea_feed_def)

lemma feed_plain:
  assumes "CHR 0x0A \<notin> set l" "\<not> roverflow r" "rpos r + length l \<le> NMEA_MAX_SIZE"
    "length (rin r) = NMEA_MAX_SIZE + 1"
  shows "nmea_feed g l r = r\<lparr>rin := take (rpos r) (rin r) @ l @ drop (rpos r + length l) (rin r),
    rpos := rpos r + length l\<rparr>"
  using assms
proof (induction l arbitrary: r)
  case (Cons c l)
  let ?r1 = "r\<lparr>rin := (rin r)[rpos r := c], rpos := rpos r + 1\<rparr>"
  have add: "nmea_reader_addc g c r = ?r1"
    using Cons.prems by (auto simp: nmea_reader_addc_def Let_def)
  have p: "rpos r < length (rin r)" using Cons.prems by simp
  have "nmea_feed g l ?r1 = ?r1\<lparr>rin := take (rpos ?r1) (rin ?r1) @ l @ drop (rpos ?r1 + length l) (rin ?r1),
      rpos := rpos ?r1 + length l\<rparr>"
    using Cons.prems by (intro Cons.IH) simp_all
  moreover have "take (rpos r + 1) ((rin r)[rpos r := c]) = take (rpos r) (rin r) @ [c]"
    using p by (simp add: take_Suc_conv_app_nth)
  ultimately show ?case using add p by (simp add: nmea_feed_Cons)
qed simp

lemma overflow_same: "roverflow r \<Longrightarrow> r\<lparr>roverflow := True\<rparr> = r"
  by (cases r) simp

lemma feed_overflow:
  "roverflow r \<Longrightarrow> CHR 0x0A \<notin> set l \<Longrightarrow> nmea_feed g l r = r"
  by (induction l) (auto simp: nmea_feed_Cons nmea_reader_addc_def overflow_same)

text \<open>What the reports after a sentence emit.\<close>

lemma report_svs_events:
  "\<exists>e. gevents (report_svs g r) = gevents r @ e \<and> filter is_location e = []"
  by (auto simp: report_svs_def gemit_def is_location_def)

lemma report_svs_rest [simp]:
  "rfix (report_svs g r) = rfix r" "fix_mode (report_svs g r) = fix_mode r"
  by (simp_all add: report_svs_def gemit_def)

lemma report_fix_events:
  "gevents (report_fix g r) = gevents r
   \<or> LOC_FIXED r \<and> fx_flags (rfix r) \<noteq> {} \<and> end_tag g \<and> fx_flags (rfix (report_fix g r)) = {}
     \<and> (\<exists>e. gevents (report_fix g r) = gevents r @ e \<and> filter is_location e = [LocationCb (rfix r)])"
  by (auto simp: report_fix_def gemit_def is_location_def Let_def)

lemma report_fix_mode [simp]: "fix_mode (report_fix g r) = fix_mode r"
  by (simp add: report_fix_def gemit_def Let_def)

section \<open>Properties\<close>

text \<open>
  C16: The tokens of a line are the comma-separated fields of the line without its \<open>$\<close>, line end
  and checksum, at most 24 of them, in order; every token lies inside the characters received.
\<close>

theorem tokenizer_splits:
  assumes "e \<le> length s"
  shows "map (\<lambda>(a, b). span s a b) (nmea_tokenizer_init s 0 e) =
      take 24 (csv_fields (span s (tok_start s 0 e) (tok_end s (tok_start s 0 e) e)))
    \<and> length (nmea_tokenizer_init s 0 e) \<le> 24
    \<and> (\<forall>(a, b) \<in> set (nmea_tokenizer_init s 0 e). a \<le> b \<and> b \<le> e)"
proof -
  let ?p = "tok_start s 0 e"
  have "?p \<le> tok_end s ?p e" "tok_end s ?p e \<le> length s"
    using tok_trim_bounds[of 0 e s] assms by auto
  then have m: "map (\<lambda>(a, b). span s a b) (nmea_tokenizer_init s 0 e) =
      take 24 (csv_fields (span s ?p (tok_end s ?p e)))"
    using tok_loop_fields[of ?p "tok_end s ?p e" s "[]"]
    by (simp add: nmea_tokenizer_init_def Let_def MAX_NMEA_TOKENS_def)
  have "length (map (\<lambda>(a, b). span s a b) (nmea_tokenizer_init s 0 e)) \<le> 24"
    unfolding m by simp
  then have "length (nmea_tokenizer_init s 0 e) \<le> 24"
    by (simp only: length_map)
  then show ?thesis using m tokenizer_bounds[OF assms] by blast
qed

theorem tokenizer_splits_witness:
  "map (\<lambda>(a, b). span ''$GP,,12*5C'' a b) (nmea_tokenizer_init ''$GP,,12*5C'' 0 10) = [''GP'', [], ''12'']"
  using tokenizer_splits[of 10 "''$GP,,12*5C''"]
  by (simp add: tok_start_def tok_end_def span_def csv_fields.simps)

text \<open>
  The integer conversion reads back the decimal text of every C integer; a text that does not
  start with a minus sign and holds a character that is no digit gives -1.
\<close>

theorem str2int_roundtrip:
  "(is_c32 v \<longrightarrow> str2int (show_int v) = v)
   \<and> (t \<noteq> [] \<longrightarrow> hd t \<noteq> CHR ''-'' \<longrightarrow> (\<exists>c \<in> set t. digit_of c = None) \<longrightarrow> str2int t = - 1)"
proof -
  have neg: "c32 (- c32 x) = c32 (- x)" for x
  proof -
    have "(- ((x + 2^31) mod 2^32 - 2^31) + 2^31) mod 2^32 = (- x + 2^31) mod 2^32"
      by (metis (no_types, opaque_lifting) add_diff_cancel diff_minus_eq_add minus_diff_eq mod_diff_left_eq
          mod_minus_eq mod_add_left_eq)
    then show ?thesis by (simp add: c32_def)
  qed
  have pos: "str2int (show_nat n) = c32 (int n)" for n
  proof -
    obtain c cs where n: "show_nat n = c # cs" by (cases "show_nat n") auto
    then have "c \<noteq> CHR ''-''" using show_nat_first[of n] by simp
    then show ?thesis using n dig_loop_show[of n] by (simp add: str2int_def)
  qed
  have mneg: "str2int (CHR ''-'' # show_nat n) = c32 (- int n)" for n
    using dig_loop_show[of n] neg[of "int n"] by (simp add: str2int_def)
  have "str2int (show_int v) = v" if "is_c32 v"
    using that pos[of "nat v"] mneg[of "nat (- v)"] by (cases "v < 0") (simp_all add: show_int_def)
  moreover have "str2int t = - 1"
    if "t \<noteq> []" "hd t \<noteq> CHR ''-''" "\<exists>c \<in> set t. digit_of c = None"
    using that dig_loop_fail[of 0 t] by (cases t) (auto simp: str2int_def split: option.splits)
  ultimately show ?thesis by blast
qed

theorem str2int_roundtrip_witness: "str2int (show_int (- 2147483648)) = - 2147483648"
  using str2int_roundtrip[of "- 2147483648" "[]"] by (simp add: is_c32_def)

text \<open>
  C10: Whatever characters arrive, the line position stays within the 129-byte buffer and the
  satellite tables keep their sizes, non-negative counts included.
\<close>

theorem reader_stays_wf:
  assumes "0 \<le> GPS_MAX_SVS g" "0 \<le> GNSS_MAX_SVS g"
  shows "reader_wf g (nmea_feed g cs (nmea_reader_init g a))"
  by (rule reader_wf_feed[OF reader_wf_init[OF assms]])

definition rat_flops :: "int flops" where
  "rat_flops = \<lparr>fl_strtod = (\<lambda>_. 0), fl_neg = uminus, fl_add = (+), fl_sub = (-), fl_mul = (*),
     fl_div = (div), fl_floor = id, fl_to_int = id, fl_of_int = id, fl_narrow = id\<rparr>"

definition genv0 :: "int genv" where
  "genv0 = \<lparr>flop = rat_flops, now_ymd = (2018, 1, 1), mk_time = (\<lambda>_ _ _ h m s. h * 3600 + m * 60 + s),
     GPS_MAX_SVS = 32, GNSS_MAX_SVS = 64, gps_mode = 0, end_tag = True, prop_set = False,
     gps_at = True, ae = at_env0\<rparr>"

theorem reader_stays_wf_witness:
  "reader_wf genv0 (nmea_feed genv0 (''$GPGSA,A,3*'' @ [CHR 0x0A]) (nmea_reader_init genv0 at0))"
  by (rule reader_stays_wf) (simp_all add: genv0_def)

text \<open>
  C22: A line of at most 127 characters and its newline, fed to a reader that is between lines, is
  parsed exactly as received and reported once through the NMEA callback; the reader is between
  lines again.
\<close>

theorem line_reported:
  assumes "reader_wf g r" "rpos r = 0" "\<not> roverflow r" "CHR 0x0A \<notin> set l" "length l \<le> 127"
  shows "\<exists>r1. rin r1 = l @ [CHR 0x0A] @ drop (length l + 1) (rin r) \<and> rpos r1 = length l + 1
    \<and> gevents r1 = gevents r
    \<and> nmea_feed g (l @ [CHR 0x0A]) r =
        (gemit (NmeaCb (fx_time (rfix (nmea_reader_parse g r1))) (l @ [CHR 0x0A]))
           (nmea_reader_parse g r1))\<lparr>rpos := 0\<rparr>
    \<and> \<not> roverflow (nmea_feed g (l @ [CHR 0x0A]) r)"
proof -
  let ?n = "length l"
  have len: "length (rin r) = 129" using assms(1) by (simp add: reader_wf_def NMEA_MAX_SIZE_def)
  let ?r0 = "r\<lparr>rin := l @ drop ?n (rin r), rpos := ?n\<rparr>"
  let ?r1 = "?r0\<lparr>rin := (rin ?r0)[rpos ?r0 := CHR 0x0A], rpos := rpos ?r0 + 1\<rparr>"
  have feed: "nmea_feed g l r = ?r0"
    using feed_plain[of l r g] assms len by (simp add: NMEA_MAX_SIZE_def)
  have upd: "(l @ drop ?n (rin r))[?n := CHR 0x0A] = l @ [CHR 0x0A] @ drop (?n + 1) (rin r)"
    using len assms(5) by (simp add: list_update_append Cons_nth_drop_Suc[symmetric])
  have tk: "take (?n + 1) (l @ [CHR 0x0A] @ drop (?n + 1) (rin r)) = l @ [CHR 0x0A]" by simp
  have rin1: "rin ?r1 = l @ [CHR 0x0A] @ drop (?n + 1) (rin r)" using upd by simp
  have "nmea_reader_addc g (CHR 0x0A) ?r0 =
      (gemit (NmeaCb (fx_time (rfix (nmea_reader_parse g ?r1))) (take (rpos ?r1) (rin ?r1)))
         (nmea_reader_parse g ?r1))\<lparr>rpos := 0\<rparr>"
    using assms(3,5) by (simp add: nmea_reader_addc_def Let_def NMEA_MAX_SIZE_def)
  moreover have "take (rpos ?r1) (rin ?r1) = l @ [CHR 0x0A]" using rin1 tk by simp
  ultimately have "nmea_feed g (l @ [CHR 0x0A]) r =
      (gemit (NmeaCb (fx_time (rfix (nmea_reader_parse g ?r1))) (l @ [CHR 0x0A]))
         (nmea_reader_parse g ?r1))\<lparr>rpos := 0\<rparr>"
    using feed by (simp only: nmea_feed_append nmea_feed_Cons nmea_feed_Nil)
  moreover have "\<not> roverflow ((gemit e (nmea_reader_parse g ?r1))\<lparr>rpos := 0\<rparr>)" for e
    using assms(3) by (simp add: gemit_def)
  ultimately show ?thesis using rin1 by (intro exI[of _ ?r1]) simp
qed

theorem line_reported_witness:
  "\<exists>r1. nmea_feed genv0 (''$GPTXT'' @ [CHR 0x0A]) (nmea_reader_init genv0 at0) =
     (gemit (NmeaCb (fx_time (rfix (nmea_reader_parse genv0 r1))) (''$GPTXT'' @ [CHR 0x0A]))
        (nmea_reader_parse genv0 r1))\<lparr>rpos := 0\<rparr>"
  using line_reported[OF reader_wf_init, of genv0 at0 "''$GPTXT''"]
  by (auto simp: genv0_def nmea_reader_init_def Let_def)

text \<open>
  After a line of exactly 128 characters the newline that ends it is itself taken for the
  overflow, so the following sentence is swallowed: neither of the two is parsed or reported.
\<close>

theorem overflow_eats_next_line:
  assumes "reader_wf g r" "rpos r = 0" "\<not> roverflow r"
    "CHR 0x0A \<notin> set l" "length l = 128" "CHR 0x0A \<notin> set l2"
  shows "gevents (nmea_feed g (l @ [CHR 0x0A] @ l2 @ [CHR 0x0A]) r) = gevents r
    \<and> rpos (nmea_feed g (l @ [CHR 0x0A] @ l2 @ [CHR 0x0A]) r) = 0
    \<and> \<not> roverflow (nmea_feed g (l @ [CHR 0x0A] @ l2 @ [CHR 0x0A]) r)"
proof -
  have len: "length (rin r) = 129" using assms(1) by (simp add: reader_wf_def NMEA_MAX_SIZE_def)
  let ?r0 = "r\<lparr>rin := l @ drop 128 (rin r), rpos := 128\<rparr>"
  let ?r1 = "?r0\<lparr>roverflow := True, rpos := 0\<rparr>"
  have "nmea_feed g l r = ?r0"
    using feed_plain[of l r g] assms len by (simp add: NMEA_MAX_SIZE_def)
  moreover have "nmea_reader_addc g (CHR 0x0A) ?r0 = ?r1"
    using assms(3) by (simp add: nmea_reader_addc_def NMEA_MAX_SIZE_def)
  moreover have "nmea_feed g l2 ?r1 = ?r1" by (rule feed_overflow) (use assms(6) in simp_all)
  moreover have "nmea_reader_addc g (CHR 0x0A) ?r1 = ?r1\<lparr>roverflow := False\<rparr>"
    by (simp add: nmea_reader_addc_def)
  ultimately have "nmea_feed g (l @ [CHR 0x0A] @ l2 @ [CHR 0x0A]) r = ?r1\<lparr>roverflow := False\<rparr>"
    by (simp only: nmea_feed_append nmea_feed_Cons nmea_feed_Nil)
  then show ?thesis by simp
qed

theorem overflow_eats_next_line_witness:
  "gevents (nmea_feed genv0 (replicate 128 (CHR ''x'') @ [CHR 0x0A] @ ''$GPTXT'' @ [CHR 0x0A])
     (nmea_reader_init genv0 at0)) = []"
  using overflow_eats_next_line[OF reader_wf_init, of genv0 at0 "replicate 128 (CHR ''x'')" "''$GPTXT''"]
  by (auto simp: genv0_def nmea_reader_init_def Let_def)

text \<open>
  On a well-formed reader every satellite update is a no-op or one write inside its table, and
  reads the used-in-fix table inside its 256 entries.
\<close>

theorem sv_update_in_bounds:
  assumes "tables_wf g r"
  shows "(nmea_reader_update_sv_status_gnss g i a b c r \<noteq> r \<longrightarrow>
      (\<exists>k x. k < length (gnss_list r) \<and> nat i < length (used_in_fix r) \<and> sv_id x = i
         \<and> nmea_reader_update_sv_status_gnss g i a b c r =
             r\<lparr>gnss_list := (gnss_list r)[k := x], sv_count := sv_count r + 1\<rparr>))
    \<and> (nmea_reader_update_sv_status_gps g i a b c r \<noteq> r \<longrightarrow>
      (\<exists>k x. k < length (gps_list r) \<and> sv_id x = i
         \<and> nmea_reader_update_sv_status_gps g i a b c r =
             r\<lparr>gps_list := (gps_list r)[k := x], sv_count := sv_count r + 1\<rparr>))"
proof -
  let ?u = "nmea_reader_update_sv_status_gnss g i a b c r"
  let ?v = "nmea_reader_update_sv_status_gps g i a b c r"
  have "\<exists>k x. k < length (gnss_list r) \<and> nat i < length (used_in_fix r) \<and> sv_id x = i
      \<and> ?u = r\<lparr>gnss_list := (gnss_list r)[k := x], sv_count := sv_count r + 1\<rparr>" if n: "?u \<noteq> r"
  proof -
    have "nat i < length (used_in_fix r)" using gnss_update_id[OF n] assms by (simp add: tables_wf_def)
    then show ?thesis
      using gnss_update_shape[OF n] gnss_tab.upd_index[OF assms n] by blast
  qed
  moreover have "\<exists>k x. k < length (gps_list r) \<and> sv_id x = i
      \<and> ?v = r\<lparr>gps_list := (gps_list r)[k := x], sv_count := sv_count r + 1\<rparr>" if n: "?v \<noteq> r"
    using gps_update_shape[OF n] gps_tab.upd_index[OF assms n] by blast
  ultimately show ?thesis by blast
qed

theorem sv_update_in_bounds_witness:
  "\<exists>k x. k < 64 \<and> nmea_reader_update_sv_status_gnss genv0 5 Dummy Dummy Dummy (nmea_reader_init genv0 at0) =
     (nmea_reader_init genv0 at0)\<lparr>gnss_list := (gnss_list (nmea_reader_init genv0 at0))[k := x], sv_count := 1\<rparr>"
proof -
  let ?r = "nmea_reader_init genv0 at0"
  have "tables_wf genv0 ?r" using reader_wf_init[of genv0 at0] by (simp add: reader_wf_def genv0_def)
  moreover have "nmea_reader_update_sv_status_gnss genv0 5 Dummy Dummy Dummy ?r \<noteq> ?r"
    by (auto simp: nmea_reader_update_sv_status_gnss_def nmea_reader_init_def genv0_def Let_def
        dest!: arg_cong[where f = sv_count])
  ultimately show ?thesis
    using sv_update_in_bounds[of genv0 ?r 5 Dummy Dummy Dummy]
    by (auto simp: nmea_reader_init_def genv0_def Let_def)
qed

text \<open>
  A last GSV sentence that carries no satellites, repeated without a first one, adds the same
  satellites to the reported number every time: the number has no bound, although the table has.
\<close>

theorem gsv_number_unbounded:
  assumes "gsv_head tz r = (num, num, cnt, n)" "num \<noteq> 1" "n \<le> 0" "sv_count r \<le> cnt"
    and "gps_at g \<Longrightarrow> MNL_AT_TEST_FLAG (atst r) = 0 \<and> MNL_AT_SIGNAL_MODE (atst r) = 0"
  shows "((parse_gsv_gnss g tz bds) ^^ k) r = r\<lparr>gnss_num := gnss_num r + int k * sv_count r\<rparr>"
proof (induction k)
  case (Suc k)
  let ?r = "r\<lparr>gnss_num := gnss_num r + int k * sv_count r\<rparr>"
  have "gsv_head tz ?r = (num, num, cnt, n)" using assms(1) by (simp add: gsv_head_def)
  then have "parse_gsv_gnss g tz bds ?r = ?r\<lparr>gnss_num := gnss_num ?r + sv_count ?r\<rparr>"
    using assms by (auto simp: parse_gsv_gnss_def at_test_def)
  then show ?case using Suc by (simp add: algebra_simps)
qed simp

definition gsv_line :: string where
  "gsv_line = ''GPGSV,20,20,12''"

definition gsv_reader :: "int reader" where
  "gsv_reader = (nmea_reader_init genv0 at0)\<lparr>rin := gsv_line @ replicate 114 (CHR 0x00), sv_count := 12\<rparr>"

theorem gsv_number_unbounded_witness:
  "gnss_num (((parse_gsv_gnss genv0 [(0, 5), (6, 8), (9, 11), (12, 14)] False) ^^ 10) gsv_reader) = 120
   \<and> GNSS_MAX_SVS genv0 = 64"
proof -
  have "gsv_head [(0, 5), (6, 8), (9, 11), (12, 14)] gsv_reader = (20, 20, 12, - 64)"
    by (simp add: gsv_head_def gsv_reader_def gsv_line_def nmea_tokenizer_get_def span_def
        str2int_def digit_of_def c32_def nmea_reader_init_def Let_def)
  from gsv_number_unbounded[OF this, where g = genv0 and bds = False and k = 10] show ?thesis
    by (simp add: gsv_reader_def genv0_def nmea_reader_init_def at0_def at_init_def Let_def)
qed

text \<open>
  C17: A location is reported only while a fix is held, at the end of a burst, and with some
  content; reporting clears the content, so the same fix is not reported twice.
\<close>

theorem location_reported_when_fixed:
  "\<exists>e. gevents (nmea_reader_parse g r) = gevents r @ e
    \<and> (filter is_location e = []
       \<or> (\<exists>f. filter is_location e = [LocationCb f] \<and> fx_flags f \<noteq> {} \<and> end_tag g
            \<and> LOC_FIXED (nmea_reader_parse g r) \<and> fx_flags (rfix (nmea_reader_parse g r)) = {}))"
proof -
  consider t where "nmea_reader_parse g r = r\<lparr>atst := t\<rparr>" | tz p t where
    "nmea_reader_parse g r = report_svs g (report_fix g (parse_sentence g tz p (r\<lparr>atst := t\<rparr>)))"
    using parse_cases[of g r] by blast
  then show ?thesis
  proof cases
    case 2
    let ?r1 = "parse_sentence g tz p (r\<lparr>atst := t\<rparr>)"
    have ev: "gevents ?r1 = gevents r" using keeps_sentence_at[of g r tz p t] by (simp add: keeps_def)
    obtain e where e: "gevents (report_svs g (report_fix g ?r1)) = gevents (report_fix g ?r1) @ e"
      "filter is_location e = []" using report_svs_events by blast
    show ?thesis
      using report_fix_events[of g ?r1] e ev 2 by (auto simp: LOC_FIXED_def)
  qed simp
qed

theorem location_reported_when_fixed_witness:
  "filter is_location (gevents (nmea_reader_parse genv0 (nmea_reader_init genv0 at0))) = []"
proof -
  have "\<not> LOC_FIXED (nmea_reader_parse genv0 (nmea_reader_init genv0 at0))"
    by (simp add: nmea_reader_parse_def parse_received_def nmea_reader_init_def genv0_def at0_def at_init_def
        at_gate_def LOC_FIXED_def Let_def)
  moreover have "gevents (nmea_reader_init genv0 at0) = []"
    by (simp add: nmea_reader_init_def Let_def)
  ultimately show ?thesis
    using location_reported_when_fixed[of genv0 "nmea_reader_init genv0 at0"] by auto
qed

text \<open>
  In a BeiDou sentence an empty satellite id counts as satellite 200, which is accepted and
  recorded as a GLONASS satellite.
\<close>

theorem beidou_empty_id_is_glonass:
  assumes "sv_count r < GNSS_MAX_SVS g" "sv_count r + gnss_num r < GNSS_MAX_SVS g" "tables_wf g r"
    and "tok_text (rin r) (nmea_tokenizer_get tz 4) = []"
  shows "\<exists>x. gnss_list (gsv_loop g (nmea_reader_update_sv_status_gnss g) tz True 1 0 r) !
      nat (sv_count r + gnss_num r) = x \<and> sv_id x = 200 \<and> sv_const x = C_GLONASS"
  using assms
  by (simp add: tables_wf_def Let_def str2int_def c32_def nmea_reader_update_sv_status_gnss_def)

theorem beidou_empty_id_is_glonass_witness:
  "\<exists>x. gnss_list (gsv_loop genv0 (nmea_reader_update_sv_status_gnss genv0) [] True 1 0 (nmea_reader_init genv0 at0)) ! 0 = x
    \<and> sv_id x = 200 \<and> sv_const x = C_GLONASS"
proof -
  have "tables_wf genv0 (nmea_reader_init genv0 at0)"
    using reader_wf_init[of genv0 at0] by (simp add: reader_wf_def genv0_def)
  then show ?thesis
    using beidou_empty_id_is_glonass[of "nmea_reader_init genv0 at0" genv0 "[]"]
    by (simp add: nmea_reader_init_def genv0_def nmea_tokenizer_get_def Let_def)
qed

lemma grows_at_test: "grows (atst r) (atst (at_test g r))"
  by (simp add: at_test_def grows_test_proc)

text \<open>
  With \<open>GPS_AT_COMMAND\<close> the satellites of a GSV sentence are noted in the AT tables before they
  are checked: when 32
  or more have been counted, any further sentence of the set that carries a satellite writes behind
  the 32 entries of these tables; as long as the sentence ends within 32, noting its satellites stays inside.
\<close>

theorem prn_table_overflow:
  assumes "gsv_head tz r = (num, seq, cnt, n)" "seq \<noteq> 1" "0 < n"
  shows "(gps_at g \<and> 32 \<le> sv_count r \<longrightarrow>
      PrnTable (sv_count r) \<in> set (ub (atst (parse_gsv_gnss g tz bds r)))
      \<and> PrnTable (sv_count r) \<in> set (ub (atst (parse_gsv_gps g tz bds r))))
    \<and> (0 \<le> sv_count r \<and> sv_count r + n \<le> 32 \<longrightarrow>
      ub (atst (gsv_loop g (nmea_reader_update_sv_status_gnss g) tz bds (nat n) 0 r)) = ub (atst r))"
proof -
  let ?l = "\<lambda>u. gsv_loop g (u g) tz bds (nat n) 0 r"
  have over: "PrnTable (sv_count r) \<in> set (ub (atst (?l nmea_reader_update_sv_status_gnss)))"
    "PrnTable (sv_count r) \<in> set (ub (atst (?l nmea_reader_update_sv_status_gps)))" if "gps_at g \<and> 32 \<le> sv_count r"
    using gnss_tab.loop_at_overflow[where g = g and r = r] gps_tab.loop_at_overflow[where g = g and r = r] that assms(3) by simp_all
  have "PrnTable (sv_count r) \<in> set (ub (atst (parse_gsv_gnss g tz bds r)))" if "gps_at g \<and> 32 \<le> sv_count r"
    using over(1)[OF that] assms(1,2) by (auto simp: parse_gsv_gnss_def Let_def intro!: grows_in[OF grows_at_test])
  moreover have "PrnTable (sv_count r) \<in> set (ub (atst (parse_gsv_gps g tz bds r)))" if "gps_at g \<and> 32 \<le> sv_count r"
    using over(2)[OF that] assms(1,2) by (auto simp: parse_gsv_gps_def Let_def intro!: grows_in[OF grows_at_test])
  ultimately show ?thesis using gnss_tab.loop_at_safe[of r "nat n"] assms(3) by auto
qed

definition gsv_reader32 :: "int reader" where
  "gsv_reader32 = (nmea_reader_init genv0 at0)
     \<lparr>rin := ''GPGSV,10,9,36'' @ replicate 116 (CHR 0x00), sv_count := 32\<rparr>"

theorem prn_table_overflow_witness:
  "PrnTable 32 \<in> set (ub (atst (parse_gsv_gnss genv0 [(0, 5), (6, 8), (9, 10), (11, 13)] False gsv_reader32)))"
proof -
  have "gsv_head [(0, 5), (6, 8), (9, 10), (11, 13)] gsv_reader32 = (10, 9, 36, 4)"
    by (simp add: gsv_head_def gsv_reader32_def nmea_tokenizer_get_def span_def
        str2int_def digit_of_def c32_def nmea_reader_init_def Let_def)
  from prn_table_overflow[OF this, of genv0 False] show ?thesis
    by (simp add: gsv_reader32_def genv0_def)
qed

end
