(* ===== verification/Gps_Epo.thy ===== *)
theory Gps_Epo
  imports Gps_Nmea
begin

text \<open>
  The extended prediction orbit (EPO) download of \<open>src/hal/gps/hal/gps_mtk_aosp.c\<close>
  (\<open>EPO_SUPPORT\<close>): the configuration file, the piece file names, the GPS calendar, the times and
  the expiry of the orbit file, the download of one piece, and one round of the download thread.

  The file system is a map from paths to contents.  \<open>mktime\<close>, modification times, \<open>getEpoUrl\<close> (a
  prebuilt library) and the transfer by curl are parameters.
\<close>

section \<open>Configuration lines\<close>

definition IS_SPACE :: "char \<Rightarrow> bool" where
  "IS_SPACE c = (c = CHR '' '' \<or> c = CHR 0x09 \<or> c = CHR 0x0A)"

definition GPS_CONF_FILE_SIZE :: nat where "GPS_CONF_FILE_SIZE = 100"

text \<open>\<open>None\<close> is the error -1, \<open>Some None\<close> a comment, \<open>Some (Some (key, value))\<close> a setting.\<close>

definition get_val :: "string \<Rightarrow> (string \<times> string) option option" where
  "get_val s =
     (if s = [] then None
      else if hd s = CHR ''#'' then Some None
      else if last s \<noteq> CHR 0x0A \<and> GPS_CONF_FILE_SIZE - 1 \<le> length s then None
      else
        let key = takeWhile (\<lambda>c. c \<noteq> CHR ''='') s
        in if length key = length s then None
           else Some (Some (key,
             takeWhile (\<lambda>c. \<not> IS_SPACE c) (dropWhile IS_SPACE (drop (length key + 1) s)))))"

text \<open>\<open>fgets\<close> with a buffer of \<open>n + 1\<close> bytes: up to \<open>n\<close> characters, ending behind a newline.\<close>

definition fgets_take :: "nat \<Rightarrow> string \<Rightarrow> nat" where
  "fgets_take n s = min n (min (length s) (length (takeWhile (\<lambda>c. c \<noteq> CHR 0x0A) s) + 1))"

function fgets_lines :: "string \<Rightarrow> string list" where
  "fgets_lines s =
     (if s = [] then []
      else let k = fgets_take (GPS_CONF_FILE_SIZE - 1) s in take k s # fgets_lines (drop k s))"
  by pat_completeness auto
termination
  by (relation "measure length") (auto simp: fgets_take_def GPS_CONF_FILE_SIZE_def)

declare fgets_lines.simps [simp del]

record epo_cfg =
  gps_epo_enable :: int
  gps_epo_download_days :: int
  gps_epo_period :: int
  wifi_epo_period :: int
  gps_epo_wifi_trigger :: int

definition epo_cfg0 :: epo_cfg where
  "epo_cfg0 = \<lparr>gps_epo_enable = 1, gps_epo_download_days = 30, gps_epo_period = 3,
               wifi_epo_period = 1, gps_epo_wifi_trigger = 0\<rparr>"

text \<open>\<open>str2int(val, val + strlen(val) - 1)\<close>: the last character is left out.\<close>

definition cfg_int :: "string \<Rightarrow> int" where
  "cfg_int v = str2int (butlast v)"

definition cfg_set :: "string \<Rightarrow> string \<Rightarrow> epo_cfg \<Rightarrow> epo_cfg" where
  "cfg_set key v c =
     (let n = cfg_int v
      in if key = ''EPO_ENABLE'' then c\<lparr>gps_epo_enable := (if n \<noteq> 1 \<and> n \<noteq> 0 then 1 else n)\<rparr>
         else if key = ''DW_DAYS'' then c\<lparr>gps_epo_download_days := (if n > 30 \<or> n < 0 then 30 else n)\<rparr>
         else if key = ''GPS_EPO_PERIOD''
         then c\<lparr>gps_epo_period := (if n \<noteq> 30 \<and> n \<noteq> 3 \<and> n \<noteq> 15 then 3 else n)\<rparr>
         else if key = ''WIFI_EPO_PERIOD''
         then c\<lparr>wifi_epo_period := (if n \<noteq> 30 \<and> n \<noteq> 3 \<and> n \<noteq> 15 then 1 else n)\<rparr>
         else if key = ''EPO_WIFI_TRIGGER''
         then c\<lparr>gps_epo_wifi_trigger := (if n \<noteq> 1 \<and> n \<noteq> 0 then 1 else n)\<rparr>
         else c)"

text \<open>The lines of the configuration; a line that is no setting ends the reading with 1.\<close>

fun cfg_lines :: "string list \<Rightarrow> epo_cfg \<Rightarrow> int \<times> epo_cfg" where
  "cfg_lines [] c = (gps_epo_enable c, c)"
| "cfg_lines (l # ls) c =
     (case get_val (takeWhile (\<lambda>x. x \<noteq> CHR 0x00) l) of
        None \<Rightarrow> (1, c)
      | Some None \<Rightarrow> cfg_lines ls c
      | Some (Some (key, v)) \<Rightarrow> cfg_lines ls (cfg_set key v c))"

definition gps_download_epo_enable :: "string option \<Rightarrow> epo_cfg \<Rightarrow> int \<times> epo_cfg" where
  "gps_download_epo_enable file c =
     (case file of None \<Rightarrow> (1, c) | Some s \<Rightarrow> cfg_lines (fgets_lines s) c)"

text \<open>\<open>read_prop\<close>: the GNSS mode of a property file.\<close>

fun prop_lines :: "string list \<Rightarrow> int \<Rightarrow> int \<times> int" where
  "prop_lines [] m = (0, m)"
| "prop_lines (l # ls) m =
     (case get_val (takeWhile (\<lambda>x. x \<noteq> CHR 0x00) l) of
        None \<Rightarrow> (- 1, m)
      | Some None \<Rightarrow> prop_lines ls m
      | Some (Some (key, v)) \<Rightarrow> prop_lines ls (if key = ''GNSS_MODE'' then c_atoi v else m))"

definition read_prop :: "string option \<Rightarrow> int \<Rightarrow> int \<times> int" where
  "read_prop file m = (case file of None \<Rightarrow> (- 1, m) | Some s \<Rightarrow> prop_lines (fgets_lines s) m)"

section \<open>Piece files\<close>

text \<open>The name of piece \<open>count\<close> of ten; other numbers keep the name of before.\<close>

definition piece_name :: "int \<Rightarrow> int \<Rightarrow> string \<Rightarrow> string option" where
  "piece_name epo_type count ext =
     (if 0 \<le> count \<and> count \<le> 9 \<and> (epo_type = 1 \<or> epo_type = 0)
      then Some ((if epo_type = 1 then ''EPO_GPS_3_'' else ''EPO_GR_3_'') @ show_nat (nat count + 1) @ ext)
      else None)"

definition gps_download_epo_file_name ::
    "int \<Rightarrow> int \<Rightarrow> string \<times> string \<Rightarrow> string \<times> string" where
  "gps_download_epo_file_name epo_type count names =
     (case (piece_name epo_type count ''.DAT'', piece_name epo_type count ''.MD5'') of
        (Some f, Some m) \<Rightarrow> (f, m) | _ \<Rightarrow> names)"

section \<open>The GPS calendar\<close>

definition leap_elapsed :: "nat \<Rightarrow> bool" where
  "leap_elapsed y = (if y mod 100 = 20 then y mod 400 = 20 else y mod 4 = 0)"

text \<open>Years since 1980 and days into the year, from days since the first of January 1980.\<close>

function year_loop :: "nat \<Rightarrow> nat \<Rightarrow> nat \<times> nat" where
  "year_loop d y =
     (if 365 \<le> d
      then if y mod 100 = 20
           then if y mod 400 = 20
                then if 366 \<le> d then year_loop (d - 366) (y + 1) else (y, d)
                else year_loop (d - 365) (y + 1)
           else if y mod 4 = 0
                then if 366 \<le> d then year_loop (d - 366) (y + 1) else (y, d)
           else year_loop (d - 365) (y + 1)
      else (y, d))"
  by pat_completeness auto
termination by (relation "measure fst") auto

declare year_loop.simps [simp del]

definition doy :: "nat list" where
  "doy = [0, 31, 59, 90, 120, 151, 181, 212, 243, 273, 304, 334]"

definition doy_of :: "bool \<Rightarrow> nat list" where
  "doy_of leap = (if leap then take 2 doy @ map Suc (drop 2 doy) else doy)"

text \<open>The first month whose table entry lies after the day, 12 when there is none.\<close>

fun month_loop :: "nat \<Rightarrow> nat \<Rightarrow> nat list \<Rightarrow> nat" where
  "month_loop d i [] = i"
| "month_loop d i (x # xs) = (if d < x then i else month_loop d (i + 1) xs)"

definition gps_date :: "nat \<Rightarrow> nat \<times> nat \<times> nat" where
  "gps_date days =
     (let (y, d) = year_loop days 0;
          t = doy_of (leap_elapsed y);
          i = month_loop d 0 t
      in (1980 + y, i, if 0 < i then d - t ! (i - 1) + 1 else 0))"

text \<open>
  \<open>GpsToUtcTime\<close>: \<open>mk\<close> is \<open>mktime\<close> of year, month (from 1), day, hour, minute and second.  The code
  calls it with whole seconds below one week.
\<close>

definition GpsToUtcTime :: "(nat \<Rightarrow> nat \<Rightarrow> nat \<Rightarrow> nat \<Rightarrow> nat \<Rightarrow> nat \<Rightarrow> int) \<Rightarrow> nat \<Rightarrow> nat \<Rightarrow> int" where
  "GpsToUtcTime mk week tow =
     (let (y, m, d) = gps_date (week * 7 + tow div 86400 + 5);
          sec = tow - tow div 86400 * 86400
      in mk y m d (sec div 3600) (sec mod 3600 div 60) (sec - sec div 60 * 60))"

section \<open>The orbit file\<close>

definition EPO_FILE :: string where "EPO_FILE = ''/data/misc/gps/EPO.DAT''"
definition EPO_FILE_HAL :: string where "EPO_FILE_HAL = ''/data/misc/gps/EPOHAL.DAT''"
definition GPS_DIR :: string where "GPS_DIR = ''/data/misc/gps/''"
definition MTK_EPO_ONE_SV_SIZE :: nat where "MTK_EPO_ONE_SV_SIZE = 72"

type_synonym fs = "string \<rightharpoonup> string"

text \<open>
  The world of the download: \<open>mktime\<close>, modification times, which files can be opened and locked,
  the current time, \<open>getEpoUrl\<close>, and the \<open>k\<close>-th transfer (its code and, when it got as far as
  opening the destination, what it wrote there).
\<close>

record epo_env =
  ee_mk :: "nat \<Rightarrow> nat \<Rightarrow> nat \<Rightarrow> nat \<Rightarrow> nat \<Rightarrow> nat \<Rightarrow> int"
  ee_mtime :: "string \<Rightarrow> int"
  ee_open :: "string \<Rightarrow> bool"
  ee_lock :: bool
  ee_now :: int
  ee_url :: "string \<Rightarrow> string \<Rightarrow> string option"
  ee_curl :: "nat \<Rightarrow> int \<times> string option"
  ee_conf :: "string option"
  ee_send :: "nat \<Rightarrow> send_res"

record epo_st =
  ecfg :: epo_cfg
  files :: fs
  gps_epo_type :: int
  gps_epo_file_count :: int
  epo_names :: "string \<times> string"
  epo_download_failed :: int
  epo_download_retry :: int
  epo_data_updated :: int
  estarted :: int
  counter :: int
  file_retrying :: int
  retry_time :: int
  timers :: "int list"
  ncurl :: nat
  eagps :: agps_st
  stuck :: bool

text \<open>The hour count in the first three bytes of a record, as \<open>unsigned int\<close> seconds.\<close>

definition epo_secs :: "string \<Rightarrow> nat" where
  "epo_secs b =
     ((of_char (b ! 0) + 256 * of_char (b ! 1) + 65536 * of_char (b ! 2)) * 3600) mod 2 ^ 32"

definition utc_of_secs :: "epo_env \<Rightarrow> nat \<Rightarrow> int" where
  "utc_of_secs e secs = GpsToUtcTime (ee_mk e) (secs div 604800) (secs mod 604800)"

definition mtk_gps_sys_epo_period_start :: "epo_env \<Rightarrow> string \<Rightarrow> int option" where
  "mtk_gps_sys_epo_period_start e b =
     (if length b < MTK_EPO_ONE_SV_SIZE then None else Some (utc_of_secs e (epo_secs b)))"

text \<open>\<open>fsize\<close> is the \<open>int\<close> the code takes for the length of the file.\<close>

definition mtk_gps_sys_epo_period_end :: "epo_env \<Rightarrow> int \<Rightarrow> string \<Rightarrow> int option" where
  "mtk_gps_sys_epo_period_end e fsize b =
     (if fsize < int MTK_EPO_ONE_SV_SIZE then None
      else
        let rest = drop (nat fsize - MTK_EPO_ONE_SV_SIZE) b
        in if length rest < MTK_EPO_ONE_SV_SIZE then None
           else Some (utc_of_secs e ((epo_secs rest + 21600) mod 2 ^ 32)))"

definition epo_path :: "fs \<Rightarrow> string option" where
  "epo_path f = (if f EPO_FILE_HAL \<noteq> None then Some EPO_FILE_HAL
                 else if f EPO_FILE \<noteq> None then Some EPO_FILE else None)"

definition mtk_gps_sys_get_file_size :: "fs \<Rightarrow> int" where
  "mtk_gps_sys_get_file_size f =
     (case epo_path f of None \<Rightarrow> - 1
      | Some p \<Rightarrow> (case f p of None \<Rightarrow> 0 | Some b \<Rightarrow> c32 (int (length b))))"

text \<open>Start, download and end of the orbit file in \<open>uTime\<close>, filled as far as the reading gets.\<close>

definition mtk_gps_epo_file_time_hal ::
    "epo_env \<Rightarrow> fs \<Rightarrow> int \<times> int \<times> int \<Rightarrow> int \<times> int \<times> int \<times> int" where
  "mtk_gps_epo_file_time_hal e f u =
     (case u of (u0, u1, u2) \<Rightarrow>
       case epo_path f of None \<Rightarrow> (- 1, u0, u1, u2)
       | Some p \<Rightarrow>
          (case f p of None \<Rightarrow> (- 1, u0, u1, u2)
           | Some b \<Rightarrow>
               if \<not> ee_open e p then (- 1, u0, u1, u2)
               else if \<not> ee_lock e then (- 1, u0, u1, u2)
               else case mtk_gps_sys_epo_period_start e b of
                      None \<Rightarrow> (- 1, u0, u1, u2)
                    | Some t0 \<Rightarrow>
                        (case mtk_gps_sys_epo_period_end e (mtk_gps_sys_get_file_size f) b of
                           None \<Rightarrow> (- 1, t0, ee_mtime e p, u2)
                         | Some t2 \<Rightarrow> (0, t0, ee_mtime e p, t2))))"

text \<open>How long after its start the file counts as fresh, by the days it covers.\<close>

definition epo_expired_set :: "epo_cfg \<Rightarrow> bool \<Rightarrow> int \<Rightarrow> int \<Rightarrow> int" where
  "epo_expired_set c wifi u0 u2 =
     (let etime = gps_epo_period c * 24 * 60 * 60
      in if wifi then wifi_epo_period c * 24 * 60 * 60
         else if u2 - u0 < etime
         then let d = cdiv (u2 - u0) (24 * 60 * 60)
              in if d < 3 then 0
                 else if d < 6 then 2 * 24 * 60 * 60
                 else if 6 \<le> d \<and> d < 9 then 5 * 24 * 60 * 60
                 else 7 * 24 * 60 * 60
         else etime)"

definition mtk_epo_is_expired :: "epo_env \<Rightarrow> bool \<Rightarrow> epo_st \<Rightarrow> bool \<times> epo_st" where
  "mtk_epo_is_expired e wifi s =
     (case mtk_gps_epo_file_time_hal e (files s) (0, 0, 0) of
        (_, u0, u1, u2) \<Rightarrow>
          if ee_now e \<ge> epo_expired_set (ecfg s) wifi u0 u2 + u0
          then (True, s\<lparr>gps_epo_file_count := 0\<rparr>) else (False, s))"

section \<open>The transfer of a piece\<close>

definition unlink :: "string \<Rightarrow> epo_st \<Rightarrow> epo_st" where
  "unlink p s = s\<lparr>files := (files s)(p := None)\<rparr>"

definition CURLE_FAILED_INIT :: int where "CURLE_FAILED_INIT = 2"

definition curl_easy_download :: "epo_env \<Rightarrow> string \<Rightarrow> epo_st \<Rightarrow> int \<times> epo_st" where
  "curl_easy_download e p s =
     (let (res, body) = ee_curl e (ncurl s);
          s1 = s\<lparr>ncurl := ncurl s + 1\<rparr>
      in case body of None \<Rightarrow> (CURLE_FAILED_INIT, s1)
         | Some b \<Rightarrow> (res, s1\<lparr>files := (files s1)(p \<mapsto> b)\<rparr>))"

definition zero_key :: string where "zero_key = ''0000000000000000''"

definition with_counter :: "string \<Rightarrow> int \<Rightarrow> string" where
  "with_counter key n = key @ ''&counter='' @ show_int n"

text \<open>The key is what the digest file holds from byte 32 on, at most 16 characters.\<close>

definition md_key :: "string \<Rightarrow> string" where
  "md_key b = takeWhile (\<lambda>c. c \<noteq> CHR 0x00) (take 16 (drop 32 (take 48 b)))"

definition fetch_key :: "epo_env \<Rightarrow> int \<Rightarrow> epo_st \<Rightarrow> string \<times> epo_st" where
  "fetch_key e res s =
     (let p = GPS_DIR @ snd (epo_names s)
      in if res = 0
         then case files s p of
                Some b \<Rightarrow> if ee_open e p then (md_key b, (unlink p s)\<lparr>counter := 1\<rparr>)
                          else (zero_key, s\<lparr>counter := 1\<rparr>)
              | None \<Rightarrow> (zero_key, s\<lparr>counter := 1\<rparr>)
         else (zero_key, s\<lparr>counter := c32 (counter s + 1)\<rparr>))"

text \<open>Appending the piece to the orbit file.\<close>

definition append_piece :: "epo_env \<Rightarrow> string \<Rightarrow> epo_st \<Rightarrow> epo_st" where
  "append_piece e p s =
     (if ee_open e EPO_FILE_HAL
      then let old = (case files s EPO_FILE_HAL of None \<Rightarrow> [] | Some b \<Rightarrow> b);
               new = (if ee_open e p then case files s p of None \<Rightarrow> [] | Some b \<Rightarrow> b else [])
           in s\<lparr>files := (files s)(EPO_FILE_HAL \<mapsto> old @ new)\<rparr>
      else s)"

definition curl_easy_download_epo :: "epo_env \<Rightarrow> epo_st \<Rightarrow> int \<times> epo_st" where
  "curl_easy_download_epo e s =
     (let (name, md) = epo_names s
      in case ee_url e md (with_counter zero_key (counter s)) of
           None \<Rightarrow> (CURLE_FAILED_INIT, s)
         | Some _ \<Rightarrow>
             let (r1, s1) = curl_easy_download e (GPS_DIR @ md) s;
                 (key, s2) = fetch_key e r1 s1
             in case ee_url e name (with_counter key (counter s2)) of
                  None \<Rightarrow> (CURLE_FAILED_INIT, s2)
                | Some _ \<Rightarrow>
                    let p = GPS_DIR @ name;
                        (r2, s3) = curl_easy_download e p s2
                    in if r2 = 0
                       then let s4 = s3\<lparr>counter := 1\<rparr>;
                                s5 = (if gps_epo_file_count s4 = 0 then unlink EPO_FILE_HAL s4 else s4)
                            in (r2, append_piece e p s5)
                       else (r2, (unlink p s3)\<lparr>counter := c32 (counter s3 + 1)\<rparr>))"

definition mtk_gps_epo_file_update_hal :: "epo_env \<Rightarrow> epo_st \<Rightarrow> int \<times> epo_st" where
  "mtk_gps_epo_file_update_hal e s =
     (let (res, s1) = curl_easy_download_epo e s
      in if res \<noteq> 0 then (- 1, s1\<lparr>epo_download_failed := 1\<rparr>) else (0, s1))"

section \<open>Comparing a piece with the one before\<close>

definition set_piece :: "int \<Rightarrow> epo_st \<Rightarrow> epo_st" where
  "set_piece count s =
     s\<lparr>epo_names := gps_download_epo_file_name (gps_epo_type s) count (epo_names s)\<rparr>"

definition piece_path :: "epo_st \<Rightarrow> string" where
  "piece_path s = GPS_DIR @ fst (epo_names s)"

definition mtk_gps_epo_get_piece_file_size :: "epo_st \<Rightarrow> int" where
  "mtk_gps_epo_get_piece_file_size s =
     (case files s (piece_path s) of None \<Rightarrow> 0 | Some b \<Rightarrow> c32 (int (length b)))"

definition mtk_gps_epo_piece_data_start :: "epo_env \<Rightarrow> string \<Rightarrow> int option" where
  "mtk_gps_epo_piece_data_start e b = mtk_gps_sys_epo_period_start e b"

definition mtk_gps_epo_piece_data_end :: "epo_env \<Rightarrow> epo_st \<Rightarrow> string \<Rightarrow> int option" where
  "mtk_gps_epo_piece_data_end e s b =
     mtk_gps_sys_epo_period_end e (mtk_gps_epo_get_piece_file_size s) b"

text \<open>Time of one end of a piece, 0 when the file cannot be opened; the flag is the error.\<close>

definition piece_time :: "epo_env \<Rightarrow> epo_st \<Rightarrow> (string \<Rightarrow> int option) \<Rightarrow> bool \<times> int" where
  "piece_time e s rd =
     (case files s (piece_path s) of
        Some b \<Rightarrow>
          if ee_open e (piece_path s)
          then (case rd b of Some t \<Rightarrow> (False, t) | None \<Rightarrow> (True, 0)) else (False, 0)
      | None \<Rightarrow> (False, 0))"

fun unlink_pieces :: "nat \<Rightarrow> epo_st \<Rightarrow> epo_st" where
  "unlink_pieces n s =
     (let s1 = set_piece (int n) s; s2 = unlink (piece_path s1) s1
      in case n of 0 \<Rightarrow> s2 | Suc m \<Rightarrow> unlink_pieces m s2)"

declare unlink_pieces.simps [simp del]

definition mtk_gps_epo_server_data_is_changed :: "epo_env \<Rightarrow> epo_st \<Rightarrow> int \<times> epo_st" where
  "mtk_gps_epo_server_data_is_changed e s =
     (let (bad0, t0) = piece_time e s (mtk_gps_epo_piece_data_start e);
          s1 = (if bad0 then s\<lparr>epo_download_failed := 1\<rparr> else s);
          n = gps_epo_file_count s1;
          s2 = (if 0 < n then set_piece (n - 1) s1 else s1);
          (bad1, t1) = (if 0 < n then piece_time e s2 (mtk_gps_epo_piece_data_end e s2)
                        else if n = 0 then (False, t0) else (False, 0));
          s3 = (if bad1 then s2\<lparr>epo_download_failed := 1\<rparr> else s2)
      in if t0 - t1 \<ge> 24 * 60 * 60
         then (1, (unlink EPO_FILE_HAL (if 0 \<le> n then unlink_pieces (nat n) s3 else s3))
                    \<lparr>gps_epo_file_count := 0\<rparr>)
         else (if bad0 \<or> bad1 then 1 else 0, s3))"

section \<open>Updating the orbit file\<close>

definition send_update :: "epo_env \<Rightarrow> epo_st \<Rightarrow> int \<times> epo_st" where
  "send_update e s =
     (case send_msg (ee_send e) [FInt 0x34] (eagps s) of
        Done r a \<Rightarrow> (r, s\<lparr>eagps := a\<rparr>) | _ \<Rightarrow> (- 1, s\<lparr>stuck := True\<rparr>))"

text \<open>The pieces \<open>i, i+1, ..., i+k-1\<close> are deleted.\<close>

fun delete_pieces :: "nat \<Rightarrow> int \<Rightarrow> epo_st \<Rightarrow> epo_st" where
  "delete_pieces 0 i s = s"
| "delete_pieces (Suc k) i s =
     (let s1 = set_piece i s in delete_pieces k (i + 1) (unlink (piece_path s1) s1))"

definition wanted_pieces :: "epo_cfg \<Rightarrow> int" where
  "wanted_pieces c =
     (let d = gps_epo_download_days c in cdiv d 3 + (if d - 3 * cdiv d 3 > 0 then 1 else 0))"

definition mtk_gps_epo_file_update :: "epo_env \<Rightarrow> epo_st \<Rightarrow> int \<times> epo_st" where
  "mtk_gps_epo_file_update e s0 =
     (let (ret, s1) = mtk_gps_epo_file_update_hal e s0
      in if ret < 0 then (- 1, s1)
         else
           let (changed, s2) = mtk_gps_epo_server_data_is_changed e s1
           in if changed = 1 then (- 1, s2)
              else
                let s3 = s2\<lparr>gps_epo_file_count := c32 (gps_epo_file_count s2 + 1)\<rparr>;
                    n = wanted_pieces (ecfg s3)
                in if gps_epo_file_count s3 < 10 \<and> gps_epo_file_count s3 < n then (0, s3)
                   else
                     let s4 = (delete_pieces (nat n) 0 s3)
                                \<lparr>epo_data_updated := 0, gps_epo_file_count := 0\<rparr>;
                         s5 = (if epo_download_failed s4 = 1 then s4\<lparr>epo_download_failed := 0\<rparr> else s4)
                     in if estarted s5 \<noteq> 0 then send_update e (unlink EPO_FILE s5) else (ret, s5))"

section \<open>The download thread\<close>

definition gps_download_epo :: "epo_st \<Rightarrow> epo_st" where
  "gps_download_epo s = s\<lparr>epo_data_updated := 1, gps_epo_file_count := 0\<rparr>"

definition NW_WIFI :: int where "NW_WIFI = 1"

text \<open>A timer is set by \<open>set_retry_alarm_handler\<close>; its expiry runs \<open>retry_alarm_handler\<close>.\<close>

definition set_retry_alarm_handler :: "int \<Rightarrow> epo_st \<Rightarrow> epo_st" where
  "set_retry_alarm_handler t s = s\<lparr>timers := timers s @ [t]\<rparr>"

definition retry_alarm_handler :: "epo_st \<Rightarrow> epo_st" where
  "retry_alarm_handler s = s\<lparr>epo_download_retry := 1\<rparr>"

definition round_download :: "epo_env \<Rightarrow> epo_st \<Rightarrow> epo_st" where
  "round_download e s =
     (if epo_data_updated s = 1
      then let s1 = set_piece (gps_epo_file_count s) (s\<lparr>epo_download_failed := 0\<rparr>);
               s2 = snd (mtk_gps_epo_file_update e s1)
           in if epo_download_failed s2 = 1 then s2\<lparr>epo_data_updated := 0\<rparr> else s2
      else s)"

text \<open>What follows a resumed download that made no progress; \<open>before\<close> is the count before it.\<close>

definition resume_retry :: "int \<Rightarrow> epo_st \<Rightarrow> epo_st" where
  "resume_retry before s =
     (if before = gps_epo_file_count s
      then let s1 = (if file_retrying s = gps_epo_file_count s
                     then s\<lparr>retry_time := c32 (retry_time s + 1)\<rparr>
                     else s\<lparr>file_retrying := gps_epo_file_count s, retry_time := 0\<rparr>)
           in if retry_time s1 < 10
              then set_retry_alarm_handler 15 (s1\<lparr>epo_download_retry := 0\<rparr>)
              else s1\<lparr>epo_download_failed := 0, retry_time := 0, file_retrying := 50\<rparr>
      else s)"

definition round_resume :: "epo_env \<Rightarrow> epo_st \<Rightarrow> epo_st" where
  "round_resume e s =
     (if (estarted s \<noteq> 0 \<or> nw_type (eagps s) = NW_WIFI)
         \<and> nw_connected (eagps s) \<noteq> 0 \<and> epo_download_failed s \<noteq> 0 \<and> epo_download_retry s \<noteq> 0
      then
        let s1 = (if file_retrying s = 50 then s\<lparr>file_retrying := gps_epo_file_count s\<rparr> else s);
            before = gps_epo_file_count s1;
            s2 = (case mtk_gps_epo_file_time_hal e (files s1) (0, 0, 0) of
                    (_, u0, _, _) \<Rightarrow>
                      if ee_now e \<ge> u0 + 24 * 60 * 60
                      then unlink EPO_FILE_HAL (s1\<lparr>epo_download_failed := 0, gps_epo_file_count := 0,
                                                     epo_data_updated := 1\<rparr>)
                      else snd (mtk_gps_epo_file_update e (set_piece (gps_epo_file_count s1) s1)))
        in resume_retry before s2
      else s)"

definition round_wifi :: "epo_env \<Rightarrow> epo_st \<Rightarrow> epo_st" where
  "round_wifi e s =
     (if epo_data_updated s = 0 \<and> gps_epo_wifi_trigger (ecfg s) \<noteq> 0 \<and> gps_epo_enable (ecfg s) \<noteq> 0
         \<and> epo_download_failed s = 0 \<and> nw_connected (eagps s) \<noteq> 0 \<and> nw_type (eagps s) = NW_WIFI
      then let (expired, s1) = mtk_epo_is_expired e True s
           in if expired then unlink EPO_FILE_HAL (gps_download_epo s1) else s1
      else s)"

text \<open>One round of \<open>thread_epo_file_update\<close>: the delay in milliseconds before the next, and the state.\<close>

definition epo_round :: "epo_env \<Rightarrow> epo_st \<Rightarrow> int \<times> epo_st" where
  "epo_round e s =
     (let s1 = s\<lparr>ecfg := snd (gps_download_epo_enable (ee_conf e) (ecfg s))\<rparr>;
          s2 = round_wifi e (round_resume e (round_download e s1))
      in (if epo_data_updated s2 = 0 \<and> epo_download_failed s2 = 0 then 2000 else 100, s2))"

section \<open>The calendar\<close>

definition gregorian_leap :: "nat \<Rightarrow> bool" where
  "gregorian_leap y = (y mod 4 = 0 \<and> (y mod 100 \<noteq> 0 \<or> y mod 400 = 0))"

definition year_days :: "nat \<Rightarrow> nat" where
  "year_days y = (if gregorian_leap y then 366 else 365)"

definition month_days :: "nat \<Rightarrow> nat list" where
  "month_days y = [31, if gregorian_leap y then 29 else 28, 31, 30, 31, 30, 31, 31, 30, 31, 30, 31]"

text \<open>Days since the first of January 1980.\<close>

definition day_number :: "nat \<Rightarrow> nat \<Rightarrow> nat \<Rightarrow> nat" where
  "day_number y m d =
     sum_list (map year_days [1980..<y]) + sum_list (take (m - 1) (month_days y)) + (d - 1)"

lemma shifted_mod_0:
  fixes y k c :: nat
  assumes "c < k"
  shows "((k - c) + y) mod k = 0 \<longleftrightarrow> y mod k = c"
proof -
  let ?r = "y mod k"
  have r: "?r < k" using assms by simp
  have e: "((k - c) + y) mod k = ((k - c) + ?r) mod k" by (simp add: mod_add_right_eq)
  show ?thesis
  proof (cases "?r < c")
    case True
    then show ?thesis using e assms by simp
  next
    case False
    then have sum: "(k - c) + ?r = k + (?r - c)" using assms by simp
    have "(k + (?r - c)) mod k = ?r - c" using r by simp
    then have "((k - c) + ?r) mod k = ?r - c" by (simp only: sum)
    then show ?thesis using e False by linarith
  qed
qed

lemma mod_400_100: "(y::nat) mod 400 = 20 \<Longrightarrow> y mod 100 = 20"
  using mod_mod_cancel[of 100 400 y] by simp

lemma mod_100_4: "(y::nat) mod 100 = 20 \<Longrightarrow> y mod 4 = 0"
  using mod_mod_cancel[of 4 100 y] by simp

lemma leap_elapsed_gregorian: "leap_elapsed y = gregorian_leap (1980 + y)"
proof -
  have "(1980 + y) mod 100 = (80 + y) mod 100" "(1980 + y) mod 400 = (380 + y) mod 400"
    "(1980 + y) mod 4 = y mod 4"
    using mod_mult_self1[of "80 + y" 19 100] mod_mult_self1[of "380 + y" 4 400] mod_mult_self1[of y 495 4]
    by (simp_all add: add.commute)
  then have "(1980 + y) mod 100 = 0 \<longleftrightarrow> y mod 100 = 20" "(1980 + y) mod 400 = 0 \<longleftrightarrow> y mod 400 = 20"
    "(1980 + y) mod 4 = 0 \<longleftrightarrow> y mod 4 = 0"
    using shifted_mod_0[of 20 100 y] shifted_mod_0[of 20 400 y] by simp_all
  then show ?thesis
    unfolding leap_elapsed_def gregorian_leap_def using mod_400_100 mod_100_4 by auto
qed

lemma year_loop_step:
  "year_loop d y = (if year_days (1980 + y) \<le> d then year_loop (d - year_days (1980 + y)) (y + 1) else (y, d))"
  unfolding year_loop.simps[of d y] year_days_def leap_elapsed_gregorian[symmetric] leap_elapsed_def
  by simp

lemma year_loop_spec:
  "year_loop d y = (y', d') \<Longrightarrow>
   y \<le> y' \<and> d' < year_days (1980 + y') \<and> d = sum_list (map year_days [1980 + y..<1980 + y']) + d'"
proof (induction d arbitrary: y rule: less_induct)
  case (less d)
  let ?n = "year_days (1980 + y)"
  show ?case
  proof (cases "?n \<le> d")
    case True
    have pos: "0 < ?n" by (simp add: year_days_def)
    have "year_loop (d - ?n) (y + 1) = (y', d')" using less.prems True by (simp add: year_loop_step[of d])
    then have "y + 1 \<le> y'" "d' < year_days (1980 + y')"
      "d - ?n = sum_list (map year_days [1980 + (y + 1)..<1980 + y']) + d'"
      using less.IH[of "d - ?n" "y + 1"] True pos by auto
    moreover have "[1980 + y..<1980 + y'] = (1980 + y) # [1980 + (y + 1)..<1980 + y']"
      using \<open>y + 1 \<le> y'\<close> by (simp add: upt_conv_Cons)
    ultimately show ?thesis using True by simp
  next
    case False
    then show ?thesis using less.prems by (simp add: year_loop_step[of d])
  qed
qed

lemma month_loop_spec:
  assumes "d < (if leap then 366 else 365)"
  shows "1 \<le> month_loop d 0 (doy_of leap) \<and> month_loop d 0 (doy_of leap) \<le> 12
    \<and> doy_of leap ! (month_loop d 0 (doy_of leap) - 1) \<le> d
    \<and> d < doy_of leap ! (month_loop d 0 (doy_of leap) - 1)
          + [31, if leap then 29 else 28, 31, 30, 31, 30, 31, 31, 30, 31, 30, 31] ! (month_loop d 0 (doy_of leap) - 1)"
  using assms by (cases leap) (simp_all add: doy_of_def doy_def)

lemma doy_of_sums:
  assumes "1 \<le> m" "m \<le> 12"
  shows "doy_of (gregorian_leap y) ! (m - 1) = sum_list (take (m - 1) (month_days y))"
proof -
  have "m = 1 \<or> m = 2 \<or> m = 3 \<or> m = 4 \<or> m = 5 \<or> m = 6 \<or> m = 7 \<or> m = 8 \<or> m = 9 \<or> m = 10
      \<or> m = 11 \<or> m = 12" using assms by presburger
  then show ?thesis by (elim disjE) (simp_all add: doy_of_def doy_def month_days_def)
qed

section \<open>Properties\<close>

text \<open>
  C14: The calendar of the orbit times is the Gregorian one: the date computed for a number of days
  since the first of January 1980 has a valid month and day, and it is the date with that number.
\<close>

theorem gps_date_gregorian:
  "case gps_date n of (y, m, d) \<Rightarrow>
     1980 \<le> y \<and> 1 \<le> m \<and> m \<le> 12 \<and> 1 \<le> d \<and> d \<le> month_days y ! (m - 1) \<and> day_number y m d = n"
proof -
  obtain y d where l: "year_loop n 0 = (y, d)" by fastforce
  let ?Y = "1980 + y"
  let ?t = "doy_of (gregorian_leap ?Y)"
  let ?m = "month_loop d 0 ?t"
  have y: "d < year_days ?Y" "n = sum_list (map year_days [1980..<?Y]) + d"
    using year_loop_spec[OF l] by simp_all
  have m: "1 \<le> ?m" "?m \<le> 12" "?t ! (?m - 1) \<le> d" "d < ?t ! (?m - 1) + month_days ?Y ! (?m - 1)"
    using month_loop_spec[of d "gregorian_leap ?Y"] y(1) by (auto simp: year_days_def month_days_def)
  have g: "gps_date n = (?Y, ?m, d - ?t ! (?m - 1) + 1)"
    using m(1) by (simp add: gps_date_def l leap_elapsed_gregorian Let_def)
  have "day_number ?Y ?m (d - ?t ! (?m - 1) + 1) = n"
    using y(2) m(3) doy_of_sums[OF m(1,2), of ?Y] by (simp add: day_number_def)
  then show ?thesis using g m by simp
qed

lemma butlast_show_nat: "butlast (show_nat n) = (if n < 10 then [] else show_nat (n div 10))"
  by (subst show_nat.simps) simp

lemma fgets_line:
  assumes "CHR 0x0A \<notin> set l" "length l < GPS_CONF_FILE_SIZE - 1"
  shows "fgets_lines (l @ [CHR 0x0A]) = [l @ [CHR 0x0A]]"
proof -
  have "takeWhile (\<lambda>c. c \<noteq> CHR 0x0A) (l @ [CHR 0x0A]) = l"
    using assms(1) by (subst takeWhile_append2) auto
  then have "fgets_take (GPS_CONF_FILE_SIZE - 1) (l @ [CHR 0x0A]) = length l + 1"
    using assms(2) by (simp add: fgets_take_def)
  then show ?thesis by (subst fgets_lines.simps, simp) (subst fgets_lines.simps, simp)
qed

lemma show_nat_no_space: "c \<in> set (show_nat n) \<Longrightarrow> \<not> IS_SPACE c \<and> c \<noteq> CHR 0x00 \<and> c \<noteq> CHR 0x0A \<and> c \<noteq> CHR ''=''"
proof -
  assume "c \<in> set (show_nat n)"
  then obtain d where "digit_of c = Some d" using show_nat_digits[of n] by auto
  then show ?thesis by (auto simp: IS_SPACE_def digit_of_def Let_def split: if_splits)
qed

text \<open>A line \<open>key=number\<close> is a setting of that key with the decimal text as its value.\<close>

lemma get_val_setting:
  assumes "key \<noteq> []" "hd key \<noteq> CHR ''#''" "CHR ''='' \<notin> set key"
  shows "get_val (key @ ''='' @ show_nat n @ [CHR 0x0A]) = Some (Some (key, show_nat n))"
proof -
  let ?l = "key @ ''='' @ show_nat n @ [CHR 0x0A]"
  have tw: "takeWhile (\<lambda>c. c \<noteq> CHR ''='') ?l = key"
    using assms(3) by (subst takeWhile_append2) auto
  obtain c cs where n: "show_nat n = c # cs" by (cases "show_nat n") auto
  have "dropWhile IS_SPACE (show_nat n @ [CHR 0x0A]) = show_nat n @ [CHR 0x0A]"
    using n show_nat_no_space[of c n] by simp
  moreover have "takeWhile (\<lambda>c. \<not> IS_SPACE c) (show_nat n @ [CHR 0x0A]) = show_nat n"
    using show_nat_no_space[of _ n] by (subst takeWhile_append2) (auto simp: IS_SPACE_def)
  ultimately show ?thesis using assms(1,2) tw by (simp add: get_val_def Let_def)
qed

lemma cfg_int_show: "int n < 2 ^ 31 \<Longrightarrow> cfg_int (show_nat n) = int (n div 10)"
proof -
  assume b: "int n < 2 ^ 31"
  show ?thesis
  proof (cases "n < 10")
    case True
    then show ?thesis by (simp add: cfg_int_def butlast_show_nat str2int_def c32_def)
  next
    case False
    have c: "c32 (int (n div 10)) = int (n div 10)" using b by (intro c32_id) (simp add: is_c32_def)
    obtain x xs where n: "show_nat (n div 10) = x # xs" by (cases "show_nat (n div 10)") auto
    then have "x \<noteq> CHR ''-''" using show_nat_first[of "n div 10"] by simp
    then show ?thesis
      using False n dig_loop_show[of "n div 10"] c by (simp add: cfg_int_def butlast_show_nat str2int_def)
  qed
qed

text \<open>
  Every number of the configuration file loses its last digit: the number of days is a tenth of
  what the file says, and any single digit, 1 included, switches the download off.
\<close>

theorem config_loses_digit:
  assumes "int n < 2 ^ 31"
  shows "gps_download_epo_enable (Some (''EPO_ENABLE='' @ show_nat n @ [CHR 0x0A])) c =
      ((if n < 10 then 0 else 1), c\<lparr>gps_epo_enable := (if n < 10 then 0 else 1)\<rparr>)
    \<and> snd (gps_download_epo_enable (Some (''DW_DAYS='' @ show_nat n @ [CHR 0x0A])) c) =
      c\<lparr>gps_epo_download_days := min 30 (int (n div 10))\<rparr>"
proof -
  have short: "length (show_nat n) < 80"
    using show_int_length[of "int n"] assms by (simp add: is_c32_def show_int_def)
  have one: "gps_download_epo_enable (Some (key @ ''='' @ show_nat n @ [CHR 0x0A])) c =
      (gps_epo_enable (cfg_set key (show_nat n) c), cfg_set key (show_nat n) c)"
    if "key \<noteq> []" "hd key \<noteq> CHR ''#''" "CHR ''='' \<notin> set key" "length key < 15"
      "CHR 0x0A \<notin> set key" "CHR 0x00 \<notin> set key" for key
  proof -
    let ?l = "key @ ''='' @ show_nat n"
    have "CHR 0x0A \<notin> set ?l" "length ?l < GPS_CONF_FILE_SIZE - 1"
      using that short show_nat_no_space[of _ n] by (auto simp: GPS_CONF_FILE_SIZE_def)
    then have f: "fgets_lines (?l @ [CHR 0x0A]) = [?l @ [CHR 0x0A]]" by (rule fgets_line)
    have "takeWhile (\<lambda>x. x \<noteq> CHR 0x00) (?l @ [CHR 0x0A]) = ?l @ [CHR 0x0A]"
      using that(6) show_nat_no_space[of _ n] by (intro takeWhile_eq_all_conv[THEN iffD2]) auto
    then show ?thesis
      using f get_val_setting[OF that(1,2,3), of n] by (simp add: gps_download_epo_enable_def)
  qed
  have "n div 10 = 0 \<longleftrightarrow> n < 10" by presburger
  then show ?thesis
    using one[of "''EPO_ENABLE''"] one[of "''DW_DAYS''"] cfg_int_show[OF assms]
    by (auto simp: cfg_set_def Let_def min_def)
qed

theorem config_loses_digit_witness:
  "gps_download_epo_enable (Some (''EPO_ENABLE='' @ show_nat 1 @ [CHR 0x0A])) epo_cfg0 =
     (0, epo_cfg0\<lparr>gps_epo_enable := 0\<rparr>)"
  using config_loses_digit[of 1 epo_cfg0] by simp

text \<open>The days a file covers, cut to whole days, give a freshness that ends with the file.\<close>

lemma expired_set_bound:
  assumes "u0 \<le> u2"
  shows "epo_expired_set c False u0 u2 \<le> u2 - u0"
proof -
  let ?d = "(u2 - u0) div 86400"
  have d: "cdiv (u2 - u0) (24 * 60 * 60) = ?d" using assms by (simp add: cdiv_def sgn_if)
  have "?d * 86400 \<le> u2 - u0" by simp
  then show ?thesis using assms unfolding epo_expired_set_def Let_def d by simp
qed

text \<open>
  An orbit file that is taken as valid when the GPS starts has not passed its end: whatever the
  configured period, a file whose end is not before its start and that is not reported as expired
  ends after the current time.  The check changes nothing but the piece count of an expired file.
\<close>

theorem valid_file_not_past_end:
  assumes "mtk_gps_epo_file_time_hal e (files s) (0, 0, 0) = (r, u0, u1, u2)" "u0 \<le> u2"
    and "mtk_epo_is_expired e False s = (expired, s')"
  shows "(\<not> expired \<longrightarrow> ee_now e < u2 \<and> s' = s) \<and> (expired \<longrightarrow> s' = s\<lparr>gps_epo_file_count := 0\<rparr>)"
  using expired_set_bound[OF assms(2), of "ecfg s"] assms(1,3)
  by (auto simp: mtk_epo_is_expired_def split: if_splits)

definition epo_env0 :: epo_env where
  "epo_env0 = \<lparr>ee_mk = (\<lambda>y m d h mi s. ((int (day_number y m d) * 24 + int h) * 60 + int mi) * 60 + int s),
     ee_mtime = (\<lambda>_. 0), ee_open = (\<lambda>_. True), ee_lock = True, ee_now = 0,
     ee_url = (\<lambda>f k. Some (f @ k)), ee_curl = (\<lambda>k. (0, Some [CHR ''a''])), ee_conf = None,
     ee_send = (\<lambda>_. SOk)\<rparr>"

definition epo_st0 :: epo_st where
  "epo_st0 = \<lparr>ecfg = epo_cfg0, files = (\<lambda>_. None), gps_epo_type = 1, gps_epo_file_count = 0,
     epo_names = (''EPO_GPS_3_1.DAT'', ''EPO_GPS_3_1.MD5''), epo_download_failed = 0,
     epo_download_retry = 1, epo_data_updated = 0, estarted = 0, counter = 1, file_retrying = 50,
     retry_time = 0, timers = [], ncurl = 0, eagps = agps0, stuck = False\<rparr>"

theorem valid_file_not_past_end_witness:
  "mtk_epo_is_expired epo_env0 False epo_st0 = (True, epo_st0\<lparr>gps_epo_file_count := 0\<rparr>)"
proof -
  have t: "mtk_gps_epo_file_time_hal epo_env0 (files epo_st0) (0, 0, 0) = (- 1, 0, 0, 0)"
    by (simp add: mtk_gps_epo_file_time_hal_def epo_path_def epo_st0_def)
  obtain b s' where b: "mtk_epo_is_expired epo_env0 False epo_st0 = (b, s')" by fastforce
  from valid_file_not_past_end[OF t _ b] show ?thesis using b by (cases b) (simp_all add: epo_env0_def)
qed

section \<open>The pieces\<close>

lemma unlink_simps [simp]:
  "files (unlink p s) = (files s)(p := None)" "gps_epo_file_count (unlink p s) = gps_epo_file_count s"
  "epo_names (unlink p s) = epo_names s"
  by (simp_all add: unlink_def)

lemma set_piece_simps [simp]:
  "files (set_piece n s) = files s" "gps_epo_file_count (set_piece n s) = gps_epo_file_count s"
  "gps_epo_type (set_piece n s) = gps_epo_type s"
  by (simp_all add: set_piece_def)

lemma fetch_key_frame:
  assumes "fetch_key e r s = (k, t)"
  shows "gps_epo_file_count t = gps_epo_file_count s" "epo_names t = epo_names s" "ncurl t = ncurl s"
    "p \<noteq> GPS_DIR @ snd (epo_names s) \<Longrightarrow> files t p = files s p"
  using assms by (auto simp: fetch_key_def unlink_def Let_def split: if_splits option.splits)

lemma download_frame:
  assumes "curl_easy_download e q s = (r, t)"
  shows "gps_epo_file_count t = gps_epo_file_count s" "epo_names t = epo_names s" "ncurl t = ncurl s + 1"
    "p \<noteq> q \<Longrightarrow> files t p = files s p"
    "ee_curl e (ncurl s) = (r', Some b) \<Longrightarrow> files t q = Some b \<and> r = r'"
  using assms by (auto simp: curl_easy_download_def Let_def split: option.splits prod.splits)

text \<open>
  C29: A piece whose transfer succeeds is appended to the orbit file byte by byte, and the first
  piece replaces the file; apart from the orbit file only the piece and its digest file change.
\<close>

theorem piece_appended:
  assumes "curl_easy_download_epo e s = (0, t)" "epo_names s = (name, md)"
    and "GPS_DIR @ name \<noteq> EPO_FILE_HAL" "GPS_DIR @ md \<noteq> EPO_FILE_HAL"
    and "ee_open e EPO_FILE_HAL" "ee_open e (GPS_DIR @ name)"
    and "ee_curl e (ncurl s + 1) = (0, Some body)"
  shows "files t EPO_FILE_HAL = Some
      ((if gps_epo_file_count s = 0 then [] else case files s EPO_FILE_HAL of None \<Rightarrow> [] | Some b \<Rightarrow> b) @ body)
    \<and> files t (GPS_DIR @ name) = Some body
    \<and> (\<forall>p. p \<noteq> EPO_FILE_HAL \<longrightarrow> p \<noteq> GPS_DIR @ name \<longrightarrow> p \<noteq> GPS_DIR @ md \<longrightarrow> files t p = files s p)"
proof -
  obtain r1 s1 where d1: "curl_easy_download e (GPS_DIR @ md) s = (r1, s1)" by fastforce
  obtain k s2 where k: "fetch_key e r1 s1 = (k, s2)" by fastforce
  obtain r2 s3 where d2: "curl_easy_download e (GPS_DIR @ name) s2 = (r2, s3)" by fastforce
  note f1 = download_frame[OF d1] and fk = fetch_key_frame[OF k] and f2 = download_frame[OF d2]
  have r2: "r2 = 0" "files s3 (GPS_DIR @ name) = Some body"
    using f2(5) assms(7) f1(3) fk(3) by auto
  let ?s4 = "s3\<lparr>counter := 1\<rparr>"
  let ?s5 = "if gps_epo_file_count s3 = 0 then unlink EPO_FILE_HAL ?s4 else ?s4"
  have t: "t = append_piece e (GPS_DIR @ name) ?s5"
    using assms(1,2) d1 k d2 r2 by (auto simp: curl_easy_download_epo_def CURLE_FAILED_INIT_def Let_def split: option.splits)
  have cnt: "gps_epo_file_count s3 = gps_epo_file_count s" using f1(1) fk(1) f2(1) by simp
  have old: "files s3 EPO_FILE_HAL = files s EPO_FILE_HAL"
    using f2(4)[of EPO_FILE_HAL] fk(4)[of EPO_FILE_HAL] f1(2) f1(4)[of EPO_FILE_HAL] assms(2,3,4) by simp
  have other: "files s3 p = files s p" if "p \<noteq> GPS_DIR @ name" "p \<noteq> GPS_DIR @ md" for p
    using f2(4)[of p] fk(4)[of p] f1(2) f1(4)[of p] assms(2) that by simp
  show ?thesis
    using t r2 cnt old other assms(3,5,6) by (auto simp: append_piece_def Let_def)
qed

theorem piece_appended_witness:
  "files (snd (curl_easy_download_epo epo_env0 epo_st0)) EPO_FILE_HAL = Some [CHR ''a'']"
proof -
  obtain r t where t: "curl_easy_download_epo epo_env0 epo_st0 = (r, t)" by fastforce
  have "r = 0"
    using t by (auto simp: curl_easy_download_epo_def curl_easy_download_def fetch_key_def epo_env0_def
        epo_st0_def Let_def unlink_def GPS_DIR_def split: if_splits option.splits)
  with piece_appended[of epo_env0 epo_st0 t "''EPO_GPS_3_1.DAT''" "''EPO_GPS_3_1.MD5''" "[CHR ''a'']"] t
  show ?thesis by (simp add: epo_st0_def epo_env0_def GPS_DIR_def EPO_FILE_HAL_def)
qed

section \<open>The invariant of the download thread\<close>

text \<open>Ten pieces at most, flags that are flags, and fewer than ten retries outstanding.\<close>

definition epo_wf :: "epo_st \<Rightarrow> bool" where
  "epo_wf s =
     (0 \<le> gps_epo_file_count s \<and> gps_epo_file_count s \<le> 9
      \<and> epo_download_failed s \<in> {0, 1} \<and> epo_data_updated s \<in> {0, 1}
      \<and> epo_download_retry s \<in> {0, 1} \<and> 0 \<le> retry_time s \<and> retry_time s \<le> 9)"

text \<open>The part of the state that a transfer leaves alone.\<close>

definition ctl_same :: "epo_st \<Rightarrow> epo_st \<Rightarrow> bool" where
  "ctl_same s t =
     (gps_epo_file_count t = gps_epo_file_count s \<and> epo_download_failed t = epo_download_failed s
      \<and> epo_data_updated t = epo_data_updated s \<and> epo_download_retry t = epo_download_retry s
      \<and> retry_time t = retry_time s)"

lemma ctl_same_refl [simp]: "ctl_same s s"
  by (simp add: ctl_same_def)

lemma ctl_same_trans: "ctl_same s t \<Longrightarrow> ctl_same t u \<Longrightarrow> ctl_same s u"
  by (simp add: ctl_same_def)

lemma ctl_same_wf: "ctl_same s t \<Longrightarrow> epo_wf s \<Longrightarrow> epo_wf t"
  by (simp add: ctl_same_def epo_wf_def)

lemma ctl_unlink [simp]: "ctl_same s (unlink p s)"
  by (simp add: ctl_same_def unlink_def)

lemma ctl_set_piece [simp]: "ctl_same s (set_piece n s)"
  by (simp add: ctl_same_def set_piece_def)

lemma ctl_download: "curl_easy_download e p s = (r, t) \<Longrightarrow> ctl_same s t"
  by (auto simp: curl_easy_download_def ctl_same_def Let_def split: prod.splits option.splits)

lemma ctl_fetch: "fetch_key e r s = (k, t) \<Longrightarrow> ctl_same s t"
  by (auto simp: fetch_key_def ctl_same_def unlink_def Let_def split: if_splits option.splits)

lemma ctl_append: "ctl_same s (append_piece e p s)"
  by (simp add: append_piece_def ctl_same_def Let_def)

lemma ctl_download_epo: "curl_easy_download_epo e s = (r, t) \<Longrightarrow> ctl_same s t"
proof -
  assume asm: "curl_easy_download_epo e s = (r, t)"
  obtain name md where n: "epo_names s = (name, md)" by fastforce
  obtain r1 s1 where d1: "curl_easy_download e (GPS_DIR @ md) s = (r1, s1)" by fastforce
  obtain k s2 where k: "fetch_key e r1 s1 = (k, s2)" by fastforce
  obtain r2 s3 where d2: "curl_easy_download e (GPS_DIR @ name) s2 = (r2, s3)" by fastforce
  have s2: "ctl_same s s2" using ctl_same_trans[OF ctl_download[OF d1] ctl_fetch[OF k]] .
  then have s3: "ctl_same s s3" by (rule ctl_same_trans[OF _ ctl_download[OF d2]])
  have cnt: "ctl_same u (u\<lparr>counter := c\<rparr>)" for u c by (simp add: ctl_same_def)
  have c3: "ctl_same s (s3\<lparr>counter := c\<rparr>)" for c using ctl_same_trans[OF s3 cnt] .
  have "ctl_same s (append_piece e p (s3\<lparr>counter := c\<rparr>))"
    "ctl_same s (append_piece e p (unlink q (s3\<lparr>counter := c\<rparr>)))"
    "ctl_same s ((unlink q s3)\<lparr>counter := c\<rparr>)" for p q c
    using ctl_same_trans[OF c3 ctl_append] ctl_same_trans[OF ctl_same_trans[OF c3 ctl_unlink] ctl_append]
      ctl_same_trans[OF ctl_same_trans[OF s3 ctl_unlink] cnt] by blast+
  then show ?thesis
    using asm n d1 k d2 s2 by (auto simp: curl_easy_download_epo_def Let_def split: option.splits if_splits)
qed

lemma ctl_unlink_pieces: "ctl_same s (unlink_pieces n s)"
proof (induction n arbitrary: s)
  case 0
  show ?case
    by (subst unlink_pieces.simps, simp only: Let_def nat.case)
      (rule ctl_same_trans[OF ctl_set_piece ctl_unlink])
next
  case (Suc n)
  show ?case
    by (subst unlink_pieces.simps, simp only: Let_def nat.case)
      (rule ctl_same_trans[OF ctl_same_trans[OF ctl_set_piece ctl_unlink] Suc.IH])
qed

lemma ctl_delete_pieces: "ctl_same s (delete_pieces k i s)"
proof (induction k arbitrary: i s)
  case (Suc k)
  show ?case
    by (simp add: Let_def) (rule ctl_same_trans[OF ctl_same_trans[OF ctl_set_piece ctl_unlink] Suc.IH])
qed simp

lemma wf_failed: "epo_wf s \<Longrightarrow> epo_wf (s\<lparr>epo_download_failed := 1\<rparr>)"
  by (simp add: epo_wf_def)

lemma wf_failed0: "epo_wf s \<Longrightarrow> epo_wf (s\<lparr>epo_download_failed := 0\<rparr>)"
  by (simp add: epo_wf_def)

lemma wf_data0: "epo_wf s \<Longrightarrow> epo_wf (s\<lparr>epo_data_updated := 0\<rparr>)"
  by (simp add: epo_wf_def)

lemma wf_count0: "epo_wf s \<Longrightarrow> epo_wf (s\<lparr>gps_epo_file_count := 0\<rparr>)"
  by (simp add: epo_wf_def)

lemma wf_changed: "epo_wf s \<Longrightarrow> mtk_gps_epo_server_data_is_changed e s = (r, t) \<Longrightarrow> epo_wf t"
proof -
  assume wf: "epo_wf s" and asm: "mtk_gps_epo_server_data_is_changed e s = (r, t)"
  obtain b0 t0 where p0: "piece_time e s (mtk_gps_epo_piece_data_start e) = (b0, t0)" by fastforce
  let ?s1 = "if b0 then s\<lparr>epo_download_failed := 1\<rparr> else s"
  let ?n = "gps_epo_file_count ?s1"
  let ?s2 = "if 0 < ?n then set_piece (?n - 1) ?s1 else ?s1"
  obtain b1 t1 where p1: "(if 0 < ?n then piece_time e ?s2 (mtk_gps_epo_piece_data_end e ?s2)
      else if ?n = 0 then (False, t0) else (False, 0)) = (b1, t1)" by fastforce
  let ?s3 = "if b1 then ?s2\<lparr>epo_download_failed := 1\<rparr> else ?s2"
  have "epo_wf ?s1" using wf wf_failed by simp
  then have "epo_wf ?s2" using ctl_same_wf[OF ctl_set_piece] by simp
  then have w3: "epo_wf ?s3" using wf_failed by simp
  moreover have "epo_wf ((unlink EPO_FILE_HAL (if 0 \<le> ?n then unlink_pieces (nat ?n) ?s3 else ?s3))\<lparr>gps_epo_file_count := 0\<rparr>)"
  proof (intro wf_count0 ctl_same_wf[OF ctl_unlink])
    show "epo_wf (if 0 \<le> ?n then unlink_pieces (nat ?n) ?s3 else ?s3)"
      using w3 ctl_same_wf[OF ctl_unlink_pieces w3] by (cases "0 \<le> ?n") (simp_all only: if_True if_False)
  qed
  moreover have "mtk_gps_epo_server_data_is_changed e s =
     (if t0 - t1 \<ge> 24 * 60 * 60
      then (1, (unlink EPO_FILE_HAL (if 0 \<le> ?n then unlink_pieces (nat ?n) ?s3 else ?s3))\<lparr>gps_epo_file_count := 0\<rparr>)
      else (if b0 \<or> b1 then 1 else 0, ?s3))"
    unfolding mtk_gps_epo_server_data_is_changed_def p0 Let_def prod.case p1 by simp
  ultimately show ?thesis using asm by (auto split: if_splits)
qed

lemma wf_send: "epo_wf s \<Longrightarrow> epo_wf (snd (send_update e s))"
  by (auto simp: send_update_def epo_wf_def split: outcome.splits)

lemma wf_update: "epo_wf s \<Longrightarrow> epo_wf (snd (mtk_gps_epo_file_update e s))"
proof -
  assume wf: "epo_wf s"
  obtain r1 s1 where h: "mtk_gps_epo_file_update_hal e s = (r1, s1)" by fastforce
  obtain r0 s0 where d: "curl_easy_download_epo e s = (r0, s0)" by fastforce
  have w1: "epo_wf s1"
    using h d ctl_same_wf[OF ctl_download_epo[OF d] wf] wf_failed
    by (auto simp: mtk_gps_epo_file_update_hal_def split: if_splits)
  obtain c s2 where ch: "mtk_gps_epo_server_data_is_changed e s1 = (c, s2)" by fastforce
  have w2: "epo_wf s2" by (rule wf_changed[OF w1 ch])
  let ?s3 = "s2\<lparr>gps_epo_file_count := c32 (gps_epo_file_count s2 + 1)\<rparr>"
  have up: "c32 (gps_epo_file_count s2 + 1) = gps_epo_file_count s2 + 1"
    using w2 by (intro c32_id) (auto simp: epo_wf_def is_c32_def)
  have w3: "gps_epo_file_count ?s3 < 10 \<Longrightarrow> epo_wf ?s3" using w2 up by (auto simp: epo_wf_def)
  let ?d = "delete_pieces (nat (wanted_pieces (ecfg ?s3))) 0 ?s3"
  let ?s4 = "?d\<lparr>epo_data_updated := 0, gps_epo_file_count := 0\<rparr>"
  have "ctl_same ?s3 ?d" by (rule ctl_delete_pieces)
  then have w4: "epo_wf ?s4" using w2 by (simp add: ctl_same_def epo_wf_def)
  let ?s5 = "if epo_download_failed ?s4 = 1 then ?s4\<lparr>epo_download_failed := 0\<rparr> else ?s4"
  have w5: "epo_wf ?s5" using w4 wf_failed0[OF w4] by (auto split: if_split)
  have w6: "epo_wf (snd (send_update e (unlink EPO_FILE ?s5)))"
    by (rule wf_send) (rule ctl_same_wf[OF ctl_unlink w5])
  show ?thesis
    unfolding mtk_gps_epo_file_update_def h Let_def prod.case ch
    using w1 w2 w3 w5 w6 by simp
qed

lemma wf_round_download: "epo_wf s \<Longrightarrow> epo_wf (round_download e s)"
proof -
  assume wf: "epo_wf s"
  let ?s1 = "set_piece (gps_epo_file_count s) (s\<lparr>epo_download_failed := 0\<rparr>)"
  have "epo_wf (snd (mtk_gps_epo_file_update e ?s1))"
    by (intro wf_update ctl_same_wf[OF ctl_set_piece] wf_failed0 wf)
  then show ?thesis using wf wf_data0 by (simp add: round_download_def Let_def)
qed

lemma wf_retry: "epo_wf s \<Longrightarrow> epo_wf (resume_retry b s)"
proof -
  assume wf: "epo_wf s"
  have "c32 (retry_time s + 1) = retry_time s + 1"
    using wf by (intro c32_id) (simp add: epo_wf_def is_c32_def)
  then show ?thesis
    using wf by (auto simp: resume_retry_def set_retry_alarm_handler_def epo_wf_def Let_def)
qed

lemma wf_round_resume: "epo_wf s \<Longrightarrow> epo_wf (round_resume e s)"
proof -
  assume wf: "epo_wf s"
  let ?s1 = "if file_retrying s = 50 then s\<lparr>file_retrying := gps_epo_file_count s\<rparr> else s"
  have w1: "epo_wf ?s1" using wf by (simp add: epo_wf_def)
  have "epo_wf (unlink EPO_FILE_HAL (?s1\<lparr>epo_download_failed := 0, gps_epo_file_count := 0, epo_data_updated := 1\<rparr>))"
    using w1 by (intro ctl_same_wf[OF ctl_unlink]) (simp add: epo_wf_def)
  moreover have "epo_wf (snd (mtk_gps_epo_file_update e (set_piece (gps_epo_file_count ?s1) ?s1)))"
    by (intro wf_update ctl_same_wf[OF ctl_set_piece] w1)
  ultimately show ?thesis
    using wf wf_retry by (auto simp: round_resume_def Let_def split: prod.splits)
qed

lemma wf_expired: "epo_wf s \<Longrightarrow> epo_wf (snd (mtk_epo_is_expired e w s))"
  by (auto simp: mtk_epo_is_expired_def epo_wf_def split: prod.splits)

lemma wf_request: "epo_wf s \<Longrightarrow> epo_wf (gps_download_epo s)"
  by (simp add: gps_download_epo_def epo_wf_def)

lemma wf_round_wifi: "epo_wf s \<Longrightarrow> epo_wf (round_wifi e s)"
proof -
  assume wf: "epo_wf s"
  obtain b t where t: "mtk_epo_is_expired e True s = (b, t)" by fastforce
  have "epo_wf t" using wf_expired[OF wf, of e True] t by simp
  then show ?thesis
    using wf ctl_same_wf[OF ctl_unlink wf_request] by (simp add: round_wifi_def t)
qed

text \<open>What happens to the download: a round of the thread, a request, the timer, the network.\<close>

datatype epo_event = Round epo_env | Request | RetryTimer | Network int int

fun epo_step :: "epo_event \<Rightarrow> epo_st \<Rightarrow> epo_st" where
  "epo_step (Round e) s = snd (epo_round e s)"
| "epo_step Request s = gps_download_epo s"
| "epo_step RetryTimer s = retry_alarm_handler s"
| "epo_step (Network c t) s = s\<lparr>eagps := (eagps s)\<lparr>nw_connected := c, nw_type := t\<rparr>\<rparr>"

lemma wf_step: "epo_wf s \<Longrightarrow> epo_wf (epo_step ev s)"
proof (cases ev)
  case (Round e)
  assume wf: "epo_wf s"
  let ?s1 = "s\<lparr>ecfg := snd (gps_download_epo_enable (ee_conf e) (ecfg s))\<rparr>"
  have "epo_wf ?s1" using wf by (simp add: epo_wf_def)
  then have "epo_wf (round_wifi e (round_resume e (round_download e ?s1)))"
    by (intro wf_round_wifi wf_round_resume wf_round_download)
  then show ?thesis using Round by (simp add: epo_round_def Let_def)
qed (simp_all add: wf_request retry_alarm_handler_def, simp_all add: epo_wf_def)

text \<open>
  Whatever the transfers, the files, the configuration and the network do, in every state the
  download passes through the piece count lies between 0 and 9, the flags are 0 or 1, and fewer
  than ten retries are outstanding.
\<close>

theorem download_stays_wf: "epo_wf (fold epo_step evs epo_st0)"
proof -
  have "epo_wf s \<Longrightarrow> epo_wf (fold epo_step evs s)" for s
    by (induction evs arbitrary: s) (simp_all add: wf_step)
  then show ?thesis by (simp add: epo_wf_def epo_st0_def)
qed

end
