(* ===== verification/Gps_Dispatch.thy ===== *)
theory Gps_Dispatch
  imports Gps_Epo "HOL-Library.Monad_Syntax"
begin

text \<open>
  What the GPS library does with a message of its daemon: \<open>safe_read\<close> and \<open>mnld_to_gps_handler\<close> of
  \<open>src/hal/gps/hal/gps_mtk_aosp.c\<close>, with the state that the library's threads share.

  The handler turns a message into a list of actions (\<open>act\<close>): callbacks into the framework and
  accesses to the shared state, in the order of the code.  Theory \<open>Gps_Session\<close> runs them.
\<close>

section \<open>Reading a datagram\<close>

text \<open>The outcome of one \<open>read\<close>: bytes, nothing (which leaves \<open>errno\<close> as it was), or an error.\<close>

datatype read_res = RData "byte list" | REof | RErr int

text \<open>\<open>None\<close> is a loop that never ends; otherwise the calls made, \<open>errno\<close>, and what was read.\<close>

partial_function (option) read_loop ::
    "(nat \<Rightarrow> read_res) \<Rightarrow> nat \<Rightarrow> int \<Rightarrow> nat \<Rightarrow> (nat \<times> int \<times> byte list option) option" where
  "read_loop r k errno retry =
     (case r k of
        RData bs \<Rightarrow> Some (k + 1, errno, Some bs)
      | REof \<Rightarrow>
          if errno = EINTR then read_loop r (k + 1) errno retry
          else if errno = EAGAIN \<and> 0 < retry then read_loop r (k + 1) errno (retry - 1)
          else Some (k + 1, errno, None)
      | RErr e \<Rightarrow>
          if e = EINTR then read_loop r (k + 1) e retry
          else if e = EAGAIN \<and> 0 < retry then read_loop r (k + 1) e (retry - 1)
          else Some (k + 1, e, None))"

definition safe_read ::
    "(nat \<Rightarrow> read_res) \<Rightarrow> int \<Rightarrow> nat \<Rightarrow> int \<Rightarrow> nat \<Rightarrow> (nat \<times> int \<times> int \<times> byte list) option" where
  "safe_read r fd len errno k =
     (if fd < 0 then Some (k, errno, - 1, [])
      else if len = 0 then Some (k, errno, 0, [])
      else map_option (\<lambda>(k', e', d). case d of
               None \<Rightarrow> (k', e', - 1, [])
             | Some bs \<Rightarrow> (k', e', int (length (take len bs)), take len bs))
             (read_loop r k errno 10))"

text \<open>\<open>char buff[9000] = {0}\<close> after the reading.\<close>

definition HANDLER_BUFF :: nat where "HANDLER_BUFF = 9000"

definition handler_buff :: "byte list \<Rightarrow> byte list" where
  "handler_buff bs = take HANDLER_BUFF bs @ replicate (HANDLER_BUFF - length bs) 0"

section \<open>Message numbers\<close>

definition MNL_AGPS_CMD_NOTIFICATION :: "32 word" where "MNL_AGPS_CMD_NOTIFICATION = 230"
definition MNL_AGPS_CMD_DATA_CONN_REQ :: "32 word" where "MNL_AGPS_CMD_DATA_CONN_REQ = 231"
definition MNL_AGPS_CMD_DATA_CONN_RELEASE :: "32 word" where "MNL_AGPS_CMD_DATA_CONN_RELEASE = 232"
definition MNL_AGPS_CMD_REQUEST_SET_ID :: "32 word" where "MNL_AGPS_CMD_REQUEST_SET_ID = 233"
definition MNL_AGPS_CMD_REQUEST_REFLOC :: "32 word" where "MNL_AGPS_CMD_REQUEST_REFLOC = 234"
definition MNL_AGPS_CMD_AGPS_LOC :: "32 word" where "MNL_AGPS_CMD_AGPS_LOC = 235"
definition MNL_AGPS_CMD_NOTIFICATION_2 :: "32 word" where "MNL_AGPS_CMD_NOTIFICATION_2 = 236"
definition MNL_AGPS_CMD_DATA_CONN_REQ2 :: "32 word" where "MNL_AGPS_CMD_DATA_CONN_REQ2 = 237"
definition HAL_CMD_UPDATE_EPO_FILE_DONE :: "32 word" where "HAL_CMD_UPDATE_EPO_FILE_DONE = 0x36"
definition HAL_CMD_UPDATE_EPO_FILE_FAIL :: "32 word" where "HAL_CMD_UPDATE_EPO_FILE_FAIL = 0x38"
definition MNL_CMD_GPS_INJECT_TIME_REQ :: "32 word" where "MNL_CMD_GPS_INJECT_TIME_REQ = 0x48"
definition MNL_CMD_GPS_INJECT_LOCATION_REQ :: "32 word" where "MNL_CMD_GPS_INJECT_LOCATION_REQ = 0x49"
definition HAL_CMD_MNL_DIE :: "32 word" where "HAL_CMD_MNL_DIE = 0x41"
definition HAL_CMD_GPS_ICON :: "32 word" where "HAL_CMD_GPS_ICON = 0x42"
definition HAL_CMD_MEASUREMENT :: "32 word" where "HAL_CMD_MEASUREMENT = 0x76"
definition HAL_CMD_NAVIGATION :: "32 word" where "HAL_CMD_NAVIGATION = 0x77"

lemmas msg_codes = MNL_AGPS_CMD_NOTIFICATION_def MNL_AGPS_CMD_DATA_CONN_REQ_def
  MNL_AGPS_CMD_DATA_CONN_RELEASE_def MNL_AGPS_CMD_REQUEST_SET_ID_def
  MNL_AGPS_CMD_REQUEST_REFLOC_def MNL_AGPS_CMD_AGPS_LOC_def MNL_AGPS_CMD_NOTIFICATION_2_def
  MNL_AGPS_CMD_DATA_CONN_REQ2_def HAL_CMD_UPDATE_EPO_FILE_DONE_def
  HAL_CMD_UPDATE_EPO_FILE_FAIL_def MNL_CMD_GPS_INJECT_TIME_REQ_def
  MNL_CMD_GPS_INJECT_LOCATION_REQ_def HAL_CMD_MNL_DIE_def HAL_CMD_GPS_ICON_def
  HAL_CMD_MEASUREMENT_def HAL_CMD_NAVIGATION_def

section \<open>Notifications\<close>

datatype ni_flag = NEED_NOTIFY | NEED_VERIFY | PRIVACY_OVERRIDE

text \<open>\<open>GpsNiNotification\<close>; type, default response and size are the same in every one.\<close>

record ni_notification =
  notification_id :: "32 word"
  notify_flags :: "ni_flag set"
  ni_timeout :: int
  requestor_id :: "byte list"
  ni_text :: "byte list"
  requestor_id_encoding :: "32 word"
  text_encoding :: "32 word"

definition ni_flags_of :: "32 word \<Rightarrow> ni_flag set" where
  "ni_flags_of ty =
     (if ty = 1 then {NEED_NOTIFY}
      else if ty = 2 then {NEED_NOTIFY, NEED_VERIFY}
      else if ty = 3 then {NEED_NOTIFY, NEED_VERIFY}
      else if ty = 4 then {PRIVACY_OVERRIDE}
      else {})"

text \<open>
  Constants of \<open>hardware/gps.h\<close> (the sizes of the two texts, the UCS-2 encoding) and what the stack
  holds where a local array of 1024 bytes comes to lie.
\<close>

record ni_env =
  NI_SHORT :: nat
  NI_LONG :: nat
  ENC_SUPL_UCS2 :: "32 word"
  stack_junk :: "byte list"

text \<open>The characters of a C string in an array; \<open>None\<close> when no terminator is in it.\<close>

definition c_string :: "byte list \<Rightarrow> byte list option" where
  "c_string a = (if 0 \<in> set a then Some (takeWhile (\<lambda>b. b \<noteq> 0) a) else None)"

text \<open>A text goes out as the hexadecimal digits of its UCS-2 form.\<close>

definition ucs2_hex :: "nat \<Rightarrow> byte list \<Rightarrow> byte list option" where
  "ucs2_hex cap str = do {
     (n, u) \<leftarrow> asc_str_to_usc2_str (replicate 1024 0) str;
     raw_data_to_hex_string (replicate cap 0) u n
   }"

definition notification_1 :: "ni_env \<Rightarrow> cursor \<Rightarrow> ni_notification option" where
  "notification_1 e c = do {
     (nid, o1) \<leftarrow> buff_get_int c;
     (ty, o2) \<leftarrow> buff_get_int (fst c, o1);
     (_, req, o3) \<leftarrow> buff_get_string (stack_junk e) (fst c, o2);
     (_, cli, o4) \<leftarrow> buff_get_string (stack_junk e) (fst c, o3);
     rs \<leftarrow> c_string req;
     r \<leftarrow> ucs2_hex (NI_SHORT e) rs;
     cs \<leftarrow> c_string cli;
     t \<leftarrow> ucs2_hex (NI_LONG e) cs;
     Some \<lparr>notification_id = nid, notify_flags = ni_flags_of ty, ni_timeout = 8, requestor_id = r,
           ni_text = t, requestor_id_encoding = ENC_SUPL_UCS2 e, text_encoding = ENC_SUPL_UCS2 e\<rparr>
   }"

definition notification_2 :: "ni_env \<Rightarrow> cursor \<Rightarrow> ni_notification option" where
  "notification_2 e c = do {
     (nid, o1) \<leftarrow> buff_get_int c;
     (ty, o2) \<leftarrow> buff_get_int (fst c, o1);
     (_, r, o3) \<leftarrow> buff_get_string (replicate (NI_SHORT e) 0) (fst c, o2);
     (_, t, o4) \<leftarrow> buff_get_string (replicate (NI_LONG e) 0) (fst c, o3);
     (re, o5) \<leftarrow> buff_get_int (fst c, o4);
     (te, o6) \<leftarrow> buff_get_int (fst c, o5);
     Some \<lparr>notification_id = nid, notify_flags = ni_flags_of ty, ni_timeout = 8, requestor_id = r,
           ni_text = t, requestor_id_encoding = re, text_encoding = te\<rparr>
   }"

section \<open>Structures\<close>

text \<open>
  A structure is its bytes, a field its offset and size.  Numbers of other types than \<open>int\<close> are
  carried as their bytes: the code only copies them.
\<close>

definition slice :: "byte list \<Rightarrow> nat \<Rightarrow> nat \<Rightarrow> byte list" where
  "slice bs off n = take n (drop off bs)"

definition SIZEOF_AGPS_LOCATION :: nat where "SIZEOF_AGPS_LOCATION = 72"
definition SIZEOF_SOCKADDR_STORAGE :: nat where "SIZEOF_SOCKADDR_STORAGE = 128"

record agps_location =
  al_flags :: "loc_flag set"
  al_latitude :: "byte list"
  al_longitude :: "byte list"
  al_altitude :: "byte list"
  al_speed :: "byte list"
  al_bearing :: "byte list"
  al_accuracy :: "byte list"
  al_timestamp :: "byte list"

definition opt_field :: "byte list \<Rightarrow> nat \<Rightarrow> nat \<Rightarrow> nat \<Rightarrow> byte list" where
  "opt_field bs used off n = (if bs ! used \<noteq> 0 then slice bs off n else replicate n 0)"

definition opt_flag :: "byte list \<Rightarrow> nat \<Rightarrow> loc_flag \<Rightarrow> loc_flag set" where
  "opt_flag bs used f = (if bs ! used \<noteq> 0 then {f} else {})"

definition agps_loc_of :: "byte list \<Rightarrow> agps_location" where
  "agps_loc_of bs =
     \<lparr>al_flags = {HAS_LAT_LONG} \<union> opt_flag bs 16 HAS_ALTITUDE \<union> opt_flag bs 32 HAS_SPEED
                 \<union> opt_flag bs 40 HAS_BEARING \<union> opt_flag bs 48 HAS_ACCURACY,
      al_latitude = slice bs 0 8, al_longitude = slice bs 8 8,
      al_altitude = opt_field bs 16 24 8, al_speed = opt_field bs 32 36 4,
      al_bearing = opt_field bs 40 44 4, al_accuracy = opt_field bs 48 52 4,
      al_timestamp = opt_field bs 56 64 8\<rparr>"

text \<open>\<open>MTK_GPS_CLOCK\<close> and \<open>MTK_GPS_MEASUREMENT\<close> are packed to four bytes.\<close>

datatype clock_field =
    bias_ns | bias_uncertainty_ns | drift_nsps | clock_flags | leap_second | time_ns
  | time_uncertainty_ns | clock_type | full_bias_ns | drift_uncertainty_nsps

definition clock_copy :: "(clock_field \<times> nat \<times> nat) list" where
  "clock_copy =
     [(bias_ns, 36, 8), (bias_uncertainty_ns, 44, 8), (drift_nsps, 52, 8), (clock_flags, 4, 2),
      (leap_second, 6, 2), (time_ns, 12, 8), (time_uncertainty_ns, 20, 8), (clock_type, 8, 1),
      (full_bias_ns, 28, 8), (drift_uncertainty_nsps, 60, 8)]"

definition SIZEOF_MTK_GPS_CLOCK :: nat where "SIZEOF_MTK_GPS_CLOCK = 68"

datatype meas_field =
    accumulated_delta_range_m | accumulated_delta_range_state | accumulated_delta_range_uncertainty_m
  | azimuth_deg | azimuth_uncertainty_deg | bit_number | carrier_cycles | carrier_phase
  | carrier_phase_uncertainty | carrier_frequency_hz | c_n0_dbhz | code_phase_chips
  | code_phase_uncertainty_chips | doppler_shift_hz | doppler_shift_uncertainty_hz | elevation_deg
  | elevation_uncertainty_deg | meas_flags | loss_of_lock | multipath_indicator | pseudorange_m | prn
  | pseudorange_rate_mps | pseudorange_rate_uncertainty_mps | pseudorange_uncertainty_m
  | received_gps_tow_ns | received_gps_tow_uncertainty_ns | snr_db | meas_state
  | time_from_last_bit_ms | time_offset_ns | meas_used_in_fix

definition meas_copy :: "(meas_field \<times> nat \<times> nat) list" where
  "meas_copy =
     [(accumulated_delta_range_m, 68, 8), (accumulated_delta_range_state, 64, 2),
      (accumulated_delta_range_uncertainty_m, 76, 8), (azimuth_deg, 200, 8),
      (azimuth_uncertainty_deg, 208, 8), (bit_number, 148, 4), (carrier_cycles, 120, 8),
      (carrier_phase, 128, 8), (carrier_phase_uncertainty, 136, 8), (carrier_frequency_hz, 116, 4),
      (c_n0_dbhz, 40, 8), (code_phase_chips, 100, 8), (code_phase_uncertainty_chips, 108, 8),
      (doppler_shift_hz, 156, 8), (doppler_shift_uncertainty_hz, 164, 8), (elevation_deg, 184, 8),
      (elevation_uncertainty_deg, 192, 8), (meas_flags, 4, 4), (loss_of_lock, 144, 1),
      (multipath_indicator, 172, 1), (pseudorange_m, 84, 8), (prn, 8, 1),
      (pseudorange_rate_mps, 48, 8), (pseudorange_rate_uncertainty_mps, 56, 8),
      (pseudorange_uncertainty_m, 92, 8), (received_gps_tow_ns, 24, 8),
      (received_gps_tow_uncertainty_ns, 32, 8), (snr_db, 176, 8), (meas_state, 20, 2),
      (time_from_last_bit_ms, 152, 2), (time_offset_ns, 12, 8), (meas_used_in_fix, 216, 1)]"

definition SIZEOF_MTK_GPS_MEASUREMENT :: nat where "SIZEOF_MTK_GPS_MEASUREMENT = 220"

definition copy_fields :: "('f \<times> nat \<times> nat) list \<Rightarrow> byte list \<Rightarrow> ('f \<times> byte list) list" where
  "copy_fields tab bs = map (\<lambda>(f, off, n). (f, slice bs off n)) tab"

text \<open>\<open>GpsData\<close>: the clock, and the measurements that are filled in; the count is how many of
  them have a satellite number.\<close>

record gps_data =
  gd_clock :: "(clock_field \<times> byte list) list"
  gd_measurements :: "(meas_field \<times> byte list) list list"
  measurement_count :: nat

text \<open>The loop over the measurements runs for \<open>i < 1\<close>.\<close>

definition MEAS_LOOP :: nat where "MEAS_LOOP = 1"

definition measurement_msg :: "cursor \<Rightarrow> gps_data option" where
  "measurement_msg c = do {
     (ms, o1) \<leftarrow> buff_get_struct (replicate (32 * SIZEOF_MTK_GPS_MEASUREMENT) 0)
                  (32 * SIZEOF_MTK_GPS_MEASUREMENT) c;
     (cl, o2) \<leftarrow> buff_get_struct (replicate SIZEOF_MTK_GPS_CLOCK 0) SIZEOF_MTK_GPS_CLOCK (fst c, o1);
     let recs = map (\<lambda>i. copy_fields meas_copy
                      (slice ms (i * SIZEOF_MTK_GPS_MEASUREMENT) SIZEOF_MTK_GPS_MEASUREMENT))
                  [0..<MEAS_LOOP];
     Some \<lparr>gd_clock = copy_fields clock_copy cl, gd_measurements = recs,
           measurement_count = length (filter (\<lambda>m. map_of m prn \<noteq> Some [0]) recs)\<rparr>
   }"

record nav_message =
  nav_type :: byte
  nav_prn :: byte
  message_id :: "16 word"
  submessage_id :: "16 word"
  nav_data :: "byte list"

definition SIZEOF_NAVIGATION_EVENT :: nat where "SIZEOF_NAVIGATION_EVENT = 56"

text \<open>\<open>length\<close> bytes of \<open>data[40]\<close>, the last field of the event, are copied.\<close>

definition navigation_msg :: "cursor \<Rightarrow> nav_message option" where
  "navigation_msg c = do {
     (ev, o1) \<leftarrow> buff_get_struct (replicate SIZEOF_NAVIGATION_EVENT 0) SIZEOF_NAVIGATION_EVENT c;
     d \<leftarrow> read_at (slice ev 16 40) 0 (unat (un_le32 (slice ev 12 4)));
     Some \<lparr>nav_type = ev ! 4, nav_prn = ev ! 5, message_id = un_le16 (slice ev 6 2),
           submessage_id = un_le16 (slice ev 8 2), nav_data = d\<rparr>
   }"

section \<open>The shared state\<close>

datatype gps_status = STATUS_NONE | SESSION_BEGIN | SESSION_END | ENGINE_ON | ENGINE_OFF

datatype lock = M_START | M_STOP | M_CLEANUP | M_INIT | M_THREAD_EXIT | M_MNLDIE

datatype agps_status = RequestDataConnV2 "32 word" | RequestDataConn "byte list" | ReleaseDataConn

text \<open>Calls into the framework.\<close>

datatype cb =
    NotifyCb ni_notification
  | AgpsStatusCb agps_status
  | RequestSetId "32 word"
  | RequestRefLoc "32 word"
  | AgpsLocationCb agps_location
  | RequestUtcTime
  | MeasurementCb gps_data
  | NavigationCb nav_message
  | StatusCb gps_status
  | AcquireWakelock
  | ReleaseWakelock
  | SetCapabilities
  | DownloadRequest
  | CodecLocation "byte list"

text \<open>
  The actions of the threads: one access to what they share, one call into the framework, or one
  call that runs without a competitor.
\<close>

datatype act =
    Call cb
  | SetSta gps_status
  | ReportSta
  | Release lock
  | Get lock
  | ClearIfSet lock
  | SetFlagUnlock int
  | SetStartFlag int
  | WaitWhileStartFlag int
  | WaitStopIfStarted
  | CheckInit
  | CheckNotInit
  | CopyCallbacks
  | SetInit
  | StateInit
  | InitModes
  | StartDaemon
  | StopDaemon
  | CleanupDaemon
  | EpoAtStart
  | SendCommand int
  | DoneIfInit
  | WriteQuit
  | CloseState
  | SetEpoExit
  | GiveBack int
  | ThreadStart
  | ThreadEnd
  | TakeCommand int
  | NmeaRead "string list"
  | AtRead "string list"
  | UnlinkEpoHal
  | SendLocation

text \<open>
  The globals of the file and the fields of \<open>GpsState\<close> that a session uses.  \<open>rd\<close> is the reader of
  the GPS thread with the AT test and the sockets, \<open>ep\<close> the download.  \<open>hal\<close> and \<open>fw\<close> are what the GPS
  thread and the framework's thread have left to do of the event, or the call, they are in.
\<close>

datatype thread = NotCreated | Running "act list" | Stuck | Exited

record 'd sess =
  s_init :: int
  s_start_flag :: int
  flag_unlock :: int
  sta :: gps_status
  locks :: "lock \<Rightarrow> int"
  started :: int
  test_started :: int
  rd :: "'d reader"
  ep :: epo_st
  gpsmeasurement_init_flag :: int
  gpsnavigation_init_flag :: int
  agps_callbacks :: bool
  gps_ni_callbacks :: bool
  agps_ril_callbacks :: bool
  loc_callback :: bool
  utc_callback :: bool
  control_open :: bool
  nread :: nat
  mode :: int
  gnss_mode :: int
  min_interval :: nat
  report_count :: nat
  hal_errno :: int
  thread_epo_exit_flag :: int
  epo_threads :: nat
  loc_file :: "byte list option"
  cbs :: "cb list"
  hal :: thread
  fw :: "act list"
  fw_ret :: "int option"
  crashed :: bool

section \<open>The handler\<close>

definition agps_init :: "'d sess \<Rightarrow> 'd sess" where
  "agps_init s = s\<lparr>agps_callbacks := True\<rparr>"

definition gps_ni_init :: "'d sess \<Rightarrow> 'd sess" where
  "gps_ni_init s = s\<lparr>gps_ni_callbacks := True\<rparr>"

definition agps_ril_init :: "'d sess \<Rightarrow> 'd sess" where
  "agps_ril_init s = s\<lparr>agps_ril_callbacks := True\<rparr>"

text \<open>A call through a table of callbacks whose pointer may still be NULL.\<close>

definition through :: "bool \<Rightarrow> cb \<Rightarrow> act list option" where
  "through present c = (if present then Some [Call c] else None)"

definition die_acts :: "act list" where
  "die_acts = [SetFlagUnlock 0, SetSta SESSION_END, ReportSta, SetSta ENGINE_OFF, ReportSta,
               Release M_STOP, Call ReleaseWakelock, SetStartFlag 0]"

definition icon_acts :: "int \<Rightarrow> 32 word \<Rightarrow> act list" where
  "icon_acts strt status =
     (if status = 1 \<and> strt = 0 then [SetSta ENGINE_ON, ReportSta, SetSta SESSION_BEGIN, ReportSta]
      else if status = 0 \<and> strt = 0 then [SetSta ENGINE_OFF, ReportSta, SetSta SESSION_END, ReportSta]
      else [])"

text \<open>
  \<open>mnld_to_gps_handler\<close> behind its reading: \<open>bs\<close> is what was read, nothing when that failed.  \<open>None\<close>
  is an access outside an array, or a call through a NULL pointer.
\<close>

definition mnld_to_gps_handler :: "ni_env \<Rightarrow> byte list \<Rightarrow> 'd sess \<Rightarrow> act list option" where
  "mnld_to_gps_handler e bs s =
     (let buf = handler_buff bs in
      case buff_get_int (buf, 0) of None \<Rightarrow> None
      | Some (ty, o1) \<Rightarrow>
        if ty = MNL_AGPS_CMD_NOTIFICATION then do {
          n \<leftarrow> notification_1 e (buf, o1); through (gps_ni_callbacks s) (NotifyCb n) }
        else if ty = MNL_AGPS_CMD_NOTIFICATION_2 then do {
          n \<leftarrow> notification_2 e (buf, o1); through (gps_ni_callbacks s) (NotifyCb n) }
        else if ty = MNL_AGPS_CMD_DATA_CONN_REQ then do {
          (ip, o2) \<leftarrow> buff_get_int (buf, o1);
          (_, o3) \<leftarrow> buff_get_int (buf, o2);
          through (agps_callbacks s) (AgpsStatusCb (RequestDataConnV2 ip)) }
        else if ty = MNL_AGPS_CMD_DATA_CONN_REQ2 then do {
          (ad, o2) \<leftarrow> buff_get_struct (replicate SIZEOF_SOCKADDR_STORAGE 0) SIZEOF_SOCKADDR_STORAGE (buf, o1);
          (_, o3) \<leftarrow> buff_get_int (buf, o2);
          through (agps_callbacks s) (AgpsStatusCb (RequestDataConn ad)) }
        else if ty = MNL_AGPS_CMD_DATA_CONN_RELEASE then
          through (agps_callbacks s) (AgpsStatusCb ReleaseDataConn)
        else if ty = MNL_AGPS_CMD_REQUEST_SET_ID then do {
          (fl, _) \<leftarrow> buff_get_int (buf, o1); through (agps_ril_callbacks s) (RequestSetId fl) }
        else if ty = MNL_AGPS_CMD_REQUEST_REFLOC then do {
          (fl, _) \<leftarrow> buff_get_int (buf, o1); through (agps_ril_callbacks s) (RequestRefLoc fl) }
        else if ty = MNL_AGPS_CMD_AGPS_LOC then do {
          (loc, _) \<leftarrow> buff_get_struct (replicate SIZEOF_AGPS_LOCATION 0) SIZEOF_AGPS_LOCATION (buf, o1);
          Some (if loc_callback s then [Call (AgpsLocationCb (agps_loc_of loc))] else []) }
        else if ty = HAL_CMD_UPDATE_EPO_FILE_DONE then
          Some (if epo_download_failed (ep s) = 0 \<and> gps_epo_file_count (ep s) = 0
                then [UnlinkEpoHal] else [])
        else if ty = HAL_CMD_UPDATE_EPO_FILE_FAIL then Some []
        else if ty = MNL_CMD_GPS_INJECT_TIME_REQ then
          Some (if utc_callback s then [Call RequestUtcTime] else [])
        else if ty = MNL_CMD_GPS_INJECT_LOCATION_REQ then Some [SendLocation]
        else if ty = HAL_CMD_MNL_DIE then Some die_acts
        else if ty = HAL_CMD_GPS_ICON then do {
          (status, _) \<leftarrow> buff_get_int (buf, o1); Some (icon_acts (started s) status) }
        else if ty = HAL_CMD_MEASUREMENT then
          if gpsmeasurement_init_flag s = 1 then do {
            m \<leftarrow> measurement_msg (buf, o1);
            Some (if 0 < measurement_count m then [Call (MeasurementCb m)] else []) }
          else Some []
        else if ty = HAL_CMD_NAVIGATION then
          if gpsnavigation_init_flag s = 1 then do {
            n \<leftarrow> navigation_msg (buf, o1); Some [Call (NavigationCb n)] }
          else Some []
        else Some [])"

section \<open>Fields of a message, one by one\<close>

context field_codec begin

lemma put_all_prefix:
  "\<forall>x \<in> set xs. wf x \<Longrightarrow> o1 \<le> length b \<Longrightarrow> put_all xs (b, o1) = Some (b', o2) \<Longrightarrow>
   take o1 b' = take o1 b \<and> length b' = length b \<and> o2 = o1 + total xs \<and> o2 \<le> length b"
proof (induction xs arbitrary: b o1)
  case (Cons x xs)
  obtain b1 om where p: "put x (b, o1) = Some (b1, om)" "put_all xs (b1, om) = Some (b', o2)"
    using Cons.prems(3) by (auto split: option.splits)
  have px: "om = o1 + size_of x" "length b1 = length b" "take o1 b1 = take o1 b" "om \<le> length b"
    using put_cases[OF _ p(1)] Cons.prems(1) by auto
  have ih: "take om b' = take om b1 \<and> length b' = length b1 \<and> o2 = om + total xs \<and> o2 \<le> length b1"
    using Cons.IH[OF _ _ p(2)] Cons.prems(1) px by simp
  then have "take o1 (take om b') = take o1 (take om b1)" by simp
  then have "take o1 b' = take o1 b1" using px(1) by simp
  then show ?case using ih px by (simp add: total_def)
qed (simp add: total_def)

text \<open>A receiver that has come to a field of the message finds it there, whatever follows.\<close>

lemma get_next:
  assumes "\<forall>y \<in> set (x # xs). wf y" "fits x sh" "o1 \<le> length b" "put_all (x # xs) (b, o1) = Some (b', o2)"
  shows "get sh (b', o1) = Some (x, o1 + size_of x)"
    "\<exists>b1. put_all xs (b1, o1 + size_of x) = Some (b', o2) \<and> o1 + size_of x \<le> length b1"
proof -
  obtain b1 om where p: "put x (b, o1) = Some (b1, om)" "put_all xs (b1, om) = Some (b', o2)"
    using assms(4) by (auto split: option.splits)
  have px: "om = o1 + size_of x" "length b1 = length b" "om \<le> length b"
    using put_cases[OF _ p(1)] assms(1) by auto
  have r: "take om b' = take om b1" "length b' = length b1"
    using put_all_prefix[OF _ _ p(2)] assms(1) px by auto
  show "get sh (b', o1) = Some (x, o1 + size_of x)"
    using get_put[OF _ assms(2) p(1)] assms(1) r px by simp
  show "\<exists>b1. put_all xs (b1, o1 + size_of x) = Some (b', o2) \<and> o1 + size_of x \<le> length b1"
    using p px by auto
qed

end

lemma next_int:
  assumes "\<forall>y \<in> set xs. field_wf y" "o1 \<le> length b" "put_fields (FInt v # xs) (b, o1) = Some (b', o2)"
  shows "buff_get_int (b', o1) = Some (v, o1 + 4)"
    "\<exists>b1. put_fields xs (b1, o1 + 4) = Some (b', o2) \<and> o1 + 4 \<le> length b1"
  using msg.get_next[of "FInt v" xs SInt o1 b b' o2] assms
  by (auto simp: put_fields_msg get_int_field_def)

text \<open>A text is read into an array of any contents; what is behind it stays.\<close>

lemma next_string:
  assumes "\<forall>y \<in> set xs. field_wf y" "0 \<notin> set str" "length str + 1 < 2 ^ 31" "o1 \<le> length b"
    "put_fields (FStr str # xs) (b, o1) = Some (b', o2)"
  shows "buff_get_string out (b', o1) =
      (if length out < length str + 1 then None
       else Some (word_of_nat (length str + 1), str @ 0 # drop (length str + 1) out, o1 + (5 + length str)))"
    "\<exists>b1. put_fields xs (b1, o1 + (5 + length str)) = Some (b', o2) \<and> o1 + (5 + length str) \<le> length b1"
proof -
  obtain b1 om where p: "buff_put_string str (b, o1) = Some (b1, om)" "put_fields xs (b1, om) = Some (b', o2)"
    using assms(5) by (auto split: option.splits)
  have px: "om = o1 + (5 + length str)" "length b1 = length b" "om \<le> length b"
    using string_codec.put_cases[OF _ p(1)] assms(2,3) by auto
  have r: "take om b' = take om b1" "length b' = length b1"
    using msg.put_all_prefix[of xs om b1 b' o2] p(2) assms(1) px by (auto simp: put_fields_msg)
  have bin: "buff_put_binary (str @ [0]) (length (str @ [0])) (b, o1) = Some (b1, om)"
    using p(1) by (simp add: put_string_binary)
  show "buff_get_string out (b', o1) =
      (if length out < length str + 1 then None
       else Some (word_of_nat (length str + 1), str @ 0 # drop (length str + 1) out, o1 + (5 + length str)))"
  proof (cases "length out < length str + 1")
    case False
    then show ?thesis
      using get_put_binary[of "str @ [0]" out b o1 b1 om b'] bin r px assms(3)
      by (simp add: buff_get_string_def)
  next
    case True
    have g: "buff_get_binary (replicate (length str + 1) 0) (b', o1) \<noteq> None"
      using get_put_binary[of "str @ [0]" "replicate (length str + 1) 0" b o1 b1 om b'] bin r px assms(3) by simp
    obtain v o3 where v: "buff_get_int (b', o1) = Some (v, o3)" "sint v = int (length str + 1)"
    proof -
      obtain b2 o3 where q: "buff_put_int (word_of_nat (length str + 1)) (b, o1) = Some (b2, o3)"
          "buff_put_struct (str @ [0]) (length str + 1) (b2, o3) = Some (b1, om)"
        using bin by (auto simp: buff_put_binary_def split: option.splits)
      have o3: "o3 = o1 + 4" using int_codec.put_cases[OF TrueI q(1)] by simp
      have sb: "take o3 b1 = take o3 b2" "length b2 = length b1"
        using struct_codec.put_cases[of "str @ [0]" b2 o3 b1 om] q(2) by auto
      have "take o3 (take om b') = take o3 (take om b1)" using r by simp
      then have "take o3 b' = take o3 b1" using px o3 by simp
      then have "take o3 b' = take o3 b2" using sb by simp
      then have "buff_get_int (b', o1) = Some (word_of_nat (length str + 1), o3)"
        using int_codec.get_put[OF TrueI TrueI q(1), of b'] px o3 r by (simp add: get_int_field_def)
      then show thesis using that sint_word_of_nat[OF assms(3)] by simp
    qed
    show ?thesis
      using True v g
      by (auto simp: buff_get_string_def buff_get_binary_def buff_get_struct_def write_at_def
          dest: read_at_length split: option.splits if_splits)
  qed
  show "\<exists>b1. put_fields xs (b1, o1 + (5 + length str)) = Some (b', o2) \<and> o1 + (5 + length str) \<le> length b1"
    using p px by auto
qed

section \<open>Which notifications fit\<close>

lemma usc2_chars_None:
  "0 \<notin> set xs \<Longrightarrow> length outb < len + 2 * length xs \<Longrightarrow> len \<le> length outb \<Longrightarrow> usc2_chars outb len xs = None"
proof (induction xs arbitrary: outb len)
  case (Cons b bs)
  show ?case
  proof (cases "write_at outb len [0, b]")
    case (Some o2)
    then have "length o2 = length outb" "len + 2 \<le> length outb"
      using write_at_length[OF Some] by (auto simp: write_at_def split: if_splits)
    then show ?thesis using Cons.IH[of o2 "len + 2"] Cons.prems Some by simp
  qed (use Cons.prems in simp)
qed simp

lemma usc2_chars_length: "usc2_chars outb len xs = Some (n, u) \<Longrightarrow> length u = length outb"
  by (induction outb len xs rule: usc2_chars.induct)
    (auto split: if_splits option.splits dest: write_at_length)

lemma hex_loop_None:
  "length outb < i * 2 + 2 * length xs \<Longrightarrow> xs \<noteq> [] \<Longrightarrow> hex_loop outb i xs = None"
proof (induction xs arbitrary: outb i)
  case (Cons b bs)
  show ?case
  proof (cases "write_at outb (i * 2) [hex_digit (drop_bit 4 b AND 0xf), hex_digit (b AND 0xf)]")
    case (Some o2)
    then have "length o2 = length outb" "i * 2 + 2 \<le> length outb"
      using write_at_length[OF Some] by (auto simp: write_at_def split: if_splits)
    then show ?thesis using Cons.IH[of o2 "i + 1"] Cons.prems Some by (cases bs) auto
  qed simp
qed simp

lemma asc_fits:
  assumes "0 \<notin> set str"
  shows "if length str \<le> 509
    then \<exists>u. asc_str_to_usc2_str (replicate 1024 0) str = Some (2 * length str + 2, u) \<and> length u = 1024
    else asc_str_to_usc2_str (replicate 1024 0) str = None"
proof -
  obtain o1 where o1: "write_at (replicate 1024 0) 0 [0xfe, 0xff] = Some (o1 :: byte list)" "length o1 = 1024"
    by (simp add: write_at_def)
  show ?thesis
  proof (cases "2 + 2 * length str \<le> 1024")
    case True
    then obtain u where u: "usc2_chars o1 2 str = Some (2 + 2 * length str, u)"
      using usc2_chars_spec[OF assms, of 2 o1] o1 by auto
    then have l: "length u = 1024" using usc2_chars_length o1 by fastforce
    show ?thesis
      using u l o1(1)
      by (auto simp: asc_str_to_usc2_str_def write_at_def[of u] split: option.splits)
  next
    case False
    then show ?thesis
      using usc2_chars_None[OF assms, of o1 2] o1 by (simp add: asc_str_to_usc2_str_def)
  qed
qed

text \<open>The capacity of the conversion: the intermediate array of 1024 bytes and the destination.\<close>

definition text_fits :: "nat \<Rightarrow> byte list \<Rightarrow> bool" where
  "text_fits cap str = (length str \<le> 509 \<and> 4 * length str + 4 \<le> cap)"

lemma ucs2_hex_fits:
  assumes "0 \<notin> set str"
  shows "ucs2_hex cap str = None \<longleftrightarrow> \<not> text_fits cap str"
proof (cases "length str \<le> 509")
  case True
  then obtain u where u: "asc_str_to_usc2_str (replicate 1024 0) str = Some (2 * length str + 2, u)" "length u = 1024"
    using asc_fits[OF assms] by auto
  let ?xs = "take (2 * length str + 2) u"
  have r: "read_at u 0 (2 * length str + 2) = Some ?xs" "length ?xs = 2 * length str + 2"
    using u(2) True by (simp_all add: read_at_def)
  have "hex_loop (replicate cap 0) 0 ?xs = None \<longleftrightarrow> cap < 4 * length str + 4"
  proof (cases "cap < 4 * length str + 4")
    case c: True
    have "?xs \<noteq> []" using r(2) by (cases ?xs) simp_all
    then show ?thesis using hex_loop_None[of "replicate cap 0" 0 ?xs] r(2) c by simp
  next
    case False
    then show ?thesis using hex_loop_spec[of 0 ?xs "replicate cap 0"] r(2) by simp
  qed
  then show ?thesis
    using u(1) r(1) True by (auto simp: ucs2_hex_def raw_data_to_hex_string_def text_fits_def)
next
  case False
  then show ?thesis using asc_fits[OF assms] by (simp add: ucs2_hex_def text_fits_def)
qed

lemma c_string_terminated: "0 \<notin> set str \<Longrightarrow> c_string (str @ 0 # rest) = Some str"
  by (simp add: c_string_def takeWhile_terminated)

lemma handler_buff_whole: "length bs = HANDLER_BUFF \<Longrightarrow> handler_buff bs = bs"
  by (simp add: handler_buff_def)

lemma notification_1_reads:
  assumes "0 \<notin> set r" "0 \<notin> set c" "length r + 1 < 2 ^ 31" "length c + 1 < 2 ^ 31"
    "put_fields [FInt ty, FStr r, FStr c] (b, o1) = Some (b', o2)" "o1 \<le> length b"
    "buff_get_int (b', o0) = Some (nid, o1)" "length (stack_junk e) = 1024"
  shows "notification_1 e (b', o0) =
    (if text_fits (NI_SHORT e) r \<and> text_fits (NI_LONG e) c
     then Some \<lparr>notification_id = nid, notify_flags = ni_flags_of ty, ni_timeout = 8,
       requestor_id = the (ucs2_hex (NI_SHORT e) r), ni_text = the (ucs2_hex (NI_LONG e) c),
       requestor_id_encoding = ENC_SUPL_UCS2 e, text_encoding = ENC_SUPL_UCS2 e\<rparr>
     else None)"
proof -
  have ty: "buff_get_int (b', o1) = Some (ty, o1 + 4)"
    using next_int(1)[OF _ assms(6,5)] assms(1-4) by simp
  obtain b1 where b1: "put_fields [FStr r, FStr c] (b1, o1 + 4) = Some (b', o2)" "o1 + 4 \<le> length b1"
    using next_int(2)[OF _ assms(6,5)] assms(1-4) by auto
  note r = next_string[OF _ assms(1,3) b1(2,1)]
  obtain b2 where b2: "put_fields [FStr c] (b2, o1 + 4 + (5 + length r)) = Some (b', o2)"
    "o1 + 4 + (5 + length r) \<le> length b2"
    using r(2) assms(2,4) by auto
  note cl = next_string(1)[OF _ assms(2,4) b2(2,1)]
  define o3 where "o3 = o1 + 4 + (5 + length r)"
  have gr: "buff_get_string (stack_junk e) (b', o1 + 4) =
      (if 1024 < length r + 1 then None else Some (word_of_nat (length r + 1),
        r @ 0 # drop (length r + 1) (stack_junk e), o3))"
    using r(1)[of "stack_junk e"] assms(2,4,8) by (simp add: o3_def)
  have gc: "buff_get_string (stack_junk e) (b', o3) =
      (if 1024 < length c + 1 then None else Some (word_of_nat (length c + 1),
        c @ 0 # drop (length c + 1) (stack_junk e), o3 + (5 + length c)))"
    using cl[of "stack_junk e"] assms(8) by (simp add: o3_def)
  have f: "text_fits cap str \<Longrightarrow> length str \<le> 509" for cap str by (simp add: text_fits_def)
  show ?thesis
    using f[of "NI_SHORT e" r] f[of "NI_LONG e" c] ucs2_hex_fits[OF assms(1), of "NI_SHORT e"]
      ucs2_hex_fits[OF assms(2), of "NI_LONG e"]
    by (auto simp: notification_1_def assms(7) ty gr gc c_string_terminated[OF assms(1)]
        c_string_terminated[OF assms(2)] split: option.splits if_splits Option.bind_splits)
qed

text \<open>A message of the daemon as it arrives in the handler's buffer.\<close>

definition daemon_msg :: "field list \<Rightarrow> byte list" where
  "daemon_msg fs = (case put_fields fs (replicate HANDLER_BUFF 0, 0) of None \<Rightarrow> [] | Some (b, _) \<Rightarrow> b)"

lemma daemon_msg_put:
  assumes "\<forall>x \<in> set fs. field_wf x" "msg_size fs \<le> HANDLER_BUFF"
  shows "put_fields fs (replicate HANDLER_BUFF 0, 0) = Some (daemon_msg fs, msg_size fs)"
    "length (daemon_msg fs) = HANDLER_BUFF"
proof -
  obtain b where "put_fields fs (replicate HANDLER_BUFF 0, 0) = Some (b, msg_size fs)" "length b = HANDLER_BUFF"
    using msg.put_all_fits[OF assms(1), of 0 "replicate HANDLER_BUFF 0"] assms(2)
    by (auto simp: put_fields_msg msg_total)
  then show "put_fields fs (replicate HANDLER_BUFF 0, 0) = Some (daemon_msg fs, msg_size fs)"
    "length (daemon_msg fs) = HANDLER_BUFF"
    by (simp_all add: daemon_msg_def)
qed

text \<open>The handler reads the first field of such a message, and goes on behind it.\<close>

lemma daemon_msg_type:
  assumes "\<forall>x \<in> set fs. field_wf x" "msg_size (FInt ty # fs) \<le> HANDLER_BUFF"
  shows "buff_get_int (daemon_msg (FInt ty # fs), 0) = Some (ty, 4)"
    "\<exists>b. put_fields fs (b, 4) = Some (daemon_msg (FInt ty # fs), msg_size (FInt ty # fs)) \<and> 4 \<le> length b"
    "handler_buff (daemon_msg (FInt ty # fs)) = daemon_msg (FInt ty # fs)"
proof -
  note p = daemon_msg_put[of "FInt ty # fs", OF _ assms(2)]
  show "buff_get_int (daemon_msg (FInt ty # fs), 0) = Some (ty, 4)"
    "\<exists>b. put_fields fs (b, 4) = Some (daemon_msg (FInt ty # fs), msg_size (FInt ty # fs)) \<and> 4 \<le> length b"
    using next_int[OF assms(1) _ p(1)] assms(1) by auto
  show "handler_buff (daemon_msg (FInt ty # fs)) = daemon_msg (FInt ty # fs)"
    using p(2) assms(1) by (intro handler_buff_whole) simp
qed

text \<open>
  C23: A location request notification of the daemon, of any texts that fit its message, is delivered
  with its number, its flags and both texts in hexadecimal UCS-2 exactly when the requestor and the
  client fit their arrays after the conversion: with the sizes of \<open>gps.h\<close>, 63 and 509 characters.
  A longer text makes the handler write past an array.
\<close>

theorem notification_delivered:
  assumes "0 \<notin> set r" "0 \<notin> set c" "length r + length c \<le> 8978" "gps_ni_callbacks s"
    "length (stack_junk e) = 1024"
  shows "mnld_to_gps_handler e (daemon_msg [FInt MNL_AGPS_CMD_NOTIFICATION, FInt nid, FInt ty, FStr r, FStr c]) s =
    (if text_fits (NI_SHORT e) r \<and> text_fits (NI_LONG e) c
     then Some [Call (NotifyCb \<lparr>notification_id = nid, notify_flags = ni_flags_of ty, ni_timeout = 8,
       requestor_id = the (ucs2_hex (NI_SHORT e) r), ni_text = the (ucs2_hex (NI_LONG e) c),
       requestor_id_encoding = ENC_SUPL_UCS2 e, text_encoding = ENC_SUPL_UCS2 e\<rparr>)]
     else None)"
proof -
  let ?fs = "[FInt nid, FInt ty, FStr r, FStr c]"
  let ?m = "daemon_msg (FInt MNL_AGPS_CMD_NOTIFICATION # ?fs)"
  have wf: "\<forall>x \<in> set ?fs. field_wf x" using assms by simp
  have sz: "msg_size (FInt MNL_AGPS_CMD_NOTIFICATION # ?fs) \<le> HANDLER_BUFF"
    using assms(3) by (simp add: msg_size_def HANDLER_BUFF_def)
  note m = daemon_msg_type[OF wf sz]
  obtain b n where b: "put_fields ?fs (b, 4) = Some (?m, n)" "4 \<le> length b" using m(2) by auto
  have wf1: "\<forall>x \<in> set [FInt ty, FStr r, FStr c]. field_wf x" using wf by simp
  note i = next_int[OF wf1 b(2,1)]
  obtain b1 where b1: "put_fields [FInt ty, FStr r, FStr c] (b1, 4 + 4) = Some (?m, n)" "4 + 4 \<le> length b1"
    using i(2) by auto
  have "notification_1 e (?m, 4) =
    (if text_fits (NI_SHORT e) r \<and> text_fits (NI_LONG e) c
     then Some \<lparr>notification_id = nid, notify_flags = ni_flags_of ty, ni_timeout = 8,
       requestor_id = the (ucs2_hex (NI_SHORT e) r), ni_text = the (ucs2_hex (NI_LONG e) c),
       requestor_id_encoding = ENC_SUPL_UCS2 e, text_encoding = ENC_SUPL_UCS2 e\<rparr>
     else None)"
    using notification_1_reads[OF assms(1,2) _ _ b1 i(1) assms(5)] assms(3) by simp
  then show ?thesis using m(1,3) assms(4) by (simp add: mnld_to_gps_handler_def through_def)
qed

text \<open>
  A navigation message is delivered exactly when its length field is at most 40: the handler
  copies that many bytes of a 40-byte array, without looking at the number.
\<close>

theorem navigation_length_unchecked:
  assumes "length ev = SIZEOF_NAVIGATION_EVENT" "gpsnavigation_init_flag s = 1"
  shows "mnld_to_gps_handler e (daemon_msg [FInt HAL_CMD_NAVIGATION, FStruct ev]) s =
    (let n = unat (un_le32 (slice ev 12 4))
     in if n \<le> 40
        then Some [Call (NavigationCb \<lparr>nav_type = ev ! 4, nav_prn = ev ! 5, message_id = un_le16 (slice ev 6 2),
                submessage_id = un_le16 (slice ev 8 2), nav_data = slice ev 16 n\<rparr>)]
        else None)"
proof -
  have sz: "msg_size (FInt HAL_CMD_NAVIGATION # [FStruct ev]) \<le> HANDLER_BUFF"
    using assms(1) by (simp add: msg_size_def HANDLER_BUFF_def SIZEOF_NAVIGATION_EVENT_def)
  note m = daemon_msg_type[of "[FStruct ev]" HAL_CMD_NAVIGATION, OF _ sz]
  obtain b n where b: "put_fields [FStruct ev] (b, 4) = Some (daemon_msg [FInt HAL_CMD_NAVIGATION, FStruct ev], n)"
    "4 \<le> length b"
    using m(2) by auto
  have ev: "buff_get_struct (replicate SIZEOF_NAVIGATION_EVENT 0) SIZEOF_NAVIGATION_EVENT
      (daemon_msg [FInt HAL_CMD_NAVIGATION, FStruct ev], 4) = Some (ev, 4 + length ev)"
    using msg.get_next(1)[of "FStruct ev" "[]" "SStruct SIZEOF_NAVIGATION_EVENT" 4 b] b assms(1)
    by (auto simp: put_fields_msg get_struct_field_def)
  show ?thesis
    using m(1,3) ev assms
    by (auto simp: mnld_to_gps_handler_def msg_codes navigation_msg_def read_at_def slice_def Let_def
        SIZEOF_NAVIGATION_EVENT_def min_def)
qed

text \<open>
  A message that is passed to the framework before the framework has handed over the callbacks
  makes the library call through a NULL pointer.
\<close>

theorem early_message_crashes:
  "mnld_to_gps_handler e (daemon_msg [FInt MNL_AGPS_CMD_DATA_CONN_RELEASE]) s =
    (if agps_callbacks s then Some [Call (AgpsStatusCb ReleaseDataConn)] else None)"
proof -
  have sz: "msg_size (FInt MNL_AGPS_CMD_DATA_CONN_RELEASE # []) \<le> HANDLER_BUFF"
    by (simp add: msg_size_def HANDLER_BUFF_def)
  show ?thesis
    using daemon_msg_type[of "[]" MNL_AGPS_CMD_DATA_CONN_RELEASE, OF _ sz]
    by (simp add: mnld_to_gps_handler_def msg_codes through_def)
qed

section \<open>The table of extensions\<close>

datatype extension =
    XtraInterface | AgpsInterface | NiInterface | AgpsRilInterface | SuplCertificateInterface
  | MeasurementInterface | NavigationInterface

text \<open>\<open>strncmp(name, known, strlen(name)) == 0\<close>.\<close>

definition name_matches :: "string \<Rightarrow> string \<Rightarrow> bool" where
  "name_matches name known = (take (length name) known = name)"

text \<open>The names of the other three interfaces come from \<open>hardware/gps.h\<close>.\<close>

definition mtk_gps_get_extension :: "string \<Rightarrow> string \<Rightarrow> string \<Rightarrow> string \<Rightarrow> extension option" where
  "mtk_gps_get_extension xtra meas nav name =
     (if name = xtra then Some XtraInterface
      else if name_matches name ''agps'' then Some AgpsInterface
      else if name_matches name ''gps-ni'' then Some NiInterface
      else if name_matches name ''agps_ril'' then Some AgpsRilInterface
      else if name_matches name ''supl-certificate'' then Some SuplCertificateInterface
      else if name_matches name meas then Some MeasurementInterface
      else if name_matches name nav then Some NavigationInterface
      else None)"

lemma name_matches_prefix: "name_matches name known \<longleftrightarrow> (\<exists>rest. known = name @ rest)"
  by (auto simp: name_matches_def) (metis append_take_drop_id)

text \<open>
  The lookup compares no further than the name it is given: it rejects exactly the names that
  are neither the XTRA interface nor the beginning of a known name, so that every beginning of a
  name, the empty one included, is given an interface.
\<close>

theorem extension_by_prefix:
  "mtk_gps_get_extension xtra meas nav name = None \<longleftrightarrow>
     name \<noteq> xtra \<and> \<not> list_ex (\<lambda>known. \<exists>rest. known = name @ rest)
       [''agps'', ''gps-ni'', ''agps_ril'', ''supl-certificate'', meas, nav]"
  by (simp add: mtk_gps_get_extension_def flip: name_matches_prefix)

end
