(* ===== verification/Gps_Session.thy ===== *)
theory Gps_Session
  imports Gps_Dispatch
begin

text \<open>
  The session of \<open>src/hal/gps/hal/gps_mtk_aosp.c\<close>: the calls of the framework (\<open>mtk_gps_init\<close>,
  \<open>mtk_gps_start\<close>, \<open>mtk_gps_stop\<close>, \<open>mtk_gps_cleanup\<close> and the others of \<open>GpsInterface\<close>), the GPS thread
  \<open>gps_state_thread\<close>, and the download thread, running side by side.

  A thread is the list of actions it has left.  \<open>exec\<close> is one action; \<open>sess_step\<close> is one event: a step
  of a thread, a call of the framework, or something that arrives for the GPS thread.  Events come
  in any order, so the threads interleave freely between two actions.
\<close>

section \<open>The world of a session\<close>

datatype cb_size = CbMtk | CbPlain | CbOther

text \<open>The flags of \<open>hardware/gps.h\<close> that \<open>mtk_gps_delete_aiding_data\<close> compares with.\<close>

record del_env =
  DEL_EPHEMERIS :: "16 word"
  DEL_ALMANAC :: "16 word"
  DEL_POSITION :: "16 word"
  DEL_TIME :: "16 word"
  DEL_IONO :: "16 word"
  DEL_UTC :: "16 word"
  DEL_HEALTH :: "16 word"
  DEL_RTI :: "16 word"
  DEL_ALL :: "16 word"

text \<open>
  What the operating system and the framework answer: whether the device, the socket pair, the AT
  socket, the GPS thread and the codec socket come into being, the size the callbacks are given
  with, the clock, the location file, the bytes of floating point numbers, the properties, and the
  comparison of \<open>report_time_interval\<close> with the counter.
\<close>

record 'd senv =
  sg :: "'d genv"
  se_epo :: epo_env
  se_ni :: ni_env
  se_del :: del_env
  dev_opens :: bool
  pair_ok :: bool
  at_sock_ok :: bool
  thread_ok :: bool
  codec_ok :: bool
  epo_thread_ok :: bool
  cb_given :: cb_size
  send_fd_ok :: bool
  clock_ok :: bool
  dbl_bytes :: "'d \<Rightarrow> byte list"
  flt_bytes :: "'d \<Rightarrow> byte list"
  loc_opens :: bool
  force_mode :: string
  chip_prop :: "nat \<Rightarrow> string"
  mnl_props :: "string option list"
  interval_above :: "nat \<Rightarrow> nat \<Rightarrow> bool"

text \<open>The reader's parameters with the mode and the initialisation flag of the moment.\<close>

definition genv_of :: "'d senv \<Rightarrow> 'd sess \<Rightarrow> 'd genv" where
  "genv_of e s = (sg e)\<lparr>gps_mode := mode s, ae := (ae (sg e))\<lparr>ae_init := (s_init s \<noteq> 0)\<rparr>\<rparr>"

definition at_of :: "'d senv \<Rightarrow> 'd sess \<Rightarrow> at_env" where
  "at_of e s = ae (genv_of e s)"

definition upd_at :: "(at_st \<Rightarrow> at_st) \<Rightarrow> 'd sess \<Rightarrow> 'd sess" where
  "upd_at f s = s\<lparr>rd := (rd s)\<lparr>atst := f (atst (rd s))\<rparr>\<rparr>"

definition agps_of :: "'d sess \<Rightarrow> agps_st" where
  "agps_of s = agps (atst (rd s))"

definition set_agps :: "agps_st \<Rightarrow> 'd sess \<Rightarrow> 'd sess" where
  "set_agps a s = upd_at (\<lambda>t. t\<lparr>agps := a\<rparr>) s"

text \<open>The download sees the same sockets, network state and \<open>started\<close> as the rest.\<close>

definition upd_epo :: "'d senv \<Rightarrow> (epo_env \<Rightarrow> epo_st \<Rightarrow> epo_st) \<Rightarrow> 'd sess \<Rightarrow> 'd sess" where
  "upd_epo e f s =
     (let p = f ((se_epo e)\<lparr>ee_send := ae_send (at_of e s)\<rparr>)
                ((ep s)\<lparr>eagps := agps_of s, estarted := started s\<rparr>)
      in set_agps (eagps p) (s\<lparr>ep := p\<rparr>))"

section \<open>Locks\<close>

text \<open>\<open>release_condition\<close>; \<open>get_condition\<close> waits until the condition is set and takes it.\<close>

definition release_condition :: "lock \<Rightarrow> 'd sess \<Rightarrow> 'd sess" where
  "release_condition l s = s\<lparr>locks := (locks s)(l := 1)\<rparr>"

definition get_condition :: "lock \<Rightarrow> 'd sess \<Rightarrow> 'd sess option" where
  "get_condition l s = (if locks s l = 0 then None else Some (s\<lparr>locks := (locks s)(l := 0)\<rparr>))"

section \<open>Programs of the calls\<close>

definition gps_state_done :: "act list" where
  "gps_state_done = [WriteQuit, Get M_CLEANUP, CloseState]"

definition mtk_gps_init :: "act list" where
  "mtk_gps_init =
     [CheckNotInit, CopyCallbacks, StateInit, Get M_INIT, SetInit, Call SetCapabilities, InitModes,
      GiveBack 0]"

definition mtk_gps_start :: "act list" where
  "mtk_gps_start =
     [CheckInit, WaitWhileStartFlag 1, StartDaemon, EpoAtStart, Get M_START, SendCommand 1,
      SetSta ENGINE_ON, ReportSta, SetSta SESSION_BEGIN, ReportSta, Call AcquireWakelock,
      ClearIfSet M_STOP, SetStartFlag 1, GiveBack 0]"

definition mtk_gps_stop :: "act list" where
  "mtk_gps_stop = [CheckInit, WaitWhileStartFlag 0, StopDaemon, SendCommand 2, GiveBack 0]"

definition mtk_gps_cleanup :: "act list" where
  "mtk_gps_cleanup =
     [CleanupDaemon, WaitStopIfStarted, ClearIfSet M_STOP, DoneIfInit, SetEpoExit,
      Get M_THREAD_EXIT, GiveBack 0]"

section \<open>The parts of the initialisation\<close>

text \<open>\<open>gps_state_init\<close>: what remains to be done after it has run, and the state; \<open>None\<close> when the
  message to the daemon never gets through.\<close>

definition gps_state_init :: "'d senv \<Rightarrow> 'd sess \<Rightarrow> (act list \<times> 'd sess) option" where
  "gps_state_init e s =
     (if \<not> dev_opens e then Some ([], s\<lparr>control_open := False\<rparr>)
      else
        case mtk_init (ae_send (at_of e s)) (agps_of s) of
          Done r a \<Rightarrow>
            let s1 = set_agps a (s\<lparr>control_open := False\<rparr>)
            in if r \<noteq> 0 \<or> \<not> pair_ok e then Some (gps_state_done, s1)
               else
                 let s2 = s1\<lparr>control_open := True, nread := length (ctl (atst (rd s1)))\<rparr>
                 in if (gps_at (sg e) \<and> \<not> at_sock_ok e) \<or> \<not> thread_ok e
                    then Some (gps_state_done, s2)
                    else Some ([], s2\<lparr>hal := Running [ThreadStart]\<rparr>)
        | _ \<Rightarrow> None)"

definition select_gps_mode :: "string \<Rightarrow> cb_size \<Rightarrow> int \<Rightarrow> int" where
  "select_gps_mode prop sz m =
     (let m1 = (if prop = ''gnss'' then 0 else if prop = ''gps'' then 1 else m)
      in if m1 < 0 then (case sz of CbMtk \<Rightarrow> 0 | CbPlain \<Rightarrow> 1 | CbOther \<Rightarrow> m1) else m1)"

text \<open>At most 20 readings of the chip property, until it has six characters.\<close>

fun chip_loop :: "(nat \<Rightarrow> string) \<Rightarrow> nat \<Rightarrow> nat \<Rightarrow> string \<Rightarrow> string" where
  "chip_loop p k 0 old = old"
| "chip_loop p k (Suc n) old = (if length (p k) < 6 then chip_loop p (k + 1) n (p k) else p k)"

definition gps_only_chips :: "string list" where
  "gps_only_chips = [''0x6572'', ''0x6582'', ''0x6580'', ''0x6592'', ''0x6571'', ''0x8127'', ''0x0335'', ''0x8163'']"

fun gnss_mode_of :: "string option list \<Rightarrow> int \<Rightarrow> int" where
  "gnss_mode_of [] m = m"
| "gnss_mode_of (f # fs) m =
     (let (r, m1) = read_prop f m in if r = 0 then m1 else gnss_mode_of fs m1)"

text \<open>The EPO type and the GNSS mode after it; the property files are only read for other chips.\<close>

definition select_epo_type :: "string \<Rightarrow> string option list \<Rightarrow> int \<Rightarrow> int \<times> int" where
  "select_epo_type chip props m =
     (if chip \<in> set gps_only_chips then (1, m)
      else let g = gnss_mode_of props m in (if g \<noteq> 0 \<and> g \<noteq> 2 then 1 else 0, g))"

definition init_modes :: "'d senv \<Rightarrow> 'd sess \<Rightarrow> 'd sess" where
  "init_modes e s =
     (let (ty, g) = select_epo_type (chip_loop (chip_prop e) 0 20 (force_mode e)) (mnl_props e) (gnss_mode s)
      in s\<lparr>mode := select_gps_mode (force_mode e) (cb_given e) (mode s), gnss_mode := g,
           ep := (ep s)\<lparr>gps_epo_type := ty\<rparr>\<rparr>)"

section \<open>The orbit data at start\<close>

definition NW_DATA :: int where "NW_DATA = 0"

definition epo_at_start :: "epo_env \<Rightarrow> epo_st \<Rightarrow> epo_st" where
  "epo_at_start e s0 =
     (let s = s0\<lparr>ecfg := snd (gps_download_epo_enable (ee_conf e) (ecfg s0))\<rparr>
      in if gps_epo_enable (ecfg s) = 0 then s
         else if files s EPO_FILE_HAL = None
         then if files s EPO_FILE = None then gps_download_epo s
              else let (expired, s1) = mtk_epo_is_expired e False s
                   in if expired then gps_download_epo s1 else s1
         else if nw_type (eagps s) = NW_DATA \<and> nw_connected (eagps s) = 1 \<and> epo_download_failed s \<noteq> 0
                 \<or> nw_connected (eagps s) = 0 \<and> epo_download_failed s \<noteq> 0
                 \<or> epo_download_failed s = 0
         then let (expired, s1) = mtk_epo_is_expired e False s
              in if expired then gps_download_epo (unlink EPO_FILE_HAL s1)
                 else snd (send_update e (unlink EPO_FILE s1))
         else s)"

section \<open>Calls that no thread competes with\<close>

datatype dcall =
    AgpsInit | NiInit | RilInit | XtraInit
  | MeasurementInit | MeasurementClose | NavigationInit | NavigationClose
  | SetPositionMode nat
  | DeleteAidingData "16 word"
  | InjectTime "byte list" "byte list" "32 word"
  | InjectLocation "byte list" "byte list" "byte list" "byte list"
  | NetworkState int int int "byte list option"

text \<open>A message of the library: its result and the state; \<open>None\<close> when the call never returns.\<close>

definition with_send :: "(agps_st \<Rightarrow> outcome) \<Rightarrow> 'd sess \<Rightarrow> (int \<times> 'd sess) option" where
  "with_send f s = (case f (agps_of s) of Done r a \<Rightarrow> Some (r, set_agps a s) | _ \<Rightarrow> None)"

definition mtk_gps_measurement_init :: "'d senv \<Rightarrow> 'd sess \<Rightarrow> (int \<times> 'd sess) option" where
  "mtk_gps_measurement_init e s =
     map_option (\<lambda>(r, t). if r \<noteq> 0 then (- 1, t) else (0, t\<lparr>gpsmeasurement_init_flag := 1\<rparr>))
       (with_send (mtk_measurement_init (ae_send (at_of e s))) s)"

definition mtk_gps_measurement_close :: "'d senv \<Rightarrow> 'd sess \<Rightarrow> (int \<times> 'd sess) option" where
  "mtk_gps_measurement_close e s =
     map_option (\<lambda>(r, t). (0, t\<lparr>gpsmeasurement_init_flag := 0\<rparr>))
       (with_send (mtk_measurement_close (ae_send (at_of e s))) s)"

definition mtk_gps_navigation_init :: "'d senv \<Rightarrow> 'd sess \<Rightarrow> (int \<times> 'd sess) option" where
  "mtk_gps_navigation_init e s =
     map_option (\<lambda>(r, t). if r \<noteq> 0 then (- 1, t) else (0, t\<lparr>gpsnavigation_init_flag := 1\<rparr>))
       (with_send (mtk_navigation_init (ae_send (at_of e s))) s)"

definition mtk_gps_navigation_close :: "'d senv \<Rightarrow> 'd sess \<Rightarrow> (int \<times> 'd sess) option" where
  "mtk_gps_navigation_close e s =
     map_option (\<lambda>(r, t). (0, t\<lparr>gpsnavigation_init_flag := 0\<rparr>))
       (with_send (mtk_navigation_close (ae_send (at_of e s))) s)"

text \<open>The thread is created whether or not the library is initialised, and its result is returned.\<close>

definition mtk_gps_epo_interface_init :: "'d senv \<Rightarrow> 'd sess \<Rightarrow> int \<times> 'd sess" where
  "mtk_gps_epo_interface_init e s =
     (if epo_thread_ok e
      then (0, s\<lparr>epo_threads := epo_threads s + 1, thread_epo_exit_flag := 0\<rparr>)
      else (1, s))"

definition restart_command :: "del_env \<Rightarrow> 16 word \<Rightarrow> byte option" where
  "restart_command d f =
     (if f = DEL_RTI d then Some 0x05
      else if f = DEL_EPHEMERIS d then Some 0x06
      else if f = (DEL_EPHEMERIS d OR DEL_POSITION d OR DEL_TIME d OR DEL_IONO d OR DEL_UTC d OR DEL_HEALTH d)
      then Some 0x07
      else if f = DEL_ALL d then Some 0x08
      else if f = (DEL_EPHEMERIS d OR DEL_ALMANAC d OR DEL_POSITION d OR DEL_TIME d OR DEL_IONO d OR DEL_UTC d)
      then Some 0x09
      else None)"

definition mtk_gps_delete_aiding_data :: "'d senv \<Rightarrow> 16 word \<Rightarrow> 'd sess \<Rightarrow> (int \<times> 'd sess) option" where
  "mtk_gps_delete_aiding_data e f s =
     (let s1 = upd_at (gps_state_restart (at_of e s)) s
      in case restart_command (se_del e) f of None \<Rightarrow> Some (0, s1)
         | Some c \<Rightarrow> map_option (\<lambda>(_, t). (0, t)) (with_send (mtk_restart (ae_send (at_of e s)) c) s1))"

text \<open>\<open>report_time_interval\<close> is \<open>min_interval / 1000\<close>, one up to a second.\<close>

definition mtk_gps_set_position_mode :: "nat \<Rightarrow> 'd sess \<Rightarrow> int \<times> 'd sess" where
  "mtk_gps_set_position_mode n s = (0, s\<lparr>min_interval := (if n \<le> 1000 then 1000 else n)\<rparr>)"

text \<open>\<open>ntp_context\<close>: eight bytes of time, eight of reference, the uncertainty and padding.\<close>

definition mtk_gps_inject_time ::
    "'d senv \<Rightarrow> byte list \<Rightarrow> byte list \<Rightarrow> 32 word \<Rightarrow> 'd sess \<Rightarrow> (int \<times> 'd sess) option" where
  "mtk_gps_inject_time e t ref unc s =
     (if send_fd_ok e
      then map_option (\<lambda>(_, s1). (0, s1))
             (with_send (send_msg (ae_send (at_of e s))
                [FInt 0x46, FStruct (t @ ref @ le32 unc @ take 4 (stack_junk (se_ni e)))]) s)
      else Some (0, s))"

text \<open>\<open>nlp_context\<close>: latitude, longitude, accuracy, time stamp, type and \<open>started\<close>, with padding.\<close>

definition nlp_context ::
    "'d senv \<Rightarrow> byte \<Rightarrow> byte list \<Rightarrow> byte list \<Rightarrow> byte list \<Rightarrow> byte list \<Rightarrow> int \<Rightarrow> byte list" where
  "nlp_context e ty lat lon acc ts st =
     (let pad = stack_junk (se_ni e)
      in lat @ lon @ acc @ take 4 pad @ ts @ [ty, word_of_int st] @ take 6 pad)"

text \<open>The file of the last location; it keeps its contents when it cannot be opened.\<close>

definition mtk_gps_update_location :: "'d senv \<Rightarrow> byte list \<Rightarrow> byte list option \<Rightarrow> byte list option" where
  "mtk_gps_update_location e ctx old = (if loc_opens e then Some ctx else old)"

definition mtk_gps_inject_location ::
    "'d senv \<Rightarrow> byte list \<Rightarrow> byte list \<Rightarrow> byte list \<Rightarrow> byte list \<Rightarrow> 'd sess \<Rightarrow> (int \<times> 'd sess) option" where
  "mtk_gps_inject_location e lat lon acc ts s =
     (if \<not> clock_ok e then Some (- 1, s)
      else
        let ctx = nlp_context e 0 lat lon acc ts (started s);
            s1 = s\<lparr>loc_file := mtk_gps_update_location e ctx (loc_file s)\<rparr>
        in if send_fd_ok e
           then map_option (\<lambda>(_, t). (0, t))
                  (with_send (send_msg (ae_send (at_of e s)) [FInt 0x47, FStruct ctx]) s1)
           else Some (0, s1))"

definition direct :: "'d senv \<Rightarrow> dcall \<Rightarrow> 'd sess \<Rightarrow> (int \<times> 'd sess) option" where
  "direct e c s =
     (case c of
        AgpsInit \<Rightarrow> Some (0, agps_init s)
      | NiInit \<Rightarrow> Some (0, gps_ni_init s)
      | RilInit \<Rightarrow> Some (0, agps_ril_init s)
      | XtraInit \<Rightarrow> Some (mtk_gps_epo_interface_init e s)
      | MeasurementInit \<Rightarrow> mtk_gps_measurement_init e s
      | MeasurementClose \<Rightarrow> mtk_gps_measurement_close e s
      | NavigationInit \<Rightarrow> mtk_gps_navigation_init e s
      | NavigationClose \<Rightarrow> mtk_gps_navigation_close e s
      | SetPositionMode n \<Rightarrow> Some (mtk_gps_set_position_mode n s)
      | DeleteAidingData f \<Rightarrow> mtk_gps_delete_aiding_data e f s
      | InjectTime t ref unc \<Rightarrow> mtk_gps_inject_time e t ref unc s
      | InjectLocation lat lon acc ts \<Rightarrow> mtk_gps_inject_location e lat lon acc ts s
      | NetworkState c t r x \<Rightarrow>
          with_send (agps_ril_update_network_state (ae_send (at_of e s)) c t r x) s)"

section \<open>The GPS thread\<close>

text \<open>One byte of the control socket.\<close>

definition take_command :: "'d senv \<Rightarrow> int \<Rightarrow> 'd sess \<Rightarrow> act list \<times> 'd sess" where
  "take_command e c s =
     (if c = 0 then ([Release M_CLEANUP, ThreadEnd], s)
      else if c = 1
      then ([], if started s = 0
                then s\<lparr>started := 1, rd := nmea_reader_set_callback True (rd s)\<rparr> else s)
      else if c = 10 \<and> gps_at (sg e)
      then ([], if test_started s = 0 \<and> test_mode_flag (atst (rd s)) = 1
                then s\<lparr>test_started := 1, rd := nmea_reader_set_callback True (rd s)\<rparr> else s)
      else if c = 11 \<and> gps_at (sg e)
      then ([], if test_started s \<noteq> 0
                then s\<lparr>test_started := 0, rd := nmea_reader_set_callback False (rd s)\<rparr> else s)
      else if c = 4 then ([Call DownloadRequest], s)
      else if c = 2
      then ([], if started s \<noteq> 0
                then s\<lparr>started := 0, rd := nmea_reader_set_callback False (rd s)\<rparr> else s)
      else if c = 3 then ([], s\<lparr>rd := (rd s)\<lparr>fix_mode := 0\<rparr>\<rparr>)
      else ([], s))"

text \<open>What one \<open>read\<close> of the device delivers; its last character closes the burst.\<close>

definition nmea_burst :: "'d genv \<Rightarrow> string \<Rightarrow> 'd reader \<Rightarrow> 'd reader" where
  "nmea_burst g b r =
     (if b = [] then r
      else nmea_reader_addc (g\<lparr>end_tag := True\<rparr>) (last b)
             (nmea_feed (g\<lparr>end_tag := False\<rparr>) (butlast b) r))"

definition GPS_READ_BUFF :: nat where "GPS_READ_BUFF = 2048"

text \<open>Every reported fix is also written to the location file; its time is in milliseconds.\<close>

definition int_le64 :: "int \<Rightarrow> byte list" where
  "int_le64 n = map (\<lambda>i. word_of_int (n div 256 ^ i)) [0..<8]"

definition fix_location :: "'d senv \<Rightarrow> int \<Rightarrow> 'd gps_fix \<Rightarrow> byte list" where
  "fix_location e st fx =
     (let q = cdiv (fx_time fx) 1000; ns = (fx_time fx - 1000 * q) * 1000 * 1000
      in nlp_context e 1 (dbl_bytes e (fx_lat fx)) (dbl_bytes e (fx_lon fx)) (flt_bytes e (fx_accuracy fx))
           (int_le64 q @ int_le64 ns) st)"

definition last_nlp :: "'d senv \<Rightarrow> int \<Rightarrow> 'd gps_ev list \<Rightarrow> byte list option \<Rightarrow> byte list option" where
  "last_nlp e st evs old =
     fold (\<lambda>ev f. case ev of NlpUpdate fx \<Rightarrow> mtk_gps_update_location e (fix_location e st fx) f | _ \<Rightarrow> f)
       evs old"

text \<open>A report may be skipped: then one \<open>read\<close> is thrown away.\<close>

definition nmea_read :: "'d senv \<Rightarrow> string list \<Rightarrow> 'd sess \<Rightarrow> 'd sess" where
  "nmea_read e reads s =
     (let k = report_count s + 1
      in if interval_above e (min_interval s) k then s\<lparr>report_count := k\<rparr>
         else
           let r = fold (\<lambda>b. nmea_burst (genv_of e s) (take GPS_READ_BUFF b)) reads (rd s)
           in s\<lparr>report_count := 0, rd := r,
                loc_file := last_nlp e (started s) (drop (length (gevents (rd s))) (gevents r)) (loc_file s)\<rparr>)"

text \<open>The first report of a session releases the start.\<close>

definition gps_event :: "string list \<Rightarrow> 'd sess \<Rightarrow> act list" where
  "gps_event reads s =
     (if flag_unlock s = 0 then [Release M_START, SetFlagUnlock 1] else []) @ [NmeaRead reads]"

definition thread_start :: "'d senv \<Rightarrow> 'd sess \<Rightarrow> act list \<times> 'd sess" where
  "thread_start e s =
     (let s1 = s\<lparr>rd := (nmea_reader_init (sg e) (atst (rd s)))\<lparr>gevents := gevents (rd s)\<rparr>,
                 test_started := 0\<rparr>
      in (if codec_ok e then [Release M_INIT] else [ThreadEnd], s1))"

text \<open>
  A connection of the codec: \<open>None\<close> when receiving fails; request 1 is answered by a buffer of 2048
  bytes that has just been cleared, request 2 carries a location.
\<close>

datatype codec_msg = CodecFail | CodecReq int "byte list option"

definition codec_answer :: "codec_msg \<Rightarrow> byte list option" where
  "codec_answer m =
     (case m of CodecFail \<Rightarrow> None
      | CodecReq c _ \<Rightarrow> if c = 1 then Some (replicate 2048 0)
                       else if c = 2 then Some ([99, 109, 100, 50, 95, 97, 99, 107] @ replicate 2 0)
                       else None)"

definition codec_event :: "codec_msg \<Rightarrow> 'd sess \<Rightarrow> act list" where
  "codec_event m s =
     (case m of CodecReq c (Some loc) \<Rightarrow>
        if c = 2 \<and> loc_callback s then [Call (CodecLocation loc)] else []
      | _ \<Rightarrow> [])"

section \<open>Actions\<close>

text \<open>
  What an action does: it cannot go on; it leaves actions to be done first; or the call returns,
  respectively the thread ends.
\<close>

datatype 'd eff = Blocked | Next "act list" "'d sess" | Finish int "'d sess"

definition go :: "'d sess \<Rightarrow> 'd eff" where "go s = Next [] s"

definition send_eff :: "(int \<Rightarrow> 'd sess \<Rightarrow> 'd eff) \<Rightarrow> (int \<times> 'd sess) option \<Rightarrow> 'd eff" where
  "send_eff f m = (case m of None \<Rightarrow> Blocked | Some (r, s) \<Rightarrow> f r s)"

fun exec :: "'d senv \<Rightarrow> act \<Rightarrow> 'd sess \<Rightarrow> 'd eff" where
  "exec e (Call c) s = go (s\<lparr>cbs := cbs s @ [c]\<rparr>)"
| "exec e (SetSta st) s = go (s\<lparr>sta := st\<rparr>)"
| "exec e ReportSta s = go (s\<lparr>cbs := cbs s @ [StatusCb (sta s)]\<rparr>)"
| "exec e (Release l) s = go (release_condition l s)"
| "exec e (Get l) s = (case get_condition l s of None \<Rightarrow> Blocked | Some t \<Rightarrow> go t)"
| "exec e (ClearIfSet l) s = go (if locks s l = 1 then s\<lparr>locks := (locks s)(l := 0)\<rparr> else s)"
| "exec e (SetFlagUnlock n) s = go (s\<lparr>flag_unlock := n\<rparr>)"
| "exec e (SetStartFlag n) s = go (s\<lparr>s_start_flag := n\<rparr>)"
| "exec e (WaitWhileStartFlag n) s = (if s_start_flag s = n then Blocked else go s)"
| "exec e WaitStopIfStarted s = Next (if s_start_flag s \<noteq> 0 then [Get M_STOP] else []) s"
| "exec e CheckInit s = (if s_init s = 0 then Finish (- 1) s else go s)"
| "exec e CheckNotInit s = (if s_init s \<noteq> 0 then Finish 0 s else go s)"
| "exec e CopyCallbacks s = (if cb_given e = CbOther then Finish (- 1) s else go s)"
| "exec e SetInit s = go (s\<lparr>s_init := 1\<rparr>)"
| "exec e StateInit s = (case gps_state_init e s of None \<Rightarrow> Blocked | Some (p, t) \<Rightarrow> Next p t)"
| "exec e InitModes s = go (init_modes e s)"
| "exec e StartDaemon s =
     send_eff (\<lambda>r t. if r \<noteq> 0 then Finish (- 1) t else go t) (with_send (mtk_start (ae_send (at_of e s))) s)"
| "exec e StopDaemon s =
     send_eff (\<lambda>r t. if r \<noteq> 0 then Finish (- 1) t else go t) (with_send (mtk_stop (ae_send (at_of e s))) s)"
| "exec e CleanupDaemon s =
     send_eff (\<lambda>r t. go t) (with_send (mtk_cleanup (ae_send (at_of e s))) s)"
| "exec e EpoAtStart s = go (upd_epo e epo_at_start s)"
| "exec e (SendCommand c) s = go (upd_at (gps_state_cmd (at_of e s) c) s)"
| "exec e DoneIfInit s = Next (if s_init s \<noteq> 0 then gps_state_done else []) s"
| "exec e WriteQuit s =
     go (if control_open s \<and> ae_ctl (at_of e s) (nctl (atst (rd s))) = SOk
         then upd_at (\<lambda>t. t\<lparr>nctl := nctl t + 1, ctl := ctl t @ [0]\<rparr>) s
         else upd_at (\<lambda>t. t\<lparr>nctl := nctl t + 1\<rparr>) s)"
| "exec e CloseState s = go (s\<lparr>control_open := False, nread := length (ctl (atst (rd s))), s_init := 0\<rparr>)"
| "exec e SetEpoExit s = go (s\<lparr>thread_epo_exit_flag := 1\<rparr>)"
| "exec e (GiveBack n) s = Finish n s"
| "exec e ThreadStart s = (case thread_start e s of (p, t) \<Rightarrow> Next p t)"
| "exec e ThreadEnd s = Finish 0 s"
| "exec e (TakeCommand c) s = (case take_command e c s of (p, t) \<Rightarrow> Next p t)"
| "exec e (NmeaRead reads) s = go (nmea_read e reads s)"
| "exec e (AtRead ds) s = go (upd_at (fold (at_receive (at_of e s)) ds) s)"
| "exec e UnlinkEpoHal s = go (s\<lparr>ep := unlink EPO_FILE_HAL (ep s)\<rparr>)"
| "exec e SendLocation s =
     send_eff (\<lambda>r t. go t)
       (with_send (mtk_gps_send_location_to_mnl (ae_send (at_of e s)) 48 41 (word_of_int (started s))
          (send_fd_ok e) (loc_file s)) s)"

declare exec.simps [simp del]

section \<open>Events\<close>

datatype call = CInit | CStart | CStop | CCleanup | CDirect dcall

datatype ev =
    FwCall call
  | FwStep
  | HalStep
  | HalControl
  | HalGps "string list"
  | HalAt "string list"
  | HalMnld "nat \<Rightarrow> read_res"
  | HalCodec codec_msg
  | HalError
  | EpoRound
  | RetryTimeout

fun program :: "call \<Rightarrow> act list" where
  "program CInit = mtk_gps_init"
| "program CStart = mtk_gps_start"
| "program CStop = mtk_gps_stop"
| "program CCleanup = mtk_gps_cleanup"
| "program (CDirect c) = []"

definition hal_idle :: "'d sess \<Rightarrow> bool" where
  "hal_idle s = (hal s = Running [])"

definition hal_takes :: "act list \<Rightarrow> 'd sess \<Rightarrow> 'd sess" where
  "hal_takes p s = (if hal_idle s then s\<lparr>hal := Running p\<rparr> else s)"

text \<open>One message of the daemon: it is read, and handled; a reading that never ends stops the thread.\<close>

definition mnld_event :: "'d senv \<Rightarrow> (nat \<Rightarrow> read_res) \<Rightarrow> 'd sess \<Rightarrow> 'd sess" where
  "mnld_event e r s =
     (case safe_read r 0 HANDLER_BUFF (hal_errno s) 0 of
        None \<Rightarrow> s\<lparr>hal := Stuck\<rparr>
      | Some (_, er, _, bs) \<Rightarrow>
          (case mnld_to_gps_handler (se_ni e) bs s of
             None \<Rightarrow> s\<lparr>crashed := True\<rparr>
           | Some p \<Rightarrow> s\<lparr>hal_errno := er, hal := Running p\<rparr>))"

text \<open>A round of \<open>thread_epo_file_update\<close>, which ends the thread once its exit is asked for.\<close>

definition epo_event :: "'d senv \<Rightarrow> 'd sess \<Rightarrow> 'd sess" where
  "epo_event e s =
     (if epo_threads s = 0 then s
      else if thread_epo_exit_flag s = 1
      then release_condition M_THREAD_EXIT (s\<lparr>epo_threads := epo_threads s - 1\<rparr>)
      else upd_epo e (\<lambda>en p. snd (epo_round en p)) s)"

definition fw_step :: "'d senv \<Rightarrow> 'd sess \<Rightarrow> 'd sess" where
  "fw_step e s =
     (case fw s of [] \<Rightarrow> s
      | a # p \<Rightarrow>
          (case exec e a s of
             Blocked \<Rightarrow> s
           | Next q t \<Rightarrow> t\<lparr>fw := q @ p\<rparr>
           | Finish n t \<Rightarrow> t\<lparr>fw := [], fw_ret := Some n\<rparr>))"

definition hal_step :: "'d senv \<Rightarrow> 'd sess \<Rightarrow> 'd sess" where
  "hal_step e s =
     (case hal s of
        Running (a # p) \<Rightarrow>
          (case exec e a s of
             Blocked \<Rightarrow> s
           | Next q t \<Rightarrow> t\<lparr>hal := Running (q @ p)\<rparr>
           | Finish n t \<Rightarrow> t\<lparr>hal := Exited\<rparr>)
      | _ \<Rightarrow> s)"

definition fw_call :: "'d senv \<Rightarrow> call \<Rightarrow> 'd sess \<Rightarrow> 'd sess" where
  "fw_call e c s =
     (if fw s \<noteq> [] then s
      else case c of
        CDirect d \<Rightarrow> (case direct e d s of None \<Rightarrow> s | Some (r, t) \<Rightarrow> t\<lparr>fw_ret := Some r\<rparr>)
      | _ \<Rightarrow> s\<lparr>fw := program c, fw_ret := None\<rparr>)"

fun sess_step :: "'d senv \<Rightarrow> ev \<Rightarrow> 'd sess \<Rightarrow> 'd sess" where
  "sess_step e (FwCall c) s = (if crashed s then s else fw_call e c s)"
| "sess_step e FwStep s = (if crashed s then s else fw_step e s)"
| "sess_step e HalStep s = (if crashed s then s else hal_step e s)"
| "sess_step e HalControl s =
     (if crashed s \<or> \<not> hal_idle s \<or> length (ctl (atst (rd s))) \<le> nread s then s
      else hal_takes [TakeCommand (ctl (atst (rd s)) ! nread s)] (s\<lparr>nread := nread s + 1\<rparr>))"
| "sess_step e (HalGps reads) s = (if crashed s then s else hal_takes (gps_event reads s) s)"
| "sess_step e (HalAt ds) s =
     (if crashed s \<or> \<not> gps_at (sg e) then s else hal_takes [AtRead ds] s)"
| "sess_step e (HalMnld r) s = (if crashed s \<or> \<not> hal_idle s then s else mnld_event e r s)"
| "sess_step e (HalCodec m) s = (if crashed s then s else hal_takes (codec_event m s) s)"
| "sess_step e HalError s = (if crashed s then s else hal_takes [Release M_CLEANUP, ThreadEnd] s)"
| "sess_step e EpoRound s = (if crashed s then s else epo_event e s)"
| "sess_step e RetryTimeout s = (if crashed s then s else s\<lparr>ep := retry_alarm_handler (ep s)\<rparr>)"

definition sess_run :: "'d senv \<Rightarrow> ev list \<Rightarrow> 'd sess \<Rightarrow> 'd sess" where
  "sess_run e evs s = fold (sess_step e) evs s"

definition sess0 :: "'d reader \<Rightarrow> epo_st \<Rightarrow> 'd sess" where
  "sess0 r p =
     \<lparr>s_init = 0, s_start_flag = 0, flag_unlock = 0, sta = STATUS_NONE, locks = (\<lambda>_. 0),
      started = 0, test_started = 0, rd = r, ep = p, gpsmeasurement_init_flag = 0,
      gpsnavigation_init_flag = 0, agps_callbacks = False, gps_ni_callbacks = False,
      agps_ril_callbacks = False, loc_callback = True, utc_callback = True, control_open = False,
      nread = 0, mode = - 1, gnss_mode = 2, min_interval = 0, report_count = 0, hal_errno = 0,
      thread_epo_exit_flag = 0, epo_threads = 0, loc_file = None, cbs = [], hal = NotCreated,
      fw = [], fw_ret = None, crashed = False\<rparr>"

text \<open>The states of a process that loads the library; the reader has its memory, not its contents.\<close>

inductive reach :: "'d senv \<Rightarrow> 'd sess \<Rightarrow> bool" for e where
  sess_first: "reach e (sess0 (nmea_reader_init (sg e) (at_init agps0)) epo_st0)"
| sess_next: "reach e s \<Longrightarrow> reach e (sess_step e v s)"

section \<open>What the operations leave alone\<close>

lemma upd_at_simps [simp]:
  "fw (upd_at f s) = fw s" "hal (upd_at f s) = hal s" "s_start_flag (upd_at f s) = s_start_flag s"
  "crashed (upd_at f s) = crashed s" "locks (upd_at f s) = locks s" "cbs (upd_at f s) = cbs s"
  "sta (upd_at f s) = sta s" "s_init (upd_at f s) = s_init s" "started (upd_at f s) = started s"
  "flag_unlock (upd_at f s) = flag_unlock s" "ep (upd_at f s) = ep s"
  "test_started (upd_at f s) = test_started s" "thread_epo_exit_flag (upd_at f s) = thread_epo_exit_flag s"
  "rd (upd_at f s) = (rd s)\<lparr>atst := f (atst (rd s))\<rparr>" "fw_ret (upd_at f s) = fw_ret s"
  "gpsmeasurement_init_flag (upd_at f s) = gpsmeasurement_init_flag s"
  "gpsnavigation_init_flag (upd_at f s) = gpsnavigation_init_flag s"
  "nread (upd_at f s) = nread s" "control_open (upd_at f s) = control_open s"
  by (simp_all add: upd_at_def)

text \<open>The control state: everything that decides what the threads do next to each other.\<close>

record cst =
  c_fw :: "act list"
  c_hal :: thread
  c_flag :: int
  c_crashed :: bool
  c_locks :: "lock \<Rightarrow> int"
  c_cbs :: "cb list"
  c_sta :: gps_status
  c_init :: int
  c_unlock :: int

definition ctrl :: "'d sess \<Rightarrow> cst" where
  "ctrl s = \<lparr>c_fw = fw s, c_hal = hal s, c_flag = s_start_flag s, c_crashed = crashed s,
             c_locks = locks s, c_cbs = cbs s, c_sta = sta s, c_init = s_init s,
             c_unlock = flag_unlock s\<rparr>"

lemma ctrl_sel [simp]:
  "c_fw (ctrl s) = fw s" "c_hal (ctrl s) = hal s" "c_flag (ctrl s) = s_start_flag s"
  "c_crashed (ctrl s) = crashed s" "c_locks (ctrl s) = locks s" "c_cbs (ctrl s) = cbs s"
  "c_sta (ctrl s) = sta s" "c_init (ctrl s) = s_init s" "c_unlock (ctrl s) = flag_unlock s"
  by (simp_all add: ctrl_def)

lemma ctrl_fields [simp]:
  "ctrl (s\<lparr>started := x1\<rparr>) = ctrl s"
  "ctrl (s\<lparr>test_started := x2\<rparr>) = ctrl s" "ctrl (s\<lparr>rd := x3\<rparr>) = ctrl s"
  "ctrl (s\<lparr>ep := x4\<rparr>) = ctrl s" "ctrl (s\<lparr>gpsmeasurement_init_flag := x5\<rparr>) = ctrl s"
  "ctrl (s\<lparr>gpsnavigation_init_flag := x6\<rparr>) = ctrl s" "ctrl (s\<lparr>agps_callbacks := x7\<rparr>) = ctrl s"
  "ctrl (s\<lparr>gps_ni_callbacks := x8\<rparr>) = ctrl s" "ctrl (s\<lparr>agps_ril_callbacks := x9\<rparr>) = ctrl s"
  "ctrl (s\<lparr>control_open := x10\<rparr>) = ctrl s" "ctrl (s\<lparr>nread := x11\<rparr>) = ctrl s"
  "ctrl (s\<lparr>mode := x12\<rparr>) = ctrl s" "ctrl (s\<lparr>gnss_mode := x13\<rparr>) = ctrl s"
  "ctrl (s\<lparr>min_interval := x14\<rparr>) = ctrl s" "ctrl (s\<lparr>report_count := x15\<rparr>) = ctrl s"
  "ctrl (s\<lparr>hal_errno := x16\<rparr>) = ctrl s" "ctrl (s\<lparr>thread_epo_exit_flag := x17\<rparr>) = ctrl s"
  "ctrl (s\<lparr>epo_threads := x18\<rparr>) = ctrl s" "ctrl (s\<lparr>loc_file := x19\<rparr>) = ctrl s"
  "ctrl (s\<lparr>fw_ret := x20\<rparr>) = ctrl s"
  by (simp_all add: ctrl_def)

lemma ctrl_upd_at [simp]: "ctrl (upd_at f s) = ctrl s"
  by (simp add: ctrl_def)

lemma ctrl_set_agps [simp]: "ctrl (set_agps a s) = ctrl s"
  by (simp add: set_agps_def)

lemma ctrl_upd_epo [simp]: "ctrl (upd_epo e f s) = ctrl s"
  by (simp add: upd_epo_def Let_def)

lemma ctrl_with_send: "with_send f s = Some (r, t) \<Longrightarrow> ctrl t = ctrl s"
  by (auto simp: with_send_def split: outcome.splits)

lemma ctrl_direct: "direct e c s = Some (r, t) \<Longrightarrow> ctrl t = ctrl s"
  by (cases c)
    (auto simp: direct_def mtk_gps_measurement_init_def mtk_gps_measurement_close_def
      mtk_gps_navigation_init_def mtk_gps_navigation_close_def mtk_gps_epo_interface_init_def
      mtk_gps_set_position_mode_def mtk_gps_delete_aiding_data_def mtk_gps_inject_time_def
      mtk_gps_inject_location_def agps_init_def gps_ni_init_def agps_ril_init_def Let_def
      dest!: ctrl_with_send split: if_splits option.splits)

lemma ctrl_eqD:
  "ctrl t = ctrl s \<Longrightarrow> fw t = fw s" "ctrl t = ctrl s \<Longrightarrow> hal t = hal s"
  "ctrl t = ctrl s \<Longrightarrow> s_start_flag t = s_start_flag s" "ctrl t = ctrl s \<Longrightarrow> crashed t = crashed s"
  "ctrl t = ctrl s \<Longrightarrow> locks t = locks s" "ctrl t = ctrl s \<Longrightarrow> cbs t = cbs s"
  "ctrl t = ctrl s \<Longrightarrow> sta t = sta s" "ctrl t = ctrl s \<Longrightarrow> s_init t = s_init s"
  "ctrl t = ctrl s \<Longrightarrow> flag_unlock t = flag_unlock s"
  by (simp_all add: ctrl_def)

text \<open>The actions that touch the control state, each by itself; all others leave it alone.\<close>

fun ctrl_act :: "act \<Rightarrow> bool" where
  "ctrl_act (Call c) = True"
| "ctrl_act (SetSta st) = True"
| "ctrl_act ReportSta = True"
| "ctrl_act (Release l) = True"
| "ctrl_act (Get l) = True"
| "ctrl_act (ClearIfSet l) = True"
| "ctrl_act (SetStartFlag n) = True"
| "ctrl_act (SetFlagUnlock n) = True"
| "ctrl_act SetInit = True"
| "ctrl_act StateInit = True"
| "ctrl_act CloseState = True"
| "ctrl_act _ = False"

lemma ctrl_init_modes [simp]: "ctrl (init_modes e s) = ctrl s"
  by (simp add: init_modes_def split: prod.splits)

lemma ctrl_nmea_read [simp]: "ctrl (nmea_read e reads s) = ctrl s"
  by (simp add: nmea_read_def Let_def)

lemma ctrl_take_command: "take_command e c s = (p, t) \<Longrightarrow> ctrl t = ctrl s"
  by (auto simp: take_command_def split: if_splits)

lemma ctrl_thread_start: "thread_start e s = (p, t) \<Longrightarrow> ctrl t = ctrl s"
  by (auto simp: thread_start_def Let_def)

lemma send_effE:
  assumes "send_eff f m = x" "x \<noteq> Blocked"
  obtains r s where "m = Some (r, s)" "x = f r s"
  using assms by (auto simp: send_eff_def split: option.splits)

lemma exec_quiet:
  assumes "\<not> ctrl_act a" "exec e a s = Next q t \<or> exec e a s = Finish n t"
  shows "ctrl t = ctrl s"
  using assms
  by (cases a)
    (auto simp: exec.simps go_def send_eff_def dest!: ctrl_with_send ctrl_take_command ctrl_thread_start
      split: if_splits option.splits prod.splits)

lemma exec_ctrl:
  assumes "ctrl_act a" "exec e a s = Next q t"
  shows "fw t = fw s" "crashed t = crashed s"
    "a \<noteq> StateInit \<Longrightarrow> hal t = hal s \<and> q = []"
    "(\<forall>n. a \<noteq> SetStartFlag n) \<Longrightarrow> s_start_flag t = s_start_flag s"
    "(\<forall>c. a \<noteq> Call c) \<Longrightarrow> a \<noteq> ReportSta \<Longrightarrow> cbs t = cbs s"
    "(\<forall>x. a \<noteq> SetSta x) \<Longrightarrow> sta t = sta s"
    "a \<noteq> SetInit \<Longrightarrow> a \<noteq> CloseState \<Longrightarrow> s_init t = s_init s"
  using assms
  by (cases a;
      auto simp: exec.simps go_def gps_state_init_def Let_def release_condition_def get_condition_def set_agps_def
      split: if_splits option.splits outcome.splits)+

lemma exec_ctrl_finish: "ctrl_act a \<Longrightarrow> exec e a s \<noteq> Finish n t"
  by (cases a) (auto simp: exec.simps go_def split: option.splits prod.splits)

section \<open>The types of the state\<close>

definition flag :: "int \<Rightarrow> bool" where "flag n = (n = 0 \<or> n = 1)"

lemma flag_01 [simp]: "flag 0" "flag 1"
  by (simp_all add: flag_def)

fun typed_act :: "act \<Rightarrow> bool" where
  "typed_act (SetFlagUnlock n) = flag n"
| "typed_act (SetStartFlag n) = flag n"
| "typed_act _ = True"

definition fields_typed :: "'d senv \<Rightarrow> 'd sess \<Rightarrow> bool" where
  "fields_typed e s =
     (flag (s_init s) \<and> flag (s_start_flag s) \<and> flag (flag_unlock s) \<and> flag (started s)
      \<and> flag (test_started s) \<and> flag (gpsmeasurement_init_flag s) \<and> flag (gpsnavigation_init_flag s)
      \<and> flag (thread_epo_exit_flag s) \<and> (\<forall>l. flag (locks s l))
      \<and> epo_wf (ep s) \<and> reader_wf (sg e) (rd s))"

definition thread_acts :: "thread \<Rightarrow> act list" where
  "thread_acts t = (case t of Running p \<Rightarrow> p | _ \<Rightarrow> [])"

definition sess_typed :: "'d senv \<Rightarrow> 'd sess \<Rightarrow> bool" where
  "sess_typed e s =
     (fields_typed e s \<and> list_all typed_act (fw s) \<and> list_all typed_act (thread_acts (hal s)))"

lemma reader_wf_genv:
  "GPS_MAX_SVS g' = GPS_MAX_SVS g \<Longrightarrow> GNSS_MAX_SVS g' = GNSS_MAX_SVS g \<Longrightarrow> reader_wf g' = reader_wf g"
  by (rule ext) (simp add: reader_wf_def tables_wf_def)

lemma reader_wf_parts [simp]:
  "reader_wf g (r\<lparr>atst := a\<rparr>) = reader_wf g r"
  "reader_wf g (r\<lparr>fix_mode := n\<rparr>) = reader_wf g r"
  "reader_wf g (r\<lparr>gevents := ev\<rparr>) = reader_wf g r"
  by (simp_all add: reader_wf_def tables_wf_def)

lemma reader_wf_callback: "reader_wf g r \<Longrightarrow> reader_wf g (nmea_reader_set_callback b r)"
  by (auto simp: nmea_reader_set_callback_def reader_wf_def tables_wf_def)

lemma reader_wf_burst:
  assumes "GPS_MAX_SVS g' = GPS_MAX_SVS g" "GNSS_MAX_SVS g' = GNSS_MAX_SVS g" "reader_wf g r"
  shows "reader_wf g (nmea_burst g' b r)"
proof (cases "b = []")
  case False
  let ?g1 = "g'\<lparr>end_tag := False\<rparr>" and ?g2 = "g'\<lparr>end_tag := True\<rparr>"
  have g1: "reader_wf ?g1 = reader_wf g" by (rule reader_wf_genv) (simp_all add: assms)
  have g2: "reader_wf ?g2 = reader_wf g" by (rule reader_wf_genv) (simp_all add: assms)
  have "reader_wf g (nmea_feed ?g1 (butlast b) r)"
    using reader_wf_feed[of ?g1 r "butlast b"] assms(3) unfolding g1 .
  then have "reader_wf g (nmea_reader_addc ?g2 (last b) (nmea_feed ?g1 (butlast b) r))"
    using reader_wf_addc[of ?g2 "nmea_feed ?g1 (butlast b) r" "last b"] unfolding g2 by blast
  then show ?thesis using False by (simp add: nmea_burst_def)
qed (simp add: nmea_burst_def assms)

lemma reader_wf_read: "reader_wf (sg e) (rd s) \<Longrightarrow> reader_wf (sg e) (rd (nmea_read e reads s))"
proof -
  have "reader_wf (sg e) r \<Longrightarrow>
    reader_wf (sg e) (fold (\<lambda>b. nmea_burst (genv_of e s) (take GPS_READ_BUFF b)) reads r)" for r
    by (induction reads arbitrary: r) (simp_all add: reader_wf_burst genv_of_def)
  moreover assume "reader_wf (sg e) (rd s)"
  ultimately show ?thesis by (simp add: nmea_read_def Let_def)
qed

lemma epo_wf_shared [simp]: "epo_wf (p\<lparr>eagps := a, estarted := n\<rparr>) = epo_wf p"
  by (simp add: epo_wf_def)

lemma epo_wf_type [simp]: "epo_wf (p\<lparr>gps_epo_type := n\<rparr>) = epo_wf p"
  by (simp add: epo_wf_def)

lemma epo_wf_cfg [simp]: "epo_wf (p\<lparr>ecfg := c\<rparr>) = epo_wf p"
  by (simp add: epo_wf_def)

lemma epo_wf_at_start: "epo_wf p \<Longrightarrow> epo_wf (epo_at_start e p)"
  using wf_expired[of "p\<lparr>ecfg := snd (gps_download_epo_enable (ee_conf e) (ecfg p))\<rparr>" e False]
  by (auto simp: epo_at_start_def Let_def split: prod.splits
      intro!: wf_request wf_send ctl_same_wf[OF ctl_unlink])

lemma epo_wf_round: "epo_wf p \<Longrightarrow> epo_wf (snd (epo_round e p))"
  using wf_step[of p "Round e"] by simp

lemma typed_upd_at [simp]: "fields_typed e (upd_at f s) = fields_typed e s"
  by (simp add: fields_typed_def)

lemma typed_set_agps [simp]: "fields_typed e (set_agps a s) = fields_typed e s"
  by (simp add: set_agps_def)

lemma typed_with_send: "with_send f s = Some (r, t) \<Longrightarrow> fields_typed e t = fields_typed e s"
  by (auto simp: with_send_def split: outcome.splits)

lemma typed_upd_epo:
  assumes "fields_typed e s" "\<And>en p. epo_wf p \<Longrightarrow> epo_wf (f en p)"
  shows "fields_typed e (upd_epo e' f s)"
  using assms by (simp add: upd_epo_def Let_def) (simp add: fields_typed_def)

lemma typed_direct:
  assumes "fields_typed e s" "direct e' c s = Some (r, t)"
  shows "fields_typed e t"
proof -
  have upd: "fields_typed e x \<Longrightarrow> fields_typed e (x\<lparr>gpsmeasurement_init_flag := 0\<rparr>)"
    "fields_typed e x \<Longrightarrow> fields_typed e (x\<lparr>gpsmeasurement_init_flag := 1\<rparr>)"
    "fields_typed e x \<Longrightarrow> fields_typed e (x\<lparr>gpsnavigation_init_flag := 0\<rparr>)"
    "fields_typed e x \<Longrightarrow> fields_typed e (x\<lparr>gpsnavigation_init_flag := 1\<rparr>)"
    "fields_typed e x \<Longrightarrow> fields_typed e (x\<lparr>agps_callbacks := True\<rparr>)"
    "fields_typed e x \<Longrightarrow> fields_typed e (x\<lparr>gps_ni_callbacks := True\<rparr>)"
    "fields_typed e x \<Longrightarrow> fields_typed e (x\<lparr>agps_ril_callbacks := True\<rparr>)"
    "fields_typed e x \<Longrightarrow> fields_typed e (x\<lparr>epo_threads := k, thread_epo_exit_flag := 0\<rparr>)"
    "fields_typed e (x\<lparr>min_interval := n\<rparr>) = fields_typed e x"
    "fields_typed e (x\<lparr>loc_file := y\<rparr>) = fields_typed e x" for x k n y
    by (simp_all add: fields_typed_def)
  show ?thesis
    using assms(2)
    by (cases c)
      (use assms(1) in \<open>auto simp: direct_def mtk_gps_measurement_init_def mtk_gps_measurement_close_def
        mtk_gps_navigation_init_def mtk_gps_navigation_close_def mtk_gps_epo_interface_init_def
        mtk_gps_set_position_mode_def mtk_gps_delete_aiding_data_def mtk_gps_inject_time_def
        mtk_gps_inject_location_def agps_init_def gps_ni_init_def agps_ril_init_def Let_def upd
        dest!: typed_with_send[where e = e] split: if_splits option.splits\<close>)
qed

lemma typed_exec:
  assumes "0 \<le> GPS_MAX_SVS (sg e)" "0 \<le> GNSS_MAX_SVS (sg e)" "fields_typed e s" "typed_act a"
    "exec e a s = Next q t"
  shows "fields_typed e t \<and> list_all typed_act q"
proof (cases a)
  case (NmeaRead reads)
  have "fields_typed e (nmea_read e reads s)"
    using assms(3) reader_wf_read[of e s reads] by (simp add: fields_typed_def) (simp add: nmea_read_def Let_def)
  then show ?thesis using assms NmeaRead by (auto simp: exec.simps go_def)
next
  case (TakeCommand c)
  then show ?thesis
    using assms by (auto simp: exec.simps take_command_def fields_typed_def reader_wf_callback split: if_splits)
next
  case ThreadStart
  then show ?thesis
    using assms by (auto simp: exec.simps thread_start_def fields_typed_def Let_def reader_wf_init)
next
  case EpoAtStart
  then show ?thesis
    using assms by (auto simp: exec.simps go_def intro: typed_upd_epo epo_wf_at_start)
next
  case UnlinkEpoHal
  have "epo_wf (ep s) \<Longrightarrow> epo_wf (unlink EPO_FILE_HAL (ep s))" by (rule ctl_same_wf[OF ctl_unlink])
  then show ?thesis using UnlinkEpoHal assms by (auto simp: exec.simps go_def fields_typed_def)
next
  case InitModes
  then show ?thesis
    using assms by (auto simp: exec.simps go_def init_modes_def fields_typed_def split: prod.splits)
next
  case StateInit
  have f: "fields_typed e x \<Longrightarrow> fields_typed e (x\<lparr>control_open := b\<rparr>)"
    "fields_typed e x \<Longrightarrow> fields_typed e (x\<lparr>control_open := b, nread := k\<rparr>)"
    "fields_typed e x \<Longrightarrow> fields_typed e (x\<lparr>control_open := b, nread := k, hal := h\<rparr>)" for x b k h
    by (simp_all add: fields_typed_def)
  show ?thesis
    using StateInit assms
    by (auto simp: exec.simps gps_state_init_def gps_state_done_def Let_def f
        split: if_splits option.splits outcome.splits)
next
  case DoneIfInit
  then show ?thesis using assms by (auto simp: exec.simps gps_state_done_def)
qed (use assms in \<open>auto simp: exec.simps go_def send_eff_def release_condition_def get_condition_def
      fields_typed_def[of e "_\<lparr>cbs := _\<rparr>"] fields_typed_def dest: typed_with_send[where e = e]
      split: if_splits option.splits\<close>)

lemma finish_quiet: "exec e a s = Finish n t \<Longrightarrow> ctrl t = ctrl s"
  using exec_ctrl_finish exec_quiet by blast

lemma typed_finish:
  assumes "fields_typed e s" "exec e a s = Finish n t"
  shows "fields_typed e t"
  using assms
  by (cases a)
    (auto simp: exec.simps go_def send_eff_def dest: typed_with_send[where e = e]
      split: if_splits option.splits prod.splits)

lemma exec_threads:
  assumes "exec e a s = Next q t"
  shows "fw t = fw s" "crashed t = crashed s" "hal t = hal s \<or> hal t = Running [ThreadStart]"
proof -
  have "fw t = fw s \<and> crashed t = crashed s \<and> (hal t = hal s \<or> hal t = Running [ThreadStart])"
  proof (cases "ctrl_act a")
    case True
    then show ?thesis
    proof (cases "a = StateInit")
      case True
      then show ?thesis
        using exec_ctrl(1,2)[OF \<open>ctrl_act a\<close> assms] assms
        by (auto simp: exec.simps gps_state_init_def Let_def set_agps_def
            split: if_splits option.splits outcome.splits)
    qed (use exec_ctrl[OF True assms] in simp)
  next
    case False
    then show ?thesis using exec_quiet[OF False] assms ctrl_eqD by metis
  qed
  then show "fw t = fw s" "crashed t = crashed s" "hal t = hal s \<or> hal t = Running [ThreadStart]"
    by auto
qed

lemma typed_programs [simp]:
  "list_all typed_act mtk_gps_init" "list_all typed_act mtk_gps_start"
  "list_all typed_act mtk_gps_stop" "list_all typed_act mtk_gps_cleanup"
  by (simp_all add: mtk_gps_init_def mtk_gps_start_def mtk_gps_stop_def mtk_gps_cleanup_def)

lemma typed_die [simp]: "list_all typed_act die_acts"
  by (simp add: die_acts_def)

lemma typed_icon [simp]: "list_all typed_act (icon_acts a b)"
  by (simp add: icon_acts_def)

text \<open>What the handler hands to the thread.\<close>

lemma through_Some: "through b c = Some p \<Longrightarrow> p = [Call c]"
  by (auto simp: through_def split: if_splits)

lemma handler_shape:
  assumes "mnld_to_gps_handler e bs s = Some p"
  shows "p = die_acts \<or> (\<exists>st. p = icon_acts (started s) st) \<or> (\<exists>c. p = [Call c])
    \<or> p \<in> {[], [UnlinkEpoHal], [SendLocation]}"
  using assms
  by (auto simp: mnld_to_gps_handler_def Let_def bind_eq_Some_conv dest!: through_Some
      split: option.splits prod.splits if_splits)

lemma typed_handler: "mnld_to_gps_handler e bs s = Some p \<Longrightarrow> list_all typed_act p"
  by (drule handler_shape) auto

lemma typed_gps_event [simp]: "list_all typed_act (gps_event reads s)"
  by (simp add: gps_event_def)

lemma typed_codec_event [simp]: "list_all typed_act (codec_event m s)"
  by (simp add: codec_event_def split: codec_msg.splits option.splits)

lemma typed_parts [simp]:
  "fields_typed e (s\<lparr>fw := p\<rparr>) = fields_typed e s"
  "fields_typed e (s\<lparr>fw := p, fw_ret := r\<rparr>) = fields_typed e s"
  "fields_typed e (s\<lparr>fw_ret := r\<rparr>) = fields_typed e s"
  "fields_typed e (s\<lparr>hal := h\<rparr>) = fields_typed e s"
  "fields_typed e (s\<lparr>nread := k\<rparr>) = fields_typed e s"
  "fields_typed e (s\<lparr>crashed := b\<rparr>) = fields_typed e s"
  "fields_typed e (s\<lparr>hal_errno := z\<rparr>) = fields_typed e s"
  "fields_typed e (s\<lparr>hal_errno := z, hal := h\<rparr>) = fields_typed e s"
  "fields_typed e (s\<lparr>epo_threads := k\<rparr>) = fields_typed e s"
  by (simp_all add: fields_typed_def)

lemma typed_takes: "sess_typed e s \<Longrightarrow> list_all typed_act p \<Longrightarrow> sess_typed e (hal_takes p s)"
  by (simp add: hal_takes_def sess_typed_def thread_acts_def)

lemma typed_fw_step:
  assumes "0 \<le> GPS_MAX_SVS (sg e)" "0 \<le> GNSS_MAX_SVS (sg e)" "sess_typed e s"
  shows "sess_typed e (fw_step e s)"
proof (cases "fw s")
  case (Cons a p)
  have a: "fields_typed e s" "typed_act a" "list_all typed_act p" "list_all typed_act (thread_acts (hal s))"
    using assms(3) Cons by (simp_all add: sess_typed_def)
  show ?thesis
  proof (cases "exec e a s")
    case (Next q t)
    then show ?thesis
      using typed_exec[OF assms(1,2) a(1,2) Next] exec_threads[OF Next] a Cons
      by (auto simp: fw_step_def sess_typed_def thread_acts_def)
  next
    case (Finish n t)
    then show ?thesis
      using typed_finish[OF a(1) Finish] ctrl_eqD(2)[OF finish_quiet[OF Finish]] a Cons
      by (simp add: fw_step_def sess_typed_def)
  qed (use assms Cons in \<open>simp add: fw_step_def\<close>)
qed (use assms in \<open>simp add: fw_step_def\<close>)

lemma typed_hal_step:
  assumes "0 \<le> GPS_MAX_SVS (sg e)" "0 \<le> GNSS_MAX_SVS (sg e)" "sess_typed e s"
  shows "sess_typed e (hal_step e s)"
proof (cases "\<exists>a p. hal s = Running (a # p)")
  case True
  then obtain a p where h: "hal s = Running (a # p)" by blast
  have a: "fields_typed e s" "typed_act a" "list_all typed_act p" "list_all typed_act (fw s)"
    using assms(3) h by (simp_all add: sess_typed_def thread_acts_def)
  show ?thesis
  proof (cases "exec e a s")
    case (Next q t)
    then show ?thesis
      using typed_exec[OF assms(1,2) a(1,2) Next] exec_threads[OF Next] a h
      by (simp add: hal_step_def sess_typed_def thread_acts_def)
  next
    case (Finish n t)
    then show ?thesis
      using typed_finish[OF a(1) Finish] ctrl_eqD(1)[OF finish_quiet[OF Finish]] a h
      by (simp add: hal_step_def sess_typed_def thread_acts_def)
  qed (use assms h in \<open>simp add: hal_step_def\<close>)
qed (use assms in \<open>auto simp: hal_step_def split: thread.splits list.splits\<close>)

lemma typed_fw_call: "sess_typed e s \<Longrightarrow> sess_typed e (fw_call e' c s)"
  using ctrl_direct[of e' _ s] typed_direct[of e s e']
  by (auto simp: fw_call_def sess_typed_def ctrl_def split: call.splits option.splits)

lemma typed_mnld: "sess_typed e s \<Longrightarrow> sess_typed e (mnld_event e' r s)"
  by (auto simp: mnld_event_def sess_typed_def thread_acts_def dest: typed_handler
      split: option.splits prod.splits)

lemma typed_epo:
  assumes "sess_typed e s"
  shows "sess_typed e (epo_event e' s)"
proof -
  let ?t = "upd_epo e' (\<lambda>en p. snd (epo_round en p)) s"
  have "fields_typed e ?t" using assms by (intro typed_upd_epo epo_wf_round) (simp_all add: sess_typed_def)
  moreover have "fw ?t = fw s" "hal ?t = hal s" using ctrl_eqD[OF ctrl_upd_epo] by auto
  ultimately show ?thesis
    using assms by (auto simp: epo_event_def sess_typed_def release_condition_def fields_typed_def)
qed

lemma typed_step:
  assumes "0 \<le> GPS_MAX_SVS (sg e)" "0 \<le> GNSS_MAX_SVS (sg e)" "sess_typed e s"
  shows "sess_typed e (sess_step e v s)"
proof (cases v)
  case RetryTimeout
  have "epo_wf p \<Longrightarrow> epo_wf (retry_alarm_handler p)" for p
    by (simp add: epo_wf_def retry_alarm_handler_def)
  then show ?thesis using assms RetryTimeout by (simp add: sess_typed_def fields_typed_def)
next
  case HalControl
  have "sess_typed e (s\<lparr>nread := nread s + 1\<rparr>)" using assms(3) by (simp add: sess_typed_def)
  then show ?thesis using assms HalControl by (simp add: typed_takes)
qed (use assms in \<open>simp_all add: typed_fw_call typed_fw_step typed_hal_step typed_takes typed_mnld typed_epo\<close>)

text \<open>
  C13: In every state of the library, whatever the framework calls and whatever the daemon, the
  device, the network and the timers do: every flag and every lock condition is 0 or 1, the reader's
  tables and line buffer have their sizes, the download is in its range, and no thread is about to
  store anything else.
\<close>

theorem sess_stays_typed:
  assumes "reach e s" "0 \<le> GPS_MAX_SVS (sg e)" "0 \<le> GNSS_MAX_SVS (sg e)"
  shows "sess_typed e s"
  using assms(1)
proof (induction rule: reach.induct)
  case sess_first
  have "epo_wf epo_st0" by (simp add: epo_wf_def epo_st0_def)
  then show ?case
    using reader_wf_init[OF assms(2,3)] by (simp add: sess_typed_def fields_typed_def sess0_def thread_acts_def)
next
  case (sess_next s v)
  then show ?case using typed_step[OF assms(2,3)] by blast
qed

definition ni_env0 :: ni_env where
  "ni_env0 = \<lparr>NI_SHORT = 256, NI_LONG = 2048, ENC_SUPL_UCS2 = 2, stack_junk = replicate 1024 0\<rparr>"

definition del_env0 :: del_env where
  "del_env0 = \<lparr>DEL_EPHEMERIS = 0x1, DEL_ALMANAC = 0x2, DEL_POSITION = 0x4, DEL_TIME = 0x8,
     DEL_IONO = 0x10, DEL_UTC = 0x20, DEL_HEALTH = 0x40, DEL_RTI = 0x400, DEL_ALL = 0xFFFF\<rparr>"

definition senv0 :: "int senv" where
  "senv0 = \<lparr>sg = genv0, se_epo = epo_env0, se_ni = ni_env0, se_del = del_env0, dev_opens = True,
     pair_ok = True, at_sock_ok = True, thread_ok = True, codec_ok = True, epo_thread_ok = True,
     cb_given = CbMtk, send_fd_ok = True, clock_ok = True, dbl_bytes = int_le64,
     flt_bytes = (\<lambda>n. take 4 (int_le64 n)), loc_opens = True,
     force_mode = [], chip_prop = (\<lambda>_. ''0x6755''), mnl_props = [None, None],
     interval_above = (\<lambda>n k. 1000 * k < n)\<rparr>"

theorem sess_stays_typed_witness:
  "sess_typed senv0
     (sess_step senv0 (FwCall CStart) (sess0 (nmea_reader_init genv0 (at_init agps0)) epo_st0))"
proof (rule sess_stays_typed)
  have g: "sg senv0 = genv0" by (simp add: senv0_def)
  show "reach senv0 (sess_step senv0 (FwCall CStart)
      (sess0 (nmea_reader_init genv0 (at_init agps0)) epo_st0))"
    by (rule sess_next, rule sess_first[of senv0, unfolded g])
qed (simp_all add: senv0_def genv0_def)

text \<open>Messages at a library whose callbacks are there.\<close>

definition served0 :: "int sess" where
  "served0 = (sess0 (nmea_reader_init genv0 (at_init agps0)) epo_st0)
     \<lparr>gps_ni_callbacks := True, gpsnavigation_init_flag := 1\<rparr>"

theorem notification_delivered_witness:
  "mnld_to_gps_handler ni_env0
     (daemon_msg [FInt MNL_AGPS_CMD_NOTIFICATION, FInt 7, FInt 2, FStr [0x41, 0x42], FStr [0x43]]) served0 =
   Some [Call (NotifyCb \<lparr>notification_id = 7, notify_flags = {NEED_NOTIFY, NEED_VERIFY}, ni_timeout = 8,
     requestor_id = the (ucs2_hex 256 [0x41, 0x42]), ni_text = the (ucs2_hex 2048 [0x43]),
     requestor_id_encoding = 2, text_encoding = 2\<rparr>)]"
  using notification_delivered[of "[0x41, 0x42]" "[0x43]" served0 ni_env0 7 2]
  by (simp add: served0_def ni_env0_def text_fits_def ni_flags_of_def)

theorem navigation_length_unchecked_witness:
  "mnld_to_gps_handler ni_env0
     (daemon_msg [FInt HAL_CMD_NAVIGATION, FStruct (replicate 12 0 @ le32 41 @ replicate 40 0)]) served0 = None"
  using navigation_length_unchecked[of "replicate 12 0 @ le32 41 @ replicate 40 0" served0 ni_env0]
  by (simp add: served0_def SIZEOF_NAVIGATION_EVENT_def slice_def Let_def)

section \<open>The location the daemon asks for\<close>

lemma location_sent:
  assumes "length bytes = 48" "ok"
  shows "\<exists>b. mtk_gps_send_location_to_mnl (\<lambda>_. SOk) 48 41 st ok (Some bytes) a
      = Done 0 (a\<lparr>nsend := nsend a + 1, sent := sent a @ [b]\<rparr>)
    \<and> get_fields [SInt, SStruct 48] (b, 0) = Some ([FInt 0x47, FStruct (bytes[41 := st])], 52)"
proof -
  obtain b where b: "build_msg [FInt 0x47, FStruct (bytes[41 := st])] = Some b"
    "get_fields [SInt, SStruct 48] (b, 0) = Some ([FInt 0x47, FStruct (bytes[41 := st])], 52)"
    using build_msg_reads[of "[FInt 0x47, FStruct (bytes[41 := st])]" "[SInt, SStruct 48]"] assms(1)
    by (auto simp: msg_size_def)
  then show ?thesis
    using assms by (auto simp: mtk_gps_send_location_to_mnl_def Let_def mtk_daemon_send_def ret0_def
        send_loop.simps[of "\<lambda>_. SOk"])
qed

text \<open>
  A location that the framework has injected is what the daemon is sent when it asks for one
  later, whatever happened to the rest of the state in between, as long as the location file is the
  same: the message decodes to the injected numbers and time, with \<open>started\<close> as it is at that moment.
\<close>

theorem injected_location_resent:
  assumes "clock_ok e" "loc_opens e" "send_fd_ok e" "ae_send (ae (sg e)) = (\<lambda>_. SOk)"
    and "length lat = 8" "length lon = 8" "length acc = 4" "length ts = 16" "6 \<le> length (stack_junk (se_ni e))"
    and "direct e (InjectLocation lat lon acc ts) s = Some (r, t)" "loc_file u = loc_file t"
  shows "\<exists>b v. exec e SendLocation u = Next [] v \<and> sent (agps_of v) = sent (agps_of u) @ [b]
    \<and> get_fields [SInt, SStruct 48] (b, 0) =
        Some ([FInt 0x47, FStruct (nlp_context e 0 lat lon acc ts (started u))], 52)"
proof -
  let ?ctx = "\<lambda>n. nlp_context e 0 lat lon acc ts n"
  have len: "length (?ctx n) = 48" "(?ctx n)[41 := word_of_int k] = ?ctx k" for n k
    using assms(5-9) by (simp_all add: nlp_context_def Let_def list_update_append numeral_eq_Suc)
  have "loc_file t = Some (?ctx (started s))"
    using assms(1-3,10) unfolding direct_def mtk_gps_inject_location_def mtk_gps_update_location_def
    by (auto simp: Let_def with_send_def set_agps_def upd_at_def split: outcome.splits)
  then show ?thesis
    using location_sent[OF len(1) assms(3), of "word_of_int (started u)" "started s" "agps_of u"] len(2)
      assms(3,4,11)
    by (auto simp: exec.simps send_eff_def with_send_def go_def at_of_def genv_of_def set_agps_def
        upd_at_def agps_of_def)
qed

theorem injected_location_resent_witness:
  "\<exists>t b v. direct senv0 (InjectLocation (replicate 8 1) (replicate 8 2) (replicate 4 3) (replicate 16 4)) served0
      = Some (0, t)
    \<and> exec senv0 SendLocation (t\<lparr>started := 1\<rparr>) = Next [] v \<and> sent (agps_of v) = sent (agps_of t) @ [b]
    \<and> get_fields [SInt, SStruct 48] (b, 0) =
        Some ([FInt 0x47, FStruct (nlp_context senv0 0 (replicate 8 1) (replicate 8 2) (replicate 4 3)
          (replicate 16 4) 1)], 52)"
proof -
  let ?c = "InjectLocation (replicate 8 1) (replicate 8 2) (replicate 4 3) (replicate 16 4)"
  obtain b where "build_msg [FInt 0x47, FStruct (nlp_context senv0 0 (replicate 8 1) (replicate 8 2)
      (replicate 4 3) (replicate 16 4) (started served0))] = Some b"
    using build_msg_None[of "[FInt 0x47, FStruct (nlp_context senv0 0 (replicate 8 1) (replicate 8 2)
      (replicate 4 3) (replicate 16 4) (started served0))]"]
    by (auto simp: msg_size_def nlp_context_def Let_def senv0_def ni_env0_def)
  then obtain t where t: "direct senv0 ?c served0 = Some (0, t)"
    by (auto simp: direct_def mtk_gps_inject_location_def mtk_gps_update_location_def senv0_def genv0_def
        at_env0_def with_send_def send_msg_def mtk_daemon_send_def send_loop.simps[of "\<lambda>_. SOk"] Let_def
        at_of_def genv_of_def)
  have e: "clock_ok senv0" "loc_opens senv0" "send_fd_ok senv0" "ae_send (ae (sg senv0)) = (\<lambda>_. SOk)"
    "6 \<le> length (stack_junk (se_ni senv0))"
    by (simp_all add: senv0_def genv0_def at_env0_def ni_env0_def)
  show ?thesis
    using t injected_location_resent[OF e(1-4) _ _ _ _ e(5) t, of "t\<lparr>started := 1\<rparr>"]
    by (auto simp: agps_of_def)
qed

end
