(* ===== verification/Gps_Control.thy ===== *)
theory Gps_Control
  imports Gps_Session
begin

text \<open>
  The control of a GPS session by itself: the two programs, the locks, the start and initialisation
  flags and the calls into the framework, without the reader, the download and the sockets.  In a
  world where every system call succeeds the session refines this machine, step by step; runs of
  the session can then be computed on it.
\<close>

text \<open>The locks are enumerable, so that states with their conditions can be compared.\<close>

definition all_locks :: "lock list" where
  "all_locks = [M_START, M_STOP, M_CLEANUP, M_INIT, M_THREAD_EXIT, M_MNLDIE]"

lemma lock_UNIV: "(UNIV :: lock set) = set all_locks"
  by (auto simp: all_locks_def intro: lock.exhaust)

instantiation lock :: enum
begin

definition "enum_lock = all_locks"

definition "enum_all_lock P = list_all P all_locks"

definition "enum_ex_lock P = list_ex P all_locks"

instance
  by standard
    (simp_all only: lock_UNIV enum_lock_def enum_all_lock_def enum_ex_lock_def list_all_iff list_ex_iff,
     simp_all add: all_locks_def)

end

text \<open>A world in which everything succeeds at the first attempt.\<close>

definition env_good :: "'d senv \<Rightarrow> bool" where
  "env_good e =
     (dev_opens e \<and> pair_ok e \<and> at_sock_ok e \<and> thread_ok e \<and> codec_ok e \<and> cb_given e \<noteq> CbOther
      \<and> ae_send (ae (sg e)) = (\<lambda>_. SOk) \<and> ae_ctl (ae (sg e)) = (\<lambda>_. SOk))"

lemma send_loop_SOk [simp]: "send_loop (\<lambda>_. SOk) k n = Some (k + 1, SOk)"
  by (subst send_loop.simps) simp

lemma good_env [simp]:
  "env_good e \<Longrightarrow> ae_send (at_of e s) = (\<lambda>_. SOk)" "env_good e \<Longrightarrow> ae_ctl (at_of e s) = (\<lambda>_. SOk)"
  by (simp_all add: env_good_def at_of_def genv_of_def)

section \<open>The machine\<close>

datatype ceff = CBlocked | CNext "act list" cst | CFinish int cst

definition cgo :: "cst \<Rightarrow> ceff" where "cgo c = CNext [] c"

fun cexec :: "act \<Rightarrow> cst \<Rightarrow> ceff" where
  "cexec (Call x) c = cgo (c\<lparr>c_cbs := c_cbs c @ [x]\<rparr>)"
| "cexec (SetSta st) c = cgo (c\<lparr>c_sta := st\<rparr>)"
| "cexec ReportSta c = cgo (c\<lparr>c_cbs := c_cbs c @ [StatusCb (c_sta c)]\<rparr>)"
| "cexec (Release l) c = cgo (c\<lparr>c_locks := (c_locks c)(l := 1)\<rparr>)"
| "cexec (Get l) c = (if c_locks c l = 0 then CBlocked else cgo (c\<lparr>c_locks := (c_locks c)(l := 0)\<rparr>))"
| "cexec (ClearIfSet l) c = cgo (if c_locks c l = 1 then c\<lparr>c_locks := (c_locks c)(l := 0)\<rparr> else c)"
| "cexec (SetFlagUnlock n) c = cgo (c\<lparr>c_unlock := n\<rparr>)"
| "cexec (SetStartFlag n) c = cgo (c\<lparr>c_flag := n\<rparr>)"
| "cexec (WaitWhileStartFlag n) c = (if c_flag c = n then CBlocked else cgo c)"
| "cexec WaitStopIfStarted c = CNext (if c_flag c \<noteq> 0 then [Get M_STOP] else []) c"
| "cexec CheckInit c = (if c_init c = 0 then CFinish (- 1) c else cgo c)"
| "cexec CheckNotInit c = (if c_init c \<noteq> 0 then CFinish 0 c else cgo c)"
| "cexec SetInit c = cgo (c\<lparr>c_init := 1\<rparr>)"
| "cexec StateInit c = cgo (c\<lparr>c_hal := Running [ThreadStart]\<rparr>)"
| "cexec DoneIfInit c = CNext (if c_init c \<noteq> 0 then gps_state_done else []) c"
| "cexec CloseState c = cgo (c\<lparr>c_init := 0\<rparr>)"
| "cexec (GiveBack n) c = CFinish n c"
| "cexec ThreadStart c = CNext [Release M_INIT] c"
| "cexec ThreadEnd c = CFinish 0 c"
| "cexec (TakeCommand k) c =
     CNext (if k = 0 then [Release M_CLEANUP, ThreadEnd] else if k = 4 then [Call DownloadRequest] else []) c"
| "cexec _ c = cgo c"

text \<open>What an event is for the machine: a call, a step of a thread, a program for the idle GPS
  thread, a released lock, or an end of everything.\<close>

datatype cev = XCall call | XFw | XHal | XTake "act list" | XRelease lock | XStuck | XCrash | XNone

definition cfw_step :: "cst \<Rightarrow> cst" where
  "cfw_step c =
     (case c_fw c of [] \<Rightarrow> c
      | a # p \<Rightarrow> (case cexec a c of CBlocked \<Rightarrow> c
                  | CNext q d \<Rightarrow> d\<lparr>c_fw := q @ p\<rparr>
                  | CFinish n d \<Rightarrow> d\<lparr>c_fw := []\<rparr>))"

definition chal_step :: "cst \<Rightarrow> cst" where
  "chal_step c =
     (case c_hal c of
        Running (a # p) \<Rightarrow> (case cexec a c of CBlocked \<Rightarrow> c
                  | CNext q d \<Rightarrow> d\<lparr>c_hal := Running (q @ p)\<rparr>
                  | CFinish n d \<Rightarrow> d\<lparr>c_hal := Exited\<rparr>)
      | _ \<Rightarrow> c)"

definition cstep :: "cev \<Rightarrow> cst \<Rightarrow> cst" where
  "cstep x c =
     (if c_crashed c then c
      else case x of
        XCall k \<Rightarrow> if c_fw c = [] then c\<lparr>c_fw := program k\<rparr> else c
      | XFw \<Rightarrow> cfw_step c
      | XHal \<Rightarrow> chal_step c
      | XTake p \<Rightarrow> if c_hal c = Running [] then c\<lparr>c_hal := Running p\<rparr> else c
      | XRelease l \<Rightarrow> c\<lparr>c_locks := (c_locks c)(l := 1)\<rparr>
      | XStuck \<Rightarrow> c\<lparr>c_hal := Stuck\<rparr>
      | XCrash \<Rightarrow> c\<lparr>c_crashed := True\<rparr>
      | XNone \<Rightarrow> c)"

text \<open>The machine's view of an event of the session.\<close>

fun cev_of :: "'d senv \<Rightarrow> ev \<Rightarrow> 'd sess \<Rightarrow> cev" where
  "cev_of e (FwCall (CDirect d)) s = XNone"
| "cev_of e (FwCall k) s = XCall k"
| "cev_of e FwStep s = XFw"
| "cev_of e HalStep s = XHal"
| "cev_of e HalControl s =
     (if length (ctl (atst (rd s))) \<le> nread s then XNone
      else XTake [TakeCommand (ctl (atst (rd s)) ! nread s)])"
| "cev_of e (HalGps reads) s = XTake (gps_event reads s)"
| "cev_of e (HalAt ds) s = (if gps_at (sg e) then XTake [AtRead ds] else XNone)"
| "cev_of e (HalMnld r) s =
     (if \<not> hal_idle s then XNone
      else case safe_read r 0 HANDLER_BUFF (hal_errno s) 0 of
        None \<Rightarrow> XStuck
      | Some (_, _, _, bs) \<Rightarrow>
          (case mnld_to_gps_handler (se_ni e) bs s of None \<Rightarrow> XCrash | Some p \<Rightarrow> XTake p))"
| "cev_of e (HalCodec m) s = XTake (codec_event m s)"
| "cev_of e HalError s = XTake [Release M_CLEANUP, ThreadEnd]"
| "cev_of e EpoRound s =
     (if epo_threads s \<noteq> 0 \<and> thread_epo_exit_flag s = 1 then XRelease M_THREAD_EXIT else XNone)"
| "cev_of e RetryTimeout s = XNone"

section \<open>The refinement\<close>

lemma ctrl_parts [simp]:
  "ctrl (s\<lparr>fw := p, fw_ret := r\<rparr>) = (ctrl s)\<lparr>c_fw := p\<rparr>"
  "ctrl (s\<lparr>hal := h\<rparr>) = (ctrl s)\<lparr>c_hal := h\<rparr>"
  "ctrl (s\<lparr>hal_errno := z, hal := h\<rparr>) = (ctrl s)\<lparr>c_hal := h\<rparr>"
  "ctrl (s\<lparr>crashed := b\<rparr>) = (ctrl s)\<lparr>c_crashed := b\<rparr>"
  "ctrl (s\<lparr>cbs := x\<rparr>) = (ctrl s)\<lparr>c_cbs := x\<rparr>"
  "ctrl (s\<lparr>sta := st\<rparr>) = (ctrl s)\<lparr>c_sta := st\<rparr>"
  "ctrl (s\<lparr>locks := ls\<rparr>) = (ctrl s)\<lparr>c_locks := ls\<rparr>"
  "ctrl (s\<lparr>s_start_flag := n\<rparr>) = (ctrl s)\<lparr>c_flag := n\<rparr>"
  "ctrl (s\<lparr>flag_unlock := n\<rparr>) = (ctrl s)\<lparr>c_unlock := n\<rparr>"
  "ctrl (s\<lparr>s_init := n\<rparr>) = (ctrl s)\<lparr>c_init := n\<rparr>"
  "ctrl (s\<lparr>control_open := b, nread := k, s_init := n\<rparr>) = (ctrl s)\<lparr>c_init := n\<rparr>"
  "ctrl (s\<lparr>control_open := b, nread := k, hal := h\<rparr>) = (ctrl s)\<lparr>c_hal := h\<rparr>"
  "ctrl (release_condition l s) = (ctrl s)\<lparr>c_locks := (locks s)(l := 1)\<rparr>"
  by (simp_all add: ctrl_def release_condition_def)

lemma good_daemon_send [simp]:
  "mtk_daemon_send (\<lambda>_. SOk) b a = Done 0 (a\<lparr>nsend := nsend a + 1, sent := sent a @ [b]\<rparr>)"
  by (simp add: mtk_daemon_send_def)

lemma good_start: "\<exists>a'. mtk_start (\<lambda>_. SOk) a = Done 0 a'"
  by (simp add: mtk_start_def numeral_eq_Suc)

lemma good_location:
  "\<exists>r a'. mtk_gps_send_location_to_mnl (\<lambda>_. SOk) 48 41 b ok f a = Done r a'"
proof (cases f)
  case (Some bytes)
  let ?loc = "(take 48 bytes @ replicate (48 - length bytes) 0)[41 := b]"
  have "length ?loc = 48" by simp
  then have "build_msg [FInt 0x47, FStruct ?loc] \<noteq> None"
    using build_msg_None[of "[FInt 0x47, FStruct ?loc]"] by (simp add: msg_size_def)
  then show ?thesis using Some by (auto simp: mtk_gps_send_location_to_mnl_def Let_def ret0_def)
qed (simp add: mtk_gps_send_location_to_mnl_def)

lemma exec_refines:
  assumes "env_good e"
  shows "case exec e a s of Blocked \<Rightarrow> cexec a (ctrl s) = CBlocked
    | Next q t \<Rightarrow> cexec a (ctrl s) = CNext q (ctrl t)
    | Finish n t \<Rightarrow> cexec a (ctrl s) = CFinish n (ctrl t)"
proof (cases a)
  case StateInit
  then show ?thesis
    using assms
    by (simp add: exec.simps gps_state_init_def mtk_init_def cgo_def env_good_def[of e])
      (simp add: ctrl_def set_agps_def cgo_def)
next
  case StartDaemon
  obtain a' where "mtk_start (\<lambda>_. SOk) (agps_of s) = Done 0 a'" using good_start by blast
  then show ?thesis using StartDaemon assms by (simp add: exec.simps send_eff_def with_send_def go_def cgo_def)
next
  case SendLocation
  obtain r a' where "mtk_gps_send_location_to_mnl (\<lambda>_. SOk) 48 41 (word_of_int (started s))
      (send_fd_ok e) (loc_file s) (agps_of s) = Done r a'"
    using good_location by blast
  then show ?thesis using SendLocation assms by (simp add: exec.simps send_eff_def with_send_def go_def cgo_def)
next
  case (TakeCommand k)
  then show ?thesis
    by (auto simp: exec.simps take_command_def cgo_def split: prod.splits)
next
  case ThreadStart
  then show ?thesis using assms by (simp add: exec.simps thread_start_def Let_def env_good_def)
next
  case CopyCallbacks
  then show ?thesis using assms by (simp add: exec.simps go_def cgo_def env_good_def)
qed (use assms in \<open>auto simp: exec.simps go_def cgo_def send_eff_def with_send_def mtk_stop_def
      mtk_cleanup_def ret0_def get_condition_def\<close>)

lemma fw_refines:
  assumes "env_good e"
  shows "ctrl (fw_step e s) = cfw_step (ctrl s)"
proof (cases "fw s")
  case (Cons a p)
  show ?thesis
    using exec_refines[OF assms, of a s] Cons
    by (cases "exec e a s") (auto simp: fw_step_def cfw_step_def ctrl_def)
qed (simp add: fw_step_def cfw_step_def)

lemma hal_refines:
  assumes "env_good e"
  shows "ctrl (hal_step e s) = chal_step (ctrl s)"
proof (cases "\<exists>a p. hal s = Running (a # p)")
  case True
  then obtain a p where h: "hal s = Running (a # p)" by blast
  show ?thesis
    using exec_refines[OF assms, of a s] h
    by (cases "exec e a s") (auto simp: hal_step_def chal_step_def ctrl_def)
qed (auto simp: hal_step_def chal_step_def split: thread.splits list.splits)

lemma step_refines:
  assumes "env_good e"
  shows "ctrl (sess_step e v s) = cstep (cev_of e v s) (ctrl s)"
proof (cases v)
  case (FwCall k)
  have d: "ctrl t = ctrl s" if "direct e c s = Some (r, t)" for c r t
    using ctrl_direct[OF that] .
  show ?thesis
    using FwCall d by (cases k) (auto simp: fw_call_def cstep_def split: option.splits)
next
  case (HalMnld r)
  then show ?thesis
    by (auto simp: mnld_event_def cstep_def hal_idle_def split: option.splits prod.splits)
next
  case HalControl
  then show ?thesis by (auto simp: cstep_def hal_takes_def hal_idle_def)
qed (auto simp: cstep_def fw_refines[OF assms] hal_refines[OF assms] hal_takes_def hal_idle_def epo_event_def)

lemma good0: "env_good senv0"
  by (simp add: env_good_def senv0_def genv0_def at_env0_def)

text \<open>Runs: the machine's view of each event at the state it meets.\<close>

fun cevs_of :: "'d senv \<Rightarrow> ev list \<Rightarrow> 'd sess \<Rightarrow> cev list" where
  "cevs_of e [] s = []"
| "cevs_of e (v # vs) s = cev_of e v s # cevs_of e vs (sess_step e v s)"

lemma run_refines:
  "env_good e \<Longrightarrow> ctrl (sess_run e evs s) = fold cstep (cevs_of e evs s) (ctrl s)"
  by (induction evs arbitrary: s) (simp_all add: sess_run_def step_refines)

text \<open>
  C12: In a world where the system calls succeed, every run of the session, whatever the framework
  calls and whatever the reader, the AT test, the download and the messages contain, is a run of the
  control machine: the order of callbacks, locks and flags can be computed without the rest.
\<close>

theorem session_refines_control:
  assumes "env_good e"
  shows "ctrl (sess_run e evs s) = fold cstep (cevs_of e evs s) (ctrl s)"
  by (rule run_refines[OF assms])

theorem session_refines_control_witness:
  "ctrl (sess_run senv0 [FwCall CInit, FwStep, FwStep] served0) = (ctrl served0)\<lparr>c_fw := drop 2 mtk_gps_init\<rparr>"
  using session_refines_control[OF good0, of "[FwCall CInit, FwStep, FwStep]" served0]
  by (simp add: cstep_def cfw_step_def cgo_def mtk_gps_init_def served0_def ctrl_def sess0_def)

lemma sess_run_append: "sess_run e (us @ vs) s = sess_run e vs (sess_run e us s)"
  by (simp add: sess_run_def)

text \<open>An initialisation that nothing disturbs.\<close>

definition init_events :: "ev list" where
  "init_events = FwCall CInit # replicate 3 FwStep @ replicate 2 HalStep @ replicate 5 FwStep"

lemma init_run:
  assumes "env_good e" "s_init s = 0" "fw s = []" "\<not> crashed s"
  shows "ctrl (sess_run e init_events s) =
     (ctrl s)\<lparr>c_hal := Running [], c_locks := (locks s)(M_INIT := 0),
             c_cbs := cbs s @ [SetCapabilities], c_init := 1\<rparr>"
proof -
  have "cevs_of e init_events s = XCall CInit # replicate 3 XFw @ replicate 2 XHal @ replicate 5 XFw"
    by (simp add: init_events_def numeral_eq_Suc)
  then show ?thesis
    using assms
    by (simp add: run_refines numeral_eq_Suc cstep_def cfw_step_def chal_step_def cgo_def mtk_gps_init_def)
qed

text \<open>A message of the daemon whose first field is \<open>w\<close>.\<close>

lemma handler_type:
  assumes "length rest \<le> 8996"
  shows "buff_get_int (handler_buff (le32 w @ rest), 0) = Some (w, 4)"
  using assms by (simp add: buff_get_int_def read_at_def handler_buff_def HANDLER_BUFF_def)

definition msg_read :: "byte list \<Rightarrow> nat \<Rightarrow> read_res" where
  "msg_read bs k = RData bs"

lemma safe_read_msg:
  "length bs \<le> HANDLER_BUFF \<Longrightarrow>
   safe_read (msg_read bs) 0 HANDLER_BUFF er k = Some (k + 1, er, int (length bs), bs)"
  by (subst safe_read_def, subst read_loop.simps) (simp add: msg_read_def HANDLER_BUFF_def)

lemma die_program: "mnld_to_gps_handler e (le32 HAL_CMD_MNL_DIE) s = Some die_acts"
  using handler_type[of "[]" HAL_CMD_MNL_DIE] by (simp add: mnld_to_gps_handler_def msg_codes)

definition daemon_dies :: ev where
  "daemon_dies = HalMnld (msg_read (le32 HAL_CMD_MNL_DIE))"

lemma cev_daemon_dies: "hal_idle s \<Longrightarrow> cev_of e daemon_dies s = XTake die_acts"
  using safe_read_msg[of "le32 HAL_CMD_MNL_DIE" "hal_errno s" 0]
  by (simp add: daemon_dies_def die_program HANDLER_BUFF_def)

lemmas control_steps = cstep_def cfw_step_def chal_step_def cgo_def numeral_eq_Suc

text \<open>A start up to the point where it waits for the first report.\<close>

definition start_events :: "ev list" where
  "start_events = FwCall CStart # replicate 4 FwStep"

lemma start_run:
  assumes "env_good e" "s_init s \<noteq> 0" "fw s = []" "\<not> crashed s" "s_start_flag s \<noteq> 1"
  shows "ctrl (sess_run e start_events s) = (ctrl s)\<lparr>c_fw := drop 4 mtk_gps_start\<rparr>"
proof -
  have "cevs_of e start_events s = XCall CStart # replicate 4 XFw"
    by (simp add: start_events_def numeral_eq_Suc)
  then show ?thesis
    using assms by (simp add: run_refines control_steps mtk_gps_start_def)
qed

text \<open>The first report of the device releases it.\<close>

definition report_events :: "string list \<Rightarrow> ev list" where
  "report_events reads = HalGps reads # replicate 3 HalStep @ [FwStep]"

lemma report_run:
  assumes "env_good e" "fw s = Get M_START # p" "\<not> crashed s" "flag_unlock s = 0" "hal s = Running []"
  shows "ctrl (sess_run e (report_events reads) s) =
    (ctrl s)\<lparr>c_fw := p, c_locks := (locks s)(M_START := 0), c_unlock := 1\<rparr>"
proof -
  have "cevs_of e (report_events reads) s =
      XTake [Release M_START, SetFlagUnlock 1, NmeaRead reads] # replicate 3 XHal @ [XFw]"
    using assms by (simp add: report_events_def numeral_eq_Suc gps_event_def)
  then show ?thesis
    using assms by (simp add: run_refines control_steps)
qed

text \<open>The rest of the start.\<close>

lemma finish_run:
  assumes "env_good e" "fw s = drop 5 mtk_gps_start" "\<not> crashed s"
  shows "ctrl (sess_run e (replicate 9 FwStep) s) =
    (ctrl s)\<lparr>c_fw := [], c_flag := 1, c_sta := SESSION_BEGIN,
      c_cbs := cbs s @ [StatusCb ENGINE_ON, StatusCb SESSION_BEGIN, AcquireWakelock],
      c_locks := (locks s)(M_STOP := (if locks s M_STOP = 1 then 0 else locks s M_STOP))\<rparr>"
proof -
  have "cevs_of e (replicate 9 FwStep) s = replicate 9 XFw" by (simp add: numeral_eq_Suc)
  then show ?thesis
    using assms by (simp add: run_refines control_steps mtk_gps_start_def fun_upd_triv)
qed

text \<open>The daemon announces its end to an idle thread.\<close>

lemma death_run:
  assumes "env_good e" "hal s = Running []" "\<not> crashed s"
  shows "ctrl (sess_run e (daemon_dies # replicate 8 HalStep) s) =
    (ctrl s)\<lparr>c_unlock := 0, c_sta := ENGINE_OFF, c_flag := 0, c_locks := (locks s)(M_STOP := 1),
      c_cbs := cbs s @ [StatusCb SESSION_END, StatusCb ENGINE_OFF, ReleaseWakelock]\<rparr>"
proof -
  have "cevs_of e (daemon_dies # replicate 8 HalStep) s = XTake die_acts # replicate 8 XHal"
    using cev_daemon_dies[of s e] assms(2) by (simp add: numeral_eq_Suc hal_idle_def)
  then show ?thesis
    using assms by (simp add: run_refines control_steps die_acts_def)
qed

end
