(* ===== verification/Gps_Lifecycle.thy ===== *)
theory Gps_Lifecycle
  imports Gps_Control "HOL-Library.Sublist"
begin

text \<open>
  What the threads of \<open>Gps_Session\<close> do to each other: which calls never return, and when a start
  returns with the session reported.
\<close>

section \<open>What the GPS thread does not do\<close>

text \<open>The actions that the GPS thread may have left: it never waits and never starts a session.\<close>

fun hal_act :: "act \<Rightarrow> bool" where
  "hal_act (SetStartFlag n) = (n = 0)"
| "hal_act (Get l) = False"
| "hal_act (ClearIfSet l) = False"
| "hal_act WaitStopIfStarted = False"
| "hal_act SetInit = False"
| "hal_act StateInit = False"
| "hal_act DoneIfInit = False"
| "hal_act CloseState = False"
| "hal_act _ = True"

definition hal_ok :: "'d sess \<Rightarrow> bool" where
  "hal_ok s = list_all hal_act (thread_acts (hal s))"

lemma hal_act_next: "hal_act a \<Longrightarrow> exec e a s = Next q t \<Longrightarrow> list_all hal_act q"
  by (cases a)
    (auto simp: exec.simps go_def send_eff_def take_command_def thread_start_def Let_def
      split: if_splits option.splits prod.splits)

lemma hal_act_exec:
  assumes "hal_act a" "exec e a s = Next q t"
  shows "fw t = fw s \<and> s_init t = s_init s \<and> hal t = hal s
    \<and> (s_start_flag t = s_start_flag s \<or> s_start_flag t = 0)
    \<and> (\<forall>l. locks t l \<noteq> locks s l \<longrightarrow> a = Release l) \<and> (\<forall>l. a = Release l \<longrightarrow> locks t l = 1)"
proof (cases "ctrl_act a")
  case True
  then show ?thesis
    using assms exec_ctrl[OF True assms(2)]
    by (cases a) (auto simp: exec.simps go_def release_condition_def split: if_splits)
next
  case False
  then have "ctrl t = ctrl s" using exec_quiet assms(2) by blast
  then show ?thesis using ctrl_eqD[of t s] False by auto
qed

lemma hal_ok_programs [simp]:
  "list_all hal_act die_acts" "list_all hal_act (icon_acts a b)" "list_all hal_act (gps_event r s)"
  "list_all hal_act (codec_event m s)"
  by (simp_all add: die_acts_def icon_acts_def gps_event_def codec_event_def
      split: codec_msg.splits option.splits)

lemma hal_ok_handler: "mnld_to_gps_handler e bs s = Some p \<Longrightarrow> list_all hal_act p"
  by (drule handler_shape) auto

text \<open>What an event leaves of the framework's call, apart from its own steps.\<close>

definition undisturbed :: "'d sess \<Rightarrow> 'd sess \<Rightarrow> bool" where
  "undisturbed s t =
     (fw t = fw s \<and> s_init t = s_init s \<and> (s_start_flag t = s_start_flag s \<or> s_start_flag t = 0))"

lemma undisturbed_ctrl: "ctrl t = ctrl s \<Longrightarrow> undisturbed s t"
  by (simp add: undisturbed_def ctrl_def)

lemma undisturbed_hal [simp]: "undisturbed s (s\<lparr>hal := h\<rparr>)" "undisturbed s (s\<lparr>crashed := b\<rparr>)"
  "undisturbed s s" "undisturbed s (release_condition l s)"
  "undisturbed s (s\<lparr>nread := k, hal := h\<rparr>)" "undisturbed s (s\<lparr>hal_errno := z, hal := h\<rparr>)"
  "undisturbed s (s\<lparr>nread := k\<rparr>)" "undisturbed s (s\<lparr>ep := p\<rparr>)"
  by (simp_all add: undisturbed_def release_condition_def)

lemma hal_step_undisturbed:
  assumes "hal_ok s"
  shows "undisturbed s (hal_step e s)"
proof (cases "\<exists>a p. hal s = Running (a # p)")
  case True
  then obtain a p where h: "hal s = Running (a # p)" by blast
  then have a: "hal_act a" using assms by (simp add: hal_ok_def thread_acts_def)
  show ?thesis
  proof (cases "exec e a s")
    case (Next q t)
    have "undisturbed s t" using hal_act_exec[OF a Next] unfolding undisturbed_def by blast
    then show ?thesis using Next h by (simp add: hal_step_def undisturbed_def)
  next
    case (Finish n t)
    then show ?thesis using ctrl_eqD[OF finish_quiet[OF Finish]] h by (simp add: hal_step_def undisturbed_def)
  qed (use h in \<open>simp add: hal_step_def\<close>)
qed (auto simp: hal_step_def split: thread.splits list.splits)

lemma event_undisturbed:
  assumes "hal_ok s" "v \<noteq> FwStep" "fw s \<noteq> [] \<or> (\<forall>c. v \<noteq> FwCall c)"
  shows "undisturbed s (sess_step e v s)"
proof (cases v)
  case EpoRound
  have u: "undisturbed s (upd_epo e f s)" for f by (rule undisturbed_ctrl) simp
  have r: "undisturbed s (release_condition l (s\<lparr>epo_threads := k\<rparr>))" for l k
    by (simp add: undisturbed_def release_condition_def)
  show ?thesis using EpoRound u r by (simp add: epo_event_def)
next
  case (FwCall c)
  then show ?thesis using assms(3) by (simp add: fw_call_def)
next
  case (HalMnld r)
  then show ?thesis by (simp add: mnld_event_def split: option.splits prod.splits)
qed (use assms(2) hal_step_undisturbed[OF assms(1)] in \<open>simp_all add: hal_takes_def\<close>)

lemma hal_ok_hal_step:
  assumes "hal_ok s"
  shows "hal_ok (hal_step e s)"
proof (cases "\<exists>a p. hal s = Running (a # p)")
  case True
  then obtain a p where h: "hal s = Running (a # p)" by blast
  then have a: "hal_act a" "list_all hal_act p" using assms by (simp_all add: hal_ok_def thread_acts_def)
  then show ?thesis
    using h by (cases "exec e a s") (auto simp: hal_step_def hal_ok_def thread_acts_def dest: hal_act_next)
qed (use assms in \<open>auto simp: hal_step_def split: thread.splits list.splits\<close>)

lemma hal_ok_same: "hal t = hal s \<Longrightarrow> hal_ok t = hal_ok s"
  by (simp add: hal_ok_def)

lemma hal_ok_fw_step:
  assumes "hal_ok s"
  shows "hal_ok (fw_step e s)"
proof (cases "fw s")
  case (Cons a p)
  show ?thesis
  proof (cases "exec e a s")
    case (Next q t)
    then show ?thesis
      using exec_threads(3)[OF Next] assms Cons by (auto simp: fw_step_def hal_ok_def thread_acts_def)
  next
    case (Finish n t)
    then show ?thesis
      using ctrl_eqD(2)[OF finish_quiet[OF Finish]] assms Cons by (simp add: fw_step_def hal_ok_def)
  qed (use assms Cons in \<open>simp add: fw_step_def\<close>)
qed (use assms in \<open>simp add: fw_step_def\<close>)

lemma hal_ok_step:
  assumes "hal_ok s"
  shows "hal_ok (sess_step e v s)"
proof (cases v)
  case (FwCall c)
  have "hal t = hal s" if "direct e d s = Some (r, t)" for d r t
    using ctrl_direct[OF that] by (simp add: ctrl_def)
  then show ?thesis
    using assms FwCall by (auto simp: fw_call_def hal_ok_def split: call.splits option.splits)
next
  case EpoRound
  have "hal (upd_epo e f s) = hal s" for f by (rule ctrl_eqD(2)) simp
  then show ?thesis using assms EpoRound by (simp add: epo_event_def hal_ok_def release_condition_def)
next
  case (HalMnld r)
  then show ?thesis
    using assms by (auto simp: mnld_event_def hal_ok_def thread_acts_def dest: hal_ok_handler
        split: option.splits prod.splits)
qed (use assms in \<open>simp_all add: hal_ok_hal_step hal_ok_fw_step\<close>,
    use assms in \<open>simp_all add: hal_takes_def hal_ok_def thread_acts_def\<close>)

lemma hal_ok_reach: "reach e s \<Longrightarrow> hal_ok s"
  by (induction rule: reach.induct) (simp_all add: hal_ok_step, simp add: hal_ok_def sess0_def thread_acts_def)

section \<open>Calls that never return\<close>

text \<open>
  A call is held when a property of the states keeps it pending and survives every event that can
  happen (\<open>ok\<close>): then no sequence of such events lets the call return.
\<close>

locale held_call =
  fixes e :: "'d senv" and P :: "'d sess \<Rightarrow> bool" and ok :: "ev \<Rightarrow> bool"
  assumes pending: "P s \<Longrightarrow> fw s \<noteq> []"
    and held: "P s \<Longrightarrow> ok v \<Longrightarrow> P (sess_step e v s)"
begin

lemma held_run: "P s \<Longrightarrow> list_all ok evs \<Longrightarrow> P (sess_run e evs s)"
  by (induction evs arbitrary: s) (simp_all add: sess_run_def held)

lemma never_returns: "P s \<Longrightarrow> list_all ok evs \<Longrightarrow> fw (sess_run e evs s) \<noteq> []"
  by (rule pending, rule held_run)

end

text \<open>\<open>mtk_gps_stop\<close> polls until a session is on; only a start, which the caller would make, begins one.\<close>

definition stop_waits :: "'d sess \<Rightarrow> bool" where
  "stop_waits s =
     (hal_ok s \<and> s_start_flag s = 0 \<and> s_init s \<noteq> 0 \<and> fw s \<in> {mtk_gps_stop, drop 1 mtk_gps_stop})"

lemma stop_waits_undisturbed: "stop_waits s \<Longrightarrow> undisturbed s t \<Longrightarrow> hal_ok t \<Longrightarrow> stop_waits t"
  by (auto simp: stop_waits_def undisturbed_def)

lemma stop_programs: "mtk_gps_stop \<noteq> []" "drop 1 mtk_gps_stop \<noteq> []"
  by (simp_all add: mtk_gps_stop_def)

interpretation stop_held: held_call e stop_waits "\<lambda>_. True" for e :: "'d senv"
proof
  fix s :: "'d sess" and v
  show "fw s \<noteq> []" if "stop_waits s" using that stop_programs by (auto simp: stop_waits_def)
  show "stop_waits (sess_step e v s)" if w: "stop_waits s"
  proof (cases "v = FwStep")
    case True
    have "hal_ok (fw_step e s)" using w by (intro hal_ok_fw_step) (simp add: stop_waits_def)
    then show ?thesis
      using w True by (auto simp: stop_waits_def fw_step_def mtk_gps_stop_def exec.simps go_def)
  next
    case False
    have "hal_ok s" using w by (simp add: stop_waits_def)
    moreover have "fw s \<noteq> []" using w stop_programs by (auto simp: stop_waits_def)
    ultimately show ?thesis using stop_waits_undisturbed[OF w] event_undisturbed[of s v e] False hal_ok_step by blast
  qed
qed

text \<open>
  \<open>mtk_gps_stop\<close> called while no session is on never returns, whatever the other threads, the
  daemon and the device do meanwhile: it polls for a session that only its caller could start.
  That is so in particular after the daemon has died, which ends the session.
\<close>

theorem stop_without_session_hangs:
  assumes "reach e s" "\<not> crashed s" "fw s = []" "s_init s \<noteq> 0" "s_start_flag s = 0"
  shows "fw (sess_run e evs (sess_step e (FwCall CStop) s)) \<noteq> []"
proof (rule stop_held.never_returns)
  show "stop_waits (sess_step e (FwCall CStop) s)"
    using assms hal_ok_reach[OF assms(1)] by (simp add: fw_call_def stop_waits_def hal_ok_def)
qed (simp add: list_all_iff)

text \<open>A library that has just been initialised.\<close>

definition start0 :: "int sess" where
  "start0 = sess0 (nmea_reader_init (sg senv0) (at_init agps0)) epo_st0"

definition initialised0 :: "int sess" where
  "initialised0 = sess_run senv0 init_events start0"

lemma reach_run: "reach e s \<Longrightarrow> reach e (sess_run e evs s)"
  by (induction evs arbitrary: s) (simp_all add: sess_run_def sess_next)

lemma reach_start0: "reach senv0 start0"
  unfolding start0_def by (rule sess_first)

lemma start0_ctrl:
  "ctrl start0 = \<lparr>c_fw = [], c_hal = NotCreated, c_flag = 0, c_crashed = False, c_locks = (\<lambda>_. 0),
     c_cbs = [], c_sta = STATUS_NONE, c_init = 0, c_unlock = 0\<rparr>"
  by (simp add: start0_def sess0_def ctrl_def)

lemma ctrl_initialised0:
  "ctrl initialised0 = \<lparr>c_fw = [], c_hal = Running [], c_flag = 0, c_crashed = False,
     c_locks = (\<lambda>_. 0), c_cbs = [SetCapabilities], c_sta = STATUS_NONE, c_init = 1,
     c_unlock = 0\<rparr>"
proof -
  have "s_init start0 = 0" "fw start0 = []" "\<not> crashed start0" "locks start0 = (\<lambda>_. 0)" "cbs start0 = []"
    by (simp_all add: start0_def sess0_def)
  then show ?thesis
    unfolding initialised0_def by (subst init_run[OF good0]) (auto simp: start0_ctrl)
qed

lemma initialised0_facts:
  "reach senv0 initialised0" "\<not> crashed initialised0" "fw initialised0 = []" "s_init initialised0 = 1"
  "s_start_flag initialised0 = 0" "locks initialised0 = (\<lambda>_. 0)" "hal initialised0 = Running []"
  "flag_unlock initialised0 = 0" "cbs initialised0 = [SetCapabilities]"
  using arg_cong[OF ctrl_initialised0, of c_fw] arg_cong[OF ctrl_initialised0, of c_crashed]
    arg_cong[OF ctrl_initialised0, of c_init] arg_cong[OF ctrl_initialised0, of c_flag]
    arg_cong[OF ctrl_initialised0, of c_unlock] arg_cong[OF ctrl_initialised0, of c_cbs]
    arg_cong[OF ctrl_initialised0, of c_locks] arg_cong[OF ctrl_initialised0, of c_hal]
    reach_run[OF reach_start0, of init_events]
  by (simp_all add: initialised0_def)

theorem stop_without_session_hangs_witness:
  "fw (sess_run senv0 [FwStep, FwStep, FwStep] (sess_step senv0 (FwCall CStop) initialised0)) \<noteq> []"
  by (rule stop_without_session_hangs) (simp_all add: initialised0_facts)

text \<open>An initialisation that fails has nobody who could wake it.\<close>

definition env_fails :: "'d senv \<Rightarrow> bool" where
  "env_fails e =
     ((\<not> dev_opens e \<or> \<not> pair_ok e \<or> \<not> thread_ok e \<or> \<not> codec_ok e) \<and> cb_given e \<noteq> CbOther)"

abbreviation init_rest :: "act list" where
  "init_rest \<equiv> [Get M_INIT, SetInit, Call SetCapabilities, InitModes, GiveBack 0]"

text \<open>Where such an initialisation stands: before \<open>gps_state_init\<close>, in the failure path, or behind it.\<close>

definition init_stage :: "'d senv \<Rightarrow> act list \<Rightarrow> thread \<Rightarrow> bool" where
  "init_stage e p h =
     ((p = CheckNotInit # CopyCallbacks # StateInit # init_rest \<or> p = CopyCallbacks # StateInit # init_rest
       \<or> p = StateInit # init_rest \<or> p = WriteQuit # Get M_CLEANUP # CloseState # init_rest
       \<or> p = Get M_CLEANUP # CloseState # init_rest) \<and> h = NotCreated
      \<or> p = init_rest \<and> (h = NotCreated
          \<or> \<not> codec_ok e \<and> (h = Running [ThreadStart] \<or> h = Running [ThreadEnd] \<or> h = Exited)))"

definition init_waits :: "'d senv \<Rightarrow> 'd sess \<Rightarrow> bool" where
  "init_waits e s =
     (env_fails e \<and> s_init s = 0 \<and> locks s M_INIT = 0 \<and> locks s M_CLEANUP = 0
      \<and> init_stage e (fw s) (hal s))"

lemma state_init_fails:
  assumes "env_fails e" "gps_state_init e s = Some (p, t)" "hal s = NotCreated"
  shows "locks t = locks s \<and> s_init t = s_init s \<and> init_stage e (p @ init_rest) (hal t)"
  using assms
  by (auto simp: gps_state_init_def Let_def set_agps_def env_fails_def init_stage_def gps_state_done_def
      split: if_splits outcome.splits)

lemma init_waits_fw_step:
  assumes "init_waits e s"
  shows "init_waits e (fw_step e s)"
proof (cases "fw s = StateInit # init_rest")
  case True
  then have h: "hal s = NotCreated" "env_fails e" using assms by (auto simp: init_waits_def init_stage_def)
  show ?thesis
  proof (cases "gps_state_init e s")
    case None
    then show ?thesis using assms True by (simp add: fw_step_def exec.simps)
  next
    case (Some r)
    then obtain p t where r: "gps_state_init e s = Some (p, t)" by (cases r) simp
    then show ?thesis
      using state_init_fails[OF h(2) r h(1)] assms True by (simp add: fw_step_def exec.simps init_waits_def)
  qed
next
  case False
  have "cb_given e \<noteq> CbOther" using assms by (simp add: init_waits_def env_fails_def)
  with False assms show ?thesis
    unfolding init_waits_def init_stage_def
    by (elim conjE disjE) (simp_all add: fw_step_def exec.simps go_def get_condition_def)
qed

lemma init_stage_facts:
  assumes "init_stage e p h"
  shows "p \<noteq> []" "h \<noteq> Running []"
  using assms by (auto simp: init_stage_def)

lemma init_waits_hal_step:
  assumes "init_waits e s"
  shows "init_waits e (hal_step e s)"
proof -
  consider "\<forall>a p. hal s \<noteq> Running (a # p)"
    | "hal s = Running [ThreadStart]" "\<not> codec_ok e" "fw s = init_rest"
    | "hal s = Running [ThreadEnd]" "\<not> codec_ok e" "fw s = init_rest"
    using assms by (auto simp: init_waits_def init_stage_def)
  then show ?thesis
  proof cases
    case 1
    then have "hal_step e s = s" by (auto simp: hal_step_def split: thread.splits list.splits)
    then show ?thesis using assms by simp
  next
    case 2
    then show ?thesis
      using assms by (simp add: hal_step_def exec.simps thread_start_def Let_def init_waits_def init_stage_def)
  next
    case 3
    then show ?thesis using assms by (simp add: hal_step_def exec.simps init_waits_def init_stage_def)
  qed
qed

lemma init_waits_ctrl: "init_waits e s \<Longrightarrow> ctrl t = ctrl s \<Longrightarrow> init_waits e t"
  by (simp add: init_waits_def ctrl_def)

interpretation init_held: held_call e "init_waits e" "\<lambda>_. True" for e :: "'d senv"
proof
  fix s :: "'d sess" and v
  show "fw s \<noteq> []" if "init_waits e s" using that init_stage_facts by (auto simp: init_waits_def)
  show "init_waits e (sess_step e v s)" if w: "init_waits e s"
  proof -
    have st: "fw s \<noteq> []" "hal s \<noteq> Running []"
      using init_stage_facts[of e "fw s" "hal s"] w by (simp_all add: init_waits_def)
    have ep: "init_waits e (epo_event e s)"
    proof -
      have "init_waits e (upd_epo e f s)" for f by (rule init_waits_ctrl[OF w]) simp
      moreover have "init_waits e (release_condition M_THREAD_EXIT (s\<lparr>epo_threads := k\<rparr>))" for k
        using w by (simp add: init_waits_def release_condition_def)
      ultimately show ?thesis using w by (simp add: epo_event_def)
    qed
    have ti: "init_waits e (s\<lparr>ep := p\<rparr>)" for p by (rule init_waits_ctrl[OF w]) simp
    show ?thesis
      using w st ep ti init_waits_fw_step[OF w] init_waits_hal_step[OF w]
      by (cases v) (simp_all add: fw_call_def hal_takes_def hal_idle_def)
  qed
qed

text \<open>
  C28: If the device cannot be opened, or the socket pair, the GPS thread or the codec socket fails,
  the first \<open>mtk_gps_init\<close> never returns, whatever else happens: it waits for the thread that was not
  created or that has ended, instead of reporting an error.
\<close>

theorem failed_init_hangs:
  assumes "\<not> dev_opens e \<or> \<not> pair_ok e \<or> \<not> thread_ok e \<or> \<not> codec_ok e" "cb_given e \<noteq> CbOther"
  shows "fw (sess_run e evs (sess_step e (FwCall CInit) (sess0 r p))) \<noteq> []"
proof (rule init_held.never_returns)
  show "init_waits e (sess_step e (FwCall CInit) (sess0 r p))"
    using assms
    by (simp add: fw_call_def sess0_def init_waits_def env_fails_def init_stage_def mtk_gps_init_def)
qed (simp add: list_all_iff)

theorem failed_init_hangs_witness:
  "fw (sess_run (senv0\<lparr>dev_opens := False\<rparr>) (replicate 20 FwStep)
     (sess_step (senv0\<lparr>dev_opens := False\<rparr>) (FwCall CInit) start0)) \<noteq> []"
  unfolding start0_def by (rule failed_init_hangs) (simp_all add: senv0_def)

text \<open>The actions that neither end nor begin a session, nor release the waiting cleanup.\<close>

definition no_stop :: "act \<Rightarrow> bool" where
  "no_stop a = (a \<noteq> Release M_STOP \<and> (\<forall>n. a \<noteq> SetStartFlag n))"

lemma no_stop_exec:
  assumes "no_stop a" "exec e a s = Next q t"
  shows "list_all no_stop q" "s_start_flag t = s_start_flag s" "locks s M_STOP = 0 \<Longrightarrow> locks t M_STOP = 0"
proof -
  show "list_all no_stop q"
    using assms
    by (cases a)
      (auto simp: exec.simps go_def send_eff_def take_command_def thread_start_def Let_def no_stop_def
        gps_state_done_def gps_state_init_def split: if_splits option.splits prod.splits outcome.splits)
  have "s_start_flag t = s_start_flag s \<and> (locks s M_STOP = 0 \<longrightarrow> locks t M_STOP = 0)"
  proof (cases "ctrl_act a")
    case True
    then show ?thesis
      using assms exec_ctrl(4)[OF True assms(2)]
      by (cases a)
        (auto simp: no_stop_def exec.simps go_def release_condition_def get_condition_def gps_state_init_def
          Let_def set_agps_def split: if_splits option.splits outcome.splits)
  next
    case False
    then have "ctrl t = ctrl s" using exec_quiet assms(2) by blast
    then show ?thesis using ctrl_eqD(3,5)[of t s] by simp
  qed
  then show "s_start_flag t = s_start_flag s" "locks s M_STOP = 0 \<Longrightarrow> locks t M_STOP = 0" by simp_all
qed

lemma no_stop_programs [simp]:
  "list_all no_stop (gps_event r s)" "list_all no_stop (codec_event m s)"
  "no_stop (TakeCommand c)" "no_stop (AtRead ds)" "no_stop (Release M_CLEANUP)" "no_stop ThreadEnd"
  by (simp_all add: gps_event_def codec_event_def no_stop_def split: codec_msg.splits option.splits)

abbreviation cleanup_rest :: "act list" where
  "cleanup_rest \<equiv> [ClearIfSet M_STOP, DoneIfInit, SetEpoExit, Get M_THREAD_EXIT, GiveBack 0]"

definition cleanup_waits :: "'d sess \<Rightarrow> bool" where
  "cleanup_waits s =
     (locks s M_STOP = 0 \<and> list_all no_stop (thread_acts (hal s))
      \<and> ((fw s = CleanupDaemon # WaitStopIfStarted # cleanup_rest \<or> fw s = WaitStopIfStarted # cleanup_rest)
           \<and> s_start_flag s \<noteq> 0
         \<or> fw s = Get M_STOP # cleanup_rest))"

lemma cleanup_waits_ctrl: "cleanup_waits s \<Longrightarrow> ctrl t = ctrl s \<Longrightarrow> cleanup_waits t"
  by (simp add: cleanup_waits_def ctrl_def)

lemma cleanup_waits_hal:
  "cleanup_waits s \<Longrightarrow> list_all no_stop (thread_acts h) \<Longrightarrow> cleanup_waits (s\<lparr>hal := h\<rparr>)"
  by (simp add: cleanup_waits_def)

lemma cleanup_waits_takes:
  "cleanup_waits s \<Longrightarrow> list_all no_stop p \<Longrightarrow> cleanup_waits (hal_takes p s)"
  by (simp add: hal_takes_def cleanup_waits_hal thread_acts_def)

lemma cleanup_waits_fw_step:
  assumes "cleanup_waits s"
  shows "cleanup_waits (fw_step e s)"
proof (cases "hd (fw s) = CleanupDaemon")
  case True
  then have w: "fw s = CleanupDaemon # WaitStopIfStarted # cleanup_rest" "s_start_flag s \<noteq> 0"
    using assms by (auto simp: cleanup_waits_def)
  show ?thesis
  proof (cases "exec e CleanupDaemon s")
    case (Next q t)
    then have "ctrl t = ctrl s" "q = []"
      using exec_quiet[of CleanupDaemon e s q t] by (auto simp: exec.simps send_eff_def go_def split: option.splits)
    then show ?thesis using assms w Next by (simp add: fw_step_def cleanup_waits_def ctrl_def)
  next
    case (Finish n t)
    then show ?thesis by (auto simp: exec.simps send_eff_def go_def split: option.splits)
  qed (use assms w in \<open>simp add: fw_step_def\<close>)
next
  case False
  then show ?thesis
    using assms by (auto simp: cleanup_waits_def fw_step_def exec.simps get_condition_def)
qed

lemma cleanup_waits_hal_step:
  assumes "cleanup_waits s"
  shows "cleanup_waits (hal_step e s)"
proof (cases "\<exists>a p. hal s = Running (a # p)")
  case True
  then obtain a p where h: "hal s = Running (a # p)" by blast
  then have a: "no_stop a" "list_all no_stop p" "locks s M_STOP = 0"
    using assms by (simp_all add: cleanup_waits_def thread_acts_def)
  show ?thesis
  proof (cases "exec e a s")
    case (Next q t)
    then show ?thesis
      using no_stop_exec[OF a(1) Next] exec_threads(1)[OF Next] a h assms
      by (simp add: hal_step_def cleanup_waits_def thread_acts_def)
  next
    case (Finish n t)
    then have "cleanup_waits t" using cleanup_waits_ctrl[OF assms finish_quiet] by blast
    then show ?thesis using Finish h by (simp add: hal_step_def cleanup_waits_hal thread_acts_def)
  qed (use assms h in \<open>simp add: hal_step_def\<close>)
qed (use assms in \<open>auto simp: hal_step_def split: thread.splits list.splits\<close>)

definition from_daemon :: "ev \<Rightarrow> bool" where
  "from_daemon v = (case v of HalMnld _ \<Rightarrow> True | _ \<Rightarrow> False)"

interpretation cleanup_held: held_call e cleanup_waits "\<lambda>v. \<not> from_daemon v" for e :: "'d senv"
proof
  fix s :: "'d sess" and v
  show "fw s \<noteq> []" if "cleanup_waits s" using that by (auto simp: cleanup_waits_def)
  show "cleanup_waits (sess_step e v s)" if w: "cleanup_waits s" and v: "\<not> from_daemon v"
  proof -
    have st: "fw s \<noteq> []" using w by (auto simp: cleanup_waits_def)
    have ep: "cleanup_waits (epo_event e s)"
    proof -
      have "cleanup_waits (upd_epo e f s)" for f by (rule cleanup_waits_ctrl[OF w]) simp
      moreover have "cleanup_waits (release_condition M_THREAD_EXIT (s\<lparr>epo_threads := k\<rparr>))" for k
        using w by (simp add: cleanup_waits_def release_condition_def)
      ultimately show ?thesis using w by (simp add: epo_event_def)
    qed
    have ti: "cleanup_waits (s\<lparr>ep := p\<rparr>)" for p by (rule cleanup_waits_ctrl[OF w]) simp
    have nr: "cleanup_waits (s\<lparr>nread := k\<rparr>)" for k by (rule cleanup_waits_ctrl[OF w]) simp
    show ?thesis
      using w st ep ti nr v cleanup_waits_fw_step[OF w] cleanup_waits_hal_step[OF w]
      by (cases v) (simp_all add: fw_call_def from_daemon_def cleanup_waits_takes)
  qed
qed

text \<open>
  \<open>mtk_gps_cleanup\<close> during a session waits for the daemon to announce its end: without a message
  of the daemon it never returns, whatever else happens.  A daemon that died while \<open>mtk_gps_start\<close>
  was finishing has sent that message already, and the session counts as on.
\<close>

theorem cleanup_needs_daemon:
  assumes "\<not> crashed s" "fw s = []" "s_start_flag s \<noteq> 0" "locks s M_STOP = 0"
    and "list_all no_stop (thread_acts (hal s))" "list_all (\<lambda>v. \<not> from_daemon v) evs"
  shows "fw (sess_run e evs (sess_step e (FwCall CCleanup) s)) \<noteq> []"
proof (rule cleanup_held.never_returns[OF _ assms(6)])
  show "cleanup_waits (sess_step e (FwCall CCleanup) s)"
    using assms by (simp add: fw_call_def cleanup_waits_def mtk_gps_cleanup_def)
qed

lemma ctrlD:
  "ctrl t = c \<Longrightarrow> fw t = c_fw c" "ctrl t = c \<Longrightarrow> hal t = c_hal c" "ctrl t = c \<Longrightarrow> s_start_flag t = c_flag c"
  "ctrl t = c \<Longrightarrow> crashed t = c_crashed c" "ctrl t = c \<Longrightarrow> locks t = c_locks c" "ctrl t = c \<Longrightarrow> cbs t = c_cbs c"
  "ctrl t = c \<Longrightarrow> s_init t = c_init c" "ctrl t = c \<Longrightarrow> flag_unlock t = c_unlock c"
  by auto

lemma waiting_start_run:
  assumes "env_good e" "s_init s \<noteq> 0" "fw s = []" "\<not> crashed s" "s_start_flag s = 0"
    "hal s = Running []" "flag_unlock s = 0"
  shows "ctrl (sess_run e (start_events @ report_events reads) s) =
    (ctrl s)\<lparr>c_fw := drop 5 mtk_gps_start, c_locks := (locks s)(M_START := 0), c_unlock := 1\<rparr>"
proof -
  let ?t = "sess_run e start_events s"
  have c: "ctrl ?t = (ctrl s)\<lparr>c_fw := drop 4 mtk_gps_start\<rparr>"
    using assms by (intro start_run) simp_all
  note f = ctrlD[OF c]
  have "fw ?t = Get M_START # drop 5 mtk_gps_start" using f(1) by (simp add: mtk_gps_start_def)
  then show ?thesis
    using report_run[OF assms(1), of ?t "drop 5 mtk_gps_start" reads] c f assms
    by (simp add: sess_run_append)
qed

text \<open>The daemon dies after the first report, before the start has finished.\<close>

definition died_in_start :: "int sess" where
  "died_in_start =
     sess_run senv0 (start_events @ report_events [] @ (daemon_dies # replicate 8 HalStep)
       @ replicate 9 FwStep) initialised0"

lemma died_in_start_facts:
  "fw died_in_start = []" "hal died_in_start = Running []" "s_start_flag died_in_start = 1"
  "\<not> crashed died_in_start" "locks died_in_start M_STOP = 0"
  "cbs died_in_start = [SetCapabilities, StatusCb SESSION_END, StatusCb ENGINE_OFF, ReleaseWakelock,
     StatusCb ENGINE_ON, StatusCb SESSION_BEGIN, AcquireWakelock]"
proof -
  let ?u = "sess_run senv0 (start_events @ report_events []) initialised0"
  let ?v = "sess_run senv0 (daemon_dies # replicate 8 HalStep) ?u"
  have u: "ctrl ?u = (ctrl initialised0)\<lparr>c_fw := drop 5 mtk_gps_start,
      c_locks := (locks initialised0)(M_START := 0), c_unlock := 1\<rparr>"
    by (rule waiting_start_run[OF good0]) (simp_all add: initialised0_facts)
  note fu = ctrlD[OF u]
  have v: "ctrl ?v = (ctrl ?u)\<lparr>c_unlock := 0, c_sta := ENGINE_OFF, c_flag := 0,
      c_locks := (locks ?u)(M_STOP := 1),
      c_cbs := cbs ?u @ [StatusCb SESSION_END, StatusCb ENGINE_OFF, ReleaseWakelock]\<rparr>"
    using fu(2,4) by (intro death_run[OF good0]) (simp_all add: initialised0_facts)
  note fv = ctrlD[OF v]
  have w: "ctrl (sess_run senv0 (replicate 9 FwStep) ?v) =
    (ctrl ?v)\<lparr>c_fw := [], c_flag := 1, c_sta := SESSION_BEGIN,
      c_cbs := cbs ?v @ [StatusCb ENGINE_ON, StatusCb SESSION_BEGIN, AcquireWakelock],
      c_locks := (locks ?v)(M_STOP := (if locks ?v M_STOP = 1 then 0 else locks ?v M_STOP))\<rparr>"
    using fv(1,4) fu(1,4) by (intro finish_run[OF good0]) (simp_all add: initialised0_facts)
  have d: "died_in_start = sess_run senv0 (replicate 9 FwStep) ?v"
    by (simp add: died_in_start_def sess_run_def)
  show "fw died_in_start = []" "hal died_in_start = Running []" "s_start_flag died_in_start = 1"
    "\<not> crashed died_in_start" "locks died_in_start M_STOP = 0"
    "cbs died_in_start = [SetCapabilities, StatusCb SESSION_END, StatusCb ENGINE_OFF, ReleaseWakelock,
       StatusCb ENGINE_ON, StatusCb SESSION_BEGIN, AcquireWakelock]"
    unfolding d using ctrlD[OF w] fv fu by (simp_all add: initialised0_facts)
qed

theorem cleanup_needs_daemon_witness:
  "fw (sess_run senv0 (replicate 9 FwStep) (sess_step senv0 (FwCall CCleanup) died_in_start)) \<noteq> []"
  by (rule cleanup_needs_daemon)
    (simp_all add: died_in_start_facts thread_acts_def from_daemon_def numeral_eq_Suc)

end
