(* ===== verification/Gps_Order.thy ===== *)
theory Gps_Order
  imports Gps_Lifecycle
begin

text \<open>
  Two invariants of the GPS session: there is never more than one GPS thread with work left, and the
  framework is told of sessions in order as long as the daemon keeps to them.
\<close>

section \<open>One GPS thread\<close>

text \<open>A thread that is about to return does nothing any more.\<close>

definition active :: "thread \<Rightarrow> bool" where
  "active h = (case h of Running p \<Rightarrow> p \<noteq> [ThreadEnd] | _ \<Rightarrow> False)"

text \<open>The programs of the GPS thread end it in one way only.\<close>

fun inner_act :: "act \<Rightarrow> bool" where
  "inner_act (Release l) = (l \<noteq> M_CLEANUP)"
| "inner_act (TakeCommand c) = False"
| "inner_act ThreadStart = False"
| "inner_act ThreadEnd = False"
| "inner_act a = hal_act a"

definition hal_program :: "act list \<Rightarrow> bool" where
  "hal_program p =
     (list_all inner_act p \<or> (\<exists>c. p = [TakeCommand c]) \<or> p = [ThreadStart] \<or> p = [ThreadEnd]
      \<or> p = [Release M_CLEANUP, ThreadEnd])"

text \<open>The actions of the framework that have nothing to do with the thread's life.\<close>

fun plain :: "act \<Rightarrow> bool" where
  "plain StateInit = False"
| "plain SetInit = False"
| "plain DoneIfInit = False"
| "plain CloseState = False"
| "plain WaitStopIfStarted = False"
| "plain (Get l) = (l \<noteq> M_CLEANUP)"
| "plain (Release l) = (l \<noteq> M_CLEANUP)"
| "plain (ClearIfSet l) = (l \<noteq> M_CLEANUP)"
| "plain ThreadStart = False"
| "plain ThreadEnd = False"
| "plain (TakeCommand c) = False"
| "plain _ = True"

lemma plain_exec:
  assumes "plain a" "exec e a s = Next q t"
  shows "q = []" "s_init t = s_init s" "hal t = hal s" "locks t M_CLEANUP = locks s M_CLEANUP" "fw t = fw s"
proof -
  show "q = []"
    using assms by (cases a) (auto simp: exec.simps go_def send_eff_def split: if_splits option.splits)
  have "s_init t = s_init s \<and> hal t = hal s \<and> locks t M_CLEANUP = locks s M_CLEANUP"
  proof (cases "ctrl_act a")
    case True
    then show ?thesis
      using assms exec_ctrl(3,7)[OF True assms(2)]
      by (cases a) (auto simp: exec.simps go_def release_condition_def get_condition_def
          split: if_splits option.splits)
  next
    case False
    then have "ctrl t = ctrl s" using exec_quiet assms(2) by blast
    then show ?thesis using ctrl_eqD(2,5,8)[of t s] by simp
  qed
  then show "s_init t = s_init s" "hal t = hal s" "locks t M_CLEANUP = locks s M_CLEANUP" by simp_all
  show "fw t = fw s" using exec_threads[OF assms(2)] by simp
qed

definition at_rest :: "'d sess \<Rightarrow> bool" where
  "at_rest s = (\<not> active (hal s) \<and> locks s M_CLEANUP = 0)"

text \<open>Where the framework stands, and what it may rely on there.\<close>

definition st_idle :: "act list \<Rightarrow> bool" where
  "st_idle p =
     (list_all plain p
      \<or> p \<in> {mtk_gps_init, mtk_gps_cleanup, drop 1 mtk_gps_cleanup, drop 2 mtk_gps_cleanup,
             drop 3 mtk_gps_cleanup, Get M_STOP # drop 2 mtk_gps_cleanup})"

definition st_new :: "act list \<Rightarrow> bool" where
  "st_new p =
     (p \<in> {drop 1 mtk_gps_init, drop 2 mtk_gps_init, gps_state_done @ drop 3 mtk_gps_init,
          drop 1 gps_state_done @ drop 3 mtk_gps_init})"

definition st_woken :: "act list \<Rightarrow> bool" where
  "st_woken p = (p \<in> {drop 3 mtk_gps_init, drop 4 mtk_gps_init})"

definition st_done :: "act list \<Rightarrow> bool" where
  "st_done p =
     (p \<in> {gps_state_done @ drop 4 mtk_gps_cleanup, drop 1 gps_state_done @ drop 4 mtk_gps_cleanup})"

definition st_close :: "act list \<Rightarrow> bool" where
  "st_close p = (p = drop 2 gps_state_done @ drop 4 mtk_gps_cleanup)"

definition fw_stage :: "'d sess \<Rightarrow> bool" where
  "fw_stage s =
     (st_idle (fw s) \<and> (s_init s = 0 \<longrightarrow> at_rest s)
      \<or> st_new (fw s) \<and> s_init s = 0 \<and> at_rest s
      \<or> st_woken (fw s) \<and> s_init s = 0
      \<or> st_done (fw s) \<and> s_init s \<noteq> 0
      \<or> st_close (fw s) \<and> s_init s \<noteq> 0 \<and> at_rest s)"

definition one_thread :: "'d sess \<Rightarrow> bool" where
  "one_thread s =
     (hal_program (thread_acts (hal s)) \<and> (locks s M_CLEANUP \<noteq> 0 \<longrightarrow> \<not> active (hal s)) \<and> fw_stage s)"

lemma fw_stage_cong:
  assumes "fw t = fw s" "s_init t = s_init s" "at_rest s \<Longrightarrow> at_rest t" "fw_stage s"
  shows "fw_stage t"
  using assms(4) unfolding fw_stage_def assms(1,2) by (blast intro: assms(3))

lemma one_thread_same:
  assumes "one_thread s" "fw t = fw s" "hal t = hal s" "s_init t = s_init s"
    "locks t M_CLEANUP = locks s M_CLEANUP"
  shows "one_thread t"
  using assms fw_stage_cong[of t s] by (simp add: one_thread_def at_rest_def)

lemma one_thread_ctrl: "one_thread s \<Longrightarrow> ctrl t = ctrl s \<Longrightarrow> one_thread t"
  by (rule one_thread_same) (simp_all add: ctrl_def)

text \<open>A thread with work left may get another program; one that has ended stays so.\<close>

lemma one_thread_hal:
  assumes "one_thread s" "hal_program (thread_acts h)" "active h \<Longrightarrow> active (hal s)"
  shows "one_thread (s\<lparr>hal := h\<rparr>)"
proof -
  have i: "hal_program (thread_acts (hal s))" "locks s M_CLEANUP \<noteq> 0 \<Longrightarrow> \<not> active (hal s)" "fw_stage s"
    using assms(1) unfolding one_thread_def by blast+
  have r: "at_rest s \<Longrightarrow> at_rest (s\<lparr>hal := h\<rparr>)"
    using assms(3) unfolding at_rest_def by simp blast
  have "fw_stage (s\<lparr>hal := h\<rparr>)" by (rule fw_stage_cong[OF _ _ r i(3)]) simp_all
  moreover have "locks s M_CLEANUP \<noteq> 0 \<longrightarrow> \<not> active h" using i(2) assms(3) by blast
  ultimately show ?thesis using assms(2) by (simp add: one_thread_def)
qed

lemma exec_quiet_next: "exec e a s = Next q t \<Longrightarrow> \<not> ctrl_act a \<Longrightarrow> ctrl t = ctrl s"
  using exec_quiet by blast

lemma inner_exec:
  assumes "inner_act a" "exec e a s = Next q t"
  shows "q = [] \<and> s_init t = s_init s \<and> hal t = hal s \<and> locks t M_CLEANUP = locks s M_CLEANUP \<and> fw t = fw s"
proof -
  have h: "hal_act a" using assms(1) by (cases a) auto
  have q: "q = []"
    using assms by (cases a) (auto simp: exec.simps go_def send_eff_def split: if_splits option.splits)
  have l: "a \<noteq> Release M_CLEANUP" using assms(1) by (cases a) auto
  have f: "fw t = fw s" "s_init t = s_init s" "hal t = hal s" using hal_act_exec[OF h assms(2)] by blast+
  have "locks t M_CLEANUP = locks s M_CLEANUP" using hal_act_exec[OF h assms(2)] l by blast
  with q f show ?thesis by simp
qed

lemma one_thread_hal_step:
  assumes "one_thread s"
  shows "one_thread (hal_step e s)"
proof (cases "\<exists>a p. hal s = Running (a # p)")
  case True
  then obtain a p where h: "hal s = Running (a # p)" by blast
  have hp: "hal_program (a # p)" using assms h by (simp add: one_thread_def thread_acts_def)
  show ?thesis
  proof (cases "exec e a s")
    case (Finish n t)
    then have "one_thread t" using one_thread_ctrl[OF assms finish_quiet] by blast
    then have "one_thread (t\<lparr>hal := Exited\<rparr>)"
      by (rule one_thread_hal) (simp_all add: hal_program_def thread_acts_def active_def)
    then show ?thesis using Finish h by (simp add: hal_step_def)
  next
    case (Next q t)
    consider "inner_act a" "list_all inner_act p" | c where "a = TakeCommand c" "p = []"
      | "a = ThreadStart" "p = []" | "a = ThreadEnd" "p = []" | "a = Release M_CLEANUP" "p = [ThreadEnd]"
      using hp by (auto simp: hal_program_def)
    then show ?thesis
    proof cases
      case 1
      note x = inner_exec[OF 1(1) Next]
      have "active (hal s)" using h 1 by (auto simp: active_def)
      then show ?thesis
        using Next h x 1 one_thread_same[OF assms, of t] one_thread_hal[of t "Running p"]
        by (simp add: hal_step_def hal_program_def thread_acts_def)
    next
      case 2
      have c: "ctrl t = ctrl s" using exec_quiet_next[OF Next] 2 by simp
      have p: "hal_program q"
        using Next 2 by (auto simp: exec.simps take_command_def hal_program_def split: if_splits)
      have "active (hal t)" using h 2 c by (simp add: active_def ctrl_def)
      then show ?thesis
        using Next h 2 p one_thread_hal[OF one_thread_ctrl[OF assms c], of "Running q"]
        by (simp add: hal_step_def thread_acts_def)
    next
      case 3
      have c: "ctrl t = ctrl s" using exec_quiet_next[OF Next] 3 by simp
      have p: "hal_program q"
        using Next 3 by (auto simp: exec.simps thread_start_def Let_def hal_program_def split: if_splits)
      have "active (hal t)" using h 3 c by (simp add: active_def ctrl_def)
      then show ?thesis
        using Next h 3 p one_thread_hal[OF one_thread_ctrl[OF assms c], of "Running q"]
        by (simp add: hal_step_def thread_acts_def)
    next
      case 4
      then show ?thesis using Next by (simp add: exec.simps)
    next
      case 5
      have act: "active (hal s)" using h 5 by (simp add: active_def)
      then have "\<not> at_rest s" by (simp add: at_rest_def)
      then have "fw_stage t" if "fw t = fw s" "s_init t = s_init s" for t :: "'a sess"
        using assms that by (auto simp: one_thread_def fw_stage_def)
      then show ?thesis
        using Next h 5
        by (auto simp: hal_step_def exec.simps go_def release_condition_def one_thread_def thread_acts_def
            hal_program_def active_def)
    qed
  qed (use assms h in \<open>simp add: hal_step_def\<close>)
qed (use assms in \<open>auto simp: hal_step_def split: thread.splits list.splits\<close>)

lemma one_threadD:
  assumes "one_thread s"
  shows "hal_program (thread_acts (hal s))" "locks s M_CLEANUP \<noteq> 0 \<Longrightarrow> \<not> active (hal s)" "fw_stage s"
  using assms by (simp_all add: one_thread_def)

text \<open>A step of the framework that leaves the thread alone moves it to another stage.\<close>

lemma one_thread_move:
  assumes "one_thread s" "hal t = hal s" "locks t M_CLEANUP = locks s M_CLEANUP" "fw_stage t"
  shows "one_thread t"
  using assms by (simp add: one_thread_def)

lemma at_rest_same: "hal t = hal s \<Longrightarrow> locks t M_CLEANUP = locks s M_CLEANUP \<Longrightarrow> at_rest t = at_rest s"
  by (simp add: at_rest_def)

lemma idle_plain: "list_all plain p \<Longrightarrow> st_idle p"
  by (simp add: st_idle_def)

text \<open>The first action of an idle program: plain, or one of those that look at the life of the thread.\<close>

lemma idle_cases:
  assumes "st_idle (a # p)"
  obtains (plain) "plain a" "st_idle p"
    | (init) "a = CheckNotInit" "a # p = mtk_gps_init"
    | (wait) "a = WaitStopIfStarted" "p = drop 2 mtk_gps_cleanup"
    | (leave) "a = DoneIfInit" "p = drop 4 mtk_gps_cleanup"
proof -
  consider "list_all plain (a # p)" | "a # p = mtk_gps_init" | "a # p = mtk_gps_cleanup"
    | "a # p = drop 1 mtk_gps_cleanup" | "a # p = drop 2 mtk_gps_cleanup"
    | "a # p = drop 3 mtk_gps_cleanup" | "a # p = Get M_STOP # drop 2 mtk_gps_cleanup"
    using assms unfolding st_idle_def by blast
  then show thesis
  proof cases
    case 1
    show thesis by (rule plain) (use 1 in \<open>simp_all add: idle_plain\<close>)
  next
    case 2
    show thesis by (rule init) (use 2 in \<open>simp_all add: mtk_gps_init_def\<close>)
  next
    case 3
    then have "a = CleanupDaemon" "p = drop 1 mtk_gps_cleanup" by (simp_all add: mtk_gps_cleanup_def)
    then show thesis by (intro plain) (simp_all add: st_idle_def)
  next
    case 4
    show thesis by (rule wait) (use 4 in \<open>simp_all add: mtk_gps_cleanup_def\<close>)
  next
    case 5
    then have "a = ClearIfSet M_STOP" "p = drop 3 mtk_gps_cleanup" by (simp_all add: mtk_gps_cleanup_def)
    then show thesis by (intro plain) (simp_all add: st_idle_def)
  next
    case 6
    show thesis by (rule leave) (use 6 in \<open>simp_all add: mtk_gps_cleanup_def\<close>)
  next
    case 7
    then show thesis by (intro plain) (simp_all add: st_idle_def)
  qed
qed

lemma idle_fw_step:
  assumes "one_thread s" "fw s = a # p" "st_idle (a # p)" "s_init s = 0 \<Longrightarrow> at_rest s"
  shows "one_thread (fw_step e s)"
  using assms(3)
proof (cases rule: idle_cases)
  case plain
  show ?thesis
  proof (cases "exec e a s")
    case (Next q t)
    note x = plain_exec[OF plain(1) Next]
    have "fw_stage (t\<lparr>fw := p\<rparr>)"
      using plain(2) x assms(4) by (simp add: fw_stage_def at_rest_def)
    then have "one_thread (t\<lparr>fw := p\<rparr>)" using x by (intro one_thread_move[OF assms(1)]) simp_all
    then show ?thesis using Next x assms(2) by (simp add: fw_step_def)
  next
    case (Finish n t)
    note c = ctrl_eqD[OF finish_quiet[OF Finish]]
    have "fw_stage (t\<lparr>fw := [], fw_ret := Some n\<rparr>)"
      using c assms(4) by (simp add: fw_stage_def idle_plain at_rest_def)
    then have "one_thread (t\<lparr>fw := [], fw_ret := Some n\<rparr>)"
      using c by (intro one_thread_move[OF assms(1)]) simp_all
    then show ?thesis using Finish assms(2) by (simp add: fw_step_def)
  qed (use assms in \<open>simp add: fw_step_def\<close>)
next
  case init
  have p: "p = drop 1 mtk_gps_init" using init(2) by (simp add: mtk_gps_init_def)
  have "fw_stage (fw_step e s)"
    using assms(2,4) init(1) p
    by (auto simp: fw_step_def exec.simps go_def fw_stage_def idle_plain st_new_def at_rest_def)
  then show ?thesis
    using init(1) assms(1,2)
    by (intro one_thread_move[OF assms(1)]) (auto simp: fw_step_def exec.simps go_def)
next
  case wait
  have "fw_stage (fw_step e s)"
    using assms(2,4) wait
    by (auto simp: fw_step_def exec.simps fw_stage_def st_idle_def at_rest_def)
  then show ?thesis
    using wait assms(2) by (intro one_thread_move[OF assms(1)]) (auto simp: fw_step_def exec.simps)
next
  case leave
  have "list_all plain p" using leave(2) by (simp add: mtk_gps_cleanup_def)
  then have "fw_stage (fw_step e s)"
    using assms(2,4) leave
    by (auto simp: fw_step_def exec.simps fw_stage_def idle_plain st_done_def at_rest_def)
  then show ?thesis
    using leave assms(2) by (intro one_thread_move[OF assms(1)]) (auto simp: fw_step_def exec.simps)
qed

lemma gps_state_init_cases:
  assumes "gps_state_init e s = Some (p, t)"
  shows "locks t = locks s" "s_init t = s_init s" "fw t = fw s"
    "p = [] \<and> (hal t = hal s \<or> hal t = Running [ThreadStart]) \<or> p = gps_state_done \<and> hal t = hal s"
  using assms by (auto simp: gps_state_init_def Let_def set_agps_def split: if_splits outcome.splits)

lemma new_fw_step:
  assumes "one_thread s" "st_new (fw s)" "s_init s = 0" "at_rest s"
  shows "one_thread (fw_step e s)"
proof -
  consider "fw s = CopyCallbacks # drop 2 mtk_gps_init" | "fw s = StateInit # drop 3 mtk_gps_init"
    | "fw s = WriteQuit # drop 1 gps_state_done @ drop 3 mtk_gps_init"
    | p where "fw s = Get M_CLEANUP # p"
    using assms(2) by (auto simp: st_new_def mtk_gps_init_def gps_state_done_def)
  then show ?thesis
  proof cases
    case 1
    have "fw_stage (fw_step e s)"
      using 1 assms(3,4) by (simp add: fw_step_def exec.simps go_def fw_stage_def idle_plain st_new_def at_rest_def)
    then show ?thesis
      using 1 by (intro one_thread_move[OF assms(1)]) (simp_all add: fw_step_def exec.simps go_def)
  next
    case 2
    show ?thesis
    proof (cases "gps_state_init e s")
      case None
      then show ?thesis using 2 assms by (simp add: fw_step_def exec.simps)
    next
      case (Some r)
      then obtain p t where r: "gps_state_init e s = Some (p, t)" by (cases r) simp
      note x = gps_state_init_cases[OF r]
      let ?u = "t\<lparr>fw := p @ drop 3 mtk_gps_init\<rparr>"
      have u: "fw_step e s = ?u" using 2 r by (simp add: fw_step_def exec.simps)
      have l: "locks s M_CLEANUP = 0" "\<not> active (hal s)" using assms(4) by (simp_all add: at_rest_def)
      have h: "hal_program (thread_acts (hal ?u))"
        using x(4) one_threadD(1)[OF assms(1)] by (auto simp: hal_program_def thread_acts_def)
      have "fw_stage ?u"
        using x(4)
      proof
        assume "p = [] \<and> (hal t = hal s \<or> hal t = Running [ThreadStart])"
        then show ?thesis using x(2) assms(3) by (simp add: fw_stage_def st_woken_def)
      next
        assume "p = gps_state_done \<and> hal t = hal s"
        then show ?thesis using x(1,2) assms(3) l by (simp add: fw_stage_def st_new_def at_rest_def)
      qed
      then show ?thesis using h l x(1) by (simp add: u one_thread_def)
    qed
  next
    case 3
    have "fw_stage (fw_step e s)"
      using 3 assms(3,4)
      by (simp add: fw_step_def exec.simps go_def fw_stage_def st_new_def at_rest_def)
    then show ?thesis
      using 3 by (intro one_thread_move[OF assms(1)]) (simp_all add: fw_step_def exec.simps go_def)
  next
    case 4
    then show ?thesis using assms by (simp add: fw_step_def exec.simps get_condition_def at_rest_def)
  qed
qed

lemma woken_fw_step:
  assumes "one_thread s" "st_woken (fw s)" "s_init s = 0"
  shows "one_thread (fw_step e s)"
proof -
  consider "fw s = Get M_INIT # drop 4 mtk_gps_init" | "fw s = SetInit # drop 5 mtk_gps_init"
    using assms(2) by (auto simp: st_woken_def mtk_gps_init_def)
  then show ?thesis
  proof cases
    case 1
    have "fw_stage (fw_step e s)"
      using 1 assms(3) one_threadD(3)[OF assms(1)]
      by (auto simp: fw_step_def exec.simps go_def get_condition_def fw_stage_def st_woken_def)
    then show ?thesis
      using 1 by (intro one_thread_move[OF assms(1)]) (simp_all add: fw_step_def exec.simps go_def get_condition_def)
  next
    case 2
    have "list_all plain (drop 5 mtk_gps_init)" by (simp add: mtk_gps_init_def)
    then have "fw_stage (fw_step e s)"
      using 2 by (simp add: fw_step_def exec.simps go_def fw_stage_def idle_plain)
    then show ?thesis
      using 2 by (intro one_thread_move[OF assms(1)]) (simp_all add: fw_step_def exec.simps go_def)
  qed
qed

lemma done_fw_step:
  assumes "one_thread s" "st_done (fw s)" "s_init s \<noteq> 0"
  shows "one_thread (fw_step e s)"
proof -
  consider "fw s = WriteQuit # drop 1 gps_state_done @ drop 4 mtk_gps_cleanup"
    | "fw s = Get M_CLEANUP # drop 2 gps_state_done @ drop 4 mtk_gps_cleanup"
    using assms(2) by (auto simp: st_done_def gps_state_done_def)
  then show ?thesis
  proof cases
    case 1
    have "fw_stage (fw_step e s)"
      using 1 assms(3) by (simp add: fw_step_def exec.simps go_def fw_stage_def st_done_def)
    then show ?thesis
      using 1 by (intro one_thread_move[OF assms(1)]) (simp_all add: fw_step_def exec.simps go_def)
  next
    case 2
    show ?thesis
    proof (cases "locks s M_CLEANUP = 0")
      case True
      then show ?thesis using 2 assms by (simp add: fw_step_def exec.simps get_condition_def)
    next
      case False
      then have "\<not> active (hal s)" by (rule one_threadD(2)[OF assms(1)])
      then show ?thesis
        using 2 False assms(3) one_threadD(1)[OF assms(1)]
        by (simp add: fw_step_def exec.simps go_def get_condition_def one_thread_def fw_stage_def st_close_def
            at_rest_def)
    qed
  qed
qed

lemma close_fw_step:
  assumes "one_thread s" "st_close (fw s)" "at_rest s"
  shows "one_thread (fw_step e s)"
proof -
  have p: "fw s = CloseState # drop 4 mtk_gps_cleanup"
    using assms(2) by (simp add: st_close_def gps_state_done_def)
  have "list_all plain (drop 4 mtk_gps_cleanup)" by (simp add: mtk_gps_cleanup_def)
  then have "fw_stage (fw_step e s)"
    using p assms(3) by (simp add: fw_step_def exec.simps go_def fw_stage_def idle_plain at_rest_def)
  then show ?thesis
    using p by (intro one_thread_move[OF assms(1)]) (simp_all add: fw_step_def exec.simps go_def)
qed

lemma one_thread_fw_step:
  assumes "one_thread s"
  shows "one_thread (fw_step e s)"
proof (cases "fw s")
  case Nil
  then show ?thesis using assms by (simp add: fw_step_def)
next
  case (Cons a p)
  then show ?thesis
    using one_threadD(3)[OF assms] idle_fw_step[OF assms Cons] new_fw_step[OF assms]
      woken_fw_step[OF assms] done_fw_step[OF assms] close_fw_step[OF assms]
    unfolding fw_stage_def by metis
qed

lemma program_stage: "st_idle (program k)"
  by (cases k) (simp_all add: st_idle_def mtk_gps_start_def mtk_gps_stop_def)

lemma one_thread_call:
  assumes "one_thread s"
  shows "one_thread (fw_call e k s)"
proof (cases "fw s = [] \<and> (\<forall>d. k \<noteq> CDirect d)")
  case True
  have "s_init s = 0 \<longrightarrow> at_rest s"
    using one_threadD(3)[OF assms] True
    by (auto simp: fw_stage_def st_new_def st_woken_def st_done_def st_close_def mtk_gps_init_def gps_state_done_def)
  then have "fw_stage (s\<lparr>fw := program k, fw_ret := None\<rparr>)"
    by (simp add: fw_stage_def program_stage at_rest_def)
  then have "one_thread (s\<lparr>fw := program k, fw_ret := None\<rparr>)"
    by (intro one_thread_move[OF assms]) simp_all
  then show ?thesis using True by (cases k) (simp_all add: fw_call_def)
next
  case False
  have "one_thread (t\<lparr>fw_ret := r\<rparr>)" if "direct e d s = Some (n, t)" for d n t r
    using ctrl_direct[OF that] by (intro one_thread_ctrl[OF assms]) simp
  then show ?thesis using assms False by (cases k) (auto simp: fw_call_def split: option.splits)
qed

lemma one_thread_takes:
  "one_thread s \<Longrightarrow> hal_program p \<Longrightarrow> one_thread (hal_takes p s)"
  by (simp add: hal_takes_def hal_idle_def one_thread_hal thread_acts_def active_def)

lemma hal_programs [simp]:
  "hal_program (gps_event r s)" "hal_program (codec_event m s)" "hal_program [AtRead ds]"
  "hal_program [TakeCommand c]" "hal_program [Release M_CLEANUP, ThreadEnd]" "hal_program die_acts"
  "hal_program (icon_acts a b)" "hal_program [Call x]" "hal_program []" "hal_program [UnlinkEpoHal]"
  "hal_program [SendLocation]"
  by (simp_all add: hal_program_def gps_event_def codec_event_def die_acts_def icon_acts_def
      split: codec_msg.splits option.splits)

lemma hal_program_handler: "mnld_to_gps_handler e bs s = Some p \<Longrightarrow> hal_program p"
  by (drule handler_shape) auto

lemma one_thread_mnld:
  assumes "one_thread s" "hal_idle s"
  shows "one_thread (mnld_event e r s)"
proof -
  have act: "active (hal s)" using assms(2) by (simp add: hal_idle_def active_def)
  have er: "one_thread (s\<lparr>hal_errno := z\<rparr>)" for z by (rule one_thread_ctrl[OF assms(1)]) simp
  have "one_thread (s\<lparr>hal := Stuck\<rparr>)"
    by (rule one_thread_hal[OF assms(1)]) (simp_all add: hal_program_def thread_acts_def active_def)
  moreover have "one_thread (s\<lparr>hal_errno := z, hal := Running p\<rparr>)" if "hal_program p" for z p
    using one_thread_hal[OF er, of "Running p" z] that act by (simp add: thread_acts_def)
  moreover have "one_thread (s\<lparr>crashed := b\<rparr>)" for b by (rule one_thread_same[OF assms(1)]) simp_all
  ultimately show ?thesis
    by (auto simp: mnld_event_def dest: hal_program_handler split: option.splits prod.splits)
qed

lemma one_thread_epo:
  assumes "one_thread s"
  shows "one_thread (epo_event e s)"
proof -
  have "one_thread (upd_epo e f s)" for f by (rule one_thread_ctrl[OF assms]) simp
  moreover have "one_thread (release_condition M_THREAD_EXIT (s\<lparr>epo_threads := k\<rparr>))" for k
    by (rule one_thread_same[OF assms]) (simp_all add: release_condition_def)
  ultimately show ?thesis using assms by (simp add: epo_event_def)
qed

lemma one_thread_step:
  assumes "one_thread s"
  shows "one_thread (sess_step e v s)"
proof -
  have "one_thread (s\<lparr>nread := k\<rparr>)" "one_thread (s\<lparr>ep := p\<rparr>)" for k p
    by (rule one_thread_ctrl[OF assms], simp)+
  then show ?thesis
    using assms
    by (cases v)
      (simp_all add: one_thread_call one_thread_fw_step one_thread_hal_step one_thread_takes one_thread_mnld
        one_thread_epo)
qed

lemma one_thread_reach: "reach e s \<Longrightarrow> one_thread s"
proof (induction rule: reach.induct)
  case sess_first
  show ?case
    by (simp add: one_thread_def hal_program_def thread_acts_def active_def fw_stage_def idle_plain at_rest_def
        sess0_def)
next
  case (sess_next s v)
  then show ?case using one_thread_step by blast
qed

text \<open>
  C19: There is never a second GPS thread: whenever the framework is about to create one, none has been
  created, or the last one has returned or does nothing but return.
\<close>

theorem one_gps_thread:
  assumes "reach e s" "fw s = StateInit # p"
  shows "\<not> active (hal s)"
proof -
  have "fw_stage s" by (rule one_threadD(3)[OF one_thread_reach[OF assms(1)]])
  then show ?thesis
    using assms(2)
    by (auto simp: fw_stage_def st_idle_def st_new_def st_woken_def st_done_def st_close_def at_rest_def
        mtk_gps_init_def mtk_gps_cleanup_def gps_state_done_def)
qed

theorem one_gps_thread_witness:
  "\<not> active (hal (sess_run senv0 [FwCall CInit, FwStep, FwStep] start0))"
proof (rule one_gps_thread)
  show "reach senv0 (sess_run senv0 [FwCall CInit, FwStep, FwStep] start0)"
    by (rule reach_run[OF reach_start0])
  have "cevs_of senv0 [FwCall CInit, FwStep, FwStep] start0 = [XCall CInit, XFw, XFw]" by simp
  then have "ctrl (sess_run senv0 [FwCall CInit, FwStep, FwStep] start0) =
      (ctrl start0)\<lparr>c_fw := drop 2 mtk_gps_init\<rparr>"
    by (simp add: run_refines[OF good0] start0_ctrl control_steps mtk_gps_init_def)
  from ctrlD(1)[OF this]
  show "fw (sess_run senv0 [FwCall CInit, FwStep, FwStep] start0) = StateInit # drop 3 mtk_gps_init"
    by (simp add: mtk_gps_init_def)
qed

section \<open>The order of the reports\<close>

text \<open>The callbacks that tell of a session: its status and the wakelock.\<close>

fun session_cb :: "cb \<Rightarrow> bool" where
  "session_cb (StatusCb st) = True"
| "session_cb AcquireWakelock = True"
| "session_cb ReleaseWakelock = True"
| "session_cb _ = False"

definition life :: "'d sess \<Rightarrow> cb list" where
  "life s = filter session_cb (cbs s)"

definition session_up :: "cb list" where
  "session_up = [StatusCb ENGINE_ON, StatusCb SESSION_BEGIN, AcquireWakelock]"

definition session_down :: "cb list" where
  "session_down = [StatusCb SESSION_END, StatusCb ENGINE_OFF, ReleaseWakelock]"

definition sessions :: "nat \<Rightarrow> cb list" where
  "sessions n = concat (replicate n (session_up @ session_down))"

text \<open>What a program has left to tell when the global \<open>sta\<close> is \<open>st\<close>.\<close>

fun due :: "gps_status \<Rightarrow> act list \<Rightarrow> cb list" where
  "due st [] = []"
| "due st (SetSta x # p) = due x p"
| "due st (ReportSta # p) = StatusCb st # due st p"
| "due st (Call c # p) = (if session_cb c then c # due st p else due st p)"
| "due st (_ # p) = due st p"

fun quiet :: "act \<Rightarrow> bool" where
  "quiet (Call c) = (\<not> session_cb c)"
| "quiet (SetSta x) = False"
| "quiet ReportSta = False"
| "quiet (SetStartFlag n) = False"
| "quiet _ = True"

lemma quiet_exec:
  assumes "quiet a" "exec e a s = Next q t"
  shows "list_all quiet q" "s_start_flag t = s_start_flag s" "sta t = sta s" "life t = life s"
    "fw t = fw s" "hal t = hal s \<or> hal t = Running [ThreadStart]"
proof -
  show "list_all quiet q"
    using assms
    by (cases a)
      (auto simp: exec.simps go_def send_eff_def take_command_def thread_start_def Let_def
        gps_state_done_def gps_state_init_def split: if_splits option.splits prod.splits outcome.splits)
  have "s_start_flag t = s_start_flag s \<and> sta t = sta s \<and> life t = life s"
  proof (cases "ctrl_act a")
    case True
    then show ?thesis
      using assms exec_ctrl(4-6)[OF True assms(2)]
      by (cases a) (auto simp: life_def exec.simps go_def)
  next
    case False
    then have "ctrl t = ctrl s" using exec_quiet assms(2) by blast
    then show ?thesis using ctrl_eqD(3,6,7)[of t s] by (simp add: life_def)
  qed
  then show "s_start_flag t = s_start_flag s" "sta t = sta s" "life t = life s" by simp_all
  show "fw t = fw s" "hal t = hal s \<or> hal t = Running [ThreadStart]"
    using exec_threads[OF assms(2)] by simp_all
qed

text \<open>
  An event keeps the order unless it is a message of the daemon that tells the framework of a session at
  the wrong time.  The icon messages do whenever they do anything, that is with status 0 or 1 while \<open>started\<close>
  is 0.  The end of the daemon does while the session flag is not 1: before a session, after one, and
  while \<open>mtk_gps_start\<close> is still telling of one, as in \<open>died_in_start\<close>.
\<close>

definition calm :: "'d senv \<Rightarrow> ev \<Rightarrow> 'd sess \<Rightarrow> bool" where
  "calm e v s =
     (case cev_of e v s of
        XTake p \<Rightarrow> from_daemon v \<and> ReportSta \<in> set p \<longrightarrow> p = die_acts \<and> s_start_flag s = 1
      | _ \<Rightarrow> True)"

inductive orderly :: "'d senv \<Rightarrow> 'd sess \<Rightarrow> bool" for e where
  orderly_first: "orderly e (sess0 (nmea_reader_init (sg e) (at_init agps0)) epo_st0)"
| orderly_next: "orderly e s \<Longrightarrow> calm e v s \<Longrightarrow> orderly e (sess_step e v s)"

text \<open>
  Three phases: nobody tells anything; the framework's thread is starting a session; the GPS thread
  is ending one.
\<close>

definition fw_quiet :: "act list \<Rightarrow> bool" where
  "fw_quiet p = (list_all quiet p \<or> p = mtk_gps_start \<or> p = drop 1 mtk_gps_start)"

definition phase_rest :: "'d sess \<Rightarrow> bool" where
  "phase_rest s =
     (fw_quiet (fw s) \<and> list_all quiet (thread_acts (hal s))
      \<and> (s_start_flag s = 0 \<and> (\<exists>n. life s = sessions n)
         \<or> s_start_flag s = 1 \<and> (\<exists>n. life s = sessions n @ session_up)))"

definition phase_start :: "'d sess \<Rightarrow> bool" where
  "phase_start s =
     ((\<exists>k \<in> {2..12}. fw s = drop k mtk_gps_start) \<and> list_all quiet (thread_acts (hal s))
      \<and> s_start_flag s = 0 \<and> (\<exists>n. life s @ due (sta s) (fw s) = sessions n @ session_up))"

definition phase_end :: "'d sess \<Rightarrow> bool" where
  "phase_end s =
     (fw_quiet (fw s) \<and> s_start_flag s = 1
      \<and> (\<exists>k < 8. hal s = Running (drop k die_acts)
          \<and> (\<exists>n. life s @ due (sta s) (drop k die_acts) = sessions n @ session_up @ session_down)))"

definition in_order :: "'d sess \<Rightarrow> bool" where
  "in_order s = (phase_rest s \<or> phase_start s \<or> phase_end s)"

lemma sessions_Suc: "sessions (Suc n) = sessions n @ session_up @ session_down"
  by (simp add: sessions_def replicate_append_same[symmetric])

text \<open>Events that leave the two programs, the flag, \<open>sta\<close> and the callbacks alone keep the order.\<close>

lemma in_order_same:
  assumes "in_order s" "fw t = fw s" "hal t = hal s" "s_start_flag t = s_start_flag s" "sta t = sta s"
    "cbs t = cbs s"
  shows "in_order t"
  using assms by (simp add: in_order_def phase_rest_def phase_start_def phase_end_def life_def)

lemma orderly_reach: "orderly e s \<Longrightarrow> reach e s"
proof (induction rule: orderly.induct)
  case orderly_first
  show ?case by (rule sess_first)
next
  case (orderly_next s v)
  then show ?case using sess_next by blast
qed

lemma quiet_finish:
  assumes "exec e a s = Finish n t"
  shows "sta t = sta s \<and> life t = life s \<and> s_start_flag t = s_start_flag s \<and> fw t = fw s \<and> hal t = hal s"
  using ctrl_eqD[OF finish_quiet[OF assms]] by (simp add: life_def)

text \<open>Quiet steps of the GPS thread, outside the phase in which it ends a session.\<close>

lemma quiet_hal_step:
  assumes "list_all quiet (thread_acts (hal s))"
  shows "list_all quiet (thread_acts (hal (hal_step e s))) \<and> s_start_flag (hal_step e s) = s_start_flag s
    \<and> sta (hal_step e s) = sta s \<and> life (hal_step e s) = life s \<and> fw (hal_step e s) = fw s"
proof (cases "\<exists>a p. hal s = Running (a # p)")
  case True
  then obtain a p where h: "hal s = Running (a # p)" by blast
  then have a: "quiet a" "list_all quiet p" using assms by (simp_all add: thread_acts_def)
  show ?thesis
  proof (cases "exec e a s")
    case (Next q t)
    then show ?thesis
      using quiet_exec[OF a(1) Next] a(2) h by (simp add: hal_step_def thread_acts_def life_def)
  next
    case (Finish n t)
    then show ?thesis
      using quiet_finish[OF Finish] h by (simp add: hal_step_def thread_acts_def life_def)
  qed (use assms h in \<open>simp add: hal_step_def\<close>)
qed (use assms in \<open>auto simp: hal_step_def split: thread.splits list.splits\<close>)

lemma die_cases:
  assumes "k < 8"
  obtains "drop k die_acts = SetFlagUnlock 0 # drop (Suc k) die_acts" "k \<noteq> 7"
    | x where "drop k die_acts = SetSta x # drop (Suc k) die_acts" "k \<noteq> 7"
    | "drop k die_acts = ReportSta # drop (Suc k) die_acts" "k \<noteq> 7"
    | "drop k die_acts = Release M_STOP # drop (Suc k) die_acts" "k \<noteq> 7"
    | "drop k die_acts = Call ReleaseWakelock # drop (Suc k) die_acts" "k \<noteq> 7"
    | "drop k die_acts = [SetStartFlag 0]" "k = 7"
proof -
  have "k \<in> {0, 1, 2, 3, 4, 5, 6, 7}" using assms by auto
  then show thesis using that by (auto simp: die_acts_def)
qed

lemma end_hal_step:
  assumes "phase_end s"
  shows "in_order (hal_step e s)"
proof -
  obtain k n where k: "k < 8" "hal s = Running (drop k die_acts)"
    "life s @ due (sta s) (drop k die_acts) = sessions n @ session_up @ session_down"
    and f: "fw_quiet (fw s)" "s_start_flag s = 1"
    using assms by (auto simp: phase_end_def)
  let ?t = "hal_step e s"
  have go_on: "phase_end ?t \<or> phase_rest ?t"
    if "hal ?t = Running (drop (Suc k) die_acts)" "k \<noteq> 7"
      "life ?t @ due (sta ?t) (drop (Suc k) die_acts) = sessions n @ session_up @ session_down"
      "fw ?t = fw s" "s_start_flag ?t = s_start_flag s"
  proof -
    have "Suc k < 8" using k(1) that(2) by simp
    then show ?thesis using that f unfolding phase_end_def by metis
  qed
  have s7: "drop 8 die_acts = []" by (simp add: die_acts_def)
  show ?thesis
    using k(1)
  proof (cases rule: die_cases)
    case 1
    then show ?thesis
      using k go_on by (auto simp: in_order_def hal_step_def exec.simps go_def life_def)
  next
    case (2 x)
    then show ?thesis
      using k go_on by (auto simp: in_order_def hal_step_def exec.simps go_def life_def)
  next
    case 3
    then show ?thesis
      using k go_on by (auto simp: in_order_def hal_step_def exec.simps go_def life_def)
  next
    case 4
    then show ?thesis
      using k go_on by (auto simp: in_order_def hal_step_def exec.simps go_def life_def release_condition_def)
  next
    case 5
    then show ?thesis
      using k go_on by (auto simp: in_order_def hal_step_def exec.simps go_def life_def)
  next
    case 6
    have "life ?t = sessions (Suc n)"
      using k 6 by (simp add: hal_step_def exec.simps go_def life_def sessions_Suc)
    then have "phase_rest ?t"
      using k 6 f by (auto simp: hal_step_def exec.simps go_def phase_rest_def thread_acts_def)
    then show ?thesis by (simp add: in_order_def)
  qed
qed

lemma exec_hal: "exec e a s = Next q t \<Longrightarrow> a \<noteq> StateInit \<Longrightarrow> hal t = hal s"
  using exec_ctrl(3) exec_quiet_next ctrl_eqD(2) by (metis (full_types))

lemma quiet_thread [simp]: "list_all quiet (thread_acts (Running [ThreadStart]))"
  by (simp add: thread_acts_def)

lemma fw_quiet_cases:
  assumes "fw_quiet (a # p)"
  obtains "quiet a" "list_all quiet p" | "a = CheckInit" "p = drop 1 mtk_gps_start"
    | "a = WaitWhileStartFlag 1" "p = drop 2 mtk_gps_start"
proof -
  consider "list_all quiet (a # p)" | "a # p = mtk_gps_start" | "a # p = drop 1 mtk_gps_start"
    using assms unfolding fw_quiet_def by blast
  then show thesis by cases (use that in \<open>simp_all add: mtk_gps_start_def\<close>)
qed

lemma rest_fw_step:
  assumes "phase_rest s"
  shows "in_order (fw_step e s)"
proof (cases "fw s")
  case Nil
  then show ?thesis using assms by (simp add: fw_step_def in_order_def)
next
  case (Cons a p)
  have f: "fw_quiet (a # p)" and h: "list_all quiet (thread_acts (hal s))"
    and l: "s_start_flag s = 0 \<and> (\<exists>n. life s = sessions n) \<or> s_start_flag s = 1 \<and> (\<exists>n. life s = sessions n @ session_up)"
    using assms Cons by (simp_all add: phase_rest_def)
  show ?thesis
    using f
  proof (cases rule: fw_quiet_cases)
    case 1
    show ?thesis
    proof (cases "exec e a s")
      case (Next q t)
      note x = quiet_exec[OF 1(1) Next]
      have "phase_rest (t\<lparr>fw := q @ p\<rparr>)"
        using x(1-4,6) 1(2) h l by (auto simp: phase_rest_def fw_quiet_def life_def)
      then show ?thesis using Next Cons by (simp add: fw_step_def in_order_def)
    next
      case (Finish n t)
      have "phase_rest (t\<lparr>fw := [], fw_ret := Some n\<rparr>)"
        using quiet_finish[OF Finish] h l by (simp add: phase_rest_def fw_quiet_def life_def)
      then show ?thesis using Finish Cons by (simp add: fw_step_def in_order_def)
    qed (use assms Cons in \<open>simp add: fw_step_def in_order_def\<close>)
  next
    case 2
    then have "phase_rest (fw_step e s)"
      using Cons h l by (simp add: fw_step_def exec.simps go_def phase_rest_def fw_quiet_def life_def)
    then show ?thesis by (simp add: in_order_def)
  next
    case 3
    have d: "due st (drop 2 mtk_gps_start) = session_up" for st
      by (simp add: mtk_gps_start_def session_up_def)
    show ?thesis
    proof (cases "s_start_flag s = 1")
      case True
      then show ?thesis using assms Cons 3 by (simp add: fw_step_def exec.simps in_order_def)
    next
      case False
      then obtain n where "s_start_flag s = 0" "life s = sessions n" using l by auto
      then have "phase_start (fw_step e s)"
        using Cons 3 h False d
        by (auto simp: fw_step_def exec.simps go_def phase_start_def life_def intro!: bexI[of _ 2])
      then show ?thesis by (simp add: in_order_def)
    qed
  qed
qed

lemma end_fw_step:
  assumes "phase_end s" "one_thread s"
  shows "in_order (fw_step e s)"
proof (cases "fw s")
  case Nil
  then show ?thesis using assms by (simp add: fw_step_def in_order_def)
next
  case (Cons a p)
  obtain k n where k: "k < 8" "hal s = Running (drop k die_acts)"
    "life s @ due (sta s) (drop k die_acts) = sessions n @ session_up @ session_down"
    and f: "fw_quiet (a # p)" "s_start_flag s = 1"
    using assms(1) Cons by (auto simp: phase_end_def)
  have keep: "phase_end t" if "hal t = hal s" "life t = life s" "sta t = sta s" "s_start_flag t = s_start_flag s"
    "fw_quiet (fw t)" for t :: "'a sess"
    using that k f(2) unfolding phase_end_def by metis
  have "drop k die_acts \<noteq> [ThreadEnd]" using k(1) by (cases rule: die_cases) simp_all
  then have act: "active (hal s)" using k(2) by (simp add: active_def)
  have a: "a \<noteq> StateInit"
    using one_threadD(3)[OF assms(2)] act Cons
    by (auto simp: fw_stage_def st_idle_def st_new_def st_woken_def st_done_def st_close_def at_rest_def
        mtk_gps_init_def mtk_gps_cleanup_def gps_state_done_def)
  show ?thesis
    using f(1)
  proof (cases rule: fw_quiet_cases)
    case 1
    show ?thesis
    proof (cases "exec e a s")
      case (Next q t)
      note x = quiet_exec[OF 1(1) Next] exec_hal[OF Next a]
      have "phase_end (t\<lparr>fw := q @ p\<rparr>)"
        using x 1(2) by (intro keep) (simp_all add: fw_quiet_def life_def)
      then show ?thesis using Next Cons by (simp add: fw_step_def in_order_def)
    next
      case (Finish n t)
      have "phase_end (t\<lparr>fw := [], fw_ret := Some n\<rparr>)"
        using quiet_finish[OF Finish] by (intro keep) (simp_all add: fw_quiet_def life_def)
      then show ?thesis using Finish Cons by (simp add: fw_step_def in_order_def)
    qed (use assms Cons in \<open>simp add: fw_step_def in_order_def\<close>)
  next
    case 2
    have "phase_end (fw_step e s)"
      using 2 Cons by (intro keep) (simp_all add: fw_step_def exec.simps go_def fw_quiet_def life_def)
    then show ?thesis by (simp add: in_order_def)
  next
    case 3
    then show ?thesis using assms(1) f(2) Cons by (simp add: fw_step_def exec.simps in_order_def)
  qed
qed

lemma start_cases:
  assumes "k \<in> {2..12}"
  obtains a where "drop k mtk_gps_start = a # drop (Suc k) mtk_gps_start" "k < 12" "quiet a" "plain a"
      "a = StartDaemon \<and> k = 2 \<or> a \<in> {EpoAtStart, Get M_START, SendCommand 1, ClearIfSet M_STOP}"
    | x where "drop k mtk_gps_start = SetSta x # drop (Suc k) mtk_gps_start" "k < 12"
    | "drop k mtk_gps_start = ReportSta # drop (Suc k) mtk_gps_start" "k < 12"
    | "drop k mtk_gps_start = Call AcquireWakelock # drop (Suc k) mtk_gps_start" "k < 12"
    | "drop k mtk_gps_start = [SetStartFlag 1, GiveBack 0]"
proof -
  have "k \<in> {2, 3, 4, 5, 6, 7, 8, 9, 10, 11, 12}"
    using assms unfolding insert_iff empty_iff atLeastAtMost_iff by presburger
  then show thesis
    using that by (elim insertE emptyE) (simp_all add: mtk_gps_start_def)
qed

lemma due_quiet: "quiet a \<Longrightarrow> due st (a # p) = due st p"
  by (cases a) auto

lemma start_fw_step:
  assumes "phase_start s"
  shows "in_order (fw_step e s)"
proof -
  obtain k n where k: "k \<in> {2..12}" "fw s = drop k mtk_gps_start"
    and h: "list_all quiet (thread_acts (hal s))" "s_start_flag s = 0"
    and l: "life s @ due (sta s) (fw s) = sessions n @ session_up"
    using assms by (auto simp: phase_start_def)
  let ?t = "fw_step e s"
  have go_on: "in_order ?t"
    if "fw ?t = drop (Suc k) mtk_gps_start" "k < 12" "hal ?t = hal s" "s_start_flag ?t = s_start_flag s"
      "life ?t @ due (sta ?t) (drop (Suc k) mtk_gps_start) = sessions n @ session_up"
  proof -
    have "Suc k \<in> {2..12}" using k(1) that(2) by simp
    then show ?thesis using that h unfolding in_order_def phase_start_def by metis
  qed
  show ?thesis
    using k(1)
  proof (cases rule: start_cases)
    case (1 a)
    show ?thesis
    proof (cases "exec e a s")
      case (Next q t)
      note x = quiet_exec[OF 1(3) Next] plain_exec[OF 1(4) Next]
      have "?t = t\<lparr>fw := drop (Suc k) mtk_gps_start\<rparr>"
        using Next k(2) 1(1) x(7) by (simp add: fw_step_def)
      then show ?thesis
        using x 1 k(2) l by (intro go_on) (simp_all add: due_quiet life_def)
    next
      case (Finish m t)
      then have a: "a = StartDaemon" "k = 2"
        using 1(5) by (auto simp: exec.simps go_def split: option.splits)
      have "due (sta s) (fw s) = session_up" using k(2) a by (simp add: mtk_gps_start_def session_up_def)
      then have "life s = sessions n" using l by simp
      then have "phase_rest (t\<lparr>fw := [], fw_ret := Some m\<rparr>)"
        using quiet_finish[OF Finish] h by (auto simp: phase_rest_def fw_quiet_def life_def)
      then show ?thesis using Finish k(2) 1(1) by (simp add: fw_step_def in_order_def)
    next
      case Blocked
      then show ?thesis using assms k(2) 1(1) by (simp add: fw_step_def in_order_def)
    qed
  next
    case (2 x)
    then show ?thesis
      using k(2) l by (intro go_on) (simp_all add: fw_step_def exec.simps go_def life_def)
  next
    case 3
    then show ?thesis
      using k(2) l by (intro go_on) (simp_all add: fw_step_def exec.simps go_def life_def)
  next
    case 4
    then show ?thesis
      using k(2) l by (intro go_on) (simp_all add: fw_step_def exec.simps go_def life_def)
  next
    case 5
    then have "phase_rest ?t"
      using k(2) l h
      by (auto simp: fw_step_def exec.simps go_def phase_rest_def fw_quiet_def life_def)
    then show ?thesis by (simp add: in_order_def)
  qed
qed

lemma phase_hal_step:
  assumes "in_order s"
  shows "in_order (hal_step e s)"
  using assms unfolding in_order_def
proof (elim disjE)
  assume r: "phase_rest s"
  then show "phase_rest (hal_step e s) \<or> phase_start (hal_step e s) \<or> phase_end (hal_step e s)"
    using quiet_hal_step[of s e] by (auto simp: phase_rest_def)
next
  assume r: "phase_start s"
  then have q: "list_all quiet (thread_acts (hal s))" by (simp add: phase_start_def)
  have "phase_start (hal_step e s)"
    using r quiet_hal_step[OF q, of e] by (simp add: phase_start_def)
  then show "phase_rest (hal_step e s) \<or> phase_start (hal_step e s) \<or> phase_end (hal_step e s)" by simp
next
  assume "phase_end s"
  then show "phase_rest (hal_step e s) \<or> phase_start (hal_step e s) \<or> phase_end (hal_step e s)"
    using end_hal_step in_order_def by blast
qed

text \<open>An idle thread gets a program: a quiet one, or the one that ends the session.\<close>

lemma order_takes:
  assumes "in_order s" "hal_idle s" "list_all quiet p"
  shows "in_order (s\<lparr>hal := Running p\<rparr>)"
proof -
  have "\<not> phase_end s" using assms(2) die_cases by (fastforce simp: phase_end_def hal_idle_def)
  then show ?thesis
    using assms by (auto simp: in_order_def phase_rest_def phase_start_def thread_acts_def life_def)
qed

lemma order_die:
  assumes "in_order s" "hal_idle s" "s_start_flag s = 1"
  shows "in_order (s\<lparr>hal := Running die_acts\<rparr>)" (is "in_order ?t")
proof -
  have "\<not> phase_end s" using assms(2) die_cases by (fastforce simp: phase_end_def hal_idle_def)
  then obtain n where "fw_quiet (fw s)" "life s = sessions n @ session_up"
    using assms by (auto simp: in_order_def phase_rest_def phase_start_def)
  moreover have "due (sta s) die_acts = session_down" by (simp add: die_acts_def session_down_def)
  ultimately have "life ?t @ due (sta ?t) (drop 0 die_acts) = sessions n @ session_up @ session_down"
    "hal ?t = Running (drop 0 die_acts)" "fw_quiet (fw ?t)" "s_start_flag ?t = 1"
    using assms(3) by (simp_all add: life_def)
  then have "phase_end ?t" unfolding phase_end_def by (metis zero_less_numeral)
  then show ?thesis by (simp add: in_order_def)
qed

lemma handler_quiet:
  assumes "mnld_to_gps_handler e bs s = Some p" "ReportSta \<notin> set p"
  shows "list_all quiet p"
proof -
  have "p = die_acts \<or> (\<exists>st. p = icon_acts (started s) st) \<or> list_all quiet p"
    using assms(1)
    by (auto simp: mnld_to_gps_handler_def Let_def bind_eq_Some_conv dest!: through_Some
        split: option.splits prod.splits if_splits)
  then show ?thesis
    using assms(2) by (auto simp: die_acts_def icon_acts_def split: if_splits)
qed

lemma quiet_programs [simp]:
  "list_all quiet (gps_event r s)" "list_all quiet (codec_event m s)" "quiet (AtRead ds)"
  "quiet (TakeCommand c)" "quiet (Release l)" "quiet ThreadEnd"
  by (simp_all add: gps_event_def codec_event_def split: codec_msg.splits option.splits)

lemma order_hal_takes:
  "in_order s \<Longrightarrow> list_all quiet p \<Longrightarrow> in_order (hal_takes p s)"
  by (simp add: hal_takes_def order_takes)

lemma fw_quiet_program: "fw_quiet (program k)"
  by (cases k) (simp_all add: fw_quiet_def mtk_gps_init_def mtk_gps_stop_def mtk_gps_cleanup_def)

lemma order_call:
  assumes "in_order s"
  shows "in_order (fw_call e k s)"
proof (cases "fw s = [] \<and> (\<forall>d. k \<noteq> CDirect d)")
  case True
  then have "\<not> phase_start s" using start_cases by (fastforce simp: phase_start_def)
  then have "in_order (s\<lparr>fw := program k, fw_ret := None\<rparr>)"
    using assms by (auto simp: in_order_def phase_rest_def phase_end_def fw_quiet_program life_def)
  then show ?thesis using True by (cases k) (simp_all add: fw_call_def)
next
  case False
  have "in_order (t\<lparr>fw_ret := r\<rparr>)" if "direct e d s = Some (n, t)" for d n t r
    using ctrl_eqD[OF ctrl_direct[OF that]] by (intro in_order_same[OF assms]) simp_all
  then show ?thesis using assms False by (cases k) (auto simp: fw_call_def split: option.splits)
qed

lemma order_mnld:
  assumes "in_order s" "hal_idle s" "calm e (HalMnld r) s"
  shows "in_order (mnld_event e r s)"
proof -
  have er: "in_order (s\<lparr>hal_errno := z\<rparr>)" for z by (rule in_order_same[OF assms(1)]) simp_all
  have idle: "hal_idle (s\<lparr>hal_errno := z\<rparr>)" for z using assms(2) by (simp add: hal_idle_def)
  have stuck: "in_order (s\<lparr>hal := Stuck\<rparr>)"
  proof -
    have "\<not> phase_end s" using assms(2) die_cases by (fastforce simp: phase_end_def hal_idle_def)
    then show ?thesis
      using assms(1) by (auto simp: in_order_def phase_rest_def phase_start_def thread_acts_def life_def)
  qed
  have crash: "in_order (s\<lparr>crashed := b\<rparr>)" for b by (rule in_order_same[OF assms(1)]) simp_all
  show ?thesis
  proof (cases "safe_read r 0 HANDLER_BUFF (hal_errno s) 0")
    case None
    then show ?thesis using stuck by (simp add: mnld_event_def)
  next
    case (Some x)
    then obtain k er' rt bs where x: "safe_read r 0 HANDLER_BUFF (hal_errno s) 0 = Some (k, er', rt, bs)"
      by (cases x) auto
    show ?thesis
    proof (cases "mnld_to_gps_handler (se_ni e) bs s")
      case None
      then show ?thesis using x crash by (simp add: mnld_event_def)
    next
      case h: (Some p)
      have "ReportSta \<in> set p \<longrightarrow> p = die_acts \<and> s_start_flag s = 1"
        using assms(2,3) x h by (simp add: calm_def from_daemon_def)
      then have "in_order (s\<lparr>hal_errno := er', hal := Running p\<rparr>)"
        using order_die[OF er idle, of er'] order_takes[OF er idle, of p er'] handler_quiet[OF h]
        by (cases "ReportSta \<in> set p") simp_all
      then show ?thesis using x h by (simp add: mnld_event_def)
    qed
  qed
qed

lemma order_epo:
  assumes "in_order s"
  shows "in_order (epo_event e s)"
proof -
  have "in_order (upd_epo e f s)" for f
    using ctrl_eqD[OF ctrl_upd_epo] by (intro in_order_same[OF assms]) blast+
  moreover have "in_order (release_condition M_THREAD_EXIT (s\<lparr>epo_threads := k\<rparr>))" for k
    by (rule in_order_same[OF assms]) (simp_all add: release_condition_def)
  ultimately show ?thesis using assms by (simp add: epo_event_def)
qed

lemma order_step:
  assumes "in_order s" "one_thread s" "calm e v s"
  shows "in_order (sess_step e v s)"
proof -
  have fw: "in_order (fw_step e s)"
    using assms(1) rest_fw_step[of s e] start_fw_step[of s e] end_fw_step[OF _ assms(2), of e]
    unfolding in_order_def[of s] by blast
  have same: "in_order (s\<lparr>nread := k\<rparr>)" "in_order (s\<lparr>ep := q\<rparr>)" for k q
    by (rule in_order_same[OF assms(1)], simp_all)+
  show ?thesis
    using assms fw same
    by (cases v) (simp_all add: order_call phase_hal_step order_hal_takes order_mnld order_epo)
qed

lemma orderly_in_order: "orderly e s \<Longrightarrow> in_order s"
proof (induction rule: orderly.induct)
  case orderly_first
  have "phase_rest (sess0 r p)" for r :: "'a reader" and p
    by (auto simp: phase_rest_def sess0_def fw_quiet_def thread_acts_def life_def sessions_def intro!: exI[of _ 0])
  then show ?case by (simp add: in_order_def)
next
  case (orderly_next s v)
  then show ?case using order_step one_thread_reach[OF orderly_reach] by blast
qed

lemma life_in_order:
  assumes "in_order s"
  shows "\<exists>n rest. life s @ rest = sessions n" "s_start_flag s = 1 \<Longrightarrow> hal_idle s \<Longrightarrow> \<exists>n. life s = sessions n @ session_up"
proof -
  have up: "xs @ ys = sessions n @ session_up \<Longrightarrow> xs @ ys @ session_down = sessions (Suc n)" for xs ys n
    by (simp add: sessions_Suc flip: append_assoc)
  have "\<exists>n rest. life s @ rest = sessions n" if "phase_rest s"
    using that up[of "life s" "[]"] unfolding phase_rest_def by (metis append_Nil append_Nil2)
  moreover have "\<exists>n rest. life s @ rest = sessions n" if "phase_start s"
    using that up[of "life s" "due (sta s) (fw s)"] unfolding phase_start_def by metis
  moreover have "\<exists>n rest. life s @ rest = sessions n" if "phase_end s"
    using that sessions_Suc unfolding phase_end_def by metis
  ultimately show "\<exists>n rest. life s @ rest = sessions n" using assms unfolding in_order_def by blast
  assume "s_start_flag s = 1" "hal_idle s"
  moreover from this have "\<not> phase_end s" using die_cases by (fastforce simp: phase_end_def hal_idle_def)
  ultimately show "\<exists>n. life s = sessions n @ session_up"
    using assms by (auto simp: in_order_def phase_rest_def phase_start_def)
qed

text \<open>
  C8: Take any run in which the daemon announces its end only while the session flag is 1 (so neither before
  a session, nor after one, nor while \<open>mtk_gps_start\<close> is telling of one), and sends no icon message with
  status 0 or 1 that is handled while \<open>started\<close> is 0.  Then what the framework is told is always the
  beginning of a sequence of complete sessions: ENGINE_ON, SESSION_BEGIN and the wakelock taken, then
  SESSION_END, ENGINE_OFF and the wakelock given back, however the calls, the GPS thread, the device, the
  daemon's other messages and the downloads interleave.  While the flag is 1 and the GPS thread idle, the
  wakelock is held.
\<close>

theorem sessions_reported_in_order:
  assumes "orderly e s"
  shows "(\<exists>n. prefix (life s) (sessions n))
    \<and> (s_start_flag s = 1 \<and> hal_idle s \<longrightarrow> (\<exists>n. life s = sessions n @ session_up))"
  using life_in_order[OF orderly_in_order[OF assms]] by (metis prefixI)

lemma orderly_call: "orderly e s \<Longrightarrow> \<not> from_daemon v \<Longrightarrow> orderly e (sess_step e v s)"
  by (rule orderly_next) (auto simp: calm_def split: cev.splits)

lemma orderly_run: "orderly e s \<Longrightarrow> list_all (\<lambda>v. \<not> from_daemon v) evs \<Longrightarrow> orderly e (sess_run e evs s)"
  by (induction evs arbitrary: s) (simp_all add: sess_run_def orderly_call)

theorem sessions_reported_in_order_witness:
  "s_start_flag (sess_run senv0 (start_events @ report_events [] @ replicate 9 FwStep) initialised0) = 1
   \<and> (\<exists>n. prefix (life (sess_run senv0 (start_events @ report_events [] @ replicate 9 FwStep) initialised0))
        (sessions n))"
proof -
  let ?evs = "start_events @ report_events [] @ replicate 9 FwStep"
  have "orderly senv0 start0" unfolding start0_def by (rule orderly_first)
  then have "orderly senv0 initialised0"
    unfolding initialised0_def
    by (rule orderly_run) (simp add: init_events_def from_daemon_def numeral_eq_Suc)
  then have o: "orderly senv0 (sess_run senv0 ?evs initialised0)"
    by (rule orderly_run) (simp add: start_events_def report_events_def from_daemon_def numeral_eq_Suc)
  show ?thesis
    using sessions_reported_in_order[OF o] waiting_start_run[OF good0, of initialised0 "[]"]
      finish_run[OF good0, of "sess_run senv0 (start_events @ report_events []) initialised0"]
      ctrlD(3)[OF finish_run[OF good0, of "sess_run senv0 (start_events @ report_events []) initialised0"]]
      ctrlD(1,4)[OF waiting_start_run[OF good0, of initialised0 "[]"]]
    by (simp add: initialised0_facts sess_run_append)
qed

section \<open>The way of a start\<close>

text \<open>
  \<open>starting l k c\<close>: the framework's thread has done \<open>k\<close> actions of \<open>mtk_gps_start\<close>, told what belongs to
  them after \<open>l\<close>, and the GPS thread has nothing to tell of a session.
\<close>

definition starting :: "cb list \<Rightarrow> nat \<Rightarrow> cst \<Rightarrow> bool" where
  "starting l k c =
     (k \<in> {1..14} \<and> c_fw c = drop k mtk_gps_start \<and> list_all quiet (thread_acts (c_hal c))
      \<and> c_flag c = (if k < 13 then 0 else 1)
      \<and> filter session_cb (c_cbs c) @ due (c_sta c) (c_fw c) = l @ session_up)"

lemma starting_same:
  "starting l k c \<Longrightarrow> c_fw d = c_fw c \<Longrightarrow> c_flag d = c_flag c \<Longrightarrow> c_sta d = c_sta c
    \<Longrightarrow> filter session_cb (c_cbs d) = filter session_cb (c_cbs c) \<Longrightarrow> list_all quiet (thread_acts (c_hal d))
    \<Longrightarrow> starting l k d"
  unfolding starting_def by auto

text \<open>Events that are no other call and no message of the daemon that tells of a session.\<close>

definition leaves_start :: "cev \<Rightarrow> bool" where
  "leaves_start x = (case x of XCall k \<Rightarrow> False | XTake p \<Rightarrow> ReportSta \<notin> set p | _ \<Rightarrow> True)"

primrec left_alone :: "'d senv \<Rightarrow> ev list \<Rightarrow> 'd sess \<Rightarrow> bool" where
  "left_alone e [] s = True"
| "left_alone e (v # evs) s = (leaves_start (cev_of e v s) \<and> left_alone e evs (sess_step e v s))"

text \<open>The only action of a start that may wait is the one that waits for the first report.\<close>

definition goes_on :: "nat \<Rightarrow> cst \<Rightarrow> bool" where
  "goes_on k c = (k < 14 \<and> (k = 4 \<longrightarrow> c_locks c M_START \<noteq> 0))"

lemma starting_fw:
  assumes "starting l k c"
  shows "if goes_on k c then starting l (Suc k) (cfw_step c) else cfw_step c = c"
proof -
  have "k \<in> {1..14}" using assms by (simp add: starting_def)
  then have "k \<in> {1, 2, 3, 4, 5, 6, 7, 8, 9, 10, 11, 12, 13, 14}"
    unfolding insert_iff empty_iff atLeastAtMost_iff by presburger
  then show ?thesis
    using assms unfolding insert_iff empty_iff
    by (elim disjE) (auto simp: starting_def goes_on_def cfw_step_def cgo_def mtk_gps_start_def)
qed

lemma quiet_cexec:
  assumes "quiet a" "cexec a c = CNext q d"
  shows "list_all quiet q \<and> c_fw d = c_fw c \<and> c_flag d = c_flag c \<and> c_sta d = c_sta c
    \<and> filter session_cb (c_cbs d) = filter session_cb (c_cbs c)"
  using assms by (cases a) (auto simp: cgo_def gps_state_done_def split: if_splits)

lemma finish_cexec: "cexec a c = CFinish n d \<Longrightarrow> d = c"
  by (cases a) (auto simp: cgo_def split: if_splits)

lemma starting_hal:
  assumes "starting l k c"
  shows "starting l k (chal_step c)"
proof (cases "\<exists>a p. c_hal c = Running (a # p)")
  case True
  then obtain a p where h: "c_hal c = Running (a # p)" by blast
  then have q: "quiet a" "list_all quiet p" using assms by (simp_all add: starting_def thread_acts_def)
  show ?thesis
  proof (cases "cexec a c")
    case CBlocked
    then show ?thesis using assms h by (simp add: chal_step_def)
  next
    case (CNext r d)
    then have "chal_step c = d\<lparr>c_hal := Running (r @ p)\<rparr>" using h by (simp add: chal_step_def)
    then show ?thesis
      using quiet_cexec[OF q(1) CNext] q(2) by (intro starting_same[OF assms]) (simp_all add: thread_acts_def)
  next
    case (CFinish n d)
    then have "chal_step c = c\<lparr>c_hal := Exited\<rparr>" using h finish_cexec[OF CFinish] by (simp add: chal_step_def)
    then show ?thesis by (intro starting_same[OF assms]) (simp_all add: thread_acts_def)
  qed
next
  case False
  then show ?thesis using assms by (auto simp: chal_step_def split: thread.splits list.splits)
qed

lemma starting_step:
  assumes "starting l k c" "leaves_start x" "\<And>p. x = XTake p \<Longrightarrow> list_all quiet p"
  shows "\<exists>j. starting l j (cstep x c)"
proof (cases x)
  case XFw
  then show ?thesis using starting_fw[OF assms(1)] assms(1) by (auto simp: cstep_def split: if_splits)
next
  case XHal
  then show ?thesis using starting_hal[OF assms(1)] assms(1) by (auto simp: cstep_def)
next
  case (XTake p)
  then have "starting l k (c\<lparr>c_hal := Running p\<rparr>)"
    using assms(3)[OF XTake] by (intro starting_same[OF assms(1)]) (simp_all add: thread_acts_def)
  then have "starting l k (cstep x c)" using XTake assms(1) by (simp add: cstep_def)
  then show ?thesis by blast
next
  case (XCall p)
  then show ?thesis using assms(2) by (simp add: leaves_start_def)
next
  case (XRelease m)
  then have "starting l k (cstep x c)"
    using assms(1) by (intro starting_same[OF assms(1)]) (simp_all add: cstep_def starting_def)
  then show ?thesis by blast
next
  case XStuck
  then have "starting l k (cstep x c)"
    using assms(1) by (intro starting_same[OF assms(1)]) (simp_all add: cstep_def starting_def thread_acts_def)
  then show ?thesis by blast
next
  case XCrash
  then have "starting l k (cstep x c)"
    using assms(1) by (intro starting_same[OF assms(1)]) (simp_all add: cstep_def starting_def)
  then show ?thesis by blast
next
  case XNone
  then show ?thesis using assms(1) by (auto simp: cstep_def)
qed

lemma taken_quiet:
  assumes "cev_of e v s = XTake p" "ReportSta \<notin> set p"
  shows "list_all quiet p"
proof (cases v)
  case (HalMnld r)
  then show ?thesis
    using assms handler_quiet[of "se_ni e" _ s p] by (auto split: if_splits option.splits prod.splits)
next
  case (FwCall k)
  then show ?thesis using assms by (cases k) auto
qed (use assms in \<open>auto split: if_splits\<close>)

lemma starting_run:
  "env_good e \<Longrightarrow> starting l k (ctrl s) \<Longrightarrow> left_alone e evs s \<Longrightarrow> \<exists>j. starting l j (ctrl (sess_run e evs s))"
proof (induction evs arbitrary: s k)
  case Nil
  then show ?case by (auto simp: sess_run_def)
next
  case (Cons v evs)
  have lv: "leaves_start (cev_of e v s)" using Cons.prems(3) by simp
  have "list_all quiet p" if "cev_of e v s = XTake p" for p
    using taken_quiet[OF that] lv that by (simp add: leaves_start_def)
  then obtain j where "starting l j (ctrl (sess_step e v s))"
    using starting_step[OF Cons.prems(2) lv] step_refines[OF Cons.prems(1), of v s] by auto
  then show ?case using Cons.IH[OF Cons.prems(1)] Cons.prems(3) by (simp add: sess_run_def)
qed

text \<open>
  C18: A start, once its check of the initialisation has passed, comes to its end however other threads
  interleave.  Let the world work, let the GPS thread have nothing to tell of a session, and let events follow
  in any order and number, steps of both threads, reports of the device, requests, messages of the daemon and
  downloads, but no other call of the framework and no message by which the daemon tells of a session
  (its end or the icon).  Then the thread is at some action of \<open>mtk_gps_start\<close> and has told exactly what
  belongs to the actions before it; unless all of them are done or the program has crashed, its next step
  does the next action, or it is at the fifth action and waits for the first report of the device.  When they
  are all done, it has told ENGINE_ON, SESSION_BEGIN and of the wakelock, and the session is on.
\<close>

theorem start_completes:
  assumes "env_good e" "fw s = drop 1 mtk_gps_start" "s_start_flag s = 0" "list_all quiet (thread_acts (hal s))"
    and "left_alone e evs s"
  defines "t \<equiv> sess_run e evs s"
  shows "\<exists>k \<in> {1..14}. fw t = drop k mtk_gps_start \<and> life t @ due (sta t) (fw t) = life s @ session_up
    \<and> (k < 14 \<and> \<not> crashed t \<and> (k = 4 \<longrightarrow> locks t M_START \<noteq> 0)
         \<longrightarrow> fw (sess_step e FwStep t) = drop (Suc k) mtk_gps_start)
    \<and> (k = 14 \<longrightarrow> fw t = [] \<and> life t = life s @ session_up \<and> s_start_flag t = 1)"
proof -
  have "starting (life s) 1 (ctrl s)"
    using assms(2-4) by (simp add: starting_def life_def mtk_gps_start_def session_up_def)
  from starting_run[OF assms(1) this assms(5)] obtain k where k: "starting (life s) k (ctrl t)"
    unfolding t_def by blast
  have n: "fw (sess_step e FwStep t) = drop (Suc k) mtk_gps_start"
    if "k < 14" "\<not> crashed t" "k = 4 \<longrightarrow> locks t M_START \<noteq> 0"
  proof -
    have "starting (life s) (Suc k) (cfw_step (ctrl t))" using starting_fw[OF k] that by (simp add: goes_on_def)
    then show ?thesis using ctrlD(1)[OF fw_refines[OF assms(1), of t]] that by (simp add: starting_def)
  qed
  have "life t @ due (sta t) (fw t) = life s @ session_up" "fw t = drop k mtk_gps_start" "k \<in> {1..14}"
      "s_start_flag t = (if k < 13 then 0 else 1)"
    using k unfolding starting_def by (auto simp: life_def)
  moreover have "drop 14 mtk_gps_start = []" by (simp add: mtk_gps_start_def)
  ultimately show ?thesis using n by (intro bexI[of _ k]) auto
qed

theorem start_completes_witness:
  "\<exists>k \<in> {1..14}. fw (sess_run senv0 (replicate 3 FwStep @ report_events [] @ replicate 9 FwStep)
      (sess_run senv0 [FwCall CStart, FwStep] initialised0)) = drop k mtk_gps_start"
proof -
  let ?s = "sess_run senv0 [FwCall CStart, FwStep] initialised0"
  have "ctrl ?s = (ctrl initialised0)\<lparr>c_fw := drop 1 mtk_gps_start\<rparr>"
    using initialised0_facts by (simp add: run_refines[OF good0] control_steps mtk_gps_start_def)
  note c = ctrlD[OF this]
  have a: "left_alone senv0 evs s" if "list_all (\<lambda>v. v \<in> {FwStep, HalStep, HalGps []}) evs" for evs s
    using that by (induction evs arbitrary: s) (auto simp: leaves_start_def gps_event_def)
  let ?evs = "replicate 3 FwStep @ report_events [] @ replicate 9 FwStep"
  have "left_alone senv0 ?evs ?s" by (rule a) (simp add: report_events_def list_all_iff)
  moreover have "fw ?s = drop 1 mtk_gps_start" "s_start_flag ?s = 0" "list_all quiet (thread_acts (hal ?s))"
    using c initialised0_facts by (simp_all add: thread_acts_def)
  ultimately show ?thesis using start_completes[OF good0, of ?s ?evs] by blast
qed

end
