(* ===== verification/Ccci.thy ===== *)
theory Ccci
  imports C_Text
begin

text \<open>
  The modem configuration library \<open>src/hal/ccci_lib/ccci_lib.c\<close>, which looks a name up in the kernel's
  list of settings or answers from properties, and the power library \<open>src/hal/power/power.c\<close>.
\<close>

section \<open>Parsing the settings\<close>

text \<open>
  \<open>parse_info\<close> is a loop over the characters with a state; state 4 of the code is left in the iteration
  that enters it.  \<open>tmp_name\<close> and \<open>tmp_val\<close> have 32 bytes, and a write behind them is \<open>None\<close>.
\<close>

datatype pstate = P_INIT | P_NAME | P_COLON | P_VALUE

definition TMP_SIZE :: nat where "TMP_SIZE = 32"

definition put_char :: "string \<Rightarrow> nat \<Rightarrow> char \<Rightarrow> string option" where
  "put_char a j c = (if j < length a then Some (a[j := c]) else None)"

definition text_of :: "string \<Rightarrow> string" where
  "text_of a = takeWhile (\<lambda>c. c \<noteq> CHR 0x00) a"

definition is_eol :: "char \<Rightarrow> bool" where
  "is_eol c = (c = CHR 0x0D \<or> c = CHR 0x0A)"

text \<open>\<open>Some None\<close>: no such name (the code returns -1); otherwise the value found.\<close>

fun parse_info ::
    "string \<Rightarrow> string \<Rightarrow> pstate \<Rightarrow> nat \<Rightarrow> string \<Rightarrow> string \<Rightarrow> string option option" where
  "parse_info name [] st j nm vl = Some None"
| "parse_info name (c # cs) st j nm vl =
     (case st of
        P_INIT \<Rightarrow>
          if c = CHR ''['' then parse_info name cs P_NAME 0 nm vl
          else parse_info name cs P_INIT j nm vl
      | P_NAME \<Rightarrow>
          if c = CHR '']'' then
            (case put_char nm j (CHR 0x00) of None \<Rightarrow> None
             | Some nm' \<Rightarrow> parse_info name cs P_COLON 0 nm' vl)
          else if is_eol c then parse_info name cs P_INIT 0 nm vl
          else (case put_char nm j c of None \<Rightarrow> None
                | Some nm' \<Rightarrow> parse_info name cs P_NAME (j + 1) nm' vl)
      | P_COLON \<Rightarrow>
          if c = CHR '':'' then parse_info name cs P_VALUE j nm (vl[0 := CHR 0x00])
          else parse_info name cs P_INIT j nm vl
      | P_VALUE \<Rightarrow>
          if is_eol c then
            (case put_char vl j (CHR 0x00) of None \<Rightarrow> None
             | Some vl' \<Rightarrow>
                 if text_of nm = name then Some (Some (text_of vl'))
                 else parse_info name cs P_INIT 0 nm vl')
          else (case put_char vl j c of None \<Rightarrow> None
                | Some vl' \<Rightarrow> parse_info name cs P_VALUE (j + 1) nm vl'))"

section \<open>The two queries\<close>

text \<open>
  What the operating system does: whether the file opens and the block is allocated, what \<open>read\<close>
  delivers (\<open>None\<close> for an error), what the stack holds in the two local arrays, the properties.
\<close>

record cenv =
  c_opens :: bool
  c_malloc :: bool
  c_read :: "string option"
  c_junk :: "string \<times> string"
  c_prop :: "string \<Rightarrow> string"

datatype cev = COpen | CMalloc | CRead | CFree | CClose

definition RAW_SIZE :: nat where "RAW_SIZE = 4096"

text \<open>The result, the value stored, and the calls made; \<open>None\<close> is a write behind an array.\<close>

definition query_kcfg_setting ::
    "cenv \<Rightarrow> string \<Rightarrow> nat \<Rightarrow> string \<Rightarrow> (int \<times> string \<times> cev list) option" where
  "query_kcfg_setting e name n old =
     (if \<not> c_opens e then Some (- 1, old, [COpen])
      else if \<not> c_malloc e then Some (- 2, old, [COpen, CMalloc, CClose])
      else
        let evs = [COpen, CMalloc, CRead, CFree, CClose]
        in case c_read e of
             None \<Rightarrow> Some (- 3, old, evs)
           | Some raw \<Rightarrow>
               let got = take RAW_SIZE raw
               in if got = [] then Some (- 3, old, evs)
                  else
                    let n1 = (if length got = RAW_SIZE then length got - 1 else length got)
                    in case parse_info name (take n1 got) P_INIT 0 (fst (c_junk e)) (snd (c_junk e)) of
                         None \<Rightarrow> None
                       | Some None \<Rightarrow> Some (- 1, old, evs)
                       | Some (Some v) \<Rightarrow> Some (0, snd (c_snprintf n old v), evs))"

text \<open>\<open>strstr("yes,ture,on", value)\<close> as the code spells it.\<close>

definition switched_on :: "string \<Rightarrow> bool" where
  "switched_on v = (\<exists>k \<in> set [0..<12]. begins v (drop k ''yes,ture,on''))"

text \<open>
  The slots are integers passed for a text: 0 is printed as a NULL pointer (\<open>null_text\<close>, what the C
  library prints for it), and 1 is the address of nothing.
\<close>

definition query_prj_cfg_setting ::
    "cenv \<Rightarrow> string \<Rightarrow> string \<Rightarrow> nat \<Rightarrow> string \<Rightarrow> (int \<times> string) option" where
  "query_prj_cfg_setting e null_text name n old =
     (let ims = c_prop e ''ro.mtk_ims_support''; volte = c_prop e ''ro.mtk_volte_support''
      in if name = ''BOOTUP_MODE_SLOT1'' then Some (0, snd (c_snprintf n old null_text))
         else if name = ''BOOTUP_MODE_SLOT2'' then None
         else if ims \<noteq> [] \<and> switched_on ims \<and> name = ''MTK_IMS_SUPPORT''
         then Some (0, snd (c_snprintf n old ''1''))
         else if volte \<noteq> [] \<and> switched_on volte \<and> name = ''MTK_VOLTE_SUPPORT''
         then Some (0, snd (c_snprintf n old ''1''))
         else Some (- 1, old))"

section \<open>Power hints\<close>

definition MT_RUSH_BOOST_PATH :: string where "MT_RUSH_BOOST_PATH = ''/proc/hps/rush_boost_enabled''"
definition MT_FPS_UPPER_BOUND_PATH :: string where "MT_FPS_UPPER_BOUND_PATH = ''/d/ged/hal/fps_upper_bound''"

datatype power_hint_t = LOW_POWER | VSYNC | INTERACTION | LAUNCH | VIDEO_ENCODE | VIDEO_DECODE | OTHER_HINT

text \<open>The nodes that exist, with their contents; a node that cannot be opened is left out.\<close>

definition power_fwrite :: "string \<Rightarrow> string \<Rightarrow> (string \<Rightarrow> string option) \<Rightarrow> string \<Rightarrow> string option" where
  "power_fwrite path s fs = (if fs path = None then fs else fs(path \<mapsto> s))"

definition power_hint :: "power_hint_t \<Rightarrow> bool \<Rightarrow> (string \<Rightarrow> string option) \<Rightarrow> string \<Rightarrow> string option" where
  "power_hint hint data fs =
     (case hint of
        LOW_POWER \<Rightarrow>
          if data then power_fwrite MT_RUSH_BOOST_PATH ''0'' (power_fwrite MT_FPS_UPPER_BOUND_PATH ''30'' fs)
          else power_fwrite MT_RUSH_BOOST_PATH ''1'' (power_fwrite MT_FPS_UPPER_BOUND_PATH ''60'' fs)
      | _ \<Rightarrow> fs)"

text \<open>\<open>set_feature\<close>; the node of the double tap exists on some devices only.\<close>

definition set_feature ::
    "string option \<Rightarrow> bool \<Rightarrow> int \<Rightarrow> (string \<Rightarrow> string option) \<Rightarrow> string \<Rightarrow> string option" where
  "set_feature node double_tap st fs =
     (case node of None \<Rightarrow> fs
      | Some p \<Rightarrow> if double_tap then power_fwrite p (snd (c_snprintf 64 [] (show_int st))) fs else fs)"

section \<open>Entries of the settings\<close>

text \<open>A line \<open>[name]:value\<close> as the kernel writes it.\<close>

definition entry :: "string \<times> string \<Rightarrow> string" where
  "entry nv = ''['' @ fst nv @ '']:'' @ snd nv @ [CHR 0x0A]"

definition good_name :: "string \<Rightarrow> bool" where
  "good_name n = (\<forall>c \<in> set n. c \<noteq> CHR '']'' \<and> \<not> is_eol c \<and> c \<noteq> CHR 0x00)"

definition good_value :: "string \<Rightarrow> bool" where
  "good_value v = (\<forall>c \<in> set v. \<not> is_eol c \<and> c \<noteq> CHR 0x00)"

definition entry_fits :: "string \<times> string \<Rightarrow> bool" where
  "entry_fits nv = (length (fst nv) < TMP_SIZE \<and> length (snd nv) < TMP_SIZE)"

lemma put_char_length: "put_char a j c = Some a' \<Longrightarrow> length a' = length a"
  by (auto simp: put_char_def split: if_splits)

lemma read_name:
  assumes "good_name n" "length nm = TMP_SIZE" "j \<le> TMP_SIZE"
  shows "parse_info name (n @ CHR '']'' # rest) P_NAME j nm vl =
    (if j + length n < TMP_SIZE
     then parse_info name rest P_COLON 0 (take j nm @ n @ CHR 0x00 # drop (j + length n + 1) nm) vl else None)"
  using assms
proof (induction n arbitrary: j nm)
  case Nil
  then show ?case by (simp add: put_char_def upd_conv_take_nth_drop)
next
  case (Cons c n)
  then have c: "c \<noteq> CHR '']''" "\<not> is_eol c" "good_name n" by (auto simp: good_name_def)
  show ?case
  proof (cases "j < TMP_SIZE")
    case True
    have l: "length (nm[j := c]) = TMP_SIZE" using Cons.prems by simp
    have "take (Suc j) (nm[j := c]) = take j nm @ [c]"
      using True Cons.prems by (simp add: take_Suc_conv_app_nth)
    moreover have "drop (Suc (j + length n + 1)) (nm[j := c]) = drop (Suc (j + length n + 1)) nm"
      by simp
    ultimately show ?thesis
      using Cons.IH[OF c(3) l] True Cons.prems c by (simp add: put_char_def)
  qed (use c Cons.prems in \<open>simp add: put_char_def\<close>)
qed

lemma read_value:
  assumes "good_value v" "length vl = TMP_SIZE" "j \<le> TMP_SIZE"
  shows "parse_info name (v @ CHR 0x0A # rest) P_VALUE j nm vl =
    (if j + length v < TMP_SIZE
     then let vl' = take j vl @ v @ CHR 0x00 # drop (j + length v + 1) vl
          in if text_of nm = name then Some (Some (text_of vl')) else parse_info name rest P_INIT 0 nm vl'
     else None)"
  using assms
proof (induction v arbitrary: j vl)
  case Nil
  then show ?case by (simp add: put_char_def upd_conv_take_nth_drop is_eol_def)
next
  case (Cons c v)
  then have c: "\<not> is_eol c" "good_value v" by (auto simp: good_value_def)
  show ?case
  proof (cases "j < TMP_SIZE")
    case True
    have l: "length (vl[j := c]) = TMP_SIZE" using Cons.prems by simp
    have "take (Suc j) (vl[j := c]) = take j vl @ [c]"
      using True Cons.prems by (simp add: take_Suc_conv_app_nth)
    moreover have "drop (Suc (j + length v + 1)) (vl[j := c]) = drop (Suc (j + length v + 1)) vl"
      by simp
    ultimately show ?thesis
      using Cons.IH[OF c(2) l] True Cons.prems c by (simp add: put_char_def)
  qed (use c Cons.prems in \<open>simp add: put_char_def\<close>)
qed

lemma text_of_terminated: "\<forall>c \<in> set t. c \<noteq> CHR 0x00 \<Longrightarrow> text_of (t @ CHR 0x00 # rest) = t"
  by (simp add: text_of_def)

text \<open>One line: the arrays overflow, the name is found, or the search goes on behind it.\<close>

lemma parse_entry:
  assumes "good_name (fst nv)" "good_value (snd nv)" "length nm = TMP_SIZE" "length vl = TMP_SIZE"
  shows "\<exists>nm' vl'. length nm' = TMP_SIZE \<and> length vl' = TMP_SIZE
    \<and> parse_info name (entry nv @ rest) P_INIT j nm vl =
        (if \<not> entry_fits nv then None
         else if fst nv = name then Some (Some (snd nv))
         else parse_info name rest P_INIT 0 nm' vl')"
proof -
  obtain n v where nv: "nv = (n, v)" by (cases nv)
  let ?nm = "n @ CHR 0x00 # drop (length n + 1) nm"
  let ?vl = "v @ CHR 0x00 # drop (length v + 1) (vl[0 := CHR 0x00])"
  have t: "text_of ?nm = n" "text_of ?vl = v"
    using assms(1,2) nv by (auto intro!: text_of_terminated simp: good_name_def good_value_def)
  have a: "parse_info name (entry nv @ rest) P_INIT j nm vl =
      parse_info name (n @ CHR '']'' # CHR '':'' # v @ CHR 0x0A # rest) P_NAME 0 nm vl"
    by (simp add: nv entry_def)
  have b: "\<dots> = (if length n < TMP_SIZE
      then parse_info name (v @ CHR 0x0A # rest) P_VALUE 0 ?nm (vl[0 := CHR 0x00]) else None)"
    using assms(1,3) nv by (subst read_name) simp_all
  have c: "parse_info name (v @ CHR 0x0A # rest) P_VALUE 0 ?nm (vl[0 := CHR 0x00]) =
    (if length v < TMP_SIZE
     then if n = name then Some (Some v) else parse_info name rest P_INIT 0 ?nm ?vl else None)"
    using assms(2,4) nv t by (subst read_value) (simp_all add: Let_def)
  show ?thesis
  proof (cases "entry_fits nv")
    case True
    then have "length n < TMP_SIZE" "length v < TMP_SIZE" by (simp_all add: entry_fits_def nv)
    then show ?thesis
      using a b c assms(3,4) True by (intro exI[of _ ?nm] exI[of _ ?vl]) (simp add: nv)
  next
    case False
    then show ?thesis
      using a b c assms(3,4) by (intro exI[of _ nm] exI[of _ vl]) (auto simp: entry_fits_def nv)
  qed
qed

text \<open>The reference: the first line with the name, unless a line before it does not fit.\<close>

fun find_entry :: "string \<Rightarrow> (string \<times> string) list \<Rightarrow> string option option" where
  "find_entry name [] = Some None"
| "find_entry name (nv # es) =
     (if \<not> entry_fits nv then None
      else if fst nv = name then Some (Some (snd nv)) else find_entry name es)"

lemma parse_entries:
  "\<forall>nv \<in> set es. good_name (fst nv) \<and> good_value (snd nv) \<Longrightarrow> length nm = TMP_SIZE \<Longrightarrow>
   length vl = TMP_SIZE \<Longrightarrow>
   parse_info name (concat (map entry es)) P_INIT j nm vl = find_entry name es"
proof (induction es arbitrary: j nm vl)
  case (Cons nv es)
  obtain nm' vl' where e: "length nm' = TMP_SIZE" "length vl' = TMP_SIZE"
    "parse_info name (entry nv @ concat (map entry es)) P_INIT j nm vl =
      (if \<not> entry_fits nv then None else if fst nv = name then Some (Some (snd nv))
       else parse_info name (concat (map entry es)) P_INIT 0 nm' vl')"
    using parse_entry[of nv nm vl name "concat (map entry es)" j] Cons.prems by auto
  show ?case using e(3) Cons.IH[OF _ e(1,2)] Cons.prems by simp
qed simp

definition cenv0 :: cenv where
  "cenv0 = \<lparr>c_opens = True, c_malloc = True, c_read = None,
     c_junk = (replicate 32 (CHR ''?''), replicate 32 (CHR ''?'')), c_prop = (\<lambda>_. ''true'')\<rparr>"

section \<open>Properties\<close>

text \<open>
  C36: On a list of settings of less than 4096 bytes the query reads the lines up to the first one with the
  name: it returns 0 and the value of that line, cut to the caller's array, or -1 when there is none; but
  if one of the lines it reads, that one included, has a name or a value of 32 characters or more, a local
  array is overflown.
\<close>

theorem kcfg_is_lookup:
  assumes "c_opens e" "c_malloc e" "c_read e = Some (concat (map entry es))"
    and "\<forall>nv \<in> set es. good_name (fst nv) \<and> good_value (snd nv)" "length (concat (map entry es)) < RAW_SIZE"
    and "es \<noteq> []" "length (fst (c_junk e)) = TMP_SIZE" "length (snd (c_junk e)) = TMP_SIZE"
  shows "map_option (\<lambda>(r, v, _). (r, v)) (query_kcfg_setting e name n old) =
    (case find_entry name es of None \<Rightarrow> None
     | Some None \<Rightarrow> Some (- 1, old)
     | Some (Some v) \<Rightarrow> Some (0, if n = 0 then old else take (n - 1) v))"
proof -
  let ?t = "concat (map entry es)"
  have ne: "?t \<noteq> []" using assms(6) by (cases es) (simp_all add: entry_def)
  have g: "take RAW_SIZE ?t = ?t" "length ?t \<noteq> RAW_SIZE" using assms(5) by simp_all
  show ?thesis
    unfolding query_kcfg_setting_def assms(3)
    using assms(1,2) ne g parse_entries[OF assms(4,7,8), of name 0]
    by (simp add: Let_def c_snprintf_def split: option.splits)
qed

theorem kcfg_is_lookup_witness:
  "map_option (\<lambda>(r, v, _). (r, v))
     (query_kcfg_setting (cenv0\<lparr>c_read := Some (concat (map entry [(''a'', ''1''), (''b'', ''22'')]))\<rparr>)
        ''b'' 8 []) = Some (0, ''22'')"
  using kcfg_is_lookup[of "cenv0\<lparr>c_read := Some (concat (map entry [(''a'', ''1''), (''b'', ''22'')]))\<rparr>"
      "[(''a'', ''1''), (''b'', ''22'')]" "''b''" 8 "[]"]
  by (simp add: cenv0_def RAW_SIZE_def TMP_SIZE_def good_name_def good_value_def is_eol_def entry_fits_def
      entry_def)

text \<open>Every path that opens the file closes it once, and frees the block it has allocated.\<close>

lemma kcfg_closes:
  assumes "query_kcfg_setting e name n old = Some (r, v, evs)"
  shows "count_list evs CClose = (if c_opens e then 1 else 0)"
    "count_list evs CFree = (if c_opens e \<and> c_malloc e then 1 else 0)"
  using assms
  by (auto simp: query_kcfg_setting_def Let_def split: if_splits option.splits)

text \<open>
  The two support switches are decided by the text "yes,ture,on": of the usual words for an
  affirmative setting yes and on are recognised, but true and 1 are not.
\<close>

theorem support_switch_words:
  "query_prj_cfg_setting (e\<lparr>c_prop := (\<lambda>_. w)\<rparr>) t ''MTK_IMS_SUPPORT'' 2 old = Some (0, ''1'') \<longleftrightarrow>
     w \<noteq> [] \<and> list_ex (\<lambda>k. begins w (drop k ''yes,ture,on'')) [0..<12]"
  by (simp add: query_prj_cfg_setting_def Let_def switched_on_def list_ex_iff c_snprintf_def)

lemma true_is_off: "\<not> switched_on ''true''" "\<not> switched_on ''1''" "switched_on ''yes''" "switched_on ''on''"
  by (simp_all add: switched_on_def begins_def upt_rec)

text \<open>A hint for low power caps the frame rate and switches the boost off; its end undoes both.\<close>

lemma low_power_hint:
  assumes "fs MT_FPS_UPPER_BOUND_PATH \<noteq> None" "fs MT_RUSH_BOOST_PATH \<noteq> None"
  shows "power_hint LOW_POWER False (power_hint LOW_POWER True fs) = power_hint LOW_POWER False fs"
    "power_hint LOW_POWER True fs MT_FPS_UPPER_BOUND_PATH = Some ''30''"
    "power_hint LOW_POWER True fs MT_RUSH_BOOST_PATH = Some ''0''"
  using assms
  by (auto simp: power_hint_def power_fwrite_def MT_FPS_UPPER_BOUND_PATH_def MT_RUSH_BOOST_PATH_def
      split: if_splits)

end
