(* ===== verification/Rild.thy ===== *)
theory Rild
  imports C_Text
begin

text \<open>
  The launcher of the radio daemon, \<open>src/hal/ril/rild/rild.c\<close>: its options, the arguments of the vendor
  library, the change of user, and \<open>main\<close> up to its endless sleep.
\<close>

section \<open>World and events\<close>

text \<open>
  The outcomes of the calls \<open>main\<close> depends on, and the two properties (\<open>None\<close> when unset).  The
  symbols are those of the vendor library, which is not part of the repository.  The events for the
  change of user and of the capabilities tell whether the call succeeded.
\<close>

record renv =
  mtk_init :: int
  lib_path :: "string option"
  lib_args :: "string option"
  setuid_ok :: bool
  capset_ok :: bool
  debuggable :: bool
  dl_opens :: bool
  sym_InitSocket :: bool
  sym_Init :: bool
  sym_SAP_Init :: bool

datatype cap = CAP_NET_ADMIN | CAP_NET_RAW | CAP_BLOCK_SUSPEND | CAP_OTHER

datatype rev =
    KeepCaps
  | SetRadioUser bool
  | CapSet "cap set" bool
  | SetDumpable
  | SetServiceName string
  | DlOpen string
  | StartEventLoop
  | RegisterOld "string list"
  | RegisterSocket "string list"
  | RegisterSap "string list"
  | ThreadPool

datatype rout = RExit int | RSleep

section \<open>Arguments\<close>

definition MAX_LIB_ARGS :: nat where "MAX_LIB_ARGS = 16"

text \<open>The texts \<open>strtok(s, " ")\<close> delivers one after the other.\<close>

function tokens :: "string \<Rightarrow> string list" where
  "tokens s =
     (let u = dropWhile (\<lambda>c. c = CHR '' '') s
      in if u = [] then []
         else takeWhile (\<lambda>c. c \<noteq> CHR '' '') u # tokens (dropWhile (\<lambda>c. c \<noteq> CHR '' '') u))"
  by pat_completeness auto

termination
proof (relation "measure length")
  fix s u :: string
  assume u: "u = dropWhile (\<lambda>c. c = CHR '' '') s" "u \<noteq> []"
  then have "hd u \<noteq> CHR '' ''" using hd_dropWhile[of "\<lambda>c. c = CHR '' ''" s] by simp
  then have "dropWhile (\<lambda>c. c \<noteq> CHR '' '') u = dropWhile (\<lambda>c. c \<noteq> CHR '' '') (tl u)"
    using u(2) by (cases u) simp_all
  then have "length (dropWhile (\<lambda>c. c \<noteq> CHR '' '') u) \<le> length (tl u)"
    using length_dropWhile_le[of "\<lambda>c. c \<noteq> CHR '' ''" "tl u"] by argo
  also have "\<dots> < length u" using u(2) by (cases u) simp_all
  also have "\<dots> \<le> length s" unfolding u(1) by (rule length_dropWhile_le)
  finally show "(dropWhile (\<lambda>c. c \<noteq> CHR '' '') u, s) \<in> measure length" by simp
qed simp

declare tokens.simps [simp del]

text \<open>The vector has \<open>MAX_LIB_ARGS\<close> places, the first of them reserved; \<open>None\<close> is a write behind it.\<close>

definition make_argv :: "string \<Rightarrow> string list option" where
  "make_argv args = (if MAX_LIB_ARGS < length (tokens args) + 1 then None else Some (tokens args))"

text \<open>The loop over the options; \<open>None\<close> is the usage message.\<close>

fun parse_opts ::
    "string list \<Rightarrow> string option \<Rightarrow> string option \<Rightarrow>
     (string option \<times> string option \<times> string list option) option" where
  "parse_opts [] lib client = Some (lib, client, None)"
| "parse_opts [a] lib client = (if a = ''--'' then Some (lib, client, Some []) else None)"
| "parse_opts (a # b # rest) lib client =
     (if a = ''-l'' then parse_opts rest (Some b) client
      else if a = ''--'' then Some (lib, client, Some (b # rest))
      else if a = ''-c'' then parse_opts rest lib (Some b)
      else None)"

definition MAX_RILDS :: int where "MAX_RILDS = 3"
definition MAX_SERVICE_NAME_LENGTH :: nat where "MAX_SERVICE_NAME_LENGTH = 6"
definition MAX_CLIENT_ID_LENGTH :: nat where "MAX_CLIENT_ID_LENGTH = 2"

text \<open>\<open>strncpy\<close> and \<open>strncat\<close> into the array of the service name: \<open>None\<close> when they leave it.\<close>

definition service_name :: "string \<Rightarrow> string \<Rightarrow> string option" where
  "service_name base client =
     (let b = take MAX_SERVICE_NAME_LENGTH base; c = take MAX_SERVICE_NAME_LENGTH client
      in if length b + length c + 1 \<le> MAX_SERVICE_NAME_LENGTH then Some (b @ c) else None)"

section \<open>The program\<close>

text \<open>\<open>switchUser\<close>: what it did, and whether the process goes on.\<close>

definition kept_caps :: "cap set" where "kept_caps = {CAP_NET_ADMIN, CAP_NET_RAW, CAP_BLOCK_SUSPEND}"

definition switchUser :: "renv \<Rightarrow> rev list \<times> bool" where
  "switchUser e =
     (if \<not> setuid_ok e then ([KeepCaps, SetRadioUser False], False)
      else if \<not> capset_ok e then ([KeepCaps, SetRadioUser True, CapSet kept_caps False], False)
      else ([KeepCaps, SetRadioUser True, CapSet kept_caps True] @ (if debuggable e then [SetDumpable] else []), True))"

definition done_label :: "rev list \<Rightarrow> (rout \<times> rev list) option" where
  "done_label evs = Some (RSleep, evs @ [ThreadPool])"

text \<open>From the opened library on: the arguments, the registrations, the sleep.\<close>

definition register :: "renv \<Rightarrow> string \<Rightarrow> string list option \<Rightarrow> rev list \<Rightarrow> (rout \<times> rev list) option" where
  "register e arg0 libargs evs =
     (if \<not> sym_InitSocket e \<and> \<not> sym_Init e then Some (RExit 1, evs)
      else
        case (case libargs of Some as \<Rightarrow> Some as
              | None \<Rightarrow> make_argv (case lib_args e of Some t \<Rightarrow> t | None \<Rightarrow> ''-d /dev/ttyC0'')) of
          None \<Rightarrow> None
        | Some as \<Rightarrow>
            let argv = arg0 # as;
                evs1 = evs @ [if sym_InitSocket e then RegisterSocket argv else RegisterOld argv];
                evs2 = evs1 @ (if sym_SAP_Init e then [RegisterSap argv] else [])
            in done_label evs2)"

definition load_library ::
    "renv \<Rightarrow> string \<Rightarrow> string option \<Rightarrow> string list option \<Rightarrow> rev list \<Rightarrow> (rout \<times> rev list) option" where
  "load_library e arg0 lib libargs evs =
     (let path = (case lib of Some p \<Rightarrow> p
                  | None \<Rightarrow> (case lib_path e of Some p \<Rightarrow> p | None \<Rightarrow> ''/vendor/lib/mtk-ril.so''))
      in if lib = None \<and> path = [] then done_label evs
         else
           let (us, ok) = switchUser e; evs1 = evs @ us
           in if \<not> ok then Some (RExit 1, evs1)
              else if \<not> dl_opens e then Some (RExit 1, evs1 @ [DlOpen path])
              else register e arg0 libargs (evs1 @ [DlOpen path, StartEventLoop]))"

text \<open>\<open>main\<close>: how it ends and what it did; \<open>base\<close> is \<open>ril_service_name_base\<close>.\<close>

definition rild_main :: "renv \<Rightarrow> string \<Rightarrow> string \<Rightarrow> string list \<Rightarrow> (rout \<times> rev list) option" where
  "rild_main e base arg0 args =
     (if mtk_init e = - 1 then done_label []
      else
        case parse_opts args None None of
          None \<Rightarrow> Some (RExit 1, [])
        | Some (lib, client, libargs) \<Rightarrow>
            let cid = (case client of None \<Rightarrow> ''0'' | Some c \<Rightarrow> c)
            in if client \<noteq> None \<and> MAX_RILDS \<le> c_atoi cid then Some (RExit 0, [])
               else if take MAX_CLIENT_ID_LENGTH cid \<noteq> ''0''
               then (case service_name base cid of None \<Rightarrow> None
                     | Some nm \<Rightarrow> load_library e arg0 lib libargs [SetServiceName nm])
               else load_library e arg0 lib libargs [])"

section \<open>Properties\<close>

text \<open>What vendor code is given to run.\<close>

fun vendor_event :: "rev \<Rightarrow> bool" where
  "vendor_event (DlOpen p) = True"
| "vendor_event (RegisterOld as) = True"
| "vendor_event (RegisterSocket as) = True"
| "vendor_event (RegisterSap as) = True"
| "vendor_event StartEventLoop = True"
| "vendor_event _ = False"

text \<open>
  What the process is: whether it is the radio user, whether it keeps its capabilities over the change of
  user, and its capabilities.  Only a call that succeeds changes that; a change of user without
  \<open>PR_SET_KEEPCAPS\<close> loses all of them, and \<open>capset\<close> gives none that are not there.
\<close>

record creds =
  is_radio :: bool
  keeps :: bool
  caps :: "cap set"

definition root_creds :: creds where "root_creds = \<lparr>is_radio = False, keeps = False, caps = UNIV\<rparr>"

fun cred_step :: "rev \<Rightarrow> creds \<Rightarrow> creds" where
  "cred_step KeepCaps c = c\<lparr>keeps := True\<rparr>"
| "cred_step (SetRadioUser True) c = c\<lparr>is_radio := True, caps := (if keeps c then caps c else {})\<rparr>"
| "cred_step (CapSet cs True) c = c\<lparr>caps := caps c \<inter> cs\<rparr>"
| "cred_step _ c = c"

definition unprivileged :: "creds \<Rightarrow> bool" where
  "unprivileged c = (is_radio c \<and> caps c = kept_caps)"

text \<open>Every piece of vendor code finds the process without its privileges.\<close>

fun guarded :: "creds \<Rightarrow> rev list \<Rightarrow> bool" where
  "guarded c [] = True"
| "guarded c (v # vs) = ((if vendor_event v then unprivileged c else True) \<and> guarded (cred_step v c) vs)"

lemma guarded_append: "guarded c (xs @ ys) = (guarded c xs \<and> guarded (fold cred_step xs c) ys)"
  by (induction xs arbitrary: c) auto

lemma harmless:
  assumes "\<forall>v \<in> set vs. (\<exists>nm. v = SetServiceName nm) \<or> v = ThreadPool"
  shows "guarded c vs" "fold cred_step vs c = c"
  using assms by (induction vs arbitrary: c) auto

text \<open>Vendor events do not change the credentials.\<close>

lemma unprivileged_stays:
  assumes "unprivileged c" "\<forall>v \<in> set vs. vendor_event v \<or> v = ThreadPool"
  shows "guarded c vs"
  using assms
proof (induction vs)
  case (Cons v vs)
  then have "cred_step v c = c" by (cases v) auto
  then show ?case using Cons by auto
qed simp

lemma register_events:
  assumes "register e a l evs = Some (out, evs')"
  shows "\<exists>vs. evs' = evs @ vs \<and> (\<forall>v \<in> set vs. vendor_event v \<or> v = ThreadPool)"
  using assms by (auto simp: register_def done_label_def Let_def split: if_splits option.splits)

lemma switchUser_guarded:
  assumes "switchUser e = (us, ok)"
  shows "guarded root_creds us" "ok \<Longrightarrow> unprivileged (fold cred_step us root_creds)"
  using assms by (auto simp: switchUser_def root_creds_def unprivileged_def split: if_splits)

lemma load_guarded:
  assumes "load_library e arg0 lib libargs evs = Some (out, evs')"
    and "\<forall>v \<in> set evs. (\<exists>nm. v = SetServiceName nm) \<or> v = ThreadPool"
  shows "guarded root_creds evs'"
proof -
  obtain us ok where s: "switchUser e = (us, ok)" by (cases "switchUser e")
  note u = switchUser_guarded[OF s] and h = harmless[OF assms(2), of root_creds]
  have g: "guarded root_creds ((evs @ us) @ vs)" if "ok" "\<forall>v \<in> set vs. vendor_event v \<or> v = ThreadPool" for vs
    using u(1) u(2)[OF that(1)] unprivileged_stays[OF u(2)[OF that(1)] that(2)] h by (simp add: guarded_append)
  have r: "guarded root_creds evs'"
    if ok: "ok" and reg: "register e arg0 libargs ((evs @ us) @ [DlOpen p, StartEventLoop]) = Some (out, evs')" for p
  proof -
    obtain vs where "evs' = ((evs @ us) @ [DlOpen p, StartEventLoop]) @ vs" "\<forall>v \<in> set vs. vendor_event v \<or> v = ThreadPool"
      using register_events[OF reg] by blast
    then show ?thesis using g[OF ok, of "[DlOpen p, StartEventLoop] @ vs"] by simp
  qed
  show ?thesis
    using assms(1) u(1) h g[of "[DlOpen _]"] r
    by (auto simp: load_library_def Let_def done_label_def s guarded_append split: if_splits option.splits)
qed

text \<open>
  C32: Whatever the options, the properties and the library, no code of the vendor library runs, and
  the library is not even opened, unless the process has become the radio user and its capabilities are
  exactly the three it keeps: the calls have been made and have succeeded.
\<close>

theorem privileges_dropped_first:
  assumes "rild_main e base arg0 args = Some (out, evs)"
  shows "guarded root_creds evs"
  using assms
  by (auto simp: rild_main_def done_label_def Let_def intro: load_guarded
      split: if_splits option.splits prod.splits)

definition renv0 :: renv where
  "renv0 = \<lparr>mtk_init = 0, lib_path = None, lib_args = None, setuid_ok = True, capset_ok = True,
     debuggable = False, dl_opens = True, sym_InitSocket = True, sym_Init = True, sym_SAP_Init = False\<rparr>"

theorem privileges_dropped_first_witness:
  "\<exists>out evs. rild_main renv0 ''slot'' ''rild'' [''-c'', ''1'', ''--'', ''-d''] = Some (out, evs)
     \<and> guarded root_creds evs \<and> RegisterSocket [''rild'', ''-d''] \<in> set evs"
proof -
  obtain out evs where r: "rild_main renv0 ''slot'' ''rild'' [''-c'', ''1'', ''--'', ''-d''] = Some (out, evs)"
      "RegisterSocket [''rild'', ''-d''] \<in> set evs"
    by (auto simp: rild_main_def renv0_def c_atoi_def strip_sign_def is_space_def digit_of_def MAX_RILDS_def
        MAX_CLIENT_ID_LENGTH_def service_name_def MAX_SERVICE_NAME_LENGTH_def load_library_def switchUser_def
        register_def done_label_def c32_def Let_def)
  then show ?thesis using privileges_dropped_first[OF r(1)] by blast
qed

text \<open>Of a client id only as many characters fit as the base name leaves free.\<close>

lemma service_name_overflow:
  assumes "length base \<le> MAX_SERVICE_NAME_LENGTH" "length cid \<le> MAX_SERVICE_NAME_LENGTH"
  shows "service_name base cid = None \<longleftrightarrow> MAX_SERVICE_NAME_LENGTH \<le> length base + length cid"
  using assms by (auto simp: service_name_def Let_def)

text \<open>The arguments of the property overflow their vector from sixteen words on.\<close>

lemma make_argv_overflow: "make_argv args = None \<longleftrightarrow> 16 \<le> length (tokens args)"
  by (auto simp: make_argv_def MAX_LIB_ARGS_def)

end
