(* ===== verification/Ril_Event.thy ===== *)
theory Ril_Event
  imports X3_Prelude "HOL-Library.Monad_Syntax" "HOL-Library.Multiset"
begin

text \<open>
  The event loop of the radio interface library, \<open>src/hal/ril/libril/ril_event.cpp\<close>: a table of watched
  descriptors, and two doubly linked lists, of timers and of events to fire, threaded through the
  events themselves.  The lists are modelled as pointers; the refinement to lists of events is proved.
\<close>

section \<open>Time\<close>

type_synonym timeval = "int \<times> int"

definition timerless :: "timeval \<Rightarrow> timeval \<Rightarrow> bool" where
  "timerless a b = (if fst a = fst b then snd a < snd b else fst a < fst b)"

definition timeradd :: "timeval \<Rightarrow> timeval \<Rightarrow> timeval" where
  "timeradd a b =
     (let s = fst a + fst b; u = snd a + snd b in if 1000000 \<le> u then (s + 1, u - 1000000) else (s, u))"

definition timersub :: "timeval \<Rightarrow> timeval \<Rightarrow> timeval" where
  "timersub a b =
     (let s = fst a - fst b; u = snd a - snd b in if u < 0 then (s - 1, u + 1000000) else (s, u))"

section \<open>Events and state\<close>

text \<open>
  An event is known by its address, 0 is NULL; every field of \<open>struct ril_event\<close> is a map from addresses.
  The two sentinels have addresses of their own.  \<open>fired\<close> are the callbacks made: event, function,
  descriptor and parameter.
\<close>

definition timer_list :: nat where "timer_list = 1"
definition pending_list :: nat where "pending_list = 2"
definition MAX_FD_EVENTS :: nat where "MAX_FD_EVENTS = 8"

record est =
  nxt :: "nat \<Rightarrow> nat"
  prv :: "nat \<Rightarrow> nat"
  ev_fd :: "nat \<Rightarrow> int"
  ev_index :: "nat \<Rightarrow> int"
  ev_persist :: "nat \<Rightarrow> bool"
  ev_timeout :: "nat \<Rightarrow> timeval"
  ev_func :: "nat \<Rightarrow> nat"
  ev_param :: "nat \<Rightarrow> nat"
  watch_table :: "nat list"
  readFds :: "int set"
  nfds :: int
  fired :: "(nat \<times> nat \<times> int \<times> nat) list"

section \<open>Lists\<close>

definition init_list :: "nat \<Rightarrow> est \<Rightarrow> est" where
  "init_list l s =
     s\<lparr>nxt := (nxt s)(l := l), prv := (prv s)(l := l), ev_fd := (ev_fd s)(l := - 1),
       ev_index := (ev_index s)(l := 0), ev_persist := (ev_persist s)(l := False),
       ev_timeout := (ev_timeout s)(l := (0, 0)), ev_func := (ev_func s)(l := 0), ev_param := (ev_param s)(l := 0)\<rparr>"

text \<open>The writes in the order of the code; a write through NULL is \<open>None\<close>.\<close>

definition addToList :: "nat \<Rightarrow> nat \<Rightarrow> est \<Rightarrow> est option" where
  "addToList ev l s =
     (let s1 = s\<lparr>nxt := (nxt s)(ev := l)\<rparr>;
          s2 = s1\<lparr>prv := (prv s1)(ev := prv s1 l)\<rparr>
      in if prv s2 ev = 0 then None
         else let s3 = s2\<lparr>nxt := (nxt s2)(prv s2 ev := ev)\<rparr> in Some (s3\<lparr>prv := (prv s3)(l := ev)\<rparr>))"

definition removeFromList :: "nat \<Rightarrow> est \<Rightarrow> est option" where
  "removeFromList ev s =
     (if nxt s ev = 0 then None
      else
        let s1 = s\<lparr>prv := (prv s)(nxt s ev := prv s ev)\<rparr>
        in if prv s1 ev = 0 then None
           else
             let s2 = s1\<lparr>nxt := (nxt s1)(prv s1 ev := nxt s1 ev)\<rparr>
             in Some (s2\<lparr>nxt := (nxt s2)(ev := 0), prv := (prv s2)(ev := 0)\<rparr>))"

section \<open>Descriptors\<close>

text \<open>The greatest descriptor watched, at least 0.\<close>

definition max_fd :: "est \<Rightarrow> int" where
  "max_fd s = foldl (\<lambda>n ev. if ev \<noteq> 0 \<and> n < ev_fd s ev then ev_fd s ev else n) 0 (watch_table s)"

definition removeWatch :: "nat \<Rightarrow> nat \<Rightarrow> est \<Rightarrow> est" where
  "removeWatch ev i s =
     (let s1 = s\<lparr>watch_table := (watch_table s)[i := 0], ev_index := (ev_index s)(ev := - 1),
               readFds := readFds s - {ev_fd s ev}\<rparr>
      in if ev_fd s ev + 1 = nfds s then s1\<lparr>nfds := max_fd s1 + 1\<rparr> else s1)"

definition ril_event_init :: "est \<Rightarrow> est" where
  "ril_event_init s =
     (init_list pending_list (init_list timer_list (s\<lparr>readFds := {}\<rparr>)))\<lparr>watch_table := replicate MAX_FD_EVENTS 0\<rparr>"

definition ril_event_set :: "nat \<Rightarrow> int \<Rightarrow> bool \<Rightarrow> nat \<Rightarrow> nat \<Rightarrow> est \<Rightarrow> est" where
  "ril_event_set ev fd persist func param s =
     s\<lparr>nxt := (nxt s)(ev := 0), prv := (prv s)(ev := 0), ev_fd := (ev_fd s)(ev := fd),
       ev_index := (ev_index s)(ev := - 1), ev_persist := (ev_persist s)(ev := persist),
       ev_timeout := (ev_timeout s)(ev := (0, 0)), ev_func := (ev_func s)(ev := func),
       ev_param := (ev_param s)(ev := param)\<rparr>"

text \<open>The first free place, if there is one; without one nothing happens.\<close>

fun first_free :: "nat list \<Rightarrow> nat \<Rightarrow> nat option" where
  "first_free [] i = None"
| "first_free (x # xs) i = (if x = 0 then Some i else first_free xs (i + 1))"

definition ril_event_add :: "nat \<Rightarrow> est \<Rightarrow> est" where
  "ril_event_add ev s =
     (case first_free (watch_table s) 0 of
        None \<Rightarrow> s
      | Some i \<Rightarrow>
          s\<lparr>watch_table := (watch_table s)[i := ev], ev_index := (ev_index s)(ev := int i),
            readFds := insert (ev_fd s ev) (readFds s),
            nfds := (if nfds s \<le> ev_fd s ev then ev_fd s ev + 1 else nfds s)\<rparr>)"

definition ril_event_del :: "nat \<Rightarrow> est \<Rightarrow> est" where
  "ril_event_del ev s =
     (if ev_index s ev < 0 \<or> int MAX_FD_EVENTS \<le> ev_index s ev then s
      else removeWatch ev (nat (ev_index s ev)) s)"

section \<open>Timers\<close>

text \<open>The walk to the first timer that is not earlier; it may run forever on a damaged list.\<close>

partial_function (option) timer_pos :: "est \<Rightarrow> timeval \<Rightarrow> nat \<Rightarrow> nat option" where
  "timer_pos s t l =
     (if l = 0 then None
      else if timerless (ev_timeout s l) t \<and> l \<noteq> timer_list then timer_pos s t (nxt s l)
      else Some l)"

definition ril_timer_add :: "nat \<Rightarrow> timeval option \<Rightarrow> timeval \<Rightarrow> est \<Rightarrow> est option" where
  "ril_timer_add ev tv now s =
     (case tv of
        None \<Rightarrow> Some s
      | Some d \<Rightarrow>
          let l = nxt s timer_list;
              s1 = s\<lparr>ev_fd := (ev_fd s)(ev := - 1), ev_timeout := (ev_timeout s)(ev := timeradd now d)\<rparr>
          in do { p \<leftarrow> timer_pos s1 (ev_timeout s1 ev) l; addToList ev p s1 })"

text \<open>What \<open>select\<close> is told to wait; \<open>None\<close> is for ever.\<close>

definition calcNextTimeout :: "timeval \<Rightarrow> est \<Rightarrow> timeval option" where
  "calcNextTimeout now s =
     (let tev = nxt s timer_list
      in if tev = timer_list then None
         else if timerless now (ev_timeout s tev) then Some (timersub (ev_timeout s tev) now) else Some (0, 0))"

section \<open>One round of the loop\<close>

partial_function (option) timeouts_loop :: "timeval \<Rightarrow> nat \<Rightarrow> est \<Rightarrow> est option" where
  "timeouts_loop now tev s =
     (if tev = 0 then None
      else if tev \<noteq> timer_list \<and> timerless (ev_timeout s tev) now then
        do { s1 \<leftarrow> removeFromList tev s; s2 \<leftarrow> addToList tev pending_list s1; timeouts_loop now (nxt s tev) s2 }
      else Some s)"

definition processTimeouts :: "timeval \<Rightarrow> est \<Rightarrow> est option" where
  "processTimeouts now s = timeouts_loop now (nxt s timer_list) s"

text \<open>The places of the table from \<open>i\<close> on, \<open>k\<close> of them left; \<open>n\<close> descriptors are ready.\<close>

fun readies_loop :: "int set \<Rightarrow> nat \<Rightarrow> nat \<Rightarrow> int \<Rightarrow> est \<Rightarrow> est option" where
  "readies_loop rfds 0 i n s = Some s"
| "readies_loop rfds (Suc k) i n s =
     (if n \<le> 0 then Some s
      else
        let rev = watch_table s ! i
        in if rev \<noteq> 0 \<and> ev_fd s rev \<in> rfds then
             do { s1 \<leftarrow> addToList rev pending_list s;
                  readies_loop rfds k (i + 1) (n - 1) (if ev_persist s1 rev then s1 else removeWatch rev i s1) }
           else readies_loop rfds k (i + 1) n s)"

definition processReadReadies :: "int set \<Rightarrow> int \<Rightarrow> est \<Rightarrow> est option" where
  "processReadReadies rfds n s = readies_loop rfds MAX_FD_EVENTS 0 n s"

text \<open>
  Callbacks are code of the clients; of what they do the calls of this interface count.  \<open>cb\<close> gives
  them for a function and its parameter in the state of the call; \<open>TimerAdd\<close> comes with the time at
  which it is made.
\<close>

datatype ecall = EvSet nat int bool nat nat | EvAdd nat | TimerAdd nat timeval timeval | EvDel nat

fun run_call :: "ecall \<Rightarrow> est \<Rightarrow> est option" where
  "run_call (EvSet ev fd persist func param) s = Some (ril_event_set ev fd persist func param s)"
| "run_call (EvAdd ev) s = Some (ril_event_add ev s)"
| "run_call (TimerAdd ev d now) s = ril_timer_add ev (Some d) now s"
| "run_call (EvDel ev) s = Some (ril_event_del ev s)"

fun run_calls :: "ecall list \<Rightarrow> est \<Rightarrow> est option" where
  "run_calls [] s = Some s"
| "run_calls (c # cs) s = do { s1 \<leftarrow> run_call c s; run_calls cs s1 }"

type_synonym callbacks = "nat \<Rightarrow> nat \<Rightarrow> est \<Rightarrow> ecall list"

partial_function (option) fire_loop :: "callbacks \<Rightarrow> nat \<Rightarrow> est \<Rightarrow> est option" where
  "fire_loop cb ev s =
     (if ev = 0 then None
      else if ev \<noteq> pending_list then
        do { s1 \<leftarrow> removeFromList ev s;
             s2 \<leftarrow> run_calls (cb (ev_func s1 ev) (ev_param s1 ev) s1)
                     (s1\<lparr>fired := fired s1 @ [(ev, ev_func s1 ev, ev_fd s1 ev, ev_param s1 ev)]\<rparr>);
             fire_loop cb (nxt s ev) s2 }
      else Some s)"

definition firePending :: "callbacks \<Rightarrow> est \<Rightarrow> est option" where
  "firePending cb s = fire_loop cb (nxt s pending_list) s"

text \<open>
  One round of \<open>ril_event_loop\<close> after \<open>select\<close> has returned \<open>n\<close> with the set \<open>rfds\<close>; \<open>now\<close> is read behind
  it.  For a negative \<open>n\<close> the loop goes on after \<open>EINTR\<close> and ends otherwise, both without a change.
\<close>

definition event_round :: "callbacks \<Rightarrow> int \<Rightarrow> int set \<Rightarrow> timeval \<Rightarrow> est \<Rightarrow> est option" where
  "event_round cb n rfds now s =
     (if n < 0 then Some s
      else do { s1 \<leftarrow> processTimeouts now s; s2 \<leftarrow> processReadReadies rfds n s1; firePending cb s2 })"

section \<open>Rings\<close>

text \<open>Neighbours of a sequence point to each other; a ring is a sentinel and its elements, all different.\<close>

fun linked :: "(nat \<Rightarrow> nat) \<Rightarrow> (nat \<Rightarrow> nat) \<Rightarrow> nat list \<Rightarrow> bool" where
  "linked n p (a # b # r) = (n a = b \<and> p b = a \<and> linked n p (b # r))"
| "linked n p _ = True"

definition ring :: "(nat \<Rightarrow> nat) \<Rightarrow> (nat \<Rightarrow> nat) \<Rightarrow> nat \<Rightarrow> nat list \<Rightarrow> bool" where
  "ring n p l xs = (linked n p (l # xs @ [l]) \<and> distinct (l # xs) \<and> 0 \<notin> set (l # xs))"

lemma linked_cong:
  "\<forall>x \<in> set (butlast zs). n' x = n x \<Longrightarrow> \<forall>x \<in> set (tl zs). p' x = p x \<Longrightarrow> linked n' p' zs = linked n p zs"
proof (induction n p zs rule: linked.induct)
  case (1 n p a b r)
  have "\<forall>x \<in> set (tl (b # r)). p' x = p x" using 1(3) by simp
  moreover have "\<forall>x \<in> set (butlast (b # r)). n' x = n x" using 1(2) by simp
  ultimately show ?case using 1 by simp
qed simp_all

lemma linked_split: "linked n p (as @ a # bs) = (linked n p (as @ [a]) \<and> linked n p (a # bs))"
proof (induction as)
  case (Cons x as)
  then show ?case by (cases as) auto
qed simp

lemma ring_cong:
  "\<forall>x \<in> set (l # xs). n' x = n x \<and> p' x = p x \<Longrightarrow> ring n' p' l xs = ring n p l xs"
  unfolding ring_def by (subst linked_cong[of _ n' n p' p]) auto

text \<open>Cutting a ring between two of its elements.\<close>

lemma ring_cut:
  assumes "ring n p l (xs @ ys)"
  obtains bs a q cs where "l # xs = bs @ [a]" "ys @ [l] = q # cs" "a = last (l # xs)" "q = hd (ys @ [l])"
    "linked n p (bs @ [a])" "n a = q" "p q = a" "linked n p (q # cs)"
proof -
  define a where "a = last (l # xs)"
  define bs where "bs = butlast (l # xs)"
  define q where "q = hd (ys @ [l])"
  define cs where "cs = tl (ys @ [l])"
  have 1: "l # xs = bs @ [a]" unfolding a_def bs_def by (rule append_butlast_last_id[symmetric]) simp
  have 2: "ys @ [l] = q # cs" unfolding q_def cs_def by simp
  have "linked n p ((l # xs) @ ys @ [l])" using assms by (simp add: ring_def)
  then have "linked n p (bs @ a # q # cs)" unfolding 1 2 by simp
  then have "linked n p (bs @ [a])" "linked n p (a # q # cs)"
    using linked_split[of n p bs a "q # cs"] by simp_all
  then show thesis using that[OF 1 2 a_def q_def] by simp
qed

lemma ring_ends:
  assumes "ring n p l (xs @ ys)"
  shows "n (last (l # xs)) = hd (ys @ [l])" "p (hd (ys @ [l])) = last (l # xs)"
    "last (l # xs) \<in> set (l # xs)" "hd (ys @ [l]) \<in> set (l # ys)" "last (l # xs) \<noteq> 0"
proof -
  obtain bs a q cs where "a = last (l # xs)" "q = hd (ys @ [l])" "n a = q" "p q = a"
    by (rule ring_cut[OF assms])
  then show "n (last (l # xs)) = hd (ys @ [l])" "p (hd (ys @ [l])) = last (l # xs)" by simp_all
  show a: "last (l # xs) \<in> set (l # xs)" by (rule last_in_set) simp
  show "hd (ys @ [l]) \<in> set (l # ys)" by (cases ys) simp_all
  have "0 \<notin> set (l # xs)" using assms by (auto simp: ring_def)
  then show "last (l # xs) \<noteq> 0" using a by metis
qed

lemma ring_insert:
  assumes r: "ring n p l (xs @ ys)" and e: "e \<notin> set (l # xs @ ys)" "e \<noteq> 0"
  shows "ring (n(e := hd (ys @ [l]), last (l # xs) := e)) (p(e := last (l # xs), hd (ys @ [l]) := e)) l (xs @ e # ys)"
proof -
  obtain bs a q cs where c: "l # xs = bs @ [a]" "ys @ [l] = q # cs" and aq: "a = last (l # xs)" "q = hd (ys @ [l])"
      and l: "linked n p (bs @ [a])" "linked n p (q # cs)"
    by (rule ring_cut[OF r])
  let ?n = "n(e := q, a := e)" and ?p = "p(e := a, q := e)"
  have d: "distinct (bs @ [a])" "distinct (q # cs)" "set xs \<inter> set (q # cs) = {}" "set (bs @ [a]) \<inter> set ys = {}"
    "e \<notin> set (bs @ [a])" "e \<notin> set (q # cs)"
    using r e unfolding ring_def c[symmetric] by auto
  have t: "tl (bs @ [a]) = xs" "butlast (q # cs) = ys" unfolding c[symmetric] by simp_all
  have 1: "linked ?n ?p (bs @ [a])"
  proof (subst linked_cong[of _ ?n n ?p p])
    show "\<forall>x \<in> set (butlast (bs @ [a])). ?n x = n x" using d by auto
    show "\<forall>x \<in> set (tl (bs @ [a])). ?p x = p x" unfolding t using d(3) e(1) by auto
  qed (rule l(1))
  have 2: "linked ?n ?p (q # cs)"
  proof (subst linked_cong[of _ ?n n ?p p])
    show "\<forall>x \<in> set (butlast (q # cs)). ?n x = n x" unfolding t using d(4) e(1) by auto
    show "\<forall>x \<in> set (tl (q # cs)). ?p x = p x" using d(2,6) by auto
  qed (rule l(2))
  have "linked ?n ?p (a # e # q # cs)" using 2 d(5,6) by auto
  then have "linked ?n ?p (bs @ a # e # q # cs)" using 1 linked_split[of ?n ?p bs a "e # q # cs"] by simp
  moreover have "l # (xs @ e # ys) @ [l] = (l # xs) @ e # (ys @ [l])" by simp
  ultimately have "linked ?n ?p (l # (xs @ e # ys) @ [l])" unfolding c by simp
  then show ?thesis using r e unfolding ring_def aq by auto
qed

lemma ring_remove:
  assumes r: "ring n p l (xs @ e # ys)"
  shows "ring (n(last (l # xs) := hd (ys @ [l]), e := 0)) (p(hd (ys @ [l]) := last (l # xs), e := 0)) l (xs @ ys)"
    and "n e = hd (ys @ [l])" "p e = last (l # xs)" "n e \<noteq> 0" "p e \<noteq> 0" "n e \<noteq> e" "p e \<noteq> e"
proof -
  obtain bs a q' cs' where c: "l # xs = bs @ [a]" "(e # ys) @ [l] = q' # cs'" and aq: "a = last (l # xs)"
      and l: "linked n p (bs @ [a])" "p q' = a" "linked n p (q' # cs')"
    by (rule ring_cut[OF r])
  have q': "q' = e" "cs' = ys @ [l]" using c(2) by simp_all
  obtain q cs where q: "ys @ [l] = q # cs" "q = hd (ys @ [l])" by (cases "ys @ [l]") auto
  have en: "n e = q" "p e = a" "p q = e" "linked n p (q # cs)"
    using l(2,3) unfolding q' q(1) by simp_all
  have d: "distinct (bs @ [a])" "distinct (q # cs)" "set xs \<inter> set (q # cs) = {}" "set (bs @ [a]) \<inter> set ys = {}"
    "e \<notin> set (bs @ [a])" "e \<notin> set (q # cs)" "0 \<notin> set (bs @ [a])" "0 \<notin> set (q # cs)"
    using r unfolding ring_def c(1)[symmetric] q(1)[symmetric] by auto
  show "n e = hd (ys @ [l])" "p e = last (l # xs)" using en(1,2) q(2) aq by simp_all
  show "n e \<noteq> 0" "p e \<noteq> 0" "n e \<noteq> e" "p e \<noteq> e" using en(1,2) d by auto
  let ?n = "n(a := q, e := 0)" and ?p = "p(q := a, e := 0)"
  have t: "tl (bs @ [a]) = xs" "butlast (q # cs) = ys" unfolding c(1)[symmetric] q(1)[symmetric] by simp_all
  have ee: "e \<notin> set xs" "e \<notin> set ys" using r by (auto simp: ring_def)
  have 1: "linked ?n ?p (bs @ [a])"
  proof (subst linked_cong[of _ ?n n ?p p])
    show "\<forall>x \<in> set (butlast (bs @ [a])). ?n x = n x" using d by auto
    show "\<forall>x \<in> set (tl (bs @ [a])). ?p x = p x" unfolding t using d(3) ee by auto
  qed (rule l(1))
  have 2: "linked ?n ?p (q # cs)"
  proof (subst linked_cong[of _ ?n n ?p p])
    show "\<forall>x \<in> set (butlast (q # cs)). ?n x = n x" unfolding t using d(4) ee by auto
    show "\<forall>x \<in> set (tl (q # cs)). ?p x = p x" using d(2,6) by auto
  qed (rule en(4))
  have "linked ?n ?p (a # q # cs)" using 2 d(5,6) by auto
  then have "linked ?n ?p (bs @ a # q # cs)" using 1 linked_split[of ?n ?p bs a "q # cs"] by simp
  moreover have "l # (xs @ ys) @ [l] = (l # xs) @ (ys @ [l])" by simp
  ultimately have "linked ?n ?p (l # (xs @ ys) @ [l])" unfolding c(1) q(1) by simp
  then show "ring (n(last (l # xs) := hd (ys @ [l]), e := 0)) (p(hd (ys @ [l]) := last (l # xs), e := 0)) l (xs @ ys)"
    using r unfolding ring_def aq q(2) by auto
qed

section \<open>The two lists\<close>

text \<open>
  The state represents the timers \<open>ts\<close> and the events to fire \<open>ps\<close>: two rings apart from each other,
  the timers sorted; the table has its size, and what it holds is neither twice in it nor a timer.
\<close>

definition watched :: "est \<Rightarrow> nat list" where
  "watched s = filter (\<lambda>e. e \<noteq> 0) (watch_table s)"

definition sorted_timers :: "est \<Rightarrow> nat list \<Rightarrow> bool" where
  "sorted_timers s ts = sorted_wrt (\<lambda>x y. \<not> timerless (ev_timeout s y) (ev_timeout s x)) ts"

definition ev_rep :: "est \<Rightarrow> nat list \<Rightarrow> nat list \<Rightarrow> bool" where
  "ev_rep s ts ps =
     (ring (nxt s) (prv s) timer_list ts \<and> ring (nxt s) (prv s) pending_list ps
      \<and> set (timer_list # ts) \<inter> set (pending_list # ps) = {} \<and> sorted_timers s ts
      \<and> length (watch_table s) = MAX_FD_EVENTS \<and> distinct (watched s)
      \<and> set (watched s) \<inter> set (timer_list # pending_list # ts) = {})"

definition expired :: "timeval \<Rightarrow> est \<Rightarrow> nat \<Rightarrow> bool" where
  "expired now s e = timerless (ev_timeout s e) now"

lemma timerless_trans: "\<not> timerless b a \<Longrightarrow> \<not> timerless c b \<Longrightarrow> \<not> timerless c a"
  by (auto simp: timerless_def split: if_splits)

lemma timerless_asym: "timerless a b \<Longrightarrow> \<not> timerless b a"
  by (auto simp: timerless_def split: if_splits)

lemma addToList_ring:
  assumes "ring (nxt s) (prv s) l (xs @ ys)" "ev \<notin> set (l # xs @ ys)"
  shows "addToList ev (hd (ys @ [l])) s = Some (s\<lparr>
    nxt := (nxt s)(ev := hd (ys @ [l]), last (l # xs) := ev),
    prv := (prv s)(ev := last (l # xs), hd (ys @ [l]) := ev)\<rparr>)"
proof -
  note e = ring_ends[OF assms(1)]
  have "ev \<noteq> hd (ys @ [l])" using e(4) assms(2) by auto
  then show ?thesis using e(2,5) by (simp add: addToList_def Let_def)
qed

lemma removeFromList_ring:
  assumes "ring (nxt s) (prv s) l (xs @ e # ys)"
  shows "removeFromList e s = Some (s\<lparr>
    nxt := (nxt s)(last (l # xs) := hd (ys @ [l]), e := 0),
    prv := (prv s)(hd (ys @ [l]) := last (l # xs), e := 0)\<rparr>)"
proof -
  note r = ring_remove[OF assms]
  have "hd (ys @ [l]) \<noteq> e" using r(2,6) by simp
  then show ?thesis using r(2-5) by (simp add: removeFromList_def Let_def)
qed

text \<open>Adding at the end of the events to fire leaves the timers alone.\<close>

lemma pend_event:
  assumes "ev_rep s ts ps" "ev \<notin> set (timer_list # pending_list # ts @ ps)" "ev \<noteq> 0"
  shows "\<exists>n p. addToList ev pending_list s = Some (s\<lparr>nxt := n, prv := p\<rparr>)
    \<and> ev_rep (s\<lparr>nxt := n, prv := p\<rparr>) ts (ps @ [ev])"
proof -
  let ?a = "last (pending_list # ps)"
  let ?n = "(nxt s)(ev := pending_list, ?a := ev)" and ?p = "(prv s)(ev := ?a, pending_list := ev)"
  have r: "ring (nxt s) (prv s) pending_list (ps @ [])" using assms(1) by (simp add: ev_rep_def)
  have a: "?a \<in> set (pending_list # ps)" by (rule last_in_set) simp
  have add: "addToList ev pending_list s = Some (s\<lparr>nxt := ?n, prv := ?p\<rparr>)"
    using addToList_ring[OF r, of ev] assms(2) by simp
  have 1: "ring ?n ?p pending_list (ps @ [ev])"
    using ring_insert[OF r, of ev] assms(2,3) by simp
  have 2: "ring ?n ?p timer_list ts = ring (nxt s) (prv s) timer_list ts"
    using assms(1,2) a by (intro ring_cong) (auto simp: ev_rep_def)
  have "ev_rep (s\<lparr>nxt := ?n, prv := ?p\<rparr>) ts (ps @ [ev])"
    using assms 1 2 by (auto simp: ev_rep_def sorted_timers_def watched_def)
  then show ?thesis using add by blast
qed

text \<open>Taking the first timer, or the first event to fire.\<close>

lemma take_timer:
  assumes "ev_rep s (e # ts) ps"
  shows "\<exists>n p. removeFromList e s = Some (s\<lparr>nxt := n, prv := p\<rparr>) \<and> ev_rep (s\<lparr>nxt := n, prv := p\<rparr>) ts ps
    \<and> nxt s e = hd (ts @ [timer_list]) \<and> e \<notin> set (timer_list # pending_list # ts @ ps) \<and> e \<noteq> 0"
proof -
  let ?q = "hd (ts @ [timer_list])"
  let ?n = "(nxt s)(timer_list := ?q, e := 0)" and ?p = "(prv s)(?q := timer_list, e := 0)"
  have r: "ring (nxt s) (prv s) timer_list ([] @ e # ts)" using assms by (simp add: ev_rep_def)
  have q: "?q \<in> set (timer_list # ts)" by (cases ts) simp_all
  have 1: "ring ?n ?p timer_list ts" using ring_remove(1)[OF r] by simp
  have 2: "ring ?n ?p pending_list ps = ring (nxt s) (prv s) pending_list ps"
    using assms q by (intro ring_cong) (auto simp: ev_rep_def)
  have "ev_rep (s\<lparr>nxt := ?n, prv := ?p\<rparr>) ts ps"
    using assms 1 2 by (auto simp: ev_rep_def sorted_timers_def watched_def)
  moreover have "removeFromList e s = Some (s\<lparr>nxt := ?n, prv := ?p\<rparr>)"
    using removeFromList_ring[OF r] by simp
  moreover have "nxt s e = ?q" using ring_remove(2)[OF r] by simp
  moreover have "e \<notin> set (timer_list # pending_list # ts @ ps)" "e \<noteq> 0"
    using assms by (auto simp: ev_rep_def ring_def)
  ultimately show ?thesis by blast
qed

lemma take_pending:
  assumes "ev_rep s ts (e # ps)"
  shows "\<exists>n p. removeFromList e s = Some (s\<lparr>nxt := n, prv := p\<rparr>) \<and> ev_rep (s\<lparr>nxt := n, prv := p\<rparr>) ts ps
    \<and> nxt s e = hd (ps @ [pending_list]) \<and> e \<noteq> 0 \<and> e \<noteq> pending_list"
proof -
  let ?q = "hd (ps @ [pending_list])"
  let ?n = "(nxt s)(pending_list := ?q, e := 0)" and ?p = "(prv s)(?q := pending_list, e := 0)"
  have r: "ring (nxt s) (prv s) pending_list ([] @ e # ps)" using assms by (simp add: ev_rep_def)
  have q: "?q \<in> set (pending_list # ps)" by (cases ps) simp_all
  have 1: "ring ?n ?p pending_list ps" using ring_remove(1)[OF r] by simp
  have 2: "ring ?n ?p timer_list ts = ring (nxt s) (prv s) timer_list ts"
    using assms q by (intro ring_cong) (auto simp: ev_rep_def)
  have "ev_rep (s\<lparr>nxt := ?n, prv := ?p\<rparr>) ts ps"
    using assms 1 2 by (auto simp: ev_rep_def sorted_timers_def watched_def)
  moreover have "removeFromList e s = Some (s\<lparr>nxt := ?n, prv := ?p\<rparr>)"
    using removeFromList_ring[OF r] by simp
  moreover have "nxt s e = ?q" using ring_remove(2)[OF r] by simp
  moreover have "e \<noteq> 0" "e \<noteq> pending_list" using assms by (auto simp: ev_rep_def ring_def)
  ultimately show ?thesis by blast
qed

section \<open>Adding a timer\<close>

definition insert_timer :: "est \<Rightarrow> timeval \<Rightarrow> nat \<Rightarrow> nat list \<Rightarrow> nat list" where
  "insert_timer s t ev ts =
     takeWhile (\<lambda>e. timerless (ev_timeout s e) t) ts @ ev # dropWhile (\<lambda>e. timerless (ev_timeout s e) t) ts"

lemma timer_pos_ring:
  assumes "ring (nxt s) (prv s) timer_list (xs @ ys)"
  shows "timer_pos s t (hd (ys @ [timer_list])) =
    Some (hd (dropWhile (\<lambda>e. timerless (ev_timeout s e) t) ys @ [timer_list]))"
  using assms
proof (induction ys arbitrary: xs)
  case Nil
  show ?case by (subst timer_pos.simps) (simp add: timer_list_def)
next
  case (Cons y ys)
  have y: "y \<noteq> 0" "y \<noteq> timer_list" using Cons.prems by (auto simp: ring_def)
  have n: "nxt s y = hd (ys @ [timer_list])" by (rule ring_remove(2)[OF Cons.prems])
  have i: "timer_pos s t (hd (ys @ [timer_list])) =
      Some (hd (dropWhile (\<lambda>e. timerless (ev_timeout s e) t) ys @ [timer_list]))"
    using Cons.IH[of "xs @ [y]"] Cons.prems by simp
  show ?case using y n i by (subst timer_pos.simps) simp
qed

lemma sorted_between:
  fixes f :: "nat \<Rightarrow> timeval"
  assumes "sorted_wrt (\<lambda>x y. \<not> timerless (f y) (f x)) (xs @ ys)" "ev \<notin> set (xs @ ys)"
    "\<forall>x \<in> set xs. \<not> timerless t (f x)" "\<forall>y \<in> set ys. \<not> timerless (f y) t"
  shows "sorted_wrt (\<lambda>x y. \<not> timerless ((f(ev := t)) y) ((f(ev := t)) x)) (xs @ ev # ys)"
proof -
  let ?R = "\<lambda>x y. \<not> timerless ((f(ev := t)) y) ((f(ev := t)) x)"
  have "sorted_wrt ?R (xs @ ys)"
    by (rule sorted_wrt_mono_rel[OF _ assms(1)]) (use assms(2) in auto)
  then show ?thesis using assms(2-4) by (auto simp: sorted_wrt_append)
qed

lemma sorted_insert:
  assumes "sorted_timers s ts" "ev \<notin> set ts"
  shows "sorted_timers (s\<lparr>ev_timeout := (ev_timeout s)(ev := t)\<rparr>) (insert_timer s t ev ts)"
proof -
  let ?P = "\<lambda>e. timerless (ev_timeout s e) t" and ?R = "\<lambda>x y. \<not> timerless (ev_timeout s y) (ev_timeout s x)"
  have s: "sorted_wrt ?R (takeWhile ?P ts @ dropWhile ?P ts)" using assms(1) by (simp add: sorted_timers_def)
  have a: "\<forall>x \<in> set (takeWhile ?P ts). \<not> timerless t (ev_timeout s x)"
    by (metis set_takeWhileD timerless_asym)
  have b: "\<forall>y \<in> set (dropWhile ?P ts). \<not> timerless (ev_timeout s y) t"
  proof
    fix y assume y: "y \<in> set (dropWhile ?P ts)"
    then obtain z zs where z: "dropWhile ?P ts = z # zs" by (cases "dropWhile ?P ts") auto
    then have "\<not> ?P z" using hd_dropWhile[of ?P ts] by auto
    moreover have "sorted_wrt ?R (z # zs)" using s unfolding z sorted_wrt_append by blast
    then have "y = z \<or> ?R z y" using y unfolding z by auto
    ultimately show "\<not> timerless (ev_timeout s y) t" using timerless_trans by blast
  qed
  have e: "ev \<notin> set (takeWhile ?P ts @ dropWhile ?P ts)" using assms(2) by simp
  show ?thesis
    using sorted_between[OF s e a b] by (simp add: sorted_timers_def insert_timer_def)
qed

lemma timer_added:
  assumes r: "ev_rep s ts ps" and f: "ev \<notin> set (timer_list # pending_list # ts @ ps @ watched s)" "ev \<noteq> 0"
  shows "\<exists>n p. ril_timer_add ev (Some d) now s = Some (s\<lparr>ev_fd := (ev_fd s)(ev := - 1),
      ev_timeout := (ev_timeout s)(ev := timeradd now d), nxt := n, prv := p\<rparr>)
    \<and> ev_rep (s\<lparr>ev_fd := (ev_fd s)(ev := - 1), ev_timeout := (ev_timeout s)(ev := timeradd now d), nxt := n, prv := p\<rparr>)
        (insert_timer s (timeradd now d) ev ts) ps"
proof -
  define t where "t = timeradd now d"
  define xs where "xs = takeWhile (\<lambda>e. timerless (ev_timeout s e) t) ts"
  define ys where "ys = dropWhile (\<lambda>e. timerless (ev_timeout s e) t) ts"
  define q where "q = hd (ys @ [timer_list])"
  define a where "a = last (timer_list # xs)"
  let ?s1 = "s\<lparr>ev_fd := (ev_fd s)(ev := - 1), ev_timeout := (ev_timeout s)(ev := t)\<rparr>"
  let ?n = "(nxt s)(ev := q, a := ev)" and ?p = "(prv s)(ev := a, q := ev)"
  have ts: "ts = xs @ ys" by (simp add: xs_def ys_def)
  have ins: "insert_timer s t ev ts = xs @ ev # ys" by (simp add: insert_timer_def xs_def ys_def)
  have m: "ev \<notin> set (timer_list # xs @ ys)" "ev \<notin> set (pending_list # ps)" "ev \<notin> set (watched s)"
    using f(1) by (simp_all add: ts)
  have w: "dropWhile (\<lambda>e. timerless (ev_timeout ?s1 e) t) ts = ys"
    unfolding ys_def using m(1) by (intro dropWhile_cong) (auto simp: ts)
  have ring1: "ring (nxt s) (prv s) timer_list (xs @ ys)" using r by (simp add: ev_rep_def ts)
  have first: "nxt s timer_list = hd (ts @ [timer_list])"
    using ring_ends(1)[of "nxt s" "prv s" timer_list "[]" ts] ring1 by (simp add: ts)
  have pos: "timer_pos ?s1 t (nxt s timer_list) = Some q"
    using timer_pos_ring[of ?s1 "[]" ts t] ring1 unfolding w first q_def by (simp add: ts)
  have "addToList ev q ?s1 = Some (?s1\<lparr>nxt := ?n, prv := ?p\<rparr>)"
    using addToList_ring[of ?s1 timer_list xs ys ev] ring1 m(1) by (simp add: q_def a_def)
  then have add: "ril_timer_add ev (Some d) now s = Some (?s1\<lparr>nxt := ?n, prv := ?p\<rparr>)"
    using pos by (simp add: ril_timer_add_def Let_def t_def[symmetric])
  have i: "ring ?n ?p timer_list (xs @ ev # ys)"
    unfolding q_def a_def by (rule ring_insert[OF ring1 m(1) f(2)])
  have ends: "a \<in> set (timer_list # ts)" "q \<in> set (timer_list # ts)"
    using ring_ends(3,4)[OF ring1] by (auto simp: ts a_def q_def)
  have "ring ?n ?p pending_list ps = ring (nxt s) (prv s) pending_list ps"
  proof (rule ring_cong, intro ballI)
    fix x assume x: "x \<in> set (pending_list # ps)"
    then have "x \<noteq> ev" "x \<noteq> a" "x \<noteq> q" using m(2) ends r unfolding ev_rep_def by blast+
    then show "?n x = nxt s x \<and> ?p x = prv s x" by simp
  qed
  then have j: "ring ?n ?p pending_list ps" using r by (simp add: ev_rep_def)
  have k: "sorted_timers (?s1\<lparr>nxt := ?n, prv := ?p\<rparr>) (xs @ ev # ys)"
    using sorted_insert[of s ts ev t] r m(1) unfolding ins by (simp add: ev_rep_def sorted_timers_def ts)
  have "ev_rep (?s1\<lparr>nxt := ?n, prv := ?p\<rparr>) (xs @ ev # ys) ps"
    using r i j k m by (auto simp: ev_rep_def watched_def ts)
  then show ?thesis using add unfolding ins[symmetric] t_def
    by (intro exI[of _ ?n] exI[of _ ?p] conjI) (simp_all only: t_def)
qed

section \<open>Expired timers\<close>

text \<open>Two states that differ in the pointers only.\<close>

definition relinked :: "est \<Rightarrow> est \<Rightarrow> bool" where
  "relinked s s' = (\<exists>n p. s' = s\<lparr>nxt := n, prv := p\<rparr>)"

lemma relinkedI: "relinked s (s\<lparr>nxt := n, prv := p\<rparr>)"
  unfolding relinked_def by blast

lemma relinked_refl: "relinked s s"
  using relinkedI[where s = s and n = "nxt s" and p = "prv s"] by simp

lemma relinked_trans: "relinked s s1 \<Longrightarrow> relinked s1 s2 \<Longrightarrow> relinked s s2"
proof -
  assume "relinked s s1" "relinked s1 s2"
  then obtain n p n' p' where "s2 = s\<lparr>nxt := n, prv := p\<rparr>\<lparr>nxt := n', prv := p'\<rparr>"
    unfolding relinked_def by blast
  then have "s2 = s\<lparr>nxt := n', prv := p'\<rparr>" by simp
  then show "relinked s s2" using relinkedI by simp
qed

lemma relinked_same:
  "relinked s s' \<Longrightarrow> ev_timeout s' = ev_timeout s \<and> ev_fd s' = ev_fd s \<and> ev_func s' = ev_func s
     \<and> ev_param s' = ev_param s \<and> ev_persist s' = ev_persist s \<and> watch_table s' = watch_table s
     \<and> watched s' = watched s \<and> fired s' = fired s"
  by (auto simp: relinked_def watched_def)

lemma timeouts_loop_moves:
  assumes "ev_rep s ts ps"
  shows "\<exists>s'. timeouts_loop now (hd (ts @ [timer_list])) s = Some s' \<and> relinked s s'
    \<and> ev_rep s' (dropWhile (expired now s) ts) (ps @ takeWhile (expired now s) ts)"
  using assms
proof (induction ts arbitrary: s ps)
  case Nil
  note relinked_refl[of s]
  then show ?case using Nil by (subst timeouts_loop.simps) (simp add: timer_list_def)
next
  case (Cons e ts)
  have e: "e \<noteq> 0" "e \<noteq> timer_list" using Cons.prems by (auto simp: ev_rep_def ring_def)
  show ?case
  proof (cases "expired now s e")
    case False
    note relinked_refl[of s]
    then show ?thesis using Cons.prems e False by (subst timeouts_loop.simps) (simp add: expired_def)
  next
    case True
    obtain n p where 1: "removeFromList e s = Some (s\<lparr>nxt := n, prv := p\<rparr>)"
        "ev_rep (s\<lparr>nxt := n, prv := p\<rparr>) ts ps" "nxt s e = hd (ts @ [timer_list])"
        "e \<notin> set (timer_list # pending_list # ts @ ps)"
      using take_timer[OF Cons.prems] by blast
    obtain n2 p2 where 2: "addToList e pending_list (s\<lparr>nxt := n, prv := p\<rparr>) = Some (s\<lparr>nxt := n2, prv := p2\<rparr>)"
        "ev_rep (s\<lparr>nxt := n2, prv := p2\<rparr>) ts (ps @ [e])"
      using pend_event[OF 1(2,4) e(1)] by auto
    have x: "expired now (s\<lparr>nxt := n2, prv := p2\<rparr>) = expired now s" by (auto simp: expired_def)
    obtain s' where 3: "timeouts_loop now (hd (ts @ [timer_list])) (s\<lparr>nxt := n2, prv := p2\<rparr>) = Some s'"
        "relinked (s\<lparr>nxt := n2, prv := p2\<rparr>) s'"
        "ev_rep s' (dropWhile (expired now s) ts) ((ps @ [e]) @ takeWhile (expired now s) ts)"
      using Cons.IH[OF 2(2)] unfolding x by blast
    have r: "relinked s s'"
      by (rule relinked_trans[OF relinkedI 3(2)])
    have "timeouts_loop now e s = Some s'"
      using e True 1(1,3) 2(1) 3(1) by (subst timeouts_loop.simps) (simp add: expired_def)
    then show ?thesis using 3(3) r True by simp
  qed
qed

lemma timeouts_moved:
  assumes "ev_rep s ts ps"
  shows "\<exists>s'. processTimeouts now s = Some s' \<and> relinked s s'
    \<and> ev_rep s' (dropWhile (expired now s) ts) (ps @ takeWhile (expired now s) ts)"
proof -
  have "ring (nxt s) (prv s) timer_list ([] @ ts)" using assms by (simp add: ev_rep_def)
  then have "nxt s timer_list = hd (ts @ [timer_list])" using ring_ends(1) by fastforce
  then show ?thesis using timeouts_loop_moves[OF assms] by (simp add: processTimeouts_def)
qed

section \<open>Ready descriptors\<close>

text \<open>The events of a part of the table whose descriptors are ready.\<close>

definition ready :: "int set \<Rightarrow> est \<Rightarrow> nat list \<Rightarrow> nat list" where
  "ready rfds s es = filter (\<lambda>e. e \<noteq> 0 \<and> ev_fd s e \<in> rfds) es"

text \<open>What the loop over the table leaves alone.\<close>

definition same_events :: "est \<Rightarrow> est \<Rightarrow> bool" where
  "same_events s s' =
     (ev_timeout s' = ev_timeout s \<and> ev_fd s' = ev_fd s \<and> ev_func s' = ev_func s \<and> ev_param s' = ev_param s
      \<and> ev_persist s' = ev_persist s \<and> fired s' = fired s)"

lemma same_events_trans: "same_events s s1 \<Longrightarrow> same_events s1 s2 \<Longrightarrow> same_events s s2"
  by (simp add: same_events_def)

lemma distinct_update_zero:
  "distinct (filter (\<lambda>e. e \<noteq> 0) xs) \<Longrightarrow> distinct (filter (\<lambda>e. e \<noteq> 0) (xs[i := (0 :: nat)]))"
proof (induction xs arbitrary: i)
  case (Cons x xs)
  show ?case
  proof (cases i)
    case 0
    then show ?thesis using Cons.prems by (simp split: if_splits)
  next
    case (Suc j)
    have "x \<notin> set (filter (\<lambda>e. e \<noteq> 0) (xs[j := 0]))" if "x \<noteq> 0" "x \<notin> set xs"
      using that set_update_subset_insert[of xs j 0] by auto
    then show ?thesis using Cons Suc by (auto split: if_splits)
  qed
qed simp

lemma removeWatch_rep:
  assumes "ev_rep s ts ps"
  shows "ev_rep (removeWatch e i s) ts ps" "same_events s (removeWatch e i s)"
    "watch_table (removeWatch e i s) = (watch_table s)[i := 0]"
proof -
  show t: "watch_table (removeWatch e i s) = (watch_table s)[i := 0]" by (simp add: removeWatch_def Let_def)
  have n: "nxt (removeWatch e i s) = nxt s" "prv (removeWatch e i s) = prv s"
    "ev_timeout (removeWatch e i s) = ev_timeout s"
    by (simp_all add: removeWatch_def Let_def)
  have "set (watched (removeWatch e i s)) \<subseteq> set (watched s)"
    unfolding watched_def t using set_update_subset_insert[of "watch_table s" i 0] by auto
  moreover have "distinct (watched (removeWatch e i s))"
    unfolding watched_def t using assms by (intro distinct_update_zero) (simp add: ev_rep_def watched_def)
  ultimately show "ev_rep (removeWatch e i s) ts ps"
    using assms n t unfolding ev_rep_def sorted_timers_def by auto
  show "same_events s (removeWatch e i s)" by (simp add: removeWatch_def same_events_def Let_def)
qed

text \<open>
  From place \<open>i\<close> on: the first \<open>n\<close> ready events are put behind those to fire.  What becomes of their
  places does not touch the later ones.
\<close>

definition later :: "nat \<Rightarrow> est \<Rightarrow> nat list" where
  "later i s = filter (\<lambda>e. e \<noteq> 0) (drop i (watch_table s))"

lemma later_step:
  assumes "ev_rep s ts ps" "i < MAX_FD_EVENTS"
  shows "drop i (watch_table s) = watch_table s ! i # drop (i + 1) (watch_table s)"
    "watch_table s ! i \<noteq> 0 \<Longrightarrow> watch_table s ! i \<notin> set (later (i + 1) s)"
    "watch_table s ! i \<noteq> 0 \<Longrightarrow> watch_table s ! i \<notin> set (timer_list # pending_list # ts)"
proof -
  have l: "i < length (watch_table s)" using assms by (simp add: ev_rep_def)
  show d: "drop i (watch_table s) = watch_table s ! i # drop (i + 1) (watch_table s)"
    using Cons_nth_drop_Suc[OF l] by simp
  assume z: "watch_table s ! i \<noteq> 0"
  have "watch_table s = take i (watch_table s) @ watch_table s ! i # drop (i + 1) (watch_table s)"
    by (metis append_take_drop_id d)
  then have "distinct (filter (\<lambda>e. e \<noteq> 0) (take i (watch_table s) @ watch_table s ! i # drop (i + 1) (watch_table s)))"
    using assms(1) by (simp add: ev_rep_def watched_def)
  then show "watch_table s ! i \<notin> set (later (i + 1) s)" using z by (simp add: later_def)
  have "watch_table s ! i \<in> set (watched s)" using l z by (simp add: watched_def)
  then show "watch_table s ! i \<notin> set (timer_list # pending_list # ts)"
    using assms(1) unfolding ev_rep_def by blast
qed

lemma readies_loop_pends:
  assumes "ev_rep s ts ps" "i + k = MAX_FD_EVENTS" "set ps \<inter> set (later i s) = {}"
  shows "\<exists>s'. readies_loop rfds k i n s = Some s' \<and> same_events s s'
    \<and> ev_rep s' ts (ps @ take (nat n) (ready rfds s (drop i (watch_table s))))"
  using assms
proof (induction k arbitrary: i n s ps)
  case 0
  then have "drop i (watch_table s) = []" by (simp add: ev_rep_def)
  then show ?case using 0 by (simp add: ready_def same_events_def)
next
  case (Suc k)
  have i: "i < MAX_FD_EVENTS" "i + 1 + k = MAX_FD_EVENTS" using Suc.prems(2) by simp_all
  note st = later_step[OF Suc.prems(1) i(1)]
  have lat: "set ps \<inter> set (later (i + 1) s) = {}" using Suc.prems(3) st(1) by (auto simp: later_def)
  define e where "e = watch_table s ! i"
  have d: "drop i (watch_table s) = e # drop (i + 1) (watch_table s)" using st(1) by (simp add: e_def)
  consider "n \<le> 0" | "0 < n" "\<not> (e \<noteq> 0 \<and> ev_fd s e \<in> rfds)" | "0 < n" "e \<noteq> 0" "ev_fd s e \<in> rfds" by linarith
  then show ?case
  proof cases
    case 1
    then show ?thesis using Suc.prems(1) by (simp add: same_events_def)
  next
    case 2
    have "ready rfds s (drop i (watch_table s)) = ready rfds s (drop (i + 1) (watch_table s))"
      using 2(2) unfolding d by (auto simp: ready_def)
    moreover have "readies_loop rfds (Suc k) i n s = readies_loop rfds k (i + 1) n s"
      using 2 unfolding e_def by (auto simp: Let_def)
    ultimately show ?thesis using Suc.IH[OF Suc.prems(1) i(2) lat, of n] by simp
  next
    case 3
    have ne: "e \<notin> set (timer_list # pending_list # ts @ ps)" "e \<notin> set (later (i + 1) s)"
      using st(2,3) 3(2) Suc.prems(3) d by (auto simp: e_def later_def)
    obtain n' p' where 4: "addToList e pending_list s = Some (s\<lparr>nxt := n', prv := p'\<rparr>)"
        "ev_rep (s\<lparr>nxt := n', prv := p'\<rparr>) ts (ps @ [e])"
      using pend_event[OF Suc.prems(1) ne(1) 3(2)] by blast
    let ?s1 = "s\<lparr>nxt := n', prv := p'\<rparr>"
    define s2 where "s2 = (if ev_persist s e then ?s1 else removeWatch e i ?s1)"
    have r2: "ev_rep s2 ts (ps @ [e])" "same_events s s2"
      and dr: "drop (i + 1) (watch_table s2) = drop (i + 1) (watch_table s)"
      using 4(2) removeWatch_rep[OF 4(2), of e i] unfolding s2_def by (auto simp: same_events_def)
    have lat2: "set (ps @ [e]) \<inter> set (later (i + 1) s2) = {}"
      using lat ne(2) dr by (auto simp: later_def)
    have eq: "readies_loop rfds (Suc k) i n s = readies_loop rfds k (i + 1) (n - 1) s2"
      using 3 4(1) unfolding e_def s2_def by (auto simp: Let_def)
    have rd: "ready rfds s (drop i (watch_table s)) = e # ready rfds s2 (drop (i + 1) (watch_table s2))"
      using 3 r2(2) unfolding d dr by (simp add: ready_def same_events_def)
    have tk: "take (nat n) (e # zs) = e # take (nat (n - 1)) zs" for zs :: "nat list"
      using 3(1) by (cases "nat n") (auto simp: nat_diff_distrib)
    obtain s' where "readies_loop rfds k (i + 1) (n - 1) s2 = Some s'" "same_events s2 s'"
        "ev_rep s' ts ((ps @ [e]) @ take (nat (n - 1)) (ready rfds s2 (drop (i + 1) (watch_table s2))))"
      using Suc.IH[OF r2(1) i(2) lat2, of "n - 1"] by blast
    then show ?thesis unfolding eq rd tk using same_events_trans[OF r2(2)] by auto
  qed
qed

lemma readies_pended:
  assumes "ev_rep s ts ps" "set ps \<inter> set (watched s) = {}"
  shows "\<exists>s'. processReadReadies rfds n s = Some s' \<and> same_events s s'
    \<and> ev_rep s' ts (ps @ take (nat n) (ready rfds s (watch_table s)))"
  using readies_loop_pends[of s ts ps 0 MAX_FD_EVENTS rfds n] assms
  by (simp add: processReadReadies_def later_def watched_def)

section \<open>Firing\<close>

text \<open>
  Calls a callback may make: with an event that is neither linked nor, for a timer, watched, and never
  with NULL or a sentinel.  \<open>ts\<close> are the timers, \<open>ps\<close> the events still to fire, \<open>ws\<close> the watched ones.
\<close>

fun legal :: "nat list \<Rightarrow> nat list \<Rightarrow> nat list \<Rightarrow> ecall list \<Rightarrow> bool" where
  "legal ts ps ws [] = True"
| "legal ts ps ws (EvSet ev fd pers func param # cs) =
     (ev \<noteq> 0 \<and> ev \<notin> set (timer_list # pending_list # ts @ ps) \<and> legal ts ps ws cs)"
| "legal ts ps ws (EvAdd ev # cs) =
     (ev \<noteq> 0 \<and> ev \<notin> set (timer_list # pending_list # ts @ ws) \<and> legal ts ps (ev # ws) cs)"
| "legal ts ps ws (TimerAdd ev d now # cs) =
     (ev \<noteq> 0 \<and> ev \<notin> set (timer_list # pending_list # ts @ ps @ ws) \<and> legal (ev # ts) ps ws cs)"
| "legal ts ps ws (EvDel ev # cs) = legal ts ps ws cs"

lemma legal_mono:
  "legal ts ps ws cs \<Longrightarrow> set ts' = set ts \<Longrightarrow> set ws' \<subseteq> set ws \<Longrightarrow> legal ts' ps ws' cs"
proof (induction cs arbitrary: ts ts' ws ws')
  case (Cons c cs)
  note p = Cons.prems
  show ?case
  proof (cases c)
    case (EvAdd ev)
    have l: "legal ts ps (ev # ws) cs" "ev \<noteq> 0" "ev \<notin> set (timer_list # pending_list # ts @ ws)"
      using p(1) unfolding EvAdd legal.simps by blast+
    have "set (ev # ws') \<subseteq> set (ev # ws)" using p(3) by auto
    then have "legal ts' ps (ev # ws') cs" by (rule Cons.IH[OF l(1) p(2)])
    then show ?thesis using l(2,3) p(2,3) unfolding EvAdd legal.simps by (auto simp: subset_iff)
  next
    case (TimerAdd ev d now)
    have l: "legal (ev # ts) ps ws cs" "ev \<noteq> 0" "ev \<notin> set (timer_list # pending_list # ts @ ps @ ws)"
      using p(1) unfolding TimerAdd legal.simps by blast+
    have "set (ev # ts') = set (ev # ts)" using p(2) by simp
    then have "legal (ev # ts') ps ws' cs" using p(3) by (rule Cons.IH[OF l(1)])
    then show ?thesis using l(2,3) p(2,3) unfolding TimerAdd legal.simps by (auto simp: subset_iff)
  next
    case (EvSet ev fd pers func param)
    have l: "legal ts ps ws cs" "ev \<noteq> 0 \<and> ev \<notin> set (timer_list # pending_list # ts @ ps)"
      using p(1) unfolding EvSet legal.simps by blast+
    have "legal ts' ps ws' cs" by (rule Cons.IH[OF l(1) p(2,3)])
    then show ?thesis using l(2) p(2) unfolding EvSet legal.simps by simp
  next
    case (EvDel ev)
    have "legal ts ps ws cs" using p(1) unfolding EvDel legal.simps .
    then have "legal ts' ps ws' cs" by (rule Cons.IH[OF _ p(2,3)])
    then show ?thesis unfolding EvDel legal.simps .
  qed
qed simp

text \<open>What firing an event shows of it.\<close>

definition call_of :: "est \<Rightarrow> nat \<Rightarrow> nat \<times> nat \<times> int \<times> nat" where
  "call_of s e = (e, ev_func s e, ev_fd s e, ev_param s e)"

lemma first_free_place: "first_free xs k = Some i \<Longrightarrow> k \<le> i \<and> i - k < length xs \<and> xs ! (i - k) = 0"
proof (induction xs k rule: first_free.induct)
  case (2 x xs k)
  show ?case
  proof (cases "x = 0")
    case False
    then have "k + 1 \<le> i \<and> i - (k + 1) < length xs \<and> xs ! (i - (k + 1)) = 0" using 2 by simp
    then have "i - k = Suc (i - (k + 1))" by arith
    then show ?thesis using \<open>k + 1 \<le> i \<and> _\<close> by simp
  qed (use 2 in simp)
qed simp

lemma filter_zero_update:
  "i < length xs \<Longrightarrow> xs ! i = 0 \<Longrightarrow> e \<noteq> (0 :: nat) \<Longrightarrow>
   mset (filter (\<lambda>e. e \<noteq> 0) (xs[i := e])) = add_mset e (mset (filter (\<lambda>e. e \<noteq> 0) xs))"
proof (induction xs arbitrary: i)
  case (Cons x xs)
  then show ?case by (cases i) auto
qed simp

lemma added_event:
  assumes "ev_rep s ts ps" "ev \<noteq> 0" "ev \<notin> set (timer_list # pending_list # ts @ watched s)"
  shows "ev_rep (ril_event_add ev s) ts ps" "set (watched (ril_event_add ev s)) \<subseteq> insert ev (set (watched s))"
proof -
  have "ev_rep (ril_event_add ev s) ts ps \<and> set (watched (ril_event_add ev s)) \<subseteq> insert ev (set (watched s))"
  proof (cases "first_free (watch_table s) 0")
    case None
    then show ?thesis using assms(1) by (auto simp: ril_event_add_def)
  next
    case (Some i)
    then have i: "i < length (watch_table s)" "watch_table s ! i = 0" using first_free_place by fastforce+
    have t: "watch_table (ril_event_add ev s) = (watch_table s)[i := ev]" using Some by (simp add: ril_event_add_def)
    have m: "mset (watched (ril_event_add ev s)) = add_mset ev (mset (watched s))"
      unfolding watched_def t by (rule filter_zero_update[OF i assms(2)])
    then have w: "set (watched (ril_event_add ev s)) = insert ev (set (watched s))"
      by (metis set_mset_add_mset_insert set_mset_mset)
    have "distinct (watched (ril_event_add ev s)) = distinct (ev # watched s)"
      by (rule mset_eq_imp_distinct_iff) (simp add: m)
    moreover have "nxt (ril_event_add ev s) = nxt s" "prv (ril_event_add ev s) = prv s"
      "ev_timeout (ril_event_add ev s) = ev_timeout s"
      using Some by (simp_all add: ril_event_add_def)
    ultimately show ?thesis using assms w t by (auto simp: ev_rep_def sorted_timers_def)
  qed
  then show "ev_rep (ril_event_add ev s) ts ps" "set (watched (ril_event_add ev s)) \<subseteq> insert ev (set (watched s))"
    by blast+
qed

lemma set_event:
  assumes "ev_rep s ts ps" "ev \<notin> set (timer_list # pending_list # ts @ ps)"
  shows "ev_rep (ril_event_set ev fd pers func param s) ts ps"
proof -
  let ?s = "ril_event_set ev fd pers func param s"
  have "ring (nxt ?s) (prv ?s) timer_list ts" "ring (nxt ?s) (prv ?s) pending_list ps"
    using assms ring_cong[of timer_list ts "nxt ?s" "nxt s" "prv ?s" "prv s"]
      ring_cong[of pending_list ps "nxt ?s" "nxt s" "prv ?s" "prv s"]
    by (auto simp: ev_rep_def ril_event_set_def)
  moreover have "sorted_timers ?s ts"
    using assms unfolding ev_rep_def sorted_timers_def
    by (auto simp: ril_event_set_def intro: sorted_wrt_mono_rel[rotated])
  ultimately show ?thesis using assms by (simp add: ev_rep_def watched_def ril_event_set_def)
qed

lemma deleted_event:
  assumes "ev_rep s ts ps"
  shows "ev_rep (ril_event_del ev s) ts ps" "set (watched (ril_event_del ev s)) \<subseteq> set (watched s)"
    "same_events s (ril_event_del ev s)"
proof -
  have "set (watched (removeWatch ev i s)) \<subseteq> set (watched s)" for i
    unfolding watched_def removeWatch_rep(3)[OF assms] using set_update_subset_insert[of "watch_table s" i 0] by auto
  then show "ev_rep (ril_event_del ev s) ts ps" "set (watched (ril_event_del ev s)) \<subseteq> set (watched s)"
    "same_events s (ril_event_del ev s)"
    using assms removeWatch_rep(1,2)[OF assms] by (simp_all add: ril_event_del_def same_events_def)
qed

lemma insert_timer_set: "set (insert_timer s t ev ts) = insert ev (set ts)"
proof -
  have "set (takeWhile P ts) \<union> set (dropWhile P ts) = set ts" for P by (metis set_append takeWhile_dropWhile_id)
  then show ?thesis unfolding insert_timer_def by auto
qed

text \<open>Legal calls keep the lists in shape, and what firing the waiting events will show.\<close>

lemma run_calls_rep:
  assumes "ev_rep s ts ps" "legal ts ps (watched s) cs"
  shows "\<exists>s' ts'. run_calls cs s = Some s' \<and> ev_rep s' ts' ps \<and> fired s' = fired s
    \<and> map (call_of s') ps = map (call_of s) ps"
  using assms
proof (induction cs arbitrary: s ts)
  case Nil
  then show ?case by auto
next
  case (Cons c cs)
  have step: ?case if 1: "run_call c s = Some s1" "ev_rep s1 ts1 ps" "legal ts1 ps (watched s1) cs"
      "fired s1 = fired s" "map (call_of s1) ps = map (call_of s) ps" for s1 ts1
    using Cons.IH[OF 1(2,3)] 1 by auto
  show ?case
  proof (cases c)
    case (EvSet ev fd pers func param)
    have l: "ev \<notin> set (timer_list # pending_list # ts @ ps)" "legal ts ps (watched s) cs"
      using Cons.prems(2) unfolding EvSet legal.simps by blast+
    show ?thesis
    proof (rule step)
      show "ev_rep (ril_event_set ev fd pers func param s) ts ps" by (rule set_event[OF Cons.prems(1) l(1)])
      show "map (call_of (ril_event_set ev fd pers func param s)) ps = map (call_of s) ps"
        using l(1) by (auto simp: call_of_def ril_event_set_def)
    qed (use l in \<open>simp_all add: EvSet ril_event_set_def watched_def\<close>)
  next
    case (EvAdd ev)
    have l: "ev \<noteq> 0" "ev \<notin> set (timer_list # pending_list # ts @ watched s)" "legal ts ps (ev # watched s) cs"
      using Cons.prems(2) unfolding EvAdd legal.simps by blast+
    have w: "set (watched (ril_event_add ev s)) \<subseteq> set (ev # watched s)"
      using added_event(2)[OF Cons.prems(1) l(1,2)] by simp
    show ?thesis
    proof (rule step)
      show "ev_rep (ril_event_add ev s) ts ps" by (rule added_event(1)[OF Cons.prems(1) l(1,2)])
      show "legal ts ps (watched (ril_event_add ev s)) cs" by (rule legal_mono[OF l(3) refl w])
    qed (simp_all add: EvAdd ril_event_add_def call_of_def split: option.split)
  next
    case (TimerAdd ev d now)
    have l: "ev \<noteq> 0" "ev \<notin> set (timer_list # pending_list # ts @ ps @ watched s)" "legal (ev # ts) ps (watched s) cs"
      using Cons.prems(2) unfolding TimerAdd legal.simps by blast+
    obtain n p where t: "ril_timer_add ev (Some d) now s = Some (s\<lparr>ev_fd := (ev_fd s)(ev := - 1),
          ev_timeout := (ev_timeout s)(ev := timeradd now d), nxt := n, prv := p\<rparr>)"
        "ev_rep (s\<lparr>ev_fd := (ev_fd s)(ev := - 1), ev_timeout := (ev_timeout s)(ev := timeradd now d), nxt := n, prv := p\<rparr>)
          (insert_timer s (timeradd now d) ev ts) ps"
      using timer_added[OF Cons.prems(1) l(2,1)] by blast
    have g: "legal (insert_timer s (timeradd now d) ev ts) ps (watched s) cs"
      by (rule legal_mono[OF l(3)]) (simp_all add: insert_timer_set)
    show ?thesis
      by (rule step[OF _ t(2)]) (use t(1) g l(2) in \<open>auto simp: TimerAdd watched_def call_of_def\<close>)
  next
    case (EvDel ev)
    have l: "legal ts ps (watched s) cs" using Cons.prems(2) unfolding EvDel legal.simps .
    note dl = deleted_event[OF Cons.prems(1), of ev]
    show ?thesis
    proof (rule step)
      show "ev_rep (ril_event_del ev s) ts ps" by (rule dl(1))
      show "legal ts ps (watched (ril_event_del ev s)) cs" by (rule legal_mono[OF l refl dl(2)])
    qed (use dl(3) in \<open>simp_all add: EvDel same_events_def call_of_def\<close>)
  qed
qed

text \<open>Callbacks that make legal calls only.\<close>

definition polite :: "callbacks \<Rightarrow> bool" where
  "polite cb = (\<forall>f p s ts ps. ev_rep s ts ps \<longrightarrow> legal ts ps (watched s) (cb f p s))"

lemma ev_rep_fired [simp]: "ev_rep (s\<lparr>fired := x\<rparr>) ts ps = ev_rep s ts ps" "watched (s\<lparr>fired := x\<rparr>) = watched s"
  by (simp_all add: ev_rep_def sorted_timers_def watched_def)

lemma fire_loop_all:
  assumes "ev_rep s ts ps" "polite cb"
  shows "\<exists>s' ts'. fire_loop cb (hd (ps @ [pending_list])) s = Some s' \<and> ev_rep s' ts' []
    \<and> fired s' = fired s @ map (call_of s) ps"
  using assms(1)
proof (induction ps arbitrary: s ts)
  case Nil
  then show ?case by (subst fire_loop.simps) (auto simp: pending_list_def)
next
  case (Cons e ps)
  obtain n p where 1: "removeFromList e s = Some (s\<lparr>nxt := n, prv := p\<rparr>)" "ev_rep (s\<lparr>nxt := n, prv := p\<rparr>) ts ps"
      "nxt s e = hd (ps @ [pending_list])" "e \<noteq> 0" "e \<noteq> pending_list"
    using take_pending[OF Cons.prems] by blast
  let ?s1 = "s\<lparr>nxt := n, prv := p\<rparr>"
  let ?cs = "cb (ev_func s e) (ev_param s e) ?s1"
  have "legal ts ps (watched ?s1) ?cs" using assms(2) 1(2) unfolding polite_def by blast
  then obtain s2 ts2 where 2: "run_calls ?cs (?s1\<lparr>fired := fired s @ [call_of s e]\<rparr>) = Some s2" "ev_rep s2 ts2 ps"
      "fired s2 = fired s @ [call_of s e]" "map (call_of s2) ps = map (call_of s) ps"
    using run_calls_rep[of "?s1\<lparr>fired := fired s @ [call_of s e]\<rparr>" ts ps ?cs] 1(2) by (auto simp: call_of_def)
  obtain s' ts' where 3: "fire_loop cb (hd (ps @ [pending_list])) s2 = Some s'" "ev_rep s' ts' []"
      "fired s' = fired s2 @ map (call_of s2) ps"
    using Cons.IH[OF 2(2)] by blast
  have "fire_loop cb e s = Some s'"
    using 1 2(1) 3(1) by (subst fire_loop.simps) (simp add: call_of_def)
  then show ?case using 2 3 by auto
qed

lemma pending_fired:
  assumes "ev_rep s ts ps" "polite cb"
  shows "\<exists>s' ts'. firePending cb s = Some s' \<and> ev_rep s' ts' [] \<and> fired s' = fired s @ map (call_of s) ps"
proof -
  have "ring (nxt s) (prv s) pending_list ([] @ ps)" using assms by (simp add: ev_rep_def)
  then have "nxt s pending_list = hd (ps @ [pending_list])" using ring_ends(1) by fastforce
  then show ?thesis using fire_loop_all[OF assms] by (simp add: firePending_def)
qed

section \<open>Properties\<close>

lemma round_lemma:
  assumes "ev_rep s ts []" "polite cb" "0 \<le> n"
  shows "\<exists>s' ts'. event_round cb n rfds now s = Some s' \<and> ev_rep s' ts' []
    \<and> fired s' = fired s @ map (call_of s) (takeWhile (expired now s) ts @ take (nat n) (ready rfds s (watch_table s)))"
proof -
  obtain s1 where 1: "processTimeouts now s = Some s1" "relinked s s1"
      "ev_rep s1 (dropWhile (expired now s) ts) (takeWhile (expired now s) ts)"
    using timeouts_moved[OF assms(1), of now] by auto
  note sm = relinked_same[OF 1(2)]
  have "set (takeWhile (expired now s) ts) \<inter> set (watched s1) = {}"
    using assms(1) sm by (auto simp: ev_rep_def dest: set_takeWhileD)
  then obtain s2 where 2: "processReadReadies rfds n s1 = Some s2" "same_events s1 s2"
      "ev_rep s2 (dropWhile (expired now s) ts)
        (takeWhile (expired now s) ts @ take (nat n) (ready rfds s1 (watch_table s1)))"
    using readies_pended[OF 1(3)] by blast
  have c: "call_of s2 = call_of s" "fired s2 = fired s" "ready rfds s1 (watch_table s1) = ready rfds s (watch_table s)"
    using sm 2(2) by (auto simp: same_events_def call_of_def ready_def)
  obtain s' ts' where "firePending cb s2 = Some s'" "ev_rep s' ts' []"
      "fired s' = fired s @ map (call_of s) (takeWhile (expired now s) ts @ take (nat n) (ready rfds s (watch_table s)))"
    using pending_fired[OF 2(3) assms(2)] unfolding c by blast
  then show ?thesis using 1(1) 2(1) assms(3) by (auto simp: event_round_def)
qed

text \<open>
  C25: One round of the event loop on the linked lists is a round on lists of events: it fires the
  expired timers in the order of their times, then the first n ready events in the order of the table,
  each once, with its function, descriptor and parameter; afterwards nothing waits to be fired and the
  pointers are in shape, whatever legal calls the callbacks make.
\<close>

theorem round_fires_in_order:
  assumes "ev_rep s ts []" "polite cb" "0 \<le> n"
  shows "\<exists>s' ts'. event_round cb n rfds now s = Some s' \<and> ev_rep s' ts' []
    \<and> fired s' = fired s @ map (call_of s) (takeWhile (expired now s) ts @ take (nat n) (ready rfds s (watch_table s)))"
  by (rule round_lemma[OF assms])

lemma init_rep: "ev_rep (ril_event_init s) [] []"
proof -
  have "filter (\<lambda>e. e \<noteq> 0) (replicate MAX_FD_EVENTS (0 :: nat)) = []" by (induction MAX_FD_EVENTS) simp_all
  then show ?thesis
    by (simp add: ev_rep_def ril_event_init_def init_list_def ring_def timer_list_def pending_list_def
        sorted_timers_def watched_def)
qed

definition est0 :: est where
  "est0 = \<lparr>nxt = (\<lambda>_. 0), prv = (\<lambda>_. 0), ev_fd = (\<lambda>_. 0), ev_index = (\<lambda>_. 0), ev_persist = (\<lambda>_. False),
     ev_timeout = (\<lambda>_. (0, 0)), ev_func = (\<lambda>_. 0), ev_param = (\<lambda>_. 0), watch_table = [], readFds = {},
     nfds = 0, fired = []\<rparr>"

text \<open>One watched event, and callbacks that delete it.\<close>

definition est1 :: est where
  "est1 = ril_event_add 10 (ril_event_set 10 5 True 7 8 (ril_event_init est0))"

lemma est1_facts: "ev_rep est1 [] []" "fired est1 = []" "watch_table est1 = [10, 0, 0, 0, 0, 0, 0, 0]"
  "call_of est1 10 = (10, 7, 5, 8)" "ev_fd est1 10 = 5"
proof -
  have t: "watch_table (ril_event_set 10 5 True 7 8 (ril_event_init est0)) = [0, 0, 0, 0, 0, 0, 0, 0]"
    by (simp add: ril_event_set_def ril_event_init_def MAX_FD_EVENTS_def numeral_eq_Suc)
  have r: "ev_rep (ril_event_set 10 5 True 7 8 (ril_event_init est0)) [] []"
    by (rule set_event[OF init_rep]) (simp add: timer_list_def pending_list_def)
  show "ev_rep est1 [] []"
    unfolding est1_def by (rule added_event(1)[OF r]) (simp_all add: timer_list_def pending_list_def watched_def t)
  show "watch_table est1 = [10, 0, 0, 0, 0, 0, 0, 0]" unfolding est1_def ril_event_add_def t by (simp add: t)
  show "fired est1 = []" "call_of est1 10 = (10, 7, 5, 8)" "ev_fd est1 10 = 5"
    unfolding est1_def ril_event_add_def t
    by (simp_all add: ril_event_set_def ril_event_init_def init_list_def est0_def call_of_def)
qed

theorem round_fires_in_order_witness:
  "\<exists>s'. event_round (\<lambda>f p s. [EvDel 10]) 1 {5} (0, 0) est1 = Some s' \<and> fired s' = [(10, 7, 5, 8)]"
proof -
  have "polite (\<lambda>f p s. [EvDel 10])" by (simp add: polite_def)
  then obtain s' where "event_round (\<lambda>f p s. [EvDel 10]) 1 {5} (0, 0) est1 = Some s'"
      "fired s' = fired est1 @ map (call_of est1) (takeWhile (expired (0, 0) est1) []
        @ take (nat 1) (ready {5} est1 (watch_table est1)))"
    using round_fires_in_order[OF est1_facts(1), of "\<lambda>f p s. [EvDel 10]" 1 "{5}" "(0, 0)"] by auto
  then show ?thesis by (simp add: est1_facts ready_def)
qed

text \<open>
  Adding a timer keeps the list of timers sorted: the event enters it before the first timer that is
  not earlier, with the time now plus the delay, and no other event changes its place.
\<close>

theorem timer_enters_in_order:
  assumes "ev_rep s ts ps" "ev \<notin> set (timer_list # pending_list # ts @ ps @ watched s)" "ev \<noteq> 0"
  shows "\<exists>s'. ril_timer_add ev (Some d) now s = Some s' \<and> ev_timeout s' ev = timeradd now d
    \<and> ev_rep s' (insert_timer s (timeradd now d) ev ts) ps"
proof -
  obtain n p where t: "ril_timer_add ev (Some d) now s = Some (s\<lparr>ev_fd := (ev_fd s)(ev := - 1),
        ev_timeout := (ev_timeout s)(ev := timeradd now d), nxt := n, prv := p\<rparr>)"
      "ev_rep (s\<lparr>ev_fd := (ev_fd s)(ev := - 1), ev_timeout := (ev_timeout s)(ev := timeradd now d), nxt := n, prv := p\<rparr>)
        (insert_timer s (timeradd now d) ev ts) ps"
    using timer_added[OF assms] by blast
  show ?thesis by (intro exI conjI, rule t(1)) (use t(2) in simp_all)
qed

theorem timer_enters_in_order_witness:
  "\<exists>s'. ril_timer_add 11 (Some (2, 500000)) (3, 600000) est1 = Some s' \<and> ev_timeout s' 11 = (6, 100000)
     \<and> ev_rep s' [11] []"
  using timer_enters_in_order[OF est1_facts(1), of 11 "(2, 500000)" "(3, 600000)"]
  by (simp add: timer_list_def pending_list_def watched_def est1_facts timeradd_def insert_timer_def)

text \<open>
  An event that is only a timer cannot be deleted: \<open>ril_event_del\<close> leaves the state as it is, and the
  timer fires.
\<close>

theorem timer_not_deleted:
  assumes "ril_timer_add ev tv now (ril_event_set ev fd pers func param s) = Some s'"
  shows "ril_event_del ev s' = s'"
proof -
  have "ev_index s' ev = - 1"
    using assms by (auto simp: ril_timer_add_def addToList_def Let_def ril_event_set_def Option.bind_eq_Some_conv
        split: option.splits if_splits)
  then show ?thesis by (simp add: ril_event_del_def)
qed

theorem timer_not_deleted_witness:
  "\<exists>s'. ril_timer_add 11 None (0, 0) (ril_event_set 11 (- 1) False 1 2 est1) = Some s' \<and> ril_event_del 11 s' = s'"
  using timer_not_deleted[of 11 None "(0, 0)" "- 1" False 1 2 est1] by (simp add: ril_timer_add_def)

text \<open>With all places taken a further event is dropped without a word.\<close>

lemma full_table_drops:
  assumes "\<forall>e \<in> set (watch_table s). e \<noteq> 0"
  shows "ril_event_add ev s = s"
proof -
  have "first_free xs i = None" if "\<forall>e \<in> set xs. e \<noteq> 0" for xs i using that by (induction xs i rule: first_free.induct) simp_all
  then show ?thesis using assms by (simp add: ril_event_add_def)
qed

text \<open>Any number of rounds.\<close>

fun event_rounds :: "callbacks \<Rightarrow> (int \<times> int set \<times> timeval) list \<Rightarrow> est \<Rightarrow> est option" where
  "event_rounds cb [] s = Some s"
| "event_rounds cb ((n, rfds, now) # rs) s = do { s1 \<leftarrow> event_round cb n rfds now s; event_rounds cb rs s1 }"

lemma rounds_never_stuck:
  assumes "polite cb" "ev_rep s ts []"
  shows "\<exists>s' ts'. event_rounds cb rs s = Some s' \<and> ev_rep s' ts' []"
  using assms(2)
proof (induction rs arbitrary: s ts)
  case (Cons r rs)
  obtain n rfds now where r: "r = (n, rfds, now)" by (cases r)
  show ?case
  proof (cases "n < 0")
    case True
    then show ?thesis using Cons by (auto simp: event_round_def r)
  next
    case False
    then show ?thesis
      using round_lemma[OF Cons.prems assms(1), of n rfds now] Cons.IH by (auto simp: r not_less)
  qed
qed auto

end
