(* ===== verification/Ril_Tables.thy ===== *)
theory Ril_Tables
  imports X3_Prelude
begin

text \<open>
  The tables of \<open>ril/libril/ril.cpp\<close>: \<open>s_commands\<close> (\<open>ril_commands.h\<close>) and \<open>s_unsolResponses\<close>
  (\<open>ril_unsol_commands.h\<close>, \<open>mtk_ril_unsol_commands.h\<close>), the numbers of the channels, the self check
  that \<open>RIL_register\<close> makes of the tables, and the indices that are computed from the number of a
  request or of an indication.  The table \<open>mtk_ril_commands.h\<close> is commented out in \<open>ril.cpp\<close>.  A handler
  is its name in the namespace \<open>radio\<close>, \<open>None\<close> for NULL.
\<close>

section \<open>Channels and constants\<close>

definition RIL_URC :: nat where "RIL_URC = 0"
definition RIL_CMD_1 :: nat where "RIL_CMD_1 = 1"
definition RIL_CMD_2 :: nat where "RIL_CMD_2 = 2"
definition RIL_CMD_3 :: nat where "RIL_CMD_3 = 3"
definition RIL_CMD_4 :: nat where "RIL_CMD_4 = 4"
definition RIL_ATCI :: nat where "RIL_ATCI = 5"
definition RIL_CHANNEL_OFFSET :: nat where "RIL_CHANNEL_OFFSET = 6"

definition RIL_CMD_PROXY_1 :: nat where "RIL_CMD_PROXY_1 = RIL_CMD_3"
definition RIL_CMD_PROXY_2 :: nat where "RIL_CMD_PROXY_2 = RIL_CMD_2"
definition RIL_CMD_PROXY_3 :: nat where "RIL_CMD_PROXY_3 = RIL_CMD_1"
definition RIL_CMD_PROXY_4 :: nat where "RIL_CMD_PROXY_4 = RIL_URC"
definition RIL_CMD_PROXY_5 :: nat where "RIL_CMD_PROXY_5 = RIL_CMD_4"
definition RIL_CMD_PROXY_6 :: nat where "RIL_CMD_PROXY_6 = RIL_ATCI"

definition RIL_REQUEST_VENDOR_BASE :: int where "RIL_REQUEST_VENDOR_BASE = 2000"
definition RIL_UNSOL_RESPONSE_BASE :: int where "RIL_UNSOL_RESPONSE_BASE = 1000"
definition RIL_UNSOL_VENDOR_BASE :: int where "RIL_UNSOL_VENDOR_BASE = 3000"

lemmas channel_defs = RIL_URC_def RIL_CMD_1_def RIL_CMD_2_def RIL_CMD_3_def RIL_CMD_4_def RIL_ATCI_def
  RIL_CHANNEL_OFFSET_def RIL_CMD_PROXY_1_def RIL_CMD_PROXY_2_def RIL_CMD_PROXY_3_def
  RIL_CMD_PROXY_4_def RIL_CMD_PROXY_5_def RIL_CMD_PROXY_6_def

section \<open>The tables\<close>

datatype command_info =
  CommandInfo (requestNumber: int) (responseFunction: "string option") (proxyId: nat)

datatype wake_type = DONT_WAKE | WAKE_PARTIAL

datatype unsol_info =
  UnsolResponseInfo (unsolNumber: int) (unsolFunction: "string option") (wakeType: wake_type)

definition ril_commands :: "command_info list" where
  "ril_commands =
   [CommandInfo 0 (None) RIL_CMD_PROXY_3,
    CommandInfo 1 (Some ''getIccCardStatusResponse'') RIL_CMD_PROXY_1,
    CommandInfo 2 (Some ''supplyIccPinForAppResponse'') RIL_CMD_PROXY_1,
    CommandInfo 3 (Some ''supplyIccPukForAppResponse'') RIL_CMD_PROXY_1,
    CommandInfo 4 (Some ''supplyIccPin2ForAppResponse'') RIL_CMD_PROXY_1,
    CommandInfo 5 (Some ''supplyIccPuk2ForAppResponse'') RIL_CMD_PROXY_1,
    CommandInfo 6 (Some ''changeIccPinForAppResponse'') RIL_CMD_PROXY_1,
    CommandInfo 7 (Some ''changeIccPin2ForAppResponse'') RIL_CMD_PROXY_1,
    CommandInfo 8 (Some ''supplyNetworkDepersonalizationResponse'') RIL_CMD_PROXY_1,
    CommandInfo 9 (Some ''getCurrentCallsResponse'') RIL_CMD_PROXY_2,
    CommandInfo 10 (Some ''dialResponse'') RIL_CMD_PROXY_2,
    CommandInfo 11 (Some ''getIMSIForAppResponse'') RIL_CMD_PROXY_1,
    CommandInfo 12 (Some ''hangupConnectionResponse'') RIL_CMD_PROXY_4,
    CommandInfo 13 (Some ''hangupWaitingOrBackgroundResponse'') RIL_CMD_PROXY_4,
    CommandInfo 14 (Some ''hangupForegroundResumeBackgroundResponse'') RIL_CMD_PROXY_4,
    CommandInfo 15 (Some ''switchWaitingOrHoldingAndActiveResponse'') RIL_CMD_PROXY_4,
    CommandInfo 16 (Some ''conferenceResponse'') RIL_CMD_PROXY_4,
    CommandInfo 17 (Some ''rejectCallResponse'') RIL_CMD_PROXY_2,
    CommandInfo 18 (Some ''getLastCallFailCauseResponse'') RIL_CMD_PROXY_2,
    CommandInfo 19 (Some ''getSignalStrengthResponse'') RIL_CMD_PROXY_3,
    CommandInfo 20 (Some ''getVoiceRegistrationStateResponse'') RIL_CMD_PROXY_3,
    CommandInfo 21 (Some ''getDataRegistrationStateResponse'') RIL_CMD_PROXY_3,
    CommandInfo 22 (Some ''getOperatorResponse'') RIL_CMD_PROXY_3,
    CommandInfo 23 (Some ''setRadioPowerResponse'') RIL_CMD_PROXY_1,
    CommandInfo 24 (Some ''sendDtmfResponse'') RIL_CMD_PROXY_2,
    CommandInfo 25 (Some ''sendSmsResponse'') RIL_CMD_PROXY_1,
    CommandInfo 26 (Some ''sendSMSExpectMoreResponse'') RIL_CMD_PROXY_1,
    CommandInfo 27 (Some ''setupDataCallResponse'') RIL_CMD_PROXY_5,
    CommandInfo 28 (Some ''iccIOForAppResponse'') RIL_CMD_PROXY_1,
    CommandInfo 29 (Some ''sendUssdResponse'') RIL_CMD_PROXY_2,
    CommandInfo 30 (Some ''cancelPendingUssdResponse'') RIL_CMD_PROXY_2,
    CommandInfo 31 (Some ''getClirResponse'') RIL_CMD_PROXY_2,
    CommandInfo 32 (Some ''setClirResponse'') RIL_CMD_PROXY_2,
    CommandInfo 33 (Some ''getCallForwardStatusResponse'') RIL_CMD_PROXY_1,
    CommandInfo 34 (Some ''setCallForwardResponse'') RIL_CMD_PROXY_2,
    CommandInfo 35 (Some ''getCallWaitingResponse'') RIL_CMD_PROXY_1,
    CommandInfo 36 (Some ''setCallWaitingResponse'') RIL_CMD_PROXY_2,
    CommandInfo 37 (Some ''acknowledgeLastIncomingGsmSmsResponse'') RIL_CMD_PROXY_2,
    CommandInfo 38 (None) RIL_CMD_PROXY_3,
    CommandInfo 39 (None) RIL_CMD_PROXY_3,
    CommandInfo 40 (Some ''acceptCallResponse'') RIL_CMD_PROXY_2,
    CommandInfo 41 (Some ''deactivateDataCallResponse'') RIL_CMD_PROXY_5,
    CommandInfo 42 (Some ''getFacilityLockForAppResponse'') RIL_CMD_PROXY_1,
    CommandInfo 43 (Some ''setFacilityLockForAppResponse'') RIL_CMD_PROXY_1,
    CommandInfo 44 (Some ''setBarringPasswordResponse'') RIL_CMD_PROXY_2,
    CommandInfo 45 (Some ''getNetworkSelectionModeResponse'') RIL_CMD_PROXY_3,
    CommandInfo 46 (Some ''setNetworkSelectionModeAutomaticResponse'') RIL_CMD_PROXY_3,
    CommandInfo 47 (Some ''setNetworkSelectionModeManualResponse'') RIL_CMD_PROXY_3,
    CommandInfo 48 (Some ''getAvailableNetworksResponse'') RIL_CMD_PROXY_3,
    CommandInfo 49 (Some ''startDtmfResponse'') RIL_CMD_PROXY_2,
    CommandInfo 50 (Some ''stopDtmfResponse'') RIL_CMD_PROXY_2,
    CommandInfo 51 (Some ''getBasebandVersionResponse'') RIL_CMD_PROXY_3,
    CommandInfo 52 (Some ''separateConnectionResponse'') RIL_CMD_PROXY_4,
    CommandInfo 53 (Some ''setMuteResponse'') RIL_CMD_PROXY_2,
    CommandInfo 54 (Some ''getMuteResponse'') RIL_CMD_PROXY_2,
    CommandInfo 55 (Some ''getClipResponse'') RIL_CMD_PROXY_2,
    CommandInfo 56 (None) RIL_CMD_PROXY_5,
    CommandInfo 57 (Some ''getDataCallListResponse'') RIL_CMD_PROXY_5,
    CommandInfo 58 (None) RIL_CMD_PROXY_1,
    CommandInfo 59 (Some ''sendRequestRawResponse'') RIL_CMD_PROXY_6,
    CommandInfo 60 (Some ''sendRequestStringsResponse'') RIL_CMD_PROXY_3,
    CommandInfo 61 (Some ''sendDeviceStateResponse'') RIL_CMD_PROXY_3,
    CommandInfo 62 (Some ''setSuppServiceNotificationsResponse'') RIL_CMD_PROXY_2,
    CommandInfo 63 (Some ''writeSmsToSimResponse'') RIL_CMD_PROXY_1,
    CommandInfo 64 (Some ''deleteSmsOnSimResponse'') RIL_CMD_PROXY_1,
    CommandInfo 65 (Some ''setBandModeResponse'') RIL_CMD_PROXY_3,
    CommandInfo 66 (Some ''getAvailableBandModesResponse'') RIL_CMD_PROXY_3,
    CommandInfo 67 (None) RIL_CMD_PROXY_1,
    CommandInfo 68 (None) RIL_CMD_PROXY_1,
    CommandInfo 69 (Some ''sendEnvelopeResponse'') RIL_CMD_PROXY_1,
    CommandInfo 70 (Some ''sendTerminalResponseToSimResponse'') RIL_CMD_PROXY_1,
    CommandInfo 71 (Some ''handleStkCallSetupRequestFromSimResponse'') RIL_CMD_PROXY_1,
    CommandInfo 72 (Some ''explicitCallTransferResponse'') RIL_CMD_PROXY_2,
    CommandInfo 73 (Some ''setPreferredNetworkTypeResponse'') RIL_CMD_PROXY_1,
    CommandInfo 74 (Some ''getPreferredNetworkTypeResponse'') RIL_CMD_PROXY_1,
    CommandInfo 75 (Some ''getNeighboringCidsResponse'') RIL_CMD_PROXY_4,
    CommandInfo 76 (Some ''setLocationUpdatesResponse'') RIL_CMD_PROXY_3,
    CommandInfo 77 (Some ''setCdmaSubscriptionSourceResponse'') RIL_CMD_PROXY_3,
    CommandInfo 78 (Some ''setCdmaRoamingPreferenceResponse'') RIL_CMD_PROXY_3,
    CommandInfo 79 (Some ''getCdmaRoamingPreferenceResponse'') RIL_CMD_PROXY_3,
    CommandInfo 80 (Some ''setTTYModeResponse'') RIL_CMD_PROXY_3,
    CommandInfo 81 (Some ''getTTYModeResponse'') RIL_CMD_PROXY_3,
    CommandInfo 82 (Some ''setPreferredVoicePrivacyResponse'') RIL_CMD_PROXY_2,
    CommandInfo 83 (Some ''getPreferredVoicePrivacyResponse'') RIL_CMD_PROXY_2,
    CommandInfo 84 (Some ''sendCDMAFeatureCodeResponse'') RIL_CMD_PROXY_2,
    CommandInfo 85 (Some ''sendBurstDtmfResponse'') RIL_CMD_PROXY_2,
    CommandInfo 86 (None) RIL_CMD_PROXY_2,
    CommandInfo 87 (Some ''sendCdmaSmsResponse'') RIL_CMD_PROXY_1,
    CommandInfo 88 (Some ''acknowledgeLastIncomingCdmaSmsResponse'') RIL_CMD_PROXY_1,
    CommandInfo 89 (Some ''getGsmBroadcastConfigResponse'') RIL_CMD_PROXY_2,
    CommandInfo 90 (Some ''setGsmBroadcastConfigResponse'') RIL_CMD_PROXY_1,
    CommandInfo 91 (Some ''setGsmBroadcastActivationResponse'') RIL_CMD_PROXY_1,
    CommandInfo 92 (Some ''getCdmaBroadcastConfigResponse'') RIL_CMD_PROXY_1,
    CommandInfo 93 (Some ''setCdmaBroadcastConfigResponse'') RIL_CMD_PROXY_1,
    CommandInfo 94 (Some ''setCdmaBroadcastActivationResponse'') RIL_CMD_PROXY_1,
    CommandInfo 95 (Some ''getCDMASubscriptionResponse'') RIL_CMD_PROXY_1,
    CommandInfo 96 (Some ''writeSmsToRuimResponse'') RIL_CMD_PROXY_1,
    CommandInfo 97 (Some ''deleteSmsOnRuimResponse'') RIL_CMD_PROXY_1,
    CommandInfo 98 (Some ''getDeviceIdentityResponse'') RIL_CMD_PROXY_3,
    CommandInfo 99 (Some ''exitEmergencyCallbackModeResponse'') RIL_CMD_PROXY_2,
    CommandInfo 100 (Some ''getSmscAddressResponse'') RIL_CMD_PROXY_2,
    CommandInfo 101 (Some ''setSmscAddressResponse'') RIL_CMD_PROXY_2,
    CommandInfo 102 (Some ''reportSmsMemoryStatusResponse'') RIL_CMD_PROXY_1,
    CommandInfo 103 (Some ''reportStkServiceIsRunningResponse'') RIL_CMD_PROXY_1,
    CommandInfo 104 (Some ''getCdmaSubscriptionSourceResponse'') RIL_CMD_PROXY_1,
    CommandInfo 105 (Some ''requestIsimAuthenticationResponse'') RIL_CMD_PROXY_1,
    CommandInfo 106 (Some ''acknowledgeIncomingGsmSmsWithPduResponse'') RIL_CMD_PROXY_1,
    CommandInfo 107 (Some ''sendEnvelopeWithStatusResponse'') RIL_CMD_PROXY_2,
    CommandInfo 108 (Some ''getVoiceRadioTechnologyResponse'') RIL_CMD_PROXY_3,
    CommandInfo 109 (Some ''getCellInfoListResponse'') RIL_CMD_PROXY_2,
    CommandInfo 110 (Some ''setCellInfoListRateResponse'') RIL_CMD_PROXY_3,
    CommandInfo 111 (Some ''setInitialAttachApnResponse'') RIL_CMD_PROXY_1,
    CommandInfo 112 (Some ''getImsRegistrationStateResponse'') RIL_CMD_PROXY_3,
    CommandInfo 113 (Some ''sendImsSmsResponse'') RIL_CMD_PROXY_1,
    CommandInfo 114 (Some ''iccTransmitApduBasicChannelResponse'') RIL_CMD_PROXY_1,
    CommandInfo 115 (Some ''iccOpenLogicalChannelResponse'') RIL_CMD_PROXY_1,
    CommandInfo 116 (Some ''iccCloseLogicalChannelResponse'') RIL_CMD_PROXY_1,
    CommandInfo 117 (Some ''iccTransmitApduLogicalChannelResponse'') RIL_CMD_PROXY_1,
    CommandInfo 118 (Some ''nvReadItemResponse'') RIL_CMD_PROXY_4,
    CommandInfo 119 (Some ''nvWriteItemResponse'') RIL_CMD_PROXY_4,
    CommandInfo 120 (Some ''nvWriteCdmaPrlResponse'') RIL_CMD_PROXY_4,
    CommandInfo 121 (Some ''nvResetConfigResponse'') RIL_CMD_PROXY_4,
    CommandInfo 122 (Some ''setUiccSubscriptionResponse'') RIL_CMD_PROXY_1,
    CommandInfo 123 (Some ''setDataAllowedResponse'') RIL_CMD_PROXY_5,
    CommandInfo 124 (Some ''getHardwareConfigResponse'') RIL_CMD_PROXY_1,
    CommandInfo 125 (Some ''requestIccSimAuthenticationResponse'') RIL_CMD_PROXY_3,
    CommandInfo 126 (None) RIL_CMD_PROXY_1,
    CommandInfo 127 (None) RIL_CMD_PROXY_1,
    CommandInfo 128 (Some ''setDataProfileResponse'') RIL_CMD_PROXY_1,
    CommandInfo 129 (Some ''requestShutdownResponse'') RIL_CMD_PROXY_1,
    CommandInfo 130 (Some ''getRadioCapabilityResponse'') RIL_CMD_PROXY_1,
    CommandInfo 131 (Some ''setRadioCapabilityResponse'') RIL_CMD_PROXY_1,
    CommandInfo 132 (Some ''startLceServiceResponse'') RIL_CMD_PROXY_5,
    CommandInfo 133 (Some ''stopLceServiceResponse'') RIL_CMD_PROXY_5,
    CommandInfo 134 (Some ''pullLceDataResponse'') RIL_CMD_PROXY_5,
    CommandInfo 135 (Some ''getModemActivityInfoResponse'') RIL_CMD_PROXY_1,
    CommandInfo 136 (Some ''setAllowedCarriersResponse'') RIL_CMD_PROXY_4,
    CommandInfo 137 (Some ''getAllowedCarriersResponse'') RIL_CMD_PROXY_4,
    CommandInfo 138 (Some ''sendDeviceStateResponse'') RIL_CMD_PROXY_3,
    CommandInfo 139 (Some ''setIndicationFilterResponse'') RIL_CMD_PROXY_3,
    CommandInfo 140 (Some ''setSimCardPowerResponse'') RIL_CMD_PROXY_1]"

definition ril_unsol_commands :: "unsol_info list" where
  "ril_unsol_commands =
   [UnsolResponseInfo 1000 (Some ''radioStateChangedInd'') WAKE_PARTIAL,
    UnsolResponseInfo 1001 (Some ''callStateChangedInd'') WAKE_PARTIAL,
    UnsolResponseInfo 1002 (Some ''networkStateChangedInd'') WAKE_PARTIAL,
    UnsolResponseInfo 1003 (Some ''newSmsInd'') WAKE_PARTIAL,
    UnsolResponseInfo 1004 (Some ''newSmsStatusReportInd'') WAKE_PARTIAL,
    UnsolResponseInfo 1005 (Some ''newSmsOnSimInd'') WAKE_PARTIAL,
    UnsolResponseInfo 1006 (Some ''onUssdInd'') WAKE_PARTIAL,
    UnsolResponseInfo 1007 (Some ''onUssdInd'') DONT_WAKE,
    UnsolResponseInfo 1008 (Some ''nitzTimeReceivedInd'') WAKE_PARTIAL,
    UnsolResponseInfo 1009 (Some ''currentSignalStrengthInd'') DONT_WAKE,
    UnsolResponseInfo 1010 (Some ''dataCallListChangedInd'') WAKE_PARTIAL,
    UnsolResponseInfo 1011 (Some ''suppSvcNotifyInd'') WAKE_PARTIAL,
    UnsolResponseInfo 1012 (Some ''stkSessionEndInd'') WAKE_PARTIAL,
    UnsolResponseInfo 1013 (Some ''stkProactiveCommandInd'') WAKE_PARTIAL,
    UnsolResponseInfo 1014 (Some ''stkEventNotifyInd'') WAKE_PARTIAL,
    UnsolResponseInfo 1015 (Some ''stkCallSetupInd'') WAKE_PARTIAL,
    UnsolResponseInfo 1016 (Some ''simSmsStorageFullInd'') WAKE_PARTIAL,
    UnsolResponseInfo 1017 (Some ''simRefreshInd'') WAKE_PARTIAL,
    UnsolResponseInfo 1018 (Some ''callRingInd'') WAKE_PARTIAL,
    UnsolResponseInfo 1019 (Some ''simStatusChangedInd'') WAKE_PARTIAL,
    UnsolResponseInfo 1020 (Some ''cdmaNewSmsInd'') WAKE_PARTIAL,
    UnsolResponseInfo 1021 (Some ''newBroadcastSmsInd'') WAKE_PARTIAL,
    UnsolResponseInfo 1022 (Some ''cdmaRuimSmsStorageFullInd'') WAKE_PARTIAL,
    UnsolResponseInfo 1023 (Some ''restrictedStateChangedInd'') WAKE_PARTIAL,
    UnsolResponseInfo 1024 (Some ''enterEmergencyCallbackModeInd'') WAKE_PARTIAL,
    UnsolResponseInfo 1025 (Some ''cdmaCallWaitingInd'') WAKE_PARTIAL,
    UnsolResponseInfo 1026 (Some ''cdmaOtaProvisionStatusInd'') WAKE_PARTIAL,
    UnsolResponseInfo 1027 (Some ''cdmaInfoRecInd'') WAKE_PARTIAL,
    UnsolResponseInfo 1028 (Some ''oemHookRawInd'') WAKE_PARTIAL,
    UnsolResponseInfo 1029 (Some ''indicateRingbackToneInd'') WAKE_PARTIAL,
    UnsolResponseInfo 1030 (Some ''resendIncallMuteInd'') WAKE_PARTIAL,
    UnsolResponseInfo 1031 (Some ''cdmaSubscriptionSourceChangedInd'') WAKE_PARTIAL,
    UnsolResponseInfo 1032 (Some ''cdmaPrlChangedInd'') WAKE_PARTIAL,
    UnsolResponseInfo 1033 (Some ''exitEmergencyCallbackModeInd'') WAKE_PARTIAL,
    UnsolResponseInfo 1034 (Some ''rilConnectedInd'') WAKE_PARTIAL,
    UnsolResponseInfo 1035 (Some ''voiceRadioTechChangedInd'') WAKE_PARTIAL,
    UnsolResponseInfo 1036 (Some ''cellInfoListInd'') WAKE_PARTIAL,
    UnsolResponseInfo 1037 (Some ''imsNetworkStateChangedInd'') WAKE_PARTIAL,
    UnsolResponseInfo 1038 (Some ''subscriptionStatusChangedInd'') WAKE_PARTIAL,
    UnsolResponseInfo 1039 (Some ''srvccStateNotifyInd'') WAKE_PARTIAL,
    UnsolResponseInfo 1040 (Some ''hardwareConfigChangedInd'') WAKE_PARTIAL,
    UnsolResponseInfo 1041 (None) WAKE_PARTIAL,
    UnsolResponseInfo 1042 (Some ''radioCapabilityIndicationInd'') WAKE_PARTIAL,
    UnsolResponseInfo 1043 (Some ''onSupplementaryServiceIndicationInd'') WAKE_PARTIAL,
    UnsolResponseInfo 1044 (Some ''stkCallControlAlphaNotifyInd'') WAKE_PARTIAL,
    UnsolResponseInfo 1045 (Some ''lceDataInd'') WAKE_PARTIAL,
    UnsolResponseInfo 1046 (Some ''pcoDataInd'') WAKE_PARTIAL,
    UnsolResponseInfo 1047 (Some ''modemResetInd'') WAKE_PARTIAL]"

definition mtk_ril_unsol_commands :: "unsol_info list" where
  "mtk_ril_unsol_commands =
   [UnsolResponseInfo 3000 (None) WAKE_PARTIAL,
    UnsolResponseInfo 3001 (None) WAKE_PARTIAL,
    UnsolResponseInfo 3002 (None) WAKE_PARTIAL,
    UnsolResponseInfo 3003 (None) WAKE_PARTIAL,
    UnsolResponseInfo 3004 (None) WAKE_PARTIAL,
    UnsolResponseInfo 3005 (None) WAKE_PARTIAL,
    UnsolResponseInfo 3006 (None) WAKE_PARTIAL,
    UnsolResponseInfo 3007 (None) WAKE_PARTIAL,
    UnsolResponseInfo 3008 (None) WAKE_PARTIAL,
    UnsolResponseInfo 3009 (None) WAKE_PARTIAL,
    UnsolResponseInfo 3010 (None) WAKE_PARTIAL,
    UnsolResponseInfo 3011 (None) WAKE_PARTIAL,
    UnsolResponseInfo 3012 (None) WAKE_PARTIAL,
    UnsolResponseInfo 3013 (None) WAKE_PARTIAL,
    UnsolResponseInfo 3014 (None) WAKE_PARTIAL,
    UnsolResponseInfo 3015 (Some ''psNetworkStateChangedInd'') WAKE_PARTIAL,
    UnsolResponseInfo 3016 (None) WAKE_PARTIAL,
    UnsolResponseInfo 3017 (None) WAKE_PARTIAL,
    UnsolResponseInfo 3018 (None) WAKE_PARTIAL,
    UnsolResponseInfo 3019 (None) WAKE_PARTIAL,
    UnsolResponseInfo 3020 (None) WAKE_PARTIAL,
    UnsolResponseInfo 3021 (None) WAKE_PARTIAL,
    UnsolResponseInfo 3022 (None) WAKE_PARTIAL,
    UnsolResponseInfo 3023 (None) WAKE_PARTIAL,
    UnsolResponseInfo 3024 (Some ''registrationSuspendInd'') WAKE_PARTIAL,
    UnsolResponseInfo 3025 (None) WAKE_PARTIAL,
    UnsolResponseInfo 3026 (None) WAKE_PARTIAL,
    UnsolResponseInfo 3027 (None) WAKE_PARTIAL,
    UnsolResponseInfo 3028 (None) WAKE_PARTIAL,
    UnsolResponseInfo 3029 (None) WAKE_PARTIAL,
    UnsolResponseInfo 3030 (None) WAKE_PARTIAL,
    UnsolResponseInfo 3031 (None) WAKE_PARTIAL,
    UnsolResponseInfo 3032 (None) WAKE_PARTIAL,
    UnsolResponseInfo 3033 (None) WAKE_PARTIAL,
    UnsolResponseInfo 3034 (None) WAKE_PARTIAL,
    UnsolResponseInfo 3035 (None) WAKE_PARTIAL,
    UnsolResponseInfo 3036 (None) WAKE_PARTIAL,
    UnsolResponseInfo 3037 (None) WAKE_PARTIAL,
    UnsolResponseInfo 3038 (None) WAKE_PARTIAL,
    UnsolResponseInfo 3039 (None) WAKE_PARTIAL,
    UnsolResponseInfo 3040 (None) WAKE_PARTIAL,
    UnsolResponseInfo 3041 (None) WAKE_PARTIAL,
    UnsolResponseInfo 3042 (Some ''incomingCallInd'') WAKE_PARTIAL,
    UnsolResponseInfo 3043 (None) WAKE_PARTIAL,
    UnsolResponseInfo 3044 (None) WAKE_PARTIAL,
    UnsolResponseInfo 3045 (None) WAKE_PARTIAL,
    UnsolResponseInfo 3046 (None) WAKE_PARTIAL,
    UnsolResponseInfo 3047 (None) WAKE_PARTIAL,
    UnsolResponseInfo 3048 (None) WAKE_PARTIAL,
    UnsolResponseInfo 3049 (Some ''callInfoInd'') WAKE_PARTIAL,
    UnsolResponseInfo 3050 (None) WAKE_PARTIAL,
    UnsolResponseInfo 3051 (None) WAKE_PARTIAL,
    UnsolResponseInfo 3052 (None) WAKE_PARTIAL,
    UnsolResponseInfo 3053 (None) WAKE_PARTIAL,
    UnsolResponseInfo 3054 (None) WAKE_PARTIAL,
    UnsolResponseInfo 3055 (None) WAKE_PARTIAL,
    UnsolResponseInfo 3056 (None) WAKE_PARTIAL,
    UnsolResponseInfo 3057 (None) WAKE_PARTIAL,
    UnsolResponseInfo 3058 (None) WAKE_PARTIAL,
    UnsolResponseInfo 3059 (None) WAKE_PARTIAL,
    UnsolResponseInfo 3060 (None) WAKE_PARTIAL,
    UnsolResponseInfo 3061 (None) WAKE_PARTIAL,
    UnsolResponseInfo 3062 (None) WAKE_PARTIAL,
    UnsolResponseInfo 3063 (None) WAKE_PARTIAL,
    UnsolResponseInfo 3064 (None) WAKE_PARTIAL,
    UnsolResponseInfo 3065 (None) WAKE_PARTIAL,
    UnsolResponseInfo 3066 (None) WAKE_PARTIAL,
    UnsolResponseInfo 3067 (None) WAKE_PARTIAL,
    UnsolResponseInfo 3068 (None) WAKE_PARTIAL,
    UnsolResponseInfo 3069 (None) WAKE_PARTIAL,
    UnsolResponseInfo 3070 (None) WAKE_PARTIAL,
    UnsolResponseInfo 3071 (None) WAKE_PARTIAL,
    UnsolResponseInfo 3072 (None) WAKE_PARTIAL,
    UnsolResponseInfo 3073 (Some ''setAttachApnInd'') WAKE_PARTIAL,
    UnsolResponseInfo 3074 (None) WAKE_PARTIAL,
    UnsolResponseInfo 3075 (None) WAKE_PARTIAL,
    UnsolResponseInfo 3076 (None) WAKE_PARTIAL,
    UnsolResponseInfo 3077 (None) WAKE_PARTIAL,
    UnsolResponseInfo 3078 (None) WAKE_PARTIAL,
    UnsolResponseInfo 3079 (None) WAKE_PARTIAL,
    UnsolResponseInfo 3080 (None) WAKE_PARTIAL]"

definition s_commands :: "command_info list" where
  "s_commands = ril_commands"

definition s_unsolResponses :: "unsol_info list" where
  "s_unsolResponses = ril_unsol_commands @ mtk_ril_unsol_commands"

section \<open>The self check\<close>

text \<open>
  The two loops of \<open>RIL_register\<close>: from place \<open>i\<close> on, with the start of the numbers of the vendor found
  so far; \<open>None\<close> is a failed assertion.
\<close>

fun check_commands :: "command_info list \<Rightarrow> int \<Rightarrow> int \<Rightarrow> int option" where
  "check_commands [] i start = Some start"
| "check_commands (c # cs) i start =
     (if requestNumber c < RIL_REQUEST_VENDOR_BASE then
        (if i = requestNumber c then check_commands cs (i + 1) start else None)
      else
        let start1 = (if start = 0 then i else start)
        in if i + RIL_REQUEST_VENDOR_BASE - start1 = requestNumber c then check_commands cs (i + 1) start1
           else None)"

fun check_unsols :: "unsol_info list \<Rightarrow> int \<Rightarrow> int \<Rightarrow> int option" where
  "check_unsols [] i start = Some start"
| "check_unsols (c # cs) i start =
     (if unsolNumber c < RIL_UNSOL_VENDOR_BASE then
        (if i + RIL_UNSOL_RESPONSE_BASE = unsolNumber c then check_unsols cs (i + 1) start else None)
      else
        let start1 = (if start = 0 then i else start)
        in if i + RIL_UNSOL_VENDOR_BASE - start1 = unsolNumber c then check_unsols cs (i + 1) start1
           else None)"

text \<open>Where the numbers of the vendor start, 0 for a table without any.\<close>

definition mtk_command_start :: int where
  "mtk_command_start = (case check_commands s_commands 0 0 of Some i \<Rightarrow> i | None \<Rightarrow> 0)"

definition mtk_unsol_start :: int where
  "mtk_unsol_start = (case check_unsols s_unsolResponses 0 0 of Some i \<Rightarrow> i | None \<Rightarrow> 0)"

section \<open>Indices\<close>

text \<open>The place of a request in \<open>s_commands\<close> as \<open>addRequestToList\<close> computes it, and the entry there.\<close>

definition command_index :: "int \<Rightarrow> int" where
  "command_index request =
     (if request < RIL_REQUEST_VENDOR_BASE then request
      else request - RIL_REQUEST_VENDOR_BASE + mtk_command_start)"

definition command_at :: "int \<Rightarrow> command_info option" where
  "command_at i = (if 0 \<le> i \<and> i < int (length s_commands) then Some (s_commands ! nat i) else None)"

definition unsol_index :: "int \<Rightarrow> int" where
  "unsol_index unsol =
     (if unsol < RIL_UNSOL_VENDOR_BASE then unsol - RIL_UNSOL_RESPONSE_BASE
      else unsol - RIL_UNSOL_VENDOR_BASE + mtk_unsol_start)"

definition unsol_at :: "int \<Rightarrow> unsol_info option" where
  "unsol_at i = (if 0 \<le> i \<and> i < int (length s_unsolResponses) then Some (s_unsolResponses ! nat i) else None)"

section \<open>What the check establishes\<close>

lemma command_numbers: "map requestNumber s_commands = map int [0..<141]"
  by (simp only: s_commands_def ril_commands_def list.map command_info.sel) (simp add: upt_rec)

lemma unsol_numbers:
  "map unsolNumber s_unsolResponses = map int ([1000..<1000 + 48] @ [3000..<3000 + 81])"
  by (simp only: s_unsolResponses_def ril_unsol_commands_def mtk_ril_unsol_commands_def list.map map_append
      unsol_info.sel append.simps) (simp add: upt_rec)

text \<open>The check needs the numbers only.\<close>

lemma check_commands_plain:
  "map requestNumber cs = map int [a..<b] \<Longrightarrow> b \<le> 2000 \<Longrightarrow> check_commands cs (int a) start = Some start"
proof (induction cs arbitrary: a)
  case (Cons c cs)
  then have "a < b" by (metis list.discI list.simps(8) map_is_Nil_conv upt_eq_Nil_conv leI)
  then have "requestNumber c = int a" "map requestNumber cs = map int [Suc a..<b]"
    using Cons.prems(1) by (simp_all add: upt_rec[of a b])
  then show ?case using Cons.IH[of "Suc a"] Cons.prems(2) \<open>a < b\<close>
    by (simp add: RIL_REQUEST_VENDOR_BASE_def add.commute)
qed simp

lemma check_unsols_plain:
  "map unsolNumber cs = map int [1000 + i..<b] \<Longrightarrow> b \<le> 3000
    \<Longrightarrow> check_unsols (cs @ ds) (int i) start = check_unsols ds (int (i + length cs)) start"
proof (induction cs arbitrary: i)
  case (Cons c cs)
  then have "1000 + i < b" by (metis list.discI list.simps(8) map_is_Nil_conv upt_eq_Nil_conv leI)
  then have "unsolNumber c = 1000 + int i" "map unsolNumber cs = map int [1000 + Suc i..<b]"
    using Cons.prems(1) by (simp_all add: upt_rec[of "1000 + i" b])
  then show ?case using Cons.IH[of "Suc i"] Cons.prems(2) \<open>1000 + i < b\<close>
    by (simp add: RIL_UNSOL_RESPONSE_BASE_def RIL_UNSOL_VENDOR_BASE_def add.commute)
qed simp

lemma check_unsols_vendor:
  "map unsolNumber cs = map int [3000 + k..<b] \<Longrightarrow> 0 < n
    \<Longrightarrow> check_unsols cs (int (n + k)) (int n) = Some (int n)"
proof (induction cs arbitrary: k)
  case (Cons c cs)
  then have "3000 + k < b" by (metis list.discI list.simps(8) map_is_Nil_conv upt_eq_Nil_conv leI)
  then have "unsolNumber c = 3000 + int k" "map unsolNumber cs = map int [3000 + Suc k..<b]"
    using Cons.prems(1) by (simp_all add: upt_rec[of "3000 + k" b])
  then show ?case using Cons.IH[of "Suc k"] Cons.prems(2)
    by (simp add: RIL_UNSOL_VENDOR_BASE_def add.commute)
qed simp

lemma check_unsols_first:
  "cs \<noteq> [] \<Longrightarrow> 3000 \<le> unsolNumber (hd cs) \<Longrightarrow> check_unsols cs i 0 = check_unsols cs i i"
  by (cases cs) (auto simp: RIL_UNSOL_VENDOR_BASE_def)

lemma commands_checked: "check_commands s_commands 0 0 = Some 0"
  using check_commands_plain[OF command_numbers, of 0] by simp

lemma nth_two_ranges:
  assumes "map f xs = map int ([a..<a + n] @ [b..<b + m])" "k < n + m"
  shows "f (xs ! k) = (if k < n then int (a + k) else int (b + (k - n)))"
proof -
  have "k < length xs" using arg_cong[OF assms(1), of length] assms(2) by simp
  then have "f (xs ! k) = map f xs ! k" by simp
  also have "\<dots> = (if k < n then int (a + k) else int (b + (k - n)))"
    unfolding assms(1) using assms(2) by (auto simp: nth_append)
  finally show ?thesis .
qed

lemma length_s_commands [simp]: "length s_commands = 141"
  using arg_cong[OF command_numbers, of length] by simp

lemma length_s_unsolResponses [simp]: "length s_unsolResponses = 129"
  using arg_cong[OF unsol_numbers, of length] by simp

lemma unsols_checked: "check_unsols s_unsolResponses 0 0 = Some 48"
proof -
  define cs ds where "cs = take 48 s_unsolResponses" and "ds = drop 48 s_unsolResponses"
  have l: "length cs = 48" by (simp add: cs_def)
  have c: "map unsolNumber cs = map int [1000 + 0..<1048]"
    unfolding cs_def take_map[symmetric] unsol_numbers by (simp add: take_map[symmetric])
  have d: "map unsolNumber ds = map int [3000 + 0..<3081]"
    unfolding ds_def drop_map[symmetric] unsol_numbers by (simp add: drop_map[symmetric])
  have h: "ds \<noteq> []" "unsolNumber (hd ds) = 3000"
  proof -
    show "ds \<noteq> []" using arg_cong[OF d, of length] by auto
    then show "unsolNumber (hd ds) = 3000" using arg_cong[OF d, of hd] by (simp add: hd_map)
  qed
  have "check_unsols s_unsolResponses 0 0 = check_unsols (cs @ ds) (int 0) 0" by (simp add: cs_def ds_def)
  also have "\<dots> = check_unsols ds (int (0 + length cs)) 0" by (rule check_unsols_plain[OF c]) simp
  also have "\<dots> = check_unsols ds (int (48 + 0)) (int 48)" using check_unsols_first[OF h(1), of 48] h(2) l by simp
  also have "\<dots> = Some (int 48)" by (rule check_unsols_vendor[OF d]) simp
  finally show ?thesis by simp
qed

lemma command_number: "k < 141 \<Longrightarrow> requestNumber (s_commands ! k) = int k"
  using nth_two_ranges[of requestNumber s_commands 0 141 0 0 k] command_numbers by simp

lemma unsol_number: "k < 129 \<Longrightarrow> unsolNumber (s_unsolResponses ! k) = (if k < 48 then 1000 + int k else 2952 + int k)"
  using nth_two_ranges[OF unsol_numbers, of k] by (auto simp: of_nat_diff)

text \<open>The entries of two requests, for examples.\<close>

lemma command_1: "command_at (command_index 1) = Some (CommandInfo 1 (Some ''getIccCardStatusResponse'') RIL_CMD_PROXY_1)"
  unfolding command_index_def mtk_command_start_def commands_checked command_at_def
  by (simp add: RIL_REQUEST_VENDOR_BASE_def)
     (simp only: s_commands_def ril_commands_def nth_Cons_Suc One_nat_def nth_Cons_0)

lemma command_23: "command_at (command_index 23) = Some (CommandInfo 23 (Some ''setRadioPowerResponse'') RIL_CMD_PROXY_1)"
  unfolding command_index_def mtk_command_start_def commands_checked command_at_def
  by (simp add: RIL_REQUEST_VENDOR_BASE_def)
     (simp only: s_commands_def ril_commands_def numeral_eq_Suc pred_numeral_simps BitM.simps nth_Cons_Suc
       One_nat_def nth_Cons_0 numeral_One)

text \<open>
  C40: The tables pass the check, an ordinary request finds its own entry and so does every indication of
  the two tables.  But the table of the vendor's requests is not compiled in: the request 2000 + k gets the
  entry of the ordinary request k.  An indication from 1048 to 1128 gets an entry of the vendor, and
  larger ones up to 2999 an entry behind the table.
\<close>

theorem entries_found:
  "check_commands s_commands 0 0 \<noteq> None \<and> check_unsols s_unsolResponses 0 0 \<noteq> None
   \<and> (0 \<le> r \<and> r < 141 \<longrightarrow> map_option requestNumber (command_at (command_index r)) = Some r)
   \<and> (2000 \<le> r \<longrightarrow> command_at (command_index r) = command_at (r - 2000))
   \<and> (1000 \<le> u \<and> u < 1048 \<or> 3000 \<le> u \<and> u < 3081 \<longrightarrow> map_option unsolNumber (unsol_at (unsol_index u)) = Some u)
   \<and> (1048 \<le> u \<and> u < 1129 \<longrightarrow> map_option unsolNumber (unsol_at (unsol_index u)) = Some (u + 1952))
   \<and> (1129 \<le> u \<and> u < 3000 \<longrightarrow> unsol_at (unsol_index u) = None)"
  by (auto simp: commands_checked unsols_checked command_index_def command_at_def unsol_index_def unsol_at_def
      mtk_command_start_def mtk_unsol_start_def RIL_REQUEST_VENDOR_BASE_def RIL_UNSOL_RESPONSE_BASE_def
      RIL_UNSOL_VENDOR_BASE_def command_number unsol_number)

theorem entries_found_witness:
  "command_at (command_index 2023) = command_at 23
   \<and> map_option unsolNumber (unsol_at (unsol_index 1048)) = Some 3000"
  using entries_found[of 2023 1048] by simp

end
