(* ===== verification/Ril_Buffers.thy ===== *)
theory Ril_Buffers
  imports X3_Prelude "HOL-Library.Monad_Syntax"
begin

text \<open>
  The memory in which requests travel from the service to the vendor's library: blocks of the heap and
  objects of the stack by address, \<open>calloc\<close> and \<open>free\<close>, and the functions of \<open>ril/libril/ril.cpp\<close> and
  \<open>ril_service.cpp\<close> that copy strings into it and clear them (\<open>copyHidlStringToRil\<close>,
  \<open>memsetAndFreeStrings\<close>, \<open>clearPendingBuffer\<close>).  An access outside a block or to a block that is not
  there, and a second \<open>free\<close>, are \<open>None\<close>.  Addresses are natural numbers, 0 is NULL; a pointer has eight
  bytes.
\<close>

section \<open>Memory\<close>

text \<open>
  Characters, integers, pointers, a structure with its integers and its pointers by name, and a request
  and a place of a queue, whose contents are kept elsewhere.
\<close>

datatype block =
    Chars string
  | Words "int list"
  | Ptrs "nat list"
  | Rec "(string \<times> int) list" "(string \<times> nat) list"
  | Obj
  | Node

datatype place = Heap | Stack

text \<open>
  \<open>chooser\<close> is the allocator: the address for the n-th call.  NULL and an address in use are its failures.
\<close>

record memory =
  cells :: "nat \<Rightarrow> (place \<times> block) option"
  allocs :: nat
  chooser :: "nat \<Rightarrow> nat"

definition calloc :: "block \<Rightarrow> memory \<Rightarrow> nat \<times> memory" where
  "calloc b m =
     (let a = chooser m (allocs m); m1 = m\<lparr>allocs := allocs m + 1\<rparr>
      in if a = 0 \<or> cells m a \<noteq> None then (0, m1) else (a, m1\<lparr>cells := (cells m1)(a \<mapsto> (Heap, b))\<rparr>))"

definition put :: "nat \<Rightarrow> block \<Rightarrow> memory \<Rightarrow> memory option" where
  "put a b m = (case cells m a of Some (pl, _) \<Rightarrow> Some (m\<lparr>cells := (cells m)(a \<mapsto> (pl, b))\<rparr>) | None \<Rightarrow> None)"

definition block_at :: "nat \<Rightarrow> memory \<Rightarrow> block option" where
  "block_at a m = map_option snd (cells m a)"

definition free :: "nat \<Rightarrow> memory \<Rightarrow> memory option" where
  "free a m =
     (if a = 0 then Some m
      else case cells m a of Some (Heap, _) \<Rightarrow> Some (m\<lparr>cells := (cells m)(a := None)\<rparr>) | _ \<Rightarrow> None)"

text \<open>A variable of the running function; \<open>drop_local\<close> is its end.\<close>

definition local_var :: "nat \<Rightarrow> block \<Rightarrow> memory \<Rightarrow> memory" where
  "local_var a b m = m\<lparr>cells := (cells m)(a \<mapsto> (Stack, b))\<rparr>"

definition drop_local :: "nat \<Rightarrow> memory \<Rightarrow> memory" where
  "drop_local a m = m\<lparr>cells := (cells m)(a := None)\<rparr>"

section \<open>Strings\<close>

definition MAX_STRING_LENGTH :: nat where "MAX_STRING_LENGTH = 4096"

text \<open>\<open>strnlen\<close> stays inside the block when there is a terminator or the block is long enough.\<close>

definition strnlen_inside :: "string \<Rightarrow> bool" where
  "strnlen_inside s = (CHR 0x00 \<in> set s \<or> MAX_STRING_LENGTH \<le> length s)"

fun memsetAndFreeStrings :: "nat list \<Rightarrow> memory \<Rightarrow> memory option" where
  "memsetAndFreeStrings [] m = Some m"
| "memsetAndFreeStrings (p # ps) m =
     (if p = 0 then memsetAndFreeStrings ps m
      else case block_at p m of
        Some (Chars s) \<Rightarrow>
          if strnlen_inside s then do { m1 \<leftarrow> free p m; memsetAndFreeStrings ps m1 } else None
      | _ \<Rightarrow> None)"

text \<open>
  \<open>copyHidlStringToRil\<close>: the pointer to the copy and whether it could be made.  The empty text is NULL;
  \<open>strncpy\<close> stops at a zero and fills the rest with zeros.
\<close>

definition c_copy :: "string \<Rightarrow> string" where
  "c_copy src =
     (let s = takeWhile (\<lambda>c. c \<noteq> CHR 0x00) src in s @ replicate (length src + 1 - length s) (CHR 0x00))"

definition copyHidlStringToRil :: "string \<Rightarrow> memory \<Rightarrow> nat \<times> bool \<times> memory" where
  "copyHidlStringToRil src m =
     (if src = [] then (0, True, m)
      else let (p, m1) = calloc (Chars (c_copy src)) m in (p, p \<noteq> 0, m1))"

section \<open>Buffers of requests\<close>

datatype BUF_FMTS =
    FMT_IGNORE | FMT_VOID | FMT_INTS | FMT_STR | FMT_STRS | FMT_CallFWST | FMT_IccAPDU | FMT_SIMIO
  | FMT_WrSMSSIM | FMT_RAW | FMT_AttchAPN | FMT_ImsSms | FMT_SIMAUTH | FMT_DATAPROF

definition fields_at :: "nat \<Rightarrow> memory \<Rightarrow> string list \<Rightarrow> nat list option" where
  "fields_at a m fs =
     (case block_at a m of
        Some (Rec _ ps) \<Rightarrow> those (map (map_of ps) fs)
      | _ \<Rightarrow> None)"

definition free_fields :: "nat \<Rightarrow> string list \<Rightarrow> memory \<Rightarrow> memory option" where
  "free_fields a fs m = do { ps \<leftarrow> fields_at a m fs; memsetAndFreeStrings ps m }"

definition pointers_at :: "nat \<Rightarrow> nat \<Rightarrow> memory \<Rightarrow> nat list option" where
  "pointers_at a n m = (case block_at a m of Some (Ptrs ps) \<Rightarrow> if n \<le> length ps then Some (take n ps) else None | _ \<Rightarrow> None)"

text \<open>The profiles of \<open>FMT_DATAPROF\<close>: the strings of each and the profile itself.\<close>

fun free_profiles :: "nat list \<Rightarrow> memory \<Rightarrow> memory option" where
  "free_profiles [] m = Some m"
| "free_profiles (dp # dps) m =
     do { m1 \<leftarrow> free_fields dp [''apn'', ''protocol'', ''user'', ''password''] m;
          m2 \<leftarrow> free dp m1; free_profiles dps m2 }"

definition clearPendingBuffer :: "BUF_FMTS \<Rightarrow> nat \<Rightarrow> nat \<Rightarrow> memory \<Rightarrow> memory option" where
  "clearPendingBuffer bf buf buflen m =
     (case bf of
        FMT_INTS \<Rightarrow>
          (case block_at buf m of
             Some (Words ws) \<Rightarrow>
               if buflen = 4 * length ws then put buf (Words (replicate (length ws) 0)) m else None
           | _ \<Rightarrow> None)
      | FMT_STR \<Rightarrow> memsetAndFreeStrings [buf] m
      | FMT_STRS \<Rightarrow> do { ps \<leftarrow> pointers_at buf (buflen div 8) m; memsetAndFreeStrings ps m }
      | FMT_CallFWST \<Rightarrow> free_fields buf [''number''] m
      | FMT_IccAPDU \<Rightarrow> free_fields buf [''data''] m
      | FMT_SIMIO \<Rightarrow> free_fields buf [''path'', ''data'', ''pin2'', ''aidPtr''] m
      | FMT_WrSMSSIM \<Rightarrow> free_fields buf [''smsc'', ''pdu''] m
      | FMT_AttchAPN \<Rightarrow> free_fields buf [''apn'', ''protocol'', ''username'', ''password'', ''operatorNumeric''] m
      | FMT_ImsSms \<Rightarrow>
          do { qs \<leftarrow> fields_at buf m [''gsmMessage''];
               ps \<leftarrow> pointers_at (hd qs) 2 m;
               m1 \<leftarrow> memsetAndFreeStrings ps m;
               free (hd qs) m1 }
      | FMT_SIMAUTH \<Rightarrow> free_fields buf [''authData'', ''aid''] m
      | FMT_DATAPROF \<Rightarrow> do { ps \<leftarrow> pointers_at buf (buflen div 8) m; free_profiles ps m }
      | _ \<Rightarrow> Some m)"

text \<open>
  The copy of a waiting request: \<open>calloc(1, buflen)\<close> and \<open>memcpy\<close> of as many bytes.  Structures are copied
  whole, since the callers pass their size; a copy that reads behind the block is \<open>None\<close>.
\<close>

definition copy_block :: "nat \<Rightarrow> block \<Rightarrow> block option" where
  "copy_block n b =
     (case b of
        Chars s \<Rightarrow> if n \<le> length s then Some (Chars (take n s)) else None
      | Words ws \<Rightarrow> if n = 4 * length ws then Some b else None
      | Ptrs ps \<Rightarrow> if n = 8 * length ps then Some b else None
      | Rec _ _ \<Rightarrow> Some b
      | _ \<Rightarrow> None)"

text \<open>What the vendor's library can read from a buffer.\<close>

datatype view =
    VNull
  | VChars string
  | VInts "int list"
  | VStrs "string option list"
  | VRec "(string \<times> int) list" "(string \<times> string option) list"

definition text_at :: "memory \<Rightarrow> nat \<Rightarrow> string option" where
  "text_at m p = (case block_at p m of Some (Chars s) \<Rightarrow> Some s | _ \<Rightarrow> None)"

definition view_of :: "nat \<Rightarrow> memory \<Rightarrow> view" where
  "view_of p m =
     (case block_at p m of
        Some (Chars s) \<Rightarrow> VChars s
      | Some (Words ws) \<Rightarrow> VInts ws
      | Some (Ptrs ps) \<Rightarrow> VStrs (map (text_at m) ps)
      | Some (Rec is ps) \<Rightarrow> VRec is (map (\<lambda>(f, q). (f, text_at m q)) ps)
      | _ \<Rightarrow> VNull)"

end
