(* ===== verification/Ril_Requests.thy ===== *)
theory Ril_Requests
  imports Ril_Tables Ril_Buffers
begin

text \<open>
  The life of a request in \<open>ril/libril/ril.cpp\<close> and \<open>ril_service.cpp\<close>: a \<open>dispatch\<close> function makes a
  \<open>RequestInfo\<close> and a buffer, \<open>my_enqueue\<close> hands both to the vendor's library or, with
  \<open>RIL_CHANNEL_QUEUING\<close>, lets them wait for the channel; the library acknowledges and completes, which
  answers the framework and sends the next request of the channel.  \<open>SIM_COUNT\<close> is 2.  A step is one call;
  the code itself does not lock the queues.
\<close>

section \<open>State\<close>

record config =
  queuing :: bool
  ril_version :: int

text \<open>A \<open>RequestInfo\<close>; \<open>pCI\<close> is the entry of \<open>s_commands\<close>.\<close>

record request_info =
  ri_token :: int
  pCI :: command_info
  ri_local :: bool
  cancelled :: bool
  wasAckSent :: bool
  socket_id :: nat
  ri_cid :: nat

text \<open>A \<open>ProxyReqInfo\<close>, at its address \<open>pr_addr\<close>.\<close>

record proxy_req =
  pr_addr :: nat
  pRI :: nat
  pr_buf :: nat
  buflen :: nat
  pr_bf :: BUF_FMTS

text \<open>
  What others see: the library is given a request (its number, what its buffer holds, the length, the
  token, the socket) or the framework an answer (slot, kind, serial number, error, response, length).
\<close>

datatype ril_event =
    OnRequest int view nat nat nat
  | Answer nat int int int nat nat
  | AckAnswer nat int
  | GrabWakeLock

datatype channel = Proxy1 | Proxy3

text \<open>
  \<open>reqs\<close> are the contents of the \<open>RequestInfo\<close> blocks; \<open>with_vendor\<close> are the tokens the library has been
  given and has not completed.
\<close>

record rst =
  mem :: memory
  reqs :: "nat \<Rightarrow> request_info option"
  s_pending :: "nat \<Rightarrow> nat list"
  proxyCmd :: "channel \<Rightarrow> nat \<Rightarrow> proxy_req list"
  busy :: "channel \<Rightarrow> nat \<Rightarrow> bool"
  Device_ID :: "nat \<Rightarrow> nat"
  with_vendor :: "nat list"
  revents :: "ril_event list"

definition channel_of :: "nat \<Rightarrow> channel option" where
  "channel_of p =
     (if p = RIL_CMD_PROXY_1 then Some Proxy1 else if p = RIL_CMD_PROXY_3 then Some Proxy3 else None)"

definition RIL_REQUEST_RADIO_POWER :: int where "RIL_REQUEST_RADIO_POWER = 23"
definition RIL_REQUEST_GET_IMEI :: int where "RIL_REQUEST_GET_IMEI = 38"
definition RIL_REQUEST_GET_IMEISV :: int where "RIL_REQUEST_GET_IMEISV = 39"
definition RIL_REQUEST_DEVICE_IDENTITY :: int where "RIL_REQUEST_DEVICE_IDENTITY = 98"
definition RIL_E_REQUEST_NOT_SUPPORTED :: int where "RIL_E_REQUEST_NOT_SUPPORTED = 6"
definition RIL_E_NO_MEMORY :: int where "RIL_E_NO_MEMORY = 37"

definition RESPONSE_SOLICITED :: int where "RESPONSE_SOLICITED = 0"
definition RESPONSE_SOLICITED_ACK_EXP :: int where "RESPONSE_SOLICITED_ACK_EXP = 3"

definition rlog :: "ril_event \<Rightarrow> rst \<Rightarrow> rst" where
  "rlog e s = s\<lparr>revents := revents s @ [e]\<rparr>"

section \<open>The list of requests\<close>

text \<open>
  \<open>addRequestToList\<close>: the address of the new \<open>RequestInfo\<close>, 0 when there is no memory; \<open>None\<close> when the
  number of the request leads behind the table.
\<close>

definition addRequestToList :: "int \<Rightarrow> nat \<Rightarrow> int \<Rightarrow> rst \<Rightarrow> (nat \<times> rst) option" where
  "addRequestToList serial slotId request s =
     (let (t, m1) = calloc Obj (mem s)
      in if t = 0 then Some (0, s\<lparr>mem := m1\<rparr>)
         else case command_at (command_index request) of
           None \<Rightarrow> None
         | Some c \<Rightarrow>
             let r = \<lparr>ri_token = serial, pCI = c, ri_local = (serial = - 1), cancelled = False, wasAckSent = False,
                      socket_id = slotId, ri_cid = proxyId c + (if 0 < slotId then RIL_CHANNEL_OFFSET else 0)\<rparr>
             in Some (t, s\<lparr>mem := m1, reqs := (reqs s)(t \<mapsto> r),
                           s_pending := (s_pending s)(slotId := t # s_pending s slotId)\<rparr>))"

text \<open>
  \<open>checkAndDequeueRequestInfoIfAck\<close>: \<open>None\<close> when the token is no \<open>RequestInfo\<close>, whose socket is read before
  the search.
\<close>

definition checkAndDequeueRequestInfoIfAck :: "nat \<Rightarrow> bool \<Rightarrow> rst \<Rightarrow> (bool \<times> rst) option" where
  "checkAndDequeueRequestInfoIfAck t isAck s =
     (if t = 0 then Some (False, s)
      else case reqs s t of
        None \<Rightarrow> None
      | Some r \<Rightarrow>
          if t \<in> set (s_pending s (socket_id r)) then
            Some (True,
              if isAck then s\<lparr>reqs := (reqs s)(t \<mapsto> r\<lparr>wasAckSent := True\<rparr>)\<rparr>
              else s\<lparr>s_pending := (s_pending s)(socket_id r := remove1 t (s_pending s (socket_id r)))\<rparr>)
          else Some (False, s))"

section \<open>Waiting for a channel\<close>

text \<open>The call of the library; it keeps the token.\<close>

definition onRequest :: "int \<Rightarrow> nat \<Rightarrow> nat \<Rightarrow> nat \<Rightarrow> nat \<Rightarrow> rst \<Rightarrow> rst" where
  "onRequest request buf len t soc s =
     rlog (OnRequest request (view_of buf (mem s)) len t soc) (s\<lparr>with_vendor := t # with_vendor s\<rparr>)"

definition set_busy :: "channel \<Rightarrow> nat \<Rightarrow> bool \<Rightarrow> rst \<Rightarrow> rst" where
  "set_busy c slot b s = s\<lparr>busy := (busy s)(c := (busy s c)(slot := b))\<rparr>"

definition set_queue :: "channel \<Rightarrow> nat \<Rightarrow> proxy_req list \<Rightarrow> rst \<Rightarrow> rst" where
  "set_queue c slot q s = s\<lparr>proxyCmd := (proxyCmd s)(c := (proxyCmd s c)(slot := q))\<rparr>"

definition with_mem :: "(memory \<Rightarrow> memory option) \<Rightarrow> rst \<Rightarrow> rst option" where
  "with_mem f s = map_option (\<lambda>m. s\<lparr>mem := m\<rparr>) (f (mem s))"

definition my_dequeue :: "nat \<Rightarrow> channel \<Rightarrow> rst \<Rightarrow> rst option" where
  "my_dequeue slot c s =
     (case proxyCmd s c slot of
        [] \<Rightarrow> Some (set_busy c slot False s)
      | p # q \<Rightarrow>
          (case reqs s (pRI p) of
             None \<Rightarrow> None
           | Some r \<Rightarrow>
               let s1 = set_busy c slot True (set_queue c slot q s);
                   s2 = onRequest (requestNumber (pCI r)) (pr_buf p) (buflen p) (pRI p) (socket_id r) s1
               in do { s3 \<leftarrow>
                         (if pr_bf p \<noteq> FMT_VOID \<and> buflen p \<noteq> 0 then
                            do { s4 \<leftarrow> with_mem (clearPendingBuffer (pr_bf p) (pr_buf p) (buflen p)) s2;
                                 with_mem (free (pr_buf p)) s4 }
                          else Some s2);
                       with_mem (free (pr_addr p)) s3 }))"

text \<open>The request at the end of the queue of its channel; \<open>None\<close> without memory for it.\<close>

definition wait_in_queue :: "channel \<Rightarrow> nat \<Rightarrow> nat \<Rightarrow> nat \<Rightarrow> BUF_FMTS \<Rightarrow> nat \<Rightarrow> rst \<Rightarrow> rst option" where
  "wait_in_queue c slot buf len bf t s =
     (let (a, m1) = calloc Node (mem s)
      in if a = 0 then None
         else if bf \<noteq> FMT_VOID \<and> len \<noteq> 0 then
           (case Option.bind (block_at buf m1) (copy_block len) of
              None \<Rightarrow> None
            | Some b \<Rightarrow>
                let (d, m2) = calloc b m1
                in if d = 0 then None
                   else Some (set_queue c slot
                          (proxyCmd s c slot @ [\<lparr>pr_addr = a, pRI = t, pr_buf = d, buflen = len, pr_bf = bf\<rparr>]) (s\<lparr>mem := m2\<rparr>)))
         else Some (set_queue c slot
                (proxyCmd s c slot @ [\<lparr>pr_addr = a, pRI = t, pr_buf = 0, buflen = len, pr_bf = bf\<rparr>]) (s\<lparr>mem := m1\<rparr>)))"

definition send_now :: "int \<Rightarrow> nat \<Rightarrow> nat \<Rightarrow> BUF_FMTS \<Rightarrow> nat \<Rightarrow> nat \<Rightarrow> rst \<Rightarrow> rst option" where
  "send_now request buf len bf t soc s =
     (let s1 = onRequest request buf len t soc s
      in if bf \<noteq> FMT_IGNORE then with_mem (clearPendingBuffer bf buf len) s1 else Some s1)"

text \<open>\<open>RADIO_POWER\<close> looks at the flag of the first slot and sets it, whatever its own slot.\<close>

definition my_enqueue :: "config \<Rightarrow> int \<Rightarrow> nat \<Rightarrow> nat \<Rightarrow> BUF_FMTS \<Rightarrow> nat \<Rightarrow> rst \<Rightarrow> rst option" where
  "my_enqueue cfg request buf len bf t s =
     (case reqs s t of
        None \<Rightarrow> None
      | Some r \<Rightarrow>
          let soc = socket_id r; slot = (if soc = 1 then 1 else 0)
          in if queuing cfg \<and> bf \<noteq> FMT_IGNORE then
               (case channel_of (proxyId (pCI r)) of
                  None \<Rightarrow> send_now request buf len bf t soc s
                | Some c \<Rightarrow>
                    let flag = (if c = Proxy1 \<and> request = RIL_REQUEST_RADIO_POWER then 0 else slot);
                        pending = busy s c flag;
                        s1 = set_busy c flag True s
                    in if pending then wait_in_queue c slot buf len bf t s1 else send_now request buf len bf t soc s1)
             else send_now request buf len bf t soc s)"

section \<open>Acknowledging and completing\<close>

definition RIL_onRequestAck :: "nat \<Rightarrow> rst \<Rightarrow> rst option" where
  "RIL_onRequestAck t s =
     do { (known, s1) \<leftarrow> checkAndDequeueRequestInfoIfAck t True s;
          if \<not> known then Some s1
          else case reqs s1 t of
            None \<Rightarrow> None
          | Some r \<Rightarrow> Some (if cancelled r then s1 else rlog (AckAnswer (socket_id r) (ri_token r)) s1) }"

text \<open>
  The answer to the framework, in the order of the code.  A local request only leaves the address of the
  response, for the numbers of the device.  \<open>resp\<close> is the address of the response; that of the place in
  \<open>Device_ID\<close> is a parameter.
\<close>

definition answer :: "config \<Rightarrow> (nat \<Rightarrow> nat) \<Rightarrow> request_info \<Rightarrow> int \<Rightarrow> nat \<Rightarrow> nat \<Rightarrow> rst \<Rightarrow> rst" where
  "answer cfg dev_addr r e resp len s =
     (let n = requestNumber (pCI r); i = socket_id r
      in if ri_local r then
           (if n = RIL_REQUEST_GET_IMEI then s\<lparr>Device_ID := (Device_ID s)(i * 4 := resp)\<rparr>
            else if n = RIL_REQUEST_GET_IMEISV then s\<lparr>Device_ID := (Device_ID s)(i * 4 + 1 := resp)\<rparr>
            else s)
         else
           let own = (e = RIL_E_REQUEST_NOT_SUPPORTED \<and> n = RIL_REQUEST_DEVICE_IDENTITY);
               e1 = (if own then 0 else e);
               resp1 = (if own then dev_addr (i * 4) else resp);
               len1 = (if own then 32 else len)
           in if cancelled r then s
              else
                let late = (13 \<le> ril_version cfg \<and> wasAckSent r);
                    s1 = (if late then rlog GrabWakeLock s else s);
                    kind = (if late then RESPONSE_SOLICITED_ACK_EXP else RESPONSE_SOLICITED)
                in (case responseFunction (pCI r) of
                      None \<Rightarrow> s1
                    | Some _ \<Rightarrow> rlog (Answer i kind (ri_token r) e1 resp1 len1) s1))"

definition RIL_onRequestComplete :: "config \<Rightarrow> (nat \<Rightarrow> nat) \<Rightarrow> nat \<Rightarrow> int \<Rightarrow> nat \<Rightarrow> nat \<Rightarrow> rst \<Rightarrow> rst option" where
  "RIL_onRequestComplete cfg dev_addr t e resp len s =
     do { (known, s1) \<leftarrow> checkAndDequeueRequestInfoIfAck t False s;
          if \<not> known then Some s1
          else case reqs s1 t of
            None \<Rightarrow> None
          | Some r \<Rightarrow>
              let s2 = answer cfg dev_addr r e resp len s1; slot = (if socket_id r = 0 then 0 else 1)
              in do { s3 \<leftarrow> (if queuing cfg then
                               (case channel_of (proxyId (pCI r)) of
                                  Some c \<Rightarrow> my_dequeue slot c (set_busy c slot False s2)
                                | None \<Rightarrow> Some s2)
                             else Some s2);
                      s4 \<leftarrow> with_mem (free t) s3;
                      Some (s4\<lparr>reqs := (reqs s4)(t := None), with_vendor := remove1 t (with_vendor s4)\<rparr>) } }"

section \<open>The functions that dispatch a request\<close>

text \<open>\<open>sendErrorResponse\<close>: a call through NULL when nobody handles the response.\<close>

definition sendErrorResponse :: "nat \<Rightarrow> int \<Rightarrow> rst \<Rightarrow> rst option" where
  "sendErrorResponse t err s =
     (case reqs s t of
        None \<Rightarrow> None
      | Some r \<Rightarrow>
          (case responseFunction (pCI r) of
             None \<Rightarrow> None
           | Some _ \<Rightarrow> Some (rlog (Answer (socket_id r) RESPONSE_SOLICITED (ri_token r) err 0 0) s)))"

definition no_memory :: "nat \<Rightarrow> rst \<Rightarrow> (bool \<times> rst) option" where
  "no_memory t s = map_option (Pair False) (sendErrorResponse t RIL_E_NO_MEMORY s)"

text \<open>What the dispatch functions are given beside serial number, slot and request.\<close>

datatype request_data =
    DVoid
  | DString string
  | DStrings "string list"
  | DInts "int list"
  | DCallForward int int int int string int
  | DRaw string
  | DIccApdu int int int int int int string
  | DStruct "(string \<times> int) list" "(string \<times> string) list" BUF_FMTS nat
  | DRefuse int bool

definition dispatchVoid :: "config \<Rightarrow> nat \<Rightarrow> int \<Rightarrow> rst \<Rightarrow> (bool \<times> rst) option" where
  "dispatchVoid cfg t request s = map_option (Pair True) (my_enqueue cfg request 0 0 FMT_VOID t s)"

text \<open>\<open>ignoreBF\<close>: the request is not on one of the two channels that can wait.\<close>

definition ignoreBF :: "nat \<Rightarrow> rst \<Rightarrow> bool" where
  "ignoreBF t s = (case reqs s t of Some r \<Rightarrow> channel_of (proxyId (pCI r)) = None | None \<Rightarrow> True)"

definition dispatchString :: "config \<Rightarrow> nat \<Rightarrow> int \<Rightarrow> string \<Rightarrow> rst \<Rightarrow> (bool \<times> rst) option" where
  "dispatchString cfg t request str s =
     (let (p, ok, m) = copyHidlStringToRil str (mem s); s1 = s\<lparr>mem := m\<rparr>
      in if \<not> ok then no_memory t s1
         else if ignoreBF t s1 then
           do { s2 \<leftarrow> my_enqueue cfg request p 8 FMT_IGNORE t s1;
                map_option (Pair True) (with_mem (memsetAndFreeStrings [p]) s2) }
         else map_option (Pair True) (my_enqueue cfg request p 8 FMT_STR t s1))"

text \<open>The strings copied so far, whether all could be, and the memory.\<close>

fun copy_strings :: "string list \<Rightarrow> memory \<Rightarrow> nat list \<times> bool \<times> memory" where
  "copy_strings [] m = ([], True, m)"
| "copy_strings (x # xs) m =
     (let (p, ok, m1) = copyHidlStringToRil x m
      in if ok then let (ps, ok1, m2) = copy_strings xs m1 in (p # ps, ok1, m2) else ([], False, m1))"

definition dispatchStrings :: "config \<Rightarrow> nat \<Rightarrow> int \<Rightarrow> string list \<Rightarrow> rst \<Rightarrow> (bool \<times> rst) option" where
  "dispatchStrings cfg t request strs s =
     (let (a, m1) = calloc (Ptrs (replicate (length strs) 0)) (mem s)
      in if a = 0 then no_memory t (s\<lparr>mem := m1\<rparr>)
         else
           let (ps, ok, m2) = copy_strings strs m1; s2 = s\<lparr>mem := m2\<rparr>
           in if \<not> ok then
                do { s3 \<leftarrow> sendErrorResponse t RIL_E_NO_MEMORY s2;
                     s4 \<leftarrow> with_mem (memsetAndFreeStrings ps) s3;
                     map_option (Pair False) (with_mem (free a) s4) }
              else
                do { s3 \<leftarrow> with_mem (put a (Ptrs ps)) s2;
                     if ignoreBF t s3 then
                       do { s4 \<leftarrow> my_enqueue cfg request a (8 * length strs) FMT_IGNORE t s3;
                            s5 \<leftarrow> with_mem (memsetAndFreeStrings ps) s4;
                            map_option (Pair True) (with_mem (free a) s5) }
                     else map_option (Pair True) (my_enqueue cfg request a (8 * length strs) FMT_STRS t s3) })"

definition dispatchInts :: "config \<Rightarrow> nat \<Rightarrow> int \<Rightarrow> int list \<Rightarrow> rst \<Rightarrow> (bool \<times> rst) option" where
  "dispatchInts cfg t request ints s =
     (let (a, m1) = calloc (Words (replicate (length ints) 0)) (mem s); s1 = s\<lparr>mem := m1\<rparr>
      in if a = 0 then no_memory t s1
         else
           do { s2 \<leftarrow> with_mem (put a (Words ints)) s1;
                if ignoreBF t s2 then
                  do { s3 \<leftarrow> my_enqueue cfg request a (4 * length ints) FMT_IGNORE t s2;
                       s4 \<leftarrow> with_mem (put a (Words (replicate (length ints) 0))) s3;
                       map_option (Pair True) (with_mem (free a) s4) }
                else map_option (Pair True) (my_enqueue cfg request a (4 * length ints) FMT_INTS t s2) })"

text \<open>\<open>loc\<close> is the address of the structure on the stack, of 32 bytes in both cases.\<close>

definition dispatchCallForwardStatus ::
    "config \<Rightarrow> nat \<Rightarrow> nat \<Rightarrow> int \<Rightarrow> (string \<times> int) list \<Rightarrow> string \<Rightarrow> rst \<Rightarrow> (bool \<times> rst) option" where
  "dispatchCallForwardStatus cfg loc t request ints number s =
     (let (p, ok, m) = copyHidlStringToRil number (mem s); s1 = s\<lparr>mem := m\<rparr>
      in if \<not> ok then no_memory t s1
         else
           let s2 = s1\<lparr>mem := local_var loc (Rec ints [(''number'', p)]) (mem s1)\<rparr>
           in if ignoreBF t s2 then
                do { s3 \<leftarrow> my_enqueue cfg request loc 32 FMT_IGNORE t s2;
                     s4 \<leftarrow> with_mem (memsetAndFreeStrings [p]) s3;
                     Some (True, s4\<lparr>mem := drop_local loc (mem s4)\<rparr>) }
              else
                do { s3 \<leftarrow> my_enqueue cfg request loc 32 FMT_CallFWST t s2;
                     Some (True, s3\<lparr>mem := drop_local loc (mem s3)\<rparr>) })"

text \<open>\<open>loc\<close> is the address of the bytes in the caller's vector.\<close>

definition dispatchRaw :: "config \<Rightarrow> nat \<Rightarrow> nat \<Rightarrow> int \<Rightarrow> string \<Rightarrow> rst \<Rightarrow> (bool \<times> rst) option" where
  "dispatchRaw cfg loc t request bytes s =
     do { s1 \<leftarrow> my_enqueue cfg request loc (length bytes) FMT_IGNORE t
                  (s\<lparr>mem := local_var loc (Chars bytes) (mem s)\<rparr>);
          Some (True, s1\<lparr>mem := drop_local loc (mem s1)\<rparr>) }"

definition dispatchIccApdu ::
    "config \<Rightarrow> nat \<Rightarrow> nat \<Rightarrow> int \<Rightarrow> (string \<times> int) list \<Rightarrow> string \<Rightarrow> rst \<Rightarrow> (bool \<times> rst) option" where
  "dispatchIccApdu cfg loc t request ints data s =
     (let (p, ok, m) = copyHidlStringToRil data (mem s); s1 = s\<lparr>mem := m\<rparr>
      in if \<not> ok then no_memory t s1
         else
           do { s2 \<leftarrow> my_enqueue cfg request loc 32 FMT_IccAPDU t
                        (s1\<lparr>mem := local_var loc (Rec ints [(''data'', p)]) (mem s1)\<rparr>);
                Some (True, s2\<lparr>mem := drop_local loc (mem s2)\<rparr>) })"

text \<open>
  The methods of the service that fill a structure on their stack themselves: the texts are copied in the
  order of the code, those copied are freed when one cannot be, and also after the call when the request
  does not wait.
\<close>

definition dispatchStruct ::
    "config \<Rightarrow> nat \<Rightarrow> nat \<Rightarrow> int \<Rightarrow> (string \<times> int) list \<Rightarrow> (string \<times> string) list \<Rightarrow> BUF_FMTS \<Rightarrow> nat \<Rightarrow> rst
      \<Rightarrow> (bool \<times> rst) option" where
  "dispatchStruct cfg loc t request ints texts bf len s =
     (let (ps, ok, m) = copy_strings (map snd texts) (mem s); s1 = s\<lparr>mem := m\<rparr>
      in if \<not> ok then
           do { s2 \<leftarrow> sendErrorResponse t RIL_E_NO_MEMORY s1;
                map_option (Pair False) (with_mem (memsetAndFreeStrings ps) s2) }
         else
           do { s2 \<leftarrow> my_enqueue cfg request loc len bf t
                        (s1\<lparr>mem := local_var loc (Rec ints (zip (map fst texts) ps)) (mem s1)\<rparr>);
                s3 \<leftarrow> (if bf = FMT_IGNORE then with_mem (memsetAndFreeStrings ps) s2 else Some s2);
                Some (True, s3\<lparr>mem := drop_local loc (mem s3)\<rparr>) })"

text \<open>A request that the service itself refuses; it stays in the list of requests.\<close>

definition refuse :: "nat \<Rightarrow> int \<Rightarrow> rst \<Rightarrow> (bool \<times> rst) option" where
  "refuse t err s = map_option (Pair False) (sendErrorResponse t err s)"

text \<open>
  The common beginning of all of them, and the choice.  The last argument of \<open>DRefuse\<close> tells whether the
  method looks if there is a request at all.
\<close>

definition dispatch ::
    "config \<Rightarrow> nat \<Rightarrow> int \<Rightarrow> nat \<Rightarrow> int \<Rightarrow> request_data \<Rightarrow> rst \<Rightarrow> (bool \<times> rst) option" where
  "dispatch cfg loc serial slotId request d s =
     do { (t, s1) \<leftarrow> addRequestToList serial slotId request s;
          if t = 0 then (case d of DRefuse err checked \<Rightarrow> if checked then Some (False, s1) else None | _ \<Rightarrow> Some (False, s1))
          else case d of
            DVoid \<Rightarrow> dispatchVoid cfg t request s1
          | DString str \<Rightarrow> dispatchString cfg t request str s1
          | DStrings strs \<Rightarrow> dispatchStrings cfg t request strs s1
          | DInts ints \<Rightarrow> dispatchInts cfg t request ints s1
          | DCallForward st re sc toa num ts \<Rightarrow>
              dispatchCallForwardStatus cfg loc t request
                [(''status'', st), (''reason'', re), (''serviceClass'', sc), (''toa'', toa), (''timeSeconds'', ts)] num s1
          | DRaw bytes \<Rightarrow> dispatchRaw cfg loc t request bytes s1
          | DIccApdu se cl ins p1 p2 p3 dat \<Rightarrow>
              dispatchIccApdu cfg loc t request
                [(''sessionid'', se), (''cla'', cl), (''instruction'', ins), (''p1'', p1), (''p2'', p2), (''p3'', p3)] dat s1
          | DStruct ints texts bf len \<Rightarrow> dispatchStruct cfg loc t request ints texts bf len s1
          | DRefuse err checked \<Rightarrow> refuse t err s1 }"

section \<open>Steps\<close>

text \<open>
  The service calls, and the library acknowledges or completes a request it has been given: it keeps to
  the interface, which gives it no other tokens.
\<close>

datatype ril_op =
    Dispatch int nat int request_data
  | Ack nat
  | Complete nat int nat nat

fun ril_op_step :: "config \<Rightarrow> (nat \<Rightarrow> nat) \<Rightarrow> nat \<Rightarrow> ril_op \<Rightarrow> rst \<Rightarrow> rst option" where
  "ril_op_step cfg dev loc (Dispatch serial slotId request d) s =
     map_option snd (dispatch cfg loc serial slotId request d s)"
| "ril_op_step cfg dev loc (Ack t) s = RIL_onRequestAck t s"
| "ril_op_step cfg dev loc (Complete t e resp len) s = RIL_onRequestComplete cfg dev t e resp len s"

text \<open>The formats of the structures of the service.\<close>

fun struct_fmt :: "request_data \<Rightarrow> bool" where
  "struct_fmt (DStruct ints texts bf len) = (bf \<in> {FMT_IGNORE, FMT_RAW, FMT_SIMIO, FMT_WrSMSSIM, FMT_SIMAUTH, FMT_AttchAPN})"
| "struct_fmt _ = True"

fun allowed :: "ril_op \<Rightarrow> rst \<Rightarrow> bool" where
  "allowed (Dispatch serial slotId request d) s = (slotId < 2 \<and> struct_fmt d)"
| "allowed (Ack t) s = (t \<in> set (with_vendor s))"
| "allowed (Complete t e resp len) s = (t \<in> set (with_vendor s))"

inductive ril_run :: "config \<Rightarrow> (nat \<Rightarrow> nat) \<Rightarrow> nat \<Rightarrow> rst \<Rightarrow> ril_op list \<Rightarrow> rst \<Rightarrow> bool"
  for cfg dev loc s0 where
  start: "ril_run cfg dev loc s0 [] s0"
| step: "ril_run cfg dev loc s0 ops s \<Longrightarrow> allowed op s \<Longrightarrow> ril_op_step cfg dev loc op s = Some s'
    \<Longrightarrow> ril_run cfg dev loc s0 (ops @ [op]) s'"

definition ril_start :: "(nat \<Rightarrow> nat) \<Rightarrow> rst" where
  "ril_start ch = \<lparr>mem = \<lparr>cells = (\<lambda>_. None), allocs = 0, chooser = ch\<rparr>, reqs = (\<lambda>_. None), s_pending = (\<lambda>_. []),
                   proxyCmd = (\<lambda>_ _. []), busy = (\<lambda>_ _. False), Device_ID = (\<lambda>_. 0), with_vendor = [], revents = []\<rparr>"

end
