(* ===== verification/Ril_Answers.thy ===== *)
theory Ril_Answers
  imports Ril_Requests "HOL-Library.Multiset"
begin

text \<open>
  Invariants of the requests: which blocks of memory stay, where every token is, and that no request is
  answered twice.
\<close>

section \<open>Blocks that stay\<close>

text \<open>
  The blocks of the heap other than strings.  Strings are freed through pointers found in other blocks, so
  that nothing is claimed of them; what else is freed is known by its kind.
\<close>

fun kept_block :: "(place \<times> block) option \<Rightarrow> block option" where
  "kept_block (Some (Heap, Chars s)) = None"
| "kept_block (Some (Heap, b)) = Some b"
| "kept_block _ = None"

definition solid :: "memory \<Rightarrow> nat \<Rightarrow> block option" where
  "solid m a = kept_block (cells m a)"

text \<open>Blocks appear at addresses of the allocator only.\<close>

definition placed :: "memory \<Rightarrow> memory \<Rightarrow> bool" where
  "placed m m' =
     (chooser m' = chooser m \<and> (\<forall>a. solid m a = None \<longrightarrow> a = 0 \<or> (\<forall>n. chooser m n \<noteq> a) \<longrightarrow> solid m' a = None))"

definition keepm :: "memory \<Rightarrow> memory \<Rightarrow> bool" where
  "keepm m m' = (placed m m' \<and> (\<forall>a b. solid m a = Some b \<longrightarrow> solid m' a = Some b))"

lemma placed_refl [intro]: "placed m m"
  by (simp add: placed_def)

lemma placed_trans: "placed m m1 \<Longrightarrow> placed m1 m2 \<Longrightarrow> placed m m2"
  by (auto simp: placed_def)

lemma placed_same: "solid m' = solid m \<Longrightarrow> chooser m' = chooser m \<Longrightarrow> placed m m'"
  by (simp add: placed_def)

lemma keepm_refl [intro]: "keepm m m"
  by (auto simp: keepm_def)

lemma keepm_trans: "keepm m m1 \<Longrightarrow> keepm m1 m2 \<Longrightarrow> keepm m m2"
  by (auto simp: keepm_def intro: placed_trans)

lemma solid_None [simp]: "cells m a = None \<Longrightarrow> solid m a = None"
  by (simp add: solid_def)

lemma callocD:
  assumes "calloc b m = (a, m')"
  shows "keepm m m'" "cells m x \<noteq> None \<Longrightarrow> cells m' x = cells m x"
    and "a \<noteq> 0 \<Longrightarrow> cells m a = None \<and> cells m' a = Some (Heap, b)"
    and "a = 0 \<Longrightarrow> cells m' = cells m" "a \<noteq> 0 \<Longrightarrow> chooser m (allocs m) = a"
  using assms
  by (cases "cells m (chooser m (allocs m))"; auto simp: calloc_def Let_def keepm_def placed_def solid_def split: if_splits)+

lemma freeD:
  assumes "free a m = Some m'"
  shows "chooser m' = chooser m" "x \<noteq> a \<Longrightarrow> cells m' x = cells m x" "x \<noteq> a \<Longrightarrow> solid m' x = solid m x"
    "placed m m'"
  using assms by (auto simp: free_def solid_def placed_def split: if_splits option.splits prod.splits place.splits)

lemma free_strings_solid: "memsetAndFreeStrings ps m = Some m' \<Longrightarrow> solid m' = solid m \<and> chooser m' = chooser m"
proof (induction ps m arbitrary: m' rule: memsetAndFreeStrings.induct)
  case (2 p ps m)
  show ?case
  proof (cases "p = 0")
    case False
    then obtain s m1 where b: "block_at p m = Some (Chars s)" "free p m = Some m1" "memsetAndFreeStrings ps m1 = Some m'"
        "strnlen_inside s"
      using 2(3) by (auto simp: bind_eq_Some_conv split: option.splits block.splits if_splits)
    have "solid m1 = solid m"
    proof
      fix x show "solid m1 x = solid m x"
        using b(1,2) freeD(3)[OF b(2), of x] False
        by (cases "x = p") (auto simp: free_def block_at_def solid_def split: option.splits place.splits)
    qed
    then show ?thesis using 2(2)[OF False b(1) refl b(4,2,3)] freeD(1)[OF b(2)] by simp
  qed (use 2 in simp)
qed simp

lemma keepm_strings: "keepm m m1 \<Longrightarrow> memsetAndFreeStrings ps m1 = Some m2 \<Longrightarrow> keepm m m2"
  using free_strings_solid[of ps m1 m2] placed_trans[OF _ placed_same, of m m1 m2] by (simp add: keepm_def)

lemma copyHidlD:
  assumes "copyHidlStringToRil src m = (p, ok, m')"
  shows "keepm m m'" "cells m a \<noteq> None \<Longrightarrow> cells m' a = cells m a"
  using assms callocD(1)[of "Chars (c_copy src)" m p m']
  by (auto simp: copyHidlStringToRil_def calloc_def Let_def split: if_splits prod.splits)

lemma copy_stringsD:
  "copy_strings xs m = (ps, ok, m') \<Longrightarrow> keepm m m' \<and> (\<forall>a. cells m a \<noteq> None \<longrightarrow> cells m' a = cells m a)"
proof (induction xs m arbitrary: ps ok m' rule: copy_strings.induct)
  case (2 x xs m)
  obtain p ok1 m1 where c: "copyHidlStringToRil x m = (p, ok1, m1)" by (metis prod_cases3)
  show ?case
  proof (cases ok1)
    case True
    obtain ps2 ok2 m2 where c2: "copy_strings xs m1 = (ps2, ok2, m2)" by (metis prod_cases3)
    have "m' = m2" using 2(2) c True c2 by simp
    then show ?thesis using 2(1)[of "(p, ok1, m1)" p "(ok1, m1)" ok1 m1] c c2 True copyHidlD[OF c] keepm_trans by (metis)
  next
    case False
    then show ?thesis using 2(2) c copyHidlD[OF c] by auto
  qed
qed auto

section \<open>Sending and waiting\<close>

text \<open>The formats that the dispatch functions use, and waiting requests that own a copy to be freed.\<close>

definition plain_fmt :: "BUF_FMTS \<Rightarrow> bool" where
  "plain_fmt bf = (bf \<in> {FMT_VOID, FMT_INTS, FMT_STR, FMT_STRS, FMT_CallFWST, FMT_IccAPDU, FMT_RAW, FMT_SIMIO,
     FMT_WrSMSSIM, FMT_SIMAUTH, FMT_AttchAPN})"

definition fits :: "BUF_FMTS \<Rightarrow> nat \<Rightarrow> memory \<Rightarrow> bool" where
  "fits bf buf m =
     (plain_fmt bf \<and> (bf \<in> {FMT_VOID, FMT_STR} \<or> (\<forall>s. block_at buf m \<noteq> Some (Chars s))))"

definition owns_buf :: "proxy_req \<Rightarrow> bool" where
  "owns_buf p = (pr_bf p \<noteq> FMT_VOID \<and> buflen p \<noteq> 0)"

fun answer_of :: "ril_event \<Rightarrow> int list" where
  "answer_of (Answer slot kind serial e resp len) = [serial]"
| "answer_of _ = []"

definition answered :: "rst \<Rightarrow> int list" where
  "answered s = concat (map answer_of (revents s))"

lemma answered_rlog [simp]: "answered (rlog e s) = answered s @ answer_of e"
  by (simp add: answered_def rlog_def)

lemma rlog_sel [simp]:
  "mem (rlog e s) = mem s" "reqs (rlog e s) = reqs s" "s_pending (rlog e s) = s_pending s"
  "proxyCmd (rlog e s) = proxyCmd s" "busy (rlog e s) = busy s" "with_vendor (rlog e s) = with_vendor s"
  by (simp_all add: rlog_def)

lemma answered_cong [simp]:
  "answered (s\<lparr>mem := m\<rparr>) = answered s" "answered (s\<lparr>with_vendor := v\<rparr>) = answered s"
  "answered (s\<lparr>proxyCmd := q\<rparr>) = answered s" "answered (s\<lparr>busy := b\<rparr>) = answered s"
  "answered (s\<lparr>reqs := rs\<rparr>) = answered s" "answered (s\<lparr>s_pending := ps\<rparr>) = answered s"
  "answered (s\<lparr>Device_ID := d\<rparr>) = answered s"
  by (simp_all add: answered_def)

lemma fields_free_solid: "free_fields a fs m = Some m' \<Longrightarrow> solid m' = solid m \<and> chooser m' = chooser m"
  by (auto simp: free_fields_def bind_eq_Some_conv dest: free_strings_solid)

lemma putD:
  assumes "put a b m = Some m'"
  shows "chooser m' = chooser m" "x \<noteq> a \<Longrightarrow> cells m' x = cells m x" "x \<noteq> a \<Longrightarrow> solid m' x = solid m x"
    and "cells m' x = None \<Longrightarrow> cells m x = None"
  using assms by (auto simp: put_def solid_def split: option.splits if_splits)

lemma put_words:
  assumes "put a b m = Some m'" "block_at a m = Some (Words ws)"
  shows "placed m m'"
proof -
  obtain pl where c: "cells m a = Some (pl, Words ws)" using assms(2) by (auto simp: block_at_def)
  then have m': "m' = m\<lparr>cells := (cells m)(a \<mapsto> (pl, b))\<rparr>" using assms(1) by (simp add: put_def)
  have "solid m' x = None" if "solid m x = None" for x
    using that c m' by (cases pl; cases "x = a") (simp_all add: solid_def)
  then show ?thesis using m' by (simp add: placed_def)
qed

lemma clear_buffer:
  assumes "clearPendingBuffer bf buf len m = Some m'" "plain_fmt bf"
  shows "placed m m' \<and> (\<forall>x. x \<noteq> buf \<longrightarrow> solid m' x = solid m x)"
  using assms
  by (auto simp: clearPendingBuffer_def plain_fmt_def bind_eq_Some_conv
      split: option.splits block.splits if_splits
      dest!: fields_free_solid free_strings_solid dest: putD freeD put_words intro: placed_same)

lemma clear_string:
  assumes "clearPendingBuffer FMT_STR buf len m = Some m'" "buf \<noteq> 0"
  shows "cells m' buf = None"
  using assms
  by (auto simp: clearPendingBuffer_def bind_eq_Some_conv free_def split: option.splits block.splits if_splits place.splits)

definition new_entry :: "memory \<Rightarrow> memory \<Rightarrow> proxy_req \<Rightarrow> bool" where
  "new_entry m m' p =
     (plain_fmt (pr_bf p) \<and> cells m (pr_addr p) = None \<and> cells m' (pr_addr p) = Some (Heap, Node)
      \<and> (owns_buf p \<longrightarrow> pr_buf p \<noteq> 0 \<and> cells m (pr_buf p) = None
           \<and> (\<exists>b. cells m' (pr_buf p) = Some (Heap, b) \<and> b \<noteq> Obj \<and> b \<noteq> Node
                \<and> (pr_bf p = FMT_STR \<or> (\<forall>s. b \<noteq> Chars s)))))"

lemma copy_block_kind:
  "copy_block n b = Some b' \<Longrightarrow> b' \<noteq> Obj \<and> b' \<noteq> Node \<and> (\<forall>s. b' = Chars s \<longrightarrow> (\<exists>s0. b = Chars s0))"
  by (cases b) (auto simp: copy_block_def split: if_splits)

lemma wait_in_queue_effect:
  assumes "wait_in_queue c slot buf len bf t s = Some s'" "fits bf buf (mem s)"
  shows "\<exists>p m. s' = set_queue c slot (proxyCmd s c slot @ [p]) (s\<lparr>mem := m\<rparr>) \<and> pRI p = t \<and> keepm (mem s) m
    \<and> new_entry (mem s) m p"
proof -
  obtain a m1 where a: "calloc Node (mem s) = (a, m1)" by (cases "calloc Node (mem s)")
  note ca = callocD[OF a]
  have a0: "a \<noteq> 0" using assms(1) a by (cases "a = 0") (auto simp: wait_in_queue_def)
  show ?thesis
  proof (cases "bf \<noteq> FMT_VOID \<and> len \<noteq> 0")
    case True
    then obtain b where b: "Option.bind (block_at buf m1) (copy_block len) = Some b"
      using assms(1) a a0 by (auto simp: wait_in_queue_def split: option.splits)
    then obtain b0 where b0: "block_at buf m1 = Some b0" "copy_block len b0 = Some b"
      by (auto simp: bind_eq_Some_conv)
    then have kind: "b \<noteq> Obj" "b \<noteq> Node" using copy_block_kind[OF b0(2)] by auto
    have "bf = FMT_STR \<or> (\<forall>s. b0 \<noteq> Chars s)"
    proof (cases "buf = a")
      case True
      then show ?thesis using b0(1) ca(3)[OF a0] by (auto simp: block_at_def)
    next
      case other: False
      then have "block_at buf (mem s) = Some b0" using b0(1) a by (auto simp: calloc_def Let_def block_at_def split: if_splits)
      then show ?thesis using assms(2) True by (auto simp: fits_def)
    qed
    then have chars: "bf = FMT_STR \<or> (\<forall>s. b \<noteq> Chars s)" using copy_block_kind[OF b0(2)] by blast
    obtain d m2 where d: "calloc b m1 = (d, m2)" by (cases "calloc b m1")
    note cd = callocD[OF d]
    have s': "d \<noteq> 0" "s' = set_queue c slot
        (proxyCmd s c slot @ [\<lparr>pr_addr = a, pRI = t, pr_buf = d, buflen = len, pr_bf = bf\<rparr>]) (s\<lparr>mem := m2\<rparr>)"
      using assms(1) a a0 True b d by (auto simp: wait_in_queue_def split: if_splits)
    have "cells m2 a = Some (Heap, Node)" using cd(2)[of a] ca(3)[OF a0] by simp
    moreover have "cells (mem s) d = None"
      using ca(2)[of d] cd(3)[OF s'(1)] by (cases "cells (mem s) d") auto
    ultimately show ?thesis using s' ca(3)[OF a0] cd(3)[OF s'(1)] assms(2) kind chars keepm_trans[OF ca(1) cd(1)]
      by (intro exI[of _ "\<lparr>pr_addr = a, pRI = t, pr_buf = d, buflen = len, pr_bf = bf\<rparr>"] exI[of _ m2])
         (simp add: new_entry_def fits_def)
  next
    case False
    then have "s' = set_queue c slot
        (proxyCmd s c slot @ [\<lparr>pr_addr = a, pRI = t, pr_buf = 0, buflen = len, pr_bf = bf\<rparr>]) (s\<lparr>mem := m1\<rparr>)"
      using assms(1) a a0 by (auto simp: wait_in_queue_def)
    then show ?thesis using ca(1) ca(3)[OF a0] assms(2) False
      by (intro exI[of _ "\<lparr>pr_addr = a, pRI = t, pr_buf = 0, buflen = len, pr_bf = bf\<rparr>"] exI[of _ m1])
         (auto simp: new_entry_def owns_buf_def fits_def)
  qed
qed

text \<open>
  What handing over a request does to the tokens: the library has it, or it waits at the end of a queue
  of its slot.  Blocks other than the buffer stay.
\<close>

definition handed :: "nat \<Rightarrow> rst \<Rightarrow> rst \<Rightarrow> bool" where
  "handed t s s' = (with_vendor s' = t # with_vendor s \<and> proxyCmd s' = proxyCmd s \<and> answered s' = answered s)"

definition waits :: "nat \<Rightarrow> rst \<Rightarrow> rst \<Rightarrow> bool" where
  "waits t s s' =
     (with_vendor s' = with_vendor s \<and> answered s' = answered s
      \<and> (\<exists>c slot p. slot < 2 \<and> pRI p = t \<and> new_entry (mem s) (mem s') p
           \<and> proxyCmd s' = (proxyCmd s)(c := (proxyCmd s c)(slot := proxyCmd s c slot @ [p]))))"

definition same_tables :: "rst \<Rightarrow> rst \<Rightarrow> bool" where
  "same_tables s s' = (reqs s' = reqs s \<and> s_pending s' = s_pending s)"

definition keep_but :: "nat \<Rightarrow> memory \<Rightarrow> memory \<Rightarrow> bool" where
  "keep_but a m m' = (placed m m' \<and> (\<forall>x b. x \<noteq> a \<longrightarrow> solid m x = Some b \<longrightarrow> solid m' x = Some b))"

lemma send_now_effect:
  assumes "send_now request buf len bf t soc s = Some s'" "bf = FMT_IGNORE \<or> plain_fmt bf"
  shows "handed t s s' \<and> same_tables s s' \<and> keep_but buf (mem s) (mem s') \<and> busy s' = busy s"
    and "bf = FMT_IGNORE \<Longrightarrow> mem s' = mem s"
  using assms clear_buffer[of bf buf len "mem s"]
  by (auto simp: send_now_def onRequest_def Let_def with_mem_def handed_def same_tables_def keep_but_def
      split: if_splits)

lemma my_enqueue_effect:
  assumes e: "my_enqueue cfg request buf len bf t s = Some s'" and bf: "bf = FMT_IGNORE \<or> fits bf buf (mem s)"
  shows "same_tables s s' \<and> keep_but buf (mem s) (mem s') \<and> (handed t s s' \<or> bf \<noteq> FMT_IGNORE \<and> waits t s s')"
    and "bf = FMT_IGNORE \<Longrightarrow> mem s' = mem s"
proof -
  obtain r where r: "reqs s t = Some r" using e by (auto simp: my_enqueue_def split: option.splits)
  define soc where "soc = socket_id r"
  define slot where "slot = (if soc = 1 then 1 else 0 :: nat)"
  have "(same_tables s s' \<and> keep_but buf (mem s) (mem s') \<and> (handed t s s' \<or> bf \<noteq> FMT_IGNORE \<and> waits t s s'))
      \<and> (bf = FMT_IGNORE \<longrightarrow> mem s' = mem s)"
  proof (cases "send_now request buf len bf t soc s = Some s'")
    case True
    then show ?thesis using send_now_effect[OF True] bf by (auto simp: fits_def)
  next
    case False
    then obtain c where q: "bf \<noteq> FMT_IGNORE" "channel_of (proxyId (pCI r)) = Some c"
      using e r by (auto simp: my_enqueue_def Let_def soc_def split: if_splits option.splits)
    define flag where "flag = (if c = Proxy1 \<and> request = RIL_REQUEST_RADIO_POWER then 0 else slot)"
    have e1: "(if busy s c flag then wait_in_queue c slot buf len bf t (set_busy c flag True s)
               else send_now request buf len bf t soc (set_busy c flag True s)) = Some s'"
      using e r q False by (auto simp: my_enqueue_def Let_def soc_def slot_def flag_def split: if_splits)
    have b: "same_tables s (set_busy c flag True s)" "mem (set_busy c flag True s) = mem s"
        "with_vendor (set_busy c flag True s) = with_vendor s" "proxyCmd (set_busy c flag True s) = proxyCmd s"
        "answered (set_busy c flag True s) = answered s"
      by (simp_all add: set_busy_def same_tables_def)
    show ?thesis
    proof (cases "busy s c flag")
      case True
      then obtain p m where w: "s' = set_queue c slot (proxyCmd s c slot @ [p]) ((set_busy c flag True s)\<lparr>mem := m\<rparr>)"
          "pRI p = t" "keepm (mem s) m" "new_entry (mem s) m p"
        using wait_in_queue_effect[of c slot buf len bf t "set_busy c flag True s" s'] e1 bf q(1) b(2,4) by auto
      have "slot < 2" by (simp add: slot_def)
      then have "waits t s s'" using w(2,4) by (auto simp: waits_def w(1) set_queue_def set_busy_def answered_def)
      then show ?thesis using w(1,3) q(1)
        by (auto simp: same_tables_def keep_but_def keepm_def set_queue_def set_busy_def)
    next
      case nb: False
      then have "send_now request buf len bf t soc (set_busy c flag True s) = Some s'" using e1 by simp
      note se = send_now_effect[OF this]
      show ?thesis using se bf b q(1) by (auto simp: handed_def same_tables_def fits_def)
    qed
  qed
  then show "same_tables s s' \<and> keep_but buf (mem s) (mem s') \<and> (handed t s s' \<or> bf \<noteq> FMT_IGNORE \<and> waits t s s')"
    and "bf = FMT_IGNORE \<Longrightarrow> mem s' = mem s" by blast+
qed

section \<open>Dispatching\<close>

definition heap_grows :: "memory \<Rightarrow> memory \<Rightarrow> bool" where
  "heap_grows m m' = (keepm m m' \<and> (\<forall>a. cells m' a = None \<longrightarrow> cells m a = None))"

lemma heap_grows_refl [intro]: "heap_grows m m"
  by (auto simp: heap_grows_def)

lemma heap_grows_trans: "heap_grows m m1 \<Longrightarrow> heap_grows m1 m2 \<Longrightarrow> heap_grows m m2"
  by (auto simp: heap_grows_def intro: keepm_trans)

lemma heap_grows_calloc: "calloc b m = (a, m') \<Longrightarrow> heap_grows m m'"
  unfolding heap_grows_def using callocD(1,2)[of b m a m'] by metis

lemma heap_grows_copy: "copyHidlStringToRil src m = (p, ok, m') \<Longrightarrow> heap_grows m m'"
  unfolding heap_grows_def using copyHidlD[of src m p ok m'] by metis

lemma heap_grows_copies: "copy_strings xs m = (ps, ok, m') \<Longrightarrow> heap_grows m m'"
  unfolding heap_grows_def using copy_stringsD[of xs m ps ok m'] by metis

lemma heap_grows_local: "solid m loc = None \<Longrightarrow> heap_grows m (local_var loc b m)"
  unfolding heap_grows_def keepm_def placed_def local_var_def solid_def by auto

lemma placed_put: "placed m m1 \<Longrightarrow> a \<noteq> 0 \<Longrightarrow> chooser m n = a \<Longrightarrow> put a b m1 = Some m2 \<Longrightarrow> placed m m2"
  using putD(1,3)[of a b m1 m2] unfolding placed_def by metis

lemma keepm_put:
  assumes "keepm m m1" "solid m a = None" "a \<noteq> 0" "chooser m n = a" "put a b m1 = Some m2"
  shows "keepm m m2"
proof -
  have "placed m m2" using assms(1) by (intro placed_put[OF _ assms(3-5)]) (simp add: keepm_def)
  then show ?thesis using assms(1,2) putD(3)[OF assms(5)] unfolding keepm_def by (metis option.distinct(1))
qed

lemma heap_grows_put:
  assumes "heap_grows m m1" "solid m a = None" "a \<noteq> 0" "chooser m n = a" "put a b m1 = Some m2"
  shows "heap_grows m m2"
  using assms(1) putD(4)[OF assms(5)] keepm_put[OF _ assms(2-5)] by (auto simp: heap_grows_def)

text \<open>The answer with an error, and the three ways a dispatch may end for the token.\<close>

definition refused :: "nat \<Rightarrow> rst \<Rightarrow> rst \<Rightarrow> bool" where
  "refused t s s' =
     (with_vendor s' = with_vendor s \<and> proxyCmd s' = proxyCmd s
      \<and> (\<exists>r. reqs s t = Some r \<and> answered s' = answered s @ [ri_token r]))"

definition joins :: "nat \<Rightarrow> rst \<Rightarrow> rst \<Rightarrow> bool" where
  "joins t s s' = (same_tables s s' \<and> keepm (mem s) (mem s') \<and> (handed t s s' \<or> waits t s s' \<or> refused t s s'))"

lemma refuse_joins:
  assumes "refuse t err (s\<lparr>mem := m\<rparr>) = Some (ok, s')" "heap_grows (mem s) m"
  shows "joins t s s'"
  using assms by (auto simp: refuse_def sendErrorResponse_def joins_def same_tables_def refused_def heap_grows_def
      split: option.splits)

lemma no_memory_joins:
  assumes "no_memory t (s\<lparr>mem := m\<rparr>) = Some (ok, s')" "heap_grows (mem s) m"
  shows "joins t s s'"
  using refuse_joins[where err = RIL_E_NO_MEMORY] assms by (simp add: no_memory_def refuse_def)

lemma new_entry_mono: "new_entry m1 m' p \<Longrightarrow> heap_grows m m1 \<Longrightarrow> new_entry m m' p"
  by (auto simp: new_entry_def heap_grows_def)

lemma enqueue_joins:
  assumes e: "my_enqueue cfg request buf len bf t (s\<lparr>mem := m1\<rparr>) = Some s2" and bf: "bf = FMT_IGNORE \<or> fits bf buf m1"
    and g: "heap_grows (mem s) m1" and b: "solid (mem s) buf = None"
  shows "same_tables s s2" "keepm (mem s) (mem s2)" "handed t s s2 \<or> bf \<noteq> FMT_IGNORE \<and> waits t s s2"
    and "bf = FMT_IGNORE \<Longrightarrow> mem s2 = m1 \<and> handed t s s2"
proof -
  have "bf = FMT_IGNORE \<or> fits bf buf (mem (s\<lparr>mem := m1\<rparr>))" using bf by simp
  note m = my_enqueue_effect[OF e this]
  have w: "waits t (s\<lparr>mem := m1\<rparr>) s2 \<Longrightarrow> waits t s s2"
    using g by (auto simp: waits_def dest: new_entry_mono)
  have h: "handed t (s\<lparr>mem := m1\<rparr>) s2 = handed t s s2" by (simp add: handed_def)
  show "same_tables s s2" using m(1) by (simp add: same_tables_def)
  have k: "keep_but buf m1 (mem s2)" using m(1) by simp
  have "placed (mem s) (mem s2)" using k g placed_trans[of "mem s" m1 "mem s2"] by (simp add: keep_but_def heap_grows_def keepm_def)
  moreover have "solid (mem s2) x = Some y" if "solid (mem s) x = Some y" for x y
    using that k g b by (cases "x = buf") (auto simp: keep_but_def heap_grows_def keepm_def)
  ultimately show "keepm (mem s) (mem s2)" by (simp add: keepm_def)
  show "handed t s s2 \<or> bf \<noteq> FMT_IGNORE \<and> waits t s s2" using m(1) w h by blast
  show "bf = FMT_IGNORE \<Longrightarrow> mem s2 = m1 \<and> handed t s s2" using m h by auto
qed

lemma enqueue_joins_plain:
  assumes "my_enqueue cfg request buf len bf t (s\<lparr>mem := m1\<rparr>) = Some s2" "fits bf buf m1" "heap_grows (mem s) m1"
    "solid (mem s) buf = None"
  shows "joins t s s2"
  using enqueue_joins[OF assms(1) _ assms(3,4)] assms(2) by (auto simp: joins_def)

text \<open>After a request that could not wait, the caller frees its own blocks.\<close>

lemma handed_joins:
  assumes "handed t s s2" "same_tables s s2" "keepm (mem s) m"
  shows "joins t s (s2\<lparr>mem := m\<rparr>)"
  using assms by (auto simp: joins_def handed_def same_tables_def)

lemma dispatchVoid_joins: "dispatchVoid cfg t request s = Some (ok, s') \<Longrightarrow> solid (mem s) 0 = None \<Longrightarrow> joins t s s'"
  using enqueue_joins_plain[of cfg request 0 0 FMT_VOID t "mem s" s s'] heap_grows_refl
  by (auto simp: dispatchVoid_def fits_def plain_fmt_def)

lemma dispatchString_joins:
  assumes d: "dispatchString cfg t request str s = Some (ok, s')" and z: "solid (mem s) 0 = None"
  shows "joins t s s'"
proof -
  obtain p c m where c: "copyHidlStringToRil str (mem s) = (p, c, m)" by (metis prod_cases3)
  have g: "heap_grows (mem s) m" by (rule heap_grows_copy[OF c])
  have p: "solid (mem s) p = None"
  proof (cases "p = 0")
    case False
    then show ?thesis using c callocD(3)[of "Chars (c_copy str)" "mem s" p m]
      by (auto simp: copyHidlStringToRil_def split: if_splits prod.splits)
  qed (use z in simp)
  consider "\<not> c" | "c" "ignoreBF t (s\<lparr>mem := m\<rparr>)" | "c" "\<not> ignoreBF t (s\<lparr>mem := m\<rparr>)" by blast
  then show ?thesis
  proof cases
    case 1
    then show ?thesis using d c no_memory_joins[OF _ g] by (auto simp: dispatchString_def)
  next
    case 2
    then obtain s2 m3 where e: "my_enqueue cfg request p 8 FMT_IGNORE t (s\<lparr>mem := m\<rparr>) = Some s2"
        "memsetAndFreeStrings [p] (mem s2) = Some m3" "s' = s2\<lparr>mem := m3\<rparr>"
      using d c by (auto simp: dispatchString_def bind_eq_Some_conv with_mem_def)
    note j = enqueue_joins[OF e(1) _ g p, simplified]
    have "keepm (mem s) m3" by (rule keepm_strings[OF j(2) e(2)])
    then show ?thesis unfolding e(3) using j by (intro handed_joins) auto
  next
    case 3
    then show ?thesis using d c enqueue_joins_plain[OF _ _ g p] by (auto simp: dispatchString_def fits_def plain_fmt_def)
  qed
qed

lemma with_memD: "with_mem f s = Some s' \<Longrightarrow> \<exists>m. f (mem s) = Some m \<and> s' = s\<lparr>mem := m\<rparr>"
  by (auto simp: with_mem_def)

text \<open>Freeing a block that was not there before.\<close>

lemma keepm_free: "keepm m m1 \<Longrightarrow> solid m a = None \<Longrightarrow> free a m1 = Some m2 \<Longrightarrow> keepm m m2"
  unfolding keepm_def using freeD(3,4)[of a m1 m2] placed_trans[of m m1 m2] by (metis option.distinct(1))

lemma keepm_drop: "keepm m m1 \<Longrightarrow> solid m loc = None \<Longrightarrow> keepm m (drop_local loc m1)"
  unfolding keepm_def placed_def drop_local_def solid_def by auto

lemma block_at_put: "put a b m = Some m' \<Longrightarrow> block_at a m' = Some b"
  by (auto simp: put_def block_at_def split: option.splits)

lemma block_at_local [simp]: "block_at loc (local_var loc b m) = Some b"
  by (simp add: block_at_def local_var_def)

lemma dispatchInts_joins:
  assumes d: "dispatchInts cfg t request ints s = Some (ok, s')"
  shows "joins t s s'"
proof -
  obtain a m1 where c: "calloc (Words (replicate (length ints) 0)) (mem s) = (a, m1)" by fastforce
  have g: "heap_grows (mem s) m1" by (rule heap_grows_calloc[OF c])
  show ?thesis
  proof (cases "a = 0")
    case True
    then show ?thesis using d c no_memory_joins[OF _ g] by (auto simp: dispatchInts_def)
  next
    case False
    then have f: "solid (mem s) a = None" using callocD(3)[OF c] by simp
    obtain m2 where m2: "put a (Words ints) m1 = Some m2"
      using d c False by (auto simp: dispatchInts_def with_mem_def bind_eq_Some_conv)
    have g2: "heap_grows (mem s) m2" by (rule heap_grows_put[OF g f False callocD(5)[OF c False] m2])
    show ?thesis
    proof (cases "ignoreBF t (s\<lparr>mem := m2\<rparr>)")
      case True
      then obtain s3 m4 m5 where e: "my_enqueue cfg request a (4 * length ints) FMT_IGNORE t (s\<lparr>mem := m2\<rparr>) = Some s3"
          "put a (Words (replicate (length ints) 0)) (mem s3) = Some m4" "free a m4 = Some m5" "s' = s3\<lparr>mem := m5\<rparr>"
        using d c False m2 by (auto simp: dispatchInts_def with_mem_def bind_eq_Some_conv)
      note j = enqueue_joins[OF e(1) _ g2 f, simplified]
      have "keepm (mem s) m5" by (rule keepm_free[OF keepm_put[OF j(2) f False callocD(5)[OF c False] e(2)] f e(3)])
      then show ?thesis unfolding e(4) using j by (intro handed_joins) auto
    next
      case False2: False
      then show ?thesis using d c False m2 enqueue_joins_plain[OF _ _ g2 f]
        by (auto simp: dispatchInts_def with_mem_def fits_def plain_fmt_def block_at_put)
    qed
  qed
qed

lemma dispatchStrings_joins:
  assumes d: "dispatchStrings cfg t request strs s = Some (ok, s')"
  shows "joins t s s'"
proof -
  obtain a m1 where c: "calloc (Ptrs (replicate (length strs) 0)) (mem s) = (a, m1)" by fastforce
  have g: "heap_grows (mem s) m1" by (rule heap_grows_calloc[OF c])
  show ?thesis
  proof (cases "a = 0")
    case True
    then show ?thesis using d c no_memory_joins[OF _ g] by (auto simp: dispatchStrings_def)
  next
    case False
    then have f: "solid (mem s) a = None" using callocD(3)[OF c] by simp
    obtain ps c2 m2 where c2: "copy_strings strs m1 = (ps, c2, m2)" by (metis prod_cases3)
    have g2: "heap_grows (mem s) m2" by (rule heap_grows_trans[OF g heap_grows_copies[OF c2]])
    show ?thesis
    proof (cases c2)
      case no: False
      then obtain s3 m4 m5 where e: "sendErrorResponse t RIL_E_NO_MEMORY (s\<lparr>mem := m2\<rparr>) = Some s3"
          "memsetAndFreeStrings ps (mem s3) = Some m4" "free a m4 = Some m5" "s' = s3\<lparr>mem := m5\<rparr>"
        using d c False c2 by (auto simp: dispatchStrings_def with_mem_def bind_eq_Some_conv)
      have "joins t s s3" using no_memory_joins[of t m2 s False s3] e(1) g2 by (simp add: no_memory_def)
      moreover have "refused t s s3" "mem s3 = m2"
        using e(1) by (auto simp: sendErrorResponse_def refused_def split: option.splits)
      ultimately show ?thesis
        using keepm_free[OF keepm_strings[OF _ e(2)] f e(3)] unfolding e(4)
        by (auto simp: joins_def same_tables_def refused_def)
    next
      case yes: True
      obtain m3 where m3: "put a (Ptrs ps) m2 = Some m3"
        using d c False c2 yes by (auto simp: dispatchStrings_def with_mem_def bind_eq_Some_conv)
      have g3: "heap_grows (mem s) m3" by (rule heap_grows_put[OF g2 f False callocD(5)[OF c False] m3])
      show ?thesis
      proof (cases "ignoreBF t (s\<lparr>mem := m3\<rparr>)")
        case True
        then obtain s4 m5 m6 where e: "my_enqueue cfg request a (8 * length strs) FMT_IGNORE t (s\<lparr>mem := m3\<rparr>) = Some s4"
            "memsetAndFreeStrings ps (mem s4) = Some m5" "free a m5 = Some m6" "s' = s4\<lparr>mem := m6\<rparr>"
          using d c False c2 yes m3 by (auto simp: dispatchStrings_def with_mem_def bind_eq_Some_conv)
        note j = enqueue_joins[OF e(1) _ g3 f, simplified]
        have "keepm (mem s) m6" by (rule keepm_free[OF keepm_strings[OF j(2) e(2)] f e(3)])
        then show ?thesis unfolding e(4) using j by (intro handed_joins) auto
      next
        case plain: False
        then show ?thesis using d c False c2 yes m3 enqueue_joins_plain[OF _ _ g3 f]
          by (auto simp: dispatchStrings_def with_mem_def fits_def plain_fmt_def block_at_put)
      qed
    qed
  qed
qed

text \<open>Structures on the stack.\<close>

lemma joins_drop:
  assumes "joins t s s2" "solid (mem s) loc = None" "cells m1 loc \<noteq> None"
    and "waits t (s\<lparr>mem := m1\<rparr>) s2 \<or> handed t s s2" "heap_grows (mem s) m1"
  shows "joins t s (s2\<lparr>mem := drop_local loc (mem s2)\<rparr>)"
proof -
  have k: "keepm (mem s) (drop_local loc (mem s2))" using assms(1,2) by (auto simp: joins_def intro: keepm_drop)
  show ?thesis using assms(4)
  proof
    assume w: "waits t (s\<lparr>mem := m1\<rparr>) s2"
    then obtain c slot p where p: "slot < 2" "pRI p = t" "new_entry m1 (mem s2) p"
        "proxyCmd s2 = (proxyCmd s)(c := (proxyCmd s c)(slot := proxyCmd s c slot @ [p]))"
      by (auto simp: waits_def)
    have "new_entry m1 (drop_local loc (mem s2)) p"
      using p(3) assms(3) by (auto simp: new_entry_def drop_local_def)
    then have "new_entry (mem s) (drop_local loc (mem s2)) p" by (rule new_entry_mono[OF _ assms(5)])
    then have "waits t s (s2\<lparr>mem := drop_local loc (mem s2)\<rparr>)"
      using w p(1,2,4) by (auto simp: waits_def)
    then show ?thesis using k assms(1) by (simp add: joins_def same_tables_def)
  next
    assume "handed t s s2"
    then show ?thesis using k assms(1) by (simp add: joins_def same_tables_def handed_def)
  qed
qed

lemma calloc_solid:
  "calloc b m = (a, m') \<Longrightarrow> solid m' x = (if x = a \<and> a \<noteq> 0 then kept_block (Some (Heap, b)) else solid m x)"
  unfolding calloc_def Let_def solid_def by (auto split: if_splits)

lemma copyHidl_solid: "copyHidlStringToRil src m = (p, ok, m') \<Longrightarrow> solid m x = None \<Longrightarrow> solid m' x = None"
  by (auto simp: copyHidlStringToRil_def calloc_solid split: if_splits prod.splits)

lemma local_enqueue:
  assumes e: "my_enqueue cfg request loc len bf t (s\<lparr>mem := local_var loc b m\<rparr>) = Some s2"
    and bf: "bf = FMT_IGNORE \<or> plain_fmt bf \<and> (\<forall>s. b \<noteq> Chars s)" and g: "heap_grows (mem s) m" "solid (mem s) loc = None" "solid m loc = None"
  shows "joins t s (s2\<lparr>mem := drop_local loc (mem s2)\<rparr>)"
    and "bf = FMT_IGNORE \<Longrightarrow> handed t s s2 \<and> same_tables s s2 \<and> keepm (mem s) (mem s2)"
proof -
  have g1: "heap_grows (mem s) (local_var loc b m)" by (rule heap_grows_trans[OF g(1) heap_grows_local[OF g(3)]])
  have bf1: "bf = FMT_IGNORE \<or> fits bf loc (local_var loc b m)" using bf by (auto simp: fits_def)
  note j = enqueue_joins[OF e bf1 g1 g(2)]
  have "waits t (s\<lparr>mem := local_var loc b m\<rparr>) s2 \<or> handed t s s2"
    using my_enqueue_effect(1)[OF e] bf1 by (auto simp: handed_def)
  moreover have "joins t s s2" using j by (auto simp: joins_def)
  ultimately show "joins t s (s2\<lparr>mem := drop_local loc (mem s2)\<rparr>)"
    using g(2) g1 by (intro joins_drop[where ?m1.0 = "local_var loc b m"]) (auto simp: local_var_def)
  show "bf = FMT_IGNORE \<Longrightarrow> handed t s s2 \<and> same_tables s s2 \<and> keepm (mem s) (mem s2)" using j by auto
qed

lemma dispatchRaw_joins:
  assumes "dispatchRaw cfg loc t request bytes s = Some (ok, s')" "solid (mem s) loc = None"
  shows "joins t s s'"
  using assms local_enqueue(1)[OF _ _ heap_grows_refl assms(2,2)] by (auto simp: dispatchRaw_def bind_eq_Some_conv)

lemma dispatchIccApdu_joins:
  assumes d: "dispatchIccApdu cfg loc t request ints data s = Some (ok, s')" and l: "solid (mem s) loc = None"
  shows "joins t s s'"
proof -
  obtain p c m where c: "copyHidlStringToRil data (mem s) = (p, c, m)" by (metis prod_cases3)
  note g = heap_grows_copy[OF c]
  show ?thesis
  proof (cases c)
    case True
    then show ?thesis using d c local_enqueue(1)[OF _ _ g l copyHidl_solid[OF c l]]
      by (auto simp: dispatchIccApdu_def bind_eq_Some_conv plain_fmt_def)
  next
    case False
    then show ?thesis using d c no_memory_joins[OF _ g] by (auto simp: dispatchIccApdu_def)
  qed
qed

lemma dispatchCallForward_joins:
  assumes d: "dispatchCallForwardStatus cfg loc t request ints number s = Some (ok, s')" and l: "solid (mem s) loc = None"
  shows "joins t s s'"
proof -
  obtain p c m where c: "copyHidlStringToRil number (mem s) = (p, c, m)" by (metis prod_cases3)
  note g = heap_grows_copy[OF c] and lm = copyHidl_solid[OF c l]
  define s2 where "s2 = s\<lparr>mem := local_var loc (Rec ints [(''number'', p)]) m\<rparr>"
  consider "\<not> c" | "c" "ignoreBF t s2" | "c" "\<not> ignoreBF t s2" by blast
  then show ?thesis
  proof cases
    case 1
    then show ?thesis using d c no_memory_joins[OF _ g] by (auto simp: dispatchCallForwardStatus_def)
  next
    case 2
    then obtain s3 m4 where e: "my_enqueue cfg request loc 32 FMT_IGNORE t s2 = Some s3"
        "memsetAndFreeStrings [p] (mem s3) = Some m4" "s' = s3\<lparr>mem := drop_local loc m4\<rparr>"
      using d c by (auto simp: dispatchCallForwardStatus_def bind_eq_Some_conv with_mem_def s2_def)
    note j = local_enqueue(2)[OF e(1)[unfolded s2_def] _ g l lm, simplified]
    have "keepm (mem s) (drop_local loc m4)" using keepm_drop[OF keepm_strings[OF _ e(2)] l] j by auto
    then show ?thesis unfolding e(3) using j by (intro handed_joins) auto
  next
    case 3
    then show ?thesis using d c local_enqueue(1)[OF _ _ g l lm]
      by (auto simp: dispatchCallForwardStatus_def bind_eq_Some_conv plain_fmt_def s2_def)
  qed
qed

lemma copy_strings_solid: "copy_strings xs m = (ps, ok, m') \<Longrightarrow> solid m x = None \<Longrightarrow> solid m' x = None"
proof (induction xs arbitrary: m ps ok m')
  case (Cons y ys)
  obtain p ok1 m1 where c: "copyHidlStringToRil y m = (p, ok1, m1)" by (metis prod_cases3)
  obtain ps2 ok2 m2 where c2: "copy_strings ys m1 = (ps2, ok2, m2)" by (metis prod_cases3)
  show ?case using Cons.IH[OF c2] Cons.prems c c2 copyHidl_solid[OF c] by (auto split: if_splits)
qed simp

lemma dispatchStruct_joins:
  assumes d: "dispatchStruct cfg loc t request ints texts bf len s = Some (ok, s')" and l: "solid (mem s) loc = None"
    and bf: "bf = FMT_IGNORE \<or> plain_fmt bf"
  shows "joins t s s'"
proof -
  obtain ps c m where c: "copy_strings (map snd texts) (mem s) = (ps, c, m)" by (metis prod_cases3)
  note g = heap_grows_copies[OF c] and lm = copy_strings_solid[OF c l]
  define s2 where "s2 = s\<lparr>mem := local_var loc (Rec ints (zip (map fst texts) ps)) m\<rparr>"
  consider "\<not> c" | "c" "bf = FMT_IGNORE" | "c" "bf \<noteq> FMT_IGNORE" by blast
  then show ?thesis
  proof cases
    case 1
    then obtain s3 m4 where e: "sendErrorResponse t RIL_E_NO_MEMORY (s\<lparr>mem := m\<rparr>) = Some s3"
        "memsetAndFreeStrings ps (mem s3) = Some m4" "s' = s3\<lparr>mem := m4\<rparr>"
      using d c by (auto simp: dispatchStruct_def with_mem_def bind_eq_Some_conv)
    have "joins t s s3" using no_memory_joins[of t m s False s3] e(1) g by (simp add: no_memory_def)
    moreover have "refused t s s3"
      using e(1) by (auto simp: sendErrorResponse_def refused_def split: option.splits)
    ultimately show ?thesis using keepm_strings[OF _ e(2)] unfolding e(3)
      by (auto simp: joins_def same_tables_def refused_def)
  next
    case 2
    then obtain s3 m4 where e: "my_enqueue cfg request loc len FMT_IGNORE t s2 = Some s3"
        "memsetAndFreeStrings ps (mem s3) = Some m4" "s' = s3\<lparr>mem := drop_local loc m4\<rparr>"
      using d c by (auto simp: dispatchStruct_def bind_eq_Some_conv with_mem_def s2_def)
    note j = local_enqueue(2)[OF e(1)[unfolded s2_def] _ g l lm, simplified]
    have "keepm (mem s) (drop_local loc m4)" using keepm_drop[OF keepm_strings[OF _ e(2)] l] j by auto
    then show ?thesis unfolding e(3) using j by (intro handed_joins) auto
  next
    case 3
    then show ?thesis using d c local_enqueue(1)[OF _ _ g l lm] bf
      by (auto simp: dispatchStruct_def bind_eq_Some_conv s2_def)
  qed
qed

text \<open>All of them, from the state with the new request.\<close>

lemma dispatch_cases:
  assumes d: "dispatch cfg loc serial slotId request dt s = Some (ok, s')" and fm: "struct_fmt dt"
    and z: "solid (mem s) 0 = None" "solid (mem s) loc = None" "\<forall>n. chooser (mem s) n \<noteq> loc"
  obtains m where "s' = s\<lparr>mem := m\<rparr>" "keepm (mem s) m"
  | t r m where "t \<noteq> 0" "calloc Obj (mem s) = (t, m)" "ri_token r = serial" "socket_id r = slotId"
      "joins t (s\<lparr>mem := m, reqs := (reqs s)(t \<mapsto> r), s_pending := (s_pending s)(slotId := t # s_pending s slotId)\<rparr>) s'"
proof -
  obtain t m where c: "calloc Obj (mem s) = (t, m)" by fastforce
  note k = callocD[OF c]
  show ?thesis
  proof (cases "t = 0")
    case True
    then show ?thesis using that(1)[of m] d c k(1)
      by (auto simp: dispatch_def addRequestToList_def split: request_data.splits if_splits)
  next
    case False
    then obtain ci where ci: "command_at (command_index request) = Some ci"
      using d c by (auto simp: dispatch_def addRequestToList_def split: option.splits)
    define r where "r = \<lparr>ri_token = serial, pCI = ci, ri_local = (serial = - 1), cancelled = False,
      wasAckSent = False, socket_id = slotId, ri_cid = proxyId ci + (if 0 < slotId then RIL_CHANNEL_OFFSET else 0)\<rparr>"
    define s1 where "s1 = s\<lparr>mem := m, reqs := (reqs s)(t \<mapsto> r), s_pending := (s_pending s)(slotId := t # s_pending s slotId)\<rparr>"
    have a: "addRequestToList serial slotId request s = Some (t, s1)"
      using c False ci by (simp add: addRequestToList_def r_def s1_def Let_def)
    have "solid m x = None" if "solid (mem s) x = None" "x \<noteq> t" for x
      using c that by (auto simp: calloc_def Let_def solid_def split: if_splits)
    moreover have "loc \<noteq> t" using k(5)[OF False] z(3) by metis
    ultimately have l: "solid (mem s1) 0 = None" "solid (mem s1) loc = None" using z(1,2) False by (auto simp: s1_def)
    have "joins t s1 s'"
    proof (cases dt)
      case DVoid
      then show ?thesis using d a False dispatchVoid_joins[OF _ l(1)] by (simp add: dispatch_def)
    next
      case (DString str)
      then show ?thesis using d a False dispatchString_joins[OF _ l(1)] by (simp add: dispatch_def)
    next
      case (DStrings strs)
      then show ?thesis using d a False dispatchStrings_joins by (simp add: dispatch_def)
    next
      case (DInts ints)
      then show ?thesis using d a False dispatchInts_joins by (simp add: dispatch_def)
    next
      case (DRaw bytes)
      then show ?thesis using d a False dispatchRaw_joins[OF _ l(2)] by (simp add: dispatch_def)
    next
      case DCallForward
      then show ?thesis using d a False dispatchCallForward_joins[OF _ l(2)] by (simp add: dispatch_def)
    next
      case DIccApdu
      then show ?thesis using d a False dispatchIccApdu_joins[OF _ l(2)] by (simp add: dispatch_def)
    next
      case (DStruct ints texts bf len)
      then have "bf = FMT_IGNORE \<or> plain_fmt bf" using fm by (auto simp: plain_fmt_def)
      then show ?thesis using DStruct d a False dispatchStruct_joins[OF _ l(2)] by (simp add: dispatch_def)
    next
      case (DRefuse err checked)
      then show ?thesis using d a False refuse_joins[where m = "mem s1"] heap_grows_refl by (simp add: dispatch_def)
    qed
    then show ?thesis using that(2)[of t m r] False c by (simp add: s1_def r_def)
  qed
qed

section \<open>The invariant\<close>

definition entries :: "rst \<Rightarrow> proxy_req multiset" where
  "entries s = mset (proxyCmd s Proxy1 0 @ proxyCmd s Proxy1 1 @ proxyCmd s Proxy3 0 @ proxyCmd s Proxy3 1)"

text \<open>The tokens that may still be answered: those with the library and those that wait.\<close>

definition due :: "rst \<Rightarrow> nat multiset" where
  "due s = mset (with_vendor s) + image_mset pRI (entries s)"

definition serial_of :: "rst \<Rightarrow> nat \<Rightarrow> int" where
  "serial_of s t = (case reqs s t of Some r \<Rightarrow> ri_token r | None \<Rightarrow> 0)"

definition once :: "'a multiset \<Rightarrow> bool" where
  "once M = (\<forall>x. count M x \<le> 1)"

definition entry_ok :: "memory \<Rightarrow> proxy_req \<Rightarrow> bool" where
  "entry_ok m p =
     (plain_fmt (pr_bf p) \<and> solid m (pr_addr p) = Some Node
      \<and> (owns_buf p \<longrightarrow> pr_buf p \<noteq> 0
           \<and> (pr_bf p = FMT_STR \<or> (\<exists>b. solid m (pr_buf p) = Some b \<and> b \<noteq> Obj \<and> b \<noteq> Node))))"

definition own_bufs :: "rst \<Rightarrow> nat multiset" where
  "own_bufs s = image_mset pr_buf (filter_mset (\<lambda>p. owns_buf p \<and> pr_bf p \<noteq> FMT_STR) (entries s))"

definition memory_ok :: "nat \<Rightarrow> rst \<Rightarrow> bool" where
  "memory_ok loc s =
     ((\<forall>n. chooser (mem s) n \<noteq> loc) \<and> solid (mem s) loc = None \<and> solid (mem s) 0 = None
      \<and> (\<forall>t. reqs s t \<noteq> None \<longrightarrow> solid (mem s) t = Some Obj)
      \<and> (\<forall>p \<in># entries s. entry_ok (mem s) p)
      \<and> once (image_mset pr_addr (entries s)) \<and> once (own_bufs s))"

definition lists_ok :: "rst \<Rightarrow> bool" where
  "lists_ok s =
     ((\<forall>t r. reqs s t = Some r \<longrightarrow> socket_id r < 2 \<and> t \<in> set (s_pending s (socket_id r)))
      \<and> (\<forall>i. distinct (s_pending s i))
      \<and> (\<forall>i t. t \<in> set (s_pending s i) \<longrightarrow> (\<exists>r. reqs s t = Some r \<and> socket_id r = i)))"

definition tokens_ok :: "int list \<Rightarrow> rst \<Rightarrow> bool" where
  "tokens_ok ss s =
     (once (due s) \<and> (\<forall>t \<in># due s. reqs s t \<noteq> None)
      \<and> mset (answered s) + image_mset (serial_of s) (due s) \<subseteq># mset ss)"

lemma once_add: "once (add_mset x M) = (once M \<and> x \<notin># M)"
proof
  assume o: "once (add_mset x M)"
  have "count (add_mset x M) y \<le> 1" for y using o by (simp add: once_def)
  then have "count M y \<le> 1" "count M x = 0" for y
    using \<open>\<And>y. count (add_mset x M) y \<le> 1\<close>[of x] le_trans[OF _ \<open>\<And>y. count (add_mset x M) y \<le> 1\<close>[of y], of "count M y"]
    by auto
  then show "once M \<and> x \<notin># M" by (simp add: once_def not_in_iff)
next
  assume "once M \<and> x \<notin># M"
  then show "once (add_mset x M)" by (simp add: once_def not_in_iff)
qed

lemma entries_queue:
  assumes "proxyCmd s' = (proxyCmd s)(c := (proxyCmd s c)(slot := q))" "slot < 2"
  shows "entries s' + mset (proxyCmd s c slot) = entries s + mset q"
proof -
  have "slot = 0 \<or> slot = 1" using assms(2) by auto
  then show ?thesis using assms(1) by (cases c) (auto simp: entries_def ac_simps)
qed

lemma entries_snoc:
  assumes "proxyCmd s' = (proxyCmd s)(c := (proxyCmd s c)(slot := proxyCmd s c slot @ [p]))" "slot < 2"
  shows "entries s' = add_mset p (entries s)"
  using entries_queue[OF assms] by simp

lemma entry_ok_keep: "entry_ok m p \<Longrightarrow> keepm m m' \<Longrightarrow> entry_ok m' p"
  unfolding entry_ok_def keepm_def by metis

lemma new_entry_ok: "new_entry m m' p \<Longrightarrow> entry_ok m' p"
  by (auto simp: new_entry_def entry_ok_def solid_def)
     (metis block.exhaust kept_block.simps)+

text \<open>A dispatched request keeps the memory in order.\<close>

lemma joins_memory:
  assumes j: "joins t s s'" and m: "memory_ok loc s"
  shows "memory_ok loc s'"
proof -
  have l: "solid (mem s') loc = None" "solid (mem s') 0 = None"
    using j m by (auto simp: joins_def keepm_def placed_def memory_ok_def)
  have k: "keepm (mem s) (mem s')" and r: "reqs s' = reqs s" using j by (auto simp: joins_def same_tables_def)
  have c: "\<forall>n. chooser (mem s') n \<noteq> loc" "\<forall>t. reqs s' t \<noteq> None \<longrightarrow> solid (mem s') t = Some Obj"
    using k m r by (auto simp: memory_ok_def keepm_def placed_def)
  have o: "\<forall>p \<in># entries s. entry_ok (mem s') p"
    using m k by (auto simp: memory_ok_def intro: entry_ok_keep)
  consider "proxyCmd s' = proxyCmd s" | "waits t s s'" using j by (auto simp: joins_def handed_def refused_def)
  then show ?thesis
  proof cases
    case 1
    then have "entries s' = entries s" "own_bufs s' = own_bufs s" by (simp_all add: entries_def own_bufs_def)
    then show ?thesis using c l o m by (simp add: memory_ok_def)
  next
    case 2
    then obtain c slot p where p: "slot < 2" "new_entry (mem s) (mem s') p"
        "proxyCmd s' = (proxyCmd s)(c := (proxyCmd s c)(slot := proxyCmd s c slot @ [p]))"
      by (auto simp: waits_def)
    note e = entries_snoc[OF p(3,1)]
    have n: "solid (mem s) (pr_addr p) = None" "owns_buf p \<Longrightarrow> solid (mem s) (pr_buf p) = None"
      using p(2) by (auto simp: new_entry_def)
    have "pr_addr p \<notin># image_mset pr_addr (entries s)"
      using m n(1) by (auto simp: memory_ok_def entry_ok_def)
    moreover have "owns_buf p \<Longrightarrow> pr_buf p \<notin># own_bufs s"
      using m n(2) by (fastforce simp: memory_ok_def entry_ok_def own_bufs_def)
    ultimately show ?thesis
      using c l o m new_entry_ok[OF p(2)] by (auto simp: memory_ok_def e once_add own_bufs_def)
  qed
qed

definition ril_inv :: "nat \<Rightarrow> int list \<Rightarrow> rst \<Rightarrow> bool" where
  "ril_inv loc ss s = (memory_ok loc s \<and> lists_ok s \<and> tokens_ok ss s)"

lemma inv_grow:
  assumes "ril_inv loc ss s" "keepm (mem s) m"
  shows "ril_inv loc ss (s\<lparr>mem := m\<rparr>)"
proof -
  have "memory_ok loc (s\<lparr>mem := m\<rparr>)"
    using assms by (auto simp: ril_inv_def memory_ok_def keepm_def placed_def entries_def own_bufs_def
        intro!: entry_ok_keep[OF _ assms(2)])
  then show ?thesis using assms(1)
    by (simp add: ril_inv_def lists_ok_def tokens_ok_def due_def entries_def serial_of_def[abs_def])
qed

lemma inv_more: "ril_inv loc ss s \<Longrightarrow> ril_inv loc (ss @ [x]) s"
  by (auto simp: ril_inv_def tokens_ok_def intro: subset_mset.order_trans)

text \<open>The new request, before it is handed over.\<close>

lemma inv_request:
  assumes i: "ril_inv loc ss s" and c: "calloc Obj (mem s) = (t, m)" "t \<noteq> 0" and r: "socket_id r = slotId" "slotId < 2"
  defines "s1 \<equiv> s\<lparr>mem := m, reqs := (reqs s)(t \<mapsto> r), s_pending := (s_pending s)(slotId := t # s_pending s slotId)\<rparr>"
  shows "ril_inv loc ss s1" "t \<notin># due s1" "reqs s1 t = Some r"
proof -
  have n: "reqs s t = None"
    using i callocD(3)[OF c(1,2)] by (cases "reqs s t") (auto simp: ril_inv_def memory_ok_def)
  have l: "lists_ok s" and td: "tokens_ok ss s" and mo: "memory_ok loc s" using i by (auto simp: ril_inv_def)
  have fresh: "t \<notin> set (s_pending s j)" for j using l n unfolding lists_ok_def by (metis option.distinct(1))
  have d: "due s1 = due s" by (simp add: due_def entries_def s1_def)
  then show t: "t \<notin># due s1" using td n by (auto simp: tokens_ok_def)
  have sm: "solid m t = Some Obj" using callocD(3)[OF c(1,2)] by (simp add: solid_def)
  have "memory_ok loc s1"
    using inv_grow[OF i callocD(1)[OF c(1)]] sm
    by (auto simp: ril_inv_def memory_ok_def s1_def entries_def own_bufs_def)
  moreover have "lists_ok s1"
    using l fresh r by (auto simp: lists_ok_def s1_def) metis
  moreover have "tokens_ok ss s1"
  proof -
    have "image_mset (serial_of s1) (due s) = image_mset (serial_of s) (due s)"
      using t d by (intro image_mset_cong) (auto simp: serial_of_def s1_def)
    moreover have "answered s1 = answered s" by (simp add: s1_def)
    ultimately show ?thesis using td d by (auto simp: tokens_ok_def s1_def)
  qed
  ultimately show "ril_inv loc ss s1" by (simp add: ril_inv_def)
  show "reqs s1 t = Some r" by (simp add: s1_def)
qed

lemma inv_joins:
  assumes i: "ril_inv loc ss s" and j: "joins t s s'" and t: "t \<notin># due s" "reqs s t = Some r"
  shows "ril_inv loc (ss @ [ri_token r]) s'"
proof -
  have q: "reqs s' = reqs s" "s_pending s' = s_pending s" using j by (auto simp: joins_def same_tables_def)
  have so: "serial_of s' = serial_of s" by (simp add: fun_eq_iff serial_of_def q)
  have td: "tokens_ok ss s" using i by (simp add: ril_inv_def)
  have "tokens_ok (ss @ [ri_token r]) s'"
  proof -
    consider "handed t s s'" | "waits t s s'" | "refused t s s'" using j by (auto simp: joins_def)
    then show ?thesis
    proof cases
      case 1
      then have "due s' = add_mset t (due s)" by (simp add: handed_def due_def entries_def)
      then show ?thesis using td t 1 by (auto simp: tokens_ok_def once_add handed_def q so) (simp add: serial_of_def)
    next
      case 2
      then obtain c slot p where p: "slot < 2" "pRI p = t"
          "proxyCmd s' = (proxyCmd s)(c := (proxyCmd s c)(slot := proxyCmd s c slot @ [p]))"
        by (auto simp: waits_def)
      then have "due s' = add_mset t (due s)" using 2 entries_snoc[OF p(3,1)] by (simp add: waits_def due_def)
      then show ?thesis using td t 2 by (auto simp: tokens_ok_def once_add waits_def q so) (simp add: serial_of_def)
    next
      case 3
      then have "due s' = due s" by (simp add: refused_def due_def entries_def)
      then show ?thesis using td t 3 by (auto simp: tokens_ok_def refused_def q so)
    qed
  qed
  moreover have "lists_ok s'" using i by (simp add: ril_inv_def lists_ok_def q)
  ultimately show ?thesis using joins_memory[OF j] i by (simp add: ril_inv_def)
qed

lemma inv_dispatch:
  assumes d: "dispatch cfg loc serial slotId request dt s = Some (ok, s')" and i: "ril_inv loc ss s" and sl: "slotId < 2"
    and fm: "struct_fmt dt"
  shows "ril_inv loc (ss @ [serial]) s'"
proof -
  have z: "solid (mem s) 0 = None" "solid (mem s) loc = None" "\<forall>n. chooser (mem s) n \<noteq> loc"
    using i by (auto simp: ril_inv_def memory_ok_def)
  show ?thesis
  proof (rule dispatch_cases[OF d fm z])
    fix m assume "s' = s\<lparr>mem := m\<rparr>" "keepm (mem s) m"
    then show ?thesis using inv_more[OF inv_grow[OF i]] by simp
  next
    fix t r m
    assume a: "t \<noteq> 0" "calloc Obj (mem s) = (t, m)" "ri_token r = serial" "socket_id r = slotId"
      and j: "joins t (s\<lparr>mem := m, reqs := (reqs s)(t \<mapsto> r), s_pending := (s_pending s)(slotId := t # s_pending s slotId)\<rparr>) s'"
    note n = inv_request[OF i a(2,1,4) sl]
    show ?thesis using inv_joins[OF n(1) j n(2,3)] a(3) by simp
  qed
qed

text \<open>Sending the first waiting request of a channel.\<close>

lemma dequeue_tokens:
  assumes d: "my_dequeue slot c s = Some s'" and sl: "slot < 2"
  shows "reqs s' = reqs s" "s_pending s' = s_pending s" "answered s' = answered s" "due s' = due s"
    "set (with_vendor s) \<subseteq> set (with_vendor s')"
    and "proxyCmd s' = (proxyCmd s)(c := (proxyCmd s c)(slot := tl (proxyCmd s c slot)))"
proof -
  have "reqs s' = reqs s \<and> s_pending s' = s_pending s \<and> answered s' = answered s \<and> due s' = due s
    \<and> set (with_vendor s) \<subseteq> set (with_vendor s')
    \<and> proxyCmd s' = (proxyCmd s)(c := (proxyCmd s c)(slot := tl (proxyCmd s c slot)))"
  proof (cases "proxyCmd s c slot")
    case Nil
    then show ?thesis using d
      by (auto simp: my_dequeue_def set_busy_def due_def entries_def fun_upd_idem)
  next
    case (Cons p q)
    then have s': "reqs s' = reqs s" "s_pending s' = s_pending s" "answered s' = answered s"
        "with_vendor s' = pRI p # with_vendor s"
        "proxyCmd s' = (proxyCmd s)(c := (proxyCmd s c)(slot := q))"
      using d by (auto simp: my_dequeue_def bind_eq_Some_conv with_mem_def onRequest_def set_busy_def set_queue_def Let_def
          split: option.splits if_splits)
    have "entries s' + mset (p # q) = entries s + mset q" using entries_queue[OF s'(5) sl] Cons by simp
    then have e: "add_mset p (entries s') = entries s" by simp
    have "due s' = due s" unfolding due_def e[symmetric] s'(4) by simp
    then show ?thesis using s' Cons by auto
  qed
  then show "reqs s' = reqs s" "s_pending s' = s_pending s" "answered s' = answered s" "due s' = due s"
    "set (with_vendor s) \<subseteq> set (with_vendor s')"
    "proxyCmd s' = (proxyCmd s)(c := (proxyCmd s c)(slot := tl (proxyCmd s c slot)))" by blast+
qed

text \<open>What is freed: the place of the queue and the copy of the buffer.\<close>

lemma dequeue_blocks:
  assumes d: "my_dequeue slot c s = Some s'" and q: "proxyCmd s c slot = p # q" and e: "entry_ok (mem s) p"
  shows "placed (mem s) (mem s')" "owns_buf p \<Longrightarrow> pr_bf p \<noteq> FMT_STR"
    and "x \<noteq> pr_addr p \<Longrightarrow> owns_buf p \<longrightarrow> x \<noteq> pr_buf p \<Longrightarrow> solid (mem s') x = solid (mem s) x"
proof -
  have "placed (mem s) (mem s') \<and> (owns_buf p \<longrightarrow> pr_bf p \<noteq> FMT_STR)
    \<and> (x \<noteq> pr_addr p \<longrightarrow> (owns_buf p \<longrightarrow> x \<noteq> pr_buf p) \<longrightarrow> solid (mem s') x = solid (mem s) x)"
  proof (cases "owns_buf p")
    case True
    then obtain m1 m2 where m: "clearPendingBuffer (pr_bf p) (pr_buf p) (buflen p) (mem s) = Some m1"
        "free (pr_buf p) m1 = Some m2" "free (pr_addr p) m2 = Some (mem s')"
      using d q by (auto simp: my_dequeue_def bind_eq_Some_conv with_mem_def onRequest_def set_busy_def set_queue_def
          Let_def owns_buf_def split: option.splits if_splits)
    have pf: "plain_fmt (pr_bf p)" "pr_buf p \<noteq> 0" using e True by (auto simp: entry_ok_def)
    note cb = clear_buffer[OF m(1) pf(1)]
    have "pr_bf p \<noteq> FMT_STR"
    proof
      assume f: "pr_bf p = FMT_STR"
      have "cells m1 (pr_buf p) = None" by (rule clear_string[OF m(1)[unfolded f] pf(2)])
      then show False using m(2) pf(2) by (simp add: free_def)
    qed
    moreover have "placed (mem s) (mem s')"
      using cb freeD(4)[OF m(2)] freeD(4)[OF m(3)] by (meson placed_trans)
    moreover have "solid (mem s') x = solid (mem s) x" if "x \<noteq> pr_addr p" "x \<noteq> pr_buf p"
      using cb freeD(3)[OF m(2) that(2)] freeD(3)[OF m(3) that(1)] that(2) by simp
    ultimately show ?thesis using True by simp
  next
    case False
    then have "free (pr_addr p) (mem s) = Some (mem s')"
      using d q by (auto simp: my_dequeue_def bind_eq_Some_conv with_mem_def onRequest_def set_busy_def set_queue_def
          Let_def owns_buf_def split: option.splits if_splits)
    then show ?thesis using freeD(3,4) False by metis
  qed
  then show "placed (mem s) (mem s')" "owns_buf p \<Longrightarrow> pr_bf p \<noteq> FMT_STR"
    "x \<noteq> pr_addr p \<Longrightarrow> owns_buf p \<longrightarrow> x \<noteq> pr_buf p \<Longrightarrow> solid (mem s') x = solid (mem s) x" by blast+
qed

lemma dequeue_memory:
  assumes d: "my_dequeue slot c s = Some s'" and sl: "slot < 2" and m: "memory_ok loc s"
  shows "memory_ok loc s'"
proof (cases "proxyCmd s c slot")
  case Nil
  then show ?thesis using d m by (auto simp: my_dequeue_def set_busy_def memory_ok_def entries_def own_bufs_def)
next
  case (Cons p q)
  note t = dequeue_tokens[OF d sl]
  have e: "entries s = add_mset p (entries s')"
    using entries_queue[OF t(6) sl] Cons by simp
  then have ep: "entry_ok (mem s) p" using m by (auto simp: memory_ok_def)
  note b = dequeue_blocks[OF d Cons ep]
  have oa: "pr_addr p \<notin># image_mset pr_addr (entries s')" "once (image_mset pr_addr (entries s'))"
    using m e by (auto simp: memory_ok_def once_add)
  have ob: "owns_buf p \<Longrightarrow> pr_buf p \<notin># own_bufs s'" "once (own_bufs s')"
    using m e b(2) by (auto simp: memory_ok_def own_bufs_def once_add split: if_splits)
  have keep: "solid (mem s') x = Some y"
    if "solid (mem s) x = Some y" "y = Obj \<or> y = Node \<and> x \<noteq> pr_addr p \<or> y \<noteq> Node \<and> \<not> (owns_buf p \<and> x = pr_buf p)" for x y
  proof -
    have "x \<noteq> pr_addr p" using that ep by (auto simp: entry_ok_def)
    moreover have "owns_buf p \<longrightarrow> x \<noteq> pr_buf p" using that ep b(2) by (auto simp: entry_ok_def)
    ultimately show ?thesis using b(3)[of x] that(1) by simp
  qed
  have "entry_ok (mem s') p'" if p': "p' \<in># entries s'" for p'
  proof -
    have ep': "entry_ok (mem s) p'" using p' m e by (auto simp: memory_ok_def)
    have "pr_addr p' \<noteq> pr_addr p" using oa(1) p' by (metis image_eqI set_image_mset)
    moreover have "owns_buf p' \<Longrightarrow> pr_bf p' \<noteq> FMT_STR \<Longrightarrow> \<not> (owns_buf p \<and> pr_buf p' = pr_buf p)"
      using ob(1) p' unfolding own_bufs_def by (auto simp: image_iff) metis
    ultimately show ?thesis using ep' keep by (fastforce simp: entry_ok_def)
  qed
  moreover have "reqs s' x \<noteq> None \<Longrightarrow> solid (mem s') x = Some Obj" for x
    using m t(1) keep[of x Obj] by (auto simp: memory_ok_def)
  ultimately show ?thesis using m b(1) oa(2) ob(2) by (auto simp: memory_ok_def placed_def)
qed

section \<open>Every step\<close>

lemma inv_ack:
  assumes a: "RIL_onRequestAck t s = Some s'" and i: "ril_inv loc ss s"
  shows "ril_inv loc ss s'"
proof (cases "reqs s t")
  case None
  then show ?thesis using a i by (auto simp: RIL_onRequestAck_def checkAndDequeueRequestInfoIfAck_def split: if_splits)
next
  case (Some r)
  define s1 where "s1 = s\<lparr>reqs := (reqs s)(t \<mapsto> r\<lparr>wasAckSent := True\<rparr>)\<rparr>"
  have so: "serial_of s1 = serial_of s" using Some by (auto simp: fun_eq_iff serial_of_def s1_def)
  have d: "due s1 = due s" "entries s1 = entries s" "own_bufs s1 = own_bufs s" "answered s1 = answered s"
    by (simp_all add: due_def entries_def own_bufs_def s1_def)
  have "memory_ok loc s1" using i Some d(2,3) by (auto simp: ril_inv_def memory_ok_def s1_def)
  moreover have "lists_ok s1" using i Some by (auto simp: ril_inv_def lists_ok_def s1_def) (metis option.inject)
  moreover have "tokens_ok ss s1" using i d(1,4) so by (auto simp: ril_inv_def tokens_ok_def s1_def)
  ultimately have i1: "ril_inv loc ss s1" by (simp add: ril_inv_def)
  have "ril_inv loc ss (rlog (AckAnswer j k) s1)" for j k
    using i1 by (simp add: ril_inv_def memory_ok_def lists_ok_def tokens_ok_def due_def entries_def own_bufs_def
        serial_of_def[abs_def])
  then show ?thesis using a Some i i1
    by (auto simp: RIL_onRequestAck_def checkAndDequeueRequestInfoIfAck_def s1_def[symmetric] split: if_splits option.splits)
qed

lemma answer_sel [simp]:
  "mem (answer cfg dev r e resp len s) = mem s" "reqs (answer cfg dev r e resp len s) = reqs s"
  "s_pending (answer cfg dev r e resp len s) = s_pending s" "proxyCmd (answer cfg dev r e resp len s) = proxyCmd s"
  "with_vendor (answer cfg dev r e resp len s) = with_vendor s" "busy (answer cfg dev r e resp len s) = busy s"
  by (auto simp: answer_def Let_def split: option.splits)

lemma answer_answered: "answered (answer cfg dev r e resp len s) \<in> {answered s, answered s @ [ri_token r]}"
  by (auto simp: answer_def Let_def split: option.splits)

text \<open>The channel after a completion.\<close>

definition next_request :: "config \<Rightarrow> request_info \<Rightarrow> rst \<Rightarrow> rst option" where
  "next_request cfg r s =
     (let slot = (if socket_id r = 0 then 0 else 1)
      in if queuing cfg then
           (case channel_of (proxyId (pCI r)) of
              Some c \<Rightarrow> my_dequeue slot c (set_busy c slot False s)
            | None \<Rightarrow> Some s)
         else Some s)"

lemma next_request_tokens:
  assumes "next_request cfg r s = Some s'"
  shows "reqs s' = reqs s" "s_pending s' = s_pending s" "answered s' = answered s" "due s' = due s"
    "set (with_vendor s) \<subseteq> set (with_vendor s')"
    and "memory_ok loc s \<Longrightarrow> memory_ok loc s'"
proof -
  define slot where "slot = (if socket_id r = 0 then 0 else 1 :: nat)"
  have "reqs s' = reqs s \<and> s_pending s' = s_pending s \<and> answered s' = answered s \<and> due s' = due s
    \<and> set (with_vendor s) \<subseteq> set (with_vendor s') \<and> (memory_ok loc s \<longrightarrow> memory_ok loc s')"
  proof (cases "s' = s")
    case False
    then obtain c where d: "my_dequeue slot c (set_busy c slot False s) = Some s'"
      using assms by (auto simp: next_request_def slot_def Let_def split: if_splits option.splits)
    have sl: "slot < 2" by (simp add: slot_def)
    have "memory_ok loc s \<Longrightarrow> memory_ok loc (set_busy c slot False s)"
      by (simp add: memory_ok_def set_busy_def entries_def own_bufs_def)
    moreover have "due (set_busy c slot False s) = due s" "answered (set_busy c slot False s) = answered s"
      by (simp_all add: due_def entries_def set_busy_def answered_def)
    ultimately show ?thesis using dequeue_tokens[OF d sl] dequeue_memory[OF d sl, of loc] by (simp add: set_busy_def)
  qed simp
  then show "reqs s' = reqs s" "s_pending s' = s_pending s" "answered s' = answered s" "due s' = due s"
    "set (with_vendor s) \<subseteq> set (with_vendor s')" "memory_ok loc s \<Longrightarrow> memory_ok loc s'" by blast+
qed

lemma complete_parts:
  assumes c: "RIL_onRequestComplete cfg dev t e resp len s = Some s'" and r: "reqs s t = Some r"
    and p: "t \<in> set (s_pending s (socket_id r))" "t \<noteq> 0"
  obtains s3 m where "next_request cfg r (answer cfg dev r e resp len
      (s\<lparr>s_pending := (s_pending s)(socket_id r := remove1 t (s_pending s (socket_id r)))\<rparr>)) = Some s3"
    "free t (mem s3) = Some m"
    "s' = s3\<lparr>mem := m, reqs := (reqs s3)(t := None), with_vendor := remove1 t (with_vendor s3)\<rparr>"
  using c r p
  by (auto simp: RIL_onRequestComplete_def checkAndDequeueRequestInfoIfAck_def bind_eq_Some_conv with_mem_def
      next_request_def Let_def split: if_splits)

lemma free_token_memory:
  assumes m: "memory_ok loc s" and t: "reqs s t \<noteq> None" and f: "free t (mem s) = Some m'"
  shows "memory_ok loc (s\<lparr>mem := m', reqs := (reqs s)(t := None), with_vendor := v\<rparr>)"
proof -
  define s' where "s' = s\<lparr>mem := m', reqs := (reqs s)(t := None), with_vendor := v\<rparr>"
  have e: "entries s' = entries s" "own_bufs s' = own_bufs s" by (simp_all add: s'_def entries_def own_bufs_def)
  have o: "solid (mem s) t = Some Obj" using m t by (auto simp: memory_ok_def)
  have "entry_ok m' p" if "p \<in># entries s" for p
  proof -
    have "entry_ok (mem s) p" using m that by (simp add: memory_ok_def)
    moreover have "solid m' x = Some y" if "solid (mem s) x = Some y" "y \<noteq> Obj" for x y
      using that o freeD(3)[OF f, of x] by (cases "x = t") auto
    ultimately show ?thesis by (fastforce simp: entry_ok_def)
  qed
  moreover have "solid m' x = Some Obj" if "x \<noteq> t" "reqs s x \<noteq> None" for x
    using m that freeD(3)[OF f that(1)] by (simp add: memory_ok_def)
  ultimately have "memory_ok loc s'" using m freeD(1,4)[OF f] e
    by (auto simp: memory_ok_def s'_def placed_def)
  then show ?thesis by (simp add: s'_def)
qed

lemma inv_complete:
  assumes c: "RIL_onRequestComplete cfg dev t e resp len s = Some s'" and i: "ril_inv loc ss s"
    and t: "t \<in> set (with_vendor s)"
  shows "ril_inv loc ss s'"
proof -
  have td: "tokens_ok ss s" and lo: "lists_ok s" and mo: "memory_ok loc s" using i by (auto simp: ril_inv_def)
  have dt: "t \<in># due s" using t by (simp add: due_def)
  then obtain r where r: "reqs s t = Some r" using td by (auto simp: tokens_ok_def)
  have p: "t \<in> set (s_pending s (socket_id r))" "t \<noteq> 0" using lo mo r by (auto simp: lists_ok_def memory_ok_def)
  define s1 where "s1 = s\<lparr>s_pending := (s_pending s)(socket_id r := remove1 t (s_pending s (socket_id r)))\<rparr>"
  define s2 where "s2 = answer cfg dev r e resp len s1"
  obtain s3 m where s3: "next_request cfg r s2 = Some s3" "free t (mem s3) = Some m"
      "s' = s3\<lparr>mem := m, reqs := (reqs s3)(t := None), with_vendor := remove1 t (with_vendor s3)\<rparr>"
    using complete_parts[OF c r p] by (auto simp: s1_def s2_def)
  note n = next_request_tokens[OF s3(1)]
  have q: "reqs s3 = reqs s" "s_pending s3 = s_pending s1" using n(1,2) by (simp_all add: s2_def s1_def)
  have "memory_ok loc s2" using mo by (simp add: memory_ok_def s2_def s1_def entries_def own_bufs_def)
  then have "memory_ok loc s'" unfolding s3(3) using q r by (intro free_token_memory n(6) s3(2)) auto
  moreover have "lists_ok s'"
    unfolding s3(3) using lo r
    by (auto simp: lists_ok_def q s1_def) (metis option.inject)+
  moreover have "tokens_ok ss s'"
  proof -
    have d: "due s = add_mset t (due s')"
    proof -
      have "due s3 = due s" using n(4) by (simp add: due_def s2_def s1_def entries_def)
      moreover have "t \<in> set (with_vendor s3)" using n(5) t by (auto simp: s2_def s1_def)
      then have "mset (with_vendor s3) = add_mset t (mset (with_vendor s'))" by (simp add: s3(3))
      moreover have "entries s' = entries s3" by (simp add: s3(3) entries_def)
      ultimately show ?thesis by (simp add: due_def)
    qed
    then have o: "once (due s')" "t \<notin># due s'" using td by (auto simp: tokens_ok_def once_add)
    have so: "image_mset (serial_of s') (due s') = image_mset (serial_of s) (due s')"
      using o(2) by (intro image_mset_cong) (auto simp: serial_of_def s3(3) q)
    have "reqs s' x \<noteq> None" if "x \<in># due s'" for x
      using that o(2) td d by (auto simp: tokens_ok_def s3(3) q)
    moreover have "mset (answered s') + image_mset (serial_of s') (due s') \<subseteq># mset ss"
    proof -
      have "answered s' = answered s2" using n(3) by (simp add: s3(3))
      moreover have "answered s2 \<in> {answered s, answered s @ [ri_token r]}"
        using answer_answered[of cfg dev r e resp len s1] by (simp add: s2_def s1_def)
      moreover have "serial_of s t = ri_token r" using r by (simp add: serial_of_def)
      moreover have "mset (answered s) + image_mset (serial_of s) (due s) \<subseteq># mset ss"
        using td by (simp add: tokens_ok_def)
      ultimately show ?thesis unfolding d so
        by (auto intro: subset_mset.order_trans[rotated])
    qed
    ultimately show ?thesis using o(1) by (simp add: tokens_ok_def)
  qed
  ultimately show ?thesis by (simp add: ril_inv_def)
qed

fun serials_of :: "ril_op list \<Rightarrow> int list" where
  "serials_of [] = []"
| "serials_of (Dispatch serial slotId request d # ops) = serial # serials_of ops"
| "serials_of (Ack t # ops) = serials_of ops"
| "serials_of (Complete t e resp len # ops) = serials_of ops"

lemma serials_append [simp]: "serials_of (xs @ ys) = serials_of xs @ serials_of ys"
  by (induction xs rule: serials_of.induct) auto

lemma inv_start: "\<forall>n. ch n \<noteq> loc \<Longrightarrow> ril_inv loc [] (ril_start ch)"
  by (auto simp: ril_inv_def memory_ok_def lists_ok_def tokens_ok_def due_def entries_def own_bufs_def once_def
      ril_start_def answered_def)

lemma inv_run:
  assumes "ril_run cfg dev loc (ril_start ch) ops s" "\<forall>n. ch n \<noteq> loc"
  shows "ril_inv loc (serials_of ops) s"
  using assms
proof (induction rule: ril_run.induct)
  case (step ops s op s')
  then have i: "ril_inv loc (serials_of ops) s" by simp
  show ?case
  proof (cases op)
    case (Dispatch serial slotId request d)
    then obtain ok where "dispatch cfg loc serial slotId request d s = Some (ok, s')"
      using step(3) by auto
    then show ?thesis using inv_dispatch[OF _ i] step(2) Dispatch by auto
  next
    case (Ack t)
    then show ?thesis using inv_ack[OF _ i] step(3) by simp
  next
    case (Complete t e resp len)
    then show ?thesis using inv_complete[OF _ i] step(2,3) by simp
  qed
qed (use inv_start in simp)

section \<open>Properties\<close>

text \<open>
  C1: However the service and the vendor's library take turns, with or without waiting requests, no
  request is answered twice and none that was not made: the serial numbers answered are among those of
  the requests made, each as often at most.  The requests still known are exactly those in the lists,
  each once and in the list of its slot.
\<close>

theorem answered_at_most_once:
  assumes "ril_run cfg dev loc (ril_start ch) ops s" "\<forall>n. ch n \<noteq> loc"
  shows "mset (answered s) \<subseteq># mset (serials_of ops)
    \<and> (\<forall>i. distinct (s_pending s i) \<and> set (s_pending s i) = {t. \<exists>r. reqs s t = Some r \<and> socket_id r = i})"
proof -
  note i = inv_run[OF assms]
  have "mset (answered s) \<subseteq># mset (answered s) + image_mset (serial_of s) (due s)" by simp
  also have "\<dots> \<subseteq># mset (serials_of ops)" using i by (simp add: ril_inv_def tokens_ok_def)
  finally have "mset (answered s) \<subseteq># mset (serials_of ops)" .
  moreover have "distinct (s_pending s i)" "t \<in> set (s_pending s i) \<longleftrightarrow> (\<exists>r. reqs s t = Some r \<and> socket_id r = i)" for t i
    using i by (auto simp: ril_inv_def lists_ok_def)
  ultimately show ?thesis by blast
qed

text \<open>One request that is made, handed over and completed.\<close>

definition cfg_queues :: config where
  "cfg_queues = \<lparr>queuing = True, ril_version = 12\<rparr>"

lemmas run_simps = dispatch_def addRequestToList_def calloc_def ril_start_def Let_def command_1 command_23
  dispatchVoid_def dispatchInts_def dispatchString_def copyHidlStringToRil_def c_copy_def my_enqueue_def
  cfg_queues_def channel_of_def channel_defs set_busy_def set_queue_def send_now_def onRequest_def rlog_def
  with_mem_def clearPendingBuffer_def wait_in_queue_def copy_block_def block_at_def put_def ignoreBF_def
  RIL_REQUEST_RADIO_POWER_def RIL_onRequestComplete_def checkAndDequeueRequestInfoIfAck_def answer_def
  RESPONSE_SOLICITED_def RESPONSE_SOLICITED_ACK_EXP_def RIL_REQUEST_GET_IMEI_def RIL_REQUEST_GET_IMEISV_def
  RIL_REQUEST_DEVICE_IDENTITY_def RIL_E_REQUEST_NOT_SUPPORTED_def my_dequeue_def free_def view_of_def

theorem answered_at_most_once_witness:
  "\<exists>s. ril_run cfg_queues (\<lambda>i. 0) 1 (ril_start (\<lambda>n. n + 2)) [Dispatch 7 0 1 DVoid, Complete 2 0 0 0] s
     \<and> mset (answered s) \<subseteq># {#7#} \<and> answered s = [7]"
proof -
  obtain s1 where s1: "ril_op_step cfg_queues (\<lambda>i. 0) 1 (Dispatch 7 0 1 DVoid) (ril_start (\<lambda>n. n + 2)) = Some s1"
      "2 \<in> set (with_vendor s1)"
      "\<exists>s2. ril_op_step cfg_queues (\<lambda>i. 0) 1 (Complete 2 0 0 0) s1 = Some s2 \<and> answered s2 = [7]"
    by (simp add: run_simps answered_def)
  then obtain s2 where s2: "ril_op_step cfg_queues (\<lambda>i. 0) 1 (Complete 2 0 0 0) s1 = Some s2" "answered s2 = [7]"
    by blast
  have "ril_run cfg_queues (\<lambda>i. 0) 1 (ril_start (\<lambda>n. n + 2)) ([] @ [Dispatch 7 0 1 DVoid]) s1"
    by (rule ril_run.step[OF ril_run.start _ s1(1)]) simp
  then have "ril_run cfg_queues (\<lambda>i. 0) 1 (ril_start (\<lambda>n. n + 2)) (([] @ [Dispatch 7 0 1 DVoid]) @ [Complete 2 0 0 0]) s2"
    by (rule ril_run.step[OF _ _ s2(1)]) (simp add: s1(2))
  then have r: "ril_run cfg_queues (\<lambda>i. 0) 1 (ril_start (\<lambda>n. n + 2)) [Dispatch 7 0 1 DVoid, Complete 2 0 0 0] s2" by simp
  then show ?thesis using answered_at_most_once[OF r] s2(2) by auto
qed

end
