(* ===== verification/Ril_Queue.thy ===== *)
theory Ril_Queue
  imports Ril_Answers
begin

text \<open>
  The channels as queues: an abstract machine of tokens that every call of the code refines, when a
  channel serves its requests one by one, and when it stops for good.
\<close>

section \<open>The abstract machine\<close>

text \<open>The tokens with the library, those that wait for a channel, and the flags.\<close>

record chan_st =
  outstanding :: "nat list"
  waiting :: "channel \<Rightarrow> nat \<Rightarrow> nat list"
  taken :: "channel \<Rightarrow> nat \<Rightarrow> bool"

definition channels :: "rst \<Rightarrow> chan_st" where
  "channels s = \<lparr>outstanding = with_vendor s, waiting = (\<lambda>c i. map pRI (proxyCmd s c i)), taken = busy s\<rparr>"

definition take_channel :: "channel \<Rightarrow> nat \<Rightarrow> bool \<Rightarrow> chan_st \<Rightarrow> chan_st" where
  "take_channel c i b q = q\<lparr>taken := (taken q)(c := (taken q c)(i := b))\<rparr>"

definition send_token :: "nat \<Rightarrow> chan_st \<Rightarrow> chan_st" where
  "send_token t q = q\<lparr>outstanding := t # outstanding q\<rparr>"

definition wait_token :: "channel \<Rightarrow> nat \<Rightarrow> nat \<Rightarrow> chan_st \<Rightarrow> chan_st" where
  "wait_token c i t q = q\<lparr>waiting := (waiting q)(c := (waiting q c)(i := waiting q c i @ [t]))\<rparr>"

text \<open>A request that may wait: at once on a channel that is not taken, else at the end of its queue.\<close>

definition hand_over :: "config \<Rightarrow> bool \<Rightarrow> int \<Rightarrow> request_info \<Rightarrow> nat \<Rightarrow> chan_st \<Rightarrow> chan_st" where
  "hand_over cfg may_wait request r t q =
     (case (if queuing cfg \<and> may_wait then channel_of (proxyId (pCI r)) else None) of
        None \<Rightarrow> send_token t q
      | Some c \<Rightarrow>
          let slot = (if socket_id r = 1 then 1 else 0);
              flag = (if c = Proxy1 \<and> request = RIL_REQUEST_RADIO_POWER then 0 else slot);
              q1 = take_channel c flag True q
          in if taken q c flag then wait_token c slot t q1 else send_token t q1)"

definition serve :: "channel \<Rightarrow> nat \<Rightarrow> chan_st \<Rightarrow> chan_st" where
  "serve c i q =
     (case waiting q c i of
        [] \<Rightarrow> take_channel c i False q
      | t # ts \<Rightarrow> send_token t (take_channel c i True (q\<lparr>waiting := (waiting q)(c := (waiting q c)(i := ts))\<rparr>)))"

definition complete_token :: "config \<Rightarrow> request_info \<Rightarrow> nat \<Rightarrow> chan_st \<Rightarrow> chan_st" where
  "complete_token cfg r t q =
     (let q1 = (case (if queuing cfg then channel_of (proxyId (pCI r)) else None) of
                  None \<Rightarrow> q
                | Some c \<Rightarrow> serve c (if socket_id r = 0 then 0 else 1) q)
      in q1\<lparr>outstanding := remove1 t (outstanding q1)\<rparr>)"

section \<open>The code refines it\<close>

lemma channels_cong [simp]:
  "channels (s\<lparr>mem := m\<rparr>) = channels s" "channels (rlog e s) = channels s" "channels (s\<lparr>reqs := rs\<rparr>) = channels s"
  "channels (s\<lparr>s_pending := ps\<rparr>) = channels s" "channels (s\<lparr>Device_ID := d\<rparr>) = channels s"
  by (simp_all add: channels_def)

lemma channels_with_mem: "with_mem f s = Some s' \<Longrightarrow> channels s' = channels s \<and> reqs s' = reqs s"
  by (auto simp: with_mem_def)

lemma channels_send: "send_now request buf len bf t soc s = Some s' \<Longrightarrow> channels s' = send_token t (channels s)"
  by (auto simp: send_now_def onRequest_def Let_def channels_def send_token_def dest!: channels_with_mem split: if_splits)

lemma channels_wait:
  "wait_in_queue c slot buf len bf t s = Some s' \<Longrightarrow> channels s' = wait_token c slot t (channels s)"
  by (auto simp: wait_in_queue_def Let_def channels_def wait_token_def set_queue_def fun_eq_iff
      split: prod.splits if_splits option.splits)

lemma channels_busy: "channels (set_busy c i b s) = take_channel c i b (channels s)"
  by (simp add: channels_def set_busy_def take_channel_def)

lemma taken_channels [simp]: "taken (channels s) = busy s"
  by (simp add: channels_def)

lemma my_enqueue_refines:
  assumes e: "my_enqueue cfg request buf len bf t s = Some s'" and r: "reqs s t = Some r"
  shows "channels s' = hand_over cfg (bf \<noteq> FMT_IGNORE) request r t (channels s)"
proof (cases "if queuing cfg \<and> bf \<noteq> FMT_IGNORE then channel_of (proxyId (pCI r)) else None")
  case None
  then show ?thesis using e r channels_send
    by (auto simp: my_enqueue_def hand_over_def Let_def split: if_splits option.splits)
next
  case (Some c)
  then have q: "queuing cfg" "bf \<noteq> FMT_IGNORE" "channel_of (proxyId (pCI r)) = Some c" by (auto split: if_splits)
  define slot where "slot = (if socket_id r = 1 then 1 else 0 :: nat)"
  define flag where "flag = (if c = Proxy1 \<and> request = RIL_REQUEST_RADIO_POWER then 0 else slot)"
  have e1: "(if busy s c flag then wait_in_queue c slot buf len bf t (set_busy c flag True s)
             else send_now request buf len bf t (socket_id r) (set_busy c flag True s)) = Some s'"
    using e by (simp only: my_enqueue_def r q Let_def option.case simp_thms if_True flag_def slot_def)
  have h: "hand_over cfg (bf \<noteq> FMT_IGNORE) request r t (channels s) =
      (if busy s c flag then wait_token c slot t (take_channel c flag True (channels s))
       else send_token t (take_channel c flag True (channels s)))"
    by (simp only: hand_over_def q Let_def option.case simp_thms if_True flag_def slot_def taken_channels)
  show ?thesis
  proof (cases "busy s c flag")
    case True
    then have "wait_in_queue c slot buf len bf t (set_busy c flag True s) = Some s'" using e1 by simp
    then show ?thesis using channels_wait True h channels_busy by simp
  next
    case False
    then have "send_now request buf len bf t (socket_id r) (set_busy c flag True s) = Some s'" using e1 by simp
    then show ?thesis using channels_send False h channels_busy by simp
  qed
qed

lemma hand_over_ignored: "channel_of (proxyId (pCI r)) = None \<Longrightarrow> hand_over cfg w request r t q = send_token t q"
  by (simp add: hand_over_def)

lemma no_memory_channels: "no_memory t s = Some (ok, s') \<Longrightarrow> \<not> ok \<and> channels s' = channels s \<and> reqs s' = reqs s"
  by (auto simp: no_memory_def sendErrorResponse_def split: option.splits)

text \<open>A dispatch either hands the new request over or refuses it; only raw requests never wait.\<close>

definition ends_as :: "config \<Rightarrow> bool \<Rightarrow> int \<Rightarrow> nat \<Rightarrow> bool \<Rightarrow> rst \<Rightarrow> rst \<Rightarrow> bool" where
  "ends_as cfg may_wait request t ok s s' =
     (\<forall>r. reqs s t = Some r
        \<longrightarrow> channels s' = (if ok then hand_over cfg may_wait request r t (channels s) else channels s))"

lemma ends_refused: "no_memory t (s\<lparr>mem := m\<rparr>) = Some (ok, s') \<Longrightarrow> ends_as cfg w request t ok s s'"
  using no_memory_channels[of t "s\<lparr>mem := m\<rparr>" ok s'] by (simp add: ends_as_def)

lemma ends_mem [simp]: "ends_as cfg w request t ok s (s'\<lparr>mem := m\<rparr>) = ends_as cfg w request t ok s s'"
  by (simp add: ends_as_def)

lemma ends_handed:
  assumes "my_enqueue cfg request buf len bf t (s\<lparr>mem := m\<rparr>) = Some s1" "w = (bf \<noteq> FMT_IGNORE) \<or> ignoreBF t s"
  shows "ends_as cfg w request t True s s1"
  using my_enqueue_refines[OF assms(1)] assms(2) by (auto simp: ends_as_def hand_over_ignored ignoreBF_def)

lemma ends_ignored:
  "my_enqueue cfg request buf len FMT_IGNORE t (s\<lparr>mem := m\<rparr>) = Some s1 \<Longrightarrow> ignoreBF t s
    \<Longrightarrow> ends_as cfg True request t True s s1"
  by (rule ends_handed) auto

lemma ends_plain:
  "my_enqueue cfg request buf len bf t (s\<lparr>mem := m\<rparr>) = Some s1 \<Longrightarrow> bf \<noteq> FMT_IGNORE
    \<Longrightarrow> ends_as cfg True request t True s s1"
  by (rule ends_handed) auto

lemma ignoreBF_mem [simp]: "ignoreBF t (s\<lparr>mem := m\<rparr>) = ignoreBF t s"
  by (simp add: ignoreBF_def)

lemma dispatchVoid_ends: "dispatchVoid cfg t request s = Some (ok, s') \<Longrightarrow> ends_as cfg True request t ok s s'"
  using ends_handed[of cfg request 0 0 FMT_VOID t "mem s" s s' True] by (auto simp: dispatchVoid_def)

lemma dispatchString_ends:
  assumes d: "dispatchString cfg t request str s = Some (ok, s')"
  shows "ends_as cfg True request t ok s s'"
proof -
  obtain p c m where c: "copyHidlStringToRil str (mem s) = (p, c, m)" by (metis prod_cases3)
  show ?thesis
  proof (cases c)
    case True
    then show ?thesis using d c
      by (auto simp: dispatchString_def bind_eq_Some_conv with_mem_def Let_def split: if_splits dest: ends_ignored ends_plain)
  next
    case False
    then show ?thesis using d c by (auto simp: dispatchString_def intro: ends_refused)
  qed
qed

lemma dispatchInts_ends:
  assumes d: "dispatchInts cfg t request ints s = Some (ok, s')"
  shows "ends_as cfg True request t ok s s'"
proof -
  obtain a m1 where c: "calloc (Words (replicate (length ints) 0)) (mem s) = (a, m1)" by fastforce
  show ?thesis
  proof (cases "a = 0")
    case False
    then show ?thesis using d c
      by (auto simp: dispatchInts_def bind_eq_Some_conv with_mem_def Let_def split: if_splits dest: ends_ignored ends_plain)
  next
    case True
    then show ?thesis using d c by (auto simp: dispatchInts_def intro: ends_refused)
  qed
qed

lemma dispatchStrings_ends:
  assumes d: "dispatchStrings cfg t request strs s = Some (ok, s')"
  shows "ends_as cfg True request t ok s s'"
proof -
  obtain a m1 where c: "calloc (Ptrs (replicate (length strs) 0)) (mem s) = (a, m1)" by fastforce
  obtain ps c2 m2 where c2: "copy_strings strs m1 = (ps, c2, m2)" by (metis prod_cases3)
  consider "a = 0" | "a \<noteq> 0" "\<not> c2" | "a \<noteq> 0" "c2" by blast
  then show ?thesis
  proof cases
    case 1
    then show ?thesis using d c by (auto simp: dispatchStrings_def intro: ends_refused)
  next
    case 2
    then obtain s3 where s3: "no_memory t (s\<lparr>mem := m2\<rparr>) = Some (False, s3)" "channels s' = channels s3" "\<not> ok"
      using d c c2 by (auto simp: dispatchStrings_def bind_eq_Some_conv no_memory_def dest!: channels_with_mem)
    then show ?thesis using no_memory_channels[OF s3(1)] by (simp add: ends_as_def)
  next
    case 3
    then show ?thesis using d c c2
      by (auto simp: dispatchStrings_def bind_eq_Some_conv with_mem_def Let_def split: if_splits dest: ends_ignored ends_plain)
  qed
qed

lemma dispatchCallForward_ends:
  assumes d: "dispatchCallForwardStatus cfg loc t request ints number s = Some (ok, s')"
  shows "ends_as cfg True request t ok s s'"
proof -
  obtain p c m where c: "copyHidlStringToRil number (mem s) = (p, c, m)" by (metis prod_cases3)
  show ?thesis
  proof (cases c)
    case True
    then show ?thesis using d c
      by (auto simp: dispatchCallForwardStatus_def bind_eq_Some_conv with_mem_def Let_def split: if_splits dest: ends_ignored ends_plain)
  next
    case False
    then show ?thesis using d c by (auto simp: dispatchCallForwardStatus_def intro: ends_refused)
  qed
qed

lemma dispatchIccApdu_ends:
  assumes d: "dispatchIccApdu cfg loc t request ints data s = Some (ok, s')"
  shows "ends_as cfg True request t ok s s'"
proof -
  obtain p c m where c: "copyHidlStringToRil data (mem s) = (p, c, m)" by (metis prod_cases3)
  show ?thesis
  proof (cases c)
    case True
    then show ?thesis using d c
      by (auto simp: dispatchIccApdu_def bind_eq_Some_conv dest: ends_plain)
  next
    case False
    then show ?thesis using d c by (auto simp: dispatchIccApdu_def intro: ends_refused)
  qed
qed

lemma refuse_channels: "refuse t err s = Some (ok, s') \<Longrightarrow> \<not> ok \<and> channels s' = channels s \<and> reqs s' = reqs s"
  by (auto simp: refuse_def sendErrorResponse_def split: option.splits)

lemma dispatchStruct_ends:
  assumes d: "dispatchStruct cfg loc t request ints texts bf len s = Some (ok, s')"
    and w: "w = (bf \<noteq> FMT_IGNORE) \<or> ignoreBF t s"
  shows "ends_as cfg w request t ok s s'"
proof -
  obtain ps c m where c: "copy_strings (map snd texts) (mem s) = (ps, c, m)" by (metis prod_cases3)
  show ?thesis
  proof (cases c)
    case True
    then obtain s2 where s2: "my_enqueue cfg request loc len bf t
          (s\<lparr>mem := local_var loc (Rec ints (zip (map fst texts) ps)) m\<rparr>) = Some s2" "ok" "channels s' = channels s2"
      using d c by (auto simp: dispatchStruct_def bind_eq_Some_conv split: if_splits dest!: channels_with_mem)
    then show ?thesis using ends_handed[OF s2(1) w] by (simp add: ends_as_def)
  next
    case False
    then obtain s3 where "sendErrorResponse t RIL_E_NO_MEMORY (s\<lparr>mem := m\<rparr>) = Some s3" "channels s' = channels s3" "\<not> ok"
      using d c by (auto simp: dispatchStruct_def bind_eq_Some_conv dest!: channels_with_mem)
    then show ?thesis using no_memory_channels[of t "s\<lparr>mem := m\<rparr>" False s3] by (simp add: no_memory_def ends_as_def)
  qed
qed

lemma dispatchRaw_ends:
  "dispatchRaw cfg loc t request bytes s = Some (ok, s') \<Longrightarrow> ends_as cfg False request t ok s s'"
  using ends_handed[where bf = FMT_IGNORE and w = False] by (auto simp: dispatchRaw_def bind_eq_Some_conv)

fun is_raw :: "request_data \<Rightarrow> bool" where
  "is_raw (DRaw bytes) = True"
| "is_raw (DStruct ints texts bf len) = (bf = FMT_IGNORE)"
| "is_raw _ = False"

text \<open>The whole dispatch: without memory nothing happens, else there is a new request with the data asked for.\<close>

definition new_request :: "int \<Rightarrow> nat \<Rightarrow> int \<Rightarrow> nat \<Rightarrow> request_info \<Rightarrow> rst \<Rightarrow> rst \<Rightarrow> bool" where
  "new_request serial slotId request t r s s' =
     (t \<noteq> 0 \<and> cells (mem s) t = None \<and> reqs s' = (reqs s)(t \<mapsto> r)
      \<and> ri_token r = serial \<and> socket_id r = slotId \<and> command_at (command_index request) = Some (pCI r))"

lemma dispatch_refines:
  assumes d: "dispatch cfg loc serial slotId request dt s = Some (ok, s')" and fm: "struct_fmt dt"
    and z: "solid (mem s) 0 = None" "solid (mem s) loc = None" "\<forall>n. chooser (mem s) n \<noteq> loc"
  shows "(\<not> ok \<and> channels s' = channels s \<and> reqs s' = reqs s)
    \<or> (\<exists>t r. new_request serial slotId request t r s s'
        \<and> channels s' = (if ok then hand_over cfg (\<not> is_raw dt) request r t (channels s) else channels s))"
proof -
  obtain t m where c: "calloc Obj (mem s) = (t, m)" by fastforce
  note k = callocD[OF c]
  show ?thesis
  proof (cases "t = 0")
    case True
    then show ?thesis using d c by (auto simp: dispatch_def addRequestToList_def split: request_data.splits if_splits)
  next
    case False
    then obtain ci where ci: "command_at (command_index request) = Some ci"
      using d c by (auto simp: dispatch_def addRequestToList_def split: option.splits)
    define r where "r = \<lparr>ri_token = serial, pCI = ci, ri_local = (serial = - 1), cancelled = False,
      wasAckSent = False, socket_id = slotId, ri_cid = proxyId ci + (if 0 < slotId then RIL_CHANNEL_OFFSET else 0)\<rparr>"
    define s1 where "s1 = s\<lparr>mem := m, reqs := (reqs s)(t \<mapsto> r), s_pending := (s_pending s)(slotId := t # s_pending s slotId)\<rparr>"
    have a: "addRequestToList serial slotId request s = Some (t, s1)"
      using c False ci by (simp add: addRequestToList_def r_def s1_def Let_def)
    have "solid m x = None" if "solid (mem s) x = None" "x \<noteq> t" for x
      using c that by (auto simp: calloc_def Let_def solid_def split: if_splits)
    moreover have "loc \<noteq> t" using k(5)[OF False] z(3) by metis
    ultimately have l: "solid (mem s1) 0 = None" "solid (mem s1) loc = None" using z(1,2) False by (auto simp: s1_def)
    have "joins t s1 s' \<and> ends_as cfg (\<not> is_raw dt) request t ok s1 s'"
    proof (cases dt)
      case DVoid
      then show ?thesis using d a False dispatchVoid_joins[OF _ l(1)] dispatchVoid_ends by (simp add: dispatch_def)
    next
      case (DString str)
      then show ?thesis using d a False dispatchString_joins[OF _ l(1)] dispatchString_ends by (simp add: dispatch_def)
    next
      case (DStrings strs)
      then show ?thesis using d a False dispatchStrings_joins dispatchStrings_ends by (simp add: dispatch_def)
    next
      case (DInts ints)
      then show ?thesis using d a False dispatchInts_joins dispatchInts_ends by (simp add: dispatch_def)
    next
      case (DRaw bytes)
      then show ?thesis using d a False dispatchRaw_joins[OF _ l(2)] dispatchRaw_ends by (simp add: dispatch_def)
    next
      case DCallForward
      then show ?thesis using d a False dispatchCallForward_joins[OF _ l(2)] dispatchCallForward_ends
        by (simp add: dispatch_def)
    next
      case DIccApdu
      then show ?thesis using d a False dispatchIccApdu_joins[OF _ l(2)] dispatchIccApdu_ends
        by (simp add: dispatch_def)
    next
      case (DStruct ints texts bf len)
      then have "bf = FMT_IGNORE \<or> plain_fmt bf" using fm by (auto simp: plain_fmt_def)
      then show ?thesis using DStruct d a False dispatchStruct_joins[OF _ l(2)] dispatchStruct_ends
        by (simp add: dispatch_def)
    next
      case (DRefuse err checked)
      then have r: "refuse t err (s1\<lparr>mem := mem s1\<rparr>) = Some (ok, s')" using d a False by (simp add: dispatch_def)
      show ?thesis using refuse_joins[OF r] refuse_channels[OF r] heap_grows_refl DRefuse by (simp add: ends_as_def)
    qed
    then have "reqs s' = reqs s1" "channels s' = (if ok then hand_over cfg (\<not> is_raw dt) request r t (channels s1) else channels s1)"
      by (auto simp: joins_def same_tables_def ends_as_def s1_def)
    moreover have "channels s1 = channels s" by (simp add: s1_def)
    moreover have "new_request serial slotId request t r s s'"
      using calculation(1) False k(3)[OF False] ci by (simp add: new_request_def s1_def r_def)
    ultimately show ?thesis by metis
  qed
qed

lemma my_dequeue_refines:
  "my_dequeue slot c s = Some s' \<Longrightarrow> channels s' = serve c slot (channels s)"
  by (cases "proxyCmd s c slot")
     (auto simp: my_dequeue_def serve_def bind_eq_Some_conv with_mem_def channels_def onRequest_def set_busy_def
        set_queue_def take_channel_def send_token_def rlog_def Let_def fun_eq_iff split: option.splits if_splits)

lemma serve_take: "serve c i (take_channel c i b q) = serve c i q"
  by (auto simp: serve_def take_channel_def send_token_def fun_eq_iff split: list.splits)

lemma complete_refines:
  assumes c: "RIL_onRequestComplete cfg dev t e resp len s = Some s'" and i: "ril_inv loc ss s"
    and t: "t \<in> set (with_vendor s)"
  shows "\<exists>r. reqs s t = Some r \<and> channels s' = complete_token cfg r t (channels s) \<and> reqs s' = (reqs s)(t := None)"
proof -
  have td: "tokens_ok ss s" and lo: "lists_ok s" and mo: "memory_ok loc s" using i by (auto simp: ril_inv_def)
  have "t \<in># due s" using t by (simp add: due_def)
  then obtain r where r: "reqs s t = Some r" using td by (auto simp: tokens_ok_def)
  have p: "t \<in> set (s_pending s (socket_id r))" "t \<noteq> 0" using lo mo r by (auto simp: lists_ok_def memory_ok_def)
  define s2 where "s2 = answer cfg dev r e resp len
    (s\<lparr>s_pending := (s_pending s)(socket_id r := remove1 t (s_pending s (socket_id r)))\<rparr>)"
  obtain s3 m where s3: "next_request cfg r s2 = Some s3" "free t (mem s3) = Some m"
      "s' = s3\<lparr>mem := m, reqs := (reqs s3)(t := None), with_vendor := remove1 t (with_vendor s3)\<rparr>"
    by (rule complete_parts[OF c r p]) (auto simp: s2_def)
  have q: "channels s2 = channels s" by (simp add: s2_def channels_def)
  have "channels s3 = (case (if queuing cfg then channel_of (proxyId (pCI r)) else None) of
                  None \<Rightarrow> channels s
                | Some c \<Rightarrow> serve c (if socket_id r = 0 then 0 else 1) (channels s))"
    using s3(1) q by (auto simp: next_request_def Let_def channels_busy serve_take
        dest!: my_dequeue_refines split: option.splits if_splits)
  moreover have "channels s' = (channels s3)\<lparr>outstanding := remove1 t (outstanding (channels s3))\<rparr>"
    by (simp add: s3(3) channels_def)
  moreover have "reqs s' = (reqs s)(t := None)" using next_request_tokens(1)[OF s3(1)] by (simp add: s3(3) s2_def)
  ultimately show ?thesis using r by (auto simp: complete_token_def Let_def)
qed

lemma ack_refines: "RIL_onRequestAck t s = Some s' \<Longrightarrow> channels s' = channels s"
  by (auto simp: RIL_onRequestAck_def checkAndDequeueRequestInfoIfAck_def bind_eq_Some_conv
      split: option.splits if_splits)

section \<open>Runs of the abstract machine\<close>

text \<open>
  A state is the channels and the requests known.  A request is refused, at once or when it is already
  known, or handed over; an acknowledgement changes nothing that counts here.
\<close>

type_synonym chan_state = "chan_st \<times> (nat \<Rightarrow> request_info option)"

definition made_for :: "request_info \<Rightarrow> nat \<Rightarrow> int \<Rightarrow> bool" where
  "made_for r slotId request = (slotId < 2 \<and> socket_id r = slotId \<and> command_at (command_index request) = Some (pCI r))"

inductive chan_step :: "config \<Rightarrow> ril_op \<Rightarrow> chan_state \<Rightarrow> chan_state \<Rightarrow> bool" for cfg where
  refused: "chan_step cfg (Dispatch n i request d) (q, R) (q, R)"
| given_up: "R t = None \<Longrightarrow> made_for r i request \<Longrightarrow> chan_step cfg (Dispatch n i request d) (q, R) (q, R(t \<mapsto> r))"
| handed: "R t = None \<Longrightarrow> made_for r i request
    \<Longrightarrow> chan_step cfg (Dispatch n i request d) (q, R) (hand_over cfg (\<not> is_raw d) request r t q, R(t \<mapsto> r))"
| acked: "R t = Some r \<Longrightarrow> socket_id r' = socket_id r \<Longrightarrow> pCI r' = pCI r
    \<Longrightarrow> chan_step cfg (Ack t) (q, R) (q, R(t \<mapsto> r'))"
| completed: "R t = Some r \<Longrightarrow> t \<in> set (outstanding q)
    \<Longrightarrow> chan_step cfg (Complete t e resp len) (q, R) (complete_token cfg r t q, R(t := None))"

inductive_cases chan_stepE: "chan_step cfg op x y"

inductive chan_run :: "config \<Rightarrow> chan_state \<Rightarrow> ril_op list \<Rightarrow> chan_state \<Rightarrow> bool" for cfg x where
  idle: "chan_run cfg x [] x"
| more_steps: "chan_run cfg x ops y \<Longrightarrow> chan_step cfg op y z \<Longrightarrow> chan_run cfg x (ops @ [op]) z"

definition chan_view :: "rst \<Rightarrow> chan_state" where
  "chan_view s = (channels s, reqs s)"

definition chan_start :: chan_state where
  "chan_start = (\<lparr>outstanding = [], waiting = (\<lambda>_ _. []), taken = (\<lambda>_ _. False)\<rparr>, \<lambda>_. None)"

lemma chan_view_start: "chan_view (ril_start ch) = chan_start"
  by (simp add: chan_view_def ril_start_def channels_def chan_start_def)

lemma ack_step:
  assumes a: "RIL_onRequestAck t s = Some s'" and i: "ril_inv loc ss s" and t: "t \<in> set (with_vendor s)"
  shows "chan_step cfg (Ack t) (chan_view s) (chan_view s')"
proof -
  have td: "tokens_ok ss s" and lo: "lists_ok s" and mo: "memory_ok loc s" using i by (auto simp: ril_inv_def)
  have "t \<in># due s" using t by (simp add: due_def)
  then obtain r where r: "reqs s t = Some r" using td by (auto simp: tokens_ok_def)
  have p: "t \<in> set (s_pending s (socket_id r))" "t \<noteq> 0" using lo mo r by (auto simp: lists_ok_def memory_ok_def)
  then have "reqs s' = (reqs s)(t \<mapsto> r\<lparr>wasAckSent := True\<rparr>)"
    using a r by (auto simp: RIL_onRequestAck_def checkAndDequeueRequestInfoIfAck_def split: if_splits)
  then show ?thesis using ack_refines[OF a] r
    by (auto simp: chan_view_def intro!: chan_step.acked)
qed

lemma dispatch_step:
  assumes d: "dispatch cfg loc serial slotId request dt s = Some (ok, s')" and i: "ril_inv loc ss s" and sl: "slotId < 2"
    and fm: "struct_fmt dt"
  shows "chan_step cfg (Dispatch serial slotId request dt) (chan_view s) (chan_view s')"
proof -
  have mo: "memory_ok loc s" using i by (simp add: ril_inv_def)
  have k: "reqs s t = None" if "cells (mem s) t = None" for t using mo that by (auto simp: memory_ok_def)
  have z: "solid (mem s) 0 = None" "solid (mem s) loc = None" "\<forall>n. chooser (mem s) n \<noteq> loc"
    using mo by (auto simp: memory_ok_def)
  consider "channels s' = channels s \<and> reqs s' = reqs s"
    | t r where "new_request serial slotId request t r s s'"
        "channels s' = (if ok then hand_over cfg (\<not> is_raw dt) request r t (channels s) else channels s)"
    using dispatch_refines[OF d fm z] by blast
  then show ?thesis
  proof cases
    case 1
    then show ?thesis by (simp add: chan_view_def chan_step.refused)
  next
    case 2
    then have n: "reqs s t = None" "made_for r slotId request" "reqs s' = (reqs s)(t \<mapsto> r)"
      using k sl by (auto simp: new_request_def made_for_def)
    show ?thesis
      by (cases ok) (simp_all add: chan_view_def n(3) 2(2) chan_step.handed[where R = "reqs s" and t = t, OF n(1,2)]
          chan_step.given_up[where R = "reqs s" and t = t, OF n(1,2)])
  qed
qed

lemma complete_step:
  assumes c: "RIL_onRequestComplete cfg dev t e resp len s = Some s'" and i: "ril_inv loc ss s"
    and t: "t \<in> set (with_vendor s)"
  shows "chan_step cfg (Complete t e resp len) (chan_view s) (chan_view s')"
proof -
  obtain r where "reqs s t = Some r" "channels s' = complete_token cfg r t (channels s)" "reqs s' = (reqs s)(t := None)"
    using complete_refines[OF c i t] by blast
  moreover have "t \<in> set (outstanding (channels s))" using t by (simp add: channels_def)
  ultimately show ?thesis by (simp add: chan_view_def chan_step.completed)
qed

lemma op_step_refines:
  assumes o: "ril_op_step cfg dev loc op s = Some s'" "allowed op s" and i: "ril_inv loc ss s"
  shows "chan_step cfg op (chan_view s) (chan_view s')"
proof (cases op)
  case (Dispatch serial slotId request d)
  then obtain ok where "dispatch cfg loc serial slotId request d s = Some (ok, s')" using o(1) by auto
  then show ?thesis using dispatch_step[OF _ i] Dispatch o(2) by simp
next
  case (Ack t)
  then show ?thesis using ack_step[OF _ i] o by simp
next
  case (Complete t e resp len)
  then show ?thesis using complete_step[OF _ i] o by simp
qed

lemma run_refines_channels:
  assumes "ril_run cfg dev loc (ril_start ch) ops s" "\<forall>n. ch n \<noteq> loc"
  shows "chan_run cfg chan_start ops (chan_view s)"
  using assms
proof (induction rule: ril_run.induct)
  case start
  then show ?case by (simp add: chan_view_start chan_run.idle)
next
  case (step ops s op s')
  then show ?case using op_step_refines[OF step(3,2) inv_run[OF step(1) step(5)]] by (auto intro: chan_run.more_steps)
qed

section \<open>One request at a time\<close>

definition here :: "(nat \<Rightarrow> request_info option) \<Rightarrow> channel \<Rightarrow> nat \<Rightarrow> nat \<Rightarrow> bool" where
  "here R c i t =
     (case R t of None \<Rightarrow> False | Some r \<Rightarrow> channel_of (proxyId (pCI r)) = Some c \<and> socket_id r = i)"

text \<open>The requests of a channel that the library has.\<close>

definition at_work :: "(nat \<Rightarrow> request_info option) \<Rightarrow> chan_st \<Rightarrow> channel \<Rightarrow> nat \<Rightarrow> nat list" where
  "at_work R q c i = filter (here R c i) (outstanding q)"

text \<open>Every token has one place, and waits where it belongs.\<close>

definition well_kept :: "chan_state \<Rightarrow> bool" where
  "well_kept x = (case x of (q, R) \<Rightarrow>
     distinct (outstanding q) \<and> (\<forall>t \<in> set (outstanding q). R t \<noteq> None)
     \<and> (\<forall>t r. R t = Some r \<longrightarrow> socket_id r < 2)
     \<and> (\<forall>c i. distinct (waiting q c i)
          \<and> (\<forall>t \<in> set (waiting q c i). t \<notin> set (outstanding q) \<and> here R c i t)))"

definition one_each :: "chan_state \<Rightarrow> bool" where
  "one_each x = (case x of (q, R) \<Rightarrow>
     \<forall>c i. length (at_work R q c i) = (if taken q c i then 1 else 0) \<and> (waiting q c i \<noteq> [] \<longrightarrow> taken q c i))"

text \<open>
  The operations under which the flags are right: no raw request, which does not look at them, and no
  \<open>RADIO_POWER\<close> of the second slot, which looks at those of the first.
\<close>

fun waits_properly :: "ril_op \<Rightarrow> bool" where
  "waits_properly (Dispatch n i request d) = (\<not> is_raw d \<and> (request = RIL_REQUEST_RADIO_POWER \<longrightarrow> i \<noteq> 1))"
| "waits_properly _ = True"

lemma here_known: "here R c i t \<Longrightarrow> R t \<noteq> None"
  by (auto simp: here_def split: option.splits)

lemma here_one: "here R c i t \<Longrightarrow> here R d j t \<longleftrightarrow> d = c \<and> j = i"
  by (auto simp: here_def split: option.splits)

lemma here_upd [simp]: "t \<noteq> u \<Longrightarrow> here (R(u := x)) c i t = here R c i t" "here (R(u := None)) c i u = False"
  by (simp_all add: here_def)

lemma here_same:
  "R t = Some r \<Longrightarrow> socket_id r' = socket_id r \<Longrightarrow> pCI r' = pCI r \<Longrightarrow> here (R(t \<mapsto> r')) c i u = here R c i u"
  by (auto simp: here_def)

lemma at_work_fresh:
  "t \<notin> set (outstanding q) \<Longrightarrow> at_work (R(t := x)) q c i = at_work R q c i"
  unfolding at_work_def by (rule filter_cong[OF refl]) (metis here_upd(1))

lemma at_work_send: "at_work R (send_token t q) c i = (if here R c i t then [t] else []) @ at_work R q c i"
  by (simp add: at_work_def send_token_def)

lemma at_work_flags [simp]:
  "at_work R (take_channel c i b q) = at_work R q" "at_work R (wait_token c i t q) = at_work R q"
  by (simp_all add: at_work_def take_channel_def wait_token_def fun_eq_iff)

lemma chan_sel [simp]:
  "outstanding (take_channel c i b q) = outstanding q" "waiting (take_channel c i b q) = waiting q"
  "taken (take_channel c i b q) = (taken q)(c := (taken q c)(i := b))"
  "outstanding (send_token t q) = t # outstanding q" "waiting (send_token t q) = waiting q"
  "taken (send_token t q) = taken q" "outstanding (wait_token c i t q) = outstanding q"
  "waiting (wait_token c i t q) = (waiting q)(c := (waiting q c)(i := waiting q c i @ [t]))"
  "taken (wait_token c i t q) = taken q"
  by (simp_all add: take_channel_def send_token_def wait_token_def)

lemma kept_fresh: "well_kept (q, R) \<Longrightarrow> R t = None \<Longrightarrow> t \<notin> set (outstanding q) \<and> t \<notin> set (waiting q c i)"
  using here_known by (fastforce simp: well_kept_def)

lemma well_keptI:
  assumes "distinct (outstanding q)" "\<And>t. t \<in> set (outstanding q) \<Longrightarrow> R t \<noteq> None" "\<And>t r. R t = Some r \<Longrightarrow> socket_id r < 2"
    and "\<And>c i. distinct (waiting q c i)" "\<And>c i t. t \<in> set (waiting q c i) \<Longrightarrow> t \<notin> set (outstanding q)"
    and "\<And>c i t. t \<in> set (waiting q c i) \<Longrightarrow> here R c i t"
  shows "well_kept (q, R)"
  using assms by (simp add: well_kept_def)

lemma well_keptD:
  assumes "well_kept (q, R)"
  shows "distinct (outstanding q)" "t \<in> set (outstanding q) \<Longrightarrow> R t \<noteq> None" "R t = Some r \<Longrightarrow> socket_id r < 2"
    "distinct (waiting q c i)" "t \<in> set (waiting q c i) \<Longrightarrow> t \<notin> set (outstanding q)"
    "t \<in> set (waiting q c i) \<Longrightarrow> here R c i t"
  using assms by (simp_all add: well_kept_def)

lemma kept_new:
  assumes k: "well_kept (q, R)" and n: "R t = None" "socket_id r < 2"
  shows "well_kept (q, R(t \<mapsto> r))"
proof (rule well_keptI)
  show "(R(t \<mapsto> r)) u \<noteq> None" if "u \<in> set (outstanding q)" for u using well_keptD(2)[OF k that] by simp
  show "socket_id x < 2" if "(R(t \<mapsto> r)) u = Some x" for u x using that n(2) well_keptD(3)[OF k] by (cases "u = t") auto
  show "here (R(t \<mapsto> r)) c i u" if "u \<in> set (waiting q c i)" for u c i
    using kept_fresh[OF k n(1)] that well_keptD(6)[OF k that] by (metis here_upd(1))
qed (rule well_keptD[OF k], assumption?)+

lemma kept_send:
  "well_kept (q, R) \<Longrightarrow> R t = Some r \<Longrightarrow> t \<notin> set (outstanding q) \<Longrightarrow> \<forall>c i. t \<notin> set (waiting q c i)
    \<Longrightarrow> well_kept (send_token t q, R)"
  by (auto simp: well_kept_def)

lemma kept_wait:
  "well_kept (q, R) \<Longrightarrow> here R c i t \<Longrightarrow> t \<notin> set (outstanding q) \<Longrightarrow> t \<notin> set (waiting q c i)
    \<Longrightarrow> well_kept (wait_token c i t q, R)"
  by (auto simp: well_kept_def)

lemma kept_flag [simp]: "well_kept (take_channel c i b q, R) = well_kept (q, R)"
  by (simp add: well_kept_def)

lemma kept_hand_over:
  assumes k: "well_kept (q, R)" and n: "R t = None" "made_for r i request"
  shows "well_kept (hand_over cfg w request r t q, R(t \<mapsto> r))"
proof -
  have so: "socket_id r = i" "i < 2" using n by (simp_all add: made_for_def)
  have k1: "well_kept (q, R(t \<mapsto> r))" using kept_new[OF k n(1)] so by simp
  note fr = kept_fresh[OF k n(1)]
  show ?thesis
  proof (cases "if queuing cfg \<and> w then channel_of (proxyId (pCI r)) else None")
    case None
    then show ?thesis using kept_send[OF k1] fr by (auto simp: hand_over_def)
  next
    case (Some c)
    have "here (R(t \<mapsto> r)) c (if socket_id r = 1 then 1 else 0) t"
      using Some so by (auto simp: here_def split: if_splits)
    then show ?thesis using Some fr k1
      by (auto simp: hand_over_def Let_def intro!: kept_send kept_wait)
  qed
qed

lemma kept_serve:
  assumes k: "well_kept (q, R)"
  shows "well_kept (serve c i q, R)"
proof (cases "waiting q c i")
  case Nil
  then show ?thesis using k by (simp add: serve_def)
next
  case (Cons t ts)
  define q1 where "q1 = q\<lparr>waiting := (waiting q)(c := (waiting q c)(i := ts))\<rparr>"
  have h: "here R c i t" "t \<notin> set (outstanding q)" using well_keptD(5,6)[OF k, of t c i] Cons by simp_all
  have ts: "t \<notin> set ts" "distinct ts" using well_keptD(4)[OF k, of c i] Cons by simp_all
  have w1: "u \<in> set (waiting q d j)" if "u \<in> set (waiting q1 d j)" for u d j
    using that Cons by (auto simp: q1_def split: if_splits)
  have q1: "well_kept (q1, R)"
  proof (rule well_keptI)
    show "distinct (waiting q1 d j)" for d j using ts(2) well_keptD(4)[OF k, of d j] by (auto simp: q1_def)
    show "u \<notin> set (outstanding q1)" if "u \<in> set (waiting q1 d j)" for d j u
      using well_keptD(5)[OF k w1[OF that]] by (simp add: q1_def)
    show "here R d j u" if "u \<in> set (waiting q1 d j)" for d j u using well_keptD(6)[OF k w1[OF that]] .
    show "distinct (outstanding q1)" using well_keptD(1)[OF k] by (simp add: q1_def)
    show "R u \<noteq> None" if "u \<in> set (outstanding q1)" for u using that well_keptD(2)[OF k] by (simp add: q1_def)
    show "socket_id r < 2" if "R u = Some r" for u r using that well_keptD(3)[OF k] by simp
  qed
  have "t \<notin> set (waiting q1 d j)" for d j
    using here_one[OF h(1)] well_keptD(6)[OF k, of t d j] ts(1) by (auto simp: q1_def)
  moreover obtain r where "R t = Some r" using here_known[OF h(1)] by auto
  ultimately have "well_kept (send_token t (take_channel c i True q1), R)" using q1 h(2)
    by (intro kept_send) (simp_all add: q1_def)
  then show ?thesis by (simp add: serve_def Cons q1_def)
qed

lemma serve_outstanding: "set (outstanding q) \<subseteq> set (outstanding (serve c i q))"
  by (auto simp: serve_def split: list.splits)

lemma serve_waits: "set (waiting (serve c i q) d j) \<subseteq> set (waiting q d j)"
  by (auto simp: serve_def split: list.splits if_splits)

lemma kept_done:
  assumes k: "well_kept (q, R)" and t: "t \<in> set (outstanding q)"
  shows "well_kept (q\<lparr>outstanding := remove1 t (outstanding q)\<rparr>, R(t := None))"
proof (rule well_keptI)
  show "here (R(t := None)) c i u"
    if "u \<in> set (waiting (q\<lparr>outstanding := remove1 t (outstanding q)\<rparr>) c i)" for u c i
    using t that well_keptD(5,6)[OF k] by (metis here_upd(1) chan_st.select_convs(2) chan_st.surjective chan_st.update_convs(1))
qed (use well_keptD[OF k] in \<open>auto split: if_splits\<close>)

lemma kept_complete:
  assumes k: "well_kept (q, R)" and t: "R t = Some r" "t \<in> set (outstanding q)"
  shows "well_kept (complete_token cfg r t q, R(t := None))"
proof (cases "if queuing cfg then channel_of (proxyId (pCI r)) else None")
  case None
  then show ?thesis using kept_done[OF k t(2)] by (simp add: complete_token_def)
next
  case (Some c)
  have "t \<in> set (outstanding (serve c i q))" for i using t(2) serve_outstanding by blast
  then show ?thesis using Some kept_done[OF kept_serve[OF k]] by (simp add: complete_token_def Let_def)
qed

lemma kept_step: "chan_step cfg op x y \<Longrightarrow> well_kept x \<Longrightarrow> well_kept y"
proof (induction rule: chan_step.induct)
  case (given_up R t r i request n d q)
  then show ?case using kept_new by (simp add: made_for_def)
next
  case (acked R t r r' q)
  then have "here (R(t \<mapsto> r')) c i u = here R c i u" for c i u using here_same by metis
  then show ?case using acked by (auto simp: well_kept_def)
qed (auto intro: kept_hand_over kept_complete)

lemma kept_run: "chan_run cfg chan_start ops y \<Longrightarrow> well_kept y"
proof (induction rule: chan_run.induct)
  case idle
  then show ?case by (simp add: chan_start_def well_kept_def)
qed (rule kept_step)

lemma one_hand_over:
  assumes o: "one_each (q, R)" and k: "well_kept (q, R)" and n: "R t = None" "made_for r i request"
    and p: "request = RIL_REQUEST_RADIO_POWER \<longrightarrow> i \<noteq> 1" and qu: "queuing cfg"
  shows "one_each (hand_over cfg True request r t q, R(t \<mapsto> r))"
proof -
  have so: "socket_id r = i" "i < 2" using n by (simp_all add: made_for_def)
  have fr: "at_work (R(t \<mapsto> r)) q c j = at_work R q c j" for c j using kept_fresh[OF k n(1)] by (simp add: at_work_fresh)
  show ?thesis
  proof (cases "channel_of (proxyId (pCI r))")
    case None
    then have "\<not> here (R(t \<mapsto> r)) c j t" for c j by (simp add: here_def)
    then show ?thesis using o by (simp add: one_each_def hand_over_def None at_work_send fr)
  next
    case (Some c)
    have h: "here (R(t \<mapsto> r)) d j t \<longleftrightarrow> d = c \<and> j = i" for d j using Some so by (auto simp: here_def)
    have i: "(if socket_id r = 1 then 1 else 0) = i" using so by auto
    have f: "(if c = Proxy1 \<and> request = RIL_REQUEST_RADIO_POWER then 0 else i) = i" using p so by auto
    have e: "hand_over cfg True request r t q =
        (if taken q c i then wait_token c i t (take_channel c i True q) else send_token t (take_channel c i True q))"
      unfolding hand_over_def by (simp only: qu Some Let_def option.case simp_thms if_True i f)
    show ?thesis using o by (auto simp: e one_each_def at_work_send fr h)
  qed
qed

lemma remove1_filter: "distinct xs \<Longrightarrow> filter P (remove1 t xs) = remove1 t (filter P xs)"
  by (simp add: filter_remove1)

lemma at_work_done:
  "distinct (outstanding q) \<Longrightarrow>
    at_work (R(t := None)) (q\<lparr>outstanding := remove1 t (outstanding q)\<rparr>) c i = remove1 t (at_work R q c i)"
  by (simp add: at_work_def distinct_remove1_removeAll removeAll_filter_not_eq)
     (intro filter_cong[OF refl], metis here_upd(1,2))

lemma one_complete:
  assumes o: "one_each (q, R)" and k: "well_kept (q, R)" and t: "R t = Some r" "t \<in> set (outstanding q)"
    and qu: "queuing cfg"
  shows "one_each (complete_token cfg r t q, R(t := None))"
proof (cases "channel_of (proxyId (pCI r))")
  case None
  then have "t \<notin> set (at_work R q c i)" for c i using t by (auto simp: at_work_def here_def)
  then have "at_work (R(t := None)) (q\<lparr>outstanding := remove1 t (outstanding q)\<rparr>) c i = at_work R q c i" for c i
    using at_work_done k by (simp add: well_kept_def remove1_idem)
  then show ?thesis using o by (simp add: complete_token_def None one_each_def)
next
  case (Some c)
  define i where "i = socket_id r"
  have i: "(if socket_id r = 0 then 0 else 1) = i" using well_keptD(3)[OF k t(1)] by (auto simp: i_def)
  have h: "here R d j t \<longleftrightarrow> d = c \<and> j = i" for d j using Some t by (auto simp: here_def i_def)
  have w: "t \<in> set (at_work R q d j) \<longleftrightarrow> d = c \<and> j = i" for d j using t h by (simp add: at_work_def)
  have tk: "taken q c i" "at_work R q c i = [t]"
  proof -
    have l: "length (at_work R q c i) = (if taken q c i then 1 else 0)" "t \<in> set (at_work R q c i)"
      using o w by (simp_all add: one_each_def)
    then show "taken q c i" by (cases "at_work R q c i") (auto split: if_splits)
    then show "at_work R q c i = [t]" using l by (cases "at_work R q c i") auto
  qed
  have k1: "distinct (outstanding (serve c i q))" using kept_serve[OF k] by (simp add: well_kept_def)
  have e: "complete_token cfg r t q = (serve c i q)\<lparr>outstanding := remove1 t (outstanding (serve c i q))\<rparr>"
    by (simp add: complete_token_def qu Some i Let_def)
  have a: "at_work (R(t := None)) (complete_token cfg r t q) d j = remove1 t (at_work R (serve c i q) d j)" for d j
    unfolding e using at_work_done[OF k1] by simp
  show ?thesis
  proof (cases "waiting q c i")
    case Nil
    then have s: "serve c i q = take_channel c i False q" by (simp add: serve_def)
    show ?thesis using o tk w a unfolding e s
      by (auto simp: one_each_def Nil remove1_idem)
  next
    case (Cons u us)
    define q1 where "q1 = q\<lparr>waiting := (waiting q)(c := (waiting q c)(i := us))\<rparr>"
    have s: "serve c i q = send_token u (take_channel c i True q1)" by (simp add: serve_def Cons q1_def)
    have u: "here R c i u" "u \<noteq> t" using well_keptD(5,6)[OF k, of u c i] Cons t by auto
    have a1: "at_work R (serve c i q) d j = (if d = c \<and> j = i then [u, t] else at_work R q d j)" for d j
      using here_one[OF u(1)] tk(2) by (auto simp: s at_work_send q1_def at_work_def)
    have "at_work (R(t := None)) (complete_token cfg r t q) d j = (if d = c \<and> j = i then [u] else at_work R q d j)" for d j
      using a a1 w u(2) by (simp add: remove1_idem)
    then show ?thesis using o tk(1) unfolding e s q1_def
      by (auto simp: one_each_def)
  qed
qed

lemma one_step:
  "chan_step cfg op x y \<Longrightarrow> one_each x \<Longrightarrow> well_kept x \<Longrightarrow> waits_properly op \<Longrightarrow> queuing cfg \<Longrightarrow> one_each y"
proof (induction rule: chan_step.induct)
  case (given_up R t r i request n d q)
  then have "at_work (R(t \<mapsto> r)) q c j = at_work R q c j" for c j
    using kept_fresh by (simp add: at_work_fresh)
  then show ?case using given_up by (simp add: one_each_def)
next
  case (handed R t r i request n d q)
  then show ?case using one_hand_over by simp
next
  case (acked R t r r' q)
  then have "here (R(t \<mapsto> r')) c i u = here R c i u" for c i u using here_same by metis
  then have "here (R(t \<mapsto> r')) = here R" by (simp add: fun_eq_iff)
  then have "at_work (R(t \<mapsto> r')) q c i = at_work R q c i" for c i by (simp add: at_work_def)
  then show ?case using acked by (simp add: one_each_def)
qed (auto intro: one_complete)

lemma one_run:
  "chan_run cfg chan_start ops y \<Longrightarrow> \<forall>op \<in> set ops. waits_properly op \<Longrightarrow> queuing cfg \<Longrightarrow> one_each y"
proof (induction rule: chan_run.induct)
  case idle
  then show ?case by (simp add: chan_start_def one_each_def at_work_def)
next
  case (more_steps ops y op z)
  then show ?case using one_step kept_run by auto
qed

section \<open>A flag that nobody resets\<close>

text \<open>
  The first slot of \<open>Proxy1\<close> is taken and the library has none of its requests: no completion will
  look at its queue.
\<close>

definition stopped :: "chan_state \<Rightarrow> bool" where
  "stopped x = (case x of (q, R) \<Rightarrow> taken q Proxy1 0 \<and> at_work R q Proxy1 0 = [])"

fun no_raw :: "ril_op \<Rightarrow> bool" where
  "no_raw (Dispatch n i request d) = (\<not> is_raw d)"
| "no_raw _ = True"

lemma stopped_hand_over:
  assumes o: "stopped (q, R)" and k: "well_kept (q, R)" and n: "R t = None" "made_for r i request" and qu: "queuing cfg"
  shows "stopped (hand_over cfg True request r t q, R(t \<mapsto> r))"
proof -
  have so: "socket_id r = i" "i < 2" using n by (simp_all add: made_for_def)
  have fr: "at_work (R(t \<mapsto> r)) q c j = at_work R q c j" for c j using kept_fresh[OF k n(1)] by (simp add: at_work_fresh)
  have h: "here (R(t \<mapsto> r)) Proxy1 0 t \<longleftrightarrow> channel_of (proxyId (pCI r)) = Some Proxy1 \<and> i = 0"
    using so by (simp add: here_def)
  show ?thesis
  proof (cases "channel_of (proxyId (pCI r))")
    case None
    then show ?thesis using o h by (simp add: stopped_def hand_over_def at_work_send fr)
  next
    case (Some c)
    then show ?thesis using o h so by (auto simp: stopped_def hand_over_def at_work_send fr qu Let_def)
  qed
qed

lemma stopped_complete:
  assumes o: "stopped (q, R)" and k: "well_kept (q, R)" and t: "R t = Some r" "t \<in> set (outstanding q)"
  shows "stopped (complete_token cfg r t q, R(t := None))"
proof (cases "if queuing cfg then channel_of (proxyId (pCI r)) else None")
  case None
  then show ?thesis using o at_work_done[OF well_keptD(1)[OF k]] by (simp add: complete_token_def stopped_def)
next
  case (Some c)
  define i where "i = (if socket_id r = 0 then 0 else 1 :: nat)"
  have ne: "\<not> (c = Proxy1 \<and> i = 0)"
  proof
    assume "c = Proxy1 \<and> i = 0"
    then have "t \<in> set (at_work R q Proxy1 0)" using t Some by (auto simp: at_work_def here_def i_def split: if_splits)
    then show False using o by (simp add: stopped_def)
  qed
  have e: "complete_token cfg r t q = (serve c i q)\<lparr>outstanding := remove1 t (outstanding (serve c i q))\<rparr>"
    using Some by (simp add: complete_token_def Let_def i_def)
  have "stopped (serve c i q, R)"
  proof (cases "waiting q c i")
    case Nil
    then show ?thesis using o ne by (auto simp: serve_def stopped_def)
  next
    case (Cons u us)
    then have "\<not> here R Proxy1 0 u" using here_one[OF well_keptD(6)[OF k, of u c i], of Proxy1 0] ne by auto
    then show ?thesis using o ne Cons by (auto simp: serve_def stopped_def at_work_def)
  qed
  then show ?thesis unfolding e using at_work_done[OF well_keptD(1)[OF kept_serve[OF k]]] by (simp add: stopped_def)
qed

lemma stopped_step:
  "chan_step cfg op x y \<Longrightarrow> stopped x \<Longrightarrow> well_kept x \<Longrightarrow> no_raw op \<Longrightarrow> queuing cfg \<Longrightarrow> stopped y"
proof (induction rule: chan_step.induct)
  case (given_up R t r i request n d q)
  then show ?case using kept_fresh by (simp add: stopped_def at_work_fresh)
next
  case (handed R t r i request n d q)
  then show ?case using stopped_hand_over by simp
next
  case (acked R t r r' q)
  then have "here (R(t \<mapsto> r')) c i u = here R c i u" for c i u using here_same by metis
  then have "here (R(t \<mapsto> r')) = here R" by (simp add: fun_eq_iff)
  then show ?case using acked by (simp add: stopped_def at_work_def)
next
  case (completed R t r q)
  then show ?case using stopped_complete by simp
qed simp

text \<open>\<open>RADIO_POWER\<close> of the second slot, sent while the channel of the first is idle, takes that channel.\<close>

lemma radio_power_stops:
  assumes st: "chan_step cfg (Dispatch n 1 RIL_REQUEST_RADIO_POWER d) (q, R) y" and o: "outstanding (fst y) \<noteq> outstanding q"
    and d: "\<not> is_raw d" and qu: "queuing cfg" and k: "well_kept (q, R)"
    and idle: "\<not> taken q Proxy1 0" "at_work R q Proxy1 0 = []"
  shows "stopped y"
  using st
proof (cases rule: chan_step.cases)
  case (handed t r)
  have p: "channel_of (proxyId (pCI r)) = Some Proxy1" "socket_id r = 1"
    using handed(3) command_23 by (auto simp: made_for_def RIL_REQUEST_RADIO_POWER_def channel_of_def dest: sym)
  have e: "hand_over cfg True RIL_REQUEST_RADIO_POWER r t q = send_token t (take_channel Proxy1 0 True q)"
    by (simp add: hand_over_def qu p idle(1) Let_def)
  have "at_work (R(t \<mapsto> r)) q Proxy1 0 = []" using idle(2) kept_fresh[OF k handed(2)] by (simp add: at_work_fresh)
  then show ?thesis using d p(2) handed(1) e by (simp add: stopped_def at_work_send here_def)
qed (use o in auto)

section \<open>Runs that are computed\<close>

fun ril_exec :: "config \<Rightarrow> (nat \<Rightarrow> nat) \<Rightarrow> nat \<Rightarrow> ril_op list \<Rightarrow> rst \<Rightarrow> rst option" where
  "ril_exec cfg dev loc [] s = Some s"
| "ril_exec cfg dev loc (op # ops) s =
     (if allowed op s then do { s1 \<leftarrow> ril_op_step cfg dev loc op s; ril_exec cfg dev loc ops s1 } else None)"

lemma exec_run:
  "ril_exec cfg dev loc ops s = Some s' \<Longrightarrow> ril_run cfg dev loc s0 ops0 s \<Longrightarrow> ril_run cfg dev loc s0 (ops0 @ ops) s'"
proof (induction ops arbitrary: s ops0)
  case (Cons op ops)
  then obtain s1 where "allowed op s" "ril_op_step cfg dev loc op s = Some s1" "ril_exec cfg dev loc ops s1 = Some s'"
    by (auto simp: bind_eq_Some_conv split: if_splits)
  then show ?case using Cons.IH[of s1 "ops0 @ [op]"] ril_run.step[OF Cons.prems(2)] by simp
qed simp

lemma exec_two:
  "ril_op_step cfg dev loc op s = Some s1 \<Longrightarrow> ril_op_step cfg dev loc op' s1 = Some s2
    \<Longrightarrow> allowed op s \<Longrightarrow> allowed op' s1 \<Longrightarrow> ril_exec cfg dev loc [op, op'] s = Some s2"
  by simp

lemma exec_first:
  "ril_op_step cfg dev loc op s = Some s1 \<Longrightarrow> ril_exec cfg dev loc ops s1 = Some s2 \<Longrightarrow> allowed op s
    \<Longrightarrow> ril_exec cfg dev loc (op # ops) s = Some s2"
  by simp

lemma exec_stopped:
  "ril_exec cfg dev loc ops s = Some s' \<Longrightarrow> ril_run cfg dev loc (ril_start ch) ops0 s \<Longrightarrow> \<forall>a. ch a \<noteq> loc
    \<Longrightarrow> stopped (chan_view s) \<Longrightarrow> \<forall>op \<in> set ops. no_raw op \<Longrightarrow> queuing cfg \<Longrightarrow> stopped (chan_view s')"
proof (induction ops arbitrary: s ops0)
  case (Cons op ops)
  then obtain s1 where s1: "allowed op s" "ril_op_step cfg dev loc op s = Some s1" "ril_exec cfg dev loc ops s1 = Some s'"
    by (auto simp: bind_eq_Some_conv split: if_splits)
  note r = Cons.prems(2) and i = inv_run[OF Cons.prems(2,3)]
  have "stopped (chan_view s1)"
    using stopped_step[OF op_step_refines[OF s1(2,1) i] Cons.prems(4) kept_run[OF run_refines_channels[OF r Cons.prems(3)]]]
      Cons.prems(5,6) by simp
  then show ?case using Cons.IH[OF s1(3) ril_run.step[OF r s1(1,2)] Cons.prems(3)] Cons.prems(5,6) by simp
qed simp

lemmas exec_start = exec_run[OF _ ril_run.start, simplified]

text \<open>Some states of concrete runs.\<close>

definition cmd_power :: command_info where
  "cmd_power = CommandInfo 23 (Some ''setRadioPowerResponse'') RIL_CMD_PROXY_1"
definition cmd_card :: command_info where
  "cmd_card = CommandInfo 1 (Some ''getIccCardStatusResponse'') RIL_CMD_PROXY_1"

definition mkreq :: "command_info \<Rightarrow> int \<Rightarrow> nat \<Rightarrow> request_info" where
  "mkreq ci n i = \<lparr>ri_token = n, pCI = ci, ri_local = False, cancelled = False, wasAckSent = False, socket_id = i,
     ri_cid = proxyId ci + (if 0 < i then RIL_CHANNEL_OFFSET else 0)\<rparr>"


definition sent_one :: rst where
  "sent_one = (ril_start (\<lambda>n. n + 2))\<lparr>mem := \<lparr>cells = [2 \<mapsto> (Heap, Obj)], allocs = 1, chooser = (\<lambda>n. n + 2)\<rparr>,
     reqs := [2 \<mapsto> mkreq cmd_card 7 0], s_pending := (\<lambda>_. [])(0 := [2]),
     busy := (\<lambda>_ _. False)(Proxy1 := (\<lambda>_. False)(0 := True)),
     with_vendor := [2], revents := [OnRequest 1 VNull 0 2 0]\<rparr>"

lemma sent_one_step: "ril_op_step cfg_queues (\<lambda>i. 0) 1 (Dispatch 7 0 1 DVoid) (ril_start (\<lambda>n. n + 2)) = Some sent_one"
  by (simp add: run_simps sent_one_def mkreq_def cmd_card_def numeral_2_eq_2)
lemma second_waits: "\<exists>s. ril_op_step cfg_queues (\<lambda>i. 0) 1 (Dispatch 8 0 1 DVoid) sent_one = Some s \<and>
   with_vendor s = [2] \<and> map pRI (proxyCmd s Proxy1 0) = [3]"
  by (simp add: run_simps sent_one_def mkreq_def cmd_card_def)
lemma one_completes: "\<exists>s. ril_op_step cfg_queues (\<lambda>i. 0) 1 (Complete 2 0 0 0) sent_one = Some s"
  by (simp add: run_simps sent_one_def mkreq_def cmd_card_def)

definition power_sent :: rst where
  "power_sent = (ril_start (\<lambda>n. n + 2))\<lparr>mem := \<lparr>cells = [2 \<mapsto> (Heap, Obj), 3 \<mapsto> (Heap, Words [0])],
                allocs = 2, chooser = (\<lambda>n. n + 2)\<rparr>,
     reqs := [2 \<mapsto> mkreq cmd_power 7 1], s_pending := (\<lambda>_. [])(1 := [2]),
     busy := (\<lambda>_ _. False)(Proxy1 := (\<lambda>_. False)(0 := True)),
     with_vendor := [2], revents := [OnRequest 23 (VInts [1]) 4 2 1]\<rparr>"

definition power_done :: rst where
  "power_done = power_sent\<lparr>mem := \<lparr>cells = [3 \<mapsto> (Heap, Words [0])], allocs = 2, chooser = (\<lambda>n. n + 2)\<rparr>,
     reqs := (\<lambda>_. None), s_pending := (\<lambda>_. []),
     with_vendor := [], revents := [OnRequest 23 (VInts [1]) 4 2 1, Answer 1 0 7 0 0 0]\<rparr>"

lemma power_sent_step: "ril_op_step cfg_queues (\<lambda>i. 0) 1 (Dispatch 7 1 RIL_REQUEST_RADIO_POWER (DInts [1]))
    (ril_start (\<lambda>n. n + 2)) = Some power_sent"
  by (simp add: run_simps power_sent_def mkreq_def cmd_power_def numeral_2_eq_2 numeral_3_eq_3)
lemma power_done_step: "ril_op_step cfg_queues (\<lambda>i. 0) 1 (Complete 2 0 0 0) power_sent = Some power_done"
  by (simp add: run_simps power_sent_def power_done_def mkreq_def cmd_power_def fun_eq_iff)
lemma next_waits: "\<exists>s. ril_op_step cfg_queues (\<lambda>i. 0) 1 (Dispatch 8 0 1 DVoid) power_done = Some s
     \<and> with_vendor s = [] \<and> length (proxyCmd s Proxy1 0) = 1"
  by (simp add: run_simps power_sent_def power_done_def mkreq_def cmd_power_def)

section \<open>Properties\<close>

text \<open>
  C2: The calls of the service and of the library refine the machine of channels: whatever they are, the
  tokens with the library, those that wait in the order they came, the flags and the requests known
  change as \<open>hand_over\<close>, \<open>serve\<close> and \<open>complete_token\<close> say, whichever buffers are made, copied and freed,
  and a request that cannot be made or copied changes none of them.
\<close>

theorem requests_refine_channels:
  assumes "ril_run cfg dev loc (ril_start ch) ops s" "\<forall>n. ch n \<noteq> loc"
  shows "chan_run cfg chan_start ops (chan_view s)"
  by (rule run_refines_channels[OF assms])

theorem requests_refine_channels_witness:
  "\<exists>s. ril_run cfg_queues (\<lambda>i. 0) 1 (ril_start (\<lambda>n. n + 2)) [Dispatch 7 0 1 DVoid, Complete 2 0 0 0] s
     \<and> chan_run cfg_queues chan_start [Dispatch 7 0 1 DVoid, Complete 2 0 0 0] (chan_view s)"
proof -
  obtain s where s: "ril_op_step cfg_queues (\<lambda>i. 0) 1 (Complete 2 0 0 0) sent_one = Some s" using one_completes by (elim exE)
  have r: "ril_run cfg_queues (\<lambda>i. 0) 1 (ril_start (\<lambda>n. n + 2)) [Dispatch 7 0 1 DVoid, Complete 2 0 0 0] s"
    by (rule exec_start[OF exec_two[OF sent_one_step s]]) (simp_all add: sent_one_def)
  have "chan_run cfg_queues chan_start [Dispatch 7 0 1 DVoid, Complete 2 0 0 0] (chan_view s)"
    by (rule requests_refine_channels[OF r]) simp
  then show ?thesis by (intro exI[of _ s] conjI r)
qed

text \<open>
  C3: With channels that queue, as long as no raw request and no \<open>RADIO_POWER\<close> of the second slot comes,
  the library has at most one request of each channel and slot, the flag tells whether it has one,
  requests wait only behind such a one, each once and on its own channel.
\<close>

theorem one_request_at_a_time:
  assumes r: "ril_run cfg dev loc (ril_start ch) ops s" "\<forall>n. ch n \<noteq> loc" and qu: "queuing cfg"
    and p: "\<forall>op \<in> set ops. waits_properly op"
  shows "length (filter (here (reqs s) c i) (with_vendor s)) = (if busy s c i then 1 else 0)
    \<and> (proxyCmd s c i \<noteq> [] \<longrightarrow> busy s c i)
    \<and> distinct (map pRI (proxyCmd s c i)) \<and> list_all (here (reqs s) c i) (map pRI (proxyCmd s c i))"
proof -
  have x: "chan_run cfg chan_start ops (channels s, reqs s)" using run_refines_channels[OF r] by (simp add: chan_view_def)
  note o = one_run[OF x p qu] and k = kept_run[OF x]
  have "distinct (map pRI (proxyCmd s c i))" using well_keptD(4)[OF k, of c i] by (simp add: channels_def)
  moreover have "list_all (here (reqs s) c i) (map pRI (proxyCmd s c i))"
    using well_keptD(6)[OF k, of _ c i] by (auto simp: channels_def list_all_iff)
  ultimately show ?thesis using o by (simp add: one_each_def at_work_def channels_def)
qed

theorem one_request_at_a_time_witness:
  "\<exists>s. ril_run cfg_queues (\<lambda>i. 0) 1 (ril_start (\<lambda>n. n + 2)) [Dispatch 7 0 1 DVoid, Dispatch 8 0 1 DVoid] s
     \<and> with_vendor s = [2] \<and> map pRI (proxyCmd s Proxy1 0) = [3]
     \<and> length (filter (here (reqs s) Proxy1 0) (with_vendor s)) = (if busy s Proxy1 0 then 1 else 0)"
proof -
  obtain s where s: "ril_op_step cfg_queues (\<lambda>i. 0) 1 (Dispatch 8 0 1 DVoid) sent_one = Some s"
      "with_vendor s = [2]" "map pRI (proxyCmd s Proxy1 0) = [3]"
    using second_waits by (elim exE conjE, intro that)
  have r: "ril_run cfg_queues (\<lambda>i. 0) 1 (ril_start (\<lambda>n. n + 2)) [Dispatch 7 0 1 DVoid, Dispatch 8 0 1 DVoid] s"
    by (rule exec_start[OF exec_two[OF sent_one_step s(1)]]) (simp_all add: sent_one_def)
  have "length (filter (here (reqs s) Proxy1 0) (with_vendor s)) = (if busy s Proxy1 0 then 1 else 0)"
    by (rule one_request_at_a_time[OF r, THEN conjunct1]) (simp_all add: cfg_queues_def RIL_REQUEST_RADIO_POWER_def)
  then show ?thesis by (intro exI[of _ s] conjI r s(2,3))
qed

text \<open>
  C37: \<open>my_enqueue\<close> takes the flag of the first slot for the \<open>RADIO_POWER\<close> of any slot, and only a request
  of the first slot gives it back.  Whatever was called before: if the library has no request of the first
  slot of \<open>Proxy1\<close> and its flag is free when a \<open>RADIO_POWER\<close> of the second slot is sent to the library,
  then in every later state the flag is set and the library has no such request, so that none of them is
  ever served, whichever requests (none of them raw), acknowledgements and answers follow.
\<close>

theorem radio_power_stops_first_slot:
  assumes r: "ril_run cfg dev loc (ril_start ch) ops0 s0" "\<forall>a. ch a \<noteq> loc"
    and idle: "\<not> busy s0 Proxy1 0" "filter (here (reqs s0) Proxy1 0) (with_vendor s0) = []"
    and st: "ril_op_step cfg dev loc (Dispatch n 1 RIL_REQUEST_RADIO_POWER d) s0 = Some s1"
      "allowed (Dispatch n 1 RIL_REQUEST_RADIO_POWER d) s0" "with_vendor s1 \<noteq> with_vendor s0"
    and later: "ril_exec cfg dev loc ops s1 = Some s" "\<forall>op \<in> set ops. no_raw op"
    and qu: "queuing cfg" and d: "\<not> is_raw d"
  shows "busy s Proxy1 0 \<and> filter (here (reqs s) Proxy1 0) (with_vendor s) = []"
proof -
  note k = kept_run[OF run_refines_channels[OF r]] and c = op_step_refines[OF st(1,2) inv_run[OF r]]
  have "stopped (chan_view s1)"
    using radio_power_stops[OF c[unfolded chan_view_def] _ d qu k[unfolded chan_view_def]] idle st(3)
    by (simp add: chan_view_def at_work_def channels_def)
  then have "stopped (chan_view s)"
    using exec_stopped[OF later(1) ril_run.step[OF r(1) st(2,1)] r(2)] later(2) qu by simp
  then show ?thesis by (simp add: chan_view_def stopped_def at_work_def channels_def)
qed

theorem radio_power_stops_first_slot_witness:
  "\<exists>s. ril_run cfg_queues (\<lambda>i. 0) 1 (ril_start (\<lambda>n. n + 2))
        ([Dispatch 7 1 RIL_REQUEST_RADIO_POWER (DInts [1]), Complete 2 0 0 0] @ [Dispatch 8 0 1 DVoid]) s
     \<and> busy s Proxy1 0 \<and> with_vendor s = [] \<and> length (proxyCmd s Proxy1 0) = 1"
proof -
  obtain s where s: "ril_op_step cfg_queues (\<lambda>i. 0) 1 (Dispatch 8 0 1 DVoid) power_done = Some s"
      "with_vendor s = []" "length (proxyCmd s Proxy1 0) = 1"
    using next_waits by (elim exE conjE, intro that)
  have e: "ril_exec cfg_queues (\<lambda>i. 0) 1 [Complete 2 0 0 0, Dispatch 8 0 1 DVoid] power_sent = Some s"
    by (rule exec_two[OF power_done_step s(1)]) (simp_all add: power_sent_def)
  then have r: "ril_run cfg_queues (\<lambda>i. 0) 1 (ril_start (\<lambda>n. n + 2))
      ([Dispatch 7 1 RIL_REQUEST_RADIO_POWER (DInts [1]), Complete 2 0 0 0] @ [Dispatch 8 0 1 DVoid]) s"
    using exec_start[OF exec_first[OF power_sent_step]] by simp
  have "busy s Proxy1 0"
    by (rule radio_power_stops_first_slot[OF ril_run.start _ _ _ power_sent_step _ _ e, THEN conjunct1])
      (simp_all add: cfg_queues_def ril_start_def power_sent_def)
  then show ?thesis by (intro exI[of _ s] conjI r s(2,3))
qed

end
