(* ===== verification/Ril_Numbers.thy ===== *)
theory Ril_Numbers
  imports Ril_Requests
begin

text \<open>
  The numbers of the requests that the methods of the radio service make (\<open>ril.h\<close>, \<open>mtk_ril.h\<close>).
\<close>

definition RIL_REQUEST_GET_SIM_STATUS :: int where "RIL_REQUEST_GET_SIM_STATUS = 1"
definition RIL_REQUEST_ENTER_SIM_PIN :: int where "RIL_REQUEST_ENTER_SIM_PIN = 2"
definition RIL_REQUEST_ENTER_SIM_PUK :: int where "RIL_REQUEST_ENTER_SIM_PUK = 3"
definition RIL_REQUEST_ENTER_SIM_PIN2 :: int where "RIL_REQUEST_ENTER_SIM_PIN2 = 4"
definition RIL_REQUEST_ENTER_SIM_PUK2 :: int where "RIL_REQUEST_ENTER_SIM_PUK2 = 5"
definition RIL_REQUEST_CHANGE_SIM_PIN :: int where "RIL_REQUEST_CHANGE_SIM_PIN = 6"
definition RIL_REQUEST_CHANGE_SIM_PIN2 :: int where "RIL_REQUEST_CHANGE_SIM_PIN2 = 7"
definition RIL_REQUEST_ENTER_NETWORK_DEPERSONALIZATION :: int where "RIL_REQUEST_ENTER_NETWORK_DEPERSONALIZATION = 8"
definition RIL_REQUEST_GET_CURRENT_CALLS :: int where "RIL_REQUEST_GET_CURRENT_CALLS = 9"
definition RIL_REQUEST_DIAL :: int where "RIL_REQUEST_DIAL = 10"
definition RIL_REQUEST_GET_IMSI :: int where "RIL_REQUEST_GET_IMSI = 11"
definition RIL_REQUEST_HANGUP :: int where "RIL_REQUEST_HANGUP = 12"
definition RIL_REQUEST_HANGUP_WAITING_OR_BACKGROUND :: int where "RIL_REQUEST_HANGUP_WAITING_OR_BACKGROUND = 13"
definition RIL_REQUEST_HANGUP_FOREGROUND_RESUME_BACKGROUND :: int where "RIL_REQUEST_HANGUP_FOREGROUND_RESUME_BACKGROUND = 14"
definition RIL_REQUEST_SWITCH_WAITING_OR_HOLDING_AND_ACTIVE :: int where "RIL_REQUEST_SWITCH_WAITING_OR_HOLDING_AND_ACTIVE = 15"
definition RIL_REQUEST_CONFERENCE :: int where "RIL_REQUEST_CONFERENCE = 16"
definition RIL_REQUEST_UDUB :: int where "RIL_REQUEST_UDUB = 17"
definition RIL_REQUEST_LAST_CALL_FAIL_CAUSE :: int where "RIL_REQUEST_LAST_CALL_FAIL_CAUSE = 18"
definition RIL_REQUEST_SIGNAL_STRENGTH :: int where "RIL_REQUEST_SIGNAL_STRENGTH = 19"
definition RIL_REQUEST_VOICE_REGISTRATION_STATE :: int where "RIL_REQUEST_VOICE_REGISTRATION_STATE = 20"
definition RIL_REQUEST_DATA_REGISTRATION_STATE :: int where "RIL_REQUEST_DATA_REGISTRATION_STATE = 21"
definition RIL_REQUEST_OPERATOR :: int where "RIL_REQUEST_OPERATOR = 22"
definition RIL_REQUEST_DTMF :: int where "RIL_REQUEST_DTMF = 24"
definition RIL_REQUEST_SEND_SMS :: int where "RIL_REQUEST_SEND_SMS = 25"
definition RIL_REQUEST_SEND_SMS_EXPECT_MORE :: int where "RIL_REQUEST_SEND_SMS_EXPECT_MORE = 26"
definition RIL_REQUEST_SETUP_DATA_CALL :: int where "RIL_REQUEST_SETUP_DATA_CALL = 27"
definition RIL_REQUEST_SIM_IO :: int where "RIL_REQUEST_SIM_IO = 28"
definition RIL_REQUEST_SEND_USSD :: int where "RIL_REQUEST_SEND_USSD = 29"
definition RIL_REQUEST_CANCEL_USSD :: int where "RIL_REQUEST_CANCEL_USSD = 30"
definition RIL_REQUEST_GET_CLIR :: int where "RIL_REQUEST_GET_CLIR = 31"
definition RIL_REQUEST_SET_CLIR :: int where "RIL_REQUEST_SET_CLIR = 32"
definition RIL_REQUEST_QUERY_CALL_FORWARD_STATUS :: int where "RIL_REQUEST_QUERY_CALL_FORWARD_STATUS = 33"
definition RIL_REQUEST_SET_CALL_FORWARD :: int where "RIL_REQUEST_SET_CALL_FORWARD = 34"
definition RIL_REQUEST_QUERY_CALL_WAITING :: int where "RIL_REQUEST_QUERY_CALL_WAITING = 35"
definition RIL_REQUEST_SET_CALL_WAITING :: int where "RIL_REQUEST_SET_CALL_WAITING = 36"
definition RIL_REQUEST_SMS_ACKNOWLEDGE :: int where "RIL_REQUEST_SMS_ACKNOWLEDGE = 37"
definition RIL_REQUEST_ANSWER :: int where "RIL_REQUEST_ANSWER = 40"
definition RIL_REQUEST_DEACTIVATE_DATA_CALL :: int where "RIL_REQUEST_DEACTIVATE_DATA_CALL = 41"
definition RIL_REQUEST_QUERY_FACILITY_LOCK :: int where "RIL_REQUEST_QUERY_FACILITY_LOCK = 42"
definition RIL_REQUEST_SET_FACILITY_LOCK :: int where "RIL_REQUEST_SET_FACILITY_LOCK = 43"
definition RIL_REQUEST_CHANGE_BARRING_PASSWORD :: int where "RIL_REQUEST_CHANGE_BARRING_PASSWORD = 44"
definition RIL_REQUEST_QUERY_NETWORK_SELECTION_MODE :: int where "RIL_REQUEST_QUERY_NETWORK_SELECTION_MODE = 45"
definition RIL_REQUEST_SET_NETWORK_SELECTION_AUTOMATIC :: int where "RIL_REQUEST_SET_NETWORK_SELECTION_AUTOMATIC = 46"
definition RIL_REQUEST_SET_NETWORK_SELECTION_MANUAL :: int where "RIL_REQUEST_SET_NETWORK_SELECTION_MANUAL = 47"
definition RIL_REQUEST_QUERY_AVAILABLE_NETWORKS :: int where "RIL_REQUEST_QUERY_AVAILABLE_NETWORKS = 48"
definition RIL_REQUEST_DTMF_START :: int where "RIL_REQUEST_DTMF_START = 49"
definition RIL_REQUEST_DTMF_STOP :: int where "RIL_REQUEST_DTMF_STOP = 50"
definition RIL_REQUEST_BASEBAND_VERSION :: int where "RIL_REQUEST_BASEBAND_VERSION = 51"
definition RIL_REQUEST_SEPARATE_CONNECTION :: int where "RIL_REQUEST_SEPARATE_CONNECTION = 52"
definition RIL_REQUEST_SET_MUTE :: int where "RIL_REQUEST_SET_MUTE = 53"
definition RIL_REQUEST_GET_MUTE :: int where "RIL_REQUEST_GET_MUTE = 54"
definition RIL_REQUEST_QUERY_CLIP :: int where "RIL_REQUEST_QUERY_CLIP = 55"
definition RIL_REQUEST_DATA_CALL_LIST :: int where "RIL_REQUEST_DATA_CALL_LIST = 57"
definition RIL_REQUEST_OEM_HOOK_RAW :: int where "RIL_REQUEST_OEM_HOOK_RAW = 59"
definition RIL_REQUEST_OEM_HOOK_STRINGS :: int where "RIL_REQUEST_OEM_HOOK_STRINGS = 60"
definition RIL_REQUEST_SCREEN_STATE :: int where "RIL_REQUEST_SCREEN_STATE = 61"
definition RIL_REQUEST_SET_SUPP_SVC_NOTIFICATION :: int where "RIL_REQUEST_SET_SUPP_SVC_NOTIFICATION = 62"
definition RIL_REQUEST_WRITE_SMS_TO_SIM :: int where "RIL_REQUEST_WRITE_SMS_TO_SIM = 63"
definition RIL_REQUEST_DELETE_SMS_ON_SIM :: int where "RIL_REQUEST_DELETE_SMS_ON_SIM = 64"
definition RIL_REQUEST_SET_BAND_MODE :: int where "RIL_REQUEST_SET_BAND_MODE = 65"
definition RIL_REQUEST_QUERY_AVAILABLE_BAND_MODE :: int where "RIL_REQUEST_QUERY_AVAILABLE_BAND_MODE = 66"
definition RIL_REQUEST_STK_SEND_ENVELOPE_COMMAND :: int where "RIL_REQUEST_STK_SEND_ENVELOPE_COMMAND = 69"
definition RIL_REQUEST_STK_SEND_TERMINAL_RESPONSE :: int where "RIL_REQUEST_STK_SEND_TERMINAL_RESPONSE = 70"
definition RIL_REQUEST_STK_HANDLE_CALL_SETUP_REQUESTED_FROM_SIM :: int where "RIL_REQUEST_STK_HANDLE_CALL_SETUP_REQUESTED_FROM_SIM = 71"
definition RIL_REQUEST_EXPLICIT_CALL_TRANSFER :: int where "RIL_REQUEST_EXPLICIT_CALL_TRANSFER = 72"
definition RIL_REQUEST_SET_PREFERRED_NETWORK_TYPE :: int where "RIL_REQUEST_SET_PREFERRED_NETWORK_TYPE = 73"
definition RIL_REQUEST_GET_PREFERRED_NETWORK_TYPE :: int where "RIL_REQUEST_GET_PREFERRED_NETWORK_TYPE = 74"
definition RIL_REQUEST_GET_NEIGHBORING_CELL_IDS :: int where "RIL_REQUEST_GET_NEIGHBORING_CELL_IDS = 75"
definition RIL_REQUEST_SET_LOCATION_UPDATES :: int where "RIL_REQUEST_SET_LOCATION_UPDATES = 76"
definition RIL_REQUEST_CDMA_SET_SUBSCRIPTION_SOURCE :: int where "RIL_REQUEST_CDMA_SET_SUBSCRIPTION_SOURCE = 77"
definition RIL_REQUEST_CDMA_SET_ROAMING_PREFERENCE :: int where "RIL_REQUEST_CDMA_SET_ROAMING_PREFERENCE = 78"
definition RIL_REQUEST_CDMA_QUERY_ROAMING_PREFERENCE :: int where "RIL_REQUEST_CDMA_QUERY_ROAMING_PREFERENCE = 79"
definition RIL_REQUEST_SET_TTY_MODE :: int where "RIL_REQUEST_SET_TTY_MODE = 80"
definition RIL_REQUEST_QUERY_TTY_MODE :: int where "RIL_REQUEST_QUERY_TTY_MODE = 81"
definition RIL_REQUEST_CDMA_SET_PREFERRED_VOICE_PRIVACY_MODE :: int where "RIL_REQUEST_CDMA_SET_PREFERRED_VOICE_PRIVACY_MODE = 82"
definition RIL_REQUEST_CDMA_QUERY_PREFERRED_VOICE_PRIVACY_MODE :: int where "RIL_REQUEST_CDMA_QUERY_PREFERRED_VOICE_PRIVACY_MODE = 83"
definition RIL_REQUEST_CDMA_FLASH :: int where "RIL_REQUEST_CDMA_FLASH = 84"
definition RIL_REQUEST_CDMA_BURST_DTMF :: int where "RIL_REQUEST_CDMA_BURST_DTMF = 85"
definition RIL_REQUEST_GSM_GET_BROADCAST_SMS_CONFIG :: int where "RIL_REQUEST_GSM_GET_BROADCAST_SMS_CONFIG = 89"
definition RIL_REQUEST_GSM_SMS_BROADCAST_ACTIVATION :: int where "RIL_REQUEST_GSM_SMS_BROADCAST_ACTIVATION = 91"
definition RIL_REQUEST_CDMA_GET_BROADCAST_SMS_CONFIG :: int where "RIL_REQUEST_CDMA_GET_BROADCAST_SMS_CONFIG = 92"
definition RIL_REQUEST_CDMA_SMS_BROADCAST_ACTIVATION :: int where "RIL_REQUEST_CDMA_SMS_BROADCAST_ACTIVATION = 94"
definition RIL_REQUEST_CDMA_SUBSCRIPTION :: int where "RIL_REQUEST_CDMA_SUBSCRIPTION = 95"
definition RIL_REQUEST_CDMA_DELETE_SMS_ON_RUIM :: int where "RIL_REQUEST_CDMA_DELETE_SMS_ON_RUIM = 97"
definition RIL_REQUEST_EXIT_EMERGENCY_CALLBACK_MODE :: int where "RIL_REQUEST_EXIT_EMERGENCY_CALLBACK_MODE = 99"
definition RIL_REQUEST_GET_SMSC_ADDRESS :: int where "RIL_REQUEST_GET_SMSC_ADDRESS = 100"
definition RIL_REQUEST_SET_SMSC_ADDRESS :: int where "RIL_REQUEST_SET_SMSC_ADDRESS = 101"
definition RIL_REQUEST_REPORT_SMS_MEMORY_STATUS :: int where "RIL_REQUEST_REPORT_SMS_MEMORY_STATUS = 102"
definition RIL_REQUEST_REPORT_STK_SERVICE_IS_RUNNING :: int where "RIL_REQUEST_REPORT_STK_SERVICE_IS_RUNNING = 103"
definition RIL_REQUEST_CDMA_GET_SUBSCRIPTION_SOURCE :: int where "RIL_REQUEST_CDMA_GET_SUBSCRIPTION_SOURCE = 104"
definition RIL_REQUEST_ISIM_AUTHENTICATION :: int where "RIL_REQUEST_ISIM_AUTHENTICATION = 105"
definition RIL_REQUEST_ACKNOWLEDGE_INCOMING_GSM_SMS_WITH_PDU :: int where "RIL_REQUEST_ACKNOWLEDGE_INCOMING_GSM_SMS_WITH_PDU = 106"
definition RIL_REQUEST_STK_SEND_ENVELOPE_WITH_STATUS :: int where "RIL_REQUEST_STK_SEND_ENVELOPE_WITH_STATUS = 107"
definition RIL_REQUEST_VOICE_RADIO_TECH :: int where "RIL_REQUEST_VOICE_RADIO_TECH = 108"
definition RIL_REQUEST_GET_CELL_INFO_LIST :: int where "RIL_REQUEST_GET_CELL_INFO_LIST = 109"
definition RIL_REQUEST_SET_UNSOL_CELL_INFO_LIST_RATE :: int where "RIL_REQUEST_SET_UNSOL_CELL_INFO_LIST_RATE = 110"
definition RIL_REQUEST_SET_INITIAL_ATTACH_APN :: int where "RIL_REQUEST_SET_INITIAL_ATTACH_APN = 111"
definition RIL_REQUEST_IMS_REGISTRATION_STATE :: int where "RIL_REQUEST_IMS_REGISTRATION_STATE = 112"
definition RIL_REQUEST_SIM_TRANSMIT_APDU_BASIC :: int where "RIL_REQUEST_SIM_TRANSMIT_APDU_BASIC = 114"
definition RIL_REQUEST_SIM_OPEN_CHANNEL :: int where "RIL_REQUEST_SIM_OPEN_CHANNEL = 115"
definition RIL_REQUEST_SIM_CLOSE_CHANNEL :: int where "RIL_REQUEST_SIM_CLOSE_CHANNEL = 116"
definition RIL_REQUEST_SIM_TRANSMIT_APDU_CHANNEL :: int where "RIL_REQUEST_SIM_TRANSMIT_APDU_CHANNEL = 117"
definition RIL_REQUEST_NV_READ_ITEM :: int where "RIL_REQUEST_NV_READ_ITEM = 118"
definition RIL_REQUEST_NV_WRITE_ITEM :: int where "RIL_REQUEST_NV_WRITE_ITEM = 119"
definition RIL_REQUEST_NV_WRITE_CDMA_PRL :: int where "RIL_REQUEST_NV_WRITE_CDMA_PRL = 120"
definition RIL_REQUEST_NV_RESET_CONFIG :: int where "RIL_REQUEST_NV_RESET_CONFIG = 121"
definition RIL_REQUEST_SET_UICC_SUBSCRIPTION :: int where "RIL_REQUEST_SET_UICC_SUBSCRIPTION = 122"
definition RIL_REQUEST_ALLOW_DATA :: int where "RIL_REQUEST_ALLOW_DATA = 123"
definition RIL_REQUEST_GET_HARDWARE_CONFIG :: int where "RIL_REQUEST_GET_HARDWARE_CONFIG = 124"
definition RIL_REQUEST_SIM_AUTHENTICATION :: int where "RIL_REQUEST_SIM_AUTHENTICATION = 125"
definition RIL_REQUEST_SHUTDOWN :: int where "RIL_REQUEST_SHUTDOWN = 129"
definition RIL_REQUEST_GET_RADIO_CAPABILITY :: int where "RIL_REQUEST_GET_RADIO_CAPABILITY = 130"
definition RIL_REQUEST_SET_RADIO_CAPABILITY :: int where "RIL_REQUEST_SET_RADIO_CAPABILITY = 131"
definition RIL_REQUEST_START_LCE :: int where "RIL_REQUEST_START_LCE = 132"
definition RIL_REQUEST_STOP_LCE :: int where "RIL_REQUEST_STOP_LCE = 133"
definition RIL_REQUEST_PULL_LCEDATA :: int where "RIL_REQUEST_PULL_LCEDATA = 134"
definition RIL_REQUEST_GET_ACTIVITY_INFO :: int where "RIL_REQUEST_GET_ACTIVITY_INFO = 135"
definition RIL_REQUEST_GET_CARRIER_RESTRICTIONS :: int where "RIL_REQUEST_GET_CARRIER_RESTRICTIONS = 137"
definition RIL_REQUEST_SEND_DEVICE_STATE :: int where "RIL_REQUEST_SEND_DEVICE_STATE = 138"
definition RIL_REQUEST_SET_UNSOLICITED_RESPONSE_FILTER :: int where "RIL_REQUEST_SET_UNSOLICITED_RESPONSE_FILTER = 139"
definition RIL_REQUEST_STOP_NETWORK_SCAN :: int where "RIL_REQUEST_STOP_NETWORK_SCAN = 143"
definition RIL_REQUEST_MODEM_POWEROFF :: int where "RIL_REQUEST_MODEM_POWEROFF = RIL_REQUEST_VENDOR_BASE + 10"
definition RIL_REQUEST_MODEM_POWERON :: int where "RIL_REQUEST_MODEM_POWERON = RIL_REQUEST_VENDOR_BASE + 28"
definition RIL_REQUEST_RESUME_REGISTRATION :: int where "RIL_REQUEST_RESUME_REGISTRATION = RIL_REQUEST_VENDOR_BASE + 65"
definition RIL_REQUEST_SET_CALL_INDICATION :: int where "RIL_REQUEST_SET_CALL_INDICATION = RIL_REQUEST_VENDOR_BASE + 86"

lemmas request_numbers = RIL_REQUEST_GET_SIM_STATUS_def RIL_REQUEST_ENTER_SIM_PIN_def RIL_REQUEST_ENTER_SIM_PUK_def
  RIL_REQUEST_ENTER_SIM_PIN2_def RIL_REQUEST_ENTER_SIM_PUK2_def RIL_REQUEST_CHANGE_SIM_PIN_def
  RIL_REQUEST_CHANGE_SIM_PIN2_def RIL_REQUEST_ENTER_NETWORK_DEPERSONALIZATION_def RIL_REQUEST_GET_CURRENT_CALLS_def
  RIL_REQUEST_DIAL_def RIL_REQUEST_GET_IMSI_def RIL_REQUEST_HANGUP_def RIL_REQUEST_HANGUP_WAITING_OR_BACKGROUND_def
  RIL_REQUEST_HANGUP_FOREGROUND_RESUME_BACKGROUND_def RIL_REQUEST_SWITCH_WAITING_OR_HOLDING_AND_ACTIVE_def
  RIL_REQUEST_CONFERENCE_def RIL_REQUEST_UDUB_def RIL_REQUEST_LAST_CALL_FAIL_CAUSE_def
  RIL_REQUEST_SIGNAL_STRENGTH_def RIL_REQUEST_VOICE_REGISTRATION_STATE_def RIL_REQUEST_DATA_REGISTRATION_STATE_def
  RIL_REQUEST_OPERATOR_def RIL_REQUEST_DTMF_def RIL_REQUEST_SEND_SMS_def RIL_REQUEST_SEND_SMS_EXPECT_MORE_def
  RIL_REQUEST_SETUP_DATA_CALL_def RIL_REQUEST_SIM_IO_def RIL_REQUEST_SEND_USSD_def RIL_REQUEST_CANCEL_USSD_def
  RIL_REQUEST_GET_CLIR_def RIL_REQUEST_SET_CLIR_def RIL_REQUEST_QUERY_CALL_FORWARD_STATUS_def
  RIL_REQUEST_SET_CALL_FORWARD_def RIL_REQUEST_QUERY_CALL_WAITING_def RIL_REQUEST_SET_CALL_WAITING_def
  RIL_REQUEST_SMS_ACKNOWLEDGE_def RIL_REQUEST_ANSWER_def RIL_REQUEST_DEACTIVATE_DATA_CALL_def
  RIL_REQUEST_QUERY_FACILITY_LOCK_def RIL_REQUEST_SET_FACILITY_LOCK_def RIL_REQUEST_CHANGE_BARRING_PASSWORD_def
  RIL_REQUEST_QUERY_NETWORK_SELECTION_MODE_def RIL_REQUEST_SET_NETWORK_SELECTION_AUTOMATIC_def
  RIL_REQUEST_SET_NETWORK_SELECTION_MANUAL_def RIL_REQUEST_QUERY_AVAILABLE_NETWORKS_def RIL_REQUEST_DTMF_START_def
  RIL_REQUEST_DTMF_STOP_def RIL_REQUEST_BASEBAND_VERSION_def RIL_REQUEST_SEPARATE_CONNECTION_def
  RIL_REQUEST_SET_MUTE_def RIL_REQUEST_GET_MUTE_def RIL_REQUEST_QUERY_CLIP_def RIL_REQUEST_DATA_CALL_LIST_def
  RIL_REQUEST_OEM_HOOK_RAW_def RIL_REQUEST_OEM_HOOK_STRINGS_def RIL_REQUEST_SCREEN_STATE_def
  RIL_REQUEST_SET_SUPP_SVC_NOTIFICATION_def RIL_REQUEST_WRITE_SMS_TO_SIM_def RIL_REQUEST_DELETE_SMS_ON_SIM_def
  RIL_REQUEST_SET_BAND_MODE_def RIL_REQUEST_QUERY_AVAILABLE_BAND_MODE_def RIL_REQUEST_STK_SEND_ENVELOPE_COMMAND_def
  RIL_REQUEST_STK_SEND_TERMINAL_RESPONSE_def RIL_REQUEST_STK_HANDLE_CALL_SETUP_REQUESTED_FROM_SIM_def
  RIL_REQUEST_EXPLICIT_CALL_TRANSFER_def RIL_REQUEST_SET_PREFERRED_NETWORK_TYPE_def
  RIL_REQUEST_GET_PREFERRED_NETWORK_TYPE_def RIL_REQUEST_GET_NEIGHBORING_CELL_IDS_def
  RIL_REQUEST_SET_LOCATION_UPDATES_def RIL_REQUEST_CDMA_SET_SUBSCRIPTION_SOURCE_def
  RIL_REQUEST_CDMA_SET_ROAMING_PREFERENCE_def RIL_REQUEST_CDMA_QUERY_ROAMING_PREFERENCE_def
  RIL_REQUEST_SET_TTY_MODE_def RIL_REQUEST_QUERY_TTY_MODE_def RIL_REQUEST_CDMA_SET_PREFERRED_VOICE_PRIVACY_MODE_def
  RIL_REQUEST_CDMA_QUERY_PREFERRED_VOICE_PRIVACY_MODE_def RIL_REQUEST_CDMA_FLASH_def
  RIL_REQUEST_CDMA_BURST_DTMF_def RIL_REQUEST_GSM_GET_BROADCAST_SMS_CONFIG_def
  RIL_REQUEST_GSM_SMS_BROADCAST_ACTIVATION_def RIL_REQUEST_CDMA_GET_BROADCAST_SMS_CONFIG_def
  RIL_REQUEST_CDMA_SMS_BROADCAST_ACTIVATION_def RIL_REQUEST_CDMA_SUBSCRIPTION_def
  RIL_REQUEST_CDMA_DELETE_SMS_ON_RUIM_def RIL_REQUEST_EXIT_EMERGENCY_CALLBACK_MODE_def
  RIL_REQUEST_GET_SMSC_ADDRESS_def RIL_REQUEST_SET_SMSC_ADDRESS_def RIL_REQUEST_REPORT_SMS_MEMORY_STATUS_def
  RIL_REQUEST_REPORT_STK_SERVICE_IS_RUNNING_def RIL_REQUEST_CDMA_GET_SUBSCRIPTION_SOURCE_def
  RIL_REQUEST_ISIM_AUTHENTICATION_def RIL_REQUEST_ACKNOWLEDGE_INCOMING_GSM_SMS_WITH_PDU_def
  RIL_REQUEST_STK_SEND_ENVELOPE_WITH_STATUS_def RIL_REQUEST_VOICE_RADIO_TECH_def RIL_REQUEST_GET_CELL_INFO_LIST_def
  RIL_REQUEST_SET_UNSOL_CELL_INFO_LIST_RATE_def RIL_REQUEST_SET_INITIAL_ATTACH_APN_def
  RIL_REQUEST_IMS_REGISTRATION_STATE_def RIL_REQUEST_SIM_TRANSMIT_APDU_BASIC_def RIL_REQUEST_SIM_OPEN_CHANNEL_def
  RIL_REQUEST_SIM_CLOSE_CHANNEL_def RIL_REQUEST_SIM_TRANSMIT_APDU_CHANNEL_def RIL_REQUEST_NV_READ_ITEM_def
  RIL_REQUEST_NV_WRITE_ITEM_def RIL_REQUEST_NV_WRITE_CDMA_PRL_def RIL_REQUEST_NV_RESET_CONFIG_def
  RIL_REQUEST_SET_UICC_SUBSCRIPTION_def RIL_REQUEST_ALLOW_DATA_def RIL_REQUEST_GET_HARDWARE_CONFIG_def
  RIL_REQUEST_SIM_AUTHENTICATION_def RIL_REQUEST_SHUTDOWN_def RIL_REQUEST_GET_RADIO_CAPABILITY_def
  RIL_REQUEST_SET_RADIO_CAPABILITY_def RIL_REQUEST_START_LCE_def RIL_REQUEST_STOP_LCE_def
  RIL_REQUEST_PULL_LCEDATA_def RIL_REQUEST_GET_ACTIVITY_INFO_def RIL_REQUEST_GET_CARRIER_RESTRICTIONS_def
  RIL_REQUEST_SEND_DEVICE_STATE_def RIL_REQUEST_SET_UNSOLICITED_RESPONSE_FILTER_def
  RIL_REQUEST_STOP_NETWORK_SCAN_def RIL_REQUEST_MODEM_POWEROFF_def RIL_REQUEST_MODEM_POWERON_def
  RIL_REQUEST_RESUME_REGISTRATION_def RIL_REQUEST_SET_CALL_INDICATION_def RIL_REQUEST_DEVICE_IDENTITY_def
  RIL_REQUEST_GET_IMEI_def RIL_REQUEST_GET_IMEISV_def RIL_REQUEST_RADIO_POWER_def RIL_REQUEST_VENDOR_BASE_def

end
