(* ===== verification/Ril_Methods.thy ===== *)
theory Ril_Methods
  imports Ril_Numbers C_Text
begin

text \<open>
  The methods of the radio service (\<open>ril_service.cpp\<close>, \<open>RadioImpl\<close> and \<open>OemHookImpl\<close>) as the requests they
  make: serial number, number of the request and what is dispatched.  Enumerations of the interface are
  their numbers; \<open>mtk\<close> is \<open>MTK_HARDWARE\<close>, \<open>version\<close> that of the vendor's functions.
\<close>

section \<open>Requests\<close>

datatype svc_call = Call (call_serial: int) (call_request: int) (call_data: request_data)

definition c_str :: "string \<Rightarrow> string" where
  "c_str s = takeWhile (\<lambda>c. c \<noteq> CHR 0x00) s"

definition BOOL_TO_INT :: "bool \<Rightarrow> int" where
  "BOOL_TO_INT b = (if b then 1 else 0)"

definition one_zero :: "bool \<Rightarrow> string" where
  "one_zero b = (if b then ''1'' else ''0'')"

definition not_supported :: "int \<Rightarrow> int \<Rightarrow> svc_call" where
  "not_supported serial request = Call serial request (DRefuse RIL_E_REQUEST_NOT_SUPPORTED True)"

definition RIL_E_INVALID_ARGUMENTS :: int where "RIL_E_INVALID_ARGUMENTS = 44"

text \<open>The structures of the interface.\<close>

record gsm_sms =
  smscPdu :: string
  pdu :: string

record call_forward_info =
  fw_status :: int
  fw_reason :: int
  fw_serviceClass :: int
  fw_toa :: int
  fw_number :: string
  fw_timeSeconds :: int

definition forward_data :: "call_forward_info \<Rightarrow> request_data" where
  "forward_data i =
     DCallForward (fw_status i) (fw_reason i) (fw_serviceClass i) (fw_toa i) (fw_number i) (fw_timeSeconds i)"

record sim_apdu =
  sessionId :: int
  apdu_cla :: int
  apdu_instruction :: int
  apdu_p1 :: int
  apdu_p2 :: int
  apdu_p3 :: int
  apdu_text :: string

definition apdu_data :: "sim_apdu \<Rightarrow> request_data" where
  "apdu_data m =
     DIccApdu (sessionId m) (apdu_cla m) (apdu_instruction m) (apdu_p1 m) (apdu_p2 m) (apdu_p3 m) (apdu_text m)"

record dial_info =
  dial_address :: string
  dial_clir :: int
  dial_uus :: "(int \<times> int \<times> string) option"

record icc_io =
  io_command :: int
  io_fileId :: int
  io_path :: string
  io_p1 :: int
  io_p2 :: int
  io_p3 :: int
  io_data :: string
  io_pin2 :: string
  io_aid :: string

record sms_write_args =
  sms_status :: int
  sms_pdu :: string
  sms_smsc :: string

record select_uicc_sub =
  uicc_slot :: int
  appIndex :: int
  subType :: int
  actStatus :: int

record radio_capability =
  rc_session :: int
  rc_phase :: int
  rc_raf :: int
  rc_uuid :: string
  rc_status :: int

datatype mvno_type = MVNO_NONE | MVNO_IMSI | MVNO_GID | MVNO_SPN | MVNO_OTHER int

record data_profile =
  profileId :: int
  dp_apn :: string
  dp_protocol :: string
  roamingProtocol :: string
  authType :: int
  dp_user :: string
  dp_password :: string
  supportedApnTypesBitmap :: int
  bearerBitmap :: int
  dp_mtu :: int
  mvnoType :: mvno_type
  mvnoMatchData :: string

section \<open>Methods that make one request\<close>

definition getIccCardStatus :: "int \<Rightarrow> svc_call list" where
  "getIccCardStatus serial = [Call serial RIL_REQUEST_GET_SIM_STATUS DVoid]"

definition supplyIccPinForApp :: "int \<Rightarrow> string \<Rightarrow> string \<Rightarrow> svc_call list" where
  "supplyIccPinForApp serial pin aid = [Call serial RIL_REQUEST_ENTER_SIM_PIN (DStrings [c_str pin, c_str aid])]"

definition supplyIccPukForApp :: "int \<Rightarrow> string \<Rightarrow> string
      \<Rightarrow> string \<Rightarrow> svc_call list" where
  "supplyIccPukForApp serial puk pin aid = [Call serial RIL_REQUEST_ENTER_SIM_PUK (DStrings [c_str puk,
      c_str pin, c_str aid])]"

definition supplyIccPin2ForApp :: "int \<Rightarrow> string \<Rightarrow> string \<Rightarrow> svc_call list" where
  "supplyIccPin2ForApp serial pin2 aid = [Call serial RIL_REQUEST_ENTER_SIM_PIN2 (DStrings [c_str pin2, c_str aid])]"

definition supplyIccPuk2ForApp :: "int \<Rightarrow> string \<Rightarrow> string
      \<Rightarrow> string \<Rightarrow> svc_call list" where
  "supplyIccPuk2ForApp serial puk2 pin2 aid = [Call serial RIL_REQUEST_ENTER_SIM_PUK2 (DStrings [c_str puk2,
      c_str pin2, c_str aid])]"

definition changeIccPinForApp :: "int \<Rightarrow> string \<Rightarrow> string
      \<Rightarrow> string \<Rightarrow> svc_call list" where
  "changeIccPinForApp serial oldPin newPin aid = [Call serial RIL_REQUEST_CHANGE_SIM_PIN (DStrings [c_str
      oldPin, c_str newPin, c_str aid])]"

definition changeIccPin2ForApp :: "int \<Rightarrow> string \<Rightarrow> string
      \<Rightarrow> string \<Rightarrow> svc_call list" where
  "changeIccPin2ForApp serial oldPin2 newPin2 aid = [Call serial RIL_REQUEST_CHANGE_SIM_PIN2 (DStrings [c_str
      oldPin2, c_str newPin2, c_str aid])]"

definition supplyNetworkDepersonalization :: "int \<Rightarrow> string \<Rightarrow> svc_call list" where
  "supplyNetworkDepersonalization serial netPin = [Call serial RIL_REQUEST_ENTER_NETWORK_DEPERSONALIZATION
      (DStrings [c_str netPin])]"

definition getCurrentCalls :: "int \<Rightarrow> svc_call list" where
  "getCurrentCalls serial = [Call serial RIL_REQUEST_GET_CURRENT_CALLS DVoid]"

definition getImsiForApp :: "int \<Rightarrow> string \<Rightarrow> svc_call list" where
  "getImsiForApp serial aid = [Call serial RIL_REQUEST_GET_IMSI (DStrings [c_str aid])]"

definition hangup :: "int \<Rightarrow> int \<Rightarrow> svc_call list" where
  "hangup serial gsmIndex = [Call serial RIL_REQUEST_HANGUP (DInts [gsmIndex])]"

definition hangupWaitingOrBackground :: "int \<Rightarrow> svc_call list" where
  "hangupWaitingOrBackground serial = [Call serial RIL_REQUEST_HANGUP_WAITING_OR_BACKGROUND DVoid]"

definition hangupForegroundResumeBackground :: "int \<Rightarrow> svc_call list" where
  "hangupForegroundResumeBackground serial = [Call serial RIL_REQUEST_HANGUP_FOREGROUND_RESUME_BACKGROUND DVoid]"

definition switchWaitingOrHoldingAndActive :: "int \<Rightarrow> svc_call list" where
  "switchWaitingOrHoldingAndActive serial = [Call serial RIL_REQUEST_SWITCH_WAITING_OR_HOLDING_AND_ACTIVE DVoid]"

definition conference :: "int \<Rightarrow> svc_call list" where
  "conference serial = [Call serial RIL_REQUEST_CONFERENCE DVoid]"

definition rejectCall :: "int \<Rightarrow> svc_call list" where
  "rejectCall serial = [Call serial RIL_REQUEST_UDUB DVoid]"

definition getLastCallFailCause :: "int \<Rightarrow> svc_call list" where
  "getLastCallFailCause serial = [Call serial RIL_REQUEST_LAST_CALL_FAIL_CAUSE DVoid]"

definition getVoiceRegistrationState :: "int \<Rightarrow> svc_call list" where
  "getVoiceRegistrationState serial = [Call serial RIL_REQUEST_VOICE_REGISTRATION_STATE DVoid]"

definition getDataRegistrationState :: "int \<Rightarrow> svc_call list" where
  "getDataRegistrationState serial = [Call serial RIL_REQUEST_DATA_REGISTRATION_STATE DVoid]"

definition getOperator :: "int \<Rightarrow> svc_call list" where
  "getOperator serial = [Call serial RIL_REQUEST_OPERATOR DVoid]"

definition setRadioPower :: "int \<Rightarrow> bool \<Rightarrow> svc_call list" where
  "setRadioPower serial on = [Call serial RIL_REQUEST_RADIO_POWER (DInts [BOOL_TO_INT on])]"

definition sendDtmf :: "int \<Rightarrow> string \<Rightarrow> svc_call list" where
  "sendDtmf serial txt = [Call serial RIL_REQUEST_DTMF (DString (c_str txt))]"

definition sendSms :: "int \<Rightarrow> gsm_sms \<Rightarrow> svc_call list" where
  "sendSms serial message = [Call serial RIL_REQUEST_SEND_SMS (DStrings [c_str (smscPdu message),
      c_str (pdu message)])]"

definition sendSMSExpectMore :: "int \<Rightarrow> gsm_sms \<Rightarrow> svc_call list" where
  "sendSMSExpectMore serial message = [Call serial RIL_REQUEST_SEND_SMS_EXPECT_MORE (DStrings [c_str (smscPdu
      message), c_str (pdu message)])]"

definition sendUssd :: "int \<Rightarrow> string \<Rightarrow> svc_call list" where
  "sendUssd serial ussd = [Call serial RIL_REQUEST_SEND_USSD (DString (c_str ussd))]"

definition cancelPendingUssd :: "int \<Rightarrow> svc_call list" where
  "cancelPendingUssd serial = [Call serial RIL_REQUEST_CANCEL_USSD DVoid]"

definition getClir :: "int \<Rightarrow> svc_call list" where
  "getClir serial = [Call serial RIL_REQUEST_GET_CLIR DVoid]"

definition setClir :: "int \<Rightarrow> int \<Rightarrow> svc_call list" where
  "setClir serial status = [Call serial RIL_REQUEST_SET_CLIR (DInts [status])]"

definition getCallForwardStatus :: "int \<Rightarrow> call_forward_info \<Rightarrow> svc_call list" where
  "getCallForwardStatus serial callInfo = [Call serial RIL_REQUEST_QUERY_CALL_FORWARD_STATUS (forward_data callInfo)]"

definition setCallForward :: "int \<Rightarrow> call_forward_info \<Rightarrow> svc_call list" where
  "setCallForward serial callInfo = [Call serial RIL_REQUEST_SET_CALL_FORWARD (forward_data callInfo)]"

definition getCallWaiting :: "int \<Rightarrow> int \<Rightarrow> svc_call list" where
  "getCallWaiting serial serviceClass = [Call serial RIL_REQUEST_QUERY_CALL_WAITING (DInts [serviceClass])]"

definition setCallWaiting :: "int \<Rightarrow> bool \<Rightarrow> int \<Rightarrow> svc_call list" where
  "setCallWaiting serial enable serviceClass = [Call serial RIL_REQUEST_SET_CALL_WAITING (DInts [BOOL_TO_INT
      enable, serviceClass])]"

definition acknowledgeLastIncomingGsmSms :: "int \<Rightarrow> bool \<Rightarrow> int
      \<Rightarrow> svc_call list" where
  "acknowledgeLastIncomingGsmSms serial success cause = [Call serial RIL_REQUEST_SMS_ACKNOWLEDGE (DInts
      [BOOL_TO_INT success, cause])]"

definition acceptCall :: "int \<Rightarrow> svc_call list" where
  "acceptCall serial = [Call serial RIL_REQUEST_ANSWER DVoid]"

definition getFacilityLockForApp :: "int \<Rightarrow> string \<Rightarrow> string
      \<Rightarrow> int \<Rightarrow> string \<Rightarrow> svc_call list" where
  "getFacilityLockForApp serial facility password serviceClass appId = [Call serial
      RIL_REQUEST_QUERY_FACILITY_LOCK (DStrings [c_str facility, c_str password, show_int serviceClass,
      c_str appId])]"

definition setFacilityLockForApp :: "int \<Rightarrow> string \<Rightarrow> bool
      \<Rightarrow> string \<Rightarrow> int \<Rightarrow> string \<Rightarrow> svc_call list" where
  "setFacilityLockForApp serial facility lockState password serviceClass appId = [Call serial
      RIL_REQUEST_SET_FACILITY_LOCK (DStrings [c_str facility, one_zero lockState, c_str password,
      show_int serviceClass, c_str appId])]"

definition setBarringPassword :: "int \<Rightarrow> string \<Rightarrow> string
      \<Rightarrow> string \<Rightarrow> svc_call list" where
  "setBarringPassword serial facility oldPassword newPassword = [Call serial
      RIL_REQUEST_CHANGE_BARRING_PASSWORD (DStrings [c_str oldPassword, c_str newPassword])]"

definition getNetworkSelectionMode :: "int \<Rightarrow> svc_call list" where
  "getNetworkSelectionMode serial = [Call serial RIL_REQUEST_QUERY_NETWORK_SELECTION_MODE DVoid]"

definition setNetworkSelectionModeAutomatic :: "int \<Rightarrow> svc_call list" where
  "setNetworkSelectionModeAutomatic serial = [Call serial RIL_REQUEST_SET_NETWORK_SELECTION_AUTOMATIC DVoid]"

definition setNetworkSelectionModeManual :: "int \<Rightarrow> string \<Rightarrow> svc_call list" where
  "setNetworkSelectionModeManual serial operatorNumeric = [Call serial RIL_REQUEST_SET_NETWORK_SELECTION_MANUAL
      (DString (c_str operatorNumeric))]"

definition getAvailableNetworks :: "int \<Rightarrow> svc_call list" where
  "getAvailableNetworks serial = [Call serial RIL_REQUEST_QUERY_AVAILABLE_NETWORKS DVoid]"

definition stopNetworkScan :: "int \<Rightarrow> svc_call list" where
  "stopNetworkScan serial = [Call serial RIL_REQUEST_STOP_NETWORK_SCAN DVoid]"

definition startDtmf :: "int \<Rightarrow> string \<Rightarrow> svc_call list" where
  "startDtmf serial txt = [Call serial RIL_REQUEST_DTMF_START (DString (c_str txt))]"

definition stopDtmf :: "int \<Rightarrow> svc_call list" where
  "stopDtmf serial = [Call serial RIL_REQUEST_DTMF_STOP DVoid]"

definition getBasebandVersion :: "int \<Rightarrow> svc_call list" where
  "getBasebandVersion serial = [Call serial RIL_REQUEST_BASEBAND_VERSION DVoid]"

definition separateConnection :: "int \<Rightarrow> int \<Rightarrow> svc_call list" where
  "separateConnection serial gsmIndex = [Call serial RIL_REQUEST_SEPARATE_CONNECTION (DInts [gsmIndex])]"

definition setMute :: "int \<Rightarrow> bool \<Rightarrow> svc_call list" where
  "setMute serial enable = [Call serial RIL_REQUEST_SET_MUTE (DInts [BOOL_TO_INT enable])]"

definition getMute :: "int \<Rightarrow> svc_call list" where
  "getMute serial = [Call serial RIL_REQUEST_GET_MUTE DVoid]"

definition getClip :: "int \<Rightarrow> svc_call list" where
  "getClip serial = [Call serial RIL_REQUEST_QUERY_CLIP DVoid]"

definition getDataCallList :: "int \<Rightarrow> svc_call list" where
  "getDataCallList serial = [Call serial RIL_REQUEST_DATA_CALL_LIST DVoid]"

definition setSuppServiceNotifications :: "int \<Rightarrow> bool \<Rightarrow> svc_call list" where
  "setSuppServiceNotifications serial enable = [Call serial RIL_REQUEST_SET_SUPP_SVC_NOTIFICATION (DInts
      [BOOL_TO_INT enable])]"

definition deleteSmsOnSim :: "int \<Rightarrow> int \<Rightarrow> svc_call list" where
  "deleteSmsOnSim serial indx = [Call serial RIL_REQUEST_DELETE_SMS_ON_SIM (DInts [indx])]"

definition setBandMode :: "int \<Rightarrow> int \<Rightarrow> svc_call list" where
  "setBandMode serial mode = [Call serial RIL_REQUEST_SET_BAND_MODE (DInts [mode])]"

definition getAvailableBandModes :: "int \<Rightarrow> svc_call list" where
  "getAvailableBandModes serial = [Call serial RIL_REQUEST_QUERY_AVAILABLE_BAND_MODE DVoid]"

definition sendEnvelope :: "int \<Rightarrow> string \<Rightarrow> svc_call list" where
  "sendEnvelope serial command = [Call serial RIL_REQUEST_STK_SEND_ENVELOPE_COMMAND (DString (c_str command))]"

definition sendTerminalResponseToSim :: "int \<Rightarrow> string \<Rightarrow> svc_call list" where
  "sendTerminalResponseToSim serial commandResponse = [Call serial RIL_REQUEST_STK_SEND_TERMINAL_RESPONSE
      (DString (c_str commandResponse))]"

definition handleStkCallSetupRequestFromSim :: "int \<Rightarrow> bool \<Rightarrow> svc_call list" where
  "handleStkCallSetupRequestFromSim serial accept = [Call serial
      RIL_REQUEST_STK_HANDLE_CALL_SETUP_REQUESTED_FROM_SIM (DInts [BOOL_TO_INT accept])]"

definition explicitCallTransfer :: "int \<Rightarrow> svc_call list" where
  "explicitCallTransfer serial = [Call serial RIL_REQUEST_EXPLICIT_CALL_TRANSFER DVoid]"

definition setPreferredNetworkType :: "int \<Rightarrow> int \<Rightarrow> svc_call list" where
  "setPreferredNetworkType serial nwType = [Call serial RIL_REQUEST_SET_PREFERRED_NETWORK_TYPE (DInts [nwType])]"

definition getPreferredNetworkType :: "int \<Rightarrow> svc_call list" where
  "getPreferredNetworkType serial = [Call serial RIL_REQUEST_GET_PREFERRED_NETWORK_TYPE DVoid]"

definition getNeighboringCids :: "int \<Rightarrow> svc_call list" where
  "getNeighboringCids serial = [Call serial RIL_REQUEST_GET_NEIGHBORING_CELL_IDS DVoid]"

definition setLocationUpdates :: "int \<Rightarrow> bool \<Rightarrow> svc_call list" where
  "setLocationUpdates serial enable = [Call serial RIL_REQUEST_SET_LOCATION_UPDATES (DInts [BOOL_TO_INT enable])]"

definition setCdmaSubscriptionSource :: "int \<Rightarrow> int \<Rightarrow> svc_call list" where
  "setCdmaSubscriptionSource serial cdmaSub = [Call serial RIL_REQUEST_CDMA_SET_SUBSCRIPTION_SOURCE (DInts
      [cdmaSub])]"

definition setCdmaRoamingPreference :: "int \<Rightarrow> int \<Rightarrow> svc_call list" where
  "setCdmaRoamingPreference serial type = [Call serial RIL_REQUEST_CDMA_SET_ROAMING_PREFERENCE (DInts [type])]"

definition getCdmaRoamingPreference :: "int \<Rightarrow> svc_call list" where
  "getCdmaRoamingPreference serial = [Call serial RIL_REQUEST_CDMA_QUERY_ROAMING_PREFERENCE DVoid]"

definition setTTYMode :: "int \<Rightarrow> int \<Rightarrow> svc_call list" where
  "setTTYMode serial mode = [Call serial RIL_REQUEST_SET_TTY_MODE (DInts [mode])]"

definition setPreferredVoicePrivacy :: "int \<Rightarrow> bool \<Rightarrow> svc_call list" where
  "setPreferredVoicePrivacy serial enable = [Call serial RIL_REQUEST_CDMA_SET_PREFERRED_VOICE_PRIVACY_MODE
      (DInts [BOOL_TO_INT enable])]"

definition getPreferredVoicePrivacy :: "int \<Rightarrow> svc_call list" where
  "getPreferredVoicePrivacy serial = [Call serial RIL_REQUEST_CDMA_QUERY_PREFERRED_VOICE_PRIVACY_MODE DVoid]"

definition sendCDMAFeatureCode :: "int \<Rightarrow> string \<Rightarrow> svc_call list" where
  "sendCDMAFeatureCode serial featureCode = [Call serial RIL_REQUEST_CDMA_FLASH (DString (c_str featureCode))]"

definition sendBurstDtmf :: "int \<Rightarrow> string \<Rightarrow> int \<Rightarrow> int
      \<Rightarrow> svc_call list" where
  "sendBurstDtmf serial dtmf on off_ms = [Call serial RIL_REQUEST_CDMA_BURST_DTMF (DStrings [c_str dtmf,
      show_int on, show_int off_ms])]"

definition getGsmBroadcastConfig :: "int \<Rightarrow> svc_call list" where
  "getGsmBroadcastConfig serial = [Call serial RIL_REQUEST_GSM_GET_BROADCAST_SMS_CONFIG DVoid]"

definition setGsmBroadcastActivation :: "int \<Rightarrow> bool \<Rightarrow> svc_call list" where
  "setGsmBroadcastActivation serial activate = [Call serial RIL_REQUEST_GSM_SMS_BROADCAST_ACTIVATION (DInts
      [BOOL_TO_INT (\<not> activate)])]"

definition getCdmaBroadcastConfig :: "int \<Rightarrow> svc_call list" where
  "getCdmaBroadcastConfig serial = [Call serial RIL_REQUEST_CDMA_GET_BROADCAST_SMS_CONFIG DVoid]"

definition setCdmaBroadcastActivation :: "int \<Rightarrow> bool \<Rightarrow> svc_call list" where
  "setCdmaBroadcastActivation serial activate = [Call serial RIL_REQUEST_CDMA_SMS_BROADCAST_ACTIVATION (DInts
      [BOOL_TO_INT (\<not> activate)])]"

definition getCDMASubscription :: "int \<Rightarrow> svc_call list" where
  "getCDMASubscription serial = [Call serial RIL_REQUEST_CDMA_SUBSCRIPTION DVoid]"

definition deleteSmsOnRuim :: "int \<Rightarrow> int \<Rightarrow> svc_call list" where
  "deleteSmsOnRuim serial indx = [Call serial RIL_REQUEST_CDMA_DELETE_SMS_ON_RUIM (DInts [indx])]"

definition exitEmergencyCallbackMode :: "int \<Rightarrow> svc_call list" where
  "exitEmergencyCallbackMode serial = [Call serial RIL_REQUEST_EXIT_EMERGENCY_CALLBACK_MODE DVoid]"

definition getSmscAddress :: "int \<Rightarrow> svc_call list" where
  "getSmscAddress serial = [Call serial RIL_REQUEST_GET_SMSC_ADDRESS DVoid]"

definition setSmscAddress :: "int \<Rightarrow> string \<Rightarrow> svc_call list" where
  "setSmscAddress serial smsc = [Call serial RIL_REQUEST_SET_SMSC_ADDRESS (DString (c_str smsc))]"

definition reportSmsMemoryStatus :: "int \<Rightarrow> bool \<Rightarrow> svc_call list" where
  "reportSmsMemoryStatus serial available = [Call serial RIL_REQUEST_REPORT_SMS_MEMORY_STATUS (DInts
      [BOOL_TO_INT available])]"

definition reportStkServiceIsRunning :: "int \<Rightarrow> svc_call list" where
  "reportStkServiceIsRunning serial = [Call serial RIL_REQUEST_REPORT_STK_SERVICE_IS_RUNNING DVoid]"

definition requestIsimAuthentication :: "int \<Rightarrow> string \<Rightarrow> svc_call list" where
  "requestIsimAuthentication serial challenge = [Call serial RIL_REQUEST_ISIM_AUTHENTICATION (DString (c_str
      challenge))]"

definition acknowledgeIncomingGsmSmsWithPdu :: "int \<Rightarrow> bool \<Rightarrow> string
      \<Rightarrow> svc_call list" where
  "acknowledgeIncomingGsmSmsWithPdu serial success ackPdu = [Call serial
      RIL_REQUEST_ACKNOWLEDGE_INCOMING_GSM_SMS_WITH_PDU (DStrings [one_zero success, c_str ackPdu])]"

definition sendEnvelopeWithStatus :: "int \<Rightarrow> string \<Rightarrow> svc_call list" where
  "sendEnvelopeWithStatus serial contents = [Call serial RIL_REQUEST_STK_SEND_ENVELOPE_WITH_STATUS (DString
      (c_str contents))]"

definition getVoiceRadioTechnology :: "int \<Rightarrow> svc_call list" where
  "getVoiceRadioTechnology serial = [Call serial RIL_REQUEST_VOICE_RADIO_TECH DVoid]"

definition getCellInfoList :: "int \<Rightarrow> svc_call list" where
  "getCellInfoList serial = [Call serial RIL_REQUEST_GET_CELL_INFO_LIST DVoid]"

definition setCellInfoListRate :: "int \<Rightarrow> int \<Rightarrow> svc_call list" where
  "setCellInfoListRate serial rate = [Call serial RIL_REQUEST_SET_UNSOL_CELL_INFO_LIST_RATE (DInts [rate])]"

definition getImsRegistrationState :: "int \<Rightarrow> svc_call list" where
  "getImsRegistrationState serial = [Call serial RIL_REQUEST_IMS_REGISTRATION_STATE DVoid]"

definition iccTransmitApduBasicChannel :: "int \<Rightarrow> sim_apdu \<Rightarrow> svc_call list" where
  "iccTransmitApduBasicChannel serial message = [Call serial RIL_REQUEST_SIM_TRANSMIT_APDU_BASIC (apdu_data message)]"

definition iccCloseLogicalChannel :: "int \<Rightarrow> int \<Rightarrow> svc_call list" where
  "iccCloseLogicalChannel serial channelId = [Call serial RIL_REQUEST_SIM_CLOSE_CHANNEL (DInts [channelId])]"

definition iccTransmitApduLogicalChannel :: "int \<Rightarrow> sim_apdu \<Rightarrow> svc_call list" where
  "iccTransmitApduLogicalChannel serial message = [Call serial RIL_REQUEST_SIM_TRANSMIT_APDU_CHANNEL (apdu_data
      message)]"

definition nvWriteCdmaPrl :: "int \<Rightarrow> string \<Rightarrow> svc_call list" where
  "nvWriteCdmaPrl serial prl = [Call serial RIL_REQUEST_NV_WRITE_CDMA_PRL (DRaw prl)]"

definition setDataAllowed :: "int \<Rightarrow> bool \<Rightarrow> svc_call list" where
  "setDataAllowed serial allow = [Call serial RIL_REQUEST_ALLOW_DATA (DInts [BOOL_TO_INT allow])]"

definition requestShutdown :: "int \<Rightarrow> svc_call list" where
  "requestShutdown serial = [Call serial RIL_REQUEST_SHUTDOWN DVoid]"

definition getRadioCapability :: "int \<Rightarrow> svc_call list" where
  "getRadioCapability serial = [Call serial RIL_REQUEST_GET_RADIO_CAPABILITY DVoid]"

definition stopLceService :: "int \<Rightarrow> svc_call list" where
  "stopLceService serial = [Call serial RIL_REQUEST_STOP_LCE DVoid]"

definition pullLceData :: "int \<Rightarrow> svc_call list" where
  "pullLceData serial = [Call serial RIL_REQUEST_PULL_LCEDATA DVoid]"

definition getModemActivityInfo :: "int \<Rightarrow> svc_call list" where
  "getModemActivityInfo serial = [Call serial RIL_REQUEST_GET_ACTIVITY_INFO DVoid]"

definition getAllowedCarriers :: "int \<Rightarrow> svc_call list" where
  "getAllowedCarriers serial = [Call serial RIL_REQUEST_GET_CARRIER_RESTRICTIONS DVoid]"

definition sendRequestRaw :: "int \<Rightarrow> string \<Rightarrow> svc_call list" where
  "sendRequestRaw serial data = [Call serial RIL_REQUEST_OEM_HOOK_RAW (DRaw data)]"

definition sendRequestStrings :: "int \<Rightarrow> string list \<Rightarrow> svc_call list" where
  "sendRequestStrings serial data = [Call serial RIL_REQUEST_OEM_HOOK_STRINGS (DStrings data)]"

section \<open>Methods with a choice or a structure\<close>

definition dial :: "int \<Rightarrow> dial_info \<Rightarrow> svc_call list" where
  "dial serial dialInfo =
     (let base = [(''clir'', dial_clir dialInfo)]; addr = [(''address'', dial_address dialInfo)]
      in [Call serial RIL_REQUEST_DIAL
           (case dial_uus dialInfo of
              None \<Rightarrow> DStruct base addr FMT_IGNORE 24
            | Some (ty, dcs, dat) \<Rightarrow>
                DStruct (base @ [(''uusType'', ty), (''uusDcs'', dcs), (''uusLength'', int (length dat))])
                  (addr @ [(''uusData'', dat)]) FMT_IGNORE 24)])"

definition getSignalStrength :: "bool \<Rightarrow> int \<Rightarrow> svc_call list" where
  "getSignalStrength mtk serial =
     (if mtk then [not_supported serial RIL_REQUEST_SIGNAL_STRENGTH]
      else [Call serial RIL_REQUEST_SIGNAL_STRENGTH DVoid])"

definition getTTYMode :: "bool \<Rightarrow> int \<Rightarrow> svc_call list" where
  "getTTYMode mtk serial =
     (if mtk then [not_supported serial RIL_REQUEST_QUERY_TTY_MODE]
      else [Call serial RIL_REQUEST_QUERY_TTY_MODE DVoid])"

definition getCdmaSubscriptionSource :: "int \<Rightarrow> svc_call list" where
  "getCdmaSubscriptionSource serial = [not_supported serial RIL_REQUEST_CDMA_GET_SUBSCRIPTION_SOURCE]"

definition iccOpenLogicalChannel :: "int \<Rightarrow> string \<Rightarrow> int \<Rightarrow> svc_call list" where
  "iccOpenLogicalChannel serial aid p2 = [not_supported serial RIL_REQUEST_SIM_OPEN_CHANNEL]"

definition getHardwareConfig :: "int \<Rightarrow> svc_call list" where
  "getHardwareConfig serial = [not_supported serial RIL_REQUEST_GET_HARDWARE_CONFIG]"

definition startLceService :: "int \<Rightarrow> int \<Rightarrow> bool \<Rightarrow> svc_call list" where
  "startLceService serial reportInterval pullMode = [not_supported serial RIL_REQUEST_START_LCE]"

definition convertMvnoTypeToString :: "mvno_type \<Rightarrow> string option" where
  "convertMvnoTypeToString ty =
     (case ty of MVNO_IMSI \<Rightarrow> Some ''imsi'' | MVNO_GID \<Rightarrow> Some ''gid'' | MVNO_SPN \<Rightarrow> Some ''spn'' | MVNO_NONE \<Rightarrow> Some ''''
      | MVNO_OTHER n \<Rightarrow> None)"

text \<open>The number of the interface for a new call: one more than the first free place of four, else 0.\<close>

definition free_interface :: "int list \<Rightarrow> int" where
  "free_interface cids =
     (let i = length (takeWhile (\<lambda>c. c \<noteq> -1) (take 4 cids)) in if i < 4 then int i + 1 else 0)"

definition setupDataCall ::
    "bool \<Rightarrow> int \<Rightarrow> int list \<Rightarrow> int \<Rightarrow> int \<Rightarrow> data_profile \<Rightarrow> bool \<Rightarrow> bool \<Rightarrow> bool \<Rightarrow> svc_call list" where
  "setupDataCall mtk version cids serial radioTechnology dp modemCognitive roamingAllowed isRoaming =
     (let common = [show_int (radioTechnology + 2), show_int (profileId dp), c_str (dp_apn dp), c_str (dp_user dp),
                    c_str (dp_password dp), show_int (authType dp)]
      in if 4 \<le> version \<and> version \<le> 14 then
           [Call serial RIL_REQUEST_SETUP_DATA_CALL (DStrings
              (common @ [c_str (if isRoaming then roamingProtocol dp else dp_protocol dp)]
               @ (if mtk then [show_int (free_interface cids)] else [])))]
         else if 15 \<le> version then
           (case convertMvnoTypeToString (mvnoType dp) of
              None \<Rightarrow> [Call serial RIL_REQUEST_SETUP_DATA_CALL (DRefuse RIL_E_INVALID_ARGUMENTS True)]
            | Some mvno \<Rightarrow>
                [Call serial RIL_REQUEST_SETUP_DATA_CALL (DStrings
                  (common @ [c_str (dp_protocol dp), c_str (roamingProtocol dp), show_int (supportedApnTypesBitmap dp),
                             show_int (bearerBitmap dp), one_zero modemCognitive, show_int (dp_mtu dp), mvno,
                             c_str (mvnoMatchData dp), one_zero roamingAllowed]))])
         else [not_supported serial RIL_REQUEST_SETUP_DATA_CALL])"

text \<open>The place of the call among the first four is freed, whether or not the request succeeds.\<close>

definition release_interface :: "bool \<Rightarrow> int \<Rightarrow> int list \<Rightarrow> int list" where
  "release_interface mtk cid cids =
     (let i = length (takeWhile (\<lambda>c. c \<noteq> cid) (take 4 cids)) in if mtk \<and> i < 4 then cids[i := -1] else cids)"

definition deactivateDataCall :: "int \<Rightarrow> int \<Rightarrow> bool \<Rightarrow> svc_call list" where
  "deactivateDataCall serial cid reasonRadioShutDown =
     [Call serial RIL_REQUEST_DEACTIVATE_DATA_CALL (DStrings [show_int cid, one_zero reasonRadioShutDown])]"

definition iccIOForApp :: "bool \<Rightarrow> int \<Rightarrow> icc_io \<Rightarrow> svc_call list" where
  "iccIOForApp mtk serial io =
     [Call serial RIL_REQUEST_SIM_IO (DStruct
        [(''command'', io_command io), (''fileid'', io_fileId io), (''p1'', io_p1 io), (''p2'', io_p2 io),
         (''p3'', if mtk \<and> io_command io = 0xc0 \<and> io_p3 io = 0 then 15 else io_p3 io)]
        [(''path'', io_path io), (''data'', io_data io), (''pin2'', io_pin2 io), (''aidPtr'', io_aid io)] FMT_SIMIO 56)]"

definition writeSmsToSim :: "int \<Rightarrow> sms_write_args \<Rightarrow> svc_call list" where
  "writeSmsToSim serial a =
     [Call serial RIL_REQUEST_WRITE_SMS_TO_SIM (DStruct [(''status'', sms_status a)]
        [(''pdu'', sms_pdu a), (''smsc'', sms_smsc a)] FMT_WrSMSSIM 24)]"

text \<open>With \<open>MTK_HARDWARE\<close> two requests of the library's own, with serial number -1, come first.\<close>

definition getDeviceIdentity :: "bool \<Rightarrow> int \<Rightarrow> svc_call list" where
  "getDeviceIdentity mtk serial =
     (if mtk then [Call (-1) RIL_REQUEST_GET_IMEI DVoid, Call (-1) RIL_REQUEST_GET_IMEISV DVoid] else [])
     @ [Call serial RIL_REQUEST_DEVICE_IDENTITY DVoid]"

definition nvReadItem :: "int \<Rightarrow> int \<Rightarrow> svc_call list" where
  "nvReadItem serial itemId = [Call serial RIL_REQUEST_NV_READ_ITEM (DStruct [(''itemID'', itemId)] [] FMT_IGNORE 4)]"

definition nvWriteItem :: "int \<Rightarrow> int \<Rightarrow> string \<Rightarrow> svc_call list" where
  "nvWriteItem serial itemId val =
     [Call serial RIL_REQUEST_NV_WRITE_ITEM (DStruct [(''itemID'', itemId)] [(''value'', val)] FMT_IGNORE 16)]"

datatype reset_nv_type = NV_RELOAD | NV_ERASE | NV_FACTORY_RESET | NV_RESET_OTHER

definition nvResetConfig :: "int \<Rightarrow> reset_nv_type \<Rightarrow> svc_call list" where
  "nvResetConfig serial resetType =
     [Call serial RIL_REQUEST_NV_RESET_CONFIG (DInts
        [case resetType of NV_RELOAD \<Rightarrow> 1 | NV_ERASE \<Rightarrow> 2 | NV_FACTORY_RESET \<Rightarrow> 3 | NV_RESET_OTHER \<Rightarrow> -1])]"

definition setUiccSubscription :: "int \<Rightarrow> select_uicc_sub \<Rightarrow> svc_call list" where
  "setUiccSubscription serial u =
     [Call serial RIL_REQUEST_SET_UICC_SUBSCRIPTION (DStruct
        [(''slot'', uicc_slot u), (''app_index'', appIndex u), (''sub_type'', subType u), (''act_status'', actStatus u)]
        [] FMT_RAW 16)]"

definition requestIccSimAuthentication :: "int \<Rightarrow> int \<Rightarrow> string \<Rightarrow> string \<Rightarrow> svc_call list" where
  "requestIccSimAuthentication serial authContext authData aid =
     [Call serial RIL_REQUEST_SIM_AUTHENTICATION (DStruct [(''authContext'', authContext)]
        [(''authData'', authData), (''aid'', aid)] FMT_SIMAUTH 24)]"

definition MAX_UUID_LENGTH :: nat where "MAX_UUID_LENGTH = 64"

text \<open>\<open>strncpy\<close> of the identifier into the array of the structure: its characters one by one.\<close>

definition uuid_chars :: "string \<Rightarrow> (string \<times> int) list" where
  "uuid_chars u =
     map (\<lambda>c. (''logicalModemUuid'', int (of_char c)))
       (take MAX_UUID_LENGTH (c_str u @ replicate MAX_UUID_LENGTH (CHR 0x00)))"

definition setRadioCapability :: "int \<Rightarrow> radio_capability \<Rightarrow> svc_call list" where
  "setRadioCapability serial rc =
     [Call serial RIL_REQUEST_SET_RADIO_CAPABILITY (DStruct
        ([(''version'', 0), (''session'', rc_session rc), (''phase'', rc_phase rc), (''rat'', rc_raf rc)]
         @ uuid_chars (rc_uuid rc) @ [(''status'', rc_status rc)]) [] FMT_RAW 84)]"

text \<open>Old versions only know the state of the screen; the refusal does not look if there is a request.\<close>

definition sendDeviceState :: "int \<Rightarrow> int \<Rightarrow> int \<Rightarrow> int \<Rightarrow> bool \<Rightarrow> svc_call list" where
  "sendDeviceState version low_data_expected serial deviceStateType st =
     (if version < 15 then
        (if deviceStateType = low_data_expected then
           [Call serial RIL_REQUEST_SCREEN_STATE (DInts [BOOL_TO_INT (\<not> st)])]
         else [Call serial RIL_REQUEST_SEND_DEVICE_STATE (DRefuse RIL_E_REQUEST_NOT_SUPPORTED False)])
      else [Call serial RIL_REQUEST_SEND_DEVICE_STATE (DInts [deviceStateType, BOOL_TO_INT st])])"

definition setIndicationFilter :: "int \<Rightarrow> int \<Rightarrow> int \<Rightarrow> svc_call list" where
  "setIndicationFilter version serial indicationFilter =
     (if version < 15 then
        [Call serial RIL_REQUEST_SET_UNSOLICITED_RESPONSE_FILTER (DRefuse RIL_E_REQUEST_NOT_SUPPORTED False)]
      else [Call serial RIL_REQUEST_SET_UNSOLICITED_RESPONSE_FILTER (DInts [indicationFilter])])"

definition setSimCardPower :: "int \<Rightarrow> bool \<Rightarrow> svc_call list" where
  "setSimCardPower serial powerUp =
     [Call serial (if powerUp then RIL_REQUEST_MODEM_POWERON else RIL_REQUEST_MODEM_POWEROFF) DVoid]"

end
