(* ===== verification/Ril_Structs.thy ===== *)
theory Ril_Structs
  imports Ril_Methods
begin

text \<open>
  The structures of \<open>include/telephony/ril.h\<close> that the vendor's library answers with, for a 64-bit ARM
  where \<open>char\<close> is unsigned: their sizes, from the types of their fields, and what the radio service
  reads of them.  A pointer to a text is an option (\<open>None\<close> for NULL), an array of \<open>char\<close> is the list of
  all its characters, and the unions of cells are lists of 32-bit words.
\<close>

section \<open>Sizes\<close>

datatype ctype = TChar | TInt | TLong | TPtr | TArr nat ctype | TStruct "ctype list" | TUnion "ctype list"

fun c_align :: "ctype \<Rightarrow> nat" where
  "c_align TChar = 1"
| "c_align TInt = 4"
| "c_align TLong = 8"
| "c_align TPtr = 8"
| "c_align (TArr n t) = c_align t"
| "c_align (TStruct ts) = fold (\<lambda>t a. max (c_align t) a) ts 1"
| "c_align (TUnion ts) = fold (\<lambda>t a. max (c_align t) a) ts 1"

definition round_up :: "nat \<Rightarrow> nat \<Rightarrow> nat" where
  "round_up a n = (n + a - 1) div a * a"

fun c_sizeof :: "ctype \<Rightarrow> nat" where
  "c_sizeof TChar = 1"
| "c_sizeof TInt = 4"
| "c_sizeof TLong = 8"
| "c_sizeof TPtr = 8"
| "c_sizeof (TArr n t) = n * c_sizeof t"
| "c_sizeof (TStruct ts) =
     round_up (c_align (TStruct ts)) (fold (\<lambda>t off. round_up (c_align t) off + c_sizeof t) ts 0)"
| "c_sizeof (TUnion ts) =
     round_up (c_align (TUnion ts)) (fold (\<lambda>t n. max (c_sizeof t) n) ts 0)"

section \<open>Structures\<close>

definition RIL_CARD_MAX_APPS :: nat where "RIL_CARD_MAX_APPS = 8"
definition MAX_IPV6_ADDRESS_LENGTH :: nat where "MAX_IPV6_ADDRESS_LENGTH = 65"
definition MAX_PCSCF_NUMBER :: nat where "MAX_PCSCF_NUMBER = 6"
definition RIL_NUM_TX_POWER_LEVELS :: nat where "RIL_NUM_TX_POWER_LEVELS = 5"
definition SS_INFO_MAX :: nat where "SS_INFO_MAX = 4"
definition NUM_SERVICE_CLASSES :: nat where "NUM_SERVICE_CLASSES = 7"
definition RIL_CDMA_MAX_NUMBER_OF_INFO_RECS :: nat where "RIL_CDMA_MAX_NUMBER_OF_INFO_RECS = 10"
definition CDMA_ALPHA_INFO_BUFFER_LENGTH :: nat where "CDMA_ALPHA_INFO_BUFFER_LENGTH = 64"
definition CDMA_NUMBER_INFO_BUFFER_LENGTH :: nat where "CDMA_NUMBER_INFO_BUFFER_LENGTH = 81"

type_synonym c_text = "string option"

record RIL_AppStatus =
  app_type :: int
  app_state :: int
  perso_substate :: int
  aid_ptr :: c_text
  app_label_ptr :: c_text
  pin1_replaced :: int
  pin1 :: int
  pin2 :: int

definition RIL_AppStatus_t :: ctype where
  "RIL_AppStatus_t = TStruct [TInt, TInt, TInt, TPtr, TPtr, TInt, TInt, TInt]"

text \<open>\<open>applications\<close> is the array of eight.\<close>

record RIL_CardStatus_v6 =
  card_state :: int
  universal_pin_state :: int
  gsm_umts_subscription_app_index :: int
  cdma_subscription_app_index :: int
  ims_subscription_app_index :: int
  num_applications :: int
  applications :: "RIL_AppStatus list"

definition RIL_CardStatus_v6_t :: ctype where
  "RIL_CardStatus_v6_t = TStruct [TInt, TInt, TInt, TInt, TInt, TInt, TArr RIL_CARD_MAX_APPS RIL_AppStatus_t]"

record RIL_UUS_Info =
  uusType :: int
  uusDcs :: int
  uusLength :: int
  uusData :: c_text

record RIL_Call =
  call_state :: int
  call_index :: int
  call_toa :: int
  isMpty :: int
  isMT :: int
  als :: int
  isVoice :: int
  isVoicePrivacy :: int
  call_number :: c_text
  numberPresentation :: int
  call_name :: c_text
  namePresentation :: int
  uusInfo :: "RIL_UUS_Info option"

record RIL_LastCallFailCauseInfo =
  cause_code :: int
  vendor_cause :: c_text

definition RIL_LastCallFailCauseInfo_t :: ctype where
  "RIL_LastCallFailCauseInfo_t = TStruct [TInt, TPtr]"

text \<open>The words of \<open>RIL_SignalStrength_v6\<close>: GSM, CDMA, EVDO, LTE and WCDMA, two, two, three, five and four.\<close>

definition RIL_GW_SignalStrength_t :: ctype where "RIL_GW_SignalStrength_t = TStruct [TInt, TInt]"
definition RIL_CDMA_SignalStrength_t :: ctype where "RIL_CDMA_SignalStrength_t = TStruct [TInt, TInt]"
definition RIL_EVDO_SignalStrength_t :: ctype where "RIL_EVDO_SignalStrength_t = TStruct [TInt, TInt, TInt]"

definition RIL_LTE_SignalStrength_v8_t :: ctype where
  "RIL_LTE_SignalStrength_v8_t = TStruct [TInt, TInt, TInt, TInt, TInt, TInt]"

definition RIL_SignalStrength_v8_t :: ctype where
  "RIL_SignalStrength_v8_t = TStruct [RIL_GW_SignalStrength_t, RIL_CDMA_SignalStrength_t,
     RIL_EVDO_SignalStrength_t, RIL_LTE_SignalStrength_v8_t]"

text \<open>Of a data call the fields before \<open>concatenateNum\<close>; the rest only counts for the size.\<close>

record RIL_Data_Call_Response_v11 =
  dc_status :: int
  suggestedRetryTime :: int
  dc_cid :: int
  dc_active :: int
  dc_type :: c_text
  dc_ifname :: c_text
  dc_addresses :: c_text
  dc_dnses :: c_text
  dc_gateways :: c_text
  dc_pcscf :: c_text
  mtu_v11 :: int

definition Qos_t :: ctype where "Qos_t = TStruct [TInt, TInt, TInt, TInt, TInt]"

definition PktFilter_t :: ctype where
  "PktFilter_t = TStruct [TInt, TInt, TInt, TInt, TInt, TArr MAX_IPV6_ADDRESS_LENGTH TChar,
     TArr MAX_IPV6_ADDRESS_LENGTH TChar, TInt, TInt, TInt, TInt, TInt, TInt, TInt, TInt, TInt]"

definition AuthToken_t :: ctype where
  "AuthToken_t = TStruct [TInt, TArr 16 TInt, TInt, TArr 4 (TArr 4 TInt)]"

definition TftParameter_t :: ctype where
  "TftParameter_t = TStruct [TInt, TArr 16 TInt, TInt, TArr 4 AuthToken_t]"

definition Tft_t :: ctype where
  "Tft_t = TStruct [TInt, TInt, TArr 16 PktFilter_t, TftParameter_t]"

definition RIL_Dedicate_Data_Call_Struct_t :: ctype where
  "RIL_Dedicate_Data_Call_Struct_t = TStruct [TInt, TInt, TInt, TInt, TInt, TInt, TInt, TInt, TInt, Qos_t, TInt,
     Tft_t, TInt, TArr (MAX_PCSCF_NUMBER * (MAX_IPV6_ADDRESS_LENGTH + 1)) TChar]"

definition RIL_Data_Call_Response_v11_t :: ctype where
  "RIL_Data_Call_Response_v11_t = TStruct [TInt, TInt, TInt, TInt, TPtr, TPtr, TPtr, TPtr, TPtr, TPtr, TInt,
     TInt, TPtr, RIL_Dedicate_Data_Call_Struct_t, TInt]"

record RIL_SMS_Response =
  messageRef :: int
  ackPDU :: c_text
  sms_errorCode :: int

definition RIL_SMS_Response_t :: ctype where "RIL_SMS_Response_t = TStruct [TInt, TPtr, TInt]"

record RIL_SIM_IO_Response =
  sw1 :: int
  sw2 :: int
  simResponse :: c_text

definition RIL_SIM_IO_Response_t :: ctype where "RIL_SIM_IO_Response_t = TStruct [TInt, TInt, TPtr]"

record RIL_CallForwardInfo =
  cf_status :: int
  cf_reason :: int
  cf_serviceClass :: int
  cf_toa :: int
  cf_number :: c_text
  cf_timeSeconds :: int

definition RIL_CallForwardInfo_t :: ctype where
  "RIL_CallForwardInfo_t = TStruct [TInt, TInt, TInt, TInt, TPtr, TInt]"

record RIL_NeighboringCell =
  nb_cid :: c_text
  nb_rssi :: int

record RIL_GSM_BroadcastSmsConfigInfo =
  fromServiceId :: int
  toServiceId :: int
  fromCodeScheme :: int
  toCodeScheme :: int
  gsm_selected :: int

record RIL_CDMA_BroadcastSmsConfigInfo =
  service_category :: int
  language :: int
  cdma_selected :: int

record RIL_RadioCapability =
  cap_session :: int
  cap_phase :: int
  cap_rat :: int
  logicalModemUuid :: string
  cap_status :: int

definition RIL_RadioCapability_t :: ctype where
  "RIL_RadioCapability_t = TStruct [TInt, TInt, TInt, TInt, TArr MAX_UUID_LENGTH TChar, TInt]"

record RIL_LceStatusInfo =
  lce_status :: int
  actual_interval_ms :: int

definition RIL_LceStatusInfo_t :: ctype where "RIL_LceStatusInfo_t = TStruct [TChar, TInt]"

record RIL_LceDataInfo =
  last_hop_capacity_kbps :: int
  confidence_level :: int
  lce_suspended :: int

definition RIL_LceDataInfo_t :: ctype where "RIL_LceDataInfo_t = TStruct [TInt, TChar, TChar]"

record RIL_ActivityStatsInfo =
  sleep_mode_time_ms :: int
  idle_mode_time_ms :: int
  tx_mode_time_ms :: "int list"
  rx_mode_time_ms :: int

definition RIL_ActivityStatsInfo_t :: ctype where
  "RIL_ActivityStatsInfo_t = TStruct [TInt, TInt, TArr RIL_NUM_TX_POWER_LEVELS TInt, TInt]"

record RIL_Carrier =
  mcc :: c_text
  mnc :: c_text
  match_type :: int
  match_data :: c_text

text \<open>The arrays of carriers with what is behind the pointers.\<close>

record RIL_CarrierRestrictions =
  len_allowed_carriers :: int
  len_excluded_carriers :: int
  allowed_carriers :: "RIL_Carrier list"
  excluded_carriers :: "RIL_Carrier list"

definition RIL_CarrierRestrictions_t :: ctype where
  "RIL_CarrierRestrictions_t = TStruct [TInt, TInt, TPtr, TPtr]"

text \<open>A hardware configuration; \<open>cfg\<close> is the union as its 64 bytes.\<close>

record RIL_HardwareConfig =
  hw_type :: int
  hw_uuid :: string
  hw_state :: int
  cfg :: string

definition RIL_HardwareConfig_t :: ctype where
  "RIL_HardwareConfig_t = TStruct [TInt, TArr MAX_UUID_LENGTH TChar, TInt,
     TUnion [TStruct [TInt, TInt, TInt, TInt, TInt], TStruct [TArr MAX_UUID_LENGTH TChar]]]"

text \<open>The identity of a cell: the kind and the six words of the union.\<close>

datatype RIL_CellIdentity_v16 = CellIdentity (cell_type: int) (cell_words: "int list")

definition RIL_CellIdentityGsm_v12_t :: ctype where
  "RIL_CellIdentityGsm_v12_t = TStruct [TInt, TInt, TInt, TInt, TInt, TChar]"
definition RIL_CellIdentityWcdma_v12_t :: ctype where
  "RIL_CellIdentityWcdma_v12_t = TStruct [TInt, TInt, TInt, TInt, TInt, TInt]"
definition RIL_CellIdentityLte_v12_t :: ctype where
  "RIL_CellIdentityLte_v12_t = TStruct [TInt, TInt, TInt, TInt, TInt, TInt]"
definition RIL_CellIdentityTdscdma_t :: ctype where
  "RIL_CellIdentityTdscdma_t = TStruct [TInt, TInt, TInt, TInt, TInt]"
definition RIL_CellIdentityCdma_t :: ctype where
  "RIL_CellIdentityCdma_t = TStruct [TInt, TInt, TInt, TInt, TInt]"

definition RIL_CellIdentity_v16_t :: ctype where
  "RIL_CellIdentity_v16_t = TStruct [TInt, TUnion [RIL_CellIdentityGsm_v12_t, RIL_CellIdentityWcdma_v12_t,
     RIL_CellIdentityLte_v12_t, RIL_CellIdentityTdscdma_t, RIL_CellIdentityCdma_t]]"

record RIL_VoiceRegistrationStateResponse =
  vr_regState :: int
  vr_rat :: int
  cssSupported :: int
  roamingIndicator :: int
  systemIsInPrl :: int
  defaultRoamingIndicator :: int
  reasonForDenial :: int
  vr_cellIdentity :: RIL_CellIdentity_v16

definition RIL_VoiceRegistrationStateResponse_t :: ctype where
  "RIL_VoiceRegistrationStateResponse_t =
     TStruct [TInt, TInt, TInt, TInt, TInt, TInt, TInt, RIL_CellIdentity_v16_t]"

record RIL_DataRegistrationStateResponse =
  dr_regState :: int
  dr_rat :: int
  reasonDataDenied :: int
  maxDataCalls :: int
  dr_cellIdentity :: RIL_CellIdentity_v16

definition RIL_DataRegistrationStateResponse_t :: ctype where
  "RIL_DataRegistrationStateResponse_t = TStruct [TInt, TInt, TInt, TInt, RIL_CellIdentity_v16_t]"

text \<open>A cell with its signal: the words of the union, in the layout of \<open>RIL_CellInfo\<close> or of \<open>RIL_CellInfo_v12\<close>.\<close>

record RIL_CellInfo =
  cellInfoType :: int
  registered :: int
  timeStampType :: int
  timeStamp :: int
  cell_info_words :: "int list"

definition RIL_CellInfo_t :: ctype where
  "RIL_CellInfo_t = TStruct [TInt, TInt, TInt, TLong, TUnion
     [TStruct [TStruct [TInt, TInt, TInt, TInt], RIL_GW_SignalStrength_t],
      TStruct [RIL_CellIdentityCdma_t, RIL_CDMA_SignalStrength_t, RIL_EVDO_SignalStrength_t],
      TStruct [TStruct [TInt, TInt, TInt, TInt, TInt], RIL_LTE_SignalStrength_v8_t],
      TStruct [TStruct [TInt, TInt, TInt, TInt, TInt], TStruct [TInt, TInt]],
      TStruct [RIL_CellIdentityTdscdma_t, TStruct [TInt]]]]"

definition RIL_CellInfo_v12_t :: ctype where
  "RIL_CellInfo_v12_t = TStruct [TInt, TInt, TInt, TLong, TUnion
     [TStruct [RIL_CellIdentityGsm_v12_t, TStruct [TInt, TInt, TInt]],
      TStruct [RIL_CellIdentityCdma_t, RIL_CDMA_SignalStrength_t, RIL_EVDO_SignalStrength_t],
      TStruct [RIL_CellIdentityLte_v12_t, RIL_LTE_SignalStrength_v8_t],
      TStruct [RIL_CellIdentityWcdma_v12_t, TStruct [TInt, TInt]],
      TStruct [RIL_CellIdentityTdscdma_t, TStruct [TInt]]]]"

record RIL_SuppSvcNotification =
  notificationType :: int
  ssn_code :: int
  ssn_index :: int
  ssn_type :: int
  ssn_number :: c_text

definition RIL_SuppSvcNotification_t :: ctype where
  "RIL_SuppSvcNotification_t = TStruct [TInt, TInt, TInt, TInt, TPtr]"

record RIL_SimRefreshResponse_v7 =
  refresh_result :: int
  ef_id :: int
  refresh_aid :: c_text

definition RIL_SimRefreshResponse_v7_t :: ctype where
  "RIL_SimRefreshResponse_v7_t = TStruct [TInt, TInt, TPtr]"

record RIL_CDMA_SignalInfoRecord =
  sig_isPresent :: int
  signalType :: int
  alertPitch :: int
  sig_signal :: int

definition RIL_CDMA_SignalInfoRecord_t :: ctype where
  "RIL_CDMA_SignalInfoRecord_t = TStruct [TChar, TChar, TChar, TChar]"

record RIL_CDMA_CallWaiting_v6 =
  cw_number :: c_text
  cw_numberPresentation :: int
  cw_name :: c_text
  cw_signalInfoRecord :: RIL_CDMA_SignalInfoRecord
  cw_number_type :: int
  cw_number_plan :: int

definition RIL_CDMA_CallWaiting_v6_t :: ctype where
  "RIL_CDMA_CallWaiting_v6_t = TStruct [TPtr, TInt, TPtr, RIL_CDMA_SignalInfoRecord_t, TInt, TInt]"

definition RIL_CDMA_NumberInfoRecord_t :: ctype where
  "RIL_CDMA_NumberInfoRecord_t = TStruct [TChar, TArr CDMA_NUMBER_INFO_BUFFER_LENGTH TChar, TChar, TChar, TChar, TChar]"

definition RIL_CDMA_info_union_t :: ctype where
  "RIL_CDMA_info_union_t = TUnion
     [TStruct [TChar, TArr CDMA_ALPHA_INFO_BUFFER_LENGTH TChar], RIL_CDMA_NumberInfoRecord_t,
      RIL_CDMA_SignalInfoRecord_t, TStruct [RIL_CDMA_NumberInfoRecord_t, TInt],
      TStruct [TChar, TChar, TChar, TChar], TStruct [TChar], TStruct [TChar, TChar]]"

text \<open>An information record: its name and the bytes of the union.\<close>

datatype RIL_CDMA_InformationRecord = InfoRec (rec_name: int) (rec_bytes: string)

record RIL_CDMA_InformationRecords =
  numberOfInfoRecs :: nat
  infoRec :: "RIL_CDMA_InformationRecord list"

definition RIL_CDMA_InformationRecords_t :: ctype where
  "RIL_CDMA_InformationRecords_t =
     TStruct [TChar, TArr RIL_CDMA_MAX_NUMBER_OF_INFO_RECS (TStruct [TInt, RIL_CDMA_info_union_t])]"

datatype ss_data = SsInfo "int list" | SsForward int "RIL_CallForwardInfo list"

record RIL_StkCcUnsolSsResponse =
  serviceType :: int
  requestType :: int
  teleserviceType :: int
  ss_serviceClass :: int
  ss_result :: int
  ss_union :: ss_data

definition RIL_StkCcUnsolSsResponse_t :: ctype where
  "RIL_StkCcUnsolSsResponse_t = TStruct [TInt, TInt, TInt, TInt, TInt, TUnion
     [TArr SS_INFO_MAX TInt, TStruct [TInt, TArr NUM_SERVICE_CLASSES RIL_CallForwardInfo_t]]]"

record RIL_PCO_Data =
  pco_cid :: int
  bearer_proto :: c_text
  pco_id :: int
  contents_length :: int
  pco_contents :: string

definition RIL_PCO_Data_t :: ctype where "RIL_PCO_Data_t = TStruct [TInt, TPtr, TInt, TInt, TPtr]"

text \<open>
  What is read of \<open>RIL_CDMA_SMS_Message\<close>, with the sizes of the structure and of its arrays; their header is
  not in the repository.
\<close>

record cdma_sms =
  uTeleserviceID :: int
  bIsServicePresent :: int
  uServicecategory :: int
  digit_mode :: int
  number_mode :: int
  a_number_type :: int
  a_number_plan :: int
  a_number_of_digits :: int
  a_digits :: string
  subaddressType :: int
  sa_odd :: int
  sa_number_of_digits :: int
  sa_digits :: string
  uBearerDataLen :: int
  aBearerData :: string

record cdma_sms_sizes =
  sms_size :: nat
  address_max :: nat
  subaddress_max :: nat
  bearer_max :: nat

section \<open>Responses\<close>

text \<open>
  What \<open>response\<close> points to.  Reading it as something else, or behind its end, has no meaning: the
  functions that do so give \<open>None\<close>.
\<close>

datatype resp_block =
    BInts "int list"
  | BText string
  | BBytes string
  | BTexts "c_text list"
  | BWords "int list"
  | BCardStatus RIL_CardStatus_v6
  | BCalls "RIL_Call option list"
  | BFailCause RIL_LastCallFailCauseInfo
  | BDataCalls "RIL_Data_Call_Response_v11 list"
  | BSms RIL_SMS_Response
  | BSimIo RIL_SIM_IO_Response
  | BForwards "RIL_CallForwardInfo option list"
  | BNeighbors "RIL_NeighboringCell option list"
  | BGsmConfigs "RIL_GSM_BroadcastSmsConfigInfo option list"
  | BCdmaConfigs "RIL_CDMA_BroadcastSmsConfigInfo option list"
  | BCapability RIL_RadioCapability
  | BLceStatus RIL_LceStatusInfo
  | BLceData RIL_LceDataInfo
  | BActivity RIL_ActivityStatsInfo
  | BCarriers RIL_CarrierRestrictions
  | BHardware "RIL_HardwareConfig list"
  | BVoiceReg RIL_VoiceRegistrationStateResponse
  | BDataReg RIL_DataRegistrationStateResponse
  | BCells "RIL_CellInfo list"
  | BSuppSvc RIL_SuppSvcNotification
  | BRefresh RIL_SimRefreshResponse_v7
  | BSignalInfo RIL_CDMA_SignalInfoRecord
  | BCallWaiting RIL_CDMA_CallWaiting_v6
  | BInfoRecs RIL_CDMA_InformationRecords
  | BSupplementary RIL_StkCcUnsolSsResponse
  | BPco RIL_PCO_Data
  | BCdmaSms cdma_sms

type_synonym response = "resp_block option"

definition ints :: "nat \<Rightarrow> response \<Rightarrow> int list option" where
  "ints n r = (case r of Some (BInts xs) \<Rightarrow> if n \<le> length xs then Some (take n xs) else None | _ \<Rightarrow> None)"

definition texts :: "nat \<Rightarrow> response \<Rightarrow> c_text list option" where
  "texts n r = (case r of Some (BTexts xs) \<Rightarrow> if n \<le> length xs then Some (take n xs) else None | _ \<Rightarrow> None)"

text \<open>What an array of pointers leads to; a NULL among them has no meaning.\<close>

definition pointed :: "nat \<Rightarrow> 'a option list \<Rightarrow> 'a list option" where
  "pointed n ps = (if n \<le> length ps then those (take n ps) else None)"

definition elements :: "nat \<Rightarrow> 'a list \<Rightarrow> 'a list option" where
  "elements n xs = (if n \<le> length xs then Some (take n xs) else None)"

lemma ints_length: "ints n r = Some xs \<Longrightarrow> length xs = n"
  by (auto simp: ints_def split: option.splits resp_block.splits if_splits)

lemma texts_length: "texts n r = Some xs \<Longrightarrow> length xs = n"
  by (auto simp: texts_def split: option.splits resp_block.splits if_splits)

lemma elements_length: "elements n xs = Some ys \<Longrightarrow> length ys = n"
  by (auto simp: elements_def split: if_splits)

lemma cell_info_sizes: "c_sizeof RIL_CellInfo_t = 72" "c_sizeof RIL_CellInfo_v12_t = 72"
  by code_simp+

lemma signal_v8_size: "c_sizeof RIL_SignalStrength_v8_t = 52"
  by code_simp

end
