(* ===== verification/Ril_Hidl.thy ===== *)
theory Ril_Hidl
  imports Ril_Structs
begin

text \<open>
  The client of the radio service in \<open>ril_service.cpp\<close>: its callbacks, what happens to them when a call
  fails, and what all functions for responses and indications share.  The values that the interface
  takes are trees; its enumerations are their numbers.
\<close>

section \<open>Values of the interface\<close>

datatype hv =
    HInt int
  | HBool bool
  | HText string
  | HBytes string
  | HVec "hv list"
  | HRec "(string \<times> hv) list"

text \<open>\<open>convertCharPtrToHidlString\<close> of a text, and of an array of characters: with no end there is no meaning.\<close>

definition convertCharPtrToHidlString :: "c_text \<Rightarrow> hv" where
  "convertCharPtrToHidlString p = HText (case p of None \<Rightarrow> '''' | Some t \<Rightarrow> c_str t)"

definition char_array :: "string \<Rightarrow> hv option" where
  "char_array a = (if CHR 0x00 \<in> set a then Some (HText (c_str a)) else None)"

definition u8 :: "int \<Rightarrow> int" where "u8 i = i mod 256"
definition s8 :: "int \<Rightarrow> int" where "s8 i = (i + 128) mod 256 - 128"

section \<open>State\<close>

text \<open>The callbacks of a service object and its counter.\<close>

record client =
  has_response :: bool
  has_indication :: bool
  mCounter :: int

datatype response_type = SOLICITED | SOLICITED_ACK_EXP
datatype indication_type = UNSOLICITED | UNSOLICITED_ACK_EXP
datatype radio_error = RadioError int | INVALID_RESPONSE

record response_info =
  info_serial :: int
  info_type :: response_type
  info_error :: radio_error

datatype cb_kind = Reply response_info | Indication indication_type | Acknowledge int

text \<open>A call of the client: slot, method, what comes first, the other arguments.\<close>

datatype callback = Callback (cb_slot: nat) (cb_name: string) (cb_kind: cb_kind) (cb_args: "hv list")

text \<open>\<open>made\<close> are the requests that indications make on their own.\<close>

record svc =
  radio :: "nat \<Rightarrow> client"
  oem :: "nat \<Rightarrow> client"
  dataCallCids :: "int list"
  callbacks :: "callback list"
  made :: "(nat \<times> svc_call) list"

text \<open>
  What is outside: whether the n-th call of a client succeeds, what other threads make of a client while
  no lock is held, the vendor's version and state, the clock, the list of operators (\<open>spn.h\<close>), what
  memory holds that is never set, and whether there is memory left.
\<close>

record env =
  is_ok :: "nat \<Rightarrow> bool"
  meanwhile :: "nat \<Rightarrow> client \<Rightarrow> client"
  mtk :: bool
  vendor_version :: int
  onStateRequest :: "nat \<Rightarrow> int"
  elapsedRealtime :: int
  operators :: "(int \<times> string) list"
  leftover :: int
  has_memory :: bool

text \<open>The two slots of the build; both services start without a client.\<close>

definition registerService :: "svc \<Rightarrow> svc" where
  "registerService s =
     s\<lparr>radio := (\<lambda>i. \<lparr>has_response = False, has_indication = False, mCounter = mCounter (radio s i)\<rparr>),
       oem := (\<lambda>i. \<lparr>has_response = False, has_indication = False, mCounter = mCounter (oem s i)\<rparr>)\<rparr>"

definition setResponseFunctions :: "nat \<Rightarrow> bool \<Rightarrow> bool \<Rightarrow> svc \<Rightarrow> svc" where
  "setResponseFunctions slot resp ind s =
     s\<lparr>radio := (radio s)(slot := \<lparr>has_response = resp, has_indication = ind, mCounter = mCounter (radio s slot) + 1\<rparr>)\<rparr>"

definition setOemResponseFunctions :: "nat \<Rightarrow> bool \<Rightarrow> bool \<Rightarrow> svc \<Rightarrow> svc" where
  "setOemResponseFunctions slot resp ind s =
     s\<lparr>oem := (oem s)(slot := \<lparr>has_response = resp, has_indication = ind, mCounter = mCounter (oem s slot) + 1\<rparr>)\<rparr>"

text \<open>The slots of the two locks: the second is for a slot that there is not.\<close>

definition getRadioServiceRwlock :: "nat \<Rightarrow> nat" where
  "getRadioServiceRwlock slot = (if slot = 2 then 2 else 1)"

definition isServiceConnected :: "nat \<Rightarrow> svc \<Rightarrow> bool" where
  "isServiceConnected slot s = has_indication (radio s slot)"

section \<open>Calling the client\<close>

text \<open>A failed call: the client is gone unless another thread has set a new one.\<close>

definition dropped :: "(client \<Rightarrow> client) \<Rightarrow> client \<Rightarrow> client" where
  "dropped others c =
     (let c' = others c
      in if mCounter c' = mCounter c
         then c'\<lparr>has_response := False, has_indication := False, mCounter := mCounter c' + 1\<rparr> else c')"

definition checkReturnStatus :: "env \<Rightarrow> nat \<Rightarrow> bool \<Rightarrow> nat \<Rightarrow> svc \<Rightarrow> svc" where
  "checkReturnStatus v slot isRadio n s =
     (if is_ok v n then s
      else if isRadio then s\<lparr>radio := (radio s)(slot := dropped (meanwhile v n) (radio s slot))\<rparr>
      else s\<lparr>oem := (oem s)(slot := dropped (meanwhile v n) (oem s slot))\<rparr>)"

definition call_back :: "env \<Rightarrow> bool \<Rightarrow> callback \<Rightarrow> svc \<Rightarrow> svc" where
  "call_back v isRadio c s =
     checkReturnStatus v (cb_slot c) isRadio (length (callbacks s)) (s\<lparr>callbacks := callbacks s @ [c]\<rparr>)"

definition acknowledgeRequest :: "env \<Rightarrow> nat \<Rightarrow> int \<Rightarrow> svc \<Rightarrow> svc" where
  "acknowledgeRequest v slot serial s =
     (if has_response (radio s slot)
      then call_back v True (Callback slot ''acknowledgeRequest'' (Acknowledge serial) []) s else s)"

definition populateResponseInfo :: "int \<Rightarrow> int \<Rightarrow> int \<Rightarrow> response_info" where
  "populateResponseInfo serial responseType e =
     \<lparr>info_serial = serial,
      info_type = (if responseType = RESPONSE_SOLICITED_ACK_EXP then SOLICITED_ACK_EXP else SOLICITED),
      info_error = RadioError e\<rparr>"

definition invalid :: "int \<Rightarrow> response_info \<Rightarrow> response_info" where
  "invalid e i = (if e = 0 then i\<lparr>info_error := INVALID_RESPONSE\<rparr> else i)"

text \<open>
  A response: slot, type, serial number, error, what the vendor gave and its length.  The functions
  differ in the callback, in when a response is invalid, what they then say, and in the conversion.
\<close>

type_synonym response_fun = "env \<Rightarrow> nat \<Rightarrow> int \<Rightarrow> int \<Rightarrow> int \<Rightarrow> response \<Rightarrow> nat \<Rightarrow> svc \<Rightarrow> svc option"

definition client_of :: "bool \<Rightarrow> svc \<Rightarrow> nat \<Rightarrow> client" where
  "client_of isRadio s = (if isRadio then radio s else oem s)"

definition reply_to ::
    "bool \<Rightarrow> string \<Rightarrow> bool \<Rightarrow> hv list \<Rightarrow> hv list option \<Rightarrow> env \<Rightarrow> nat \<Rightarrow> int \<Rightarrow> int \<Rightarrow> int \<Rightarrow> svc \<Rightarrow> svc option" where
  "reply_to isRadio nm bad none good v slot ty serial e s =
     (if \<not> has_response (client_of isRadio s slot) then Some s
      else let i = populateResponseInfo serial ty e
           in if bad then Some (call_back v isRadio (Callback slot nm (Reply (invalid e i)) none) s)
              else map_option (\<lambda>args. call_back v isRadio (Callback slot nm (Reply i) args) s) good)"

definition reply :: "string \<Rightarrow> bool \<Rightarrow> hv list \<Rightarrow> hv list option \<Rightarrow> env \<Rightarrow> nat \<Rightarrow> int \<Rightarrow> int \<Rightarrow> int \<Rightarrow> svc \<Rightarrow> svc option" where
  "reply = reply_to True"

definition plain_response :: "string \<Rightarrow> response_fun" where
  "plain_response nm v slot ty serial e r len s = reply nm False [] (Some []) v slot ty serial e s"

definition responseInt :: "string \<Rightarrow> response_fun" where
  "responseInt nm v slot ty serial e r len s =
     reply nm (r = None \<or> len \<noteq> 4) [HInt (-1)] (map_option (map HInt) (ints 1 r)) v slot ty serial e s"

text \<open>No response at all is no error here: old libraries send nothing.\<close>

definition responseIntOrEmpty :: "string \<Rightarrow> response_fun" where
  "responseIntOrEmpty nm v slot ty serial e r len s =
     (if r = None \<and> len = 0 then reply nm False [] (Some [HInt (-1)]) v slot ty serial e s
      else reply nm (r = None \<or> len \<noteq> 4) [HInt (-1)] (map_option (map HInt) (ints 1 r)) v slot ty serial e s)"

text \<open>A text is never invalid, and its length is not looked at.\<close>

definition c_text_of :: "response \<Rightarrow> c_text option" where
  "c_text_of r = (case r of None \<Rightarrow> Some None | Some (BText t) \<Rightarrow> Some (Some t) | _ \<Rightarrow> None)"

definition response_text :: "string \<Rightarrow> response_fun" where
  "response_text nm v slot ty serial e r len s =
     reply nm False [] (map_option (\<lambda>t. [convertCharPtrToHidlString t]) (c_text_of r)) v slot ty serial e s"

definition makeSendSmsResult :: "string \<Rightarrow> response_fun" where
  "makeSendSmsResult nm v slot ty serial e r len s =
     reply nm (r = None \<or> len \<noteq> c_sizeof RIL_SMS_Response_t)
       [HRec [(''messageRef'', HInt 0), (''ackPDU'', HText ''''), (''errorCode'', HInt 0)]]
       (case r of
          Some (BSms p) \<Rightarrow> Some [HRec [(''messageRef'', HInt (messageRef p)), (''ackPDU'', convertCharPtrToHidlString (ackPDU p)),
                                  (''errorCode'', HInt (sms_errorCode p))]]
        | _ \<Rightarrow> None) v slot ty serial e s"

definition responseIccIo :: "string \<Rightarrow> response_fun" where
  "responseIccIo nm v slot ty serial e r len s =
     reply nm (r = None \<or> len \<noteq> c_sizeof RIL_SIM_IO_Response_t)
       [HRec [(''sw1'', HInt 0), (''sw2'', HInt 0), (''simResponse'', HText '''')]]
       (case r of
          Some (BSimIo p) \<Rightarrow> Some [HRec [(''sw1'', HInt (sw1 p)), (''sw2'', HInt (sw2 p)),
                                    (''simResponse'', convertCharPtrToHidlString (simResponse p))]]
        | _ \<Rightarrow> None) v slot ty serial e s"

definition responseLceStatusInfo :: "string \<Rightarrow> response_fun" where
  "responseLceStatusInfo nm v slot ty serial e r len s =
     reply nm (r = None \<or> len \<noteq> c_sizeof RIL_LceStatusInfo_t)
       [HRec [(''lceStatus'', HInt 0), (''actualIntervalMs'', HInt 0)]]
       (case r of
          Some (BLceStatus p) \<Rightarrow> Some [HRec [(''lceStatus'', HInt (lce_status p)),
                                        (''actualIntervalMs'', HInt (u8 (actual_interval_ms p)))]]
        | _ \<Rightarrow> None) v slot ty serial e s"

definition convertRilRadioCapabilityToHal :: "RIL_RadioCapability \<Rightarrow> hv option" where
  "convertRilRadioCapabilityToHal p =
     map_option (\<lambda>u. HRec [(''session'', HInt (cap_session p)), (''phase'', HInt (cap_phase p)), (''raf'', HInt (cap_rat p)),
                           (''logicalModemUuid'', u), (''status'', HInt (cap_status p))])
       (char_array (logicalModemUuid p))"

definition responseRadioCapability :: "string \<Rightarrow> response_fun" where
  "responseRadioCapability nm v slot ty serial e r len s =
     reply nm (r = None \<or> len \<noteq> c_sizeof RIL_RadioCapability_t)
       [HRec [(''session'', HInt 0), (''phase'', HInt 0), (''raf'', HInt 0), (''logicalModemUuid'', HText ''''),
              (''status'', HInt 0)]]
       (case r of Some (BCapability p) \<Rightarrow> map_option (\<lambda>h. [h]) (convertRilRadioCapabilityToHal p) | _ \<Rightarrow> None)
       v slot ty serial e s"

section \<open>Indications\<close>

definition convertIntToRadioIndicationType :: "int \<Rightarrow> indication_type" where
  "convertIntToRadioIndicationType t = (if t = 1 then UNSOLICITED else UNSOLICITED_ACK_EXP)"

text \<open>An indication that is not fit is dropped without a word; the error and the token are not used.\<close>

definition indicate :: "string \<Rightarrow> bool \<Rightarrow> hv list option \<Rightarrow> env \<Rightarrow> nat \<Rightarrow> int \<Rightarrow> svc \<Rightarrow> svc option" where
  "indicate nm bad good v slot ty s =
     (if \<not> has_indication (radio s slot) \<or> bad then Some s
      else map_option (\<lambda>args. call_back v True
             (Callback slot nm (Indication (convertIntToRadioIndicationType ty)) args) s) good)"

definition plain_indication :: "string \<Rightarrow> response_fun" where
  "plain_indication nm v slot ty token e r len s = indicate nm False (Some []) v slot ty s"

definition indicate_text :: "string \<Rightarrow> response_fun" where
  "indicate_text nm v slot ty token e r len s =
     indicate nm (r = None \<or> len = 0) (map_option (\<lambda>t. [convertCharPtrToHidlString t]) (c_text_of r)) v slot ty s"

definition indicate_int :: "string \<Rightarrow> (int \<Rightarrow> hv) \<Rightarrow> response_fun" where
  "indicate_int nm f v slot ty token e r len s =
     indicate nm (r = None \<or> len \<noteq> 4) (map_option (map f) (ints 1 r)) v slot ty s"

definition indicate_bytes :: "string \<Rightarrow> response_fun" where
  "indicate_bytes nm v slot ty token e r len s =
     indicate nm (r = None \<or> len = 0)
       (case r of Some (BBytes b) \<Rightarrow> if len \<le> length b then Some [HBytes (take len b)] else None | _ \<Rightarrow> None)
       v slot ty s"

section \<open>The status of a network\<close>

text \<open>\<open>strncmp (word, text, 9) = 0\<close>.\<close>

definition strncmp9 :: "string \<Rightarrow> string \<Rightarrow> bool" where
  "strncmp9 w t = (take 9 (w @ [CHR 0x00]) = take 9 (c_str t @ [CHR 0x00]))"

definition convertOperatorStatusToInt :: "string \<Rightarrow> int" where
  "convertOperatorStatusToInt t =
     (if strncmp9 ''unknown'' t then 0 else if strncmp9 ''available'' t then 1
      else if strncmp9 ''current'' t then 2 else if strncmp9 ''forbidden'' t then 3 else -1)"

section \<open>What they share\<close>

text \<open>
  What a response has to be: nothing is looked at; a text; a number; a number that old libraries leave out;
  one of some lengths; a number of records of a size; so many items of a size; at least a length; anything at
  all; nothing or a length; one thing from old libraries and another from new ones; something that is not an
  error on the vendor's hardware; the number of a channel with bytes; networks, each with a known status.
\<close>

datatype expects =
    NoData
  | AnyText
  | OneInt
  | IntOrNothing
  | Lengths "nat list"
  | Records nat
  | Items nat "nat list"
  | AtLeast nat
  | Given
  | Optional nat
  | ByVersion expects expects
  | Spared expects
  | Channel
  | Networks

text \<open>The last of each four texts, where there is one, is a status that is known.\<close>

fun known_statuses :: "c_text list \<Rightarrow> bool" where
  "known_statuses (a # b # c # d # ts) =
     ((case d of None \<Rightarrow> True | Some t \<Rightarrow> convertOperatorStatusToInt t \<noteq> -1) \<and> known_statuses ts)"
| "known_statuses _ = True"

fun fits_as :: "env \<Rightarrow> expects \<Rightarrow> response \<Rightarrow> nat \<Rightarrow> bool" where
  "fits_as v NoData r len = True"
| "fits_as v AnyText r len = True"
| "fits_as v OneInt r len = (r \<noteq> None \<and> len = 4)"
| "fits_as v IntOrNothing r len = (if r = None then len = 0 else len = 4)"
| "fits_as v (Lengths ns) r len = (r \<noteq> None \<and> len \<in> set ns)"
| "fits_as v (Records n) r len = (r \<noteq> None \<and> len mod n = 0)"
| "fits_as v (Items n ks) r len = (r \<noteq> None \<and> len div n \<in> set ks)"
| "fits_as v (AtLeast n) r len = (r \<noteq> None \<and> n \<le> len)"
| "fits_as v Given r len = (r \<noteq> None)"
| "fits_as v (Optional n) r len = (r = None \<or> len = n)"
| "fits_as v (ByVersion k1 k2) r len = (if vendor_version v \<le> 14 then fits_as v k1 r len else fits_as v k2 r len)"
| "fits_as v (Spared k) r len = (mtk v \<or> fits_as v k r len)"
| "fits_as v Channel r len = (r \<noteq> None \<and> len mod 4 = 0)"
| "fits_as v Networks r len =
     (r \<noteq> None \<and> len mod 32 = 0 \<and> (case texts (len div 8) r of None \<Rightarrow> True | Some ts \<Rightarrow> known_statuses ts))"

text \<open>
  The arguments of the call, where they are a text, a number or a list: the value that the vendor gave, or
  -1 and the empty list; a list has an element for each record.
\<close>

fun says :: "expects \<Rightarrow> response \<Rightarrow> nat \<Rightarrow> hv list \<Rightarrow> bool" where
  "says NoData r len args = (args = [])"
| "says AnyText r len args = (map_option (\<lambda>t. [convertCharPtrToHidlString t]) (c_text_of r) = Some args)"
| "says OneInt r len args =
     (if r \<noteq> None \<and> len = 4 then map_option (map HInt) (ints 1 r) = Some args else args = [HInt (-1)])"
| "says IntOrNothing r len args =
     (if r \<noteq> None \<and> len = 4 then map_option (map HInt) (ints 1 r) = Some args else args = [HInt (-1)])"
| "says (Records n) r len args =
     (case args of [HVec hs] \<Rightarrow> length hs = (if r \<noteq> None \<and> len mod n = 0 then len div n else 0) | _ \<Rightarrow> False)"
| "says _ r len args = True"

text \<open>
  \<open>answers b nm k f\<close>, where \<open>b\<close> tells the radio from the OEM service: without a client \<open>f\<close> does
  nothing; with one it either has no meaning or makes one call, of \<open>nm\<close>, with the serial number and the type
  it was given, which reports an error as that error and a success as a success if the response is what \<open>k\<close>
  expects, else as \<open>INVALID_RESPONSE\<close>.  \<open>indicates nm f\<close>: \<open>f\<close> makes that call or none.
\<close>

definition reply_info :: "env \<Rightarrow> expects \<Rightarrow> int \<Rightarrow> int \<Rightarrow> int \<Rightarrow> response \<Rightarrow> nat \<Rightarrow> response_info" where
  "reply_info v k ty serial e r len =
     \<lparr>info_serial = serial,
      info_type = (if ty = RESPONSE_SOLICITED_ACK_EXP then SOLICITED_ACK_EXP else SOLICITED),
      info_error = (if e = 0 \<and> \<not> fits_as v k r len then INVALID_RESPONSE else RadioError e)\<rparr>"

definition same_clients :: "svc \<Rightarrow> svc \<Rightarrow> bool" where
  "same_clients s s' \<longleftrightarrow> callbacks s' = callbacks s \<and> radio s' = radio s \<and> oem s' = oem s"

definition answers :: "bool \<Rightarrow> string \<Rightarrow> expects \<Rightarrow> response_fun \<Rightarrow> bool" where
  "answers b nm k f \<longleftrightarrow>
     (\<forall>v slot ty serial e r len s s'. f v slot ty serial e r len s = Some s' \<longrightarrow>
        (if has_response (client_of b s slot)
         then \<exists>s1 args. same_clients s s1 \<and>
                s' = call_back v b (Callback slot nm (Reply (reply_info v k ty serial e r len)) args) s1 \<and> says k r len args
         else s' = s))"

definition indicates :: "string \<Rightarrow> response_fun \<Rightarrow> bool" where
  "indicates nm f \<longleftrightarrow>
     (\<forall>v slot ty token e r len s s'. f v slot ty token e r len s = Some s' \<longrightarrow>
        (if has_indication (radio s slot)
         then \<exists>s1. same_clients s s1 \<and> (s' = s1 \<or>
                (\<exists>args. s' = call_back v True (Callback slot nm (Indication (convertIntToRadioIndicationType ty)) args) s1))
         else s' = s))"

lemma same_clients_refl [simp]: "same_clients s s"
  by (simp add: same_clients_def)

text \<open>\<open>meets_empty f\<close>: an error without a response, as \<open>sendErrorResponse\<close> makes it, always has a meaning.\<close>

definition meets_empty :: "response_fun \<Rightarrow> bool" where
  "meets_empty f \<longleftrightarrow> (\<forall>v slot ty serial e s. f v slot ty serial e None 0 s \<noteq> None)"

lemma callbacks_checkReturnStatus [simp]: "callbacks (checkReturnStatus v slot b n s) = callbacks s"
  by (simp add: checkReturnStatus_def)

lemma callbacks_call_back [simp]: "callbacks (call_back v b c s) = callbacks s @ [c]"
  by (simp add: call_back_def)

lemma info_populate [simp]:
  "info_serial (populateResponseInfo serial ty e) = serial"
  "info_error (populateResponseInfo serial ty e) = RadioError e"
  by (simp_all add: populateResponseInfo_def)

lemma info_invalid [simp]:
  "info_serial (invalid e i) = info_serial i"
  "info_error (invalid e i) = (if e = 0 then INVALID_RESPONSE else info_error i)"
  by (simp_all add: invalid_def)

lemma info_reply [simp]:
  "info_serial (reply_info v k ty serial e r len) = serial"
  "info_error (reply_info v k ty serial e r len) =
     (if e = 0 \<and> \<not> fits_as v k r len then INVALID_RESPONSE else RadioError e)"
  by (simp_all add: reply_info_def)

lemma reply_info_eq:
  "reply_info v k ty serial e r len =
     (let i = populateResponseInfo serial ty e in if fits_as v k r len then i else invalid e i)"
  by (simp add: reply_info_def populateResponseInfo_def invalid_def Let_def)

lemma reply_callbacks:
  assumes "reply_to b nm bad none good v slot ty serial e s = Some s'" and u: "bad = (\<not> fits_as v k r len)"
    and none: "bad \<longrightarrow> says k r len none" and good: "\<forall>a. \<not> bad \<and> good = Some a \<longrightarrow> says k r len a"
  shows "if has_response (client_of b s slot)
         then \<exists>args. s' = call_back v b (Callback slot nm (Reply (reply_info v k ty serial e r len)) args) s \<and> says k r len args
         else s' = s"
proof (cases "has_response (client_of b s slot)")
  case False
  then show ?thesis using assms(1) by (simp add: reply_to_def)
next
  case True
  then show ?thesis using assms by (cases bad) (auto simp: reply_to_def Let_def reply_info_eq)
qed

lemma answersI:
  assumes "\<And>v slot ty serial e r len s s'. f v slot ty serial e r len s = Some s' \<Longrightarrow>
    \<exists>bad none good. reply_to b nm bad none good v slot ty serial e s = Some s' \<and> bad = (\<not> fits_as v k r len) \<and>
      (bad \<longrightarrow> says k r len none) \<and> (\<forall>a. \<not> bad \<and> good = Some a \<longrightarrow> says k r len a)"
  shows "answers b nm k f"
  unfolding answers_def
proof (intro allI impI)
  fix v slot ty serial e r len s s'
  assume "f v slot ty serial e r len s = Some s'"
  from assms[OF this] obtain bad none good where
    *: "reply_to b nm bad none good v slot ty serial e s = Some s'" "bad = (\<not> fits_as v k r len)"
      "bad \<longrightarrow> says k r len none" "\<forall>a. \<not> bad \<and> good = Some a \<longrightarrow> says k r len a" by (elim exE conjE, intro that)
  from reply_callbacks[OF *] same_clients_refl[of s]
  show "if has_response (client_of b s slot)
        then \<exists>s1 args. same_clients s s1 \<and>
               s' = call_back v b (Callback slot nm (Reply (reply_info v k ty serial e r len)) args) s1 \<and> says k r len args
        else s' = s"
    by (cases "has_response (client_of b s slot)") (simp_all only: if_True if_False, blast)
qed

lemma answers_replyI:
  assumes "\<And>v slot ty serial e r len s s'. f v slot ty serial e r len s = Some s' \<Longrightarrow>
    \<exists>bad none good. reply nm bad none good v slot ty serial e s = Some s' \<and> bad = (\<not> fits_as v k r len) \<and>
      (bad \<longrightarrow> says k r len none) \<and> (\<forall>a. \<not> bad \<and> good = Some a \<longrightarrow> says k r len a)"
  shows "answers True nm k f"
  using assms unfolding reply_def by (rule answersI)

lemma reply_to_None: "reply_to b nm bad none good v slot ty serial e s = None \<longleftrightarrow>
    has_response (client_of b s slot) \<and> \<not> bad \<and> good = None"
  by (simp add: reply_to_def Let_def)

lemma reply_None: "reply nm bad none good v slot ty serial e s = None \<longleftrightarrow>
    has_response (radio s slot) \<and> \<not> bad \<and> good = None"
  by (simp add: reply_def reply_to_None client_of_def)

lemma answers_plain: "answers True nm NoData (plain_response nm)"
  by (rule answers_replyI, unfold plain_response_def, intro exI conjI, assumption) simp_all

lemma answers_responseInt: "answers True nm OneInt (responseInt nm)"
  by (rule answers_replyI, unfold responseInt_def, intro exI conjI, assumption) auto

lemma responseIntOrEmpty_eq:
  "responseIntOrEmpty nm v slot ty serial e r len s =
     reply nm (\<not> fits_as v IntOrNothing r len) [HInt (-1)]
       (if r = None then Some [HInt (-1)] else map_option (map HInt) (ints 1 r)) v slot ty serial e s"
  by (cases r; cases "len = 0") (simp_all add: responseIntOrEmpty_def reply_def reply_to_def Let_def)

lemma answers_responseIntOrEmpty: "answers True nm IntOrNothing (responseIntOrEmpty nm)"
  by (rule answers_replyI, unfold responseIntOrEmpty_eq, intro exI conjI, assumption) auto

lemma answers_text: "answers True nm AnyText (response_text nm)"
  by (rule answers_replyI, unfold response_text_def, intro exI conjI, assumption) simp_all

lemma answers_sms: "answers True nm (Lengths [c_sizeof RIL_SMS_Response_t]) (makeSendSmsResult nm)"
  by (rule answers_replyI, unfold makeSendSmsResult_def, intro exI conjI, assumption) simp_all

lemma answers_io: "answers True nm (Lengths [c_sizeof RIL_SIM_IO_Response_t]) (responseIccIo nm)"
  by (rule answers_replyI, unfold responseIccIo_def, intro exI conjI, assumption) simp_all

lemma answers_lce: "answers True nm (Lengths [c_sizeof RIL_LceStatusInfo_t]) (responseLceStatusInfo nm)"
  by (rule answers_replyI, unfold responseLceStatusInfo_def, intro exI conjI, assumption) simp_all

lemma answers_capability: "answers True nm (Lengths [c_sizeof RIL_RadioCapability_t]) (responseRadioCapability nm)"
  by (rule answers_replyI, unfold responseRadioCapability_def, intro exI conjI, assumption) simp_all

lemmas answers_shapes = answers_plain answers_responseInt answers_responseIntOrEmpty answers_text answers_sms
  answers_io answers_lce answers_capability

lemma meets_shapes:
  "meets_empty (plain_response nm)" "meets_empty (responseInt nm)" "meets_empty (responseIntOrEmpty nm)"
  "meets_empty (response_text nm)" "meets_empty (makeSendSmsResult nm)" "meets_empty (responseIccIo nm)"
  "meets_empty (responseLceStatusInfo nm)" "meets_empty (responseRadioCapability nm)"
  by (simp_all add: meets_empty_def plain_response_def responseInt_def responseIntOrEmpty_def response_text_def c_text_of_def
      makeSendSmsResult_def responseIccIo_def responseLceStatusInfo_def responseRadioCapability_def reply_None)

lemma indicate_callbacks:
  assumes "indicate nm bad good v slot ty s = Some s'"
  shows "if has_indication (radio s slot)
         then s' = s \<or>
           (\<exists>args. s' = call_back v True (Callback slot nm (Indication (convertIntToRadioIndicationType ty)) args) s)
         else s' = s"
  using assms by (auto simp: indicate_def split: if_splits)

lemma indicatesI:
  assumes "\<And>v slot ty token e r len s s'. f v slot ty token e r len s = Some s' \<Longrightarrow>
    s' = s \<or> (\<exists>bad good s1. indicate nm bad good v slot ty s1 = Some s' \<and>
      has_indication (radio s slot) \<and> same_clients s s1) \<or> (\<exists>bad good. indicate nm bad good v slot ty s = Some s')"
  shows "indicates nm f"
  unfolding indicates_def
proof (intro allI impI)
  fix v slot ty token e r len s s'
  let ?ok = "\<lambda>s1. s' = s1 \<or>
    (\<exists>args. s' = call_back v True (Callback slot nm (Indication (convertIntToRadioIndicationType ty)) args) s1)"
  assume "f v slot ty token e r len s = Some s'"
  from assms[OF this] have "if has_indication (radio s slot) then \<exists>s1. same_clients s s1 \<and> ?ok s1 else s' = s"
  proof (elim disjE exE conjE)
    assume "s' = s"
    then have "same_clients s s \<and> ?ok s" by simp
    with \<open>s' = s\<close> show ?thesis by (cases "has_indication (radio s slot)") (simp_all only: if_True if_False, blast)
  next
    fix bad good s1
    assume *: "indicate nm bad good v slot ty s1 = Some s'" "has_indication (radio s slot)" "same_clients s s1"
    from *(2,3) have "has_indication (radio s1 slot)" by (simp add: same_clients_def)
    with indicate_callbacks[OF *(1)] have "?ok s1" by simp
    with *(2,3) show ?thesis by (simp only: if_True) blast
  next
    fix bad good
    assume "indicate nm bad good v slot ty s = Some s'"
    from indicate_callbacks[OF this] same_clients_refl[of s] show ?thesis
      by (cases "has_indication (radio s slot)") (simp_all only: if_True if_False, blast)
  qed
  then show "if has_indication (radio s slot)
        then \<exists>s1. same_clients s s1 \<and> (s' = s1 \<or>
               (\<exists>args. s' = call_back v True (Callback slot nm (Indication (convertIntToRadioIndicationType ty)) args) s1))
        else s' = s" .
qed

lemma indicates_indicateI:
  assumes "\<And>v slot ty token e r len s s'. f v slot ty token e r len s = Some s' \<Longrightarrow>
    \<exists>bad good. indicate nm bad good v slot ty s = Some s'"
  shows "indicates nm f"
  using assms by (intro indicatesI) blast

lemma indicates_shapes:
  "indicates nm (plain_indication nm)" "indicates nm (indicate_text nm)" "indicates nm (indicate_int nm f)"
  "indicates nm (indicate_bytes nm)"
  by (rule indicates_indicateI, auto simp only: plain_indication_def indicate_text_def indicate_int_def indicate_bytes_def)+

end
