(* ===== verification/Ril_Cells.thy ===== *)
theory Ril_Cells
  imports Ril_Hidl
begin

text \<open>
  Cells and registration in \<open>ril_service.cpp\<close>: the radio technology of a text, the identity of a cell
  from the texts of a registration state or from a structure, the list of cells, the signal strengths
  and the responses that carry them.
\<close>

section \<open>Technologies\<close>

definition RIL_CELL_INFO_TYPE_NONE :: int where "RIL_CELL_INFO_TYPE_NONE = 0"
definition RIL_CELL_INFO_TYPE_GSM :: int where "RIL_CELL_INFO_TYPE_GSM = 1"
definition RIL_CELL_INFO_TYPE_CDMA :: int where "RIL_CELL_INFO_TYPE_CDMA = 2"
definition RIL_CELL_INFO_TYPE_LTE :: int where "RIL_CELL_INFO_TYPE_LTE = 3"
definition RIL_CELL_INFO_TYPE_WCDMA :: int where "RIL_CELL_INFO_TYPE_WCDMA = 4"
definition RIL_CELL_INFO_TYPE_TD_SCDMA :: int where "RIL_CELL_INFO_TYPE_TD_SCDMA = 5"

lemmas cell_types = RIL_CELL_INFO_TYPE_NONE_def RIL_CELL_INFO_TYPE_GSM_def RIL_CELL_INFO_TYPE_CDMA_def
  RIL_CELL_INFO_TYPE_LTE_def RIL_CELL_INFO_TYPE_WCDMA_def RIL_CELL_INFO_TYPE_TD_SCDMA_def

text \<open>\<open>RIL_RadioTechnology\<close>: the numbers of the technologies of each kind.\<close>

definition gsm_technologies :: "int list" where "gsm_technologies = [1, 2, 16]"
definition wcdma_technologies :: "int list" where "wcdma_technologies = [3, 9, 10, 11, 15]"
definition cdma_technologies :: "int list" where "cdma_technologies = [4, 5, 6, 7, 8, 12, 13]"
definition lte_technologies :: "int list" where "lte_technologies = [14, 19]"

definition getCellInfoTypeRadioTechnology :: "c_text \<Rightarrow> int" where
  "getCellInfoTypeRadioTechnology rat =
     (case rat of
        None \<Rightarrow> RIL_CELL_INFO_TYPE_NONE
      | Some t \<Rightarrow>
          let n = c_atoi t
          in if n \<in> set gsm_technologies then RIL_CELL_INFO_TYPE_GSM
             else if n \<in> set wcdma_technologies then RIL_CELL_INFO_TYPE_WCDMA
             else if n \<in> set cdma_technologies then RIL_CELL_INFO_TYPE_CDMA
             else if n \<in> set lte_technologies then RIL_CELL_INFO_TYPE_LTE
             else if n = 17 then RIL_CELL_INFO_TYPE_TD_SCDMA
             else RIL_CELL_INFO_TYPE_NONE)"

section \<open>The identity of a cell\<close>

definition vec_if :: "bool \<Rightarrow> hv \<Rightarrow> hv" where
  "vec_if b h = HVec (if b then [h] else [])"

definition cell_text :: "int \<Rightarrow> hv" where
  "cell_text n = HText (show_int n)"

definition identity_gsm :: "int list \<Rightarrow> hv" where
  "identity_gsm w = HRec [(''mcc'', cell_text (w ! 0)), (''mnc'', cell_text (w ! 1)), (''lac'', HInt (w ! 2)),
     (''cid'', HInt (w ! 3)), (''arfcn'', HInt (w ! 4)), (''bsic'', HInt (u8 (w ! 5)))]"

definition identity_wcdma :: "int list \<Rightarrow> hv" where
  "identity_wcdma w = HRec [(''mcc'', cell_text (w ! 0)), (''mnc'', cell_text (w ! 1)), (''lac'', HInt (w ! 2)),
     (''cid'', HInt (w ! 3)), (''psc'', HInt (w ! 4)), (''uarfcn'', HInt (w ! 5))]"

definition identity_cdma :: "int list \<Rightarrow> hv" where
  "identity_cdma w = HRec [(''networkId'', HInt (w ! 0)), (''systemId'', HInt (w ! 1)), (''baseStationId'', HInt (w ! 2)),
     (''longitude'', HInt (w ! 3)), (''latitude'', HInt (w ! 4))]"

definition identity_lte :: "int list \<Rightarrow> hv" where
  "identity_lte w = HRec [(''mcc'', cell_text (w ! 0)), (''mnc'', cell_text (w ! 1)), (''ci'', HInt (w ! 2)),
     (''pci'', HInt (w ! 3)), (''tac'', HInt (w ! 4)), (''earfcn'', HInt (w ! 5))]"

definition identity_tdscdma :: "int list \<Rightarrow> hv" where
  "identity_tdscdma w = HRec [(''mcc'', cell_text (w ! 0)), (''mnc'', cell_text (w ! 1)), (''lac'', HInt (w ! 2)),
     (''cid'', HInt (w ! 3)), (''cpid'', HInt (w ! 4))]"

text \<open>The union of an identity has six words.\<close>

definition fillCellIdentityResponse :: "RIL_CellIdentity_v16 \<Rightarrow> hv option" where
  "fillCellIdentityResponse c =
     (let t = cell_type c; w = cell_words c
      in if length w \<noteq> 6 then None
         else Some (HRec [(''cellInfoType'', HInt t),
           (''cellIdentityGsm'', vec_if (t = RIL_CELL_INFO_TYPE_GSM) (identity_gsm w)),
           (''cellIdentityWcdma'', vec_if (t = RIL_CELL_INFO_TYPE_WCDMA) (identity_wcdma w)),
           (''cellIdentityCdma'', vec_if (t = RIL_CELL_INFO_TYPE_CDMA) (identity_cdma w)),
           (''cellIdentityLte'', vec_if (t = RIL_CELL_INFO_TYPE_LTE) (identity_lte w)),
           (''cellIdentityTdscdma'', vec_if (t = RIL_CELL_INFO_TYPE_TD_SCDMA) (identity_tdscdma w))]))"

text \<open>The texts behind a response, wherever they end; what is behind them has no meaning.\<close>

definition resp_text_at :: "c_text list \<Rightarrow> nat \<Rightarrow> c_text option" where
  "resp_text_at ts i = (if i < length ts then Some (ts ! i) else None)"

text \<open>A hexadecimal number; -1 when the response does not have it.\<close>

definition convertResponseStringEntryToInt :: "c_text list \<Rightarrow> nat \<Rightarrow> nat \<Rightarrow> int option" where
  "convertResponseStringEntryToInt ts i numStrings =
     (if i < numStrings then
        map_option (\<lambda>p. case p of None \<Rightarrow> -1 | Some t \<Rightarrow> c32 (fst (c_strtol 64 16 t))) (resp_text_at ts i)
      else Some (-1))"

text \<open>Which word of the identity is which text, for every kind of cell; the others stay -1.\<close>

definition voice_words :: "int \<Rightarrow> (nat \<times> nat) list" where
  "voice_words t =
     (if t = RIL_CELL_INFO_TYPE_GSM then [(2, 1), (3, 2)]
      else if t = RIL_CELL_INFO_TYPE_WCDMA then [(2, 1), (3, 2), (4, 14)]
      else if t = RIL_CELL_INFO_TYPE_TD_SCDMA then [(2, 1), (3, 2)]
      else if t = RIL_CELL_INFO_TYPE_CDMA then [(2, 4), (3, 5), (4, 6), (1, 8), (0, 9)]
      else if t = RIL_CELL_INFO_TYPE_LTE then [(4, 1), (2, 2)] else [])"

definition data_words :: "int \<Rightarrow> (nat \<times> nat) list" where
  "data_words t =
     (if t = RIL_CELL_INFO_TYPE_GSM then [(2, 1), (3, 2)]
      else if t = RIL_CELL_INFO_TYPE_WCDMA then [(2, 1), (3, 2)]
      else if t = RIL_CELL_INFO_TYPE_TD_SCDMA then [(2, 1), (3, 2)]
      else if t = RIL_CELL_INFO_TYPE_LTE then [(4, 6), (3, 7), (2, 8)] else [])"

primrec set_words :: "(nat \<times> nat) list \<Rightarrow> c_text list \<Rightarrow> nat \<Rightarrow> int list \<Rightarrow> int list option" where
  "set_words [] ts n w = Some w"
| "set_words (p # ps) ts n w =
     (case convertResponseStringEntryToInt ts (snd p) n of
        None \<Rightarrow> None | Some i \<Rightarrow> set_words ps ts n (w[fst p := i]))"

definition fill_from_texts :: "(int \<Rightarrow> (nat \<times> nat) list) \<Rightarrow> nat \<Rightarrow> c_text list \<Rightarrow> hv option" where
  "fill_from_texts f n ts =
     do { rat \<leftarrow> resp_text_at ts 3;
          w \<leftarrow> set_words (f (getCellInfoTypeRadioTechnology rat)) ts n (replicate 6 (-1));
          fillCellIdentityResponse (CellIdentity (getCellInfoTypeRadioTechnology rat) w) }"

definition fillCellIdentityFromVoiceRegStateResponseString :: "nat \<Rightarrow> c_text list \<Rightarrow> hv option" where
  "fillCellIdentityFromVoiceRegStateResponseString = fill_from_texts voice_words"

definition fillCellIdentityFromDataRegStateResponseString :: "nat \<Rightarrow> c_text list \<Rightarrow> hv option" where
  "fillCellIdentityFromDataRegStateResponseString = fill_from_texts data_words"

section \<open>Registration states\<close>

definition atoi_or :: "int \<Rightarrow> c_text \<Rightarrow> int" where
  "atoi_or d p = (case p of None \<Rightarrow> d | Some t \<Rightarrow> c_atoi t)"

definition no_cell :: hv where
  "no_cell = HRec [(''cellInfoType'', HInt 0), (''cellIdentityGsm'', HVec []), (''cellIdentityWcdma'', HVec []),
     (''cellIdentityCdma'', HVec []), (''cellIdentityLte'', HVec []), (''cellIdentityTdscdma'', HVec [])]"

definition voice_result :: "int list \<Rightarrow> bool \<Rightarrow> hv \<Rightarrow> hv" where
  "voice_result xs css cell = HRec [(''regState'', HInt (xs ! 0)), (''rat'', HInt (xs ! 1)), (''cssSupported'', HBool css),
     (''roamingIndicator'', HInt (xs ! 2)), (''systemIsInPrl'', HInt (xs ! 3)),
     (''defaultRoamingIndicator'', HInt (xs ! 4)), (''reasonForDenial'', HInt (xs ! 5)), (''cellIdentity'', cell)]"

text \<open>
  With more than four texts those at 7 and 10 to 13 are read, without looking if there are as many.
\<close>

definition voice_texts :: "nat \<Rightarrow> response \<Rightarrow> hv option" where
  "voice_texts n r =
     (case r of
        Some (BTexts ts) \<Rightarrow>
          do { t0 \<leftarrow> resp_text_at ts 0; t3 \<leftarrow> resp_text_at ts 3;
               more5 \<leftarrow> (if 4 < n then those (map (resp_text_at ts) [7, 10, 11, 12, 13]) else Some []);
               cell \<leftarrow> fillCellIdentityFromVoiceRegStateResponseString n ts;
               Some (if more5 = [] then voice_result [atoi_or 4 t0, atoi_or (-1) t3, -1, 0, 0, 0] False cell
                     else voice_result [atoi_or 4 t0, atoi_or (-1) t3, atoi_or (-1) (more5 ! 1), atoi_or 0 (more5 ! 2),
                            atoi_or 0 (more5 ! 3), atoi_or 0 (more5 ! 4)] (atoi_or 0 (more5 ! 0) \<noteq> 0) cell) }
      | _ \<Rightarrow> None)"

definition voice_struct :: "response \<Rightarrow> hv option" where
  "voice_struct r =
     (case r of
        Some (BVoiceReg p) \<Rightarrow>
          map_option (voice_result [vr_regState p, vr_rat p, roamingIndicator p, systemIsInPrl p,
              defaultRoamingIndicator p, reasonForDenial p] (cssSupported p \<noteq> 0))
            (fillCellIdentityResponse (vr_cellIdentity p))
      | _ \<Rightarrow> None)"

definition getVoiceRegistrationStateResponse :: response_fun where
  "getVoiceRegistrationStateResponse v slot ty serial e r len s =
     (let n = len div 8; old = vendor_version v \<le> 14
      in reply ''getVoiceRegistrationStateResponse''
           (r = None \<or> (if old then n < 4 else len \<noteq> c_sizeof RIL_VoiceRegistrationStateResponse_t))
           [voice_result [0, 0, 0, 0, 0, 0] False no_cell]
           (map_option (\<lambda>h. [h]) (if old then voice_texts n r else voice_struct r)) v slot ty serial e s)"

definition data_result :: "int \<Rightarrow> int \<Rightarrow> int \<Rightarrow> int \<Rightarrow> hv \<Rightarrow> hv" where
  "data_result st rat denied calls cell = HRec [(''regState'', HInt st), (''rat'', HInt rat),
     (''reasonDataDenied'', HInt denied), (''maxDataCalls'', HInt calls), (''cellIdentity'', cell)]"

text \<open>The vendor's own technologies become HSPAP.\<close>

definition known_rat :: "bool \<Rightarrow> int \<Rightarrow> int" where
  "known_rat mtk_hardware rat = (if mtk_hardware \<and> 128 \<le> rat then 15 else rat)"

definition data_texts :: "bool \<Rightarrow> nat \<Rightarrow> response \<Rightarrow> hv option" where
  "data_texts mtk_hardware n r =
     (case r of
        Some (BTexts ts) \<Rightarrow>
          do { t0 \<leftarrow> resp_text_at ts 0; t3 \<leftarrow> resp_text_at ts 3;
               more2 \<leftarrow> (if 4 < n then those (map (resp_text_at ts) [4, 5]) else Some []);
               cell \<leftarrow> fillCellIdentityFromDataRegStateResponseString n ts;
               Some (data_result (atoi_or 4 t0) (known_rat mtk_hardware (atoi_or 0 t3))
                       (if more2 = [] then -1 else atoi_or (-1) (more2 ! 0))
                       (if more2 = [] then 1 else atoi_or 1 (more2 ! 1)) cell) }
      | _ \<Rightarrow> None)"

definition data_struct :: "response \<Rightarrow> hv option" where
  "data_struct r =
     (case r of
        Some (BDataReg p) \<Rightarrow>
          map_option (data_result (dr_regState p) (dr_rat p) (reasonDataDenied p) (maxDataCalls p))
            (fillCellIdentityResponse (dr_cellIdentity p))
      | _ \<Rightarrow> None)"

definition getDataRegistrationStateResponse :: response_fun where
  "getDataRegistrationStateResponse v slot ty serial e r len s =
     (let n = len div 8; old = vendor_version v \<le> 14
      in reply ''getDataRegistrationStateResponse''
           (r = None \<or> (if old then n \<noteq> 4 \<and> n \<noteq> 6 \<and> n \<noteq> 11
                        else len \<noteq> c_sizeof RIL_DataRegistrationStateResponse_t))
           [data_result 0 0 0 0 no_cell]
           (map_option (\<lambda>h. [h]) (if old then data_texts (mtk v) n r else data_struct r)) v slot ty serial e s)"

section \<open>The list of cells\<close>

text \<open>
  With \<open>MTK_HARDWARE\<close> the structure is the older one, some fields of the interface are not set, and the
  pointer stays at the first cell.
\<close>

definition cell_gsm :: "bool \<Rightarrow> int \<Rightarrow> int list \<Rightarrow> hv" where
  "cell_gsm m junk w =
     (let k = (if m then 4 else 6)
      in HRec [(''cellIdentityGsm'', HRec [(''mcc'', cell_text (w ! 0)), (''mnc'', cell_text (w ! 1)), (''lac'', HInt (w ! 2)),
                 (''cid'', HInt (w ! 3)), (''arfcn'', HInt (if m then junk else w ! 4)),
                 (''bsic'', HInt (u8 (if m then junk else w ! 5)))]),
               (''signalStrengthGsm'', HRec [(''signalStrength'', HInt (w ! k)), (''bitErrorRate'', HInt (w ! (k + 1))),
                 (''timingAdvance'', HInt (if m then junk else w ! (k + 2)))])])"

definition cell_wcdma :: "bool \<Rightarrow> int \<Rightarrow> int list \<Rightarrow> hv" where
  "cell_wcdma m junk w =
     (let k = (if m then 5 else 6)
      in HRec [(''cellIdentityWcdma'', HRec [(''mcc'', cell_text (w ! 0)), (''mnc'', cell_text (w ! 1)), (''lac'', HInt (w ! 2)),
                 (''cid'', HInt (w ! 3)), (''psc'', HInt (w ! 4)), (''uarfcn'', HInt (if m then junk else w ! 5))]),
               (''signalStrengthWcdma'', HRec [(''signalStrength'', HInt (w ! k)), (''bitErrorRate'', HInt (w ! (k + 1)))])])"

definition cell_cdma :: "int list \<Rightarrow> hv" where
  "cell_cdma w =
     HRec [(''cellIdentityCdma'', identity_cdma w),
           (''signalStrengthCdma'', HRec [(''dbm'', HInt (w ! 5)), (''ecio'', HInt (w ! 6))]),
           (''signalStrengthEvdo'', HRec [(''dbm'', HInt (w ! 7)), (''ecio'', HInt (w ! 8)),
              (''signalNoiseRatio'', HInt (w ! 9))])]"

definition cell_lte :: "bool \<Rightarrow> int \<Rightarrow> int list \<Rightarrow> hv" where
  "cell_lte m junk w =
     (let k = (if m then 5 else 6)
      in HRec [(''cellIdentityLte'', HRec [(''mcc'', cell_text (w ! 0)), (''mnc'', cell_text (w ! 1)), (''ci'', HInt (w ! 2)),
                 (''pci'', HInt (w ! 3)), (''tac'', HInt (w ! 4)), (''earfcn'', HInt (if m then junk else w ! 5))]),
               (''signalStrengthLte'', HRec [(''signalStrength'', HInt (w ! k)), (''rsrp'', HInt (w ! (k + 1))),
                 (''rsrq'', HInt (w ! (k + 2))), (''rssnr'', HInt (w ! (k + 3))), (''cqi'', HInt (w ! (k + 4))),
                 (''timingAdvance'', HInt (if m then junk else w ! (k + 5)))])])"

definition cell_tdscdma :: "int list \<Rightarrow> hv" where
  "cell_tdscdma w =
     HRec [(''cellIdentityTdscdma'', identity_tdscdma w), (''signalStrengthTdscdma'', HRec [(''rscp'', HInt (w ! 5))])]"

text \<open>The union has eleven words, or twelve in the newer structure.\<close>

definition convert_cell :: "bool \<Rightarrow> int \<Rightarrow> RIL_CellInfo \<Rightarrow> hv option" where
  "convert_cell m junk c =
     (let t = cellInfoType c; w = cell_info_words c
      in if length w \<noteq> (if m then 11 else 12) then None
         else Some (HRec [(''cellInfoType'', HInt t), (''registered'', HBool (registered c \<noteq> 0)),
           (''timeStampType'', HInt (timeStampType c)), (''timeStamp'', HInt (timeStamp c)),
           (''gsm'', vec_if (t = RIL_CELL_INFO_TYPE_GSM) (cell_gsm m junk w)),
           (''wcdma'', vec_if (t = RIL_CELL_INFO_TYPE_WCDMA) (cell_wcdma m junk w)),
           (''cdma'', vec_if (t = RIL_CELL_INFO_TYPE_CDMA) (cell_cdma w)),
           (''lte'', vec_if (t = RIL_CELL_INFO_TYPE_LTE) (cell_lte m junk w)),
           (''tdscdma'', vec_if (t = RIL_CELL_INFO_TYPE_TD_SCDMA) (cell_tdscdma w))]))"

definition convertRilCellInfoListToHal :: "env \<Rightarrow> response \<Rightarrow> nat \<Rightarrow> hv option" where
  "convertRilCellInfoListToHal v r len =
     (let n = len div c_sizeof (if mtk v then RIL_CellInfo_t else RIL_CellInfo_v12_t)
      in if n = 0 then Some (HVec [])
         else case r of
           Some (BCells cs) \<Rightarrow>
             do { ps \<leftarrow> (if mtk v then map_option (replicate n) (map_option hd (elements 1 cs)) else elements n cs);
                  hs \<leftarrow> those (map (convert_cell (mtk v) (leftover v)) ps);
                  Some (HVec hs) }
         | _ \<Rightarrow> None)"

definition getCellInfoListResponse :: response_fun where
  "getCellInfoListResponse v slot ty serial e r len s =
     reply ''getCellInfoListResponse'' (r = None \<or> len mod c_sizeof RIL_CellInfo_v12_t \<noteq> 0) [HVec []]
       (map_option (\<lambda>h. [h]) (convertRilCellInfoListToHal v r len)) v slot ty serial e s"

definition cellInfoListInd :: response_fun where
  "cellInfoListInd v slot ty token e r len s =
     indicate ''cellInfoList'' (r = None \<or> len mod c_sizeof RIL_CellInfo_v12_t \<noteq> 0)
       (map_option (\<lambda>h. [h]) (convertRilCellInfoListToHal v r len)) v slot ty s"

section \<open>Signal strengths\<close>

definition INT_MAX :: int where "INT_MAX = 2147483647"

text \<open>The negation of the smallest number stops the process, which is built to check integers.\<close>

definition fix_rsrp :: "int \<Rightarrow> int option" where
  "fix_rsrp x = (if x = -1 then Some INT_MAX else if x < -1 then (if x = -2147483648 then None else Some (- x)) else Some x)"

definition fix_unknown :: "int \<Rightarrow> int \<Rightarrow> int" where
  "fix_unknown d x = (if x = -1 then d else x)"

definition signal_strength :: "int list \<Rightarrow> hv" where
  "signal_strength w =
     HRec [(''gw'', HRec [(''signalStrength'', HInt (w ! 0)), (''bitErrorRate'', HInt (w ! 1))]),
           (''cdma'', HRec [(''dbm'', HInt (w ! 2)), (''ecio'', HInt (w ! 3))]),
           (''evdo'', HRec [(''dbm'', HInt (w ! 4)), (''ecio'', HInt (w ! 5)), (''signalNoiseRatio'', HInt (w ! 6))]),
           (''lte'', HRec [(''signalStrength'', HInt (w ! 7)), (''rsrp'', HInt (w ! 8)), (''rsrq'', HInt (w ! 9)),
                       (''rssnr'', HInt (w ! 10)), (''cqi'', HInt (w ! 11)), (''timingAdvance'', HInt 0)]),
           (''tdScdma'', HRec [(''rscp'', HInt 0)])]"

text \<open>The words of the structure, of which the first twelve are read; the fifth kind is not looked at.\<close>

definition convertRilSignalStrengthToHal :: "response \<Rightarrow> hv option" where
  "convertRilSignalStrengthToHal r =
     (case r of
        Some (BWords w) \<Rightarrow>
          if length w < 12 then None
          else map_option (\<lambda>rsrp. signal_strength (take 7 w @
                 [fix_unknown 99 (w ! 7), rsrp, fix_unknown INT_MAX (w ! 9), w ! 10, fix_unknown INT_MAX (w ! 11)]))
               (fix_rsrp (w ! 8))
      | _ \<Rightarrow> None)"

definition getSignalStrengthResponse :: response_fun where
  "getSignalStrengthResponse v slot ty serial e r len s =
     reply ''getSignalStrengthResponse'' (r = None \<or> len < c_sizeof RIL_SignalStrength_v8_t)
       [signal_strength (replicate 12 0)] (map_option (\<lambda>h. [h]) (convertRilSignalStrengthToHal r)) v slot ty serial e s"

definition currentSignalStrengthInd :: response_fun where
  "currentSignalStrengthInd v slot ty token e r len s =
     indicate ''currentSignalStrength'' (r = None \<or> len < c_sizeof RIL_SignalStrength_v8_t)
       (map_option (\<lambda>h. [h]) (convertRilSignalStrengthToHal r)) v slot ty s"

section \<open>What the functions share\<close>

lemma those_length: "those xs = Some ys \<Longrightarrow> length ys = length xs"
  by (induction xs arbitrary: ys) (auto split: option.splits)

lemma cells_counted:
  "convertRilCellInfoListToHal v r len = Some h \<Longrightarrow> \<exists>hs. h = HVec hs \<and> length hs = len div 72"
  by (auto simp: convertRilCellInfoListToHal_def cell_info_sizes Let_def bind_eq_Some_conv
      dest!: those_length elements_length split: if_splits option.splits resp_block.splits)

lemma answers_voice:
  "answers True ''getVoiceRegistrationStateResponse''
     (ByVersion (AtLeast 32) (Lengths [c_sizeof RIL_VoiceRegistrationStateResponse_t])) getVoiceRegistrationStateResponse"
  by (rule answers_replyI, unfold getVoiceRegistrationStateResponse_def Let_def, intro exI conjI, assumption) auto

lemma answers_data:
  "answers True ''getDataRegistrationStateResponse''
     (ByVersion (Items 8 [4, 6, 11]) (Lengths [c_sizeof RIL_DataRegistrationStateResponse_t])) getDataRegistrationStateResponse"
  by (rule answers_replyI, unfold getDataRegistrationStateResponse_def Let_def, intro exI conjI, assumption) auto

lemma answers_cell_list: "answers True ''getCellInfoListResponse'' (Records 72) getCellInfoListResponse"
  by (rule answers_replyI, unfold getCellInfoListResponse_def, intro exI conjI, assumption)
    (auto simp: cell_info_sizes dest: cells_counted)

lemma answers_signal:
  "answers True ''getSignalStrengthResponse'' (AtLeast (c_sizeof RIL_SignalStrength_v8_t)) getSignalStrengthResponse"
  by (rule answers_replyI, unfold getSignalStrengthResponse_def, intro exI conjI, assumption) auto

lemmas answers_cells = answers_voice answers_data answers_cell_list answers_signal

lemma meets_cells:
  "meets_empty getVoiceRegistrationStateResponse" "meets_empty getDataRegistrationStateResponse"
  "meets_empty getCellInfoListResponse" "meets_empty getSignalStrengthResponse"
  by (simp_all add: meets_empty_def getVoiceRegistrationStateResponse_def getDataRegistrationStateResponse_def
      getCellInfoListResponse_def getSignalStrengthResponse_def Let_def reply_None)

lemma indicates_cells:
  "indicates ''cellInfoList'' cellInfoListInd" "indicates ''currentSignalStrength'' currentSignalStrengthInd"
  by (rule indicates_indicateI, auto simp only: cellInfoListInd_def currentSignalStrengthInd_def)+

lemma those_replicate: "those (replicate n (Some x)) = Some (replicate n x)"
  by (induction n) auto

text \<open>Built for the vendor's hardware, a list of cells is its first cell over and over.\<close>

lemma cells_all_first:
  assumes "mtk v" "cs \<noteq> []" "convert_cell True (leftover v) (hd cs) = Some h"
  shows "convertRilCellInfoListToHal v (Some (BCells cs)) (n * 72) = Some (HVec (replicate n h))"
proof (cases "n = 0")
  case True
  then show ?thesis by (simp add: convertRilCellInfoListToHal_def)
next
  case False
  have "n * 72 div c_sizeof RIL_CellInfo_t = n" by (simp only: cell_info_sizes)
  moreover have "elements 1 cs = Some [hd cs]" using assms(2) by (cases cs) (auto simp: elements_def)
  ultimately show ?thesis
    using assms False by (simp add: convertRilCellInfoListToHal_def Let_def those_replicate)
qed

end
