(* ===== verification/Ril_Responses.thy ===== *)
theory Ril_Responses
  imports Ril_Cells
begin

text \<open>
  The functions for responses in \<open>ril_service.cpp\<close>, each under the name that \<open>s_commands\<close> knows it by:
  those that share a shape, and those with a conversion of their own.
\<close>

section \<open>Responses of a common shape\<close>

definition supplyIccPinForAppResponse :: response_fun where
  "supplyIccPinForAppResponse = responseIntOrEmpty ''supplyIccPinForAppResponse''"

definition supplyIccPukForAppResponse :: response_fun where
  "supplyIccPukForAppResponse = responseIntOrEmpty ''supplyIccPukForAppResponse''"

definition supplyIccPin2ForAppResponse :: response_fun where
  "supplyIccPin2ForAppResponse = responseIntOrEmpty ''supplyIccPin2ForAppResponse''"

definition supplyIccPuk2ForAppResponse :: response_fun where
  "supplyIccPuk2ForAppResponse = responseIntOrEmpty ''supplyIccPuk2ForAppResponse''"

definition changeIccPinForAppResponse :: response_fun where
  "changeIccPinForAppResponse = responseIntOrEmpty ''changeIccPinForAppResponse''"

definition changeIccPin2ForAppResponse :: response_fun where
  "changeIccPin2ForAppResponse = responseIntOrEmpty ''changeIccPin2ForAppResponse''"

definition supplyNetworkDepersonalizationResponse :: response_fun where
  "supplyNetworkDepersonalizationResponse = responseIntOrEmpty ''supplyNetworkDepersonalizationResponse''"

definition dialResponse :: response_fun where
  "dialResponse = plain_response ''dialResponse''"

definition getIMSIForAppResponse :: response_fun where
  "getIMSIForAppResponse = response_text ''getIMSIForAppResponse''"

definition hangupConnectionResponse :: response_fun where
  "hangupConnectionResponse = plain_response ''hangupConnectionResponse''"

definition hangupWaitingOrBackgroundResponse :: response_fun where
  "hangupWaitingOrBackgroundResponse = plain_response ''hangupWaitingOrBackgroundResponse''"

definition hangupForegroundResumeBackgroundResponse :: response_fun where
  "hangupForegroundResumeBackgroundResponse = plain_response ''hangupWaitingOrBackgroundResponse''"

definition switchWaitingOrHoldingAndActiveResponse :: response_fun where
  "switchWaitingOrHoldingAndActiveResponse = plain_response ''switchWaitingOrHoldingAndActiveResponse''"

definition conferenceResponse :: response_fun where
  "conferenceResponse = plain_response ''conferenceResponse''"

definition rejectCallResponse :: response_fun where
  "rejectCallResponse = plain_response ''rejectCallResponse''"

definition setRadioPowerResponse :: response_fun where
  "setRadioPowerResponse = plain_response ''setRadioPowerResponse''"

definition sendDtmfResponse :: response_fun where
  "sendDtmfResponse = plain_response ''sendDtmfResponse''"

definition sendSmsResponse :: response_fun where
  "sendSmsResponse = makeSendSmsResult ''sendSmsResponse''"

definition sendSMSExpectMoreResponse :: response_fun where
  "sendSMSExpectMoreResponse = makeSendSmsResult ''sendSMSExpectMoreResponse''"

definition iccIOForAppResponse :: response_fun where
  "iccIOForAppResponse = responseIccIo ''iccIOForAppResponse''"

definition sendUssdResponse :: response_fun where
  "sendUssdResponse = plain_response ''sendUssdResponse''"

definition cancelPendingUssdResponse :: response_fun where
  "cancelPendingUssdResponse = plain_response ''cancelPendingUssdResponse''"

definition setClirResponse :: response_fun where
  "setClirResponse = plain_response ''setClirResponse''"

definition setCallForwardResponse :: response_fun where
  "setCallForwardResponse = plain_response ''setCallForwardResponse''"

definition setCallWaitingResponse :: response_fun where
  "setCallWaitingResponse = plain_response ''setCallWaitingResponse''"

definition acknowledgeLastIncomingGsmSmsResponse :: response_fun where
  "acknowledgeLastIncomingGsmSmsResponse = plain_response ''acknowledgeLastIncomingGsmSmsResponse''"

definition acceptCallResponse :: response_fun where
  "acceptCallResponse = plain_response ''acceptCallResponse''"

definition deactivateDataCallResponse :: response_fun where
  "deactivateDataCallResponse = plain_response ''deactivateDataCallResponse''"

definition getFacilityLockForAppResponse :: response_fun where
  "getFacilityLockForAppResponse = responseInt ''getFacilityLockForAppResponse''"

definition setFacilityLockForAppResponse :: response_fun where
  "setFacilityLockForAppResponse = responseIntOrEmpty ''setFacilityLockForAppResponse''"

definition setBarringPasswordResponse :: response_fun where
  "setBarringPasswordResponse = plain_response ''setBarringPasswordResponse''"

definition setNetworkSelectionModeAutomaticResponse :: response_fun where
  "setNetworkSelectionModeAutomaticResponse = plain_response ''setNetworkSelectionModeAutomaticResponse''"

definition setNetworkSelectionModeManualResponse :: response_fun where
  "setNetworkSelectionModeManualResponse = plain_response ''setNetworkSelectionModeManualResponse''"

definition startDtmfResponse :: response_fun where
  "startDtmfResponse = plain_response ''startDtmfResponse''"

definition stopDtmfResponse :: response_fun where
  "stopDtmfResponse = plain_response ''stopDtmfResponse''"

definition getBasebandVersionResponse :: response_fun where
  "getBasebandVersionResponse = response_text ''getBasebandVersionResponse''"

definition separateConnectionResponse :: response_fun where
  "separateConnectionResponse = plain_response ''separateConnectionResponse''"

definition setMuteResponse :: response_fun where
  "setMuteResponse = plain_response ''setMuteResponse''"

definition getClipResponse :: response_fun where
  "getClipResponse = responseInt ''getClipResponse''"

definition setSuppServiceNotificationsResponse :: response_fun where
  "setSuppServiceNotificationsResponse = plain_response ''setSuppServiceNotificationsResponse''"

definition deleteSmsOnSimResponse :: response_fun where
  "deleteSmsOnSimResponse = plain_response ''deleteSmsOnSimResponse''"

definition setBandModeResponse :: response_fun where
  "setBandModeResponse = plain_response ''setBandModeResponse''"

definition writeSmsToSimResponse :: response_fun where
  "writeSmsToSimResponse = responseInt ''writeSmsToSimResponse''"

definition sendEnvelopeResponse :: response_fun where
  "sendEnvelopeResponse = response_text ''sendEnvelopeResponse''"

definition sendTerminalResponseToSimResponse :: response_fun where
  "sendTerminalResponseToSimResponse = plain_response ''sendTerminalResponseToSimResponse''"

definition handleStkCallSetupRequestFromSimResponse :: response_fun where
  "handleStkCallSetupRequestFromSimResponse = plain_response ''handleStkCallSetupRequestFromSimResponse''"

definition explicitCallTransferResponse :: response_fun where
  "explicitCallTransferResponse = plain_response ''explicitCallTransferResponse''"

definition setPreferredNetworkTypeResponse :: response_fun where
  "setPreferredNetworkTypeResponse = plain_response ''setPreferredNetworkTypeResponse''"

definition getPreferredNetworkTypeResponse :: response_fun where
  "getPreferredNetworkTypeResponse = responseInt ''getPreferredNetworkTypeResponse''"

definition setLocationUpdatesResponse :: response_fun where
  "setLocationUpdatesResponse = plain_response ''setLocationUpdatesResponse''"

definition setCdmaSubscriptionSourceResponse :: response_fun where
  "setCdmaSubscriptionSourceResponse = plain_response ''setCdmaSubscriptionSourceResponse''"

definition setCdmaRoamingPreferenceResponse :: response_fun where
  "setCdmaRoamingPreferenceResponse = plain_response ''setCdmaRoamingPreferenceResponse''"

definition getCdmaRoamingPreferenceResponse :: response_fun where
  "getCdmaRoamingPreferenceResponse = responseInt ''getCdmaRoamingPreferenceResponse''"

definition setTTYModeResponse :: response_fun where
  "setTTYModeResponse = plain_response ''setTTYModeResponse''"

definition getTTYModeResponse :: response_fun where
  "getTTYModeResponse = responseInt ''getTTYModeResponse''"

definition setPreferredVoicePrivacyResponse :: response_fun where
  "setPreferredVoicePrivacyResponse = plain_response ''setPreferredVoicePrivacyResponse''"

definition sendCDMAFeatureCodeResponse :: response_fun where
  "sendCDMAFeatureCodeResponse = plain_response ''sendCDMAFeatureCodeResponse''"

definition sendBurstDtmfResponse :: response_fun where
  "sendBurstDtmfResponse = plain_response ''sendBurstDtmfResponse''"

definition sendCdmaSmsResponse :: response_fun where
  "sendCdmaSmsResponse = makeSendSmsResult ''sendCdmaSmsResponse''"

definition acknowledgeLastIncomingCdmaSmsResponse :: response_fun where
  "acknowledgeLastIncomingCdmaSmsResponse = plain_response ''acknowledgeLastIncomingCdmaSmsResponse''"

definition setGsmBroadcastConfigResponse :: response_fun where
  "setGsmBroadcastConfigResponse = plain_response ''setGsmBroadcastConfigResponse''"

definition setGsmBroadcastActivationResponse :: response_fun where
  "setGsmBroadcastActivationResponse = plain_response ''setGsmBroadcastActivationResponse''"

definition setCdmaBroadcastConfigResponse :: response_fun where
  "setCdmaBroadcastConfigResponse = plain_response ''setCdmaBroadcastConfigResponse''"

definition setCdmaBroadcastActivationResponse :: response_fun where
  "setCdmaBroadcastActivationResponse = plain_response ''setCdmaBroadcastActivationResponse''"

definition writeSmsToRuimResponse :: response_fun where
  "writeSmsToRuimResponse = responseInt ''writeSmsToRuimResponse''"

definition deleteSmsOnRuimResponse :: response_fun where
  "deleteSmsOnRuimResponse = plain_response ''deleteSmsOnRuimResponse''"

definition exitEmergencyCallbackModeResponse :: response_fun where
  "exitEmergencyCallbackModeResponse = plain_response ''exitEmergencyCallbackModeResponse''"

definition getSmscAddressResponse :: response_fun where
  "getSmscAddressResponse = response_text ''getSmscAddressResponse''"

definition setSmscAddressResponse :: response_fun where
  "setSmscAddressResponse = plain_response ''setSmscAddressResponse''"

definition reportSmsMemoryStatusResponse :: response_fun where
  "reportSmsMemoryStatusResponse = plain_response ''reportSmsMemoryStatusResponse''"

definition reportStkServiceIsRunningResponse :: response_fun where
  "reportStkServiceIsRunningResponse = plain_response ''reportStkServiceIsRunningResponse''"

definition getCdmaSubscriptionSourceResponse :: response_fun where
  "getCdmaSubscriptionSourceResponse = responseInt ''getCdmaSubscriptionSourceResponse''"

definition requestIsimAuthenticationResponse :: response_fun where
  "requestIsimAuthenticationResponse = response_text ''requestIsimAuthenticationResponse''"

definition acknowledgeIncomingGsmSmsWithPduResponse :: response_fun where
  "acknowledgeIncomingGsmSmsWithPduResponse = plain_response ''acknowledgeIncomingGsmSmsWithPduResponse''"

definition sendEnvelopeWithStatusResponse :: response_fun where
  "sendEnvelopeWithStatusResponse = responseIccIo ''sendEnvelopeWithStatusResponse''"

definition getVoiceRadioTechnologyResponse :: response_fun where
  "getVoiceRadioTechnologyResponse = responseInt ''getVoiceRadioTechnologyResponse''"

definition setCellInfoListRateResponse :: response_fun where
  "setCellInfoListRateResponse = plain_response ''setCellInfoListRateResponse''"

definition setInitialAttachApnResponse :: response_fun where
  "setInitialAttachApnResponse = plain_response ''setInitialAttachApnResponse''"

definition sendImsSmsResponse :: response_fun where
  "sendImsSmsResponse = makeSendSmsResult ''sendImsSmsResponse''"

definition iccTransmitApduBasicChannelResponse :: response_fun where
  "iccTransmitApduBasicChannelResponse = responseIccIo ''iccTransmitApduBasicChannelResponse''"

definition iccCloseLogicalChannelResponse :: response_fun where
  "iccCloseLogicalChannelResponse = plain_response ''iccCloseLogicalChannelResponse''"

definition iccTransmitApduLogicalChannelResponse :: response_fun where
  "iccTransmitApduLogicalChannelResponse = responseIccIo ''iccTransmitApduLogicalChannelResponse''"

definition nvReadItemResponse :: response_fun where
  "nvReadItemResponse = response_text ''nvReadItemResponse''"

definition nvWriteItemResponse :: response_fun where
  "nvWriteItemResponse = plain_response ''nvWriteItemResponse''"

definition nvWriteCdmaPrlResponse :: response_fun where
  "nvWriteCdmaPrlResponse = plain_response ''nvWriteCdmaPrlResponse''"

definition nvResetConfigResponse :: response_fun where
  "nvResetConfigResponse = plain_response ''nvResetConfigResponse''"

definition setUiccSubscriptionResponse :: response_fun where
  "setUiccSubscriptionResponse = plain_response ''setUiccSubscriptionResponse''"

definition setDataAllowedResponse :: response_fun where
  "setDataAllowedResponse = plain_response ''setDataAllowedResponse''"

definition requestIccSimAuthenticationResponse :: response_fun where
  "requestIccSimAuthenticationResponse = responseIccIo ''requestIccSimAuthenticationResponse''"

definition setDataProfileResponse :: response_fun where
  "setDataProfileResponse = plain_response ''setDataProfileResponse''"

definition requestShutdownResponse :: response_fun where
  "requestShutdownResponse = plain_response ''requestShutdownResponse''"

definition getRadioCapabilityResponse :: response_fun where
  "getRadioCapabilityResponse = responseRadioCapability ''getRadioCapabilityResponse''"

definition setRadioCapabilityResponse :: response_fun where
  "setRadioCapabilityResponse = responseRadioCapability ''setRadioCapabilityResponse''"

definition startLceServiceResponse :: response_fun where
  "startLceServiceResponse = responseLceStatusInfo ''startLceServiceResponse''"

definition stopLceServiceResponse :: response_fun where
  "stopLceServiceResponse = responseLceStatusInfo ''stopLceServiceResponse''"

definition setAllowedCarriersResponse :: response_fun where
  "setAllowedCarriersResponse = responseInt ''setAllowedCarriersResponse''"

definition sendDeviceStateResponse :: response_fun where
  "sendDeviceStateResponse = plain_response ''sendDeviceStateResponse''"

definition setIndicationFilterResponse :: response_fun where
  "setIndicationFilterResponse = plain_response ''setIndicationFilterResponse''"

definition setSimCardPowerResponse :: response_fun where
  "setSimCardPowerResponse = plain_response ''setSimCardPowerResponse''"

section \<open>Cards and calls\<close>

definition app_status :: "RIL_AppStatus \<Rightarrow> hv" where
  "app_status a =
     HRec [(''appType'', HInt (app_type a)), (''appState'', HInt (app_state a)), (''persoSubstate'', HInt (perso_substate a)),
           (''aidPtr'', convertCharPtrToHidlString (aid_ptr a)), (''appLabelPtr'', convertCharPtrToHidlString (app_label_ptr a)),
           (''pin1Replaced'', HInt (pin1_replaced a)), (''pin1'', HInt (pin1 a)), (''pin2'', HInt (pin2 a))]"

definition card_status :: "int list \<Rightarrow> hv list \<Rightarrow> hv" where
  "card_status xs apps =
     HRec [(''cardState'', HInt (xs ! 0)), (''universalPinState'', HInt (xs ! 1)),
           (''gsmUmtsSubscriptionAppIndex'', HInt (xs ! 2)), (''cdmaSubscriptionAppIndex'', HInt (xs ! 3)),
           (''imsSubscriptionAppIndex'', HInt (xs ! 4)), (''applications'', HVec apps)]"

text \<open>The first \<open>n\<close> of an array; a negative number stops the process at \<open>resize\<close>.\<close>

definition counted :: "int \<Rightarrow> 'a list \<Rightarrow> 'a list option" where
  "counted n xs = (if n < 0 then None else elements (nat n) xs)"

definition getIccCardStatusResponse :: response_fun where
  "getIccCardStatusResponse v slot ty serial e r len s =
     reply ''getIccCardStatusResponse'' (r = None \<or> len \<noteq> c_sizeof RIL_CardStatus_v6_t)
       [card_status [0, 0, 0, 0, 0] []]
       (case r of
          Some (BCardStatus p) \<Rightarrow>
            map_option (\<lambda>apps. [card_status [card_state p, universal_pin_state p, gsm_umts_subscription_app_index p,
                cdma_subscription_app_index p, ims_subscription_app_index p] (map app_status apps)])
              (counted (num_applications p) (applications p))
        | _ \<Rightarrow> None) v slot ty serial e s"

text \<open>
  User-to-user information with data would be written behind the end of an empty vector.
\<close>

definition convert_call :: "RIL_Call \<Rightarrow> hv option" where
  "convert_call c =
     (if (case uusInfo c of None \<Rightarrow> False | Some u \<Rightarrow> uusData u \<noteq> None) then None
      else Some (HRec [(''state'', HInt (call_state c)), (''index'', HInt (call_index c)), (''toa'', HInt (call_toa c)),
        (''isMpty'', HBool (isMpty c \<noteq> 0)), (''isMT'', HBool (isMT c \<noteq> 0)), (''als'', HInt (u8 (als c))),
        (''isVoice'', HBool (isVoice c \<noteq> 0)), (''isVoicePrivacy'', HBool (isVoicePrivacy c \<noteq> 0)),
        (''number'', convertCharPtrToHidlString (call_number c)), (''numberPresentation'', HInt (numberPresentation c)),
        (''name'', convertCharPtrToHidlString (call_name c)), (''namePresentation'', HInt (namePresentation c)),
        (''uusInfo'', HVec [])]))"

definition getCurrentCallsResponse :: response_fun where
  "getCurrentCallsResponse v slot ty serial e r len s =
     reply ''getCurrentCallsResponse'' (r = None \<or> len mod 8 \<noteq> 0) [HVec []]
       (case r of
          Some (BCalls ps) \<Rightarrow>
            do { cs \<leftarrow> pointed (len div 8) ps; hs \<leftarrow> those (map convert_call cs); Some [HVec hs] }
        | _ \<Rightarrow> None) v slot ty serial e s"

text \<open>Three kinds of response: none, a number, or a structure.\<close>

definition fail_cause :: "int \<Rightarrow> hv \<Rightarrow> hv" where
  "fail_cause c vend = HRec [(''causeCode'', HInt c), (''vendorCause'', vend)]"

definition getLastCallFailCauseResponse :: response_fun where
  "getLastCallFailCauseResponse v slot ty serial e r len s =
     reply ''getLastCallFailCauseResponse'' (r = None \<or> len \<noteq> 4 \<and> len \<noteq> c_sizeof RIL_LastCallFailCauseInfo_t)
       [fail_cause 0 (HText '''')]
       (if len = 4 then map_option (\<lambda>xs. [fail_cause (hd xs) (HText '''')]) (ints 1 r)
        else case r of
          Some (BFailCause p) \<Rightarrow> Some [fail_cause (cause_code p) (convertCharPtrToHidlString (vendor_cause p))]
        | _ \<Rightarrow> None) v slot ty serial e s"

definition convert_forward :: "RIL_CallForwardInfo \<Rightarrow> hv" where
  "convert_forward p =
     HRec [(''status'', HInt (cf_status p)), (''reason'', HInt (cf_reason p)), (''serviceClass'', HInt (cf_serviceClass p)),
           (''toa'', HInt (cf_toa p)), (''number'', convertCharPtrToHidlString (cf_number p)),
           (''timeSeconds'', HInt (cf_timeSeconds p))]"

definition getCallForwardStatusResponse :: response_fun where
  "getCallForwardStatusResponse v slot ty serial e r len s =
     reply ''getCallForwardStatusResponse'' (r = None \<or> len mod 8 \<noteq> 0) [HVec []]
       (case r of
          Some (BForwards ps) \<Rightarrow> map_option (\<lambda>fs. [HVec (map convert_forward fs)]) (pointed (len div 8) ps)
        | _ \<Rightarrow> None) v slot ty serial e s"

section \<open>Numbers and flags\<close>

definition getClirResponse :: response_fun where
  "getClirResponse v slot ty serial e r len s =
     reply ''getClirResponse'' (r = None \<or> len div 4 \<noteq> 2) [HInt (-1), HInt (-1)]
       (map_option (map HInt) (ints 2 r)) v slot ty serial e s"

definition getCallWaitingResponse :: response_fun where
  "getCallWaitingResponse v slot ty serial e r len s =
     reply ''getCallWaitingResponse'' (r = None \<or> len div 4 \<noteq> 2) [HBool False, HInt (-1)]
       (map_option (\<lambda>xs. [HBool (xs ! 0 = 1), HInt (xs ! 1)]) (ints 2 r)) v slot ty serial e s"

definition response_flag :: "string \<Rightarrow> bool \<Rightarrow> response_fun" where
  "response_flag nm bad v slot ty serial e r len s =
     reply nm bad [HBool False] (map_option (\<lambda>xs. [HBool (xs ! 0 = 1)]) (ints 1 r)) v slot ty serial e s"

definition getNetworkSelectionModeResponse :: response_fun where
  "getNetworkSelectionModeResponse v slot ty serial e r len s =
     response_flag ''getNetworkSelectionModeResponse'' (r = None \<or> len \<noteq> 4) v slot ty serial e r len s"

definition getMuteResponse :: response_fun where
  "getMuteResponse v slot ty serial e r len s =
     response_flag ''getMuteResponse'' (r = None \<or> len \<noteq> 4) v slot ty serial e r len s"

definition getPreferredVoicePrivacyResponse :: response_fun where
  "getPreferredVoicePrivacyResponse v slot ty serial e r len s =
     response_flag ''getPreferredVoicePrivacyResponse'' (r = None \<or> len div 4 \<noteq> 1) v slot ty serial e r len s"

definition getImsRegistrationStateResponse :: response_fun where
  "getImsRegistrationStateResponse v slot ty serial e r len s =
     reply ''getImsRegistrationStateResponse'' (r = None \<or> len div 4 \<noteq> 2) [HBool False, HInt 0]
       (map_option (\<lambda>xs. [HBool (xs ! 0 = 1), HInt (xs ! 1)]) (ints 2 r)) v slot ty serial e s"

definition getAvailableBandModesResponse :: response_fun where
  "getAvailableBandModesResponse v slot ty serial e r len s =
     reply ''getAvailableBandModesResponse'' (r = None \<or> len mod 4 \<noteq> 0) [HVec []]
       (map_option (\<lambda>xs. [HVec (map HInt xs)]) (ints (len div 4) r)) v slot ty serial e s"

text \<open>The number of the channel is read even from an empty response, and a vector of -1 bytes stops the process.\<close>

definition iccOpenLogicalChannelResponse :: response_fun where
  "iccOpenLogicalChannelResponse v slot ty serial e r len s =
     reply ''iccOpenLogicalChannelResponse'' (r = None \<or> len mod 4 \<noteq> 0) [HInt (-1), HVec []]
       (if len div 4 = 0 then None
        else map_option (\<lambda>xs. [HInt (hd xs), HVec (map (HInt \<circ> s8) (tl xs))]) (ints (len div 4) r))
       v slot ty serial e s"

section \<open>Texts\<close>

text \<open>\<open>getname\<close>: the first entry of the list with that number.\<close>

definition getname :: "(int \<times> string) list \<Rightarrow> int \<Rightarrow> string option" where
  "getname ops plmn = map_of ops plmn"

text \<open>
  With \<open>MTK_HARDWARE\<close> only the long name is set: where the short and the numeric name are meant to be
  assigned, the code compares.
\<close>

definition operator_names :: "env \<Rightarrow> nat \<Rightarrow> c_text list \<Rightarrow> hv list option" where
  "operator_names v n ts =
     (if mtk v then
        do { t0 \<leftarrow> resp_text_at ts 0; t \<leftarrow> t0;
             Some [convertCharPtrToHidlString (getname (operators v) (c_atoi t)), HText '''', HText ''''] }
      else
        do { t0 \<leftarrow> resp_text_at ts 0;
             t1 \<leftarrow> (if 1 < n then resp_text_at ts 1 else Some t0);
             t2 \<leftarrow> (if 2 < n then resp_text_at ts 2 else Some t1);
             Some (map convertCharPtrToHidlString [t0, t1, t2]) })"

definition getOperatorResponse :: response_fun where
  "getOperatorResponse v slot ty serial e r len s =
     reply ''getOperatorResponse'' (r = None \<or> len div 8 = 0) [HText '''', HText '''', HText '''']
       (case r of Some (BTexts ts) \<Rightarrow> operator_names v (len div 8) ts | _ \<Rightarrow> None) v slot ty serial e s"

definition getCDMASubscriptionResponse :: response_fun where
  "getCDMASubscriptionResponse v slot ty serial e r len s =
     reply ''getCDMASubscriptionResponse'' (r = None \<or> len div 8 \<noteq> 5) (replicate 5 (HText ''''))
       (map_option (map convertCharPtrToHidlString) (texts 5 r)) v slot ty serial e s"

definition getDeviceIdentityResponse :: response_fun where
  "getDeviceIdentityResponse v slot ty serial e r len s =
     reply ''getDeviceIdentityResponse'' (r = None \<or> len div 8 \<noteq> 4) (replicate 4 (HText ''''))
       (map_option (map convertCharPtrToHidlString) (texts 4 r)) v slot ty serial e s"

text \<open>
  Four texts a network; a status that is not known makes the response invalid, but not the networks, and
  one that is missing has no meaning.
\<close>

fun convert_networks :: "int \<Rightarrow> c_text list \<Rightarrow> (bool \<times> hv list) option" where
  "convert_networks junk (a # b # c # d # ts) =
     do { t \<leftarrow> d; (ok, hs) \<leftarrow> convert_networks junk ts;
          let st = convertOperatorStatusToInt t
          in Some (ok \<and> st \<noteq> -1,
               HRec [(''alphaLong'', convertCharPtrToHidlString a), (''alphaShort'', convertCharPtrToHidlString b),
                     (''operatorNumeric'', convertCharPtrToHidlString c), (''status'', HInt (if st = -1 then junk else st))] # hs) }"
| "convert_networks junk _ = Some (True, [])"

definition getAvailableNetworksResponse :: response_fun where
  "getAvailableNetworksResponse v slot ty serial e r len s =
     (let unfit = (r = None \<or> len mod 32 \<noteq> 0)
      in if unfit then reply ''getAvailableNetworksResponse'' True [HVec []] None v slot ty serial e s
         else case Option.bind (texts (len div 8) r) (convert_networks (leftover v)) of
           None \<Rightarrow> reply ''getAvailableNetworksResponse'' False [] None v slot ty serial e s
         | Some (ok, hs) \<Rightarrow> reply ''getAvailableNetworksResponse'' (\<not> ok) [HVec hs] (Some [HVec hs]) v slot ty serial e s)"

text \<open>Not written yet: no answer.\<close>

definition stopNetworkScanResponse :: response_fun where
  "stopNetworkScanResponse v slot ty serial e r len s = Some s"

definition getNeighboringCidsResponse :: response_fun where
  "getNeighboringCidsResponse v slot ty serial e r len s =
     reply ''getNeighboringCidsResponse'' (r = None \<or> len mod 8 \<noteq> 0) [HVec []]
       (case r of
          Some (BNeighbors ps) \<Rightarrow>
            map_option (\<lambda>cs. [HVec (map (\<lambda>c. HRec [(''cid'', convertCharPtrToHidlString (nb_cid c)),
                (''rssi'', HInt (nb_rssi c))]) cs)]) (pointed (len div 8) ps)
        | _ \<Rightarrow> None) v slot ty serial e s"

section \<open>Broadcasts\<close>

definition convert_gsm_config :: "RIL_GSM_BroadcastSmsConfigInfo \<Rightarrow> hv" where
  "convert_gsm_config p =
     HRec [(''fromServiceId'', HInt (fromServiceId p)), (''toServiceId'', HInt (toServiceId p)),
           (''fromCodeScheme'', HInt (fromCodeScheme p)), (''toCodeScheme'', HInt (toCodeScheme p)),
           (''selected'', HBool (gsm_selected p = 1))]"

definition getGsmBroadcastConfigResponse :: response_fun where
  "getGsmBroadcastConfigResponse v slot ty serial e r len s =
     reply ''getGsmBroadcastConfigResponse'' (r = None \<or> len mod 8 \<noteq> 0) [HVec []]
       (case r of
          Some (BGsmConfigs ps) \<Rightarrow> map_option (\<lambda>cs. [HVec (map convert_gsm_config cs)]) (pointed (len div 8) ps)
        | _ \<Rightarrow> None) v slot ty serial e s"

definition convert_cdma_config :: "RIL_CDMA_BroadcastSmsConfigInfo \<Rightarrow> hv" where
  "convert_cdma_config p =
     HRec [(''serviceCategory'', HInt (service_category p)), (''language'', HInt (language p)),
           (''selected'', HBool (cdma_selected p = 1))]"

definition getCdmaBroadcastConfigResponse :: response_fun where
  "getCdmaBroadcastConfigResponse v slot ty serial e r len s =
     reply ''getCdmaBroadcastConfigResponse'' (r = None \<or> len mod 8 \<noteq> 0) [HVec []]
       (case r of
          Some (BCdmaConfigs ps) \<Rightarrow> map_option (\<lambda>cs. [HVec (map convert_cdma_config cs)]) (pointed (len div 8) ps)
        | _ \<Rightarrow> None) v slot ty serial e s"

section \<open>Data calls\<close>

definition data_call :: "int list \<Rightarrow> hv list \<Rightarrow> hv" where
  "data_call xs ts =
     HRec [(''status'', HInt (xs ! 0)), (''suggestedRetryTime'', HInt (xs ! 1)), (''cid'', HInt (xs ! 2)),
           (''active'', HInt (xs ! 3)), (''type'', ts ! 0), (''ifname'', ts ! 1), (''addresses'', ts ! 2),
           (''dnses'', ts ! 3), (''gateways'', ts ! 4), (''pcscf'', ts ! 5), (''mtu'', HInt (xs ! 4))]"

definition convertRilDataCallToHal :: "RIL_Data_Call_Response_v11 \<Rightarrow> hv" where
  "convertRilDataCallToHal p =
     data_call [dc_status p, suggestedRetryTime p, dc_cid p, dc_active p, mtu_v11 p]
       (map convertCharPtrToHidlString
         [dc_type p, dc_ifname p, dc_addresses p, dc_dnses p, dc_gateways p, dc_pcscf p])"

text \<open>\<open>DataCallFailCause::ERROR_UNSPECIFIED\<close> of the interface.\<close>

definition ERROR_UNSPECIFIED :: int where "ERROR_UNSPECIFIED = 0xffff"

text \<open>The call takes the first free of four places, or the fifth, which is never looked at.\<close>

definition take_interface :: "int \<Rightarrow> int list \<Rightarrow> int list" where
  "take_interface cid cids = cids[length (takeWhile (\<lambda>c. c \<noteq> -1) (take 4 cids)) := cid]"

definition setupDataCallResponse :: response_fun where
  "setupDataCallResponse v slot ty serial e r len s =
     (let unfit = (r = None \<or> len \<noteq> c_sizeof RIL_Data_Call_Response_v11_t);
          none = [data_call [ERROR_UNSPECIFIED, 0, 0, 0, 0] (replicate 6 (HText ''''))]
      in case r of
           Some (BDataCalls (p # ps)) \<Rightarrow>
             let s1 = (if mtk v \<and> \<not> unfit \<and> has_response (radio s slot)
                       then s\<lparr>dataCallCids := take_interface (dc_cid p) (dataCallCids s)\<rparr> else s)
             in reply ''setupDataCallResponse'' unfit none
                  (Some [convertRilDataCallToHal p]) v slot ty serial e s1
         | _ \<Rightarrow> reply ''setupDataCallResponse'' unfit none None v slot ty serial e s)"

definition convertRilDataCallListToHal :: "response \<Rightarrow> nat \<Rightarrow> hv option" where
  "convertRilDataCallListToHal r len =
     (let n = len div c_sizeof RIL_Data_Call_Response_v11_t
      in if n = 0 then Some (HVec [])
         else case r of
           Some (BDataCalls ps) \<Rightarrow> map_option (\<lambda>cs. HVec (map convertRilDataCallToHal cs)) (elements n ps)
         | _ \<Rightarrow> None)"

definition getDataCallListResponse :: response_fun where
  "getDataCallListResponse v slot ty serial e r len s =
     reply ''getDataCallListResponse'' (r = None \<or> len mod c_sizeof RIL_Data_Call_Response_v11_t \<noteq> 0) [HVec []]
       (map_option (\<lambda>h. [h]) (convertRilDataCallListToHal r len)) v slot ty serial e s"

section \<open>The modem\<close>

text \<open>A word of the bytes of a union, lowest byte first.\<close>

definition word_at :: "string \<Rightarrow> nat \<Rightarrow> int" where
  "word_at bs k = sint (un_le32 (map of_char (take 4 (drop k bs))))"

definition RIL_HARDWARE_CONFIG_MODEM :: int where "RIL_HARDWARE_CONFIG_MODEM = 0"
definition RIL_HARDWARE_CONFIG_SIM :: int where "RIL_HARDWARE_CONFIG_SIM = 1"

text \<open>An unknown type leaves both vectors empty.\<close>

definition convert_hardware :: "RIL_HardwareConfig \<Rightarrow> hv option" where
  "convert_hardware p =
     do { u \<leftarrow> char_array (hw_uuid p);
          (m, sim) \<leftarrow>
            (if length (cfg p) \<noteq> MAX_UUID_LENGTH then None
             else if hw_type p = RIL_HARDWARE_CONFIG_MODEM then
               Some ([HRec [(''rat'', HInt (word_at (cfg p) 4)), (''maxVoice'', HInt (word_at (cfg p) 8)),
                            (''maxData'', HInt (word_at (cfg p) 12)), (''maxStandby'', HInt (word_at (cfg p) 16))]], [])
             else if hw_type p = RIL_HARDWARE_CONFIG_SIM then
               map_option (\<lambda>t. ([], [HRec [(''modemUuid'', t)]])) (char_array (cfg p))
             else Some ([], []));
          Some (HRec [(''type'', HInt (hw_type p)), (''uuid'', u), (''state'', HInt (hw_state p)),
                      (''modem'', HVec m), (''sim'', HVec sim)]) }"

definition convertRilHardwareConfigListToHal :: "response \<Rightarrow> nat \<Rightarrow> hv option" where
  "convertRilHardwareConfigListToHal r len =
     (let n = len div c_sizeof RIL_HardwareConfig_t
      in if n = 0 then Some (HVec [])
         else case r of
           Some (BHardware ps) \<Rightarrow>
             do { cs \<leftarrow> elements n ps; hs \<leftarrow> those (map convert_hardware cs); Some (HVec hs) }
         | _ \<Rightarrow> None)"

definition getHardwareConfigResponse :: response_fun where
  "getHardwareConfigResponse v slot ty serial e r len s =
     reply ''getHardwareConfigResponse'' (r = None \<or> len mod c_sizeof RIL_HardwareConfig_t \<noteq> 0) [HVec []]
       (map_option (\<lambda>h. [h]) (convertRilHardwareConfigListToHal r len)) v slot ty serial e s"

definition lce_data :: "int \<Rightarrow> int \<Rightarrow> bool \<Rightarrow> hv" where
  "lce_data kbps level susp =
     HRec [(''lastHopCapacityKbps'', HInt kbps), (''confidenceLevel'', HInt (u8 level)), (''lceSuspended'', HBool susp)]"

definition convertRilLceDataInfoToHal :: "response \<Rightarrow> hv option" where
  "convertRilLceDataInfoToHal r =
     (case r of
        Some (BLceData p) \<Rightarrow> Some (lce_data (last_hop_capacity_kbps p) (confidence_level p) (lce_suspended p \<noteq> 0))
      | _ \<Rightarrow> None)"

definition pullLceDataResponse :: response_fun where
  "pullLceDataResponse v slot ty serial e r len s =
     reply ''pullLceDataResponse'' (r = None \<or> len \<noteq> c_sizeof RIL_LceDataInfo_t) [lce_data 0 0 False]
       (map_option (\<lambda>h. [h]) (convertRilLceDataInfoToHal r)) v slot ty serial e s"

definition activity_info :: "int \<Rightarrow> int \<Rightarrow> int list \<Rightarrow> int \<Rightarrow> hv" where
  "activity_info sleep idle tx rx =
     HRec [(''sleepModeTimeMs'', HInt sleep), (''idleModeTimeMs'', HInt idle), (''txmModetimeMs'', HVec (map HInt tx)),
           (''rxModeTimeMs'', HInt rx)]"

text \<open>A response that does not fit is no error with \<open>MTK_HARDWARE\<close>; all times are zero.\<close>

definition getModemActivityInfoResponse :: response_fun where
  "getModemActivityInfoResponse v slot ty serial e r len s =
     (let unfit = (r = None \<or> len \<noteq> c_sizeof RIL_ActivityStatsInfo_t);
          j = leftover v;
          tx = RIL_NUM_TX_POWER_LEVELS
      in reply ''getModemActivityInfoResponse'' (unfit \<and> \<not> mtk v) [activity_info j j (replicate tx j) j]
           (if unfit then Some [activity_info 0 0 (replicate tx 0) 0]
            else case r of
              Some (BActivity p) \<Rightarrow>
                map_option (\<lambda>ts. [activity_info (sleep_mode_time_ms p) (idle_mode_time_ms p) ts (rx_mode_time_ms p)])
                  (elements tx (tx_mode_time_ms p))
            | _ \<Rightarrow> None) v slot ty serial e s)"

definition convert_carrier :: "RIL_Carrier \<Rightarrow> hv" where
  "convert_carrier c =
     HRec [(''mcc'', convertCharPtrToHidlString (mcc c)), (''mnc'', convertCharPtrToHidlString (mnc c)),
           (''matchType'', HInt (match_type c)), (''matchData'', convertCharPtrToHidlString (match_data c))]"

definition carrier_restrictions :: "hv list \<Rightarrow> hv list \<Rightarrow> hv" where
  "carrier_restrictions al ex = HRec [(''allowedCarriers'', HVec al), (''excludedCarriers'', HVec ex)]"

text \<open>No response is no error: all carriers are allowed.\<close>

definition getAllowedCarriersResponse :: response_fun where
  "getAllowedCarriersResponse v slot ty serial e r len s =
     reply ''getAllowedCarriersResponse'' (r \<noteq> None \<and> len \<noteq> c_sizeof RIL_CarrierRestrictions_t)
       [HBool True, carrier_restrictions [] []]
       (case r of
          None \<Rightarrow> Some [HBool True, carrier_restrictions [] []]
        | Some (BCarriers p) \<Rightarrow>
            do { al \<leftarrow> counted (len_allowed_carriers p) (allowed_carriers p);
                 ex \<leftarrow> counted (len_excluded_carriers p) (excluded_carriers p);
                 Some [HBool (\<not> (0 < len_allowed_carriers p \<or> 0 < len_excluded_carriers p)),
                       carrier_restrictions (map convert_carrier al) (map convert_carrier ex)] }
        | _ \<Rightarrow> None) v slot ty serial e s"

section \<open>The OEM service\<close>

definition sendRequestRawResponse :: response_fun where
  "sendRequestRawResponse v slot ty serial e r len s =
     reply_to False ''sendRequestRawResponse'' (r = None) [HBytes '''']
       (case r of Some (BBytes b) \<Rightarrow> if len \<le> length b then Some [HBytes (take len b)] else None | _ \<Rightarrow> None)
       v slot ty serial e s"

definition sendRequestStringsResponse :: response_fun where
  "sendRequestStringsResponse v slot ty serial e r len s =
     reply_to False ''sendRequestStringsResponse'' (r = None \<or> len mod 8 \<noteq> 0) [HVec []]
       (map_option (\<lambda>ts. [HVec (map convertCharPtrToHidlString ts)]) (texts (len div 8) r)) v slot ty serial e s"

section \<open>All responses\<close>

lemmas response_defs =
  getIccCardStatusResponse_def getCurrentCallsResponse_def getLastCallFailCauseResponse_def
  getOperatorResponse_def getClirResponse_def getCallForwardStatusResponse_def getCallWaitingResponse_def
  getNetworkSelectionModeResponse_def getMuteResponse_def getDataCallListResponse_def
  getAvailableBandModesResponse_def getNeighboringCidsResponse_def getPreferredVoicePrivacyResponse_def
  getGsmBroadcastConfigResponse_def getCdmaBroadcastConfigResponse_def getCDMASubscriptionResponse_def
  getDeviceIdentityResponse_def getImsRegistrationStateResponse_def iccOpenLogicalChannelResponse_def
  getHardwareConfigResponse_def pullLceDataResponse_def getModemActivityInfoResponse_def
  getAllowedCarriersResponse_def

lemmas shape_defs =
  supplyIccPinForAppResponse_def supplyIccPukForAppResponse_def supplyIccPin2ForAppResponse_def
  supplyIccPuk2ForAppResponse_def changeIccPinForAppResponse_def changeIccPin2ForAppResponse_def
  supplyNetworkDepersonalizationResponse_def dialResponse_def getIMSIForAppResponse_def
  hangupConnectionResponse_def hangupWaitingOrBackgroundResponse_def
  hangupForegroundResumeBackgroundResponse_def switchWaitingOrHoldingAndActiveResponse_def
  conferenceResponse_def rejectCallResponse_def setRadioPowerResponse_def sendDtmfResponse_def
  sendSmsResponse_def sendSMSExpectMoreResponse_def iccIOForAppResponse_def sendUssdResponse_def
  cancelPendingUssdResponse_def setClirResponse_def setCallForwardResponse_def setCallWaitingResponse_def
  acknowledgeLastIncomingGsmSmsResponse_def acceptCallResponse_def deactivateDataCallResponse_def
  getFacilityLockForAppResponse_def setFacilityLockForAppResponse_def setBarringPasswordResponse_def
  setNetworkSelectionModeAutomaticResponse_def setNetworkSelectionModeManualResponse_def startDtmfResponse_def
  stopDtmfResponse_def getBasebandVersionResponse_def separateConnectionResponse_def setMuteResponse_def
  getClipResponse_def setSuppServiceNotificationsResponse_def deleteSmsOnSimResponse_def
  setBandModeResponse_def writeSmsToSimResponse_def sendEnvelopeResponse_def
  sendTerminalResponseToSimResponse_def handleStkCallSetupRequestFromSimResponse_def
  explicitCallTransferResponse_def setPreferredNetworkTypeResponse_def getPreferredNetworkTypeResponse_def
  setLocationUpdatesResponse_def setCdmaSubscriptionSourceResponse_def setCdmaRoamingPreferenceResponse_def
  getCdmaRoamingPreferenceResponse_def setTTYModeResponse_def getTTYModeResponse_def
  setPreferredVoicePrivacyResponse_def sendCDMAFeatureCodeResponse_def sendBurstDtmfResponse_def
  sendCdmaSmsResponse_def acknowledgeLastIncomingCdmaSmsResponse_def setGsmBroadcastConfigResponse_def
  setGsmBroadcastActivationResponse_def setCdmaBroadcastConfigResponse_def
  setCdmaBroadcastActivationResponse_def writeSmsToRuimResponse_def deleteSmsOnRuimResponse_def
  exitEmergencyCallbackModeResponse_def getSmscAddressResponse_def setSmscAddressResponse_def
  reportSmsMemoryStatusResponse_def reportStkServiceIsRunningResponse_def getCdmaSubscriptionSourceResponse_def
  requestIsimAuthenticationResponse_def acknowledgeIncomingGsmSmsWithPduResponse_def
  sendEnvelopeWithStatusResponse_def getVoiceRadioTechnologyResponse_def setCellInfoListRateResponse_def
  setInitialAttachApnResponse_def sendImsSmsResponse_def iccTransmitApduBasicChannelResponse_def
  iccCloseLogicalChannelResponse_def iccTransmitApduLogicalChannelResponse_def nvReadItemResponse_def
  nvWriteItemResponse_def nvWriteCdmaPrlResponse_def nvResetConfigResponse_def setUiccSubscriptionResponse_def
  setDataAllowedResponse_def requestIccSimAuthenticationResponse_def setDataProfileResponse_def
  requestShutdownResponse_def getRadioCapabilityResponse_def setRadioCapabilityResponse_def
  startLceServiceResponse_def stopLceServiceResponse_def setAllowedCarriersResponse_def
  sendDeviceStateResponse_def setIndicationFilterResponse_def setSimCardPowerResponse_def

text \<open>The functions by their name in the table, with their callback; \<open>True\<close> is the radio service.\<close>

definition response_functions :: "(string \<times> bool \<times> string \<times> response_fun) list" where
  "response_functions =
     [(''getIccCardStatusResponse'', True, ''getIccCardStatusResponse'', getIccCardStatusResponse),
      (''supplyIccPinForAppResponse'', True, ''supplyIccPinForAppResponse'', supplyIccPinForAppResponse),
      (''supplyIccPukForAppResponse'', True, ''supplyIccPukForAppResponse'', supplyIccPukForAppResponse),
      (''supplyIccPin2ForAppResponse'', True, ''supplyIccPin2ForAppResponse'', supplyIccPin2ForAppResponse),
      (''supplyIccPuk2ForAppResponse'', True, ''supplyIccPuk2ForAppResponse'', supplyIccPuk2ForAppResponse),
      (''changeIccPinForAppResponse'', True, ''changeIccPinForAppResponse'', changeIccPinForAppResponse),
      (''changeIccPin2ForAppResponse'', True, ''changeIccPin2ForAppResponse'', changeIccPin2ForAppResponse),
      (''supplyNetworkDepersonalizationResponse'', True, ''supplyNetworkDepersonalizationResponse'', supplyNetworkDepersonalizationResponse),
      (''getCurrentCallsResponse'', True, ''getCurrentCallsResponse'', getCurrentCallsResponse),
      (''dialResponse'', True, ''dialResponse'', dialResponse),
      (''getIMSIForAppResponse'', True, ''getIMSIForAppResponse'', getIMSIForAppResponse),
      (''hangupConnectionResponse'', True, ''hangupConnectionResponse'', hangupConnectionResponse),
      (''hangupWaitingOrBackgroundResponse'', True, ''hangupWaitingOrBackgroundResponse'', hangupWaitingOrBackgroundResponse),
      (''hangupForegroundResumeBackgroundResponse'', True, ''hangupWaitingOrBackgroundResponse'', hangupForegroundResumeBackgroundResponse),
      (''switchWaitingOrHoldingAndActiveResponse'', True, ''switchWaitingOrHoldingAndActiveResponse'', switchWaitingOrHoldingAndActiveResponse),
      (''conferenceResponse'', True, ''conferenceResponse'', conferenceResponse),
      (''rejectCallResponse'', True, ''rejectCallResponse'', rejectCallResponse),
      (''getLastCallFailCauseResponse'', True, ''getLastCallFailCauseResponse'', getLastCallFailCauseResponse),
      (''getSignalStrengthResponse'', True, ''getSignalStrengthResponse'', getSignalStrengthResponse),
      (''getVoiceRegistrationStateResponse'', True, ''getVoiceRegistrationStateResponse'', getVoiceRegistrationStateResponse),
      (''getDataRegistrationStateResponse'', True, ''getDataRegistrationStateResponse'', getDataRegistrationStateResponse),
      (''getOperatorResponse'', True, ''getOperatorResponse'', getOperatorResponse),
      (''setRadioPowerResponse'', True, ''setRadioPowerResponse'', setRadioPowerResponse),
      (''sendDtmfResponse'', True, ''sendDtmfResponse'', sendDtmfResponse),
      (''sendSmsResponse'', True, ''sendSmsResponse'', sendSmsResponse),
      (''sendSMSExpectMoreResponse'', True, ''sendSMSExpectMoreResponse'', sendSMSExpectMoreResponse),
      (''setupDataCallResponse'', True, ''setupDataCallResponse'', setupDataCallResponse),
      (''iccIOForAppResponse'', True, ''iccIOForAppResponse'', iccIOForAppResponse),
      (''sendUssdResponse'', True, ''sendUssdResponse'', sendUssdResponse),
      (''cancelPendingUssdResponse'', True, ''cancelPendingUssdResponse'', cancelPendingUssdResponse),
      (''getClirResponse'', True, ''getClirResponse'', getClirResponse),
      (''setClirResponse'', True, ''setClirResponse'', setClirResponse),
      (''getCallForwardStatusResponse'', True, ''getCallForwardStatusResponse'', getCallForwardStatusResponse),
      (''setCallForwardResponse'', True, ''setCallForwardResponse'', setCallForwardResponse),
      (''getCallWaitingResponse'', True, ''getCallWaitingResponse'', getCallWaitingResponse),
      (''setCallWaitingResponse'', True, ''setCallWaitingResponse'', setCallWaitingResponse),
      (''acknowledgeLastIncomingGsmSmsResponse'', True, ''acknowledgeLastIncomingGsmSmsResponse'', acknowledgeLastIncomingGsmSmsResponse),
      (''acceptCallResponse'', True, ''acceptCallResponse'', acceptCallResponse),
      (''deactivateDataCallResponse'', True, ''deactivateDataCallResponse'', deactivateDataCallResponse),
      (''getFacilityLockForAppResponse'', True, ''getFacilityLockForAppResponse'', getFacilityLockForAppResponse),
      (''setFacilityLockForAppResponse'', True, ''setFacilityLockForAppResponse'', setFacilityLockForAppResponse),
      (''setBarringPasswordResponse'', True, ''setBarringPasswordResponse'', setBarringPasswordResponse),
      (''getNetworkSelectionModeResponse'', True, ''getNetworkSelectionModeResponse'', getNetworkSelectionModeResponse),
      (''setNetworkSelectionModeAutomaticResponse'', True, ''setNetworkSelectionModeAutomaticResponse'', setNetworkSelectionModeAutomaticResponse),
      (''setNetworkSelectionModeManualResponse'', True, ''setNetworkSelectionModeManualResponse'', setNetworkSelectionModeManualResponse),
      (''getAvailableNetworksResponse'', True, ''getAvailableNetworksResponse'', getAvailableNetworksResponse),
      (''startDtmfResponse'', True, ''startDtmfResponse'', startDtmfResponse),
      (''stopDtmfResponse'', True, ''stopDtmfResponse'', stopDtmfResponse),
      (''getBasebandVersionResponse'', True, ''getBasebandVersionResponse'', getBasebandVersionResponse),
      (''separateConnectionResponse'', True, ''separateConnectionResponse'', separateConnectionResponse),
      (''setMuteResponse'', True, ''setMuteResponse'', setMuteResponse),
      (''getMuteResponse'', True, ''getMuteResponse'', getMuteResponse),
      (''getClipResponse'', True, ''getClipResponse'', getClipResponse),
      (''getDataCallListResponse'', True, ''getDataCallListResponse'', getDataCallListResponse),
      (''sendRequestRawResponse'', False, ''sendRequestRawResponse'', sendRequestRawResponse),
      (''sendRequestStringsResponse'', False, ''sendRequestStringsResponse'', sendRequestStringsResponse),
      (''sendDeviceStateResponse'', True, ''sendDeviceStateResponse'', sendDeviceStateResponse),
      (''setSuppServiceNotificationsResponse'', True, ''setSuppServiceNotificationsResponse'', setSuppServiceNotificationsResponse),
      (''writeSmsToSimResponse'', True, ''writeSmsToSimResponse'', writeSmsToSimResponse),
      (''deleteSmsOnSimResponse'', True, ''deleteSmsOnSimResponse'', deleteSmsOnSimResponse),
      (''setBandModeResponse'', True, ''setBandModeResponse'', setBandModeResponse),
      (''getAvailableBandModesResponse'', True, ''getAvailableBandModesResponse'', getAvailableBandModesResponse),
      (''sendEnvelopeResponse'', True, ''sendEnvelopeResponse'', sendEnvelopeResponse),
      (''sendTerminalResponseToSimResponse'', True, ''sendTerminalResponseToSimResponse'', sendTerminalResponseToSimResponse),
      (''handleStkCallSetupRequestFromSimResponse'', True, ''handleStkCallSetupRequestFromSimResponse'', handleStkCallSetupRequestFromSimResponse),
      (''explicitCallTransferResponse'', True, ''explicitCallTransferResponse'', explicitCallTransferResponse),
      (''setPreferredNetworkTypeResponse'', True, ''setPreferredNetworkTypeResponse'', setPreferredNetworkTypeResponse),
      (''getPreferredNetworkTypeResponse'', True, ''getPreferredNetworkTypeResponse'', getPreferredNetworkTypeResponse),
      (''getNeighboringCidsResponse'', True, ''getNeighboringCidsResponse'', getNeighboringCidsResponse),
      (''setLocationUpdatesResponse'', True, ''setLocationUpdatesResponse'', setLocationUpdatesResponse),
      (''setCdmaSubscriptionSourceResponse'', True, ''setCdmaSubscriptionSourceResponse'', setCdmaSubscriptionSourceResponse),
      (''setCdmaRoamingPreferenceResponse'', True, ''setCdmaRoamingPreferenceResponse'', setCdmaRoamingPreferenceResponse),
      (''getCdmaRoamingPreferenceResponse'', True, ''getCdmaRoamingPreferenceResponse'', getCdmaRoamingPreferenceResponse),
      (''setTTYModeResponse'', True, ''setTTYModeResponse'', setTTYModeResponse),
      (''getTTYModeResponse'', True, ''getTTYModeResponse'', getTTYModeResponse),
      (''setPreferredVoicePrivacyResponse'', True, ''setPreferredVoicePrivacyResponse'', setPreferredVoicePrivacyResponse),
      (''getPreferredVoicePrivacyResponse'', True, ''getPreferredVoicePrivacyResponse'', getPreferredVoicePrivacyResponse),
      (''sendCDMAFeatureCodeResponse'', True, ''sendCDMAFeatureCodeResponse'', sendCDMAFeatureCodeResponse),
      (''sendBurstDtmfResponse'', True, ''sendBurstDtmfResponse'', sendBurstDtmfResponse),
      (''sendCdmaSmsResponse'', True, ''sendCdmaSmsResponse'', sendCdmaSmsResponse),
      (''acknowledgeLastIncomingCdmaSmsResponse'', True, ''acknowledgeLastIncomingCdmaSmsResponse'', acknowledgeLastIncomingCdmaSmsResponse),
      (''getGsmBroadcastConfigResponse'', True, ''getGsmBroadcastConfigResponse'', getGsmBroadcastConfigResponse),
      (''setGsmBroadcastConfigResponse'', True, ''setGsmBroadcastConfigResponse'', setGsmBroadcastConfigResponse),
      (''setGsmBroadcastActivationResponse'', True, ''setGsmBroadcastActivationResponse'', setGsmBroadcastActivationResponse),
      (''getCdmaBroadcastConfigResponse'', True, ''getCdmaBroadcastConfigResponse'', getCdmaBroadcastConfigResponse),
      (''setCdmaBroadcastConfigResponse'', True, ''setCdmaBroadcastConfigResponse'', setCdmaBroadcastConfigResponse),
      (''setCdmaBroadcastActivationResponse'', True, ''setCdmaBroadcastActivationResponse'', setCdmaBroadcastActivationResponse),
      (''getCDMASubscriptionResponse'', True, ''getCDMASubscriptionResponse'', getCDMASubscriptionResponse),
      (''writeSmsToRuimResponse'', True, ''writeSmsToRuimResponse'', writeSmsToRuimResponse),
      (''deleteSmsOnRuimResponse'', True, ''deleteSmsOnRuimResponse'', deleteSmsOnRuimResponse),
      (''getDeviceIdentityResponse'', True, ''getDeviceIdentityResponse'', getDeviceIdentityResponse),
      (''exitEmergencyCallbackModeResponse'', True, ''exitEmergencyCallbackModeResponse'', exitEmergencyCallbackModeResponse),
      (''getSmscAddressResponse'', True, ''getSmscAddressResponse'', getSmscAddressResponse),
      (''setSmscAddressResponse'', True, ''setSmscAddressResponse'', setSmscAddressResponse),
      (''reportSmsMemoryStatusResponse'', True, ''reportSmsMemoryStatusResponse'', reportSmsMemoryStatusResponse),
      (''reportStkServiceIsRunningResponse'', True, ''reportStkServiceIsRunningResponse'', reportStkServiceIsRunningResponse),
      (''getCdmaSubscriptionSourceResponse'', True, ''getCdmaSubscriptionSourceResponse'', getCdmaSubscriptionSourceResponse),
      (''requestIsimAuthenticationResponse'', True, ''requestIsimAuthenticationResponse'', requestIsimAuthenticationResponse),
      (''acknowledgeIncomingGsmSmsWithPduResponse'', True, ''acknowledgeIncomingGsmSmsWithPduResponse'', acknowledgeIncomingGsmSmsWithPduResponse),
      (''sendEnvelopeWithStatusResponse'', True, ''sendEnvelopeWithStatusResponse'', sendEnvelopeWithStatusResponse),
      (''getVoiceRadioTechnologyResponse'', True, ''getVoiceRadioTechnologyResponse'', getVoiceRadioTechnologyResponse),
      (''getCellInfoListResponse'', True, ''getCellInfoListResponse'', getCellInfoListResponse),
      (''setCellInfoListRateResponse'', True, ''setCellInfoListRateResponse'', setCellInfoListRateResponse),
      (''setInitialAttachApnResponse'', True, ''setInitialAttachApnResponse'', setInitialAttachApnResponse),
      (''getImsRegistrationStateResponse'', True, ''getImsRegistrationStateResponse'', getImsRegistrationStateResponse),
      (''sendImsSmsResponse'', True, ''sendImsSmsResponse'', sendImsSmsResponse),
      (''iccTransmitApduBasicChannelResponse'', True, ''iccTransmitApduBasicChannelResponse'', iccTransmitApduBasicChannelResponse),
      (''iccOpenLogicalChannelResponse'', True, ''iccOpenLogicalChannelResponse'', iccOpenLogicalChannelResponse),
      (''iccCloseLogicalChannelResponse'', True, ''iccCloseLogicalChannelResponse'', iccCloseLogicalChannelResponse),
      (''iccTransmitApduLogicalChannelResponse'', True, ''iccTransmitApduLogicalChannelResponse'', iccTransmitApduLogicalChannelResponse),
      (''nvReadItemResponse'', True, ''nvReadItemResponse'', nvReadItemResponse),
      (''nvWriteItemResponse'', True, ''nvWriteItemResponse'', nvWriteItemResponse),
      (''nvWriteCdmaPrlResponse'', True, ''nvWriteCdmaPrlResponse'', nvWriteCdmaPrlResponse),
      (''nvResetConfigResponse'', True, ''nvResetConfigResponse'', nvResetConfigResponse),
      (''setUiccSubscriptionResponse'', True, ''setUiccSubscriptionResponse'', setUiccSubscriptionResponse),
      (''setDataAllowedResponse'', True, ''setDataAllowedResponse'', setDataAllowedResponse),
      (''getHardwareConfigResponse'', True, ''getHardwareConfigResponse'', getHardwareConfigResponse),
      (''requestIccSimAuthenticationResponse'', True, ''requestIccSimAuthenticationResponse'', requestIccSimAuthenticationResponse),
      (''setDataProfileResponse'', True, ''setDataProfileResponse'', setDataProfileResponse),
      (''requestShutdownResponse'', True, ''requestShutdownResponse'', requestShutdownResponse),
      (''getRadioCapabilityResponse'', True, ''getRadioCapabilityResponse'', getRadioCapabilityResponse),
      (''setRadioCapabilityResponse'', True, ''setRadioCapabilityResponse'', setRadioCapabilityResponse),
      (''startLceServiceResponse'', True, ''startLceServiceResponse'', startLceServiceResponse),
      (''stopLceServiceResponse'', True, ''stopLceServiceResponse'', stopLceServiceResponse),
      (''pullLceDataResponse'', True, ''pullLceDataResponse'', pullLceDataResponse),
      (''getModemActivityInfoResponse'', True, ''getModemActivityInfoResponse'', getModemActivityInfoResponse),
      (''setAllowedCarriersResponse'', True, ''setAllowedCarriersResponse'', setAllowedCarriersResponse),
      (''getAllowedCarriersResponse'', True, ''getAllowedCarriersResponse'', getAllowedCarriersResponse),
      (''sendDeviceStateResponse'', True, ''sendDeviceStateResponse'', sendDeviceStateResponse),
      (''setIndicationFilterResponse'', True, ''setIndicationFilterResponse'', setIndicationFilterResponse),
      (''setSimCardPowerResponse'', True, ''setSimCardPowerResponse'', setSimCardPowerResponse)]"

section \<open>What they share\<close>

lemma answers_own:
  "answers True ''getIccCardStatusResponse'' (Lengths [c_sizeof RIL_CardStatus_v6_t]) getIccCardStatusResponse"
  "answers True ''getLastCallFailCauseResponse'' (Lengths [4, c_sizeof RIL_LastCallFailCauseInfo_t]) getLastCallFailCauseResponse"
  "answers True ''getOperatorResponse'' (AtLeast 8) getOperatorResponse"
  "answers True ''getClirResponse'' (Items 4 [2]) getClirResponse"
  "answers True ''getCallWaitingResponse'' (Items 4 [2]) getCallWaitingResponse"
  "answers True ''getNetworkSelectionModeResponse'' (Lengths [4]) getNetworkSelectionModeResponse"
  "answers True ''getMuteResponse'' (Lengths [4]) getMuteResponse"
  "answers True ''getPreferredVoicePrivacyResponse'' (Items 4 [1]) getPreferredVoicePrivacyResponse"
  "answers True ''getCDMASubscriptionResponse'' (Items 8 [5]) getCDMASubscriptionResponse"
  "answers True ''getDeviceIdentityResponse'' (Items 8 [4]) getDeviceIdentityResponse"
  "answers True ''getImsRegistrationStateResponse'' (Items 4 [2]) getImsRegistrationStateResponse"
  "answers True ''iccOpenLogicalChannelResponse'' Channel iccOpenLogicalChannelResponse"
  "answers True ''pullLceDataResponse'' (Lengths [c_sizeof RIL_LceDataInfo_t]) pullLceDataResponse"
  "answers True ''getModemActivityInfoResponse'' (Spared (Lengths [c_sizeof RIL_ActivityStatsInfo_t])) getModemActivityInfoResponse"
  "answers True ''getAllowedCarriersResponse'' (Optional (c_sizeof RIL_CarrierRestrictions_t)) getAllowedCarriersResponse"
  by ((rule answers_replyI, unfold response_defs response_flag_def Let_def, intro exI conjI, assumption,
      auto simp: div_eq_0_iff)[1])+

lemma pointed_length: "pointed n ps = Some xs \<Longrightarrow> length xs = n"
  by (auto simp: pointed_def dest: those_length split: if_splits)

lemma calls_counted:
  "convertRilDataCallListToHal r len = Some h
     \<Longrightarrow> \<exists>hs. h = HVec hs \<and> length hs = len div c_sizeof RIL_Data_Call_Response_v11_t"
  by (auto simp: convertRilDataCallListToHal_def Let_def dest: elements_length
      split: if_splits option.splits resp_block.splits simp del: c_sizeof.simps)

lemma hardware_counted:
  "convertRilHardwareConfigListToHal r len = Some h
     \<Longrightarrow> \<exists>hs. h = HVec hs \<and> length hs = len div c_sizeof RIL_HardwareConfig_t"
  by (auto simp: convertRilHardwareConfigListToHal_def Let_def bind_eq_Some_conv dest!: elements_length those_length
      split: if_splits option.splits resp_block.splits simp del: c_sizeof.simps)

lemma answers_lists:
  "answers True ''getCurrentCallsResponse'' (Records 8) getCurrentCallsResponse"
  "answers True ''getCallForwardStatusResponse'' (Records 8) getCallForwardStatusResponse"
  "answers True ''getDataCallListResponse'' (Records (c_sizeof RIL_Data_Call_Response_v11_t)) getDataCallListResponse"
  "answers True ''getAvailableBandModesResponse'' (Records 4) getAvailableBandModesResponse"
  "answers True ''getNeighboringCidsResponse'' (Records 8) getNeighboringCidsResponse"
  "answers True ''getGsmBroadcastConfigResponse'' (Records 8) getGsmBroadcastConfigResponse"
  "answers True ''getCdmaBroadcastConfigResponse'' (Records 8) getCdmaBroadcastConfigResponse"
  "answers True ''getHardwareConfigResponse'' (Records (c_sizeof RIL_HardwareConfig_t)) getHardwareConfigResponse"
  by ((rule answers_replyI, unfold response_defs, intro exI conjI, assumption,
      auto simp: bind_eq_Some_conv dest!: pointed_length those_length ints_length calls_counted hardware_counted
        split: option.splits resp_block.splits simp del: c_sizeof.simps)[1])+

lemma networks_known:
  "convert_networks junk ts = Some (ok, hs) \<Longrightarrow> ok = known_statuses ts"
  by (induction junk ts arbitrary: ok hs rule: convert_networks.induct)
    (auto simp: bind_eq_Some_conv Let_def split: option.splits)

lemma answers_networks: "answers True ''getAvailableNetworksResponse'' Networks getAvailableNetworksResponse"
proof (rule answers_replyI)
  fix v slot ty serial e r len s s'
  assume *: "getAvailableNetworksResponse v slot ty serial e r len s = Some s'"
  let ?nets = "Option.bind (texts (len div 8) r) (convert_networks (leftover v))"
  show "\<exists>bad none good. reply ''getAvailableNetworksResponse'' bad none good v slot ty serial e s = Some s' \<and>
      bad = (\<not> fits_as v Networks r len) \<and> (bad \<longrightarrow> says Networks r len none) \<and>
      (\<forall>a. \<not> bad \<and> good = Some a \<longrightarrow> says Networks r len a)"
  proof (cases "r = None \<or> len mod 32 \<noteq> 0")
    case True
    then have "reply ''getAvailableNetworksResponse'' True [HVec []] None v slot ty serial e s = Some s'"
      using * by (simp add: getAvailableNetworksResponse_def)
    then show ?thesis using True by (intro exI conjI) auto
  next
    case False
    show ?thesis
    proof (cases ?nets)
      case None
      then have "\<not> has_response (radio s slot)" "s' = s"
        using * False by (auto simp: getAvailableNetworksResponse_def reply_def reply_to_def client_of_def split: if_splits)
      then have "reply ''getAvailableNetworksResponse'' (\<not> fits_as v Networks r len) [] None v slot ty serial e s = Some s'"
        by (simp add: reply_def reply_to_def client_of_def)
      then show ?thesis by (intro exI conjI) auto
    next
      case (Some x)
      obtain ok hs where x: "x = (ok, hs)" by fastforce
      then have "reply ''getAvailableNetworksResponse'' (\<not> ok) [HVec hs] (Some [HVec hs]) v slot ty serial e s = Some s'"
        using * False Some by (auto simp: getAvailableNetworksResponse_def)
      moreover have "ok = fits_as v Networks r len"
        using Some x False networks_known by (auto simp: bind_eq_Some_conv)
      ultimately show ?thesis by (intro exI conjI) auto
    qed
  qed
qed

lemma answers_setup:
  "answers True ''setupDataCallResponse'' (Lengths [c_sizeof RIL_Data_Call_Response_v11_t]) setupDataCallResponse"
  unfolding answers_def
proof (intro allI impI)
  fix v slot ty serial e r len s s'
  assume *: "setupDataCallResponse v slot ty serial e r len s = Some s'"
  let ?k = "Lengths [c_sizeof RIL_Data_Call_Response_v11_t]"
  show "if has_response (client_of True s slot)
        then \<exists>s1 args. same_clients s s1 \<and>
               s' = call_back v True (Callback slot ''setupDataCallResponse'' (Reply (reply_info v ?k ty serial e r len)) args) s1 \<and>
               says ?k r len args
        else s' = s"
  proof (cases "has_response (client_of True s slot)")
    case True
    from * obtain none good s1 where
        **: "reply ''setupDataCallResponse'' (\<not> fits_as v ?k r len) none good v slot ty serial e s1 = Some s'"
          and s1: "same_clients s s1"
      unfolding setupDataCallResponse_def Let_def
      by (auto simp: same_clients_def split: option.splits resp_block.splits list.splits if_splits)
    have "has_response (client_of True s1 slot)" using True s1 by (simp add: client_of_def same_clients_def)
    with reply_callbacks[OF **[unfolded reply_def] refl] have "\<exists>args.
        s' = call_back v True (Callback slot ''setupDataCallResponse'' (Reply (reply_info v ?k ty serial e r len)) args) s1"
      by auto
    with s1 True show ?thesis by (simp only: if_True says.simps simp_thms) blast
  next
    case False
    then show ?thesis
      using * by (auto simp: setupDataCallResponse_def Let_def reply_def reply_to_def client_of_def
          split: option.splits resp_block.splits list.splits if_splits)
  qed
qed

lemma answers_oem:
  "answers False ''sendRequestRawResponse'' Given sendRequestRawResponse"
  "answers False ''sendRequestStringsResponse'' (Records 8) sendRequestStringsResponse"
  by ((rule answersI, unfold sendRequestRawResponse_def sendRequestStringsResponse_def, intro exI conjI, assumption,
      auto dest: texts_length)[1])+

lemma meets_own:
  "meets_empty getIccCardStatusResponse" "meets_empty getCurrentCallsResponse"
  "meets_empty getLastCallFailCauseResponse" "meets_empty getOperatorResponse"
  "meets_empty getClirResponse" "meets_empty getCallForwardStatusResponse" "meets_empty getCallWaitingResponse"
  "meets_empty getNetworkSelectionModeResponse" "meets_empty getMuteResponse" "meets_empty getDataCallListResponse"
  "meets_empty getAvailableBandModesResponse" "meets_empty getNeighboringCidsResponse"
  "meets_empty getPreferredVoicePrivacyResponse" "meets_empty getGsmBroadcastConfigResponse"
  "meets_empty getCdmaBroadcastConfigResponse" "meets_empty getCDMASubscriptionResponse"
  "meets_empty getDeviceIdentityResponse" "meets_empty getImsRegistrationStateResponse"
  "meets_empty iccOpenLogicalChannelResponse" "meets_empty getHardwareConfigResponse"
  "meets_empty pullLceDataResponse" "meets_empty getModemActivityInfoResponse" "meets_empty getAllowedCarriersResponse"
  by (simp_all add: meets_empty_def response_defs response_flag_def Let_def reply_None)

lemma meets_others:
  "meets_empty getAvailableNetworksResponse" "meets_empty setupDataCallResponse"
  "meets_empty sendRequestRawResponse" "meets_empty sendRequestStringsResponse"
  by (simp_all add: meets_empty_def getAvailableNetworksResponse_def setupDataCallResponse_def sendRequestRawResponse_def
      sendRequestStringsResponse_def Let_def reply_None reply_to_None)

text \<open>What the response to each request has to be; those that are not listed are not looked at.\<close>

definition expectations :: "(string \<times> expects) list" where
  "expectations =
     [(''getIccCardStatusResponse'', Lengths [c_sizeof RIL_CardStatus_v6_t]),
      (''supplyIccPinForAppResponse'', IntOrNothing),
      (''supplyIccPukForAppResponse'', IntOrNothing),
      (''supplyIccPin2ForAppResponse'', IntOrNothing),
      (''supplyIccPuk2ForAppResponse'', IntOrNothing),
      (''changeIccPinForAppResponse'', IntOrNothing),
      (''changeIccPin2ForAppResponse'', IntOrNothing),
      (''supplyNetworkDepersonalizationResponse'', IntOrNothing),
      (''getCurrentCallsResponse'', Records 8),
      (''getIMSIForAppResponse'', AnyText),
      (''getLastCallFailCauseResponse'', Lengths [4, c_sizeof RIL_LastCallFailCauseInfo_t]),
      (''getSignalStrengthResponse'', AtLeast (c_sizeof RIL_SignalStrength_v8_t)),
      (''getVoiceRegistrationStateResponse'', ByVersion (AtLeast 32) (Lengths [c_sizeof RIL_VoiceRegistrationStateResponse_t])),
      (''getDataRegistrationStateResponse'', ByVersion (Items 8 [4, 6, 11]) (Lengths [c_sizeof RIL_DataRegistrationStateResponse_t])),
      (''getOperatorResponse'', AtLeast 8),
      (''sendSmsResponse'', Lengths [c_sizeof RIL_SMS_Response_t]),
      (''sendSMSExpectMoreResponse'', Lengths [c_sizeof RIL_SMS_Response_t]),
      (''setupDataCallResponse'', Lengths [c_sizeof RIL_Data_Call_Response_v11_t]),
      (''iccIOForAppResponse'', Lengths [c_sizeof RIL_SIM_IO_Response_t]),
      (''getClirResponse'', Items 4 [2]),
      (''getCallForwardStatusResponse'', Records 8),
      (''getCallWaitingResponse'', Items 4 [2]),
      (''getFacilityLockForAppResponse'', OneInt),
      (''setFacilityLockForAppResponse'', IntOrNothing),
      (''getNetworkSelectionModeResponse'', Lengths [4]),
      (''getAvailableNetworksResponse'', Networks),
      (''getBasebandVersionResponse'', AnyText),
      (''getMuteResponse'', Lengths [4]),
      (''getClipResponse'', OneInt),
      (''getDataCallListResponse'', Records (c_sizeof RIL_Data_Call_Response_v11_t)),
      (''sendRequestRawResponse'', Given),
      (''sendRequestStringsResponse'', Records 8),
      (''writeSmsToSimResponse'', OneInt),
      (''getAvailableBandModesResponse'', Records 4),
      (''sendEnvelopeResponse'', AnyText),
      (''getPreferredNetworkTypeResponse'', OneInt),
      (''getNeighboringCidsResponse'', Records 8),
      (''getCdmaRoamingPreferenceResponse'', OneInt),
      (''getTTYModeResponse'', OneInt),
      (''getPreferredVoicePrivacyResponse'', Items 4 [1]),
      (''sendCdmaSmsResponse'', Lengths [c_sizeof RIL_SMS_Response_t]),
      (''getGsmBroadcastConfigResponse'', Records 8),
      (''getCdmaBroadcastConfigResponse'', Records 8),
      (''getCDMASubscriptionResponse'', Items 8 [5]),
      (''writeSmsToRuimResponse'', OneInt),
      (''getDeviceIdentityResponse'', Items 8 [4]),
      (''getSmscAddressResponse'', AnyText),
      (''getCdmaSubscriptionSourceResponse'', OneInt),
      (''requestIsimAuthenticationResponse'', AnyText),
      (''sendEnvelopeWithStatusResponse'', Lengths [c_sizeof RIL_SIM_IO_Response_t]),
      (''getVoiceRadioTechnologyResponse'', OneInt),
      (''getCellInfoListResponse'', Records 72),
      (''getImsRegistrationStateResponse'', Items 4 [2]),
      (''sendImsSmsResponse'', Lengths [c_sizeof RIL_SMS_Response_t]),
      (''iccTransmitApduBasicChannelResponse'', Lengths [c_sizeof RIL_SIM_IO_Response_t]),
      (''iccOpenLogicalChannelResponse'', Channel),
      (''iccTransmitApduLogicalChannelResponse'', Lengths [c_sizeof RIL_SIM_IO_Response_t]),
      (''nvReadItemResponse'', AnyText),
      (''getHardwareConfigResponse'', Records (c_sizeof RIL_HardwareConfig_t)),
      (''requestIccSimAuthenticationResponse'', Lengths [c_sizeof RIL_SIM_IO_Response_t]),
      (''getRadioCapabilityResponse'', Lengths [c_sizeof RIL_RadioCapability_t]),
      (''setRadioCapabilityResponse'', Lengths [c_sizeof RIL_RadioCapability_t]),
      (''startLceServiceResponse'', Lengths [c_sizeof RIL_LceStatusInfo_t]),
      (''stopLceServiceResponse'', Lengths [c_sizeof RIL_LceStatusInfo_t]),
      (''pullLceDataResponse'', Lengths [c_sizeof RIL_LceDataInfo_t]),
      (''getModemActivityInfoResponse'', Spared (Lengths [c_sizeof RIL_ActivityStatsInfo_t])),
      (''setAllowedCarriersResponse'', OneInt),
      (''getAllowedCarriersResponse'', Optional (c_sizeof RIL_CarrierRestrictions_t))]"

definition expected :: "string \<Rightarrow> expects" where
  "expected n = (case map_of expectations n of None \<Rightarrow> NoData | Some k \<Rightarrow> k)"

text \<open>Each function calls the callback of its own name, but for one.\<close>

definition callback_of :: "string \<Rightarrow> string" where
  "callback_of n =
     (if n = ''hangupForegroundResumeBackgroundResponse'' then ''hangupWaitingOrBackgroundResponse'' else n)"

definition sound :: "string \<times> bool \<times> string \<times> response_fun \<Rightarrow> bool" where
  "sound x = (case x of (n, b, nm, f) \<Rightarrow> nm = callback_of n \<and> answers b nm (expected n) f \<and> meets_empty f)"

lemma sound_all: "list_all sound response_functions"
  by (simp only: response_functions_def list.pred_inject sound_def prod.case shape_defs answers_shapes meets_shapes
      answers_own answers_lists answers_networks answers_setup answers_oem answers_cells meets_own meets_others meets_cells
      simp_thms callback_of_def expected_def expectations_def map_of.simps fst_conv snd_conv fun_upd_apply option.case
      if_True if_False list.inject list.distinct char.inject)

text \<open>They are the functions of the table, in its order.\<close>

lemma functions_of_table:
  "filter (\<lambda>x. x \<noteq> None) (map responseFunction s_commands) = map Some (map fst response_functions)"
  by (simp only: response_functions_def s_commands_def ril_commands_def list.map fst_conv command_info.sel
      filter.simps option.distinct simp_thms if_True if_False cong: if_weak_cong)


end
