(* ===== verification/Ril_Indications.thy ===== *)
theory Ril_Indications
  imports Ril_Responses
begin

text \<open>
  The functions for indications in \<open>ril_service.cpp\<close>, each under the name that \<open>s_unsolResponses\<close> knows it
  by.  Those of the last section belong to this vendor and turn one indication into another, or into a
  request of the library's own.
\<close>

section \<open>Indications of a common shape\<close>

definition callStateChangedInd :: response_fun where
  "callStateChangedInd = plain_indication ''callStateChanged''"

definition networkStateChangedInd :: response_fun where
  "networkStateChangedInd = plain_indication ''networkStateChanged''"

definition newSmsOnSimInd :: response_fun where
  "newSmsOnSimInd = indicate_int ''newSmsOnSim'' HInt"

definition stkSessionEndInd :: response_fun where
  "stkSessionEndInd = plain_indication ''stkSessionEnd''"

definition stkProactiveCommandInd :: response_fun where
  "stkProactiveCommandInd = indicate_text ''stkProactiveCommand''"

definition stkEventNotifyInd :: response_fun where
  "stkEventNotifyInd = indicate_text ''stkEventNotify''"

definition stkCallSetupInd :: response_fun where
  "stkCallSetupInd = indicate_int ''stkCallSetup'' HInt"

definition simSmsStorageFullInd :: response_fun where
  "simSmsStorageFullInd = plain_indication ''simSmsStorageFull''"

definition simStatusChangedInd :: response_fun where
  "simStatusChangedInd = plain_indication ''simStatusChanged''"

definition newBroadcastSmsInd :: response_fun where
  "newBroadcastSmsInd = indicate_bytes ''newBroadcastSms''"

definition cdmaRuimSmsStorageFullInd :: response_fun where
  "cdmaRuimSmsStorageFullInd = plain_indication ''cdmaRuimSmsStorageFull''"

definition restrictedStateChangedInd :: response_fun where
  "restrictedStateChangedInd = indicate_int ''restrictedStateChanged'' HInt"

definition enterEmergencyCallbackModeInd :: response_fun where
  "enterEmergencyCallbackModeInd = plain_indication ''enterEmergencyCallbackMode''"

definition cdmaOtaProvisionStatusInd :: response_fun where
  "cdmaOtaProvisionStatusInd = indicate_int ''cdmaOtaProvisionStatus'' HInt"

definition indicateRingbackToneInd :: response_fun where
  "indicateRingbackToneInd = indicate_int ''indicateRingbackTone'' (\<lambda>i. HBool (i \<noteq> 0))"

definition resendIncallMuteInd :: response_fun where
  "resendIncallMuteInd = plain_indication ''resendIncallMute''"

definition cdmaSubscriptionSourceChangedInd :: response_fun where
  "cdmaSubscriptionSourceChangedInd = indicate_int ''cdmaSubscriptionSourceChanged'' HInt"

definition cdmaPrlChangedInd :: response_fun where
  "cdmaPrlChangedInd = indicate_int ''cdmaPrlChanged'' HInt"

definition exitEmergencyCallbackModeInd :: response_fun where
  "exitEmergencyCallbackModeInd = plain_indication ''exitEmergencyCallbackMode''"

definition rilConnectedInd :: response_fun where
  "rilConnectedInd = plain_indication ''rilConnected''"

definition voiceRadioTechChangedInd :: response_fun where
  "voiceRadioTechChangedInd = indicate_int ''voiceRadioTechChanged'' HInt"

definition imsNetworkStateChangedInd :: response_fun where
  "imsNetworkStateChangedInd = plain_indication ''imsNetworkStateChanged''"

definition subscriptionStatusChangedInd :: response_fun where
  "subscriptionStatusChangedInd = indicate_int ''subscriptionStatusChanged'' (\<lambda>i. HBool (i \<noteq> 0))"

definition srvccStateNotifyInd :: response_fun where
  "srvccStateNotifyInd = indicate_int ''srvccStateNotify'' HInt"

definition stkCallControlAlphaNotifyInd :: response_fun where
  "stkCallControlAlphaNotifyInd = indicate_text ''stkCallControlAlphaNotify''"

definition modemResetInd :: response_fun where
  "modemResetInd = indicate_text ''modemReset''"

section \<open>Messages\<close>

definition INVALID_HEX_CHAR :: nat where "INVALID_HEX_CHAR = 16"

definition hexCharToInt :: "char \<Rightarrow> nat" where
  "hexCharToInt c =
     (let n = of_char c :: nat
      in if 48 \<le> n \<and> n \<le> 57 then n - 48
         else if 65 \<le> n \<and> n \<le> 70 then n - 65 + 10
         else if 97 \<le> n \<and> n \<le> 102 then n - 97 + 10
         else INVALID_HEX_CHAR)"

fun hex_bytes :: "string \<Rightarrow> string option" where
  "hex_bytes [] = Some []"
| "hex_bytes [a] = None"
| "hex_bytes (a # b # cs) =
     (if hexCharToInt a = INVALID_HEX_CHAR \<or> hexCharToInt b = INVALID_HEX_CHAR then None
      else map_option ((#) (char_of (hexCharToInt a * 16 + hexCharToInt b))) (hex_bytes cs))"

text \<open>
  The buffer is as long as the text and holds the bytes twice; \<open>None\<close> for NULL.
\<close>

definition convertHexStringToBytes :: "env \<Rightarrow> string \<Rightarrow> string option" where
  "convertHexStringToBytes v t =
     (if length t mod 2 \<noteq> 0 \<or> \<not> has_memory v then None else map_option (\<lambda>bs. bs @ bs) (hex_bytes t))"

definition indicate_pdu :: "string \<Rightarrow> response_fun" where
  "indicate_pdu nm v slot ty token e r len s =
     (case c_text_of r of
        Some (Some t) \<Rightarrow>
          (case convertHexStringToBytes v (c_str t) of
             None \<Rightarrow> Some s
           | Some bs \<Rightarrow> indicate nm (len = 0) (Some [HBytes (take (length (c_str t) div 2) bs)]) v slot ty s)
      | _ \<Rightarrow> indicate nm (r = None \<or> len = 0) None v slot ty s)"

definition newSmsInd :: response_fun where
  "newSmsInd = indicate_pdu ''newSms''"

definition newSmsStatusReportInd :: response_fun where
  "newSmsStatusReportInd = indicate_pdu ''newSmsStatusReport''"

definition onUssdInd :: response_fun where
  "onUssdInd v slot ty token e r len s =
     indicate ''onUssd'' (r = None \<or> len \<noteq> 16)
       (do { ts \<leftarrow> texts 2 r; mode \<leftarrow> ts ! 0; Some [HInt (c_atoi mode), convertCharPtrToHidlString (ts ! 1)] })
       v slot ty s"

text \<open>
  A message of the CDMA network.  The header with the structure is not in the repository: its size and
  the sizes of its arrays are arguments, and the record has the fields that are read.
\<close>

definition digits_of :: "int \<Rightarrow> nat \<Rightarrow> string \<Rightarrow> hv option" where
  "digits_of n limit bs = map_option HBytes (counted (min n (int limit)) bs)"

definition cdmaNewSmsInd :: "cdma_sms_sizes \<Rightarrow> response_fun" where
  "cdmaNewSmsInd z v slot ty token e r len s =
     indicate ''cdmaNewSms'' (r = None \<or> len \<noteq> sms_size z)
       (do { m \<leftarrow> (case r of Some (BCdmaSms m) \<Rightarrow> Some m | _ \<Rightarrow> None);
             digits \<leftarrow> digits_of (a_number_of_digits m) (address_max z) (a_digits m);
             sdigits \<leftarrow> digits_of (sa_number_of_digits m) (subaddress_max z) (sa_digits m);
             bearer \<leftarrow> digits_of (uBearerDataLen m) (bearer_max z) (aBearerData m);
             Some [HRec [(''teleserviceId'', HInt (uTeleserviceID m)), (''isServicePresent'', HBool (bIsServicePresent m \<noteq> 0)),
               (''serviceCategory'', HInt (uServicecategory m)),
               (''address'', HRec [(''digitMode'', HInt (digit_mode m)), (''numberMode'', HInt (number_mode m)),
                  (''numberType'', HInt (a_number_type m)), (''numberPlan'', HInt (a_number_plan m)), (''digits'', digits)]),
               (''subAddress'', HRec [(''subaddressType'', HInt (subaddressType m)), (''odd'', HBool (sa_odd m \<noteq> 0)),
                  (''digits'', sdigits)]),
               (''bearerData'', bearer)]] }) v slot ty s"

section \<open>The network and the card\<close>

definition radioStateChangedInd :: response_fun where
  "radioStateChangedInd v slot ty token e r len s =
     indicate ''radioStateChanged'' False (Some [HInt (onStateRequest v slot)]) v slot ty s"

definition nitzTimeReceivedInd :: response_fun where
  "nitzTimeReceivedInd v slot ty token e r len s =
     indicate ''nitzTimeReceived'' (r = None \<or> len = 0)
       (map_option (\<lambda>t. [convertCharPtrToHidlString t, HInt (elapsedRealtime v)]) (c_text_of r)) v slot ty s"

definition dataCallListChangedInd :: response_fun where
  "dataCallListChangedInd v slot ty token e r len s =
     indicate ''dataCallListChanged'' (r = None \<or> len mod c_sizeof RIL_Data_Call_Response_v11_t \<noteq> 0)
       (map_option (\<lambda>h. [h]) (convertRilDataCallListToHal r len)) v slot ty s"

definition suppSvcNotifyInd :: response_fun where
  "suppSvcNotifyInd v slot ty token e r len s =
     indicate ''suppSvcNotify'' (r = None \<or> len \<noteq> c_sizeof RIL_SuppSvcNotification_t)
       (case r of
          Some (BSuppSvc p) \<Rightarrow>
            Some [HRec [(''isMT'', HBool (notificationType p \<noteq> 0)), (''code'', HInt (ssn_code p)),
                        (''index'', HInt (ssn_index p)), (''type'', HInt (ssn_type p)),
                        (''number'', convertCharPtrToHidlString (ssn_number p))]]
        | _ \<Rightarrow> None) v slot ty s"

definition simRefreshInd :: response_fun where
  "simRefreshInd v slot ty token e r len s =
     indicate ''simRefresh'' (r = None \<or> len \<noteq> c_sizeof RIL_SimRefreshResponse_v7_t)
       (case r of
          Some (BRefresh p) \<Rightarrow>
            Some [HRec [(''type'', HInt (refresh_result p)), (''efId'', HInt (ef_id p)),
                        (''aid'', convertCharPtrToHidlString (refresh_aid p))]]
        | _ \<Rightarrow> None) v slot ty s"

definition hardwareConfigChangedInd :: response_fun where
  "hardwareConfigChangedInd v slot ty token e r len s =
     indicate ''hardwareConfigChanged'' (r = None \<or> len mod c_sizeof RIL_HardwareConfig_t \<noteq> 0)
       (map_option (\<lambda>h. [h]) (convertRilHardwareConfigListToHal r len)) v slot ty s"

definition radioCapabilityIndicationInd :: response_fun where
  "radioCapabilityIndicationInd v slot ty token e r len s =
     indicate ''radioCapabilityIndication'' (r = None \<or> len \<noteq> c_sizeof RIL_RadioCapability_t)
       (case r of Some (BCapability p) \<Rightarrow> map_option (\<lambda>h. [h]) (convertRilRadioCapabilityToHal p) | _ \<Rightarrow> None) v slot ty s"

definition lceDataInd :: response_fun where
  "lceDataInd v slot ty token e r len s =
     indicate ''lceData'' (r = None \<or> len \<noteq> c_sizeof RIL_LceDataInfo_t)
       (map_option (\<lambda>h. [h]) (convertRilLceDataInfoToHal r)) v slot ty s"

definition pcoDataInd :: response_fun where
  "pcoDataInd v slot ty token e r len s =
     indicate ''pcoData'' (r = None \<or> len \<noteq> c_sizeof RIL_PCO_Data_t)
       (case r of
          Some (BPco p) \<Rightarrow>
            map_option (\<lambda>bs. [HRec [(''cid'', HInt (pco_cid p)), (''bearerProto'', convertCharPtrToHidlString (bearer_proto p)),
                (''pcoId'', HInt (pco_id p)), (''contents'', HBytes bs)]]) (counted (contents_length p) (pco_contents p))
        | _ \<Rightarrow> None) v slot ty s"

definition networkScanResultInd :: response_fun where
  "networkScanResultInd v slot ty token e r len s = Some s"

definition oemHookRawInd :: response_fun where
  "oemHookRawInd v slot ty token e r len s =
     (if \<not> has_indication (oem s slot) \<or> r = None \<or> len = 0 then Some s
      else case r of
        Some (BBytes b) \<Rightarrow>
          if len \<le> length b
          then Some (call_back v False (Callback slot ''oemHookRaw''
                 (Indication (convertIntToRadioIndicationType ty)) [HBytes (take len b)]) s)
          else None
      | _ \<Rightarrow> None)"

section \<open>Calls\<close>

definition convertRilCdmaSignalInfoRecordToHal :: "RIL_CDMA_SignalInfoRecord \<Rightarrow> hv" where
  "convertRilCdmaSignalInfoRecordToHal p =
     HRec [(''isPresent'', HBool (sig_isPresent p \<noteq> 0)), (''signalType'', HInt (s8 (signalType p))),
           (''alertPitch'', HInt (s8 (alertPitch p))), (''signal'', HInt (s8 (sig_signal p)))]"

text \<open>Nothing means a GSM call.\<close>

definition callRingInd :: response_fun where
  "callRingInd v slot ty token e r len s =
     (let gsm_call = (r = None \<or> len = 0)
      in indicate ''callRing'' (\<not> gsm_call \<and> len \<noteq> c_sizeof RIL_CDMA_SignalInfoRecord_t)
           (if gsm_call then Some [HBool True, convertRilCdmaSignalInfoRecordToHal
              \<lparr>sig_isPresent = 0, signalType = 0, alertPitch = 0, sig_signal = 0\<rparr>]
            else case r of
              Some (BSignalInfo p) \<Rightarrow> Some [HBool False, convertRilCdmaSignalInfoRecordToHal p]
            | _ \<Rightarrow> None) v slot ty s)"

definition cdmaCallWaitingInd :: response_fun where
  "cdmaCallWaitingInd v slot ty token e r len s =
     indicate ''cdmaCallWaiting'' (r = None \<or> len \<noteq> c_sizeof RIL_CDMA_CallWaiting_v6_t)
       (case r of
          Some (BCallWaiting p) \<Rightarrow>
            Some [HRec [(''number'', convertCharPtrToHidlString (cw_number p)), (''numberPresentation'', HInt (cw_numberPresentation p)),
                        (''name'', convertCharPtrToHidlString (cw_name p)),
                        (''signalInfoRecord'', convertRilCdmaSignalInfoRecordToHal (cw_signalInfoRecord p)),
                        (''numberType'', HInt (cw_number_type p)), (''numberPlan'', HInt (cw_number_plan p))]]
        | _ \<Rightarrow> None) v slot ty s"

text \<open>
  An information record: the byte \<open>i\<close> of its union, and the value of the interface, in which one of the
  vectors has one element.  \<open>Some None\<close> ends the indication: a length behind its array, no memory, or a
  name that is not supported.
\<close>

definition byte_at :: "string \<Rightarrow> nat \<Rightarrow> int" where
  "byte_at b i = of_char (b ! i)"

definition info_record :: "int \<Rightarrow> string \<Rightarrow> hv \<Rightarrow> hv" where
  "info_record nm field val =
     HRec ((''name'', HInt nm) # map (\<lambda>f. (f, HVec (if f = field then [val] else [])))
       [''display'', ''number'', ''signal'', ''redir'', ''lineCtrl'', ''clir'', ''audioCtrl''])"

definition counted_text :: "nat \<Rightarrow> env \<Rightarrow> string \<Rightarrow> hv option" where
  "counted_text limit v b =
     (let n = nat (byte_at b 0)
      in if limit < n \<or> \<not> has_memory v then None else Some (HText (c_str (take n (tl b)))))"

definition number_record :: "string \<Rightarrow> hv \<Rightarrow> hv" where
  "number_record b t =
     HRec [(''number'', t), (''numberType'', HInt (byte_at b 82)), (''numberPlan'', HInt (byte_at b 83)),
           (''pi'', HInt (byte_at b 84)), (''si'', HInt (byte_at b 85))]"

definition convert_info :: "env \<Rightarrow> RIL_CDMA_InformationRecord \<Rightarrow> hv option option" where
  "convert_info v p =
     (let nm = rec_name p; b = rec_bytes p
      in if length b \<noteq> c_sizeof RIL_CDMA_info_union_t then None
         else Some (
           if nm = 0 \<or> nm = 7 then
             map_option (\<lambda>t. info_record nm ''display'' (HRec [(''alphaBuf'', t)])) (counted_text CDMA_ALPHA_INFO_BUFFER_LENGTH v b)
           else if nm = 1 \<or> nm = 2 \<or> nm = 3 then
             map_option (\<lambda>t. info_record nm ''number'' (number_record b t)) (counted_text CDMA_NUMBER_INFO_BUFFER_LENGTH v b)
           else if nm = 4 then
             Some (info_record nm ''signal'' (HRec [(''isPresent'', HBool (byte_at b 0 \<noteq> 0)), (''signalType'', HInt (s8 (byte_at b 1))),
               (''alertPitch'', HInt (s8 (byte_at b 2))), (''signal'', HInt (s8 (byte_at b 3)))]))
           else if nm = 5 then
             map_option (\<lambda>t. info_record nm ''redir'' (HRec [(''redirectingNumber'', number_record b t),
                 (''redirectingReason'', HInt (word_at b 88))])) (counted_text CDMA_NUMBER_INFO_BUFFER_LENGTH v b)
           else if nm = 6 then
             Some (info_record nm ''lineCtrl'' (HRec [(''lineCtrlPolarityIncluded'', HInt (byte_at b 0)),
               (''lineCtrlToggle'', HInt (byte_at b 1)), (''lineCtrlReverse'', HInt (byte_at b 2)),
               (''lineCtrlPowerDenial'', HInt (byte_at b 3))]))
           else if nm = 8 then Some (info_record nm ''clir'' (HRec [(''cause'', HInt (byte_at b 0))]))
           else if nm = 10 then
             Some (info_record nm ''audioCtrl'' (HRec [(''upLink'', HInt (byte_at b 0)), (''downLink'', HInt (byte_at b 1))]))
           else None))"

primrec convert_infos :: "env \<Rightarrow> RIL_CDMA_InformationRecord list \<Rightarrow> hv list option option" where
  "convert_infos v [] = Some (Some [])"
| "convert_infos v (p # ps) =
     (case convert_info v p of
        None \<Rightarrow> None
      | Some None \<Rightarrow> Some None
      | Some (Some h) \<Rightarrow> map_option (map_option ((#) h)) (convert_infos v ps))"

definition cdmaInfoRecInd :: response_fun where
  "cdmaInfoRecInd v slot ty token e r len s =
     (if \<not> has_indication (radio s slot) \<or> r = None \<or> len \<noteq> c_sizeof RIL_CDMA_InformationRecords_t then Some s
      else case r of
        Some (BInfoRecs p) \<Rightarrow>
          (case Option.bind (elements (min (numberOfInfoRecs p) RIL_CDMA_MAX_NUMBER_OF_INFO_RECS) (infoRec p)) (convert_infos v) of
             None \<Rightarrow> None
           | Some None \<Rightarrow> Some s
           | Some (Some hs) \<Rightarrow> indicate ''cdmaInfoRec'' False (Some [HRec [(''infoRec'', HVec hs)]]) v slot ty s)
      | _ \<Rightarrow> None)"

section \<open>Supplementary services\<close>

definition isServiceTypeCfQuery :: "int \<Rightarrow> int \<Rightarrow> bool" where
  "isServiceTypeCfQuery serType reqType \<longleftrightarrow> reqType = 2 \<and> 0 \<le> serType \<and> serType \<le> 5"

definition onSupplementaryServiceIndicationInd :: response_fun where
  "onSupplementaryServiceIndicationInd v slot ty token e r len s =
     indicate ''onSupplementaryServiceIndication'' (r = None \<or> len \<noteq> c_sizeof RIL_StkCcUnsolSsResponse_t)
       (case r of
          Some (BSupplementary p) \<Rightarrow>
            map_option (\<lambda>(cf, ss). [HRec [(''serviceType'', HInt (serviceType p)), (''requestType'', HInt (requestType p)),
                (''teleserviceType'', HInt (teleserviceType p)), (''serviceClass'', HInt (ss_serviceClass p)),
                (''result'', HInt (ss_result p)), (''ssInfo'', HVec ss), (''cfData'', HVec cf)]])
              (if isServiceTypeCfQuery (serviceType p) (requestType p) then
                 (case ss_union p of
                    SsForward n cfs \<Rightarrow>
                      map_option (\<lambda>fs. ([HRec [(''cfInfo'', HVec (map convert_forward fs))]], []))
                        (counted (min n (int NUM_SERVICE_CLASSES)) cfs)
                  | _ \<Rightarrow> None)
               else
                 (case ss_union p of
                    SsInfo xs \<Rightarrow> map_option (\<lambda>ys. ([], [HRec [(''ssInfo'', HVec (map HInt ys))]])) (elements SS_INFO_MAX xs)
                  | _ \<Rightarrow> None))
        | _ \<Rightarrow> None) v slot ty s"

section \<open>Indications of the vendor\<close>

definition make_request :: "nat \<Rightarrow> svc_call \<Rightarrow> svc \<Rightarrow> svc" where
  "make_request slot c s = s\<lparr>made := made s @ [(slot, c)]\<rparr>"

text \<open>The vendor waits for a request before it goes on; neither NULL nor the length is looked at.\<close>

definition registrationSuspendInd :: response_fun where
  "registrationSuspendInd v slot ty token e r len s =
     (if \<not> has_indication (radio s slot) then Some s
      else map_option (\<lambda>xs. make_request slot (Call (-1) RIL_REQUEST_RESUME_REGISTRATION (DInts xs)) s) (ints 1 r))"

definition incomingCallInd :: response_fun where
  "incomingCallInd v slot ty token e r len s =
     (if \<not> has_indication (radio s slot) then Some s
      else do { ts \<leftarrow> texts 5 r; p0 \<leftarrow> ts ! 3; p1 \<leftarrow> ts ! 0; p2 \<leftarrow> ts ! 4;
                indicate ''callStateChanged'' False (Some []) v slot ty
                  (make_request slot (Call (-1) RIL_REQUEST_SET_CALL_INDICATION
                     (DInts [c_atoi p0, c_atoi p1, c_atoi p2])) s) })"

definition callInfoInd :: response_fun where
  "callInfoInd v slot ty token e r len s =
     (if \<not> has_indication (radio s slot) \<or> len < 2 then Some s
      else do { ts \<leftarrow> texts 2 r; t \<leftarrow> ts ! 1;
                indicate ''callStateChanged'' (c_str t \<noteq> ''129'') (Some []) v slot ty s })"

definition psNetworkStateChangedInd :: response_fun where
  "psNetworkStateChangedInd v slot ty token e r len s =
     (if \<not> has_indication (radio s slot) then Some s
      else do { xs \<leftarrow> ints 1 r; indicate ''networkStateChanged'' (xs ! 0 \<noteq> 4) (Some []) v slot ty s })"

text \<open>An attach point with five empty texts, whatever the vendor says.\<close>

definition setAttachApnInd :: response_fun where
  "setAttachApnInd v slot ty token e r len s =
     (if \<not> has_indication (radio s slot) then Some s
      else Some (make_request slot (Call (-1) RIL_REQUEST_SET_INITIAL_ATTACH_APN
        (DStruct [(''authtype'', 0), (''canHandleIms'', 0)]
          (map (\<lambda>n. (n, '''')) [''apn'', ''protocol'', ''username'', ''password'', ''operatorNumeric'']) FMT_IGNORE 56)) s))"

section \<open>All indications\<close>

lemmas indication_shape_defs =
  callStateChangedInd_def networkStateChangedInd_def newSmsOnSimInd_def stkSessionEndInd_def
  stkProactiveCommandInd_def stkEventNotifyInd_def stkCallSetupInd_def simSmsStorageFullInd_def
  simStatusChangedInd_def newBroadcastSmsInd_def cdmaRuimSmsStorageFullInd_def restrictedStateChangedInd_def
  enterEmergencyCallbackModeInd_def cdmaOtaProvisionStatusInd_def indicateRingbackToneInd_def
  resendIncallMuteInd_def cdmaSubscriptionSourceChangedInd_def cdmaPrlChangedInd_def
  exitEmergencyCallbackModeInd_def rilConnectedInd_def voiceRadioTechChangedInd_def
  imsNetworkStateChangedInd_def subscriptionStatusChangedInd_def srvccStateNotifyInd_def
  stkCallControlAlphaNotifyInd_def modemResetInd_def

text \<open>The functions of the radio service with their callback.\<close>

definition shape_indications :: "(string \<times> string \<times> response_fun) list" where
  "shape_indications =
     [(''callStateChangedInd'', ''callStateChanged'', callStateChangedInd),
      (''networkStateChangedInd'', ''networkStateChanged'', networkStateChangedInd),
      (''newSmsOnSimInd'', ''newSmsOnSim'', newSmsOnSimInd),
      (''stkSessionEndInd'', ''stkSessionEnd'', stkSessionEndInd),
      (''stkProactiveCommandInd'', ''stkProactiveCommand'', stkProactiveCommandInd),
      (''stkEventNotifyInd'', ''stkEventNotify'', stkEventNotifyInd),
      (''stkCallSetupInd'', ''stkCallSetup'', stkCallSetupInd),
      (''simSmsStorageFullInd'', ''simSmsStorageFull'', simSmsStorageFullInd),
      (''simStatusChangedInd'', ''simStatusChanged'', simStatusChangedInd),
      (''newBroadcastSmsInd'', ''newBroadcastSms'', newBroadcastSmsInd),
      (''cdmaRuimSmsStorageFullInd'', ''cdmaRuimSmsStorageFull'', cdmaRuimSmsStorageFullInd),
      (''restrictedStateChangedInd'', ''restrictedStateChanged'', restrictedStateChangedInd),
      (''enterEmergencyCallbackModeInd'', ''enterEmergencyCallbackMode'', enterEmergencyCallbackModeInd),
      (''cdmaOtaProvisionStatusInd'', ''cdmaOtaProvisionStatus'', cdmaOtaProvisionStatusInd),
      (''indicateRingbackToneInd'', ''indicateRingbackTone'', indicateRingbackToneInd),
      (''resendIncallMuteInd'', ''resendIncallMute'', resendIncallMuteInd),
      (''cdmaSubscriptionSourceChangedInd'', ''cdmaSubscriptionSourceChanged'', cdmaSubscriptionSourceChangedInd),
      (''cdmaPrlChangedInd'', ''cdmaPrlChanged'', cdmaPrlChangedInd),
      (''exitEmergencyCallbackModeInd'', ''exitEmergencyCallbackMode'', exitEmergencyCallbackModeInd),
      (''rilConnectedInd'', ''rilConnected'', rilConnectedInd),
      (''voiceRadioTechChangedInd'', ''voiceRadioTechChanged'', voiceRadioTechChangedInd),
      (''imsNetworkStateChangedInd'', ''imsNetworkStateChanged'', imsNetworkStateChangedInd),
      (''subscriptionStatusChangedInd'', ''subscriptionStatusChanged'', subscriptionStatusChangedInd),
      (''srvccStateNotifyInd'', ''srvccStateNotify'', srvccStateNotifyInd),
      (''stkCallControlAlphaNotifyInd'', ''stkCallControlAlphaNotify'', stkCallControlAlphaNotifyInd),
      (''modemResetInd'', ''modemReset'', modemResetInd)]"

definition own_indications :: "(string \<times> string \<times> response_fun) list" where
  "own_indications =
     [(''radioStateChangedInd'', ''radioStateChanged'', radioStateChangedInd),
      (''newSmsInd'', ''newSms'', newSmsInd),
      (''newSmsStatusReportInd'', ''newSmsStatusReport'', newSmsStatusReportInd),
      (''onUssdInd'', ''onUssd'', onUssdInd),
      (''nitzTimeReceivedInd'', ''nitzTimeReceived'', nitzTimeReceivedInd),
      (''currentSignalStrengthInd'', ''currentSignalStrength'', currentSignalStrengthInd),
      (''dataCallListChangedInd'', ''dataCallListChanged'', dataCallListChangedInd),
      (''suppSvcNotifyInd'', ''suppSvcNotify'', suppSvcNotifyInd),
      (''simRefreshInd'', ''simRefresh'', simRefreshInd),
      (''callRingInd'', ''callRing'', callRingInd),
      (''cdmaCallWaitingInd'', ''cdmaCallWaiting'', cdmaCallWaitingInd),
      (''cdmaInfoRecInd'', ''cdmaInfoRec'', cdmaInfoRecInd),
      (''cellInfoListInd'', ''cellInfoList'', cellInfoListInd),
      (''hardwareConfigChangedInd'', ''hardwareConfigChanged'', hardwareConfigChangedInd),
      (''radioCapabilityIndicationInd'', ''radioCapabilityIndication'', radioCapabilityIndicationInd),
      (''onSupplementaryServiceIndicationInd'', ''onSupplementaryServiceIndication'', onSupplementaryServiceIndicationInd),
      (''lceDataInd'', ''lceData'', lceDataInd),
      (''pcoDataInd'', ''pcoData'', pcoDataInd),
      (''incomingCallInd'', ''callStateChanged'', incomingCallInd),
      (''callInfoInd'', ''callStateChanged'', callInfoInd),
      (''psNetworkStateChangedInd'', ''networkStateChanged'', psNetworkStateChangedInd)]"

definition indication_functions :: "(string \<times> string \<times> response_fun) list" where
  "indication_functions = shape_indications @ own_indications"

section \<open>What they share\<close>

lemma indicates_pdu: "indicates nm (indicate_pdu nm)"
  by (rule indicatesI) (auto simp: indicate_pdu_def split: option.splits)

lemma indicates_own:
  "indicates ''newSms'' newSmsInd"
  "indicates ''newSmsStatusReport'' newSmsStatusReportInd"
  by (simp_all add: newSmsInd_def newSmsStatusReportInd_def indicates_pdu)

lemma indicates_more:
  "indicates ''onUssd'' onUssdInd"
  "indicates ''radioStateChanged'' radioStateChangedInd"
  "indicates ''nitzTimeReceived'' nitzTimeReceivedInd"
  "indicates ''dataCallListChanged'' dataCallListChangedInd"
  "indicates ''suppSvcNotify'' suppSvcNotifyInd"
  "indicates ''simRefresh'' simRefreshInd"
  "indicates ''hardwareConfigChanged'' hardwareConfigChangedInd"
  "indicates ''radioCapabilityIndication'' radioCapabilityIndicationInd"
  "indicates ''lceData'' lceDataInd"
  "indicates ''pcoData'' pcoDataInd"
  "indicates ''callRing'' callRingInd"
  "indicates ''cdmaCallWaiting'' cdmaCallWaitingInd"
  "indicates ''onSupplementaryServiceIndication'' onSupplementaryServiceIndicationInd"
  by (rule indicates_indicateI, auto simp only: onUssdInd_def radioStateChangedInd_def nitzTimeReceivedInd_def
      dataCallListChangedInd_def suppSvcNotifyInd_def simRefreshInd_def hardwareConfigChangedInd_def
      radioCapabilityIndicationInd_def lceDataInd_def pcoDataInd_def callRingInd_def cdmaCallWaitingInd_def
      onSupplementaryServiceIndicationInd_def Let_def)+

lemma indicates_info: "indicates ''cdmaInfoRec'' cdmaInfoRecInd"
  by (rule indicatesI) (auto simp: cdmaInfoRecInd_def split: option.splits resp_block.splits if_splits)

lemma made_request [simp]: "same_clients s (make_request slot c s)"
  by (simp add: make_request_def same_clients_def)

lemma indicates_vendor:
  "indicates ''callStateChanged'' incomingCallInd" "indicates ''callStateChanged'' callInfoInd"
  "indicates ''networkStateChanged'' psNetworkStateChangedInd"
  by (rule indicatesI, auto simp: incomingCallInd_def callInfoInd_def psNetworkStateChangedInd_def bind_eq_Some_conv
      split: if_splits intro: made_request)+

definition sound_indication :: "string \<times> string \<times> response_fun \<Rightarrow> bool" where
  "sound_indication x = (case x of (n, nm, f) \<Rightarrow> indicates nm f)"

lemma sound_shape_indications: "list_all sound_indication shape_indications"
  by (simp only: shape_indications_def list.pred_inject sound_indication_def prod.case indication_shape_defs
      indicates_shapes simp_thms)

lemma sound_own_indications: "list_all sound_indication own_indications"
  by (simp only: own_indications_def list.pred_inject sound_indication_def prod.case indicates_own indicates_more
      indicates_info indicates_vendor indicates_cells simp_thms)

lemma sound_indications: "list_all sound_indication indication_functions"
  by (simp only: indication_functions_def list_all_append sound_shape_indications sound_own_indications simp_thms)

section \<open>Messages as text\<close>

definition hex_char :: "nat \<Rightarrow> char" where
  "hex_char n = char_of (if n < 10 then n + 48 else n + 55)"

definition to_hex :: "string \<Rightarrow> string" where
  "to_hex bs = concat (map (\<lambda>b. [hex_char (of_char b div 16), hex_char (of_char b mod 16)]) bs)"

lemma hexCharToInt_digit:
  assumes "n < 16"
  shows "hexCharToInt (hex_char n) = n"
proof -
  have "(of_char (hex_char n) :: nat) = (if n < 10 then n + 48 else n + 55)"
    using assms by (simp add: hex_char_def)
  then show ?thesis using assms by (simp add: hexCharToInt_def)
qed

lemma hex_bytes_to_hex: "hex_bytes (to_hex bs) = Some bs"
proof (induction bs)
  case Nil
  then show ?case by (simp add: to_hex_def)
next
  case (Cons b bs)
  have lt: "(of_char b :: nat) < 256" by simp
  have "of_char b div 16 < (16 :: nat)" using lt by linarith
  moreover have "of_char b mod 16 < (16 :: nat)" by simp
  moreover have "char_of (of_char b div 16 * 16 + of_char b mod 16 :: nat) = b" by simp
  ultimately show ?case
    using Cons by (simp add: to_hex_def hexCharToInt_digit INVALID_HEX_CHAR_def)
qed

lemma length_to_hex: "length (to_hex bs) = 2 * length bs"
  by (induction bs) (auto simp: to_hex_def)

lemma hex_digit_nonzero:
  assumes "n < 16"
  shows "hex_char n \<noteq> CHR 0x00"
proof
  assume "hex_char n = CHR 0x00"
  then have "(of_char (hex_char n) :: nat) = 0" by simp
  moreover have "(of_char (hex_char n) :: nat) = (if n < 10 then n + 48 else n + 55)"
    using assms by (simp add: hex_char_def)
  ultimately show False by (simp split: if_splits)
qed

lemma c_str_to_hex: "c_str (to_hex bs) = to_hex bs"
proof -
  have "CHR 0x00 \<notin> set (to_hex bs)"
  proof
    assume "CHR 0x00 \<in> set (to_hex bs)"
    then obtain b where "CHR 0x00 = hex_char (of_char b div 16) \<or> CHR 0x00 = hex_char (of_char b mod 16)"
      by (auto simp: to_hex_def)
    moreover have "of_char b div 16 < (16 :: nat)" by (simp add: less_mult_imp_div_less)
    moreover have "of_char b mod 16 < (16 :: nat)" by simp
    ultimately show False using hex_digit_nonzero by metis
  qed
  then show ?thesis unfolding c_str_def by (simp add: takeWhile_eq_all_conv) (metis)
qed


end
