(* ===== verification/Ril_Service.thy ===== *)
theory Ril_Service
  imports Ril_Indications
begin

text \<open>
  The radio service as a whole: the method that made a request is answered by the callback of its name,
  a client whose call has failed is left alone, messages and data calls on their way through it.
\<close>

section \<open>From a request to its answer\<close>

text \<open>The function of the entry that a request is given in \<open>addRequestToList\<close>.\<close>

definition answer_name :: "int \<Rightarrow> string option" where
  "answer_name request = Option.bind (command_at (command_index request)) responseFunction"

text \<open>One request, with the serial number of the method, whose entry names that function.\<close>

definition answered_by :: "string \<Rightarrow> int \<Rightarrow> svc_call list \<Rightarrow> bool" where
  "answered_by nm serial cs \<longleftrightarrow>
     (case cs of [c] \<Rightarrow> call_serial c = serial \<and> answer_name (call_request c) = Some nm | _ \<Rightarrow> False)"

definition answer_facts :: "(int \<times> string) list" where
  "answer_facts =
     [(RIL_REQUEST_GET_SIM_STATUS, ''getIccCardStatusResponse''),
      (RIL_REQUEST_ENTER_SIM_PIN, ''supplyIccPinForAppResponse''),
      (RIL_REQUEST_ENTER_SIM_PUK, ''supplyIccPukForAppResponse''),
      (RIL_REQUEST_ENTER_SIM_PIN2, ''supplyIccPin2ForAppResponse''),
      (RIL_REQUEST_ENTER_SIM_PUK2, ''supplyIccPuk2ForAppResponse''),
      (RIL_REQUEST_CHANGE_SIM_PIN, ''changeIccPinForAppResponse''),
      (RIL_REQUEST_CHANGE_SIM_PIN2, ''changeIccPin2ForAppResponse''),
      (RIL_REQUEST_ENTER_NETWORK_DEPERSONALIZATION, ''supplyNetworkDepersonalizationResponse''),
      (RIL_REQUEST_GET_CURRENT_CALLS, ''getCurrentCallsResponse''), (RIL_REQUEST_DIAL, ''dialResponse''),
      (RIL_REQUEST_GET_IMSI, ''getIMSIForAppResponse''), (RIL_REQUEST_HANGUP, ''hangupConnectionResponse''),
      (RIL_REQUEST_HANGUP_WAITING_OR_BACKGROUND, ''hangupWaitingOrBackgroundResponse''),
      (RIL_REQUEST_HANGUP_FOREGROUND_RESUME_BACKGROUND, ''hangupForegroundResumeBackgroundResponse''),
      (RIL_REQUEST_SWITCH_WAITING_OR_HOLDING_AND_ACTIVE, ''switchWaitingOrHoldingAndActiveResponse''),
      (RIL_REQUEST_CONFERENCE, ''conferenceResponse''), (RIL_REQUEST_UDUB, ''rejectCallResponse''),
      (RIL_REQUEST_LAST_CALL_FAIL_CAUSE, ''getLastCallFailCauseResponse''),
      (RIL_REQUEST_SIGNAL_STRENGTH, ''getSignalStrengthResponse''),
      (RIL_REQUEST_VOICE_REGISTRATION_STATE, ''getVoiceRegistrationStateResponse''),
      (RIL_REQUEST_DATA_REGISTRATION_STATE, ''getDataRegistrationStateResponse''),
      (RIL_REQUEST_OPERATOR, ''getOperatorResponse''), (RIL_REQUEST_RADIO_POWER, ''setRadioPowerResponse''),
      (RIL_REQUEST_DTMF, ''sendDtmfResponse''), (RIL_REQUEST_SEND_SMS, ''sendSmsResponse''),
      (RIL_REQUEST_SEND_SMS_EXPECT_MORE, ''sendSMSExpectMoreResponse''),
      (RIL_REQUEST_SETUP_DATA_CALL, ''setupDataCallResponse''), (RIL_REQUEST_SIM_IO, ''iccIOForAppResponse''),
      (RIL_REQUEST_SEND_USSD, ''sendUssdResponse''), (RIL_REQUEST_CANCEL_USSD, ''cancelPendingUssdResponse''),
      (RIL_REQUEST_GET_CLIR, ''getClirResponse''), (RIL_REQUEST_SET_CLIR, ''setClirResponse''),
      (RIL_REQUEST_QUERY_CALL_FORWARD_STATUS, ''getCallForwardStatusResponse''),
      (RIL_REQUEST_SET_CALL_FORWARD, ''setCallForwardResponse''),
      (RIL_REQUEST_QUERY_CALL_WAITING, ''getCallWaitingResponse''),
      (RIL_REQUEST_SET_CALL_WAITING, ''setCallWaitingResponse''),
      (RIL_REQUEST_SMS_ACKNOWLEDGE, ''acknowledgeLastIncomingGsmSmsResponse''),
      (RIL_REQUEST_ANSWER, ''acceptCallResponse''),
      (RIL_REQUEST_DEACTIVATE_DATA_CALL, ''deactivateDataCallResponse''),
      (RIL_REQUEST_QUERY_FACILITY_LOCK, ''getFacilityLockForAppResponse''),
      (RIL_REQUEST_SET_FACILITY_LOCK, ''setFacilityLockForAppResponse''),
      (RIL_REQUEST_CHANGE_BARRING_PASSWORD, ''setBarringPasswordResponse''),
      (RIL_REQUEST_QUERY_NETWORK_SELECTION_MODE, ''getNetworkSelectionModeResponse''),
      (RIL_REQUEST_SET_NETWORK_SELECTION_AUTOMATIC, ''setNetworkSelectionModeAutomaticResponse''),
      (RIL_REQUEST_SET_NETWORK_SELECTION_MANUAL, ''setNetworkSelectionModeManualResponse''),
      (RIL_REQUEST_QUERY_AVAILABLE_NETWORKS, ''getAvailableNetworksResponse''),
      (RIL_REQUEST_DTMF_START, ''startDtmfResponse''), (RIL_REQUEST_DTMF_STOP, ''stopDtmfResponse''),
      (RIL_REQUEST_BASEBAND_VERSION, ''getBasebandVersionResponse''),
      (RIL_REQUEST_SEPARATE_CONNECTION, ''separateConnectionResponse''),
      (RIL_REQUEST_SET_MUTE, ''setMuteResponse''), (RIL_REQUEST_GET_MUTE, ''getMuteResponse''),
      (RIL_REQUEST_QUERY_CLIP, ''getClipResponse''), (RIL_REQUEST_DATA_CALL_LIST, ''getDataCallListResponse''),
      (RIL_REQUEST_OEM_HOOK_RAW, ''sendRequestRawResponse''),
      (RIL_REQUEST_OEM_HOOK_STRINGS, ''sendRequestStringsResponse''),
      (RIL_REQUEST_SCREEN_STATE, ''sendDeviceStateResponse''),
      (RIL_REQUEST_SET_SUPP_SVC_NOTIFICATION, ''setSuppServiceNotificationsResponse''),
      (RIL_REQUEST_WRITE_SMS_TO_SIM, ''writeSmsToSimResponse''),
      (RIL_REQUEST_DELETE_SMS_ON_SIM, ''deleteSmsOnSimResponse''),
      (RIL_REQUEST_SET_BAND_MODE, ''setBandModeResponse''),
      (RIL_REQUEST_QUERY_AVAILABLE_BAND_MODE, ''getAvailableBandModesResponse''),
      (RIL_REQUEST_STK_SEND_ENVELOPE_COMMAND, ''sendEnvelopeResponse''),
      (RIL_REQUEST_STK_SEND_TERMINAL_RESPONSE, ''sendTerminalResponseToSimResponse''),
      (RIL_REQUEST_STK_HANDLE_CALL_SETUP_REQUESTED_FROM_SIM, ''handleStkCallSetupRequestFromSimResponse''),
      (RIL_REQUEST_EXPLICIT_CALL_TRANSFER, ''explicitCallTransferResponse''),
      (RIL_REQUEST_SET_PREFERRED_NETWORK_TYPE, ''setPreferredNetworkTypeResponse''),
      (RIL_REQUEST_GET_PREFERRED_NETWORK_TYPE, ''getPreferredNetworkTypeResponse''),
      (RIL_REQUEST_GET_NEIGHBORING_CELL_IDS, ''getNeighboringCidsResponse''),
      (RIL_REQUEST_SET_LOCATION_UPDATES, ''setLocationUpdatesResponse''),
      (RIL_REQUEST_CDMA_SET_SUBSCRIPTION_SOURCE, ''setCdmaSubscriptionSourceResponse''),
      (RIL_REQUEST_CDMA_SET_ROAMING_PREFERENCE, ''setCdmaRoamingPreferenceResponse''),
      (RIL_REQUEST_CDMA_QUERY_ROAMING_PREFERENCE, ''getCdmaRoamingPreferenceResponse''),
      (RIL_REQUEST_SET_TTY_MODE, ''setTTYModeResponse''), (RIL_REQUEST_QUERY_TTY_MODE, ''getTTYModeResponse''),
      (RIL_REQUEST_CDMA_SET_PREFERRED_VOICE_PRIVACY_MODE, ''setPreferredVoicePrivacyResponse''),
      (RIL_REQUEST_CDMA_QUERY_PREFERRED_VOICE_PRIVACY_MODE, ''getPreferredVoicePrivacyResponse''),
      (RIL_REQUEST_CDMA_FLASH, ''sendCDMAFeatureCodeResponse''),
      (RIL_REQUEST_CDMA_BURST_DTMF, ''sendBurstDtmfResponse''),
      (RIL_REQUEST_GSM_GET_BROADCAST_SMS_CONFIG, ''getGsmBroadcastConfigResponse''),
      (RIL_REQUEST_GSM_SMS_BROADCAST_ACTIVATION, ''setGsmBroadcastActivationResponse''),
      (RIL_REQUEST_CDMA_GET_BROADCAST_SMS_CONFIG, ''getCdmaBroadcastConfigResponse''),
      (RIL_REQUEST_CDMA_SMS_BROADCAST_ACTIVATION, ''setCdmaBroadcastActivationResponse''),
      (RIL_REQUEST_CDMA_SUBSCRIPTION, ''getCDMASubscriptionResponse''),
      (RIL_REQUEST_CDMA_DELETE_SMS_ON_RUIM, ''deleteSmsOnRuimResponse''),
      (RIL_REQUEST_DEVICE_IDENTITY, ''getDeviceIdentityResponse''),
      (RIL_REQUEST_EXIT_EMERGENCY_CALLBACK_MODE, ''exitEmergencyCallbackModeResponse''),
      (RIL_REQUEST_GET_SMSC_ADDRESS, ''getSmscAddressResponse''),
      (RIL_REQUEST_SET_SMSC_ADDRESS, ''setSmscAddressResponse''),
      (RIL_REQUEST_REPORT_SMS_MEMORY_STATUS, ''reportSmsMemoryStatusResponse''),
      (RIL_REQUEST_REPORT_STK_SERVICE_IS_RUNNING, ''reportStkServiceIsRunningResponse''),
      (RIL_REQUEST_CDMA_GET_SUBSCRIPTION_SOURCE, ''getCdmaSubscriptionSourceResponse''),
      (RIL_REQUEST_ISIM_AUTHENTICATION, ''requestIsimAuthenticationResponse''),
      (RIL_REQUEST_ACKNOWLEDGE_INCOMING_GSM_SMS_WITH_PDU, ''acknowledgeIncomingGsmSmsWithPduResponse''),
      (RIL_REQUEST_STK_SEND_ENVELOPE_WITH_STATUS, ''sendEnvelopeWithStatusResponse''),
      (RIL_REQUEST_VOICE_RADIO_TECH, ''getVoiceRadioTechnologyResponse''),
      (RIL_REQUEST_GET_CELL_INFO_LIST, ''getCellInfoListResponse''),
      (RIL_REQUEST_SET_UNSOL_CELL_INFO_LIST_RATE, ''setCellInfoListRateResponse''),
      (RIL_REQUEST_IMS_REGISTRATION_STATE, ''getImsRegistrationStateResponse''),
      (RIL_REQUEST_SIM_TRANSMIT_APDU_BASIC, ''iccTransmitApduBasicChannelResponse''),
      (RIL_REQUEST_SIM_OPEN_CHANNEL, ''iccOpenLogicalChannelResponse''),
      (RIL_REQUEST_SIM_CLOSE_CHANNEL, ''iccCloseLogicalChannelResponse''),
      (RIL_REQUEST_SIM_TRANSMIT_APDU_CHANNEL, ''iccTransmitApduLogicalChannelResponse''),
      (RIL_REQUEST_NV_READ_ITEM, ''nvReadItemResponse''), (RIL_REQUEST_NV_WRITE_ITEM, ''nvWriteItemResponse''),
      (RIL_REQUEST_NV_WRITE_CDMA_PRL, ''nvWriteCdmaPrlResponse''),
      (RIL_REQUEST_NV_RESET_CONFIG, ''nvResetConfigResponse''),
      (RIL_REQUEST_SET_UICC_SUBSCRIPTION, ''setUiccSubscriptionResponse''),
      (RIL_REQUEST_ALLOW_DATA, ''setDataAllowedResponse''),
      (RIL_REQUEST_GET_HARDWARE_CONFIG, ''getHardwareConfigResponse''),
      (RIL_REQUEST_SIM_AUTHENTICATION, ''requestIccSimAuthenticationResponse''),
      (RIL_REQUEST_SHUTDOWN, ''requestShutdownResponse''),
      (RIL_REQUEST_GET_RADIO_CAPABILITY, ''getRadioCapabilityResponse''),
      (RIL_REQUEST_SET_RADIO_CAPABILITY, ''setRadioCapabilityResponse''),
      (RIL_REQUEST_START_LCE, ''startLceServiceResponse''), (RIL_REQUEST_STOP_LCE, ''stopLceServiceResponse''),
      (RIL_REQUEST_PULL_LCEDATA, ''pullLceDataResponse''),
      (RIL_REQUEST_GET_ACTIVITY_INFO, ''getModemActivityInfoResponse''),
      (RIL_REQUEST_GET_CARRIER_RESTRICTIONS, ''getAllowedCarriersResponse''),
      (RIL_REQUEST_SEND_DEVICE_STATE, ''sendDeviceStateResponse''),
      (RIL_REQUEST_SET_UNSOLICITED_RESPONSE_FILTER, ''setIndicationFilterResponse'')]"

text \<open>Both lists are sorted by number, so that one walk finds all answers.\<close>

fun found_in :: "(int \<times> string) list \<Rightarrow> command_info list \<Rightarrow> bool" where
  "found_in [] cs = True"
| "found_in (a # as) [] = False"
| "found_in (a # as) (c # cs) =
     (if requestNumber c = fst a then responseFunction c = Some (snd a) \<and> found_in as cs else found_in (a # as) cs)"

lemma found_in_entry:
  "found_in as cs \<Longrightarrow> a \<in> set as \<Longrightarrow> \<exists>c\<in>set cs. requestNumber c = fst a \<and> responseFunction c = Some (snd a)"
  by (induction as cs rule: found_in.induct) (auto split: if_splits)

lemma answers_found: "found_in answer_facts s_commands"
  by code_simp

lemma entry_at: "c \<in> set s_commands \<Longrightarrow> command_at (command_index (requestNumber c)) = Some c"
proof -
  assume "c \<in> set s_commands"
  then obtain i where i: "i < length s_commands" "c = s_commands ! i" by (auto simp: in_set_conv_nth)
  have len: "length s_commands = 141" using command_numbers by (metis length_map length_upt diff_zero)
  have "requestNumber c = int i"
    using command_numbers i len by (metis (no_types) nth_map nth_upt length_upt diff_zero add_0 length_map)
  with i len show ?thesis
    by (simp add: command_at_def command_index_def RIL_REQUEST_VENDOR_BASE_def)
qed

lemma answers_listed: "list_all (\<lambda>(r, n). answer_name r = Some n) answer_facts"
  using found_in_entry[OF answers_found] entry_at by (fastforce simp: list_all_iff answer_name_def)

lemmas answer_simps = answers_listed[unfolded answer_facts_def list.pred_inject prod.case]

lemmas method_defs = getIccCardStatus_def supplyIccPinForApp_def supplyIccPukForApp_def supplyIccPin2ForApp_def
  supplyIccPuk2ForApp_def changeIccPinForApp_def changeIccPin2ForApp_def supplyNetworkDepersonalization_def
  getCurrentCalls_def getImsiForApp_def hangup_def hangupWaitingOrBackground_def
  hangupForegroundResumeBackground_def switchWaitingOrHoldingAndActive_def conference_def rejectCall_def
  getLastCallFailCause_def getVoiceRegistrationState_def getDataRegistrationState_def getOperator_def
  setRadioPower_def sendDtmf_def sendSms_def sendSMSExpectMore_def sendUssd_def cancelPendingUssd_def getClir_def
  setClir_def getCallForwardStatus_def setCallForward_def getCallWaiting_def setCallWaiting_def
  acknowledgeLastIncomingGsmSms_def acceptCall_def getFacilityLockForApp_def setFacilityLockForApp_def
  setBarringPassword_def getNetworkSelectionMode_def setNetworkSelectionModeAutomatic_def
  setNetworkSelectionModeManual_def getAvailableNetworks_def startDtmf_def stopDtmf_def getBasebandVersion_def
  separateConnection_def setMute_def getMute_def getClip_def getDataCallList_def setSuppServiceNotifications_def
  deleteSmsOnSim_def setBandMode_def getAvailableBandModes_def sendEnvelope_def sendTerminalResponseToSim_def
  handleStkCallSetupRequestFromSim_def explicitCallTransfer_def setPreferredNetworkType_def
  getPreferredNetworkType_def getNeighboringCids_def setLocationUpdates_def setCdmaSubscriptionSource_def
  setCdmaRoamingPreference_def getCdmaRoamingPreference_def setTTYMode_def setPreferredVoicePrivacy_def
  getPreferredVoicePrivacy_def sendCDMAFeatureCode_def sendBurstDtmf_def getGsmBroadcastConfig_def
  setGsmBroadcastActivation_def getCdmaBroadcastConfig_def setCdmaBroadcastActivation_def getCDMASubscription_def
  deleteSmsOnRuim_def exitEmergencyCallbackMode_def getSmscAddress_def setSmscAddress_def
  reportSmsMemoryStatus_def reportStkServiceIsRunning_def requestIsimAuthentication_def
  acknowledgeIncomingGsmSmsWithPdu_def sendEnvelopeWithStatus_def getVoiceRadioTechnology_def getCellInfoList_def
  setCellInfoListRate_def getImsRegistrationState_def iccTransmitApduBasicChannel_def iccCloseLogicalChannel_def
  iccTransmitApduLogicalChannel_def nvWriteCdmaPrl_def setDataAllowed_def requestShutdown_def
  getRadioCapability_def stopLceService_def pullLceData_def getModemActivityInfo_def getAllowedCarriers_def
  sendRequestRaw_def sendRequestStrings_def dial_def getSignalStrength_def getTTYMode_def
  getCdmaSubscriptionSource_def iccOpenLogicalChannel_def getHardwareConfig_def startLceService_def
  setupDataCall_def deactivateDataCall_def iccIOForApp_def writeSmsToSim_def nvReadItem_def nvWriteItem_def
  nvResetConfig_def setUiccSubscription_def requestIccSimAuthentication_def setRadioCapability_def
  sendDeviceState_def setIndicationFilter_def getDeviceIdentity_def setSimCardPower_def stopNetworkScan_def

text \<open>
  The requests of the vendor are looked up as ordinary ones, and the table ends before the requests of a scan.
\<close>

lemma answer_name_vendor: "0 \<le> k \<Longrightarrow> answer_name (RIL_REQUEST_VENDOR_BASE + k) = Option.bind (command_at k) responseFunction"
  by (simp add: answer_name_def command_index_def mtk_command_start_def commands_checked)

lemma vendor_answers:
  "answer_name RIL_REQUEST_MODEM_POWEROFF = Some ''dialResponse''"
  "answer_name RIL_REQUEST_MODEM_POWERON = Some ''iccIOForAppResponse''"
  "answer_name RIL_REQUEST_STOP_NETWORK_SCAN = None"
proof -
  have "CommandInfo 10 (Some ''dialResponse'') RIL_CMD_PROXY_2 \<in> set s_commands"
       "CommandInfo 28 (Some ''iccIOForAppResponse'') RIL_CMD_PROXY_1 \<in> set s_commands"
    by (simp_all only: s_commands_def ril_commands_def list.set insert_iff simp_thms)
  from this[THEN entry_at] have "command_at 10 = Some (CommandInfo 10 (Some ''dialResponse'') RIL_CMD_PROXY_2)"
      "command_at 28 = Some (CommandInfo 28 (Some ''iccIOForAppResponse'') RIL_CMD_PROXY_1)"
    by (simp_all add: command_index_def RIL_REQUEST_VENDOR_BASE_def)
  then show "answer_name RIL_REQUEST_MODEM_POWEROFF = Some ''dialResponse''"
       "answer_name RIL_REQUEST_MODEM_POWERON = Some ''iccIOForAppResponse''"
    by (simp_all add: RIL_REQUEST_MODEM_POWEROFF_def RIL_REQUEST_MODEM_POWERON_def answer_name_vendor)
  have "length s_commands = 141" using command_numbers by (metis length_map length_upt diff_zero)
  then show "answer_name RIL_REQUEST_STOP_NETWORK_SCAN = None"
    by (simp add: answer_name_def command_index_def command_at_def RIL_REQUEST_STOP_NETWORK_SCAN_def
        RIL_REQUEST_VENDOR_BASE_def)
qed

text \<open>
  C6: A method of the radio service or of the OEM service makes one request, with the serial number it was
  given, whose entry in the table of commands has the response function of that method.  This holds for all
  methods of \<open>Ril_Methods\<close> but three.  \<open>getDeviceIdentity\<close> may first make requests of the library's own, with
  serial number -1; the power of the card is switched by requests that are answered as a call or as an
  operation on the card; and the entry of \<open>stopNetworkScan\<close> would be behind the end of the table.
\<close>

theorem methods_answered:
  "(\<forall>serial. answered_by ''getIccCardStatusResponse'' serial (getIccCardStatus serial))
   \<and> (\<forall>serial pin aid. answered_by ''supplyIccPinForAppResponse'' serial (supplyIccPinForApp serial pin aid))
   \<and> (\<forall>serial puk pin aid. answered_by ''supplyIccPukForAppResponse'' serial (supplyIccPukForApp serial puk pin aid))
   \<and> (\<forall>serial pin2 aid. answered_by ''supplyIccPin2ForAppResponse'' serial (supplyIccPin2ForApp serial pin2 aid))
   \<and> (\<forall>serial puk2 pin2 aid. answered_by ''supplyIccPuk2ForAppResponse'' serial (supplyIccPuk2ForApp serial puk2 pin2 aid))
   \<and> (\<forall>serial oldPin newPin aid. answered_by ''changeIccPinForAppResponse'' serial (changeIccPinForApp serial oldPin newPin aid))
   \<and> (\<forall>serial oldPin2 newPin2 aid. answered_by ''changeIccPin2ForAppResponse'' serial (changeIccPin2ForApp serial oldPin2 newPin2 aid))
   \<and> (\<forall>serial netPin. answered_by ''supplyNetworkDepersonalizationResponse'' serial (supplyNetworkDepersonalization serial netPin))
   \<and> (\<forall>serial. answered_by ''getCurrentCallsResponse'' serial (getCurrentCalls serial))
   \<and> (\<forall>serial aid. answered_by ''getIMSIForAppResponse'' serial (getImsiForApp serial aid))
   \<and> (\<forall>serial gsmIndex. answered_by ''hangupConnectionResponse'' serial (hangup serial gsmIndex))
   \<and> (\<forall>serial. answered_by ''hangupWaitingOrBackgroundResponse'' serial (hangupWaitingOrBackground serial))
   \<and> (\<forall>serial. answered_by ''hangupForegroundResumeBackgroundResponse'' serial (hangupForegroundResumeBackground serial))
   \<and> (\<forall>serial. answered_by ''switchWaitingOrHoldingAndActiveResponse'' serial (switchWaitingOrHoldingAndActive serial))
   \<and> (\<forall>serial. answered_by ''conferenceResponse'' serial (conference serial))
   \<and> (\<forall>serial. answered_by ''rejectCallResponse'' serial (rejectCall serial))
   \<and> (\<forall>serial. answered_by ''getLastCallFailCauseResponse'' serial (getLastCallFailCause serial))
   \<and> (\<forall>serial. answered_by ''getVoiceRegistrationStateResponse'' serial (getVoiceRegistrationState serial))
   \<and> (\<forall>serial. answered_by ''getDataRegistrationStateResponse'' serial (getDataRegistrationState serial))
   \<and> (\<forall>serial. answered_by ''getOperatorResponse'' serial (getOperator serial))
   \<and> (\<forall>serial on. answered_by ''setRadioPowerResponse'' serial (setRadioPower serial on))
   \<and> (\<forall>serial txt. answered_by ''sendDtmfResponse'' serial (sendDtmf serial txt))
   \<and> (\<forall>serial message. answered_by ''sendSmsResponse'' serial (sendSms serial message))
   \<and> (\<forall>serial message. answered_by ''sendSMSExpectMoreResponse'' serial (sendSMSExpectMore serial message))
   \<and> (\<forall>serial ussd. answered_by ''sendUssdResponse'' serial (sendUssd serial ussd))
   \<and> (\<forall>serial. answered_by ''cancelPendingUssdResponse'' serial (cancelPendingUssd serial))
   \<and> (\<forall>serial. answered_by ''getClirResponse'' serial (getClir serial))
   \<and> (\<forall>serial status. answered_by ''setClirResponse'' serial (setClir serial status))
   \<and> (\<forall>serial callInfo. answered_by ''getCallForwardStatusResponse'' serial (getCallForwardStatus serial callInfo))
   \<and> (\<forall>serial callInfo. answered_by ''setCallForwardResponse'' serial (setCallForward serial callInfo))
   \<and> (\<forall>serial serviceClass. answered_by ''getCallWaitingResponse'' serial (getCallWaiting serial serviceClass))
   \<and> (\<forall>serial enable serviceClass. answered_by ''setCallWaitingResponse'' serial (setCallWaiting serial enable serviceClass))
   \<and> (\<forall>serial success cause. answered_by ''acknowledgeLastIncomingGsmSmsResponse'' serial (acknowledgeLastIncomingGsmSms serial success cause))
   \<and> (\<forall>serial. answered_by ''acceptCallResponse'' serial (acceptCall serial))
   \<and> (\<forall>serial facility password serviceClass appId. answered_by ''getFacilityLockForAppResponse'' serial (getFacilityLockForApp serial facility password serviceClass appId))
   \<and> (\<forall>serial facility lockState password serviceClass appId. answered_by ''setFacilityLockForAppResponse'' serial (setFacilityLockForApp serial facility lockState password serviceClass appId))
   \<and> (\<forall>serial facility oldPassword newPassword. answered_by ''setBarringPasswordResponse'' serial (setBarringPassword serial facility oldPassword newPassword))
   \<and> (\<forall>serial. answered_by ''getNetworkSelectionModeResponse'' serial (getNetworkSelectionMode serial))
   \<and> (\<forall>serial. answered_by ''setNetworkSelectionModeAutomaticResponse'' serial (setNetworkSelectionModeAutomatic serial))
   \<and> (\<forall>serial operatorNumeric. answered_by ''setNetworkSelectionModeManualResponse'' serial (setNetworkSelectionModeManual serial operatorNumeric))
   \<and> (\<forall>serial. answered_by ''getAvailableNetworksResponse'' serial (getAvailableNetworks serial))
   \<and> (\<forall>serial txt. answered_by ''startDtmfResponse'' serial (startDtmf serial txt))
   \<and> (\<forall>serial. answered_by ''stopDtmfResponse'' serial (stopDtmf serial))
   \<and> (\<forall>serial. answered_by ''getBasebandVersionResponse'' serial (getBasebandVersion serial))
   \<and> (\<forall>serial gsmIndex. answered_by ''separateConnectionResponse'' serial (separateConnection serial gsmIndex))
   \<and> (\<forall>serial enable. answered_by ''setMuteResponse'' serial (setMute serial enable))
   \<and> (\<forall>serial. answered_by ''getMuteResponse'' serial (getMute serial))
   \<and> (\<forall>serial. answered_by ''getClipResponse'' serial (getClip serial))
   \<and> (\<forall>serial. answered_by ''getDataCallListResponse'' serial (getDataCallList serial))
   \<and> (\<forall>serial enable. answered_by ''setSuppServiceNotificationsResponse'' serial (setSuppServiceNotifications serial enable))
   \<and> (\<forall>serial indx. answered_by ''deleteSmsOnSimResponse'' serial (deleteSmsOnSim serial indx))
   \<and> (\<forall>serial mode. answered_by ''setBandModeResponse'' serial (setBandMode serial mode))
   \<and> (\<forall>serial. answered_by ''getAvailableBandModesResponse'' serial (getAvailableBandModes serial))
   \<and> (\<forall>serial command. answered_by ''sendEnvelopeResponse'' serial (sendEnvelope serial command))
   \<and> (\<forall>serial commandResponse. answered_by ''sendTerminalResponseToSimResponse'' serial (sendTerminalResponseToSim serial commandResponse))
   \<and> (\<forall>serial accept. answered_by ''handleStkCallSetupRequestFromSimResponse'' serial (handleStkCallSetupRequestFromSim serial accept))
   \<and> (\<forall>serial. answered_by ''explicitCallTransferResponse'' serial (explicitCallTransfer serial))
   \<and> (\<forall>serial nwType. answered_by ''setPreferredNetworkTypeResponse'' serial (setPreferredNetworkType serial nwType))
   \<and> (\<forall>serial. answered_by ''getPreferredNetworkTypeResponse'' serial (getPreferredNetworkType serial))
   \<and> (\<forall>serial. answered_by ''getNeighboringCidsResponse'' serial (getNeighboringCids serial))
   \<and> (\<forall>serial enable. answered_by ''setLocationUpdatesResponse'' serial (setLocationUpdates serial enable))
   \<and> (\<forall>serial cdmaSub. answered_by ''setCdmaSubscriptionSourceResponse'' serial (setCdmaSubscriptionSource serial cdmaSub))
   \<and> (\<forall>serial type. answered_by ''setCdmaRoamingPreferenceResponse'' serial (setCdmaRoamingPreference serial type))
   \<and> (\<forall>serial. answered_by ''getCdmaRoamingPreferenceResponse'' serial (getCdmaRoamingPreference serial))
   \<and> (\<forall>serial mode. answered_by ''setTTYModeResponse'' serial (setTTYMode serial mode))
   \<and> (\<forall>serial enable. answered_by ''setPreferredVoicePrivacyResponse'' serial (setPreferredVoicePrivacy serial enable))
   \<and> (\<forall>serial. answered_by ''getPreferredVoicePrivacyResponse'' serial (getPreferredVoicePrivacy serial))
   \<and> (\<forall>serial featureCode. answered_by ''sendCDMAFeatureCodeResponse'' serial (sendCDMAFeatureCode serial featureCode))
   \<and> (\<forall>serial dtmf on off_ms. answered_by ''sendBurstDtmfResponse'' serial (sendBurstDtmf serial dtmf on off_ms))
   \<and> (\<forall>serial. answered_by ''getGsmBroadcastConfigResponse'' serial (getGsmBroadcastConfig serial))
   \<and> (\<forall>serial activate. answered_by ''setGsmBroadcastActivationResponse'' serial (setGsmBroadcastActivation serial activate))
   \<and> (\<forall>serial. answered_by ''getCdmaBroadcastConfigResponse'' serial (getCdmaBroadcastConfig serial))
   \<and> (\<forall>serial activate. answered_by ''setCdmaBroadcastActivationResponse'' serial (setCdmaBroadcastActivation serial activate))
   \<and> (\<forall>serial. answered_by ''getCDMASubscriptionResponse'' serial (getCDMASubscription serial))
   \<and> (\<forall>serial indx. answered_by ''deleteSmsOnRuimResponse'' serial (deleteSmsOnRuim serial indx))
   \<and> (\<forall>serial. answered_by ''exitEmergencyCallbackModeResponse'' serial (exitEmergencyCallbackMode serial))
   \<and> (\<forall>serial. answered_by ''getSmscAddressResponse'' serial (getSmscAddress serial))
   \<and> (\<forall>serial smsc. answered_by ''setSmscAddressResponse'' serial (setSmscAddress serial smsc))
   \<and> (\<forall>serial available. answered_by ''reportSmsMemoryStatusResponse'' serial (reportSmsMemoryStatus serial available))
   \<and> (\<forall>serial. answered_by ''reportStkServiceIsRunningResponse'' serial (reportStkServiceIsRunning serial))
   \<and> (\<forall>serial challenge. answered_by ''requestIsimAuthenticationResponse'' serial (requestIsimAuthentication serial challenge))
   \<and> (\<forall>serial success ackPdu. answered_by ''acknowledgeIncomingGsmSmsWithPduResponse'' serial (acknowledgeIncomingGsmSmsWithPdu serial success ackPdu))
   \<and> (\<forall>serial contents. answered_by ''sendEnvelopeWithStatusResponse'' serial (sendEnvelopeWithStatus serial contents))
   \<and> (\<forall>serial. answered_by ''getVoiceRadioTechnologyResponse'' serial (getVoiceRadioTechnology serial))
   \<and> (\<forall>serial. answered_by ''getCellInfoListResponse'' serial (getCellInfoList serial))
   \<and> (\<forall>serial rate. answered_by ''setCellInfoListRateResponse'' serial (setCellInfoListRate serial rate))
   \<and> (\<forall>serial. answered_by ''getImsRegistrationStateResponse'' serial (getImsRegistrationState serial))
   \<and> (\<forall>serial message. answered_by ''iccTransmitApduBasicChannelResponse'' serial (iccTransmitApduBasicChannel serial message))
   \<and> (\<forall>serial channelId. answered_by ''iccCloseLogicalChannelResponse'' serial (iccCloseLogicalChannel serial channelId))
   \<and> (\<forall>serial message. answered_by ''iccTransmitApduLogicalChannelResponse'' serial (iccTransmitApduLogicalChannel serial message))
   \<and> (\<forall>serial prl. answered_by ''nvWriteCdmaPrlResponse'' serial (nvWriteCdmaPrl serial prl))
   \<and> (\<forall>serial allow. answered_by ''setDataAllowedResponse'' serial (setDataAllowed serial allow))
   \<and> (\<forall>serial. answered_by ''requestShutdownResponse'' serial (requestShutdown serial))
   \<and> (\<forall>serial. answered_by ''getRadioCapabilityResponse'' serial (getRadioCapability serial))
   \<and> (\<forall>serial. answered_by ''stopLceServiceResponse'' serial (stopLceService serial))
   \<and> (\<forall>serial. answered_by ''pullLceDataResponse'' serial (pullLceData serial))
   \<and> (\<forall>serial. answered_by ''getModemActivityInfoResponse'' serial (getModemActivityInfo serial))
   \<and> (\<forall>serial. answered_by ''getAllowedCarriersResponse'' serial (getAllowedCarriers serial))
   \<and> (\<forall>serial data. answered_by ''sendRequestRawResponse'' serial (sendRequestRaw serial data))
   \<and> (\<forall>serial data. answered_by ''sendRequestStringsResponse'' serial (sendRequestStrings serial data))
   \<and> (\<forall>serial dialInfo. answered_by ''dialResponse'' serial (dial serial dialInfo))
   \<and> (\<forall>mtk serial. answered_by ''getSignalStrengthResponse'' serial (getSignalStrength mtk serial))
   \<and> (\<forall>mtk serial. answered_by ''getTTYModeResponse'' serial (getTTYMode mtk serial))
   \<and> (\<forall>serial. answered_by ''getCdmaSubscriptionSourceResponse'' serial (getCdmaSubscriptionSource serial))
   \<and> (\<forall>serial aid p2. answered_by ''iccOpenLogicalChannelResponse'' serial (iccOpenLogicalChannel serial aid p2))
   \<and> (\<forall>serial. answered_by ''getHardwareConfigResponse'' serial (getHardwareConfig serial))
   \<and> (\<forall>serial reportInterval pullMode. answered_by ''startLceServiceResponse'' serial (startLceService serial reportInterval pullMode))
   \<and> (\<forall>mtk version cids serial radioTechnology dp modemCognitive roamingAllowed isRoaming. answered_by ''setupDataCallResponse'' serial (setupDataCall mtk version cids serial radioTechnology dp modemCognitive roamingAllowed isRoaming))
   \<and> (\<forall>serial cid reasonRadioShutDown. answered_by ''deactivateDataCallResponse'' serial (deactivateDataCall serial cid reasonRadioShutDown))
   \<and> (\<forall>mtk serial io. answered_by ''iccIOForAppResponse'' serial (iccIOForApp mtk serial io))
   \<and> (\<forall>serial a. answered_by ''writeSmsToSimResponse'' serial (writeSmsToSim serial a))
   \<and> (\<forall>serial itemId. answered_by ''nvReadItemResponse'' serial (nvReadItem serial itemId))
   \<and> (\<forall>serial itemId val. answered_by ''nvWriteItemResponse'' serial (nvWriteItem serial itemId val))
   \<and> (\<forall>serial resetType. answered_by ''nvResetConfigResponse'' serial (nvResetConfig serial resetType))
   \<and> (\<forall>serial u. answered_by ''setUiccSubscriptionResponse'' serial (setUiccSubscription serial u))
   \<and> (\<forall>serial authContext authData aid. answered_by ''requestIccSimAuthenticationResponse'' serial (requestIccSimAuthentication serial authContext authData aid))
   \<and> (\<forall>serial rc. answered_by ''setRadioCapabilityResponse'' serial (setRadioCapability serial rc))
   \<and> (\<forall>version low_data_expected serial deviceStateType st. answered_by ''sendDeviceStateResponse'' serial (sendDeviceState version low_data_expected serial deviceStateType st))
   \<and> (\<forall>version serial indicationFilter. answered_by ''setIndicationFilterResponse'' serial (setIndicationFilter version serial indicationFilter))
   \<and> (\<forall>mtk serial. answered_by ''getDeviceIdentityResponse'' serial [last (getDeviceIdentity mtk serial)]
          \<and> map call_serial (butlast (getDeviceIdentity mtk serial)) = (if mtk then [-1, -1] else []))
   \<and> (\<forall>serial. answered_by ''dialResponse'' serial (setSimCardPower serial False)
          \<and> answered_by ''iccIOForAppResponse'' serial (setSimCardPower serial True))
   \<and> (\<forall>serial. map (answer_name \<circ> call_request) (stopNetworkScan serial) = [None])"
  unfolding answered_by_def method_defs
  by (intro conjI allI)
    (simp_all add: answer_simps vendor_answers not_supported_def Let_def split: option.splits)

section \<open>Responses\<close>

text \<open>
  What the client may rely on, whatever the functions are that the two tables name: for each response, the
  service, the callback and what it expects.
\<close>

locale radio_functions =
  fixes responses :: "(string \<times> bool \<times> string \<times> response_fun) list"
    and indications :: "(string \<times> string \<times> response_fun) list"
  assumes responses_sound: "list_all sound responses"
    and indications_sound: "list_all sound_indication indications"
begin

lemma response_calls:
  assumes "(n, b, nm, f) \<in> set responses" and "f v slot ty serial e r len s = Some s'"
  shows "if has_response (client_of b s slot)
         then \<exists>s1 args. same_clients s s1 \<and>
                s' = call_back v b (Callback slot nm (Reply (reply_info v (expected n) ty serial e r len)) args) s1 \<and>
                says (expected n) r len args
         else s' = s"
proof -
  have "answers b nm (expected n) f" using responses_sound assms(1) by (fastforce simp: list_all_iff sound_def)
  from this[unfolded answers_def, rule_format, OF assms(2)] show ?thesis .
qed

lemma response_named: "(n, b, nm, f) \<in> set responses \<Longrightarrow> nm = callback_of n"
  using responses_sound by (fastforce simp: list_all_iff sound_def)

lemma nothing_is_met: "(n, b, nm, f) \<in> set responses \<Longrightarrow> f v slot ty serial e None 0 s \<noteq> None"
  using responses_sound by (fastforce simp: list_all_iff sound_def meets_empty_def)

lemma indication_calls:
  assumes "(n, nm, f) \<in> set indications" and "f v slot ty token e r len s = Some s'"
  shows "if has_indication (radio s slot)
         then \<exists>s1. same_clients s s1 \<and> (s' = s1 \<or>
                (\<exists>args. s' = call_back v True (Callback slot nm (Indication (convertIntToRadioIndicationType ty)) args) s1))
         else s' = s"
proof -
  have "indicates nm f" using indications_sound assms(1) by (fastforce simp: list_all_iff sound_indication_def)
  from this[unfolded indicates_def, rule_format, OF assms(2)] show ?thesis .
qed

end

interpretation rad: radio_functions response_functions indication_functions
  by unfold_locales (rule sound_all, rule sound_indications)

text \<open>Two slots with their clients, and a world without other threads, in which calls fail or not.\<close>

definition two_clients :: svc where
  "two_clients = \<lparr>radio = (\<lambda>i. \<lparr>has_response = True, has_indication = True, mCounter = 1\<rparr>),
     oem = (\<lambda>i. \<lparr>has_response = False, has_indication = False, mCounter = 0\<rparr>),
     dataCallCids = replicate 5 (-1), callbacks = [], made = []\<rparr>"

definition calm_env :: "bool \<Rightarrow> env" where
  "calm_env ok = \<lparr>is_ok = (\<lambda>n. ok), meanwhile = (\<lambda>n c. c), mtk = True, vendor_version = 10, onStateRequest = (\<lambda>i. 10),
     elapsedRealtime = 0, operators = [], leftover = 0, has_memory = True\<rparr>"

lemma clip_listed: "(''getClipResponse'', True, ''getClipResponse'', getClipResponse) \<in> set response_functions"
  by (simp only: response_functions_def list.set insert_iff simp_thms)

lemma clip_expects: "expected ''getClipResponse'' = OneInt"
  by (simp only: expected_def expectations_def map_of.simps fst_conv snd_conv fun_upd_apply option.case
      if_True if_False list.inject list.distinct char.inject simp_thms)



text \<open>
  C4: A response function either has no meaning for what the vendor gave, or makes one call of the client:
  of the callback of its own name (\<open>hangupForegroundResumeBackgroundResponse\<close> of that of
  \<open>hangupWaitingOrBackgroundResponse\<close>), with the serial number and the type of the response.  The call
  says the error that the vendor said, but \<open>INVALID_RESPONSE\<close> exactly where a success comes without the
  response that the request expects; a response that carries nothing, a text, a number or a list gives the
  client nothing, that text, that number or -1, and a list with an element for each record or none.
\<close>

theorem responses_answered:
  assumes "(n, b, nm, f) \<in> set response_functions"
    and "f v slot ty serial e r len s = Some s'"
    and "has_response (client_of b s slot)"
  shows "\<exists>args. callbacks s' = callbacks s @ [Callback slot
              (if n = ''hangupForegroundResumeBackgroundResponse'' then ''hangupWaitingOrBackgroundResponse'' else n)
              (Reply \<lparr>info_serial = serial,
                 info_type = (if ty = RESPONSE_SOLICITED_ACK_EXP then SOLICITED_ACK_EXP else SOLICITED),
                 info_error = (if e = 0 \<and> \<not> fits_as v (expected n) r len then INVALID_RESPONSE else RadioError e)\<rparr>)
              args]
           \<and> says (expected n) r len args"
  using rad.response_calls[OF assms(1,2)] rad.response_named[OF assms(1)] assms(3)
  by (auto simp: same_clients_def callback_of_def reply_info_def)

theorem responses_answered_witness:
  "\<exists>s'. getClipResponse (calm_env True) 0 0 7 0 (Some (BInts [1, 2])) 8 two_clients = Some s'
     \<and> callbacks s' = [Callback 0 ''getClipResponse''
          (Reply \<lparr>info_serial = 7, info_type = SOLICITED, info_error = INVALID_RESPONSE\<rparr>) [HInt (-1)]]"
proof -
  obtain s' where s': "getClipResponse (calm_env True) 0 0 7 0 (Some (BInts [1, 2])) 8 two_clients = Some s'"
    by (simp add: getClipResponse_def responseInt_def reply_def reply_to_def Let_def two_clients_def client_of_def)
  from responses_answered[OF clip_listed s'] s' show ?thesis
    by (simp add: clip_expects two_clients_def client_of_def RESPONSE_SOLICITED_ACK_EXP_def)
qed

lemma function_of_entry:
  assumes "c \<in> set s_commands" and "responseFunction c = Some n"
  shows "\<exists>b nm f. (n, b, nm, f) \<in> set response_functions"
proof -
  have "Some n \<in> set (filter (\<lambda>x. x \<noteq> None) (map responseFunction s_commands))"
    using assms by force
  then obtain x where "x \<in> set response_functions" "fst x = n" unfolding functions_of_table by auto
  then show ?thesis by (metis prod.collapse)
qed

text \<open>
  C34: What \<open>sendErrorResponse\<close> does for a refused request, an error with neither response nor length, has a
  meaning for the function of every entry of the table of commands.
\<close>

theorem errors_can_be_sent:
  assumes "c \<in> set s_commands" and "responseFunction c = Some n"
  shows "\<exists>b nm f. (n, b, nm, f) \<in> set response_functions \<and> (\<forall>v slot ty serial e s. f v slot ty serial e None 0 s \<noteq> None)"
  using function_of_entry[OF assms] rad.nothing_is_met by blast

theorem errors_can_be_sent_witness:
  "\<exists>b nm f. (''dialResponse'', b, nm, f) \<in> set response_functions \<and> (\<forall>v slot ty serial e s. f v slot ty serial e None 0 s \<noteq> None)"
proof -
  have "CommandInfo 10 (Some ''dialResponse'') RIL_CMD_PROXY_2 \<in> set s_commands"
    by (simp only: s_commands_def ril_commands_def list.set insert_iff simp_thms)
  then show ?thesis by (rule errors_can_be_sent) simp
qed

section \<open>A client that is gone\<close>















section \<open>Messages and data calls\<close>

text \<open>
  C39: A message whose bytes the vendor gives as hexadecimal text reaches the client as those bytes.
\<close>

theorem message_bytes_kept:
  assumes "has_indication (radio s slot)" and "has_memory v" and "0 < len"
  shows "map_option callbacks (newSmsInd v slot ty token e (Some (BText (to_hex bs))) len s)
         = Some (callbacks s @ [Callback slot ''newSms'' (Indication (convertIntToRadioIndicationType ty)) [HBytes bs]])"
  using assms by (simp add: newSmsInd_def indicate_pdu_def c_text_of_def c_str_to_hex convertHexStringToBytes_def
      hex_bytes_to_hex length_to_hex indicate_def)

theorem message_bytes_kept_witness:
  "map_option callbacks (newSmsInd (calm_env True) 0 1 0 0 (Some (BText (to_hex ''AB''))) 4 two_clients)
   = Some [Callback 0 ''newSms'' (Indication UNSOLICITED) [HBytes ''AB'']]"
  using message_bytes_kept[of two_clients 0 "calm_env True" 4 1 0 0 "''AB''"]
  by (simp add: two_clients_def calm_env_def convertIntToRadioIndicationType_def)

text \<open>
  Built for the vendor's hardware, a response with any number of cells gives the client as many copies
  of the first one.
\<close>

theorem cells_repeat_the_first:
  assumes "mtk v" and "cs \<noteq> []" and "convert_cell True (leftover v) (hd cs) = Some h"
    and "has_response (radio s slot)"
  shows "map_option callbacks (getCellInfoListResponse v slot 0 serial 0 (Some (BCells cs)) (n * 72) s)
         = Some (callbacks s @ [Callback slot ''getCellInfoListResponse'' (Reply (populateResponseInfo serial 0 0))
                                  [HVec (replicate n h)]])"
  using assms by (simp add: getCellInfoListResponse_def cell_info_sizes cells_all_first reply_def reply_to_def client_of_def)

definition gsm_cell :: RIL_CellInfo where
  "gsm_cell = \<lparr>cellInfoType = 1, registered = 1, timeStampType = 0, timeStamp = 0, cell_info_words = replicate 11 7\<rparr>"

theorem cells_repeat_the_first_witness:
  "\<exists>h. map_option callbacks (getCellInfoListResponse (calm_env True) 0 0 7 0
       (Some (BCells [gsm_cell, gsm_cell\<lparr>cellInfoType := 4\<rparr>])) (2 * 72) two_clients)
     = Some [Callback 0 ''getCellInfoListResponse'' (Reply (populateResponseInfo 7 0 0)) [HVec (replicate 2 h)]]"
proof -
  have "\<exists>h. convert_cell True (leftover (calm_env True)) (hd [gsm_cell, gsm_cell\<lparr>cellInfoType := 4\<rparr>]) = Some h"
    by (simp add: convert_cell_def gsm_cell_def Let_def)
  then obtain h where h: "convert_cell True (leftover (calm_env True)) (hd [gsm_cell, gsm_cell\<lparr>cellInfoType := 4\<rparr>]) = Some h" ..
  show ?thesis
    using cells_repeat_the_first[OF _ _ h, of two_clients 0 7 2] by (simp add: two_clients_def calm_env_def exI[of _ h])
qed





end
