(* ===== verification/Wpa_Stats.thy ===== *)
theory Wpa_Stats
  imports C_Text
begin

text \<open>
  Station statistics of the WPA supplicant's driver library,
  \<open>src/hal/wpa_supplicant_8_lib/mediatek_driver_cmd_nl80211.c\<close>: the attributes of a netlink answer, the
  structure they are stored in, and the text \<open>print_sta_statistics\<close> makes of it.  A buffer of the caller
  is the list of its characters, its length the size passed with it.
\<close>

section \<open>Attributes\<close>

text \<open>The attributes in the order of the enumeration, from 1 on.\<close>

datatype sta_attr =
    STA_VERSION
  | STA_MAC
  | STA_LINK_SCORE
  | STA_FLAG
  | STA_PER
  | STA_RSSI
  | STA_PHY_MODE
  | STA_TX_RATE
  | STA_TOTAL_CNT
  | STA_THRESHOLD_CNT
  | STA_AVG_PROCESS_TIME
  | STA_MAX_PROCESS_TIME
  | STA_AVG_HIF_PROCESS_TIME
  | STA_MAX_HIF_PROCESS_TIME
  | STA_FAIL_CNT
  | STA_TIMEOUT_CNT
  | STA_AVG_AIR_TIME
  | STA_TC_EMPTY_CNT_ARRAY
  | STA_TC_QUE_LEN_ARRAY
  | STA_TC_AVG_QUE_LEN_ARRAY
  | STA_TC_CUR_QUE_LEN_ARRAY
  | STA_ENQUEUE
  | STA_STA_ENQUEUE
  | STA_DEQUEUE
  | STA_STA_DEQUEUE
  | STA_RB_ARRAY
  | STA_NO_TC_ARRAY
  | STA_TC_USED_ARRAY
  | STA_TC_WANTED_ARRAY
  | STA_IRQ_ISR_CNT
  | STA_IRQ_ISR_PASS_CNT
  | STA_IRQ_TASK_CNT
  | STA_IRQ_AB_CNT
  | STA_IRQ_SW_CNT
  | STA_IRQ_TX_CNT
  | STA_IRQ_RX_CNT
  | STA_RESERVED_ARRAY

definition sta_attrs :: "sta_attr list" where
  "sta_attrs = [STA_VERSION, STA_MAC, STA_LINK_SCORE, STA_FLAG, STA_PER,
     STA_RSSI, STA_PHY_MODE, STA_TX_RATE, STA_TOTAL_CNT, STA_THRESHOLD_CNT,
     STA_AVG_PROCESS_TIME, STA_MAX_PROCESS_TIME, STA_AVG_HIF_PROCESS_TIME, STA_MAX_HIF_PROCESS_TIME, STA_FAIL_CNT,
     STA_TIMEOUT_CNT, STA_AVG_AIR_TIME, STA_TC_EMPTY_CNT_ARRAY, STA_TC_QUE_LEN_ARRAY, STA_TC_AVG_QUE_LEN_ARRAY,
     STA_TC_CUR_QUE_LEN_ARRAY, STA_ENQUEUE, STA_STA_ENQUEUE, STA_DEQUEUE, STA_STA_DEQUEUE,
     STA_RB_ARRAY, STA_NO_TC_ARRAY, STA_TC_USED_ARRAY, STA_TC_WANTED_ARRAY, STA_IRQ_ISR_CNT,
     STA_IRQ_ISR_PASS_CNT, STA_IRQ_TASK_CNT, STA_IRQ_AB_CNT, STA_IRQ_SW_CNT, STA_IRQ_TX_CNT,
     STA_IRQ_RX_CNT, STA_RESERVED_ARRAY]"

text \<open>
  The structure; \<open>sta_tx_rate\<close> counts halves, since the code stores a 16-bit number divided by 2 as a
  \<open>double\<close>.  The arrays are the bytes of four 32-bit numbers.
\<close>

record sta_statistics =
  sta_version :: byte
  sta_addr :: "byte list"
  sta_flag :: "32 word"
  sta_link_score :: "32 word"
  sta_per :: byte
  sta_rssi :: int
  sta_phy_mode :: "32 word"
  sta_tx_rate :: nat
  sta_tx_total_cnt :: "32 word"
  sta_enqueue_total_cnt :: "32 word"
  sta_dequeue_total_cnt :: "32 word"
  sta_enqueue_sta_total_cnt :: "32 word"
  sta_dequeue_sta_total_cnt :: "32 word"
  sta_tx_exc_threshold_cnt :: "32 word"
  sta_tx_avg_process_time :: "32 word"
  sta_tx_max_process_time :: "32 word"
  sta_tx_avg_hif_process_time :: "32 word"
  sta_tx_max_hif_process_time :: "32 word"
  sta_tx_fail_cnt :: "32 word"
  sta_tx_timeout_cnt :: "32 word"
  sta_tx_avg_air_time :: "32 word"
  sta_tc_buf_full_cnt :: "byte list"
  sta_tc_que_len :: "byte list"
  sta_tc_back_count :: "byte list"
  sta_dequeue_no_tc_res :: "byte list"
  sta_tc_wanted_res :: "byte list"
  sta_tc_used_res :: "byte list"
  sta_isr_cnt :: "32 word"
  sta_isr_pass_cnt :: "32 word"
  sta_isr_task_cnt :: "32 word"
  sta_isr_ab_cnt :: "32 word"
  sta_isr_sw_cnt :: "32 word"
  sta_isr_tx_cnt :: "32 word"
  sta_isr_rx_cnt :: "32 word"
  sta_tc_avg_que_len :: "byte list"
  sta_tc_cur_que_len :: "byte list"
  sta_reserved :: "byte list"

definition sta_zero :: sta_statistics where
  "sta_zero = \<lparr>sta_version = 0, sta_addr = replicate 6 0, sta_flag = 0, sta_link_score = 0,
     sta_per = 0, sta_rssi = 0, sta_phy_mode = 0, sta_tx_rate = 0,
     sta_tx_total_cnt = 0, sta_enqueue_total_cnt = 0, sta_dequeue_total_cnt = 0, sta_enqueue_sta_total_cnt = 0,
     sta_dequeue_sta_total_cnt = 0, sta_tx_exc_threshold_cnt = 0, sta_tx_avg_process_time = 0, sta_tx_max_process_time = 0,
     sta_tx_avg_hif_process_time = 0, sta_tx_max_hif_process_time = 0, sta_tx_fail_cnt = 0, sta_tx_timeout_cnt = 0,
     sta_tx_avg_air_time = 0, sta_tc_buf_full_cnt = replicate 16 0, sta_tc_que_len = replicate 16 0, sta_tc_back_count = replicate 16 0,
     sta_dequeue_no_tc_res = replicate 16 0, sta_tc_wanted_res = replicate 16 0, sta_tc_used_res = replicate 16 0, sta_isr_cnt = 0,
     sta_isr_pass_cnt = 0, sta_isr_task_cnt = 0, sta_isr_ab_cnt = 0, sta_isr_sw_cnt = 0,
     sta_isr_tx_cnt = 0, sta_isr_rx_cnt = 0, sta_tc_avg_que_len = replicate 16 0, sta_tc_cur_que_len = replicate 16 0,
     sta_reserved = replicate 32 0\<rparr>"

text \<open>Reading an attribute: \<open>nla_memcpy\<close> copies what fits and is there.\<close>

definition nla_get_u8 :: "byte list \<Rightarrow> byte" where
  "nla_get_u8 bs = hd bs"

definition nla_get_u16 :: "byte list \<Rightarrow> 16 word" where
  "nla_get_u16 bs = un_le16 (take 2 bs)"

definition nla_get_u32 :: "byte list \<Rightarrow> 32 word" where
  "nla_get_u32 bs = un_le32 (take 4 bs)"

definition nla_memcpy :: "byte list \<Rightarrow> byte list \<Rightarrow> byte list" where
  "nla_memcpy dst bs = take (length dst) bs @ drop (length bs) dst"

text \<open>The division of C by 2.\<close>

definition c_half :: "int \<Rightarrow> int" where
  "c_half x = (if x < 0 then - ((- x) div 2) else x div 2)"

fun store_attr :: "sta_attr \<Rightarrow> byte list \<Rightarrow> sta_statistics \<Rightarrow> sta_statistics" where
  "store_attr STA_VERSION bs s = s\<lparr>sta_version := nla_get_u8 bs\<rparr>"
| "store_attr STA_MAC bs s = s\<lparr>sta_addr := nla_memcpy (sta_addr s) bs\<rparr>"
| "store_attr STA_LINK_SCORE bs s = s\<lparr>sta_link_score := nla_get_u32 bs\<rparr>"
| "store_attr STA_FLAG bs s = s\<lparr>sta_flag := nla_get_u32 bs\<rparr>"
| "store_attr STA_PER bs s = s\<lparr>sta_per := nla_get_u8 bs\<rparr>"
| "store_attr STA_RSSI bs s = s\<lparr>sta_rssi := c_half (int (unat (nla_get_u8 bs)) - 220)\<rparr>"
| "store_attr STA_PHY_MODE bs s = s\<lparr>sta_phy_mode := nla_get_u32 bs\<rparr>"
| "store_attr STA_TX_RATE bs s = s\<lparr>sta_tx_rate := unat (nla_get_u16 bs)\<rparr>"
| "store_attr STA_TOTAL_CNT bs s = s\<lparr>sta_tx_total_cnt := nla_get_u32 bs\<rparr>"
| "store_attr STA_THRESHOLD_CNT bs s = s\<lparr>sta_tx_exc_threshold_cnt := nla_get_u32 bs\<rparr>"
| "store_attr STA_AVG_PROCESS_TIME bs s = s\<lparr>sta_tx_avg_process_time := nla_get_u32 bs\<rparr>"
| "store_attr STA_MAX_PROCESS_TIME bs s = s\<lparr>sta_tx_max_process_time := nla_get_u32 bs\<rparr>"
| "store_attr STA_AVG_HIF_PROCESS_TIME bs s = s\<lparr>sta_tx_avg_hif_process_time := nla_get_u32 bs\<rparr>"
| "store_attr STA_MAX_HIF_PROCESS_TIME bs s = s\<lparr>sta_tx_max_hif_process_time := nla_get_u32 bs\<rparr>"
| "store_attr STA_FAIL_CNT bs s = s\<lparr>sta_tx_fail_cnt := nla_get_u32 bs\<rparr>"
| "store_attr STA_TIMEOUT_CNT bs s = s\<lparr>sta_tx_timeout_cnt := nla_get_u32 bs\<rparr>"
| "store_attr STA_AVG_AIR_TIME bs s = s\<lparr>sta_tx_avg_air_time := nla_get_u32 bs\<rparr>"
| "store_attr STA_TC_EMPTY_CNT_ARRAY bs s = s\<lparr>sta_tc_buf_full_cnt := nla_memcpy (sta_tc_buf_full_cnt s) bs\<rparr>"
| "store_attr STA_TC_QUE_LEN_ARRAY bs s = s\<lparr>sta_tc_que_len := nla_memcpy (sta_tc_que_len s) bs\<rparr>"
| "store_attr STA_TC_AVG_QUE_LEN_ARRAY bs s = s\<lparr>sta_tc_avg_que_len := nla_memcpy (sta_tc_avg_que_len s) bs\<rparr>"
| "store_attr STA_TC_CUR_QUE_LEN_ARRAY bs s = s\<lparr>sta_tc_cur_que_len := nla_memcpy (sta_tc_cur_que_len s) bs\<rparr>"
| "store_attr STA_ENQUEUE bs s = s\<lparr>sta_enqueue_total_cnt := nla_get_u32 bs\<rparr>"
| "store_attr STA_STA_ENQUEUE bs s = s\<lparr>sta_enqueue_sta_total_cnt := nla_get_u32 bs\<rparr>"
| "store_attr STA_DEQUEUE bs s = s\<lparr>sta_dequeue_total_cnt := nla_get_u32 bs\<rparr>"
| "store_attr STA_STA_DEQUEUE bs s = s\<lparr>sta_dequeue_sta_total_cnt := nla_get_u32 bs\<rparr>"
| "store_attr STA_RB_ARRAY bs s = s\<lparr>sta_tc_back_count := nla_memcpy (sta_tc_back_count s) bs\<rparr>"
| "store_attr STA_NO_TC_ARRAY bs s = s\<lparr>sta_dequeue_no_tc_res := nla_memcpy (sta_dequeue_no_tc_res s) bs\<rparr>"
| "store_attr STA_TC_USED_ARRAY bs s = s\<lparr>sta_tc_used_res := nla_memcpy (sta_tc_used_res s) bs\<rparr>"
| "store_attr STA_TC_WANTED_ARRAY bs s = s\<lparr>sta_tc_wanted_res := nla_memcpy (sta_tc_wanted_res s) bs\<rparr>"
| "store_attr STA_IRQ_ISR_CNT bs s = s\<lparr>sta_isr_cnt := nla_get_u32 bs\<rparr>"
| "store_attr STA_IRQ_ISR_PASS_CNT bs s = s\<lparr>sta_isr_pass_cnt := nla_get_u32 bs\<rparr>"
| "store_attr STA_IRQ_TASK_CNT bs s = s\<lparr>sta_isr_task_cnt := nla_get_u32 bs\<rparr>"
| "store_attr STA_IRQ_AB_CNT bs s = s\<lparr>sta_isr_ab_cnt := nla_get_u32 bs\<rparr>"
| "store_attr STA_IRQ_SW_CNT bs s = s\<lparr>sta_isr_sw_cnt := nla_get_u32 bs\<rparr>"
| "store_attr STA_IRQ_TX_CNT bs s = s\<lparr>sta_isr_tx_cnt := nla_get_u32 bs\<rparr>"
| "store_attr STA_IRQ_RX_CNT bs s = s\<lparr>sta_isr_rx_cnt := nla_get_u32 bs\<rparr>"
| "store_attr STA_RESERVED_ARRAY bs s = s\<lparr>sta_reserved := nla_memcpy (sta_reserved s) bs\<rparr>"

text \<open>
  The policy: the fewest bytes an attribute must have.  \<open>nla_parse_nested\<close> refuses an answer in which one
  is shorter; \<open>None\<close> is an answer without the nested block.
\<close>

definition attr_min :: "sta_attr \<Rightarrow> nat" where
  "attr_min a =
     (if a \<in> {STA_MAC, STA_TC_EMPTY_CNT_ARRAY, STA_TC_QUE_LEN_ARRAY, STA_TC_AVG_QUE_LEN_ARRAY, STA_TC_CUR_QUE_LEN_ARRAY,
        STA_RB_ARRAY, STA_NO_TC_ARRAY, STA_TC_USED_ARRAY, STA_TC_WANTED_ARRAY, STA_RESERVED_ARRAY} then 0
      else if a \<in> {STA_VERSION, STA_PER, STA_RSSI} then 1
      else if a = STA_TX_RATE then 2 else 4)"

type_synonym sta_reply = "(sta_attr \<Rightarrow> byte list option) option"

definition policy_holds :: "(sta_attr \<Rightarrow> byte list option) \<Rightarrow> bool" where
  "policy_holds f = list_all (\<lambda>a. case f a of None \<Rightarrow> True | Some bs \<Rightarrow> attr_min a \<le> length bs) sta_attrs"

definition sta_step :: "(sta_attr \<Rightarrow> byte list option) \<Rightarrow> sta_statistics \<Rightarrow> sta_attr \<Rightarrow> sta_statistics" where
  "sta_step f s a = (case f a of None \<Rightarrow> s | Some bs \<Rightarrow> store_attr a bs s)"

definition testmode_sta_statistics_handler :: "sta_reply \<Rightarrow> sta_statistics \<Rightarrow> sta_statistics" where
  "testmode_sta_statistics_handler r s =
     (case r of None \<Rightarrow> s
      | Some f \<Rightarrow>
          if \<not> policy_holds f then s
          else foldl (sta_step f) s sta_attrs)"

section \<open>Printing\<close>

fun hex_fixed :: "string \<Rightarrow> nat \<Rightarrow> nat \<Rightarrow> string" where
  "hex_fixed ds 0 n = []"
| "hex_fixed ds (Suc k) n = hex_fixed ds k (n div 16) @ [ds ! (n mod 16)]"

text \<open>\<open>%02X\<close>, \<open>%08X\<close>, and \<open>MACSTR\<close> with \<open>%02x\<close>.\<close>

definition X02 :: "byte \<Rightarrow> string" where
  "X02 b = hex_fixed ''0123456789ABCDEF'' 2 (unat b)"

definition X08 :: "32 word \<Rightarrow> string" where
  "X08 w = hex_fixed ''0123456789ABCDEF'' 8 (unat w)"

definition macstr :: "byte list \<Rightarrow> string" where
  "macstr a = tl (concat (map (\<lambda>b. CHR '':'' # hex_fixed ''0123456789abcdef'' 2 (unat b)) a))"

text \<open>\<open>%d\<close> with a 32-bit unsigned number, and \<open>%.1f\<close> with a number of halves.\<close>

definition show_u32 :: "32 word \<Rightarrow> string" where
  "show_u32 w = show_int (sint w)"

definition show_half :: "nat \<Rightarrow> string" where
  "show_half n = show_nat (n div 2) @ (if odd n then ''.5'' else ''.0'')"

definition show_tc :: "byte list \<Rightarrow> string" where
  "show_tc a =
     show_u32 (un_le32 (take 4 a)) @ '':'' @ show_u32 (un_le32 (take 4 (drop 4 a))) @ '':''
       @ show_u32 (un_le32 (take 4 (drop 8 a))) @ '':'' @ show_u32 (un_le32 (take 4 (drop 12 a)))"

definition reserved_chunks :: "byte list \<Rightarrow> nat \<Rightarrow> string list" where
  "reserved_chunks a i =
     X02 (a ! i) # (if (i + 1) mod 4 = 0 then ['' ''] else [])"

text \<open>The texts of the successive \<open>os_snprintf\<close> calls.\<close>

definition sta_chunks :: "sta_statistics \<Rightarrow> string list" where
  "sta_chunks s =
     [''sta_addr='' @ macstr (sta_addr s) @ [CHR 0x0A],
      ''link_score='' @ show_u32 (sta_link_score s) @ [CHR 0x0A],
      ''per='' @ show_nat (unat (sta_per s)) @ [CHR 0x0A],
      ''rssi='' @ show_int (sta_rssi s) @ [CHR 0x0A],
      ''phy=0x'' @ X08 (sta_phy_mode s) @ [CHR 0x0A],
      ''rate='' @ show_half (sta_tx_rate s) @ [CHR 0x0A],
      ''total_cnt='' @ show_u32 (sta_tx_total_cnt s) @ [CHR 0x0A],
      ''threshold_cnt='' @ show_u32 (sta_tx_exc_threshold_cnt s) @ [CHR 0x0A],
      ''fail_cnt='' @ show_u32 (sta_tx_fail_cnt s) @ [CHR 0x0A],
      ''timeout_cnt='' @ show_u32 (sta_tx_timeout_cnt s) @ [CHR 0x0A],
      ''apt='' @ show_u32 (sta_tx_avg_process_time s) @ [CHR 0x0A],
      ''aat='' @ show_u32 (sta_tx_avg_air_time s) @ [CHR 0x0A],
      ''TC_buf_full_cnt='' @ show_tc (sta_tc_buf_full_cnt s) @ [CHR 0x0A],
      ''TC_sta_que_len='' @ show_tc (sta_tc_que_len s) @ [CHR 0x0A],
      ''TC_avg_que_len='' @ show_tc (sta_tc_avg_que_len s) @ [CHR 0x0A],
      ''TC_cur_que_len='' @ show_tc (sta_tc_cur_que_len s) @ [CHR 0x0A],
      ''flag=0x'' @ X08 (sta_flag s) @ [CHR 0x0A],
      ''reserved0='']
     @ concat (map (reserved_chunks (sta_reserved s)) [0..<16])
     @ [[CHR 0x0A], ''reserved1='']
     @ concat (map (reserved_chunks (sta_reserved s)) [16..<32])
     @ [[CHR 0x0A], ''===='' @ [CHR 0x0A]]"

text \<open>\<open>os_snprintf(a + pos, end - (a + pos), ...)\<close>: as much of the text as fits, and a terminator.\<close>

definition snprintf_at :: "string \<Rightarrow> nat \<Rightarrow> string \<Rightarrow> string" where
  "snprintf_at a pos t =
     (let u = take (length a - pos - 1) t
      in if length a \<le> pos then a
         else take pos a @ u @ CHR 0x00 # drop (pos + length u + 1) a)"

text \<open>The calls one after the other, each with its check; the result and the buffer.\<close>

fun print_chunks :: "string \<Rightarrow> nat \<Rightarrow> string list \<Rightarrow> nat \<times> string" where
  "print_chunks a pos [] = (pos, a)"
| "print_chunks a pos (t # ts) =
     (let a' = snprintf_at a pos t
      in if length a - pos \<le> length t then (0, a') else print_chunks a' (pos + length t) ts)"

definition print_sta_statistics :: "sta_statistics \<Rightarrow> string \<Rightarrow> nat \<times> string" where
  "print_sta_statistics s a = print_chunks a 0 (sta_chunks s)"

section \<open>Lemmas\<close>

lemma snprintf_at_length [simp]: "length (snprintf_at a pos t) = length a"
  by (auto simp: snprintf_at_def Let_def min_def)

lemma snprintf_at_fits:
  assumes "pos + length t < length a"
  shows "snprintf_at a pos t = take pos a @ t @ CHR 0x00 # drop (pos + length t + 1) a"
  using assms by (simp add: snprintf_at_def Let_def)

text \<open>The reference: the whole text at once, or nothing.\<close>

lemma print_chunks_all:
  assumes "pos + length (concat ts) < length a" "ts \<noteq> []"
  shows "print_chunks a pos ts =
    (pos + length (concat ts), take pos a @ concat ts @ CHR 0x00 # drop (pos + length (concat ts) + 1) a)"
  using assms
proof (induction a pos ts rule: print_chunks.induct)
  case (2 a pos t ts)
  have s: "snprintf_at a pos t = take pos a @ t @ CHR 0x00 # drop (pos + length t + 1) a"
    using 2(2) by (intro snprintf_at_fits) simp
  have f: "\<not> length a - pos \<le> length t" using 2(2) by simp
  show ?case
  proof (cases "ts = []")
    case True
    then show ?thesis using f s by (simp add: Let_def)
  next
    case False
    let ?p = "pos + length t" and ?n = "length (concat ts)"
    have t: "take ?p (snprintf_at a pos t) = take pos a @ t" using 2(2) by (simp add: s)
    have d: "drop (?p + ?n + 1) (snprintf_at a pos t) = drop (?p + ?n + 1) a"
      using 2(2) by (simp add: s drop_Cons' ac_simps)
    show ?thesis
      using "2.IH"[OF refl f] 2(2) False f t d by (simp add: Let_def add.assoc)
  qed
qed simp

lemma print_chunks_none:
  assumes "length a \<le> pos + length (concat ts)" "ts \<noteq> []"
  shows "fst (print_chunks a pos ts) = 0"
  using assms
proof (induction a pos ts rule: print_chunks.induct)
  case (2 a pos t ts)
  show ?case
  proof (cases "length a - pos \<le> length t")
    case False
    then have "ts \<noteq> []" using 2(2) by (cases ts) auto
    then show ?thesis using "2.IH"[OF refl False] 2(2) False by (simp add: Let_def)
  qed (simp add: Let_def)
qed simp

lemma print_chunks_length: "length (snd (print_chunks a pos ts)) = length a"
  by (induction a pos ts rule: print_chunks.induct) (simp_all add: Let_def)

lemma sta_chunks_nonempty: "sta_chunks s \<noteq> []"
  by (simp add: sta_chunks_def)

text \<open>
  C35: The statistics are printed all or nothing: the result is the length of the text and the buffer
  holds the text and a terminator exactly when both fit, else the result is 0; the buffer keeps its size.
\<close>

theorem statistics_all_or_nothing:
  "(let t = concat (sta_chunks s)
    in if length t < length a
       then print_sta_statistics s a = (length t, t @ CHR 0x00 # drop (length t + 1) a)
       else fst (print_sta_statistics s a) = 0)
   \<and> length (snd (print_sta_statistics s a)) = length a"
proof (cases "length (concat (sta_chunks s)) < length a")
  case True
  then show ?thesis
    unfolding print_sta_statistics_def
    using print_chunks_all[of 0 "sta_chunks s" a] print_chunks_length[of a 0 "sta_chunks s"] sta_chunks_nonempty
    by (simp add: Let_def del: length_concat)
next
  case False
  then have "fst (print_chunks a 0 (sta_chunks s)) = 0"
    by (intro print_chunks_none) (simp_all add: sta_chunks_nonempty)
  then show ?thesis
    unfolding print_sta_statistics_def
    using False print_chunks_length[of a 0 "sta_chunks s"] by (simp add: Let_def del: length_concat)
qed

text \<open>
  What the handler leaves in a field is the reading of its attribute, or the old value when the answer
  has none; the signal strength it computes lies between -110 and 17.
\<close>

lemma handler_steps:
  "policy_holds f \<Longrightarrow> testmode_sta_statistics_handler (Some f) s = foldl (sta_step f) s sta_attrs"
  by (simp add: testmode_sta_statistics_handler_def)

lemma sta_step_fields:
  "sta_link_score (sta_step f s a) =
     (if a = STA_LINK_SCORE \<and> f a \<noteq> None then nla_get_u32 (the (f a)) else sta_link_score s)"
  "sta_rssi (sta_step f s a) =
     (if a = STA_RSSI \<and> f a \<noteq> None then c_half (int (unat (nla_get_u8 (the (f a)))) - 220) else sta_rssi s)"
  "sta_addr (sta_step f s a) =
     (if a = STA_MAC \<and> f a \<noteq> None then nla_memcpy (sta_addr s) (the (f a)) else sta_addr s)"
  by (cases a; simp add: sta_step_def split: option.splits)+

lemma handler_fields:
  assumes "policy_holds f"
  shows "sta_link_score (testmode_sta_statistics_handler (Some f) s) =
      (case f STA_LINK_SCORE of None \<Rightarrow> sta_link_score s | Some bs \<Rightarrow> nla_get_u32 bs)"
    "sta_rssi (testmode_sta_statistics_handler (Some f) s) =
      (case f STA_RSSI of None \<Rightarrow> sta_rssi s | Some bs \<Rightarrow> c_half (int (unat (nla_get_u8 bs)) - 220))"
    "sta_addr (testmode_sta_statistics_handler (Some f) s) =
      (case f STA_MAC of None \<Rightarrow> sta_addr s | Some bs \<Rightarrow> nla_memcpy (sta_addr s) bs)"
  unfolding handler_steps[OF assms] sta_attrs_def
  by (simp_all add: sta_step_fields split: option.splits)

lemma rssi_range: "c_half (int (unat (b :: byte)) - 220) \<in> {- 110..17}"
proof -
  have "unat b < 2 ^ LENGTH(8)" by (rule unsigned_less)
  then obtain n where n: "unat b = n" "n < 256" by simp
  then show ?thesis unfolding n(1) c_half_def by auto
qed

end
