(* ===== verification/Wpa_World.thy ===== *)
theory Wpa_World
  imports Wpa_Stats
begin

text \<open>
  The driver library of the WPA supplicant and the world around it: what it sends to the kernel, what
  the kernel and the supplicant answer, the state both share, and \<open>wpa_driver_nl80211_testmode\<close>, through
  which the vendor commands go.  Structures have the layout of a 64-bit ABI.
\<close>

section \<open>What is sent\<close>

text \<open>Arguments of \<open>set-wapi-key\<close>, and the structure made of them; the sequence number fills \<open>tx_seq\<close> and \<open>rx_seq\<close>.\<close>

record wapi_args =
  wa_addr :: "byte list option"
  wa_key_idx :: int
  wa_set_tx :: bool
  wa_seq :: "byte list option"
  wa_seq_len :: nat
  wa_key :: "byte list option"
  wa_key_len :: nat

record wapi_params =
  wp_key_index :: byte
  wp_key_len :: byte
  wp_group :: bool
  wp_tx :: bool
  wp_seq :: "byte list"
  wp_addr :: "byte list"
  wp_alg :: "16 word"
  wp_ext_key_len :: "16 word"
  wp_key :: "byte list"

text \<open>The fields of the Wi-Fi display that are passed on.\<close>

record wfd_data =
  WfdCmdType :: "32 word"
  WfdEnable :: byte
  WfdCoupleSinkStatus :: byte
  WfdSessionAvailable :: byte
  WfdSigmaMode :: byte
  WfdDevInfo :: "16 word"
  WfdControlPort :: "16 word"
  WfdMaximumTp :: "16 word"
  WfdExtendCap :: "16 word"
  WfdCoupleSinkAddress :: "byte list"
  WfdAssociatedBssid :: "byte list"
  WfdVideoIp :: "byte list"
  WfdAudioIp :: "byte list"
  WfdVideoPort :: "16 word"
  WfdAudioPort :: "16 word"
  WfdFlag :: "32 word"
  WfdPolicy :: "32 word"
  WfdState :: "32 word"
  WfdSessionInformationIE :: "byte list"
  WfdSessionInformationIELen :: "16 word"
  WfdPrimarySinkMac :: "byte list"
  WfdSecondarySinkMac :: "byte list"
  WfdAdvancedFlag :: "32 word"
  WfdLocalIp :: "byte list"

text \<open>The structures that follow the common header, and the events.\<close>

datatype tparams =
    TmStatistics "byte list"
  | TmAvailable
  | TmSwCmd byte "32 word" "32 word"
  | TmHotspot byte "byte list"
  | TmHsConfig "32 word" "32 word"
  | TmWapi wapi_params
  | TmSigma "32 word" "32 word"
  | TmNoa "32 word" "32 word" "32 word" "32 word" "32 word"
  | TmWfd wfd_data
  | TmSuspend byte
  | TmRxFilter "32 word list"
  | TmStr string

datatype wev =
    TestMode "32 word" nat tparams
  | IwPriv string string
  | ChannelListChanged nat char char
  | IfaceFlags bool
  | Deauthenticate
  | WpaMsg string
  | DevPrivate string string nat
  | OsSleep

section \<open>What is there\<close>

datatype wmode = MODE_INFRA | MODE_IBSS | MODE_AP | MODE_P2P_GO | MODE_P2P_GROUP_FORMATION

text \<open>An interface of the radio: mode, frequency and group flag of its network, and its association.\<close>

record radio_if =
  rif_ssid :: "(wmode \<times> int \<times> bool) option"
  rif_assoc_freq :: int
  rif_bssid_ok :: bool

text \<open>The available channels, five 32-bit masks, in the order of the attributes.\<close>

record chans =
  ch_2g_base1 :: "32 word"
  ch_5g_base36 :: "32 word"
  ch_5g_base52 :: "32 word"
  ch_5g_base100 :: "32 word"
  ch_5g_base149 :: "32 word"

datatype chan_attr = CHAN_2G_BASE_1 | CHAN_5G_BASE_36 | CHAN_5G_BASE_52 | CHAN_5G_BASE_100 | CHAN_5G_BASE_149

type_synonym chan_reply = "(chan_attr \<Rightarrow> byte list option) option"

text \<open>
  The configuration of the build, the objects of the supplicant, and the answers, which may depend on
  everything done before: \<open>tm_alloc\<close> and \<open>tm_put\<close> whether a message can be made, \<open>tm_result\<close> what
  \<open>send_and_recv_msgs\<close> returns, \<open>tm_stats\<close> and \<open>tm_chans\<close> what it delivers to the handlers.
\<close>

record wenv =
  c_hotspot :: bool
  c_lte_coex :: bool
  c_wapi :: bool
  c_wfd_sink :: bool
  c_sigma :: bool
  c_tc1 :: bool
  long_bits :: nat
  MAX_DRV_CMD_SIZE :: nat
  DRV_NUMBER_SEQUENTIAL_ERRORS :: nat
  sizeof_wfd_data_s :: nat
  bss_ifname :: string
  first_ifname :: string
  has_drv :: bool
  has_ctx :: bool
  has_conf :: bool
  has_drv_priv :: bool
  has_p2p :: bool
  has_p2p_cfg :: bool
  associated :: bool
  own_addr :: "byte list"
  cur_bssid :: "byte list"
  cur_mode :: "wmode option"
  p2p_devices :: "(byte list \<times> byte list) list"
  conf_oper_reg_class :: byte
  conf_oper_channel :: byte
  cfg_channels :: "(byte \<times> byte list) list"
  radio_ifaces :: "radio_if list"
  calloc_ok :: bool
  hwaddr_aton :: "string \<Rightarrow> byte list option"
  os_random :: "32 word"
  wapi_in :: wapi_args
  wapi_msg_len :: int
  wfd_in :: wfd_data
  socket_ok :: bool
  tm_alloc :: "wev list \<Rightarrow> bool"
  tm_put :: "wev list \<Rightarrow> bool"
  tm_result :: "wev list \<Rightarrow> int"
  tm_stats :: "wev list \<Rightarrow> sta_reply"
  tm_chans :: "wev list \<Rightarrow> chan_reply"
  iw_result :: "wev list \<Rightarrow> int"
  flags_result :: "wev list \<Rightarrow> int"
  priv_result :: "wev list \<Rightarrow> int"

text \<open>
  What the commands change: the counter of errors, the P2P module with the channels in use, its
  configuration, the interfaces (concurrent channels, and whether the flag for concurrency is set).
\<close>

record wst =
  drv_errors :: nat
  dev_capab :: byte
  op_channel :: byte
  op_reg_class :: byte
  p2p_channels :: "(byte \<times> byte list) list"
  cfg_op_channel :: nat
  concurrent_operations :: nat
  wifaces :: "(nat \<times> bool) list"
  wevs :: "wev list"

definition emit :: "wev \<Rightarrow> wst \<Rightarrow> wst" where
  "emit v s = s\<lparr>wevs := wevs s @ [v]\<rparr>"

section \<open>Test mode messages\<close>

definition BITS :: "nat \<Rightarrow> nat \<Rightarrow> 32 word" where
  "BITS m n = NOT (push_bit m 1 - 1) AND ((push_bit n 1 - 1) OR push_bit n 1)"

definition hdr_index :: "32 word \<Rightarrow> 32 word" where
  "hdr_index i = i OR push_bit 24 0x01"

text \<open>The memory a structure points to with its \<open>buf\<close>.\<close>

datatype tmbuf = NoBuf | StatsBuf sta_statistics | ChansBuf chans

definition chan_value :: "(chan_attr \<Rightarrow> byte list option) \<Rightarrow> chan_attr \<Rightarrow> 32 word \<Rightarrow> 32 word" where
  "chan_value f a old = (case f a of None \<Rightarrow> old | Some bs \<Rightarrow> nla_get_u32 bs)"

definition testmode_available_channel_handler :: "chan_reply \<Rightarrow> chans \<Rightarrow> chans" where
  "testmode_available_channel_handler r c =
     (case r of None \<Rightarrow> c
      | Some f \<Rightarrow>
          if \<not> list_all (\<lambda>a. case f a of None \<Rightarrow> True | Some bs \<Rightarrow> 4 \<le> length bs)
                [CHAN_2G_BASE_1, CHAN_5G_BASE_36, CHAN_5G_BASE_52, CHAN_5G_BASE_100, CHAN_5G_BASE_149]
          then c
          else \<lparr>ch_2g_base1 = chan_value f CHAN_2G_BASE_1 (ch_2g_base1 c),
                ch_5g_base36 = chan_value f CHAN_5G_BASE_36 (ch_5g_base36 c),
                ch_5g_base52 = chan_value f CHAN_5G_BASE_52 (ch_5g_base52 c),
                ch_5g_base100 = chan_value f CHAN_5G_BASE_100 (ch_5g_base100 c),
                ch_5g_base149 = chan_value f CHAN_5G_BASE_149 (ch_5g_base149 c)\<rparr>)"

definition wpa_driver_nl80211_testmode ::
    "wenv \<Rightarrow> 32 word \<Rightarrow> nat \<Rightarrow> tparams \<Rightarrow> tmbuf \<Rightarrow> wst \<Rightarrow> int \<times> tmbuf \<times> wst" where
  "wpa_driver_nl80211_testmode e idx n tp b s =
     (if \<not> tm_alloc e (wevs s) then (- 1, b, s)
      else if \<not> tm_put e (wevs s) then (- 105, b, s)
      else
        let s' = emit (TestMode idx n tp) s;
            index = idx AND BITS 0 23;
            b' = (if index = 0x10 then
                    (case b of StatsBuf t \<Rightarrow> StatsBuf (testmode_sta_statistics_handler (tm_stats e (wevs s')) t)
                     | _ \<Rightarrow> b)
                  else if c_lte_coex e \<and> index = 0x30 then
                    (case b of ChansBuf c \<Rightarrow> ChansBuf (testmode_available_channel_handler (tm_chans e (wevs s')) c)
                     | _ \<Rightarrow> b)
                  else b)
        in (tm_result e (wevs s'), b', s'))"

text \<open>A message without a buffer.\<close>

definition tm_send :: "wenv \<Rightarrow> 32 word \<Rightarrow> nat \<Rightarrow> tparams \<Rightarrow> wst \<Rightarrow> int \<times> wst" where
  "tm_send e i n tp s =
     (let (r, b, s') = wpa_driver_nl80211_testmode e (hdr_index i) n tp NoBuf s in (r, s'))"

definition wpa_driver_nl80211_driver_sw_cmd :: "wenv \<Rightarrow> bool \<Rightarrow> 32 word \<Rightarrow> 32 word \<Rightarrow> wst \<Rightarrow> wst" where
  "wpa_driver_nl80211_driver_sw_cmd e st adr dat s =
     snd (tm_send e 1 20 (TmSwCmd (if st then 1 else 0) adr dat) s)"

section \<open>Hotspot clients\<close>

definition wpa_driver_hotspot_block_list_update :: "wenv \<Rightarrow> byte list \<Rightarrow> int \<Rightarrow> wst \<Rightarrow> int \<times> wst" where
  "wpa_driver_hotspot_block_list_update e bssid blocked s =
     tm_send e 3 16 (TmHotspot (word_of_int blocked) bssid) s"

definition wpa_driver_sta_block :: "wenv \<Rightarrow> string \<Rightarrow> wst \<Rightarrow> int \<times> wst" where
  "wpa_driver_sta_block e cmd s =
     (case hwaddr_aton e cmd of None \<Rightarrow> (- 1, s)
      | Some bssid \<Rightarrow> wpa_driver_hotspot_block_list_update e bssid 1 s)"

definition wpa_driver_sta_unblock :: "wenv \<Rightarrow> string \<Rightarrow> wst \<Rightarrow> int \<times> wst" where
  "wpa_driver_sta_unblock e cmd s =
     (case hwaddr_aton e cmd of None \<Rightarrow> (- 1, s)
      | Some bssid \<Rightarrow> wpa_driver_hotspot_block_list_update e bssid 0 s)"

definition wpa_driver_set_max_client :: "wenv \<Rightarrow> string \<Rightarrow> wst \<Rightarrow> int \<times> wst" where
  "wpa_driver_set_max_client e cmd s = tm_send e 51 16 (TmHsConfig 1 (word_of_int (c_atoi cmd))) s"

section \<open>Channels beside LTE\<close>

definition wpa_driver_get_lte_available_channels :: "wenv \<Rightarrow> chans \<Rightarrow> wst \<Rightarrow> int \<times> chans \<times> wst" where
  "wpa_driver_get_lte_available_channels e c s =
     (case wpa_driver_nl80211_testmode e (hdr_index 0x30) 16 TmAvailable (ChansBuf c) s of
        (r, ChansBuf c', s') \<Rightarrow> (r, c', s')
      | (r, _, s') \<Rightarrow> (r, c, s'))"

definition no_chans :: chans where
  "no_chans = \<lparr>ch_2g_base1 = 0, ch_5g_base36 = 0, ch_5g_base52 = 0, ch_5g_base100 = 0, ch_5g_base149 = 0\<rparr>"

text \<open>
  The polling loop: \<open>n\<close> is what \<open>wait_cnt\<close> has left before it exceeds 5.  The mask of the answer that is
  complete, or nothing.
\<close>

fun acs_poll :: "wenv \<Rightarrow> nat \<Rightarrow> wst \<Rightarrow> 32 word option \<times> wst" where
  "acs_poll e n s =
     (let (r, c, s') = wpa_driver_get_lte_available_channels e no_chans s
      in if bit (ch_2g_base1 c) 31 then (Some (ch_2g_base1 c), s')
         else case n of 0 \<Rightarrow> (None, s') | Suc m \<Rightarrow> acs_poll e m (emit OsSleep s'))"

declare acs_poll.simps [simp del]

text \<open>The channels of a mask, and the first of them in an array of 14 zeros.\<close>

definition channels_of :: "32 word \<Rightarrow> nat list" where
  "channels_of w = map (\<lambda>i. i + 1) (filter (\<lambda>i. bit w i) [0..<14])"

definition wpa_driver_do_mtk_acs :: "wenv \<Rightarrow> wst \<Rightarrow> byte \<times> wst" where
  "wpa_driver_do_mtk_acs e s =
     (case acs_poll e 5 s of
        (None, s') \<Rightarrow> (0, s')
      | (Some w, s') \<Rightarrow> (of_nat (hd (channels_of w @ [0])), s'))"

section \<open>WAPI\<close>

definition IW_ENCODE_SEQ_MAX_SIZE :: nat where "IW_ENCODE_SEQ_MAX_SIZE = 8"

text \<open>The six bytes that are read at an address.\<close>

definition ETH_ALEN :: nat where "ETH_ALEN = 6"

definition addr_readable :: "byte list option \<Rightarrow> bool" where
  "addr_readable ad = (case ad of None \<Rightarrow> True | Some a \<Rightarrow> ETH_ALEN \<le> length a)"

text \<open>
  \<open>n\<close> bytes copied to the beginning of a cleared array of \<open>m\<close>, unless there is no source; \<open>None\<close>: they
  leave the array, or are read past the end of the source.
\<close>

definition copy_in :: "nat \<Rightarrow> byte list option \<Rightarrow> nat \<Rightarrow> byte list option" where
  "copy_in m src n =
     (case src of None \<Rightarrow> Some (replicate m 0)
      | Some k \<Rightarrow> if n \<le> length k then write_at (replicate m 0) 0 (take n k) else None)"

definition wpa_driver_nl80211_set_wapi_key :: "wenv \<Rightarrow> wapi_args \<Rightarrow> wst \<Rightarrow> (int \<times> wst) option" where
  "wpa_driver_nl80211_set_wapi_key e a s =
     (if IW_ENCODE_SEQ_MAX_SIZE * 2 < wa_seq_len a then Some (- 1, s)
      else if \<not> addr_readable (wa_addr a) then None
      else
        case (copy_in 32 (wa_key a) (wa_key_len a), copy_in 16 (wa_seq a) (wa_seq_len a)) of
          (Some k, Some q) \<Rightarrow>
            let p = \<lparr>wp_key_index = word_of_int (wa_key_idx a + 1), wp_key_len = of_nat (wa_key_len a),
                     wp_group = (case wa_addr a of None \<Rightarrow> True | Some ad \<Rightarrow> take ETH_ALEN ad = replicate ETH_ALEN 0xff),
                     wp_tx = wa_set_tx a,
                     wp_seq = q,
                     wp_addr = (case wa_addr a of None \<Rightarrow> replicate ETH_ALEN 0xff | Some ad \<Rightarrow> take ETH_ALEN ad),
                     wp_alg = 0x20,
                     wp_ext_key_len = (if wa_key a \<noteq> None then of_nat (wa_key_len a) else 0),
                     wp_key = k\<rparr>
            in Some (0, snd (tm_send e 2 76 (TmWapi p) s))
        | _ \<Rightarrow> None)"

definition wpa_driver_nl80211_send_msg :: "int \<Rightarrow> int" where
  "wpa_driver_nl80211_send_msg msg_in_len = (if 1024 < msg_in_len then - 1 else 0)"

section \<open>Country\<close>

definition IFNAMSIZ :: nat where "IFNAMSIZ = 16"

definition wpa_driver_mediatek_set_country :: "wenv \<Rightarrow> string \<Rightarrow> wst \<Rightarrow> int \<times> wst" where
  "wpa_driver_mediatek_set_country e alpha2 s =
     (if \<not> socket_ok e then (- 1, s)
      else
        let ifn = (if c_tc1 e \<and> begins ''p2p0'' (first_ifname e) then ''wlan0'' else take (IFNAMSIZ - 1) (first_ifname e));
            s' = emit (IwPriv ifn (take 10 (''COUNTRY '' @ alpha2))) s;
            r = iw_result e (wevs s')
        in (if r < 0 then r else 0, s'))"

text \<open>Every interface hears of the new country, its two letters from the text of the command.\<close>

definition wpa_driver_notify_country_change :: "string \<Rightarrow> wst \<Rightarrow> wst" where
  "wpa_driver_notify_country_change cmd s =
     (if begins_ci ''COUNTRY'' cmd then
        let (a, b) = (if 9 < length cmd then (cmd ! 8, cmd ! 9) else (CHR 0x00, CHR 0x00))
        in foldl (\<lambda>s i. emit (ChannelListChanged i a b) s) s [0..<length (wifaces s)]
      else s)"

section \<open>Statistics of a station\<close>

definition mtk_p2p_get_device :: "(byte list \<times> byte list) list \<Rightarrow> byte list \<Rightarrow> (byte list \<times> byte list) option" where
  "mtk_p2p_get_device devs addr = find (\<lambda>d. fst d = addr) devs"

definition zero_addr :: "byte list \<Rightarrow> bool" where
  "zero_addr a = (a = replicate 6 0)"

text \<open>The interface address to ask for instead of the device address.\<close>

definition wpas_p2p_get_sta_mac :: "wenv \<Rightarrow> byte list \<Rightarrow> byte list option" where
  "wpas_p2p_get_sta_mac e org =
     (if \<not> has_p2p e then None
      else
        case cur_mode e of
          None \<Rightarrow> None
        | Some mode \<Rightarrow>
            case mtk_p2p_get_device (p2p_devices e) org of
              None \<Rightarrow> None
            | Some (dev, ifa) \<Rightarrow>
                if mode = MODE_INFRA \<and> dev \<noteq> cur_bssid e \<and> \<not> zero_addr (cur_bssid e) then Some (cur_bssid e)
                else if dev \<noteq> ifa \<and> \<not> zero_addr ifa then Some ifa else None)"

definition wpas_get_sta_statistics :: "wenv \<Rightarrow> byte list \<Rightarrow> sta_statistics \<Rightarrow> wst \<Rightarrow> int \<times> sta_statistics \<times> wst" where
  "wpas_get_sta_statistics e addr st s =
     (case wpa_driver_nl80211_testmode e (hdr_index 0x10) 32 (TmStatistics addr) (StatsBuf st) s of
        (r, StatsBuf st', s') \<Rightarrow> (r, st', s')
      | (r, _, s') \<Rightarrow> (r, st, s'))"

definition wpa_driver_get_sta_statistics :: "wenv \<Rightarrow> string \<Rightarrow> string \<Rightarrow> wst \<Rightarrow> int \<times> string \<times> wst" where
  "wpa_driver_get_sta_statistics e addr buf s =
     (case hwaddr_aton e addr of
        None \<Rightarrow> (- 1, buf, s)
      | Some a \<Rightarrow>
          let mac = (case wpas_p2p_get_sta_mac e a of None \<Rightarrow> a | Some m \<Rightarrow> m);
              (r, st, s') = wpas_get_sta_statistics e mac sta_zero s
          in if r < 0 then (- 1, buf, s')
             else let (n, buf') = print_sta_statistics st buf in (int n, buf', s'))"

section \<open>Lemmas\<close>

lemma emit_simps [simp]:
  "wevs (emit v s) = wevs s @ [v]" "drv_errors (emit v s) = drv_errors s"
  by (simp_all add: emit_def)

lemma BITS_23: "BITS 0 23 = 0xFFFFFF"
  by (simp add: BITS_def push_bit_eq_mult)

lemma hdr_index_masked: "hdr_index 0x10 AND BITS 0 23 = 0x10" "hdr_index 0x30 AND BITS 0 23 = 0x30"
  by (simp_all add: BITS_23 hdr_index_def push_bit_eq_mult)

lemma tm_send_refused: "\<not> (tm_alloc e (wevs s) \<and> tm_put e (wevs s)) \<Longrightarrow> snd (tm_send e i n tp s) = s"
  by (auto simp: tm_send_def wpa_driver_nl80211_testmode_def)

lemma tm_send_done:
  "tm_alloc e (wevs s) \<Longrightarrow> tm_put e (wevs s) \<Longrightarrow>
   tm_send e i n tp s =
     (tm_result e (wevs s @ [TestMode (hdr_index i) n tp]), emit (TestMode (hdr_index i) n tp) s)"
  by (simp add: tm_send_def wpa_driver_nl80211_testmode_def Let_def)

text \<open>Asking for the channels when messages can be made.\<close>

lemma lte_channels_answer:
  assumes "c_lte_coex e" "tm_alloc e (wevs s)" "tm_put e (wevs s)"
  shows "wpa_driver_get_lte_available_channels e c s =
    (let s' = emit (TestMode (hdr_index 0x30) 16 TmAvailable) s
     in (tm_result e (wevs s'), testmode_available_channel_handler (tm_chans e (wevs s')) c, s'))"
  using assms
  by (simp add: wpa_driver_get_lte_available_channels_def wpa_driver_nl80211_testmode_def hdr_index_masked Let_def)

section \<open>The automatic choice of a channel\<close>

text \<open>
  The kernel's side: what has happened when it has been asked once more, what the mask of the 2.4 GHz
  channels is afterwards (0 when no message could be made, nothing came back or an attribute was too
  short), and what has happened before the k-th question.
\<close>

definition acs_asked :: "wenv \<Rightarrow> wev list \<Rightarrow> wev list" where
  "acs_asked e evs =
     (if tm_alloc e evs \<and> tm_put e evs then evs @ [TestMode (hdr_index 0x30) 16 TmAvailable] else evs)"

definition acs_mask :: "wenv \<Rightarrow> wev list \<Rightarrow> 32 word" where
  "acs_mask e evs =
     (if tm_alloc e evs \<and> tm_put e evs \<and> c_lte_coex e then
        (case tm_chans e (acs_asked e evs) of
           None \<Rightarrow> 0
         | Some f \<Rightarrow>
             if list_ex (\<lambda>a. case f a of None \<Rightarrow> False | Some bs \<Rightarrow> length bs < 4)
                  [CHAN_2G_BASE_1, CHAN_5G_BASE_36, CHAN_5G_BASE_52, CHAN_5G_BASE_100, CHAN_5G_BASE_149] then 0
             else (case f CHAN_2G_BASE_1 of None \<Rightarrow> 0 | Some bs \<Rightarrow> nla_get_u32 bs))
      else 0)"

fun acs_before :: "wenv \<Rightarrow> wev list \<Rightarrow> nat \<Rightarrow> wev list" where
  "acs_before e evs 0 = evs"
| "acs_before e evs (Suc k) = acs_before e (acs_asked e evs @ [OsSleep]) k"

lemma acs_answer:
  "\<exists>r c s'. wpa_driver_get_lte_available_channels e no_chans s = (r, c, s')
    \<and> ch_2g_base1 c = acs_mask e (wevs s) \<and> wevs s' = acs_asked e (wevs s)"
proof (cases "tm_alloc e (wevs s) \<and> tm_put e (wevs s)")
  case False
  then show ?thesis
    by (auto simp: wpa_driver_get_lte_available_channels_def wpa_driver_nl80211_testmode_def acs_mask_def acs_asked_def
        no_chans_def)
next
  case True
  then show ?thesis
    by (auto simp: wpa_driver_get_lte_available_channels_def wpa_driver_nl80211_testmode_def hdr_index_masked Let_def
        acs_mask_def acs_asked_def testmode_available_channel_handler_def chan_value_def no_chans_def not_less
        split: option.splits)
qed

lemma acs_poll_finds:
  "case find (\<lambda>k. bit (acs_mask e (acs_before e (wevs s) k)) 31) [0..<Suc n] of
      None \<Rightarrow> fst (acs_poll e n s) = None \<and> wevs (snd (acs_poll e n s)) = acs_asked e (acs_before e (wevs s) n)
    | Some k \<Rightarrow> fst (acs_poll e n s) = Some (acs_mask e (acs_before e (wevs s) k))
        \<and> wevs (snd (acs_poll e n s)) = acs_asked e (acs_before e (wevs s) k)"
proof (induction n arbitrary: s)
  case 0
  obtain r c s' where a: "wpa_driver_get_lte_available_channels e no_chans s = (r, c, s')"
      "ch_2g_base1 c = acs_mask e (wevs s)" "wevs s' = acs_asked e (wevs s)"
    using acs_answer by blast
  have "acs_poll e 0 s = (if bit (acs_mask e (wevs s)) 31 then (Some (acs_mask e (wevs s)), s') else (None, s'))"
    using a by (subst acs_poll.simps) simp
  then show ?case using a(3) by simp
next
  case (Suc n)
  obtain r c s' where a: "wpa_driver_get_lte_available_channels e no_chans s = (r, c, s')"
      "ch_2g_base1 c = acs_mask e (wevs s)" "wevs s' = acs_asked e (wevs s)"
    using acs_answer by blast
  let ?P = "\<lambda>k. bit (acs_mask e (acs_before e (wevs s) k)) 31"
  have u: "[0..<Suc (Suc n)] = 0 # map Suc [0..<Suc n]" by (simp add: upt_conv_Cons map_Suc_upt del: upt_Suc)
  have f: "find P (map Suc xs) = map_option Suc (find (\<lambda>k. P (Suc k)) xs)" for P xs by (induction xs) auto
  have p: "acs_poll e (Suc n) s =
      (if ?P 0 then (Some (acs_mask e (wevs s)), s') else acs_poll e n (emit OsSleep s'))"
    using a by (subst acs_poll.simps) simp
  have w: "wevs (emit OsSleep s') = acs_asked e (wevs s) @ [OsSleep]" using a(3) by simp
  show ?case
  proof (cases "?P 0")
    case True
    then show ?thesis unfolding p u using a(3) by simp
  next
    case False
    then show ?thesis
      unfolding p u using Suc.IH[of "emit OsSleep s'", unfolded w] by (auto simp: f split: option.splits simp del: upt_Suc)
  qed
qed

lemma channels_of_hd:
  "hd (channels_of w @ [0]) = (case find (bit w) [0..<14] of None \<Rightarrow> 0 | Some i \<Rightarrow> i + 1)"
proof -
  have "hd (map (\<lambda>i. i + 1) (filter P xs) @ [0]) = (case find P xs of None \<Rightarrow> 0 | Some i \<Rightarrow> i + 1)"
    for P and xs :: "nat list"
    by (induction xs) simp_all
  then show ?thesis by (simp add: channels_of_def)
qed

text \<open>
  C33: The automatic choice of a channel asks the driver at most six times, with a sleep between two
  questions, until the first answer whose 2.4 GHz mask is complete (bit 31), and chooses the lowest
  channel of that mask; it is 0 when the mask has none of the 14 channels or no answer was complete.  What
  the driver answers, the other masks included, and which messages fail is arbitrary.
\<close>

theorem acs_lowest_channel:
  "case find (\<lambda>k. bit (acs_mask e (acs_before e (wevs s) k)) 31) [0..<6] of
      None \<Rightarrow> fst (wpa_driver_do_mtk_acs e s) = 0
        \<and> wevs (snd (wpa_driver_do_mtk_acs e s)) = acs_asked e (acs_before e (wevs s) 5)
    | Some k \<Rightarrow>
        fst (wpa_driver_do_mtk_acs e s) =
          of_nat (case find (bit (acs_mask e (acs_before e (wevs s) k))) [0..<14] of None \<Rightarrow> 0 | Some i \<Rightarrow> i + 1)
        \<and> wevs (snd (wpa_driver_do_mtk_acs e s)) = acs_asked e (acs_before e (wevs s) k)"
proof -
  have i: "[0..<Suc 5] = [0..<6]" by simp
  obtain o' s' where p: "acs_poll e 5 s = (o', s')" by (cases "acs_poll e 5 s")
  show ?thesis
  proof (cases "find (\<lambda>k. bit (acs_mask e (acs_before e (wevs s) k)) 31) [0..<6]")
    case None
    then have "o' = None" "wevs s' = acs_asked e (acs_before e (wevs s) 5)"
      using acs_poll_finds[where e = e and s = s and n = 5, unfolded i None p] by simp_all
    then show ?thesis by (simp only: None option.case wpa_driver_do_mtk_acs_def p prod.case fst_conv snd_conv)
  next
    case (Some k)
    then have "o' = Some (acs_mask e (acs_before e (wevs s) k))" "wevs s' = acs_asked e (acs_before e (wevs s) k)"
      using acs_poll_finds[where e = e and s = s and n = 5, unfolded i Some p] by simp_all
    then show ?thesis
      by (simp only: Some option.case wpa_driver_do_mtk_acs_def p prod.case fst_conv snd_conv channels_of_hd)
  qed
qed

text \<open>A world in which every call succeeds and the driver answers nothing.\<close>

definition wenv0 :: wenv where
  "wenv0 = \<lparr>c_hotspot = True, c_lte_coex = True, c_wapi = True, c_wfd_sink = True, c_sigma = True, c_tc1 = False,
     long_bits = 64, MAX_DRV_CMD_SIZE = 248, DRV_NUMBER_SEQUENTIAL_ERRORS = 4, sizeof_wfd_data_s = 464,
     bss_ifname = ''wlan0'', first_ifname = ''wlan0'', has_drv = True, has_ctx = True, has_conf = True,
     has_drv_priv = True, has_p2p = True, has_p2p_cfg = True, associated = False,
     own_addr = [2, 0, 0, 0, 0, 1], cur_bssid = replicate 6 0, cur_mode = None, p2p_devices = [],
     conf_oper_reg_class = 0, conf_oper_channel = 0, cfg_channels = [], radio_ifaces = [], calloc_ok = True,
     hwaddr_aton = (\<lambda>_. Some [2, 0, 0, 0, 0, 2]), os_random = 7,
     wapi_in = \<lparr>wa_addr = None, wa_key_idx = 0, wa_set_tx = True, wa_seq = None, wa_seq_len = 0,
       wa_key = None, wa_key_len = 0\<rparr>,
     wapi_msg_len = 0,
     wfd_in = \<lparr>WfdCmdType = 0, WfdEnable = 1, WfdCoupleSinkStatus = 0, WfdSessionAvailable = 0, WfdSigmaMode = 0,
       WfdDevInfo = 0, WfdControlPort = 0, WfdMaximumTp = 0, WfdExtendCap = 0, WfdCoupleSinkAddress = [],
       WfdAssociatedBssid = [], WfdVideoIp = [], WfdAudioIp = [], WfdVideoPort = 0, WfdAudioPort = 0,
       WfdFlag = 0, WfdPolicy = 0, WfdState = 0, WfdSessionInformationIE = [], WfdSessionInformationIELen = 0,
       WfdPrimarySinkMac = [], WfdSecondarySinkMac = [], WfdAdvancedFlag = 0, WfdLocalIp = []\<rparr>,
     socket_ok = True, tm_alloc = (\<lambda>_. True), tm_put = (\<lambda>_. True), tm_result = (\<lambda>_. 0),
     tm_stats = (\<lambda>_. None), tm_chans = (\<lambda>_. None), iw_result = (\<lambda>_. 0), flags_result = (\<lambda>_. 0),
     priv_result = (\<lambda>_. 0)\<rparr>"

definition wst0 :: wst where
  "wst0 = \<lparr>drv_errors = 0, dev_capab = 0, op_channel = 0, op_reg_class = 0, p2p_channels = [],
     cfg_op_channel = 0, concurrent_operations = 0, wifaces = [(0, False)], wevs = []\<rparr>"

text \<open>A driver whose third answer is complete and has the channels 6 and 11; it also names channels of 5 GHz.\<close>

definition acs_env :: wenv where
  "acs_env = wenv0\<lparr>tm_chans := (\<lambda>evs. Some (\<lambda>a.
     if a = CHAN_2G_BASE_1 then Some (le32 (if length evs = 5 then 0x80000420 else 0x00000020))
     else if a = CHAN_5G_BASE_36 then Some (le32 1) else None))\<rparr>"

theorem acs_lowest_channel_witness: "fst (wpa_driver_do_mtk_acs acs_env wst0) = 6"
proof -
  have m: "acs_mask acs_env evs = (if length evs = 4 then 0x80000420 else 0x00000020)" for evs
    by (simp add: acs_mask_def acs_asked_def acs_env_def wenv0_def nla_get_u32_def)
  have b: "length (acs_before acs_env evs k) = length evs + 2 * k" for evs k
    by (induction k arbitrary: evs) (simp_all add: acs_asked_def acs_env_def wenv0_def)
  have f: "find (\<lambda>k. bit (acs_mask acs_env (acs_before acs_env (wevs wst0) k)) 31) [0..<6] = Some 2"
    by (simp add: m b wst0_def upt_rec numeral_eq_Suc)
  have g: "find (bit (acs_mask acs_env (acs_before acs_env (wevs wst0) 2))) [0..<14] = Some 5"
    by (simp add: m b wst0_def upt_rec)
  show ?thesis using acs_lowest_channel[of acs_env wst0] unfolding f option.case g by simp
qed

end
