(* ===== verification/Wpa_P2p.thy ===== *)
theory Wpa_P2p
  imports Wpa_World
begin

text \<open>
  The P2P part of the driver library: operating classes and channels, one or several concurrent
  channels, the frequencies the interfaces of a radio use, capabilities, the notice of absence and
  power save, the display data, and the commands of the conformance tests.
\<close>

section \<open>Frequencies\<close>

text \<open>The operating class and the channel; \<open>None\<close> is the result -1, which leaves both alone.\<close>

definition priv_p2p_freq_to_channel :: "nat \<Rightarrow> (byte \<times> byte) option" where
  "priv_p2p_freq_to_channel freq =
     (if 2412 \<le> freq \<and> freq \<le> 2472 then
        (if (freq - 2407) mod 5 \<noteq> 0 then None else Some (81, of_nat ((freq - 2407) div 5)))
      else if freq = 2484 then Some (82, 14)
      else if 5180 \<le> freq \<and> freq \<le> 5240 then
        (if (freq - 5000) mod 5 \<noteq> 0 then None else Some (115, of_nat ((freq - 5000) div 5)))
      else if 5260 \<le> freq \<and> freq \<le> 5320 then Some (118, of_nat ((freq - 5000) div 5))
      else if 5500 \<le> freq \<and> freq \<le> 5700 then Some (121, of_nat ((freq - 5000) div 5))
      else if 5745 \<le> freq \<and> freq \<le> 5805 then
        (if (freq - 5000) mod 5 \<noteq> 0 then None else Some (124, of_nat ((freq - 5000) div 5)))
      else if 5825 \<le> freq \<and> freq \<le> 5845 then Some (125, of_nat ((freq - 5000) div 5))
      else None)"

text \<open>Only the entries in use of the tables of channels are kept.\<close>

definition p2p_wfd_sink_config_scc :: "wenv \<Rightarrow> bool \<Rightarrow> 32 word \<Rightarrow> wst \<Rightarrow> wst" where
  "p2p_wfd_sink_config_scc e scc oper_freq s =
     (if \<not> has_p2p e then s
      else if scc \<and> oper_freq \<noteq> 0 then
        let (cls, ch) = (case priv_p2p_freq_to_channel (unat oper_freq) of None \<Rightarrow> (0, 0) | Some x \<Rightarrow> x)
        in s\<lparr>op_channel := ch, op_reg_class := cls, p2p_channels := [(cls, [ch])]\<rparr>
      else if conf_oper_reg_class e \<noteq> 0 \<and> conf_oper_channel e \<noteq> 0 then
        s\<lparr>op_reg_class := conf_oper_reg_class e, op_channel := conf_oper_channel e, cfg_op_channel := 1,
          p2p_channels := cfg_channels e\<rparr>
      else
        s\<lparr>op_reg_class := 81, op_channel := ucast (1 + (os_random e mod 3) * 5), cfg_op_channel := 0,
          p2p_channels := cfg_channels e\<rparr>)"

section \<open>Shared frequencies\<close>

datatype freq_flag = FREQ_NONE | FREQ_USED_BY_P2P_CLIENT | FREQ_USED_BY_INFRA_STATION

text \<open>The position of a frequency among those found, or the end.\<close>

fun freq_pos :: "int \<Rightarrow> (int \<times> freq_flag) list \<Rightarrow> nat" where
  "freq_pos f [] = 0"
| "freq_pos f (x # xs) = (if fst x = f then 0 else Suc (freq_pos f xs))"

text \<open>The frequency an interface uses; for a client it is asked whether the driver knows its access point.\<close>

definition iface_freq :: "radio_if \<Rightarrow> int option" where
  "iface_freq r =
     (case rif_ssid r of
        None \<Rightarrow> None
      | Some (mode, f, grp) \<Rightarrow>
          if rif_assoc_freq r = 0 then None
          else if mode = MODE_AP \<or> mode = MODE_P2P_GO then Some f
          else if rif_bssid_ok r then Some (rif_assoc_freq r) else None)"

text \<open>A client marks the entry of its frequency.\<close>

definition mark_client :: "radio_if \<Rightarrow> nat \<Rightarrow> (int \<times> freq_flag) list \<Rightarrow> (int \<times> freq_flag) list" where
  "mark_client r i fs =
     (case rif_ssid r of
        Some (MODE_INFRA, f, grp) \<Rightarrow>
          fs[i := (fst (fs ! i), if grp then FREQ_USED_BY_P2P_CLIENT else FREQ_USED_BY_INFRA_STATION)]
      | _ \<Rightarrow> fs)"

text \<open>The first \<open>idx\<close> entries of the array are the list; the others are zero.\<close>

fun shared_freqs :: "nat \<Rightarrow> radio_if list \<Rightarrow> (int \<times> freq_flag) list \<Rightarrow> (int \<times> freq_flag) list" where
  "shared_freqs len [] fs = fs"
| "shared_freqs len (r # rs) fs =
     (if length fs = len then fs
      else
        case iface_freq r of
          None \<Rightarrow> shared_freqs len rs fs
        | Some freq \<Rightarrow>
            let i = freq_pos freq fs
            in shared_freqs len rs
                 (mark_client r i (if i = length fs then fs @ [(freq, FREQ_NONE)] else fs)))"

definition mtk_get_shared_radio_freqs_data :: "wenv \<Rightarrow> nat \<Rightarrow> (int \<times> freq_flag) list" where
  "mtk_get_shared_radio_freqs_data e len = shared_freqs len (radio_ifaces e) []"

text \<open>The number of frequencies, -1 without memory, and the array of the caller.\<close>

definition mtk_get_shared_radio_freqs :: "wenv \<Rightarrow> nat \<Rightarrow> int \<times> int list" where
  "mtk_get_shared_radio_freqs e len =
     (if \<not> calloc_ok e then (- 1, replicate len 0)
      else let fs = mtk_get_shared_radio_freqs_data e len
           in (int (length fs), map fst fs @ replicate (len - length fs) 0))"

text \<open>One shared frequency decides between a single channel and several.\<close>

definition follow_station :: "bool \<Rightarrow> wenv \<Rightarrow> wst \<Rightarrow> wst" where
  "follow_station is_unsigned e s =
     (let (num, fs) = mtk_get_shared_radio_freqs e 1
      in if 0 < num \<and> (if is_unsigned then (word_of_int (fs ! 0) :: 32 word) \<noteq> 0 else 0 < fs ! 0) then p2p_wfd_sink_config_scc e True (word_of_int (fs ! 0)) s
         else p2p_wfd_sink_config_scc e False 0 s)"

section \<open>Words of a command\<close>

text \<open>
  The words between blanks and line ends, empty ones included; a separator at the very end opens no
  further word.  \<open>cur\<close> is the word being read.
\<close>

fun tokenize_space :: "string \<Rightarrow> string \<Rightarrow> string list" where
  "tokenize_space cur [] = [cur]"
| "tokenize_space cur (c # cs) =
     (if c = CHR 0x0A \<or> c = CHR '' '' then (if cs = [] then [cur] else cur # tokenize_space [] cs)
      else tokenize_space (cur @ [c]) cs)"

text \<open>The vector of the callers has 64 places; \<open>None\<close> is a write behind it.\<close>

definition ARGV_SIZE :: nat where "ARGV_SIZE = 64"

definition cmd_argv :: "string \<Rightarrow> string list option" where
  "cmd_argv cmd = (let ws = tokenize_space [] cmd in if ARGV_SIZE < length ws then None else Some ws)"

definition p2p_ctrl_iface_set_noa :: "wenv \<Rightarrow> string \<Rightarrow> wst \<Rightarrow> (int \<times> wst) option" where
  "p2p_ctrl_iface_set_noa e cmd s =
     (case cmd_argv cmd of None \<Rightarrow> None
      | Some argv \<Rightarrow>
          if length argv \<noteq> 4 then Some (- 1, s)
          else Some (tm_send e 1 28 (TmNoa 4 0 (word_of_int (c_atoi (argv ! 1))) (word_of_int (c_atoi (argv ! 2)))
                       (word_of_int (c_atoi (argv ! 3)))) s))"

definition p2p_ctrl_iface_set_ps :: "wenv \<Rightarrow> string \<Rightarrow> wst \<Rightarrow> (int \<times> wst) option" where
  "p2p_ctrl_iface_set_ps e cmd s =
     (case cmd_argv cmd of None \<Rightarrow> None
      | Some argv \<Rightarrow>
          if length argv \<noteq> 4 then Some (- 1, s)
          else
            let enable = c_atoi (argv ! 2); ctw = word_of_int (c_atoi (argv ! 3)) :: 32 word
            in Some (tm_send e 1 16 (TmSigma 107 (if enable \<noteq> 0 then ctw OR push_bit 7 1 else ctw)) s))"

section \<open>Wi-Fi display\<close>

text \<open>\<open>None\<close>: the length of the session information exceeds its array.\<close>

definition wpas_wfd_data_update :: "wenv \<Rightarrow> wfd_data \<Rightarrow> wst \<Rightarrow> (int \<times> wst) option" where
  "wpas_wfd_data_update e d s =
     (case copy_in 192 (Some (WfdSessionInformationIE d)) (unat (WfdSessionInformationIELen d)) of
        None \<Rightarrow> None
      | Some ie \<Rightarrow> Some (tm_send e 2 (sizeof_wfd_data_s e) (TmWfd (d\<lparr>WfdSessionInformationIE := ie\<rparr>)) s))"

definition p2p_get_capability :: "string \<Rightarrow> string \<Rightarrow> wst \<Rightarrow> int \<times> string" where
  "p2p_get_capability cmd buf s =
     (if begins ''p2p_dev_capa'' cmd then
        let t = ''p2p_dev_capa='' @ show_nat (unat (dev_capab s)) @ [CHR 0x0A]
        in (int (length t), snprintf_at buf 0 t)
      else if begins ''p2p_group_capa'' cmd then (- 1, buf)
      else (0, buf))"

definition p2p_set_capability :: "string \<Rightarrow> wst \<Rightarrow> int \<times> wst" where
  "p2p_set_capability cmd s =
     (if begins ''p2p_dev_capa '' cmd then
        (0, s\<lparr>dev_capab := word_of_int (c_atoi (drop (length ''p2p_dev_capa '') cmd))\<rparr>)
      else if begins ''p2p_group_capa '' cmd then (- 1, s)
      else (0, s))"

section \<open>Conformance tests\<close>

definition wpas_p2p_sigma_test_mode :: "wenv \<Rightarrow> int \<Rightarrow> int \<Rightarrow> wst \<Rightarrow> int \<times> wst" where
  "wpas_p2p_sigma_test_mode e idx val s = tm_send e 1 16 (TmSigma (word_of_int idx) (word_of_int val)) s"

text \<open>What \<open>strchr(s, ' ')\<close> leaves behind the blank, if there is one.\<close>

definition after_blank :: "string \<Rightarrow> string option" where
  "after_blank t =
     (case dropWhile (\<lambda>c. c \<noteq> CHR '' '') t of [] \<Rightarrow> None | c # r \<Rightarrow> Some r)"

text \<open>Without a blank the second search starts at a NULL pointer: \<open>None\<close>.\<close>

definition p2p_ctrl_iface_set_opps :: "wenv \<Rightarrow> string \<Rightarrow> wst \<Rightarrow> (int \<times> wst) option" where
  "p2p_ctrl_iface_set_opps e cmd s =
     (case after_blank cmd of
        None \<Rightarrow> None
      | Some r \<Rightarrow>
          if hwaddr_aton e r = None then Some (- 1, s)
          else Some (0, snd (wpas_p2p_sigma_test_mode e 107 (c_atoi cmd) s)))"

definition p2p_ctrl_iface_set_power_save :: "wenv \<Rightarrow> string \<Rightarrow> wst \<Rightarrow> int \<times> wst" where
  "p2p_ctrl_iface_set_power_save e cmd s =
     (0, snd (wpas_p2p_sigma_test_mode e 108 (c_atoi cmd) s))"

definition p2p_ctrl_iface_set_sleep :: "wenv \<Rightarrow> string \<Rightarrow> wst \<Rightarrow> int \<times> wst" where
  "p2p_ctrl_iface_set_sleep e cmd s =
     (if hwaddr_aton e cmd = None then (- 1, s)
      else (0, snd (wpas_p2p_sigma_test_mode e 106 0 s)))"

section \<open>Lemmas\<close>

lemma freq_pos_length: "freq_pos f fs \<le> length fs" "freq_pos f fs = length fs \<longleftrightarrow> f \<notin> fst ` set fs"
  by (induction fs) auto

lemma mark_client_fst [simp]: "i < length fs \<Longrightarrow> map fst (mark_client r i fs) = map fst fs"
  by (auto simp: mark_client_def map_update list_update_same_conv split: option.splits wmode.splits)

text \<open>One round keeps the frequencies distinct and within the array, and adds only the one in use.\<close>

lemma shared_round:
  fixes fs :: "(int \<times> freq_flag) list" and freq :: int and r :: radio_if
  assumes "distinct (map fst fs)" "length fs < len"
  defines "i \<equiv> freq_pos freq fs"
  defines "fs' \<equiv> mark_client r i (if i = length fs then fs @ [(freq, FREQ_NONE)] else fs)"
  shows "distinct (map fst fs')" "length fs' \<le> len" "fst ` set fs' = insert freq (fst ` set fs)"
proof -
  have i: "i \<le> length fs" "i = length fs \<longleftrightarrow> freq \<notin> fst ` set fs"
    unfolding i_def by (rule freq_pos_length)+
  have m: "map fst fs' = (if i = length fs then map fst fs @ [freq] else map fst fs)"
    unfolding fs'_def using i(1) by auto
  show "distinct (map fst fs')" using assms(1) i(2) by (simp add: m)
  have "length (map fst fs') \<le> len" using assms(2) by (simp add: m)
  then show "length fs' \<le> len" by simp
  have "set (map fst fs') = insert freq (set (map fst fs))" using i(2) by (auto simp: m)
  then show "fst ` set fs' = insert freq (fst ` set fs)" by simp
qed

lemma shared_freqs_inv:
  assumes "distinct (map fst fs)" "length fs \<le> len"
  shows "distinct (map fst (shared_freqs len rs fs)) \<and> length (shared_freqs len rs fs) \<le> len
    \<and> fst ` set (shared_freqs len rs fs) \<subseteq> fst ` set fs \<union> {f. Some f \<in> iface_freq ` set rs}
    \<and> (length (shared_freqs len rs fs) = len
       \<or> fst ` set (shared_freqs len rs fs) = fst ` set fs \<union> {f. Some f \<in> iface_freq ` set rs})"
  using assms
proof (induction rs arbitrary: fs)
  case (Cons r rs)
  show ?case
  proof (cases "length fs = len")
    case True
    then show ?thesis using Cons.prems by auto
  next
    case False
    then have l: "length fs < len" using Cons.prems(2) by simp
    show ?thesis
    proof (cases "iface_freq r")
      case None
      have "{f. Some f \<in> iface_freq ` set (r # rs)} = {f. Some f \<in> iface_freq ` set rs}" using None by auto
      then show ?thesis using Cons.IH[OF Cons.prems] False None by simp
    next
      case (Some freq)
      let ?fs = "mark_client r (freq_pos freq fs)
        (if freq_pos freq fs = length fs then fs @ [(freq, FREQ_NONE)] else fs)"
      have s: "{f. Some f \<in> iface_freq ` set (r # rs)} = insert freq {f. Some f \<in> iface_freq ` set rs}"
        using Some by auto
      note rd = shared_round[OF Cons.prems(1) l, where freq = freq and r = r]
      have e: "shared_freqs len (r # rs) fs = shared_freqs len rs ?fs"
        using False Some by (simp add: Let_def)
      show ?thesis unfolding e s using Cons.IH[OF rd(1,2)] unfolding rd(3) by auto
    qed
  qed
qed simp

text \<open>
  C30: Whatever the interfaces of the radio, the frequencies found are pairwise different, at most as
  many as the array has places, each is used by an associated interface, and none in use is missing
  unless the array is full.
\<close>

theorem shared_freqs_distinct:
  "distinct (map fst (mtk_get_shared_radio_freqs_data e len))
   \<and> length (mtk_get_shared_radio_freqs_data e len) \<le> len
   \<and> fst ` set (mtk_get_shared_radio_freqs_data e len) \<subseteq> {f. Some f \<in> iface_freq ` set (radio_ifaces e)}
   \<and> (length (mtk_get_shared_radio_freqs_data e len) = len
      \<or> fst ` set (mtk_get_shared_radio_freqs_data e len) = {f. Some f \<in> iface_freq ` set (radio_ifaces e)})"
  using shared_freqs_inv[of "[]" len "radio_ifaces e"] by (simp add: mtk_get_shared_radio_freqs_data_def)

text \<open>
  The channel of a frequency and back; three of the ranges accept frequencies between the channels, and
  where the conversion fails the choice of a single channel goes to channel 0 of class 0.
\<close>

lemma freq_to_channel_back:
  assumes "priv_p2p_freq_to_channel freq = Some (cls, ch)"
  shows "freq \<in> (if cls = 81 then {2407 + 5 * unat ch} else if cls = 82 then {2484}
    else if cls = 115 \<or> cls = 124 then {5000 + 5 * unat ch} else {5000 + 5 * unat ch..<5005 + 5 * unat ch})"
proof -
  have u: "unat (of_nat n :: byte) = n" if "n < 256" for n using that by (simp add: unsigned_of_nat take_bit_eq_mod)
  have d: "x = c + 5 * ((x - c) div 5)" if "(x - c) mod 5 = 0" "c \<le> x" for x c :: nat
    using that by (metis add_diff_inverse_nat add_0_right mult_div_mod_eq not_less)
  have r: "c + 5 * ((x - c) div 5) \<le> x \<and> x < c + 5 + 5 * ((x - c) div 5)" if "c \<le> x" for x c :: nat
    using that by linarith
  show ?thesis
    using assms d[of freq 2407] d[of freq 5000] r[of 5000 freq]
    by (auto simp: priv_p2p_freq_to_channel_def u split: if_splits)
qed

lemma between_channels: "priv_p2p_freq_to_channel 5262 = Some (118, 52)"
  by (simp add: priv_p2p_freq_to_channel_def)

lemma unknown_frequency_channel_0:
  assumes "has_p2p e" "priv_p2p_freq_to_channel (unat freq) = None" "freq \<noteq> 0"
  shows "op_channel (p2p_wfd_sink_config_scc e True freq s) = 0"
  using assms by (simp add: p2p_wfd_sink_config_scc_def)

text \<open>Words that contain no separator.\<close>

definition plain_word :: "string \<Rightarrow> bool" where
  "plain_word w = list_all (\<lambda>c. c \<noteq> CHR 0x0A \<and> c \<noteq> CHR '' '') w"

lemma tokenize_word: "plain_word w \<Longrightarrow> tokenize_space cur w = [cur @ w]"
  by (induction w arbitrary: cur) (simp_all add: plain_word_def)

lemma tokenize_word_blank:
  "plain_word w \<Longrightarrow> rest \<noteq> [] \<Longrightarrow>
   tokenize_space cur (w @ CHR '' '' # rest) = (cur @ w) # tokenize_space [] rest"
  by (induction w arbitrary: cur) (simp_all add: plain_word_def)

lemma show_nat_plain_word: "plain_word (show_nat n)"
proof -
  have "digit_of (CHR 0x0A) = None" "digit_of (CHR '' '') = None" by (simp_all add: digit_of_def)
  then show ?thesis using show_nat_digits[of n] by (auto simp: plain_word_def list_all_iff)
qed

lemma show_int_plain_word: "plain_word (show_int i)"
  using show_nat_plain_word by (simp add: show_int_def plain_word_def)

lemma show_int_not_Nil: "show_int i \<noteq> []"
  by (simp add: show_int_def)

text \<open>The words of a command with three numbers.\<close>

lemma argv_of_numbers:
  assumes "plain_word w"
  shows "cmd_argv (w @ CHR '' '' # show_int a @ CHR '' '' # show_int b @ CHR '' '' # show_int c) =
    Some [w, show_int a, show_int b, show_int c]"
proof -
  have "tokenize_space [] (w @ CHR '' '' # show_int a @ CHR '' '' # show_int b @ CHR '' '' # show_int c) =
      [w, show_int a, show_int b, show_int c]"
    using assms
    by (simp add: tokenize_word_blank tokenize_word show_int_plain_word show_int_not_Nil)
  then show ?thesis by (simp add: cmd_argv_def ARGV_SIZE_def)
qed

end
