(* ===== verification/Wpa_Cmd.thy ===== *)
theory Wpa_Cmd
  imports Wpa_P2p
begin

text \<open>
  \<open>wpa_driver_nl80211_driver_cmd\<close>, the dispatcher of the supplicant's driver commands: the chain of
  comparisons in the order of the code, cut into groups that hand on to the rest of the chain, and the
  private ioctl behind it.
\<close>

section \<open>Results of a branch\<close>

text \<open>
  The value of \<open>ret\<close>, \<open>handled\<close>, the text of the command (one branch rewrites it), the caller's buffer
  and the state.  \<open>None\<close>: an access outside an array or through a pointer that points to nothing.
\<close>

type_synonym cmdres = "(int \<times> bool \<times> string \<times> string \<times> wst) option"

text \<open>For the interface \<open>ap0\<close> the pointer \<open>wpa_s\<close> is never set, but used.\<close>

definition with_wpa :: "wenv \<Rightarrow> cmdres \<Rightarrow> cmdres" where
  "with_wpa e r = (if bss_ifname e = ''ap0'' then None else r)"

section \<open>Basic commands\<close>

definition cmd_country :: "wenv \<Rightarrow> string \<Rightarrow> string \<Rightarrow> wst \<Rightarrow> cmdres" where
  "cmd_country e cmd buf s =
     (if length cmd \<noteq> length ''COUNTRY'' + 3 then Some (0, True, cmd, buf, s)
      else
        let (r, s') = wpa_driver_mediatek_set_country e (drop 8 cmd) s
        in if r = 0 then with_wpa e (Some (r, True, cmd, buf, wpa_driver_notify_country_change cmd s'))
           else Some (r, True, cmd, buf, s'))"

text \<open>Switching the interface, and the message when it has worked.\<close>

definition set_iface :: "wenv \<Rightarrow> bool \<Rightarrow> string \<Rightarrow> wst \<Rightarrow> int \<times> wst" where
  "set_iface e up msg s =
     (let s' = emit (IfaceFlags up) s; r = flags_result e (wevs s')
      in (r, if r \<noteq> 0 then s' else emit (WpaMsg msg) s'))"

definition cmd_stop :: "wenv \<Rightarrow> string \<Rightarrow> string \<Rightarrow> wst \<Rightarrow> cmdres" where
  "cmd_stop e cmd buf s =
     (let s1 = (if associated e then emit Deauthenticate s else s);
          (r, s2) = set_iface e False ''CTRL-EVENT-DRIVER-STATE STOPPED'' s1
      in if associated e then with_wpa e (Some (r, True, cmd, buf, s2)) else Some (r, True, cmd, buf, s2))"

text \<open>The number behind \<open>rxfilter-add\<close> or \<open>rxfilter-remove\<close>; \<open>-1\<close> when there is none.\<close>

definition cmd_rxfilter :: "wenv \<Rightarrow> string \<Rightarrow> 32 word \<Rightarrow> string \<Rightarrow> string \<Rightarrow> wst \<Rightarrow> cmdres" where
  "cmd_rxfilter e cp base cmd buf s =
     (let (v, rest) = c_strtol (long_bits e) 0 cp
      in if cp \<noteq> [] \<and> rest \<noteq> cp
         then Some (0, True, cmd, buf, wpa_driver_nl80211_driver_sw_cmd e True 0x9F000000 (word_of_int v + base) s)
         else Some (- 1, True, cmd, buf, s))"

definition cmd_basic :: "wenv \<Rightarrow> string \<Rightarrow> string \<Rightarrow> wst \<Rightarrow> cmdres \<Rightarrow> cmdres" where
  "cmd_basic e cmd buf s rest =
     (if begins_ci ''POWERMODE '' cmd then Some (- 1, True, cmd, buf, s)
      else if begins_ci ''GET_STA_STATISTICS '' cmd then
        (let (r, buf', s') = wpa_driver_get_sta_statistics e (drop 19 cmd) buf s
         in with_wpa e (Some (r, True, cmd, buf', s')))
      else if begins ''MACADDR'' cmd then
        (let t = ''Macaddr = '' @ macstr (own_addr e) @ [CHR 0x0A]
         in with_wpa e (Some (int (length t), True, cmd, snprintf_at buf 0 t, s)))
      else if begins_ci ''COUNTRY'' cmd then cmd_country e cmd buf s
      else if same_ci ''start'' cmd then
        (let (r, s') = set_iface e True ''CTRL-EVENT-DRIVER-STATE STARTED'' s in Some (r, True, cmd, buf, s'))
      else if same_ci ''stop'' cmd then cmd_stop e cmd buf s
      else if begins_ci ''getpower'' cmd then Some (- 1, True, cmd, buf, s)
      else if begins_ci ''rxfilter-add'' cmd then cmd_rxfilter e (drop 12 cmd) 0x00900200 cmd buf s
      else if begins_ci ''rxfilter-remove'' cmd then cmd_rxfilter e (drop 15 cmd) 0x00900300 cmd buf s
      else if begins_ci ''rxfilter-stop'' cmd then
        Some (0, True, cmd, buf, wpa_driver_nl80211_driver_sw_cmd e True 0x9F000000 0x00900000 s)
      else if begins_ci ''rxfilter-start'' cmd then
        Some (0, True, cmd, buf, wpa_driver_nl80211_driver_sw_cmd e True 0x9F000000 0x00900100 s)
      else if same_ci ''btcoexscan-start'' cmd then Some (0, True, cmd, buf, s)
      else if same_ci ''btcoexscan-stop'' cmd then Some (0, True, cmd, buf, s)
      else if begins_ci ''btcoexmode'' cmd then Some (0, True, cmd, buf, s)
      else rest)"

section \<open>Optional commands\<close>

definition cmd_hotspot :: "wenv \<Rightarrow> string \<Rightarrow> string \<Rightarrow> wst \<Rightarrow> cmdres \<Rightarrow> cmdres" where
  "cmd_hotspot e cmd buf s rest =
     (if \<not> c_hotspot e then rest
      else if begins ''STA-BLOCK '' cmd then
        (let (r, s') = wpa_driver_sta_block e (drop 10 cmd) s
         in Some (if r \<noteq> 0 then - 1 else 0, True, cmd, buf, s'))
      else if begins ''STA-UNBLOCK '' cmd then
        (let (r, s') = wpa_driver_sta_unblock e (drop 12 cmd) s
         in Some (if r \<noteq> 0 then - 1 else 0, True, cmd, buf, s'))
      else if begins_ci ''set_max_client '' cmd then
        Some (- 1, True, cmd, buf, snd (wpa_driver_set_max_client e (drop 15 cmd) s))
      else rest)"

definition cmd_acs :: "wenv \<Rightarrow> string \<Rightarrow> string \<Rightarrow> wst \<Rightarrow> cmdres \<Rightarrow> cmdres" where
  "cmd_acs e cmd buf s rest =
     (if c_lte_coex e \<and> begins ''MTK-ACS'' cmd then
        (let (ch, s') = wpa_driver_do_mtk_acs e s
         in if buf = [] then None else Some (1, True, cmd, buf[0 := char_of (unat ch)], s'))
      else rest)"

text \<open>
  The buffer of these two is read as a structure of pointers and numbers, of 48 and of 32 bytes; what they
  point to is part of the environment.
\<close>

definition sizeof_wapi_key_param :: nat where "sizeof_wapi_key_param = 8 + 4 + 4 + 8 + 8 + 8 + 8"
definition sizeof_wapi_msg_send_param :: nat where "sizeof_wapi_msg_send_param = 8 + (4 + 4) + 8 + 8"

definition cmd_wapi :: "wenv \<Rightarrow> string \<Rightarrow> string \<Rightarrow> wst \<Rightarrow> cmdres \<Rightarrow> cmdres" where
  "cmd_wapi e cmd buf s rest =
     (if \<not> c_wapi e then rest
      else if begins_ci ''set-wapi-key'' cmd then
        (if length buf < sizeof_wapi_key_param then None
         else case wpa_driver_nl80211_set_wapi_key e (wapi_in e) s of
                None \<Rightarrow> None
              | Some (r, s') \<Rightarrow> Some (r, True, cmd, buf, s'))
      else if begins_ci ''wapi-msg-send'' cmd then
        (if length buf < sizeof_wapi_msg_send_param then None
         else Some (wpa_driver_nl80211_send_msg (wapi_msg_len e), True, cmd, buf, s))
      else rest)"

text \<open>What follows the first occurrence of a text in another: \<open>strstr\<close>.\<close>

fun after_text :: "string \<Rightarrow> string \<Rightarrow> string option" where
  "after_text p [] = (if p = [] then Some [] else None)"
| "after_text p (c # cs) = (if begins p (c # cs) then Some (drop (length p) (c # cs)) else after_text p cs)"

definition cmd_miracast :: "wenv \<Rightarrow> string \<Rightarrow> string \<Rightarrow> wst \<Rightarrow> cmdres" where
  "cmd_miracast e cmd buf s =
     (let miracast = word_of_int (c_atoi (drop 9 cmd)) :: byte
      in if miracast = 0 \<or> miracast = 1 then with_wpa e (Some (- 1, False, cmd, buf, follow_station True e s))
         else if miracast = 2 then
           (case after_text '' freq='' cmd of
              Some p \<Rightarrow>
                with_wpa e (Some (- 1, False, ''MIRACAST 2'', buf,
                  p2p_wfd_sink_config_scc e True (word_of_int (c_atoi p)) s))
            | None \<Rightarrow> with_wpa e (Some (- 1, False, cmd, buf, follow_station True e s)))
         else Some (- 1, False, cmd, buf, s))"

definition cmd_wfd :: "wenv \<Rightarrow> string \<Rightarrow> string \<Rightarrow> wst \<Rightarrow> cmdres \<Rightarrow> cmdres" where
  "cmd_wfd e cmd buf s rest =
     (if \<not> c_wfd_sink e then rest
      else if begins ''p2p_get_cap '' cmd then
        with_wpa e
          (if has_p2p e then
             let (r, buf') = p2p_get_capability (drop 12 cmd) buf s in Some (r, True, cmd, buf', s)
           else Some (- 1, True, cmd, buf, s))
      else if begins ''p2p_set_cap '' cmd then
        with_wpa e
          (if has_p2p e then
             let (r, s') = p2p_set_capability (drop 12 cmd) s in Some (r, True, cmd, buf, s')
           else Some (- 1, True, cmd, buf, s))
      else if begins ''MIRACAST '' cmd then cmd_miracast e cmd buf s
      else if begins_ci ''p2p_use_mcc='' cmd then
        (let use_mcc = word_of_int (c_atoi (drop 12 cmd)) :: byte
         in with_wpa e (Some (- 1, True, cmd, buf,
              if use_mcc \<noteq> 0 then p2p_wfd_sink_config_scc e False 0 s else follow_station False e s)))
      else if begins ''wfd_data_update'' cmd then
        with_wpa e
          (if length buf < sizeof_wfd_data_s e then None
           else case wpas_wfd_data_update e (wfd_in e) s of
                  None \<Rightarrow> None
                | Some (r, s') \<Rightarrow> Some (r, True, cmd, buf, s'))
      else rest)"

text \<open>Every interface gets the concurrency; the configuration of P2P with it, if there is an interface.\<close>

definition set_mcc :: "wenv \<Rightarrow> bool \<Rightarrow> wst \<Rightarrow> wst" where
  "set_mcc e on s =
     s\<lparr>wifaces := map (\<lambda>_. if on then (2, True) else (0, False)) (wifaces s),
       concurrent_operations :=
         (if wifaces s \<noteq> [] \<and> has_p2p e \<and> has_p2p_cfg e then (if on then 1 else 0)
          else concurrent_operations s)\<rparr>"

definition cmd_sigma :: "wenv \<Rightarrow> string \<Rightarrow> string \<Rightarrow> wst \<Rightarrow> cmdres \<Rightarrow> cmdres" where
  "cmd_sigma e cmd buf s rest =
     (if \<not> c_sigma e then rest
      else if begins_ci ''mcc'' cmd then
        with_wpa e
          (if \<not> has_drv_priv e then Some (- 1, True, cmd, buf, s)
           else case after_blank cmd of
                  None \<Rightarrow> Some (- 1, True, cmd, buf, s)
                | Some v \<Rightarrow> Some (0, True, cmd, buf, set_mcc e (c_atoi v \<noteq> 0) s))
      else if begins ''p2p_set_opps '' cmd then
        with_wpa e
          (case p2p_ctrl_iface_set_opps e (drop 13 cmd) s of
             None \<Rightarrow> None
           | Some (r, s') \<Rightarrow> Some (r, True, cmd, buf, s'))
      else if begins ''p2p_set_power_save '' cmd then
        (let (r, s') = p2p_ctrl_iface_set_power_save e (drop 19 cmd) s
         in with_wpa e (Some (r, True, cmd, buf, s')))
      else if begins ''p2p_set_sleep '' cmd then
        (let (r, s') = p2p_ctrl_iface_set_sleep e (drop 14 cmd) s
         in with_wpa e (Some (r, True, cmd, buf, s')))
      else if begins ''p2p_set_sleep'' cmd then
        (let (r, s') = p2p_ctrl_iface_set_sleep e (''ff:ff:ff:ff:ff:ff '' @ [CHR 0x22, CHR 0x22]) s
         in with_wpa e (Some (r, True, cmd, buf, s')))
      else if begins_ci ''sigma_mode'' cmd then
        Some (if after_blank cmd = None then - 1 else 0, True, cmd, buf, s)
      else rest)"

section \<open>Commands for the driver\<close>

definition cmd_p2p :: "wenv \<Rightarrow> string \<Rightarrow> string \<Rightarrow> wst \<Rightarrow> cmdres \<Rightarrow> cmdres" where
  "cmd_p2p e cmd buf s rest =
     (if begins ''P2P_SET_NOA'' cmd then
        with_wpa e
          (case p2p_ctrl_iface_set_noa e cmd s of
             None \<Rightarrow> None
           | Some (r, s') \<Rightarrow> Some (r, True, cmd, buf, s'))
      else if begins ''P2P_SET_PS'' cmd then
        with_wpa e
          (case p2p_ctrl_iface_set_ps e cmd s of
             None \<Rightarrow> None
           | Some (r, s') \<Rightarrow> Some (r, True, cmd, buf, s'))
      else rest)"

text \<open>Eight hexadecimal digits at a position of the command.\<close>

definition hex_field :: "wenv \<Rightarrow> string \<Rightarrow> nat \<Rightarrow> 32 word" where
  "hex_field e cmd pos = word_of_int (fst (c_strtol (long_bits e) 16 (take 8 (drop pos cmd))))"

definition cmd_filter :: "wenv \<Rightarrow> string \<Rightarrow> string \<Rightarrow> wst \<Rightarrow> cmdres" where
  "cmd_filter e cmd buf s =
     (if length cmd \<noteq> 71 then Some (- 1, True, cmd, buf, s)
      else
        let (r, s') = tm_send e 103 32 (TmRxFilter (map (hex_field e cmd) [21, 29, 38, 46, 55, 63])) s
        in Some (r, True, cmd, buf, s'))"

text \<open>
  Everything else is sent as text.  The structure lies in an array of 100 bytes, but the length sent is
  8 and the whole text: \<open>None\<close> when bytes behind the array are sent.
\<close>

definition cmd_transparent :: "wenv \<Rightarrow> string \<Rightarrow> string \<Rightarrow> wst \<Rightarrow> cmdres" where
  "cmd_transparent e cmd buf s =
     (if tm_alloc e (wevs s) \<and> tm_put e (wevs s) \<and> 100 < 8 + length cmd then None
      else let (r, s') = tm_send e 102 (8 + length cmd) (TmStr cmd) s
           in Some (r, False, cmd, buf, s'))"

definition cmd_driver :: "wenv \<Rightarrow> string \<Rightarrow> string \<Rightarrow> wst \<Rightarrow> cmdres" where
  "cmd_driver e cmd buf s =
     (if begins_ci ''SETSUSPENDMODE '' cmd then
        let suspend = of_char ((cmd @ [CHR 0x00]) ! 15) - 48 :: byte;
            (r, s') = tm_send e 101 12 (TmSuspend suspend) s
        in Some (- 1, False, cmd, buf, s')
      else if begins_ci ''mtk_rx_packet_filter '' cmd then cmd_filter e cmd buf s
      else cmd_transparent e cmd buf s)"

section \<open>The private ioctl\<close>

definition PRIV_CMD_SIZE :: nat where "PRIV_CMD_SIZE = 512"

definition wpa_driver_send_hang_msg :: "wenv \<Rightarrow> wst \<Rightarrow> wst" where
  "wpa_driver_send_hang_msg e s =
     (let n = drv_errors s + 1
      in s\<lparr>drv_errors := if DRV_NUMBER_SEQUENTIAL_ERRORS e < n then 0 else n\<rparr>)"

text \<open>The answer of the driver stays in the structure of the ioctl; the caller's buffer has been cleared.\<close>

definition private_cmd :: "wenv \<Rightarrow> string \<Rightarrow> string \<Rightarrow> wst \<Rightarrow> int \<times> string \<times> wst" where
  "private_cmd e cmd buf s =
     (let clear = replicate (length buf) (CHR 0x00);
          cmd_len = (if PRIV_CMD_SIZE \<le> length cmd then PRIV_CMD_SIZE - 1 else length cmd);
          s' = emit (DevPrivate (take (IFNAMSIZ - 1) (bss_ifname e))
                       (take (cmd_len + 1) (cmd @ [CHR 0x00])) (cmd_len + 1)) s
      in if priv_result e (wevs s') < 0
         then (5, snprintf_at clear 0 (''FAIL'' @ [CHR 0x0A]), wpa_driver_send_hang_msg e s')
         else (if begins_ci ''WLS_BATCHING'' cmd then int (length (takeWhile (\<lambda>c. c \<noteq> CHR 0x00) clear)) else 0,
               clear, s'\<lparr>drv_errors := 0\<rparr>))"

section \<open>The dispatcher\<close>

definition cmd_chain :: "wenv \<Rightarrow> string \<Rightarrow> string \<Rightarrow> wst \<Rightarrow> cmdres" where
  "cmd_chain e cmd buf s =
     cmd_basic e cmd buf s (cmd_hotspot e cmd buf s (cmd_acs e cmd buf s (cmd_wapi e cmd buf s
       (cmd_wfd e cmd buf s (cmd_sigma e cmd buf s (cmd_p2p e cmd buf s (cmd_driver e cmd buf s)))))))"

definition wpa_driver_nl80211_driver_cmd :: "wenv \<Rightarrow> string \<Rightarrow> string \<Rightarrow> wst \<Rightarrow> (int \<times> string \<times> wst) option" where
  "wpa_driver_nl80211_driver_cmd e cmd buf s =
     (if \<not> has_drv e \<or> \<not> has_ctx e then Some (- 1, buf, s)
      else if bss_ifname e \<noteq> ''ap0'' \<and> \<not> has_conf e then Some (- 1, buf, s)
      else
        case cmd_chain e cmd buf s of
          None \<Rightarrow> None
        | Some (r, handled, cmd', buf', s') \<Rightarrow>
            if handled then Some (r, buf', s') else Some (private_cmd e cmd' buf' s'))"

text \<open>The entry points that make a command; its text is its buffer too.\<close>

definition wpa_driver_set_p2p_noa :: "wenv \<Rightarrow> byte \<Rightarrow> int \<Rightarrow> int \<Rightarrow> wst \<Rightarrow> (int \<times> wst) option" where
  "wpa_driver_set_p2p_noa e count start duration s =
     (let t = snd (c_snprintf (MAX_DRV_CMD_SIZE e) [] (''P2P_SET_NOA '' @ show_nat (unat count) @ '' ''
                @ show_int start @ '' '' @ show_int duration))
      in map_option (\<lambda>(r, _, s'). (r, s')) (wpa_driver_nl80211_driver_cmd e t (t @ [CHR 0x00]) s))"

definition wpa_driver_set_p2p_ps :: "wenv \<Rightarrow> int \<Rightarrow> int \<Rightarrow> int \<Rightarrow> wst \<Rightarrow> (int \<times> wst) option" where
  "wpa_driver_set_p2p_ps e legacy_ps opp_ps ctwindow s =
     (let t = snd (c_snprintf (MAX_DRV_CMD_SIZE e) [] (''P2P_SET_PS '' @ show_int legacy_ps @ '' ''
                @ show_int opp_ps @ '' '' @ show_int ctwindow))
      in map_option (\<lambda>(r, _, s'). (r, s')) (wpa_driver_nl80211_driver_cmd e t (t @ [CHR 0x00]) s))"

definition wpa_driver_get_p2p_noa :: int where "wpa_driver_get_p2p_noa = - 1"
definition wpa_driver_set_ap_wps_p2p_ie :: int where "wpa_driver_set_ap_wps_p2p_ie = 0"

section \<open>Lemmas\<close>

text \<open>The dispatcher works: there is a driver and, unless for \<open>ap0\<close>, a configuration.\<close>

definition ready :: "wenv \<Rightarrow> bool" where
  "ready e = (has_drv e \<and> has_ctx e \<and> (bss_ifname e = ''ap0'' \<or> has_conf e))"

definition messages_work :: "wenv \<Rightarrow> bool" where
  "messages_work e = (\<forall>evs. tm_alloc e evs \<and> tm_put e evs)"

lemma driver_cmd_ready:
  "ready e \<Longrightarrow> wpa_driver_nl80211_driver_cmd e cmd buf s =
    (case cmd_chain e cmd buf s of None \<Rightarrow> None
     | Some (r, handled, cmd', buf', s') \<Rightarrow>
         if handled then Some (r, buf', s') else Some (private_cmd e cmd' buf' s'))"
  by (auto simp: ready_def wpa_driver_nl80211_driver_cmd_def)

lemma begins_Cons: "begins (x # p) (c # cs) \<longleftrightarrow> x = c \<and> begins p cs"
  by (auto simp: begins_def)

lemma begins_ci_Cons: "begins_ci (x # p) (c # cs) \<longleftrightarrow> lower x = lower c \<and> begins_ci p cs"
  by (auto simp: begins_ci_def)

lemma same_ci_Cons: "same_ci (x # p) (c # cs) \<longleftrightarrow> lower x = lower c \<and> same_ci p cs"
  by (auto simp: same_ci_def)

lemma begins_Nil [simp]: "begins [] t" "begins_ci [] t"
  by (simp_all add: begins_def begins_ci_def)

lemmas begins_rules = begins_Cons begins_ci_Cons same_ci_Cons

section \<open>Commands of the P2P group\<close>

lemma chain_noa:
  "cmd_chain e (''P2P_SET_NOA'' @ t) buf s = cmd_p2p e (''P2P_SET_NOA'' @ t) buf s (cmd_driver e (''P2P_SET_NOA'' @ t) buf s)"
  by (simp add: cmd_chain_def cmd_basic_def cmd_hotspot_def cmd_acs_def cmd_wapi_def cmd_wfd_def cmd_sigma_def
      begins_rules lower_simps Let_def)

lemma chain_ps:
  "cmd_chain e (''P2P_SET_PS'' @ t) buf s = cmd_p2p e (''P2P_SET_PS'' @ t) buf s (cmd_driver e (''P2P_SET_PS'' @ t) buf s)"
  by (simp add: cmd_chain_def cmd_basic_def cmd_hotspot_def cmd_acs_def cmd_wapi_def cmd_wfd_def cmd_sigma_def
      begins_rules lower_simps Let_def)

lemma three_numbers_length:
  "is_c32 a \<Longrightarrow> is_c32 b \<Longrightarrow> is_c32 c \<Longrightarrow>
   length (show_int a @ '' '' @ show_int b @ '' '' @ show_int c) \<le> 35"
  using show_int_length[of a] show_int_length[of b] show_int_length[of c] by simp

lemma byte_c32: "is_c32 (int (unat (b :: byte)))"
proof -
  have "unat b < 2 ^ LENGTH(8)" by (rule unsigned_less)
  then obtain n where n: "unat b = n" "n < 256" by simp
  then show ?thesis unfolding n(1) is_c32_def by simp
qed

lemma word_of_atoi_show: "is_c32 i \<Longrightarrow> word_of_int (c_atoi (show_int i)) = (word_of_int i :: 32 word)"
  by (simp add: atoi_show_int)

text \<open>
  C24: The notice of absence given to \<open>wpa_driver_set_p2p_noa\<close> is printed, dispatched, cut into words and
  read back without loss: exactly one message goes to the driver, with the count, the start as interval
  and the duration, whatever their values, and the result is the answer to it.
\<close>

theorem p2p_noa_sent:
  assumes "ready e" "bss_ifname e \<noteq> ''ap0''" "messages_work e" "48 \<le> MAX_DRV_CMD_SIZE e"
    and "is_c32 start" "is_c32 duration"
  shows "wpa_driver_set_p2p_noa e count start duration s =
    (let m = TestMode (hdr_index 1) 28 (TmNoa 4 0 (ucast count) (word_of_int start) (word_of_int duration))
     in Some (tm_result e (wevs s @ [m]), emit m s))"
proof -
  let ?c = "int (unat count)"
  let ?n = "show_int ?c @ '' '' @ show_int start @ '' '' @ show_int duration"
  let ?t = "''P2P_SET_NOA'' @ '' '' @ ?n"
  have l: "length ?t \<le> MAX_DRV_CMD_SIZE e - 1"
    using three_numbers_length[OF byte_c32[of count] assms(5,6)] assms(4) by simp
  have p: "snd (c_snprintf (MAX_DRV_CMD_SIZE e) [] (''P2P_SET_NOA '' @ show_nat (unat count) @ '' ''
      @ show_int start @ '' '' @ show_int duration)) = ?t"
    using l assms(4) by (simp add: c_snprintf_def show_int_def)
  have a: "cmd_argv ?t = Some [''P2P_SET_NOA'', show_int ?c, show_int start, show_int duration]"
    using argv_of_numbers[of "''P2P_SET_NOA''" ?c start duration] by (simp add: plain_word_def)
  have u: "word_of_int ?c = (ucast count :: 32 word)" by simp
  have n: "p2p_ctrl_iface_set_noa e ?t s = Some (tm_send e 1 28 (TmNoa 4 0 (ucast count)
      (word_of_int start) (word_of_int duration)) s)"
    unfolding p2p_ctrl_iface_set_noa_def a
    using word_of_atoi_show[OF byte_c32[of count]] word_of_atoi_show[OF assms(5)] word_of_atoi_show[OF assms(6)] u
    by simp
  show ?thesis
    unfolding wpa_driver_set_p2p_noa_def p Let_def driver_cmd_ready[OF assms(1)] chain_noa
    using n assms(2,3) by (simp add: cmd_p2p_def begins_Cons with_wpa_def tm_send_done messages_work_def)
qed

theorem p2p_noa_sent_witness:
  "wpa_driver_set_p2p_noa wenv0 255 (- 100) 2147483647 wst0 =
    Some (0, emit (TestMode (hdr_index 1) 28 (TmNoa 4 0 255 (- 100) 2147483647)) wst0)"
  using p2p_noa_sent[of wenv0 "- 100" 2147483647 255 wst0]
  by (simp add: ready_def messages_work_def wenv0_def is_c32_def Let_def)

text \<open>The opportunistic power save keeps the window, with bit 7 for its switch; the legacy mode is not used.\<close>

lemma p2p_ps_sent:
  assumes "ready e" "bss_ifname e \<noteq> ''ap0''" "messages_work e" "48 \<le> MAX_DRV_CMD_SIZE e"
    and "is_c32 legacy" "is_c32 opp" "is_c32 ctw"
  shows "wpa_driver_set_p2p_ps e legacy opp ctw s =
    (let m = TestMode (hdr_index 1) 16 (TmSigma 107 (if opp \<noteq> 0 then word_of_int ctw OR 128 else word_of_int ctw))
     in Some (tm_result e (wevs s @ [m]), emit m s))"
proof -
  let ?n = "show_int legacy @ '' '' @ show_int opp @ '' '' @ show_int ctw"
  let ?t = "''P2P_SET_PS'' @ '' '' @ ?n"
  have l: "length ?t \<le> MAX_DRV_CMD_SIZE e - 1"
    using three_numbers_length[OF assms(5-7)] assms(4) by simp
  have p: "snd (c_snprintf (MAX_DRV_CMD_SIZE e) [] (''P2P_SET_PS '' @ show_int legacy @ '' ''
      @ show_int opp @ '' '' @ show_int ctw)) = ?t"
    using l assms(4) by (simp add: c_snprintf_def)
  have a: "cmd_argv ?t = Some [''P2P_SET_PS'', show_int legacy, show_int opp, show_int ctw]"
    using argv_of_numbers[of "''P2P_SET_PS''" legacy opp ctw] by (simp add: plain_word_def)
  have n: "p2p_ctrl_iface_set_ps e ?t s = Some (tm_send e 1 16 (TmSigma 107
      (if opp \<noteq> 0 then word_of_int ctw OR 128 else word_of_int ctw)) s)"
    unfolding p2p_ctrl_iface_set_ps_def a
    using atoi_show_int[OF assms(6)] atoi_show_int[OF assms(7)] by (simp add: Let_def push_bit_eq_mult)
  show ?thesis
    unfolding wpa_driver_set_p2p_ps_def p Let_def driver_cmd_ready[OF assms(1)] chain_ps
    using n assms(2,3) by (simp add: cmd_p2p_def begins_Cons with_wpa_def tm_send_done messages_work_def)
qed

section \<open>Commands of no known kind\<close>

definition other_command :: "string \<Rightarrow> bool" where
  "other_command cmd = (cmd \<noteq> [] \<and> lower (hd cmd) \<notin> set ''pgmcsrbw'')"

lemma chain_other:
  assumes "other_command cmd"
  shows "cmd_chain e cmd buf s = cmd_transparent e cmd buf s"
proof -
  obtain c cs where c: "cmd = c # cs" "lower c \<notin> set ''pgmcsrbw''"
    using assms by (cases cmd) (simp_all add: other_command_def)
  have l: "lower (CHR ''P'') = CHR ''p''" "lower (CHR ''G'') = CHR ''g''" "lower (CHR ''M'') = CHR ''m''"
    "lower (CHR ''C'') = CHR ''c''" "lower (CHR ''S'') = CHR ''s''" "lower (CHR ''p'') = CHR ''p''"
    "lower (CHR ''g'') = CHR ''g''" "lower (CHR ''m'') = CHR ''m''" "lower (CHR ''c'') = CHR ''c''"
    "lower (CHR ''s'') = CHR ''s''" "lower (CHR ''r'') = CHR ''r''" "lower (CHR ''b'') = CHR ''b''"
    "lower (CHR ''w'') = CHR ''w''"
    by (simp_all add: lower_simps)
  have n: "CHR ''M'' \<noteq> c" "CHR ''S'' \<noteq> c" "CHR ''P'' \<noteq> c" "CHR ''p'' \<noteq> c" "CHR ''w'' \<noteq> c"
    using c(2) l by auto
  have m: "lower c \<noteq> CHR ''p''" "lower c \<noteq> CHR ''g''" "lower c \<noteq> CHR ''m''" "lower c \<noteq> CHR ''c''"
    "lower c \<noteq> CHR ''s''" "lower c \<noteq> CHR ''r''" "lower c \<noteq> CHR ''b''" "lower c \<noteq> CHR ''w''"
    using c(2) by auto
  note m' = m[symmetric]
  show ?thesis
    unfolding c(1) cmd_chain_def cmd_basic_def cmd_hotspot_def cmd_acs_def cmd_wapi_def cmd_wfd_def
      cmd_sigma_def cmd_p2p_def cmd_driver_def
    using n m' by (simp add: begins_rules l)
qed

text \<open>
  A command of no known kind is sent to the driver twice, as a test mode string and through the
  private ioctl, if it has at most 92 characters; a longer one sends bytes behind the local array.  What
  the driver answers is lost: the caller gets zeros and 0, or FAIL and the positive number 5.
\<close>

theorem other_commands_forwarded:
  assumes "ready e" "messages_work e" "other_command cmd"
  shows "wpa_driver_nl80211_driver_cmd e cmd buf s =
    (if 92 < length cmd then None
     else
       let s1 = emit (TestMode (hdr_index 102) (8 + length cmd) (TmStr cmd)) s;
           s2 = emit (DevPrivate (take 15 (bss_ifname e)) (cmd @ [CHR 0x00]) (length cmd + 1)) s1;
           zeros = replicate (length buf) (CHR 0x00)
       in if priv_result e (wevs s2) < 0
          then Some (5, snprintf_at zeros 0 (''FAIL'' @ [CHR 0x0A]), wpa_driver_send_hang_msg e s2)
          else Some (0, zeros, s2\<lparr>drv_errors := 0\<rparr>))"
proof (cases "92 < length cmd")
  case True
  then show ?thesis
    unfolding driver_cmd_ready[OF assms(1)] chain_other[OF assms(3)]
    using assms(2) by (simp add: cmd_transparent_def messages_work_def)
next
  case False
  let ?s1 = "emit (TestMode (hdr_index 102) (8 + length cmd) (TmStr cmd)) s"
  have t: "cmd_transparent e cmd buf s =
      Some (tm_result e (wevs s @ [TestMode (hdr_index 102) (8 + length cmd) (TmStr cmd)]), False, cmd, buf, ?s1)"
    using False assms(2) by (simp add: cmd_transparent_def messages_work_def tm_send_done)
  have w: "\<not> begins_ci ''WLS_BATCHING'' cmd"
    using assms(3) by (cases cmd) (auto simp: other_command_def begins_ci_Cons lower_capital)
  have k: "take (length cmd + 1) (cmd @ [CHR 0x00]) = cmd @ [CHR 0x00]" by simp
  show ?thesis
    unfolding driver_cmd_ready[OF assms(1)] chain_other[OF assms(3)] t option.case prod.case
    using False w k by (simp add: private_cmd_def Let_def PRIV_CMD_SIZE_def IFNAMSIZ_def del: take_append)
qed

theorem other_commands_forwarded_witness:
  "\<exists>s'. wpa_driver_nl80211_driver_cmd wenv0 ''LINKSPEED'' (replicate 4 (CHR ''x'')) wst0 =
     Some (0, replicate 4 (CHR 0x00), s')
   \<and> wpa_driver_nl80211_driver_cmd wenv0 (replicate 93 (CHR ''X'')) [] wst0 = None"
proof -
  have r: "ready wenv0" "messages_work wenv0" by (simp_all add: ready_def messages_work_def wenv0_def)
  have o: "other_command ''LINKSPEED''" "other_command (replicate 93 (CHR ''X''))"
    by (simp_all add: other_command_def lower_simps)
  show ?thesis
    using other_commands_forwarded[OF r o(1), of "replicate 4 (CHR ''x'')" wst0]
      other_commands_forwarded[OF r o(2), of "[]" wst0]
    by (simp add: Let_def wenv0_def)
qed

section \<open>Pointers that point to nothing\<close>

lemma ap0_macaddr:
  assumes "ready e" "bss_ifname e = ''ap0''"
  shows "wpa_driver_nl80211_driver_cmd e ''MACADDR'' buf s = None"
  unfolding driver_cmd_ready[OF assms(1)]
  using assms(2) by (simp add: cmd_chain_def cmd_basic_def begins_rules lower_simps Let_def with_wpa_def)

lemma opps_without_address: "p2p_ctrl_iface_set_opps e ''10'' s = None"
  by (simp add: p2p_ctrl_iface_set_opps_def after_blank_def)

text \<open>The limit for clients is set, but the caller is told that it is not.\<close>

lemma max_client_result:
  assumes "ready e" "c_hotspot e"
  shows "\<exists>s'. wpa_driver_nl80211_driver_cmd e (''set_max_client '' @ t) buf s = Some (- 1, buf, s')
    \<and> s' = snd (wpa_driver_set_max_client e t s)"
  unfolding driver_cmd_ready[OF assms(1)]
  using assms(2) by (simp add: cmd_chain_def cmd_basic_def cmd_hotspot_def begins_rules lower_simps Let_def)

section \<open>Where every access is inside its object\<close>

text \<open>
  What the caller has to see to: the interface is not ap0; the four commands that read or write the buffer
  as something else than text come with one that is large enough, and the structures in it keep their limits; the
  command for the opportunistic power save of the conformance test has a blank behind its first word.
\<close>

definition proper_call :: "wenv \<Rightarrow> string \<Rightarrow> string \<Rightarrow> bool" where
  "proper_call e cmd buf =
     (bss_ifname e \<noteq> ''ap0''
      \<and> (begins ''MTK-ACS'' cmd \<longrightarrow> buf \<noteq> [])
      \<and> (begins_ci ''set-wapi-key'' cmd \<longrightarrow>
           sizeof_wapi_key_param \<le> length buf \<and> addr_readable (wa_addr (wapi_in e))
           \<and> copy_in 32 (wa_key (wapi_in e)) (wa_key_len (wapi_in e)) \<noteq> None
           \<and> copy_in 16 (wa_seq (wapi_in e)) (min 16 (wa_seq_len (wapi_in e))) \<noteq> None)
      \<and> (begins_ci ''wapi-msg-send'' cmd \<longrightarrow> sizeof_wapi_msg_send_param \<le> length buf)
      \<and> (begins ''wfd_data_update'' cmd \<longrightarrow>
           sizeof_wfd_data_s e \<le> length buf
           \<and> copy_in 192 (Some (WfdSessionInformationIE (wfd_in e))) (unat (WfdSessionInformationIELen (wfd_in e))) \<noteq> None)
      \<and> (begins ''p2p_set_opps '' cmd \<longrightarrow> after_blank (drop 13 cmd) \<noteq> None))"

definition safe :: "'a option \<Rightarrow> bool" where
  "safe r = (r \<noteq> None)"

lemma safe_intros:
  "safe (Some x)"
  "(c \<Longrightarrow> safe a) \<Longrightarrow> (\<not> c \<Longrightarrow> safe b) \<Longrightarrow> safe (if c then a else b)"
  "(\<And>x y. p = (x, y) \<Longrightarrow> safe (f x y)) \<Longrightarrow> safe (case p of (x, y) \<Rightarrow> f x y)"
  "(r = None \<Longrightarrow> safe a) \<Longrightarrow> (\<And>x. r = Some x \<Longrightarrow> safe (g x)) \<Longrightarrow> safe (case r of None \<Rightarrow> a | Some x \<Rightarrow> g x)"
  by (simp_all add: safe_def split: prod.splits option.splits)

lemma safe_with_wpa: "bss_ifname e \<noteq> ''ap0'' \<Longrightarrow> safe r \<Longrightarrow> safe (with_wpa e r)"
  by (simp add: with_wpa_def)

lemma cmd_basic_safe:
  assumes "bss_ifname e \<noteq> ''ap0''" "safe rest"
  shows "safe (cmd_basic e cmd buf s rest)"
  unfolding cmd_basic_def cmd_country_def cmd_stop_def cmd_rxfilter_def Let_def
  by (intro safe_intros safe_with_wpa assms)

lemma cmd_hotspot_safe: "safe rest \<Longrightarrow> safe (cmd_hotspot e cmd buf s rest)"
  unfolding cmd_hotspot_def Let_def by (intro safe_intros)

lemma cmd_acs_safe: "proper_call e cmd buf \<Longrightarrow> safe rest \<Longrightarrow> safe (cmd_acs e cmd buf s rest)"
  unfolding cmd_acs_def Let_def by (intro safe_intros) (simp_all add: proper_call_def)

lemma cmd_wapi_safe:
  assumes "proper_call e cmd buf" "safe rest"
  shows "safe (cmd_wapi e cmd buf s rest)"
proof -
  have "safe (wpa_driver_nl80211_set_wapi_key e (wapi_in e) s)" if c: "begins_ci ''set-wapi-key'' cmd"
  proof (cases "16 < wa_seq_len (wapi_in e)")
    case False
    then obtain k q where "copy_in 32 (wa_key (wapi_in e)) (wa_key_len (wapi_in e)) = Some k"
        "copy_in 16 (wa_seq (wapi_in e)) (wa_seq_len (wapi_in e)) = Some q" "addr_readable (wa_addr (wapi_in e))"
      using assms(1) c by (auto simp: proper_call_def)
    then show ?thesis
      by (simp add: wpa_driver_nl80211_set_wapi_key_def IW_ENCODE_SEQ_MAX_SIZE_def Let_def safe_def)
  qed (simp add: wpa_driver_nl80211_set_wapi_key_def IW_ENCODE_SEQ_MAX_SIZE_def safe_def)
  then show ?thesis
    unfolding cmd_wapi_def using assms by (auto simp: safe_def proper_call_def split: option.splits)
qed

lemma cmd_wfd_safe:
  assumes "proper_call e cmd buf" "safe rest"
  shows "safe (cmd_wfd e cmd buf s rest)"
proof -
  have n: "bss_ifname e \<noteq> ''ap0''" using assms(1) by (simp add: proper_call_def)
  have "wpas_wfd_data_update e (wfd_in e) s \<noteq> None" "\<not> length buf < sizeof_wfd_data_s e" if "begins ''wfd_data_update'' cmd"
    using assms(1) that by (auto simp: proper_call_def wpas_wfd_data_update_def)
  then show ?thesis
    unfolding cmd_wfd_def cmd_miracast_def Let_def by (intro safe_intros safe_with_wpa n assms(2)) simp_all
qed

lemma cmd_sigma_safe:
  assumes "proper_call e cmd buf" "safe rest"
  shows "safe (cmd_sigma e cmd buf s rest)"
proof -
  have n: "bss_ifname e \<noteq> ''ap0''" using assms(1) by (simp add: proper_call_def)
  have "p2p_ctrl_iface_set_opps e (drop 13 cmd) s \<noteq> None" if "begins ''p2p_set_opps '' cmd"
    using that assms(1) by (auto simp: proper_call_def p2p_ctrl_iface_set_opps_def)
  then show ?thesis
    unfolding cmd_sigma_def Let_def by (intro safe_intros safe_with_wpa n assms(2)) simp
qed

lemma tokenize_length: "length (tokenize_space cur t) \<le> length t + 1"
  by (induction cur t rule: tokenize_space.induct) auto

lemma tokenize_prefix: "plain_word w \<Longrightarrow> tokenize_space cur (w @ t) = tokenize_space (cur @ w) t"
  by (induction w arbitrary: cur) (simp_all add: plain_word_def)

lemma cmd_argv_short:
  assumes "begins w cmd" "plain_word w" "length cmd < length w + ARGV_SIZE"
  shows "cmd_argv cmd \<noteq> None"
proof -
  have c: "cmd = w @ drop (length w) cmd" using assms(1) by (metis append_take_drop_id begins_def)
  have "tokenize_space [] cmd = tokenize_space w (drop (length w) cmd)"
    using tokenize_prefix[OF assms(2), of "[]" "drop (length w) cmd"] c by simp
  then have "length (tokenize_space [] cmd) \<le> length (drop (length w) cmd) + 1"
    using tokenize_length[of w "drop (length w) cmd"] by simp
  then show ?thesis using assms(3) by (simp add: cmd_argv_def ARGV_SIZE_def Let_def)
qed

lemma cmd_p2p_safe:
  assumes "bss_ifname e \<noteq> ''ap0''" "length cmd \<le> 73" "safe rest"
  shows "safe (cmd_p2p e cmd buf s rest)"
proof -
  have "p2p_ctrl_iface_set_noa e cmd s \<noteq> None" if "begins ''P2P_SET_NOA'' cmd"
    using that cmd_argv_short[of "''P2P_SET_NOA''" cmd] assms(2)
    by (auto simp: p2p_ctrl_iface_set_noa_def plain_word_def ARGV_SIZE_def)
  moreover have "p2p_ctrl_iface_set_ps e cmd s \<noteq> None" if "begins ''P2P_SET_PS'' cmd"
    using that cmd_argv_short[of "''P2P_SET_PS''" cmd] assms(2)
    by (auto simp: p2p_ctrl_iface_set_ps_def plain_word_def ARGV_SIZE_def Let_def)
  ultimately show ?thesis
    unfolding cmd_p2p_def by (intro safe_intros safe_with_wpa assms(1,3)) simp_all
qed

lemma cmd_driver_safe: "length cmd \<le> 92 \<Longrightarrow> safe (cmd_driver e cmd buf s)"
  unfolding cmd_driver_def cmd_filter_def cmd_transparent_def Let_def by (intro safe_intros) simp

text \<open>
  C20: A command of at most 73 characters on an interface other than ap0 is carried out without an access
  outside an object, whatever the configuration and the answers of the kernel: a \<open>p2p_set_opps\<close> command has
  to have its second blank, and the four commands that do not take the buffer for text (\<open>MTK-ACS\<close>,
  \<open>set-wapi-key\<close>, \<open>wapi-msg-send\<close>, \<open>wfd_data_update\<close>) a buffer as large as what is read or written there,
  with lengths that fit the arrays they are copied to.
\<close>

theorem short_commands_safe:
  assumes "proper_call e cmd buf" "length cmd \<le> 73"
  shows "\<exists>r buf' s'. wpa_driver_nl80211_driver_cmd e cmd buf s = Some (r, buf', s')"
proof -
  have n: "bss_ifname e \<noteq> ''ap0''" using assms(1) by (simp add: proper_call_def)
  have "length cmd \<le> 92" using assms(2) by simp
  then have "safe (cmd_chain e cmd buf s)"
    unfolding cmd_chain_def
    by (intro cmd_basic_safe cmd_hotspot_safe cmd_acs_safe cmd_wapi_safe cmd_wfd_safe cmd_sigma_safe
        cmd_p2p_safe cmd_driver_safe n assms)
  then obtain r h cmd1 buf1 s1 where "cmd_chain e cmd buf s = Some (r, h, cmd1, buf1, s1)"
    by (auto simp: safe_def)
  then show ?thesis
    by (cases "private_cmd e cmd1 buf1 s1") (simp add: wpa_driver_nl80211_driver_cmd_def)
qed

theorem short_commands_safe_witness:
  "\<exists>r buf' s'. wpa_driver_nl80211_driver_cmd wenv0 ''p2p_set_opps 10 2:0:0:0:0:2'' ''????'' wst0 = Some (r, buf', s')"
  by (rule short_commands_safe)
     (simp_all add: proper_call_def wenv0_def copy_in_def write_at_def after_blank_def begins_def begins_ci_def lower_simps)

text \<open>The bound is exact for the words: 65 blanks behind the name are one word too many.\<close>

lemma tokenize_blanks: "tokenize_space cur (replicate (Suc n) (CHR '' '')) = cur # replicate n []"
  by (induction n arbitrary: cur) simp_all

lemma too_many_words: "cmd_argv (''P2P_SET_NOA'' @ replicate (Suc n) (CHR '' '')) = None \<longleftrightarrow> 64 \<le> n"
proof -
  have "tokenize_space [] (''P2P_SET_NOA'' @ replicate (Suc n) (CHR '' '')) = ''P2P_SET_NOA'' # replicate n []"
    by (subst tokenize_prefix) (simp_all add: plain_word_def tokenize_blanks del: replicate_Suc)
  then show ?thesis by (simp add: cmd_argv_def ARGV_SIZE_def del: replicate_Suc)
qed

end
