(* ===== verification/Spec2Isabelle.thy ===== *)
theory Spec2Isabelle
  imports Lights Bt_Vendor Gps_Order Ccci Rild Ril_Event Ril_Queue Ril_Service Wpa_Cmd
begin

text \<open>
  A verification development of the C hardware abstraction layers of this repository, a device
  tree for a MediaTek phone.

  \<^bold>\<open>The program.\<close>  Under \<open>src/hal\<close> every directory is a library that the Android framework loads and
  calls through a table of functions.  Modelled here are the lights library (\<open>liblights/lights.c\<close>),
  the Bluetooth vendor library (\<open>bluedroid/mtk.c\<close>, \<open>bt_drv.c\<close>, \<open>radiomgr.c\<close>, \<open>radiomod.c\<close>), the
  GPS library (\<open>gps/hal/gps_mtk_aosp.c\<close>), the modem settings and the power library
  (\<open>ccci_lib/ccci_lib.c\<close>, \<open>power/power.c\<close>), the launcher of the radio daemon (\<open>ril/rild/rild.c\<close>), its
  event loop, its requests and the radio service (\<open>ril/libril\<close>) and the
  driver library of the WPA supplicant (\<open>wpa_supplicant_8_lib\<close>).  The libraries do
  not call each other; inside the Bluetooth library \<open>mtk.c\<close> calls \<open>radiomgr.c\<close>, whose thread runs
  the command tables of \<open>radiomod.c\<close>, and inside the GPS library the NMEA reader calls the AT test
  procedure, which stops the daemon through the messages, and the GPS thread runs the reader, the AT
  commands and the handler of the daemon's messages.

  \<^bold>\<open>The theories.\<close>
  \<^item> \<open>X3_Prelude\<close>: signed 32-bit arithmetic (\<open>c32\<close>), bounded reads and writes of an array, with
    \<open>None\<close> for an access outside it, little-endian encodings, decimal texts.
  \<^item> \<open>C_Text\<close>: the functions of the C library on texts that several components call (\<open>atoi\<close>, \<open>strtol\<close>,
    comparison of beginnings, \<open>snprintf\<close>); \<open>atoi\<close> reads back what is printed.
  \<^item> \<open>Lights\<close>: \<open>lights.c\<close>.  \<open>lights_st\<close> holds the globals and the trace of system calls; \<open>blink_led\<close>
    is the common body of \<open>blink_red/green/blue\<close>, and every \<open>set_light_*\<close> is one step.  Lemmas: the
    three channels meet the locale \<open>led_bank\<close>; the channels refine the specification of which
    source is shown; the sysfs nodes agree with the remembered state.
  \<^item> \<open>Bt_Hci\<close>: the command builders, event handlers, tables and the NVRAM record of \<open>radiomod.c\<close>;
    locale \<open>hci_commands\<close> is what a command owes the init thread.
  \<^item> \<open>Bt_Init\<close>: \<open>radiomgr.c\<close> and \<open>GORM_FW_Init_Thread\<close>.  The thread is a program counter with one
    executable step per section between two accesses of shared state; events and termination
    requests interleave freely.  Lemmas: reachable states follow the plan of commands; packets are
    well formed; the thread stops after at most 4n+4 steps for a script of n commands.
  \<^item> \<open>Bt_Vendor\<close>: the UART, chip id, NVRAM and ioctl operations of \<open>mtk.c\<close> and the dispatch of
    \<open>bt_drv.c\<close>.
  \<^item> \<open>Gps_Buff\<close>: \<open>buff_put_*\<close> and \<open>buff_get_*\<close>; locale \<open>field_codec\<close> states the round trip of one
    kind of field and carries it to sequences.
  \<^item> \<open>Gps_Msg\<close>: \<open>mtk_daemon_send\<close> and everything the library sends to the daemon, and the text
    conversions.  The unbounded \<open>EINTR\<close> loop is a partial function; that it returns is proved from
    an attempt that is not interrupted.
  \<^item> \<open>Gps_At\<close>: the globals and operations of the AT test mode and the AT command parsers.  Undefined
    behaviours are listed in \<open>ub\<close>; after the first one the model is not meaningful.
  \<^item> \<open>Gps_Nmea\<close>: the tokenizer, the number conversions, the sentence parser, the satellite tables
    and \<open>nmea_reader_addc\<close>.  \<open>reader\<close> is \<open>NmeaReader\<close> together with the globals the parser uses;
    locale \<open>sv_table\<close> is the contract of the two satellite tables.
  \<^item> \<open>Gps_Epo\<close>: the EPO configuration file, the calendar of \<open>GpsToUtcTime\<close>, the times and the expiry
    of the orbit file, the download of its pieces and the rounds of \<open>thread_epo_file_update\<close>.  The
    files are a map in \<open>epo_st\<close>; \<open>epo_wf\<close> is the invariant of the download.

  \<^item> \<open>Gps_Dispatch\<close>: \<open>safe_read\<close> and \<open>mnld_to_gps_handler\<close>.  The handler turns a message of the daemon into
    a list of actions (\<open>act\<close>): callbacks and accesses to what the threads share (\<open>sess\<close>).
  \<^item> \<open>Gps_Session\<close>: the entry points of \<open>GpsInterface\<close>, \<open>gps_state_thread\<close>, the locks and the flags.  A
    thread is the list of actions it has left, \<open>exec\<close> one action, \<open>sess_step\<close> one event; events come in
    any order, so the framework's thread, the GPS thread and the download interleave between any two
    actions.  A call that waits is a list whose first action is blocked.  Lemmas: every reachable
    state is typed; an injected location is what the daemon is sent later.
  \<^item> \<open>Gps_Control\<close>: the control machine (programs, locks, flags, callbacks) and the simulation of the
    session by it in a world whose system calls succeed; runs are computed on it.
  \<^item> \<open>Gps_Lifecycle\<close>: calls that never return; locale \<open>held_call\<close> is an invariant that keeps a call
    pending, with one interpretation for each such call; a start in which the daemon dies.
  \<^item> \<open>Gps_Order\<close>: two invariants over all interleavings: at most one active GPS thread (which justifies
    its single field in \<open>sess\<close>), and the order in which the framework hears of sessions; a start that
    comes to its end whatever the other threads do.

  \<^item> \<open>Ccci\<close>: \<open>parse_info\<close> character by character and the queries built on it, proved equal to the lookup
    in a list of settings; the hints of \<open>power.c\<close>.
  \<^item> \<open>Rild\<close>: options, arguments, change of user and \<open>main\<close> of the launcher as a list of what it did; code of the
    vendor only runs when the credentials, as the calls that succeeded have made them, are the reduced ones.
  \<^item> \<open>Ril_Event\<close>: \<open>ril_event.cpp\<close>, the event loop of the radio daemon.  A structure is a number and every
    field a function on them (\<open>est\<close>), so that the pointers are those of the code; \<open>ev_rep\<close> relates them to
    lists, and rounds of the loop are proved to be rounds on these lists.  A callback is the list of
    calls it makes; it is \<open>polite\<close> when it enters no event twice.
  \<^item> \<open>Ril_Tables\<close>, \<open>Ril_Buffers\<close>, \<open>Ril_Requests\<close>: the requests of \<open>ril.cpp\<close> and \<open>ril_service.cpp\<close>: the tables
    of requests and indications; memory as blocks at addresses, \<open>None\<close> for a bad access; and the state
    \<open>rst\<close> with the lists, queues and flags, on which every dispatch function, \<open>RIL_onRequestAck\<close> and
    \<open>RIL_onRequestComplete\<close> is one step.  The vendor's library completes only tokens it has been given.
  \<^item> \<open>Ril_Answers\<close>, \<open>Ril_Queue\<close>: the invariant of memory, lists and tokens; the machine of channels, tokens
    only, which the calls refine; with it, when the channels serve one request at a time and when one
    stops for good.
  \<^item> \<open>Ril_Numbers\<close>, \<open>Ril_Methods\<close>: the methods of \<open>RadioImpl\<close> and \<open>OemHookImpl\<close> in \<open>ril_service.cpp\<close>, each
    the list of requests it makes (\<open>svc_call\<close>), whose data \<open>Ril_Requests\<close> dispatches.
  \<^item> \<open>Ril_Structs\<close>, \<open>Ril_Hidl\<close>, \<open>Ril_Cells\<close>, \<open>Ril_Responses\<close>, \<open>Ril_Indications\<close>: the other direction.  What the
    vendor gives is a \<open>resp_block\<close> with a length, which the code compares with the size of a structure
    (\<open>c_sizeof\<close>); the client of a slot is \<open>client\<close> in \<open>svc\<close>, its calls are logged as \<open>callbacks\<close>.  A response
    or an indication is a function of these to \<open>svc option\<close>; \<open>reply\<close> and \<open>indicate\<close> are their common frame,
    \<open>answers\<close> and \<open>indicates\<close> what holds of all of them.  \<open>expectations\<close> is a second, short description
    of all responses (\<open>expects\<close>): what the vendor has to give for each, and so when a success is invalid.
  \<^item> \<open>Ril_Service\<close>: both directions together: which callback answers a method, errors without a response,
    a client whose call has failed, the places of data calls; locale \<open>radio_functions\<close> is the contract of
    the functions that the tables name.
  \<^item> \<open>Wpa_Stats\<close>, \<open>Wpa_World\<close>, \<open>Wpa_P2p\<close>, \<open>Wpa_Cmd\<close>: \<open>mediatek_driver_cmd_nl80211.c\<close> from the statistics of a
    station over the test mode messages and the P2P commands to the dispatcher.  \<open>wenv\<close> is the build,
    the supplicant's objects and the answers of the kernel, each a function of the events before;
    \<open>wst\<close> is the state the commands change, with the events.  \<open>cmd_chain\<close> is the chain of comparisons, cut
    into groups that take the rest of the chain.  Lemmas: when every access is inside its object;
    commands survive printing and parsing; the frequencies in use are distinct; the polling loop ends.

  \<^bold>\<open>Parameters.\<close>  System calls, the clock, properties and the NVRAM library are oracles: functions
  from a call number, or from the call, to a result.  Floating point is a record of operations over
  an abstract type.  Constants of headers outside the repository (\<open>hardware/lights.h\<close>,
  \<open>bt_vendor_lib.h\<close>, \<open>hardware/gps.h\<close>) are parameters or constructors.

  \<^bold>\<open>Bounds and fuel.\<close>  No definition uses fuel.  The bounded loops of the code (ten attempts for the
  chip id, five restarts, ten \<open>EAGAIN\<close> retries, twelve satellites of a GSA sentence) count down the
  code's own bound; the unbounded ones are partial functions (\<open>send_loop\<close>), recursions on a measure
  (\<open>tok_loop\<close>) or steps of the thread.

  \<^bold>\<open>Configuration.\<close>  The radio library is built with \<open>MTK_HARDWARE\<close> for two slots, or without where a flag says so.  \<open>EPO_SUPPORT\<close> and the codec socket are on; \<open>GPS_AT_COMMAND\<close> is a parameter of the
  reader and the session.  Structures that travel as bytes have the layout of a 64-bit ABI.

  \<^bold>\<open>Not modelled.\<close>  Logging; the setup calls of sockets and of epoll, of which only the outcome counts;
  the methods of the radio service for broadcasts, CDMA messages, profiles and carriers, the wake lock and the delivery of indications in
  \<open>ril.cpp\<close>, the SIM access profile; the other C++ libraries (Wi-Fi, graphics, bandwidth, sensors); the
  shared metadata of graphic buffers (\<open>ge.c\<close>); symbol shims, image data, Java code, build and policy files.
\<close>

end
